(* ===== verification/Py_Prelude.thy ===== *)
theory Py_Prelude
  imports Complex_Main "HOL-Library.AList" "HOL-Library.Char_ord" "HOL-Library.List_Lexorder"
    "HOL-Library.Multiset" "HOL-Library.Product_Lexorder"
begin

text \<open>
  The part of Python the components share: JSON-like values, insertion-ordered
  dictionaries, the string methods \<open>strip\<close>, \<open>lower\<close>, \<open>startswith\<close>, \<open>join\<close> and
  \<open>str(int)\<close>.

  A \<^typ>\<open>char\<close> stands for a code point between U+0000 and U+00FF; on this range the
  white space and the lower-case mapping below are exactly those of \<open>str.strip\<close> and
  \<open>str.lower\<close>. Points in time and durations, Python floats in the source, are exact
  rationals. A float value is a finite one (no infinity, no NaN).
\<close>

named_theorems dict_simps \<open>lookups in updated dictionaries\<close>
named_theorems str_simps \<open>facts about normalised strings\<close>

section \<open>Values\<close>

type_synonym seconds = rat

datatype pyval =
    PNone
  | PBool bool
  | PInt int
  | PFloat rat
  | PStr string
  | PList "pyval list"
  | PDict "(string \<times> pyval) list"

type_synonym mapping = "(string \<times> pyval) list"

fun as_str :: "pyval \<Rightarrow> string option" where
  "as_str (PStr s) = Some s"
| "as_str _ = None"

fun as_mapping :: "pyval \<Rightarrow> mapping option" where
  "as_mapping (PDict d) = Some d"
| "as_mapping _ = None"

text \<open>Python's truth value of a JSON-like value.\<close>

fun truthy :: "pyval \<Rightarrow> bool" where
  "truthy PNone = False"
| "truthy (PBool b) = b"
| "truthy (PInt i) = (i \<noteq> 0)"
| "truthy (PFloat q) = (q \<noteq> 0)"
| "truthy (PStr s) = (s \<noteq> [])"
| "truthy (PList xs) = (xs \<noteq> [])"
| "truthy (PDict d) = (d \<noteq> [])"

section \<open>Dictionaries\<close>

text \<open>
  A dictionary is an association list in insertion order. Assigning to a present key
  keeps its position, a new key goes to the end, and deletion removes the key; these are
  \<^const>\<open>AList.update\<close> and \<^const>\<open>AList.delete\<close> of the library. The keys of a dictionary are
  distinct.
\<close>

abbreviation dset :: "'k \<Rightarrow> 'v \<Rightarrow> ('k \<times> 'v) list \<Rightarrow> ('k \<times> 'v) list" where
  "dset \<equiv> AList.update"

abbreviation ddel :: "'k \<Rightarrow> ('k \<times> 'v) list \<Rightarrow> ('k \<times> 'v) list" where
  "ddel \<equiv> AList.delete"

abbreviation wf_dict :: "('k \<times> 'v) list \<Rightarrow> bool" where
  "wf_dict d \<equiv> distinct (map fst d)"

text \<open>\<open>d.get(key)\<close> on a mapping of values: \<open>None\<close> when the key is absent.\<close>

definition dget :: "mapping \<Rightarrow> string \<Rightarrow> pyval" where
  "dget d k = (case map_of d k of None \<Rightarrow> PNone | Some v \<Rightarrow> v)"

text \<open>\<open>{**a, **b}\<close> and \<open>a.update(b)\<close>.\<close>

definition dmerge :: "('k \<times> 'v) list \<Rightarrow> ('k \<times> 'v) list \<Rightarrow> ('k \<times> 'v) list" where
  "dmerge a b = fold (\<lambda>(k, v). dset k v) b a"

text \<open>Add a key only when there is a value for it, as \<open>if v is not None: d[k] = v\<close> does.\<close>

definition dset_opt :: "'k \<Rightarrow> 'v option \<Rightarrow> ('k \<times> 'v) list \<Rightarrow> ('k \<times> 'v) list" where
  "dset_opt k v d = (case v of None \<Rightarrow> d | Some x \<Rightarrow> dset k x d)"

text \<open>\<open>d or None\<close> for a dictionary.\<close>

definition dict_or_none :: "mapping \<Rightarrow> mapping option" where
  "dict_or_none d = (if d = [] then None else Some d)"

text \<open>Lookups stay lookups: the component proofs never go through \<open>set d\<close>.\<close>

declare map_of_eq_Some_iff [simp del] Some_eq_map_of_iff [simp del]

lemma map_of_dset [simp, dict_simps]:
  "map_of (dset k v d) k' = (if k' = k then Some v else map_of d k')"
  by (simp add: update_conv')

lemma map_of_ddel [dict_simps]:
  "map_of (ddel k d) k' = (if k' = k then None else map_of d k')"
  by (simp add: delete_conv')

lemma map_of_ddel_same [simp]: "map_of (ddel k d) k = None"
  by (simp add: delete_conv')

lemma wf_dset [simp, intro]: "wf_dict d \<Longrightarrow> wf_dict (dset k v d)"
  by (rule distinct_update)

lemma wf_ddel [simp, intro]: "wf_dict d \<Longrightarrow> wf_dict (ddel k d)"
  by (rule distinct_delete)

lemma dget_dset [simp, dict_simps]:
  "dget (dset k v d) k' = (if k' = k then v else dget d k')"
  by (simp add: dget_def)

lemma map_of_dset_opt [simp, dict_simps]:
  "map_of (dset_opt k v d) k' = (if k' = k \<and> v \<noteq> None then v else map_of d k')"
  by (auto simp: dset_opt_def split: option.splits)

lemma wf_dset_opt [simp, intro]: "wf_dict d \<Longrightarrow> wf_dict (dset_opt k v d)"
  by (auto simp: dset_opt_def split: option.splits)

lemma wf_filter [simp, intro]: "wf_dict d \<Longrightarrow> wf_dict (filter P d)"
  by (induction d) (auto simp: image_iff)

lemma map_of_filter_wf:
  "wf_dict d \<Longrightarrow> map_of (filter P d) k =
     (case map_of d k of None \<Rightarrow> None | Some v \<Rightarrow> if P (k, v) then Some v else None)"
proof (induction d)
  case Nil
  then show ?case by simp
next
  case (Cons p d)
  obtain k' v' where p: "p = (k', v')" by (cases p)
  show ?case
  proof (cases "k = k'")
    case True
    with Cons.prems p have "map_of d k = None" by (auto simp: map_of_eq_None_iff)
    with Cons p True show ?thesis by (auto split: option.splits)
  next
    case False
    with Cons p show ?thesis by auto
  qed
qed

lemma wf_dmerge [simp, intro]: "wf_dict a \<Longrightarrow> wf_dict (dmerge a b)"
  unfolding dmerge_def by (induction b arbitrary: a) auto

lemma map_of_dmerge:
  "wf_dict b \<Longrightarrow> map_of (dmerge a b) k =
     (case map_of b k of None \<Rightarrow> map_of a k | Some v \<Rightarrow> Some v)"
proof (induction b arbitrary: a)
  case Nil
  then show ?case by (simp add: dmerge_def)
next
  case (Cons p b)
  obtain k' v' where p: "p = (k', v')" by (cases p)
  have step: "dmerge a (p # b) = dmerge (dset k' v' a) b"
    by (simp add: dmerge_def p)
  have "map_of b k' = None"
    using Cons.prems p by (simp add: map_of_eq_None_iff)
  with Cons p show ?case unfolding step by (auto split: option.splits)
qed

text \<open>Deleting a list of keys one after the other, as \<open>for key in keys: d.pop(key, None)\<close>.\<close>

definition ddel_all :: "'k list \<Rightarrow> ('k \<times> 'v) list \<Rightarrow> ('k \<times> 'v) list" where
  "ddel_all ks d = fold ddel ks d"

lemma ddel_all_filter: "ddel_all ks d = filter (\<lambda>p. fst p \<notin> set ks) d"
proof (induction ks arbitrary: d)
  case Nil
  then show ?case by (simp add: ddel_all_def)
next
  case (Cons k ks)
  have "ddel_all (k # ks) d = ddel_all ks (ddel k d)"
    by (simp add: ddel_all_def)
  also have "\<dots> = filter (\<lambda>p. fst p \<notin> set ks) (ddel k d)"
    by (rule Cons.IH)
  also have "\<dots> = filter (\<lambda>p. fst p \<notin> set (k # ks)) d"
    by (auto simp: AList.delete_eq intro: filter_cong)
  finally show ?case .
qed

lemma ddel_all_filtered:
  assumes "wf_dict d"
  shows "ddel_all (map fst (filter (\<lambda>(_, v). P v) d)) d = filter (\<lambda>(_, v). \<not> P v) d"
  unfolding ddel_all_filter
proof (rule filter_cong [OF refl])
  fix p assume p: "p \<in> set d"
  have same: "v = snd p" if "(fst p, v) \<in> set d" for v
    using eq_key_imp_eq_value [OF assms that] p by simp
  have "fst p \<in> set (map fst (filter (\<lambda>(_, v). P v) d)) \<longleftrightarrow> (\<exists>v. (fst p, v) \<in> set d \<and> P v)"
    by (auto simp: image_iff)
  then show "fst p \<notin> set (map fst (filter (\<lambda>(_, v). P v) d)) \<longleftrightarrow> (case p of (_, v) \<Rightarrow> \<not> P v)"
    using p same by (metis case_prod_unfold prod.collapse)
qed

lemma map_of_ddel_all [dict_simps]:
  "map_of (ddel_all ks d) k = (if k \<in> set ks then None else map_of d k)"
  unfolding ddel_all_filter by (induction d) auto

lemma wf_ddel_all [simp, intro]: "wf_dict d \<Longrightarrow> wf_dict (ddel_all ks d)"
  by (simp add: ddel_all_filter)

lemma ddel_keeps_set: "set (ddel k d) \<subseteq> set d"
  by (auto simp: AList.delete_eq)

lemma set_dset: "set (dset k v d) \<subseteq> insert (k, v) (set d)"
  by (induction d) auto

lemma dset_new: "map_of d k = None \<Longrightarrow> dset k v d = d @ [(k, v)]"
  by (induction d) (auto split: if_splits)

lemma length_ddel_le: "length (ddel k d) \<le> length d"
  by (simp add: AList.delete_eq)

lemma length_dset:
  "length (dset k v d) = (if map_of d k = None then Suc (length d) else length d)"
  by (induction d) auto

section \<open>Strings\<close>

definition is_space :: "char \<Rightarrow> bool" where
  "is_space c = (let n = (of_char c :: nat)
     in (9 \<le> n \<and> n \<le> 13) \<or> (28 \<le> n \<and> n \<le> 32) \<or> n = 133 \<or> n = 160)"

definition strip :: "string \<Rightarrow> string" where
  "strip s = rev (dropWhile is_space (rev (dropWhile is_space s)))"

definition lower_char :: "char \<Rightarrow> char" where
  "lower_char c = (let n = (of_char c :: nat)
     in if (65 \<le> n \<and> n \<le> 90) \<or> (192 \<le> n \<and> n \<le> 222 \<and> n \<noteq> 215)
        then char_of (n + 32) else c)"

definition lower :: "string \<Rightarrow> string" where
  "lower s = map lower_char s"

definition startswith :: "string \<Rightarrow> string \<Rightarrow> bool" where
  "startswith s p = (take (length p) s = p)"

definition endswith :: "string \<Rightarrow> string \<Rightarrow> bool" where
  "endswith s p = startswith (rev s) (rev p)"

text \<open>\<open>needle in s\<close> for strings.\<close>

fun contains :: "string \<Rightarrow> string \<Rightarrow> bool" where
  "contains [] needle = (needle = [])"
| "contains (c # s) needle = (startswith (c # s) needle \<or> contains s needle)"

fun join :: "string \<Rightarrow> string list \<Rightarrow> string" where
  "join sep [] = []"
| "join sep [x] = x"
| "join sep (x # xs) = x @ sep @ join sep xs"

text \<open>
  \<open>value.strip() or None\<close>: the recurring normalisation of an optional string. The result,
  where there is one, is stripped and not empty.
\<close>

definition nonempty_strip :: "string \<Rightarrow> string option" where
  "nonempty_strip s = (let t = strip s in if t = [] then None else Some t)"

lemma strip_Nil [simp]: "strip [] = []"
  by (simp add: strip_def)

lemma dropWhile_idem_hd:
  "xs = [] \<or> \<not> P (hd xs) \<Longrightarrow> dropWhile P xs = xs"
  by (cases xs) auto

lemma hd_dropWhile_not: "dropWhile P xs \<noteq> [] \<Longrightarrow> \<not> P (hd (dropWhile P xs))"
  by (rule hd_dropWhile)

lemma strip_last: "strip s = [] \<or> \<not> is_space (last (strip s))"
  unfolding strip_def using hd_dropWhile_not [of is_space "rev (dropWhile is_space s)"]
  by (auto simp: last_rev)

lemma dropWhile_rev_prefix: "\<exists>w. xs = rev (dropWhile P (rev xs)) @ w"
  by (metis rev_append rev_rev_ident takeWhile_dropWhile_id)

lemma strip_hd: "strip s = [] \<or> \<not> is_space (hd (strip s))"
proof -
  obtain w where w: "dropWhile is_space s = strip s @ w"
    unfolding strip_def using dropWhile_rev_prefix by blast
  show ?thesis
  proof (cases "strip s")
    case (Cons c t)
    with w have "hd (dropWhile is_space s) = c" and "dropWhile is_space s \<noteq> []" by auto
    with Cons show ?thesis using hd_dropWhile_not [of is_space s] by simp
  qed simp
qed

lemma strip_idem [simp, str_simps]: "strip (strip s) = strip s"
proof -
  have "dropWhile is_space (strip s) = strip s"
    using strip_hd by (rule dropWhile_idem_hd)
  moreover have "dropWhile is_space (rev (strip s)) = rev (strip s)"
    using strip_last [of s] by (intro dropWhile_idem_hd) (auto simp: hd_rev)
  ultimately show ?thesis by (simp add: strip_def [of "strip s"])
qed

lemma strip_eq_Nil: "strip s = [] \<longleftrightarrow> (\<forall>c \<in> set s. is_space c)"
proof
  assume "strip s = []"
  then have "\<forall>c \<in> set (dropWhile is_space s). is_space c"
    by (auto simp: strip_def)
  then have "dropWhile is_space s = []"
    using hd_dropWhile_not [of is_space s] by (metis hd_in_set)
  then show "\<forall>c \<in> set s. is_space c" by simp
next
  assume "\<forall>c \<in> set s. is_space c"
  then show "strip s = []" by (simp add: strip_def dropWhile_eq_Nil_conv [THEN iffD2])
qed

lemma set_strip: "set (strip s) \<subseteq> set s"
  by (auto simp: strip_def dest!: set_dropWhileD)

lemma of_lower_char:
  "(of_char (lower_char c) :: nat) =
     (let n = of_char c in if (65 \<le> n \<and> n \<le> 90) \<or> (192 \<le> n \<and> n \<le> 222 \<and> n \<noteq> 215)
      then n + 32 else n)"
  by (auto simp: lower_char_def Let_def)

lemma lower_char_idem [simp]: "lower_char (lower_char c) = lower_char c"
proof -
  have "(of_char (lower_char (lower_char c)) :: nat) = of_char (lower_char c)"
    by (auto simp: of_lower_char Let_def)
  then show ?thesis by (simp add: of_char_eq_iff)
qed

lemma is_space_lower_char [simp]: "is_space (lower_char c) = is_space c"
  by (auto simp: is_space_def of_lower_char Let_def)

lemma lower_idem [simp, str_simps]: "lower (lower s) = lower s"
  by (simp add: lower_def)

lemma lower_eq_Nil [simp]: "lower s = [] \<longleftrightarrow> s = []"
  by (simp add: lower_def)

lemma strip_lower [str_simps]: "strip (lower s) = lower (strip s)"
proof -
  have "is_space \<circ> lower_char = is_space" by (simp add: fun_eq_iff)
  then show ?thesis by (simp add: strip_def lower_def rev_map dropWhile_map)
qed

lemma nonempty_strip_Some:
  "nonempty_strip s = Some t \<longleftrightarrow> t = strip s \<and> strip s \<noteq> []"
  by (auto simp: nonempty_strip_def Let_def)

lemma nonempty_strip_None: "nonempty_strip s = None \<longleftrightarrow> strip s = []"
  by (auto simp: nonempty_strip_def Let_def)

lemma nonempty_strip_normal:
  "nonempty_strip s = Some t \<Longrightarrow> t \<noteq> [] \<and> strip t = t"
  by (auto simp: nonempty_strip_Some)

lemma startswith_iff: "startswith s p \<longleftrightarrow> (\<exists>t. s = p @ t)"
  by (metis append_eq_conv_conj startswith_def)

lemma startswith_Nil [simp]: "startswith s []"
  by (simp add: startswith_def)

lemma startswith_append [simp]: "startswith (p @ t) p"
  by (simp add: startswith_def)

lemma startswith_refl [simp]: "startswith s s"
  by (simp add: startswith_def)

lemma contains_iff: "contains s needle \<longleftrightarrow> (\<exists>a b. s = a @ needle @ b)"
proof (induction s)
  case Nil
  then show ?case by auto
next
  case (Cons c s)
  show ?case
  proof
    assume "contains (c # s) needle"
    then consider "startswith (c # s) needle" | "contains s needle" by auto
    then show "\<exists>a b. c # s = a @ needle @ b"
    proof cases
      case 1
      then show ?thesis unfolding startswith_iff by (metis append_Nil)
    next
      case 2
      with Cons.IH obtain a b where "s = a @ needle @ b" by blast
      then have "c # s = (c # a) @ needle @ b" by simp
      then show ?thesis by blast
    qed
  next
    assume "\<exists>a b. c # s = a @ needle @ b"
    then obtain a b where ab: "c # s = a @ needle @ b" by blast
    show "contains (c # s) needle"
    proof (cases a)
      case Nil
      with ab have "startswith (c # s) needle" by (auto simp: startswith_iff)
      then show ?thesis by simp
    next
      case (Cons a0 a')
      with ab have "s = a' @ needle @ b" by simp
      with Cons.IH show ?thesis by auto
    qed
  qed
qed

lemma contains_refl [simp]: "contains s s"
  by (metis append_Nil append_Nil2 contains_iff)

lemma startswith_contains: "startswith s p \<Longrightarrow> contains s p"
  unfolding startswith_iff contains_iff by (metis append_Nil)

section \<open>Decimal numerals\<close>

fun nat_digits :: "nat \<Rightarrow> string" where
  "nat_digits n = (if n < 10 then [char_of (48 + n)]
     else nat_digits (n div 10) @ [char_of (48 + n mod 10)])"

declare nat_digits.simps [simp del]

definition str_int :: "int \<Rightarrow> string" where
  "str_int i = (if i < 0 then ''-'' @ nat_digits (nat (- i)) else nat_digits (nat i))"

text \<open>
  \<open>int(s)\<close>: white space around the numeral, a sign, decimal digits with single
  underscores between them; \<open>None\<close> is the \<open>ValueError\<close>, also of a numeral of more than
  4300 digits.
\<close>

definition is_digit :: "char \<Rightarrow> bool" where
  "is_digit c = (let n = (of_char c :: nat) in 48 \<le> n \<and> n \<le> 57)"

definition digit_val :: "char \<Rightarrow> nat" where
  "digit_val c = of_char c - 48"

fun numeral_ok :: "string \<Rightarrow> bool" where
  "numeral_ok [] = False"
| "numeral_ok [c] = is_digit c"
| "numeral_ok (c # d # s) = (is_digit c \<and>
     (if d = CHR ''_'' then numeral_ok s else numeral_ok (d # s)))"

definition digits_val :: "string \<Rightarrow> nat" where
  "digits_val s = foldl (\<lambda>acc c. 10 * acc + digit_val c) 0 (filter is_digit s)"

definition parse_nat :: "string \<Rightarrow> nat option" where
  "parse_nat s = (if numeral_ok s \<and> length (filter is_digit s) \<le> 4300
     then Some (digits_val s) else None)"

definition py_int :: "string \<Rightarrow> int option" where
  "py_int s = (case strip s of
       [] \<Rightarrow> None
     | c # t \<Rightarrow>
         if c = CHR ''-'' then map_option (\<lambda>n. - int n) (parse_nat t)
         else if c = CHR ''+'' then map_option int (parse_nat t)
         else map_option int (parse_nat (c # t)))"

lemma of_char_digit:
  "k < 10 \<Longrightarrow> (of_char (char_of (48 + k) :: char) :: nat) = 48 + k"
  by simp

lemma digit_char [simp]:
  "k < 10 \<Longrightarrow> is_digit (char_of (48 + k))"
  "k < 10 \<Longrightarrow> digit_val (char_of (48 + k)) = k"
  by (simp_all add: is_digit_def digit_val_def of_char_digit Let_def)

lemma nat_digits_digits: "\<forall>c \<in> set (nat_digits n). is_digit c"
proof (induction n rule: nat_digits.induct)
  case (1 n)
  then show ?case by (subst nat_digits.simps) auto
qed

lemma nat_digits_not_Nil [simp]: "nat_digits n \<noteq> []"
  by (subst nat_digits.simps) simp

lemma filter_nat_digits [simp]: "filter is_digit (nat_digits n) = nat_digits n"
  by (simp add: nat_digits_digits)

lemma digits_val_nat_digits [simp]: "digits_val (nat_digits n) = n"
proof (induction n rule: nat_digits.induct)
  case (1 n)
  show ?case
  proof (cases "n < 10")
    case True
    then show ?thesis by (subst nat_digits.simps) (simp add: digits_val_def)
  next
    case False
    with 1 show ?thesis
      by (subst nat_digits.simps)
        (simp add: digits_val_def nat_digits_digits)
  qed
qed

lemma nat_digits_inject [simp]: "nat_digits m = nat_digits n \<longleftrightarrow> m = n"
  by (metis digits_val_nat_digits)

lemma str_int_inject [simp]: "str_int i = str_int j \<longleftrightarrow> i = j"
proof -
  have no_minus: "CHR ''-'' \<notin> set (nat_digits n)" for n
    using nat_digits_digits [of n] by (auto simp: is_digit_def)
  show ?thesis
  proof
    assume eq: "str_int i = str_int j"
    show "i = j"
    proof (cases "i < 0 \<longleftrightarrow> j < 0")
      case True
      with eq show ?thesis by (auto simp: str_int_def split: if_splits)
    next
      case False
      then have "CHR ''-'' \<in> set (str_int i) \<longleftrightarrow> CHR ''-'' \<notin> set (str_int j)"
        using no_minus by (auto simp: str_int_def)
      with eq show ?thesis by simp
    qed
  qed simp
qed

lemma numeral_ok_digits: "s \<noteq> [] \<Longrightarrow> \<forall>c \<in> set s. is_digit c \<Longrightarrow> numeral_ok s"
  by (induction s rule: numeral_ok.induct) (auto simp: is_digit_def)

lemma parse_nat_nat_digits:
  "length (nat_digits n) \<le> 4300 \<Longrightarrow> parse_nat (nat_digits n) = Some n"
  by (simp add: parse_nat_def numeral_ok_digits nat_digits_digits)

section \<open>Splitting\<close>

text \<open>\<open>s.split()\<close>: the words between runs of white space.\<close>

function split_ws :: "string \<Rightarrow> string list" where
  "split_ws s =
     (let t = dropWhile is_space s
      in if t = [] then [] else takeWhile (\<lambda>c. \<not> is_space c) t # split_ws (dropWhile (\<lambda>c. \<not> is_space c) t))"
  by auto
termination
proof (relation "measure length")
  fix s t assume t: "t = dropWhile is_space s" "t \<noteq> []"
  have "length (dropWhile (\<lambda>c. \<not> is_space c) t) < length t"
  proof (cases t)
    case (Cons c u)
    with t have "\<not> is_space c" by (metis dropWhile_eq_Cons_conv)
    with Cons show ?thesis by (simp add: le_imp_less_Suc length_dropWhile_le)
  qed (use t in simp)
  also have "\<dots> \<le> length s" by (simp add: t(1) length_dropWhile_le)
  finally show "(dropWhile (\<lambda>c. \<not> is_space c) t, s) \<in> measure length" by simp
qed simp

declare split_ws.simps [simp del]

text \<open>The part of a string before the first occurrence of a character, and \<open>s.split(c)\<close>.\<close>

definition before :: "char \<Rightarrow> string \<Rightarrow> string" where
  "before c s = takeWhile (\<lambda>x. x \<noteq> c) s"

fun split_char :: "char \<Rightarrow> string \<Rightarrow> string list" where
  "split_char c [] = [[]]"
| "split_char c (x # s) =
     (if x = c then [] # split_char c s
      else (case split_char c s of [] \<Rightarrow> [[x]] | w # ws \<Rightarrow> (x # w) # ws))"

lemma split_char_not_Nil [simp]: "split_char c s \<noteq> []"
  by (induction s) (auto split: list.splits)

definition lstrip :: "string \<Rightarrow> string" where
  "lstrip s = dropWhile is_space s"

definition rstrip_char :: "char \<Rightarrow> string \<Rightarrow> string" where
  "rstrip_char c s = rev (dropWhile (\<lambda>x. x = c) (rev s))"

section \<open>\<open>str\<close> and \<open>repr\<close>\<close>

text \<open>
  \<open>repr(s)\<close> of a string on the model's characters: single quotes unless the string has a
  single quote and no double quote; the non-printable characters are escaped.
\<close>

definition repr_char :: "char \<Rightarrow> char \<Rightarrow> string" where
  "repr_char quote c =
     (let n = (of_char c :: nat);
          hex = (\<lambda>k. if k < 10 then char_of (48 + k) else char_of (87 + k))
      in if c = quote \<or> c = CHR 0x5C then [CHR 0x5C, c]
         else if c = CHR 0x09 then [CHR 0x5C, CHR ''t'']
         else if c = CHR 0x0A then [CHR 0x5C, CHR ''n'']
         else if c = CHR 0x0D then [CHR 0x5C, CHR ''r'']
         else if n < 0x20 \<or> 0x7F \<le> n \<and> n \<le> 0xA0 \<or> n = 0xAD
           then [CHR 0x5C, CHR ''x'', hex (n div 16), hex (n mod 16)]
         else [c])"

definition py_repr_str :: "string \<Rightarrow> string" where
  "py_repr_str s =
     (let quote = (if CHR 0x27 \<in> set s \<and> CHR 0x22 \<notin> set s then CHR 0x22 else CHR 0x27)
      in [quote] @ concat (map (repr_char quote) s) @ [quote])"

fun py_repr :: "(rat \<Rightarrow> string) \<Rightarrow> pyval \<Rightarrow> string" where
  "py_repr fr PNone = ''None''"
| "py_repr fr (PBool b) = (if b then ''True'' else ''False'')"
| "py_repr fr (PInt i) = str_int i"
| "py_repr fr (PFloat q) = fr q"
| "py_repr fr (PStr s) = py_repr_str s"
| "py_repr fr (PList vs) = ''['' @ join '', '' (map (py_repr fr) vs) @ '']''"
| "py_repr fr (PDict d) =
     ''{'' @ join '', '' (map (\<lambda>(k, v). py_repr_str k @ '': '' @ py_repr fr v) d) @ ''}''"

fun py_str :: "(rat \<Rightarrow> string) \<Rightarrow> pyval \<Rightarrow> string" where
  "py_str fr (PStr s) = s"
| "py_str fr v = py_repr fr v"

text \<open>\<open>type(x).__name__\<close>\<close>

fun type_name :: "pyval \<Rightarrow> string" where
  "type_name PNone = ''NoneType''"
| "type_name (PBool _) = ''bool''"
| "type_name (PInt _) = ''int''"
| "type_name (PFloat _) = ''float''"
| "type_name (PStr _) = ''str''"
| "type_name (PList _) = ''list''"
| "type_name (PDict _) = ''dict''"

end
