(* ===== verification/Py_Json.thy ===== *)
theory Py_Json
  imports Py_Prelude
begin

text \<open>
  The standard library's \<open>json.dumps\<close> (with the separators \<open>","\<close> and \<open>":"\<close> that the code
  always passes) and \<open>json.loads\<close>, and the round trip between them. How a float is written
  is the parameter \<open>float_repr\<close>; a number with a fraction or an exponent is read as the
  exact rational it denotes. Characters are those of \<open>Py_Prelude\<close>: a \<open>\u\<close> escape above
  U+00FF is outside this model and read as an error, as are the float literals \<open>NaN\<close> and
  \<open>Infinity\<close>.
\<close>

section \<open>Writing\<close>

definition hex_digit :: "nat \<Rightarrow> char" where
  "hex_digit n = (if n < 10 then char_of (48 + n) else char_of (87 + n))"

definition json_escape :: "bool \<Rightarrow> char \<Rightarrow> string" where
  "json_escape ensure_ascii c =
     (let n = (of_char c :: nat) in
      if c = CHR 0x22 \<or> c = CHR 0x5C then [CHR 0x5C, c]
      else if c = CHR 0x0A then [CHR 0x5C, CHR ''n'']
      else if c = CHR 0x0D then [CHR 0x5C, CHR ''r'']
      else if c = CHR 0x09 then [CHR 0x5C, CHR ''t'']
      else if c = CHR 0x0C then [CHR 0x5C, CHR ''f'']
      else if c = CHR 0x08 then [CHR 0x5C, CHR ''b'']
      else if n < 0x20 \<or> ensure_ascii \<and> 0x7F \<le> n
        then [CHR 0x5C, CHR ''u'', CHR ''0'', CHR ''0'', hex_digit (n div 16), hex_digit (n mod 16)]
      else [c])"

definition json_string :: "bool \<Rightarrow> string \<Rightarrow> string" where
  "json_string ensure_ascii s = [CHR 0x22] @ concat (map (json_escape ensure_ascii) s) @ [CHR 0x22]"

fun json_dumps :: "(rat \<Rightarrow> string) \<Rightarrow> bool \<Rightarrow> bool \<Rightarrow> pyval \<Rightarrow> string" where
  "json_dumps fr asc srt PNone = ''null''"
| "json_dumps fr asc srt (PBool b) = (if b then ''true'' else ''false'')"
| "json_dumps fr asc srt (PInt i) = str_int i"
| "json_dumps fr asc srt (PFloat q) = fr q"
| "json_dumps fr asc srt (PStr s) = json_string asc s"
| "json_dumps fr asc srt (PList vs) = ''['' @ join '','' (map (json_dumps fr asc srt) vs) @ '']''"
| "json_dumps fr asc srt (PDict d) =
     (let items = map (\<lambda>(k, v). (k, json_dumps fr asc srt v)) d;
          ordered = (if srt then sort_key fst items else items)
      in ''{'' @ join '','' (map (\<lambda>(k, t). json_string asc k @ '':'' @ t) ordered) @ ''}'')"

section \<open>Reading\<close>

definition json_space :: "char \<Rightarrow> bool" where
  "json_space c \<longleftrightarrow> c \<in> {CHR '' '', CHR 0x09, CHR 0x0A, CHR 0x0D}"

definition skip_space :: "string \<Rightarrow> string" where
  "skip_space s = dropWhile json_space s"

definition hex_val :: "char \<Rightarrow> nat option" where
  "hex_val c =
     (let n = (of_char c :: nat) in
      if 48 \<le> n \<and> n \<le> 57 then Some (n - 48)
      else if 97 \<le> n \<and> n \<le> 102 then Some (n - 87)
      else if 65 \<le> n \<and> n \<le> 70 then Some (n - 55)
      else None)"

definition hex4 :: "char \<Rightarrow> char \<Rightarrow> char \<Rightarrow> char \<Rightarrow> char option" where
  "hex4 a b c d =
     (case (hex_val a, hex_val b, hex_val c, hex_val d) of
        (Some x, Some y, Some z, Some w) \<Rightarrow>
          (if x = 0 \<and> y = 0 then Some (char_of (16 * z + w)) else None)
      | _ \<Rightarrow> None)"

definition json_unescape :: "char \<Rightarrow> char option" where
  "json_unescape e =
     (if e \<in> {CHR 0x22, CHR 0x5C, CHR ''/''} then Some e
      else if e = CHR ''n'' then Some (CHR 0x0A) else if e = CHR ''r'' then Some (CHR 0x0D)
      else if e = CHR ''t'' then Some (CHR 0x09) else if e = CHR ''f'' then Some (CHR 0x0C)
      else if e = CHR ''b'' then Some (CHR 0x08) else None)"

text \<open>The rest of a string after its opening quote.\<close>

fun scan_string :: "string \<Rightarrow> (string \<times> string) option" where
  "scan_string [] = None"
| "scan_string (c # s) =
     (if c = CHR 0x22 then Some ([], s)
      else if c = CHR 0x5C then
        (case s of
           [] \<Rightarrow> None
         | e # s1 \<Rightarrow>
             if e = CHR ''u'' then
               (case s1 of
                  h1 # h2 # h3 # h4 # s2 \<Rightarrow>
                    (case hex4 h1 h2 h3 h4 of
                       None \<Rightarrow> None
                     | Some x \<Rightarrow> map_option (apfst ((#) x)) (scan_string s2))
                | _ \<Rightarrow> None)
             else (case json_unescape e of
                None \<Rightarrow> None
              | Some x \<Rightarrow> map_option (apfst ((#) x)) (scan_string s1)))
      else if (of_char c :: nat) < 0x20 then None
      else map_option (apfst ((#) c)) (scan_string s))"

text \<open>A number: sign, integer part without a leading zero, optional fraction and exponent.\<close>

definition scan_fraction :: "string \<Rightarrow> string option \<times> string" where
  "scan_fraction s =
     (case s of
        c # t \<Rightarrow>
          (let ds = takeWhile is_digit t in
           if c = CHR ''.'' \<and> ds \<noteq> [] then (Some ds, drop (length ds) t) else (None, s))
      | [] \<Rightarrow> (None, s))"

definition scan_exponent :: "string \<Rightarrow> int option \<times> string" where
  "scan_exponent s =
     (case s of
        c # t \<Rightarrow>
          (let (neg, u) = (case t of
                 d # u \<Rightarrow> if d = CHR ''-'' then (True, u) else if d = CHR ''+'' then (False, u)
                          else (False, t)
               | [] \<Rightarrow> (False, t));
               ds = takeWhile is_digit u
           in if c \<in> {CHR ''e'', CHR ''E''} \<and> ds \<noteq> []
              then (Some ((if neg then - 1 else 1) * int (digits_val ds)), drop (length ds) u)
              else (None, s))
      | [] \<Rightarrow> (None, s))"

definition scan_number :: "string \<Rightarrow> (pyval \<times> string) option" where
  "scan_number s =
     (let (neg, s1) = (case s of c # t \<Rightarrow> if c = CHR ''-'' then (True, t) else (False, s)
                      | [] \<Rightarrow> (False, s));
          ds = takeWhile is_digit s1;
          whole = (if ds \<noteq> [] \<and> hd ds = CHR ''0'' then ''0'' else ds)
      in if ds = [] then None
         else let (frac, s2) = scan_fraction (drop (length whole) s1);
                  (expo, s3) = scan_exponent s2;
                  sign = (if neg then - 1 else 1)
              in if frac = None \<and> expo = None
                 then (if length whole \<le> 4300 then Some (PInt (sign * int (digits_val whole)), s3)
                       else None)
                 else let f = (case frac of None \<Rightarrow> [] | Some f \<Rightarrow> f);
                          e = (case expo of None \<Rightarrow> 0 | Some e \<Rightarrow> e) - int (length f);
                          mant = of_int (sign * int (digits_val (whole @ f)))
                      in Some (PFloat (if 0 \<le> e then mant * 10 ^ nat e else mant / 10 ^ nat (- e)), s3))"

definition scan_word :: "string \<Rightarrow> (pyval \<times> string) option" where
  "scan_word s =
     (if startswith s ''null'' then Some (PNone, drop 4 s)
      else if startswith s ''true'' then Some (PBool True, drop 4 s)
      else if startswith s ''false'' then Some (PBool False, drop 5 s)
      else scan_number s)"

text \<open>
  Values, the elements of an array after one of them was announced, the members of an
  object in the same way; \<open>fuel\<close> bounds the depth of the recursion.
\<close>

fun scan_value :: "nat \<Rightarrow> string \<Rightarrow> (pyval \<times> string) option"
  and scan_elements :: "nat \<Rightarrow> string \<Rightarrow> (pyval list \<times> string) option"
  and scan_members :: "nat \<Rightarrow> string \<Rightarrow> ((string \<times> pyval) list \<times> string) option" where
  "scan_value 0 s = None"
| "scan_value (Suc fuel) s =
     (case s of
        [] \<Rightarrow> None
      | c # t \<Rightarrow>
          if c = CHR 0x22 then map_option (apfst PStr) (scan_string t)
          else if c = CHR ''['' then
            (case skip_space t of
               [] \<Rightarrow> None
             | c' # u \<Rightarrow> if c' = CHR '']'' then Some (PList [], u)
                         else map_option (apfst PList) (scan_elements fuel (c' # u)))
          else if c = CHR ''{'' then
            (case skip_space t of
               [] \<Rightarrow> None
             | c' # u \<Rightarrow> if c' = CHR ''}'' then Some (PDict [], u)
                         else map_option (apfst (\<lambda>ps. PDict (dmerge [] ps)))
                                (scan_members fuel (c' # u)))
          else scan_word s)"
| "scan_elements 0 s = None"
| "scan_elements (Suc fuel) s =
     (case scan_value fuel s of
        None \<Rightarrow> None
      | Some (v, t) \<Rightarrow>
          (case skip_space t of
             [] \<Rightarrow> None
           | c # u \<Rightarrow> if c = CHR '']'' then Some ([v], u)
                      else if c = CHR '','' then
                        map_option (apfst ((#) v)) (scan_elements fuel (skip_space u))
                      else None))"
| "scan_members 0 s = None"
| "scan_members (Suc fuel) s =
     (case s of
        [] \<Rightarrow> None
      | q # s0 \<Rightarrow>
          if q \<noteq> CHR 0x22 then None
          else case scan_string s0 of
            None \<Rightarrow> None
          | Some (k, s1) \<Rightarrow>
              (case skip_space s1 of
                 [] \<Rightarrow> None
               | c # s2 \<Rightarrow>
                   if c \<noteq> CHR '':'' then None
                   else case scan_value fuel (skip_space s2) of
                     None \<Rightarrow> None
                   | Some (v, t) \<Rightarrow>
                       (case skip_space t of
                          [] \<Rightarrow> None
                        | c' # u \<Rightarrow>
                            if c' = CHR ''}'' then Some ([(k, v)], u)
                            else if c' = CHR '','' then
                              map_option (apfst ((#) (k, v))) (scan_members fuel (skip_space u))
                            else None)))"

text \<open>\<open>None\<close> is the \<open>JSONDecodeError\<close>.\<close>

definition json_loads :: "string \<Rightarrow> pyval option" where
  "json_loads s =
     (case scan_value (2 * length s + 2) (skip_space s) of
        None \<Rightarrow> None
      | Some (v, rest) \<Rightarrow> if skip_space rest = [] then Some v else None)"

section \<open>Round trip\<close>

lemma hex_val_digit [simp]: "n < 16 \<Longrightarrow> hex_val (hex_digit n) = Some n"
  by (auto simp: hex_val_def hex_digit_def Let_def)

lemma hex_val_0 [simp]: "hex_val CHR ''0'' = Some 0"
  by (simp add: hex_val_def)

lemma hex4_digits [simp]:
  "n < 256 \<Longrightarrow> hex4 CHR ''0'' CHR ''0'' (hex_digit (n div 16)) (hex_digit (n mod 16)) = Some (char_of n)"
  by (simp add: hex4_def)

lemma scan_escape:
  "scan_string (json_escape asc c @ t) = map_option (apfst ((#) c)) (scan_string t)"
  by (auto simp: json_escape_def json_unescape_def Let_def)

lemma scan_escaped:
  "scan_string (concat (map (json_escape asc) s) @ CHR 0x22 # rest) = Some (s, rest)"
  by (induction s) (simp_all add: scan_escape)

text \<open>What may follow a value in a document: nothing, or one of the three delimiters.\<close>

definition delimited :: "string \<Rightarrow> bool" where
  "delimited rest \<longleftrightarrow> rest = [] \<or> hd rest \<in> {CHR '','', CHR '']'', CHR ''}''}"

lemma delimited_simps [simp]:
  "delimited []" "delimited (CHR '','' # t)" "delimited (CHR '']'' # t)" "delimited (CHR ''}'' # t)"
  by (simp_all add: delimited_def)

lemma takeWhile_digits:
  "delimited rest \<Longrightarrow> takeWhile is_digit (nat_digits n @ rest) = nat_digits n"
  using nat_digits_digits [of n]
  by (cases rest) (auto simp: delimited_def is_digit_def takeWhile_append)

lemma nat_digits_leading_zero: "hd (nat_digits n) = CHR ''0'' \<Longrightarrow> n = 0"
proof (induction n rule: nat_digits.induct)
  case (1 n)
  show ?case
  proof (cases "n < 10")
    case True
    with 1(2) have "char_of (48 + n) = CHR ''0''" by (subst (asm) nat_digits.simps) simp
    then have "of_char (char_of (48 + n) :: char) = (of_char (CHR ''0'') :: nat)" by simp
    with True show ?thesis by simp
  next
    case False
    with 1(2) have "hd (nat_digits (n div 10)) = CHR ''0''"
      by (subst (asm) nat_digits.simps) simp
    with 1(1) False have "n div 10 = 0" by blast
    with False show ?thesis by simp
  qed
qed

lemma nat_digits_0: "nat_digits 0 = ''0''"
  by code_simp

lemma digits_val_0: "digits_val ''0'' = 0"
  by (simp add: digits_val_def is_digit_def digit_val_def)

lemma delimited_no_number_part:
  assumes "delimited rest"
  shows "scan_fraction rest = (None, rest)" and "scan_exponent rest = (None, rest)"
  using assms by (cases rest; auto simp: delimited_def scan_fraction_def scan_exponent_def Let_def
      split: list.splits)+

lemma scan_digits:
  assumes rest: "delimited rest" and len: "length (nat_digits n) \<le> 4300"
  shows "scan_number (nat_digits n @ rest) = Some (PInt (int n), rest)"
    and "scan_number (CHR ''-'' # nat_digits n @ rest) = Some (PInt (- int n), rest)"
proof -
  have no_minus: "hd (nat_digits n) \<noteq> CHR ''-''"
    using nat_digits_digits [of n] nat_digits_not_Nil [of n]
    by (cases "nat_digits n") (auto simp: is_digit_def)
  have zero: "hd (nat_digits n) = CHR ''0'' \<Longrightarrow> nat_digits n = ''0'' \<and> n = 0"
    using nat_digits_leading_zero [of n] nat_digits_0 by metis
  note tw = takeWhile_digits [OF rest] and stop = delimited_no_number_part [OF rest]
  obtain c t where ct: "nat_digits n @ rest = c # t" and c: "c \<noteq> CHR ''-''"
    using no_minus by (cases "nat_digits n") auto
  show "scan_number (nat_digits n @ rest) = Some (PInt (int n), rest)"
    unfolding scan_number_def ct list.case
    unfolding ct [symmetric] tw
    using c len zero by (cases "hd (nat_digits n) = CHR ''0''") (simp_all add: tw stop digits_val_0 nat_digits_0 is_digit_def)
  show "scan_number (CHR ''-'' # nat_digits n @ rest) = Some (PInt (- int n), rest)"
    unfolding scan_number_def
    using len zero
    by (cases "hd (nat_digits n) = CHR ''0''") (simp_all add: tw stop digits_val_0 nat_digits_0 is_digit_def)
qed

text \<open>
  Values JSON text can carry exactly: distinct keys, no floats, integers within the limit of
  4300 digits. Reading back sorts the keys when the writer did.
\<close>

fun jsonable :: "pyval \<Rightarrow> bool" where
  "jsonable (PFloat q) = False"
| "jsonable (PInt i) = (length (nat_digits (nat \<bar>i\<bar>)) \<le> 4300)"
| "jsonable (PList vs) = (\<forall>v \<in> set vs. jsonable v)"
| "jsonable (PDict d) = (wf_dict d \<and> (\<forall>p \<in> set d. jsonable (snd p)))"
| "jsonable _ = True"

fun json_canon :: "bool \<Rightarrow> pyval \<Rightarrow> pyval" where
  "json_canon srt (PList vs) = PList (map (json_canon srt) vs)"
| "json_canon srt (PDict d) =
     (let items = map (\<lambda>(k, v). (k, json_canon srt v)) d
      in PDict (if srt then sort_key fst items else items))"
| "json_canon srt v = v"

fun json_fuel :: "pyval \<Rightarrow> nat" where
  "json_fuel (PList vs) = 1 + sum_list (map (\<lambda>v. 1 + json_fuel v) vs)"
| "json_fuel (PDict d) = 1 + sum_list (map (\<lambda>p. 1 + json_fuel (snd p)) d)"
| "json_fuel _ = 1"

lemma scan_str_int:
  assumes "delimited rest" and "length (nat_digits (nat \<bar>i\<bar>)) \<le> 4300"
  shows "scan_value (Suc n) (str_int i @ rest) = Some (PInt i, rest)"
proof -
  have word: "\<not> startswith (str_int i @ rest) ''null''" "\<not> startswith (str_int i @ rest) ''true''"
    "\<not> startswith (str_int i @ rest) ''false''"
    and ct: "\<exists>c t. str_int i @ rest = c # t \<and> (c = CHR ''-'' \<or> is_digit c)"
    using nat_digits_digits [of "nat \<bar>i\<bar>"] nat_digits_not_Nil [of "nat \<bar>i\<bar>"]
    by (cases "nat_digits (nat \<bar>i\<bar>)"; auto simp: str_int_def startswith_iff is_digit_def)+
  have num: "scan_number (str_int i @ rest) = Some (PInt i, rest)"
    using scan_digits [OF assms] by (auto simp: str_int_def)
  obtain c t where c: "str_int i @ rest = c # t" "c = CHR ''-'' \<or> is_digit c" using ct by blast
  then have "c \<noteq> CHR 0x22" "c \<noteq> CHR ''[''" "c \<noteq> CHR ''{''" by (auto simp: is_digit_def)
  then show ?thesis using c(1) num word by (simp add: scan_word_def)
qed

lemma json_dumps_start:
  assumes "jsonable v"
  obtains c t where "json_dumps fr asc srt v = c # t" and "\<not> json_space c"
    and "c \<noteq> CHR '']''" and "c \<noteq> CHR ''}''"
proof (cases v)
  case (PInt i)
  have "\<exists>c t. str_int i = c # t \<and> (c = CHR ''-'' \<or> is_digit c)"
    using nat_digits_digits [of "nat \<bar>i\<bar>"] nat_digits_not_Nil [of "nat \<bar>i\<bar>"]
    by (cases "nat_digits (nat \<bar>i\<bar>)") (auto simp: str_int_def)
  then obtain c t where "str_int i = c # t" and "c = CHR ''-'' \<or> is_digit c" by blast
  moreover from this have "\<not> json_space c" "c \<noteq> CHR '']''" "c \<noteq> CHR ''}''"
    by (auto simp: json_space_def is_digit_def)
  ultimately show ?thesis using PInt that by simp
next
  case (PBool b)
  with that show ?thesis by (cases b) (auto simp: json_space_def)
qed (use assms that in \<open>auto simp: json_space_def json_string_def Let_def\<close>)

lemma skip_space_dumps [simp]:
  "jsonable v \<Longrightarrow> skip_space (json_dumps fr asc srt v @ t) = json_dumps fr asc srt v @ t"
  by (rule json_dumps_start [of v fr asc srt]) (simp_all add: skip_space_def)

lemma skip_space_delim [simp]:
  "skip_space (CHR '','' # t) = CHR '','' # t" "skip_space (CHR '']'' # t) = CHR '']'' # t"
  "skip_space (CHR ''}'' # t) = CHR ''}'' # t" "skip_space (CHR '':'' # t) = CHR '':'' # t"
  "skip_space (CHR 0x22 # t) = CHR 0x22 # t"
  by (simp_all add: skip_space_def json_space_def)

lemma join_Cons: "join sep (x # xs) = (if xs = [] then x else x @ sep @ join sep xs)"
  by (cases xs) simp_all

lemma scan_elements_dumps:
  assumes "\<forall>v \<in> set vs. jsonable v"
    and "\<forall>v \<in> set vs. \<forall>n rest. json_fuel v \<le> n \<longrightarrow> delimited rest \<longrightarrow>
      scan_value n (json_dumps fr asc srt v @ rest) = Some (json_canon srt v, rest)"
    and "vs \<noteq> []" and "sum_list (map (\<lambda>v. 1 + json_fuel v) vs) \<le> n"
  shows "scan_elements n (join '','' (map (json_dumps fr asc srt) vs) @ CHR '']'' # rest) =
    Some (map (json_canon srt) vs, rest)"
  using assms
proof (induction vs arbitrary: n)
  case Nil
  then show ?case by simp
next
  case (Cons v vs)
  from Cons.prems(4) obtain k where n: "n = Suc k" and k: "json_fuel v \<le> k"
    "sum_list (map (\<lambda>v. 1 + json_fuel v) vs) \<le> k"
    by (cases n) auto
  have head: "delimited r \<Longrightarrow>
      scan_value k (json_dumps fr asc srt v @ r) = Some (json_canon srt v, r)" for r
    using Cons.prems(2) k(1) by simp
  show ?case
  proof (cases vs)
    case Nil
    then show ?thesis by (simp add: n head)
  next
    case (Cons w ws)
    have "skip_space (join '','' (map (json_dumps fr asc srt) vs) @ CHR '']'' # rest) =
        join '','' (map (json_dumps fr asc srt) vs) @ CHR '']'' # rest"
      using Cons.prems(1) Cons by (simp add: join_Cons)
    then show ?thesis
      using Cons Cons.IH [of k] Cons.prems(1,2) k(2) by (simp add: n head join_Cons)
  qed
qed

lemma scan_members_dumps:
  assumes "\<forall>(k, v, c, t) \<in> set ms. jsonable v \<and> t = json_dumps fr asc srt v \<and>
      (\<forall>n rest. json_fuel v \<le> n \<longrightarrow> delimited rest \<longrightarrow> scan_value n (t @ rest) = Some (c, rest))"
    and "ms \<noteq> []" and "sum_list (map (\<lambda>m. 1 + json_fuel (fst (snd m))) ms) \<le> n"
  shows "scan_members n
      (join '','' (map (\<lambda>(k, v, c, t). json_string asc k @ '':'' @ t) ms) @ CHR ''}'' # rest) =
    Some (map (\<lambda>(k, v, c, t). (k, c)) ms, rest)"
  using assms
proof (induction ms arbitrary: n)
  case Nil
  then show ?case by simp
next
  case (Cons m ms)
  obtain k v c t where m: "m = (k, v, c, t)" by (cases m)
  from Cons.prems(3) obtain f where n: "n = Suc f" and f: "json_fuel v \<le> f"
    "sum_list (map (\<lambda>m. 1 + json_fuel (fst (snd m))) ms) \<le> f"
    by (cases n) (auto simp: m)
  have ok: "jsonable v" "t = json_dumps fr asc srt v"
    and head: "delimited r \<Longrightarrow> scan_value f (t @ r) = Some (c, r)" for r
    using Cons.prems(1) f(1) by (auto simp: m)
  have sp: "skip_space (t @ r) = t @ r" for r using ok by simp
  show ?case
  proof (cases ms)
    case Nil
    then show ?thesis by (simp add: n m head sp json_string_def scan_escaped)
  next
    case (Cons m' ms')
    let ?rest = "join '','' (map (\<lambda>(k, v, c, t). json_string asc k @ '':'' @ t) ms) @ CHR ''}'' # rest"
    have sp': "skip_space ?rest = ?rest"
      using Cons by (cases m') (auto simp: join_Cons json_string_def)
    have ih: "scan_members f ?rest = Some (map (\<lambda>(k, v, c, t). (k, c)) ms, rest)"
      using Cons Cons.IH [of f] Cons.prems(1) f(2) by simp
    have whole: "join '','' (map (\<lambda>(k, v, c, t). json_string asc k @ '':'' @ t) (m # ms)) @
        CHR ''}'' # rest =
        CHR 0x22 # concat (map (json_escape asc) k) @ CHR 0x22 # CHR '':'' # t @ CHR '','' # ?rest"
      using Cons by (simp add: m join_Cons json_string_def)
    show ?thesis
      unfolding whole by (simp add: n head sp scan_escaped sp' [simplified] ih [simplified]) (simp add: m)
  qed
qed

lemma dmerge_append: "wf_dict (a @ b) \<Longrightarrow> dmerge a b = a @ b"
proof (induction b arbitrary: a)
  case Nil
  then show ?case by (simp add: dmerge_def)
next
  case (Cons p b)
  obtain k v where p: "p = (k, v)" by (cases p)
  have "map_of a k = None" using Cons.prems by (auto simp: p map_of_eq_None_iff)
  then have "dset k v a = a @ [p]" by (simp add: dset_new p)
  moreover have "dmerge (a @ [p]) b = (a @ [p]) @ b" by (rule Cons.IH) (use Cons.prems in auto)
  ultimately show ?case by (simp add: dmerge_def p)
qed

lemma dmerge_Nil: "wf_dict d \<Longrightarrow> dmerge [] d = d"
  using dmerge_append [of "[]" d] by simp

lemma map_sort_key: "map g (sort_key (f \<circ> g) xs) = sort_key f (map g xs)"
proof (induction xs)
  case (Cons x xs)
  have "map g (insort_key (f \<circ> g) x ys) = insort_key f (g x) (map g ys)" for ys
    by (induction ys) auto
  with Cons show ?case by (simp add: comp_def)
qed simp

lemma sum_list_sort_key: "sum_list (map h (sort_key f xs)) = sum_list (map (h :: _ \<Rightarrow> nat) xs)"
  by (metis mset_map mset_sort sum_mset_sum_list)

lemma distinct_sort_key: "distinct (map f (sort_key g xs)) = distinct (map f xs)"
  by (rule mset_eq_imp_distinct_iff) simp

lemma scan_value_dumps:
  "jsonable v \<Longrightarrow> json_fuel v \<le> n \<Longrightarrow> delimited rest \<Longrightarrow>
     scan_value n (json_dumps fr asc srt v @ rest) = Some (json_canon srt v, rest)"
proof (induction v arbitrary: n rest)
  case PNone
  then show ?case by (cases n) (simp_all add: scan_word_def startswith_def)
next
  case (PBool b)
  then show ?case by (cases n; cases b) (simp_all add: scan_word_def startswith_def)
next
  case (PInt i)
  then show ?case using scan_str_int [of rest i] by (cases n) (simp_all del: scan_value.simps(2))
next
  case (PStr s)
  then show ?case by (cases n) (simp_all add: json_string_def scan_escaped)
next
  case (PList vs)
  from PList.prems(2) obtain k where n: "n = Suc k" "sum_list (map (\<lambda>v. 1 + json_fuel v) vs) \<le> k"
    by (cases n) auto
  show ?case
  proof (cases "vs = []")
    case True
    then show ?thesis by (simp add: n)
  next
    case False
    let ?t = "join '','' (map (json_dumps fr asc srt) vs) @ CHR '']'' # rest"
    obtain v ws where vs: "vs = v # ws" using False by (cases vs) auto
    have "jsonable v" using PList.prems(1) vs by simp
    then obtain c u where cu: "json_dumps fr asc srt v = c # u" "\<not> json_space c" "c \<noteq> CHR '']''"
      by (rule json_dumps_start)
    then have "\<exists>u'. ?t = c # u'" by (auto simp: vs join_Cons)
    then obtain u' where t: "?t = c # u'" by blast
    then have "skip_space ?t = c # u'" using cu(2) by (simp add: skip_space_def)
    moreover have "scan_elements k ?t = Some (map (json_canon srt) vs, rest)"
      by (rule scan_elements_dumps) (use PList False n(2) in auto)
    ultimately show ?thesis using cu(3) t by (simp add: n)
  qed
next
  case (PDict d)
  from PDict.prems(2) obtain k where
    n: "n = Suc k" "sum_list (map (\<lambda>p. 1 + json_fuel (snd p)) d) \<le> k"
    by (cases n) auto
  define ms where "ms = map (\<lambda>(k, v). (k, v, json_canon srt v, json_dumps fr asc srt v)) d"
  define os where "os = (if srt then sort_key fst ms else ms)"
  have set_os: "set os = set ms" by (simp add: os_def)
  have items: "map (\<lambda>(k, v). (k, json_dumps fr asc srt v)) d = map (\<lambda>(k, v, c, t). (k, t)) ms"
    "map (\<lambda>(k, v). (k, json_canon srt v)) d = map (\<lambda>(k, v, c, t). (k, c)) ms"
    by (auto simp: ms_def)
  have fst_eq: "fst = (fst \<circ> (\<lambda>(k, v, c, t). (k, t)))" "fst = (fst \<circ> (\<lambda>(k, v, c, t). (k, c)))"
    by (auto simp: fun_eq_iff)
  have sorted: "(if srt then sort_key fst (map (\<lambda>(k, v, c, t). (k, t)) ms)
        else map (\<lambda>(k, v, c, t). (k, t)) ms) = map (\<lambda>(k, v, c, t). (k, t)) os"
    "(if srt then sort_key fst (map (\<lambda>(k, v, c, t). (k, c)) ms)
        else map (\<lambda>(k, v, c, t). (k, c)) ms) = map (\<lambda>(k, v, c, t). (k, c)) os"
    unfolding os_def map_sort_key [symmetric] fst_eq [symmetric] by simp_all
  have dumps: "json_dumps fr asc srt (PDict d) = ''{'' @
      join '','' (map (\<lambda>(k, v, c, t). json_string asc k @ '':'' @ t) os) @ ''}''"
    unfolding json_dumps.simps Let_def items sorted by (simp add: case_prod_unfold comp_def)
  have canon: "json_canon srt (PDict d) = PDict (map (\<lambda>(k, v, c, t). (k, c)) os)"
    by (simp add: Let_def items sorted)
  have "distinct (map fst ms)" using PDict.prems(1) by (simp add: ms_def comp_def case_prod_unfold)
  then have "distinct (map fst os)"
    by (simp add: os_def distinct_sort_key)
  then have wf: "wf_dict (map (\<lambda>(k, v, c, t). (k, c)) os)" by (simp add: comp_def case_prod_unfold)
  show ?case
  proof (cases "d = []")
    case True
    then show ?thesis by (simp add: n)
  next
    case False
    let ?t = "join '','' (map (\<lambda>(k, v, c, t). json_string asc k @ '':'' @ t) os) @ CHR ''}'' # rest"
    have "os \<noteq> []" using False set_os by (auto simp: ms_def)
    then have "\<exists>u. ?t = CHR 0x22 # u"
      by (cases os) (auto simp: join_Cons json_string_def split: prod.splits)
    then obtain u where t: "?t = CHR 0x22 # u" by blast
    have "sum_list (map (\<lambda>m. 1 + json_fuel (fst (snd m))) os) \<le> k"
      using n(2) by (simp add: os_def ms_def sum_list_sort_key comp_def case_prod_unfold)
    then have "scan_members k ?t = Some (map (\<lambda>(k, v, c, t). (k, c)) os, rest)"
      using PDict.IH PDict.prems(1) \<open>os \<noteq> []\<close>
      by (intro scan_members_dumps) (fastforce simp: set_os ms_def)+
    then show ?thesis
      unfolding dumps canon using t by (simp add: n dmerge_Nil [OF wf])
  qed
qed simp_all

lemma join_length: "sum_list (map length xs) + (length xs - 1) \<le> length (join '','' xs)"
  by (induction xs) (auto simp: join_Cons)

lemma json_fuel_le: "jsonable v \<Longrightarrow> json_fuel v \<le> 2 * length (json_dumps fr asc srt v)"
proof (induction v)
  case (PInt i)
  then show ?case by (auto simp: str_int_def Suc_le_eq)
next
  case (PList vs)
  have "sum_list (map json_fuel vs) \<le> sum_list (map (\<lambda>v. 2 * length (json_dumps fr asc srt v)) vs)"
    using PList by (intro sum_list_mono) simp
  with join_length [of "map (json_dumps fr asc srt) vs"] show ?case
    by (cases vs) (simp_all add: sum_list_const_mult comp_def sum_list_Suc)
next
  case (PDict d)
  define items where "items = map (\<lambda>(k, v). (k, json_dumps fr asc srt v)) d"
  let ?m = "\<lambda>(k, t). json_string asc k @ '':'' @ t"
  have "sum_list (map length (map ?m (if srt then sort_key fst items else items))) =
      sum_list (map (length \<circ> ?m) items)"
    by (simp add: sum_list_sort_key comp_def)
  moreover have "sum_list (map (\<lambda>p. 1 + json_fuel (snd p)) d) \<le> sum_list (map (\<lambda>p. 2 * length (?m p)) items)"
    unfolding items_def map_map
    by (intro sum_list_mono) (use PDict in \<open>fastforce simp: json_string_def\<close>)
  ultimately show ?case
    using join_length [of "map ?m (if srt then sort_key fst items else items)"]
    by (auto simp: Let_def items_def [symmetric] sum_list_const_mult comp_def)
qed (simp_all add: json_string_def)

text \<open>What was written is read back, with the keys in the order of the text.\<close>

lemma json_round_trip:
  assumes "jsonable v"
  shows "json_loads (json_dumps fr asc srt v) = Some (json_canon srt v)"
proof -
  have "scan_value (2 * length (json_dumps fr asc srt v) + 2) (json_dumps fr asc srt v @ []) =
      Some (json_canon srt v, [])"
    using scan_value_dumps [OF assms] json_fuel_le [OF assms] by (meson delimited_simps(1) trans_le_add1)
  with skip_space_dumps [OF assms, of fr asc srt "[]"] show ?thesis
    by (simp add: json_loads_def) (simp add: skip_space_def)
qed

end
