(* ===== verification/A2A_Parts.thy ===== *)
theory A2A_Parts
  imports Py_Json
begin

text \<open>
  Message parts: the protocol's parts as the adapter reads them (one content, a media type
  and a file name), their translation to the upstream's input parts (\<open>parts/mapping.py\<close>)
  with the standard library's Base64, and the text of upstream parts (\<open>parts/text.py\<close>).
\<close>

section \<open>Parts\<close>

type_synonym byte = nat

text \<open>The content of a part is the \<open>oneof\<close> of the protocol message; bytes are below 256.\<close>

datatype part_content =
    PText string
  | PRaw "byte list"
  | PUrl string
  | PData pyval
  | PNothing

record part =
  pt_content :: part_content
  pt_media_type :: string
  pt_filename :: string

definition text_part :: "string \<Rightarrow> part" where
  "text_part t = \<lparr>pt_content = PText t, pt_media_type = [], pt_filename = []\<rparr>"

fun has_text :: "part_content \<Rightarrow> string option" where
  "has_text (PText t) = Some t"
| "has_text _ = None"

fun has_data :: "part_content \<Rightarrow> bool" where
  "has_data (PData _) = True"
| "has_data _ = False"

section \<open>Base64\<close>

definition b64_char :: "nat \<Rightarrow> char" where
  "b64_char n =
     (if n < 26 then char_of (65 + n) else if n < 52 then char_of (71 + n)
      else if n < 62 then char_of (n - 4) else if n = 62 then CHR ''+'' else CHR ''/'')"

fun b64encode :: "byte list \<Rightarrow> string" where
  "b64encode [] = []"
| "b64encode [a] =
     [b64_char (a div 4), b64_char ((a mod 4) * 16), CHR ''='', CHR ''='']"
| "b64encode [a, b] =
     [b64_char (a div 4), b64_char ((a mod 4) * 16 + b div 16), b64_char ((b mod 16) * 4), CHR ''='']"
| "b64encode (a # b # c # bs) =
     [b64_char (a div 4), b64_char ((a mod 4) * 16 + b div 16),
      b64_char ((b mod 16) * 4 + c div 64), b64_char (c mod 64)] @ b64encode bs"

section \<open>Text\<close>

definition extract_text_from_a2a_parts :: "part list \<Rightarrow> string" where
  "extract_text_from_a2a_parts parts =
     strip (join [CHR 0x0A]
       (filter (\<lambda>t. t \<noteq> []) (List.map_filter (\<lambda>p. has_text (pt_content p)) parts)))"

text \<open>The text of the parts of an upstream message, a JSON value.\<close>

fun text_of_upstream_part :: "pyval \<Rightarrow> string option" where
  "text_of_upstream_part (PDict d) =
     (if dget d ''type'' = PStr ''text'' then as_str (dget d ''text'') else None)"
| "text_of_upstream_part _ = None"

fun extract_text_from_parts :: "pyval \<Rightarrow> string" where
  "extract_text_from_parts (PList parts) = strip (concat (List.map_filter text_of_upstream_part parts))"
| "extract_text_from_parts _ = []"

section \<open>Files\<close>

fun is_file_content :: "part_content \<Rightarrow> bool" where
  "is_file_content (PRaw bs) = (bs \<noteq> [])"
| "is_file_content (PUrl u) = (nonempty_strip u \<noteq> None)"
| "is_file_content _ = False"

definition is_file_part :: "part \<Rightarrow> bool" where
  "is_file_part p = is_file_content (pt_content p)"

definition summarize_a2a_parts :: "part list \<Rightarrow> string option" where
  "summarize_a2a_parts parts =
     (let text = extract_text_from_a2a_parts parts
      in if text \<noteq> [] then Some (take 80 text)
         else let filenames = map (\<lambda>p. case nonempty_strip (pt_filename p) of
                                          Some name \<Rightarrow> name | None \<Rightarrow> ''file'')
                                (filter is_file_part parts)
           in case filenames of
                [] \<Rightarrow> None
              | [f] \<Rightarrow> Some f
              | _ \<Rightarrow> Some (take 80 (join '', '' (take 3 filenames))))"

text \<open>\<open>UnsupportedA2AInputError\<close> with its message.\<close>

datatype input_error = UnsupportedA2AInputError string

text \<open>
  The input parts the upstream takes, \<open>OpencodeTextInputPart\<close> and \<open>OpencodeFileInputPart\<close>,
  and the dictionaries that stand for them.
\<close>

datatype input_part =
    TextInput string
  | FileInput (fi_url: string) (fi_mime: string) (fi_filename: "string option")

fun input_part_dict :: "input_part \<Rightarrow> mapping" where
  "input_part_dict (TextInput t) = [(''type'', PStr ''text''), (''text'', PStr t)]"
| "input_part_dict (FileInput url mime name) =
     dset_opt ''filename'' (map_option PStr name)
       [(''type'', PStr ''file''), (''url'', PStr url), (''mime'', PStr mime)]"

definition mime_or_default :: "string \<Rightarrow> string" where
  "mime_or_default m =
     (case nonempty_strip m of Some x \<Rightarrow> x | None \<Rightarrow> ''application/octet-stream'')"

definition data_uri :: "string \<Rightarrow> byte list \<Rightarrow> string" where
  "data_uri mime raw = ''data:'' @ mime @ '';base64,'' @ b64encode raw"

definition part_error :: "nat \<Rightarrow> string \<Rightarrow> input_error" where
  "part_error index text = UnsupportedA2AInputError (''request.parts['' @ nat_digits index @ '']'' @ text)"

definition map_file_part :: "nat \<Rightarrow> part \<Rightarrow> input_error + input_part" where
  "map_file_part index p =
     (let mime = mime_or_default (pt_media_type p);
          name = nonempty_strip (pt_filename p);
          missing = Inl (part_error index '' file input must contain either raw bytes or a url.'')
      in case pt_content p of
           PRaw raw \<Rightarrow> if raw \<noteq> [] then Inr (FileInput (data_uri mime raw) mime name) else missing
         | PUrl u \<Rightarrow>
             (case nonempty_strip u of
                Some url \<Rightarrow> Inr (FileInput url mime name)
              | None \<Rightarrow> missing)
         | _ \<Rightarrow> missing)"

definition map_part :: "nat \<Rightarrow> part \<Rightarrow> input_error + input_part" where
  "map_part index p =
     (case has_text (pt_content p) of
        Some t \<Rightarrow>
          if t \<noteq> [] then Inr (TextInput t)
          else Inl (part_error index '' is not supported; only text, raw, or url parts are accepted.'')
      | None \<Rightarrow>
          if is_file_part p then map_file_part index p
          else if has_data (pt_content p)
            then Inl (part_error index
                   '' structured data is not supported; use text, raw, or url parts.'')
          else Inl (part_error index
                 '' is not supported; only text, raw, or url parts are accepted.''))"

fun map_parts_from :: "nat \<Rightarrow> part list \<Rightarrow> input_error + input_part list" where
  "map_parts_from index [] = Inr []"
| "map_parts_from index (p # ps) =
     (case map_part index p of
        Inl e \<Rightarrow> Inl e
      | Inr q \<Rightarrow> (case map_parts_from (Suc index) ps of Inl e \<Rightarrow> Inl e | Inr qs \<Rightarrow> Inr (q # qs)))"

definition map_a2a_parts_to_opencode_parts :: "part list \<Rightarrow> input_error + input_part list" where
  "map_a2a_parts_to_opencode_parts parts = map_parts_from 0 parts"

section \<open>Lemmas\<close>

text \<open>A decoder for Base64, to state that encoding loses nothing.\<close>

definition b64_val :: "char \<Rightarrow> nat" where
  "b64_val c =
     (let n = (of_char c :: nat) in
      if c = CHR ''+'' then 62 else if c = CHR ''/'' then 63
      else if 97 \<le> n then n - 71 else if 65 \<le> n then n - 65 else n + 4)"

fun b64decode :: "string \<Rightarrow> byte list" where
  "b64decode (c1 # c2 # c3 # c4 # s) =
     (let x = b64_val c1; y = b64_val c2
      in if c3 = CHR ''='' then [x * 4 + y div 16]
         else let z = b64_val c3
           in if c4 = CHR ''='' then [x * 4 + y div 16, (y mod 16) * 16 + z div 4]
              else [x * 4 + y div 16, (y mod 16) * 16 + z div 4, (z mod 4) * 64 + b64_val c4]
                   @ b64decode s)"
| "b64decode _ = []"

lemma char_of_is: "(char_of (n :: nat) = c) = (n mod 256 = of_char c)"
  by (simp add: char_of_eq_iff take_bit_eq_mod)

lemma b64_val_char [simp]: "n < 64 \<Longrightarrow> b64_val (b64_char n) = n"
  by (auto simp: b64_val_def b64_char_def Let_def char_of_is)

lemma b64_char_not_pad [simp]: "n < 64 \<Longrightarrow> b64_char n \<noteq> CHR ''=''"
  by (auto simp: b64_char_def char_of_is)

lemma b64_bounds [simp]:
  "(a :: nat) < 256 \<Longrightarrow> a div 4 < 64"
  "b < 256 \<Longrightarrow> (a mod 4) * 16 + b div 16 < (64 :: nat)"
  "c < 256 \<Longrightarrow> (b mod 16) * 4 + c div 64 < (64 :: nat)"
  "(a mod 4) * 16 < (64 :: nat)" "(b mod 16) * 4 < (64 :: nat)"
proof -
  have "a mod 4 < 4" "b mod 16 < 16" by simp_all
  moreover have "b < 256 \<Longrightarrow> b div 16 < 16" "c < 256 \<Longrightarrow> c div 64 < 4" "a < 256 \<Longrightarrow> a div 4 < 64"
    by (simp_all add: less_mult_imp_div_less)
  ultimately show "a < 256 \<Longrightarrow> a div 4 < 64" "b < 256 \<Longrightarrow> (a mod 4) * 16 + b div 16 < 64"
    "c < 256 \<Longrightarrow> (b mod 16) * 4 + c div 64 < 64" "(a mod 4) * 16 < 64" "(b mod 16) * 4 < 64"
    by linarith+
qed

lemma shifted: "r < m \<Longrightarrow> (q * m + r) div m = (q :: nat)" "r < m \<Longrightarrow> (q * m + r) mod m = (r :: nat)"
  by simp_all

lemma b64_first: "b < 256 \<Longrightarrow> a div 4 * 4 + ((a mod 4) * 16 + b div 16) div 16 = (a :: nat)"
  using shifted(1) [of "b div 16" 16 "a mod 4"] by (simp add: less_mult_imp_div_less)

lemma b64_second:
  "c < 256 \<Longrightarrow> b < 256 \<Longrightarrow>
   ((a mod 4) * 16 + b div 16) mod 16 * 16 + ((b mod 16) * 4 + c div 64) div 4 = (b :: nat)"
  using shifted(2) [of "b div 16" 16 "a mod 4"] shifted(1) [of "c div 64" 4 "b mod 16"]
  by (simp add: less_mult_imp_div_less)

lemma b64_third: "c < 256 \<Longrightarrow> ((b mod 16) * 4 + c div 64) mod 4 * 64 + c mod 64 = (c :: nat)"
  using shifted(2) [of "c div 64" 4 "b mod 16"] by (simp add: less_mult_imp_div_less)

lemma b64_round_trip: "\<forall>b \<in> set bs. b < 256 \<Longrightarrow> b64decode (b64encode bs) = bs"
proof (induction bs rule: b64encode.induct)
  case 1
  then show ?case by simp
next
  case (2 a)
  then show ?case using b64_first [of 0 a] by (simp add: Let_def)
next
  case (3 a b)
  then show ?case using b64_first [of b a] b64_second [of 0 b a] by (simp add: Let_def)
next
  case (4 a b c bs)
  then show ?case using b64_first [of b a] b64_second [of c b a] b64_third [of c b]
    by (simp add: Let_def)
qed

section \<open>Properties\<close>

definition supported_part :: "part \<Rightarrow> bool" where
  "supported_part p \<longleftrightarrow>
     (case pt_content p of PText t \<Rightarrow> t \<noteq> [] | c \<Rightarrow> is_file_content c)"

lemma map_part_supported: "(\<exists>q. map_part i p = Inr q) \<longleftrightarrow> supported_part p"
  by (cases "pt_content p")
    (auto simp: map_part_def map_file_part_def is_file_part_def supported_part_def Let_def
      split: option.splits)

lemma map_parts_from_ok:
  "list_all supported_part ps \<Longrightarrow>
     \<exists>qs. map_parts_from i ps = Inr qs \<and> length qs = length ps \<and>
       (\<forall>k < length ps. map_part (i + k) (ps ! k) = Inr (qs ! k))"
proof (induction ps arbitrary: i)
  case (Cons p ps)
  obtain q where q: "map_part i p = Inr q" using Cons.prems map_part_supported [of i p] by auto
  obtain qs where qs: "map_parts_from (Suc i) ps = Inr qs" "length qs = length ps"
    "\<forall>k < length ps. map_part (Suc i + k) (ps ! k) = Inr (qs ! k)"
    using Cons.IH [of "Suc i"] Cons.prems by auto
  have "\<forall>k < length (p # ps). map_part (i + k) ((p # ps) ! k) = Inr ((q # qs) ! k)"
    using q qs(3) by (auto simp: nth_Cons split: nat.split)
  with q qs show ?case by auto
qed simp

lemma map_parts_from_error:
  "map_parts_from i ps = Inl e \<longleftrightarrow>
     (\<exists>k < length ps. map_part (i + k) (ps ! k) = Inl e \<and> (\<forall>j < k. supported_part (ps ! j)))"
proof (induction ps arbitrary: i)
  case (Cons p ps)
  show ?case
  proof (cases "map_part i p")
    case (Inl e')
    then have "\<not> supported_part p" using map_part_supported [of i p] by auto
    with Inl show ?thesis by (simp add: Ex_less_Suc2 All_less_Suc2)
  next
    case (Inr q)
    then have sup: "supported_part p" using map_part_supported [of i p] by auto
    have "map_parts_from i (p # ps) = Inl e \<longleftrightarrow> map_parts_from (Suc i) ps = Inl e"
      using Inr by (simp split: sum.splits)
    also have "\<dots> \<longleftrightarrow> (\<exists>k < length ps. map_part (i + Suc k) (ps ! k) = Inl e \<and>
        (\<forall>j < k. supported_part (ps ! j)))"
      using Cons.IH by simp
    also have "\<dots> \<longleftrightarrow> (\<exists>k < length (p # ps). map_part (i + k) ((p # ps) ! k) = Inl e \<and>
        (\<forall>j < k. supported_part ((p # ps) ! j)))"
      using Inr sup by (simp add: Ex_less_Suc2 All_less_Suc2)
    finally show ?thesis .
  qed
qed simp

text \<open>
  Mapping a message keeps every part in order, none dropped and none invented: it
  fails exactly when some part is unsupported, with the error of the first such part, and
  otherwise the result has one input part per message part.
\<close>

theorem map_parts_keeps_order:
  "(list_all supported_part ps \<longrightarrow> (\<exists>qs. map_a2a_parts_to_opencode_parts ps = Inr qs \<and>
      length qs = length ps \<and> (\<forall>k < length ps. map_part k (ps ! k) = Inr (qs ! k)))) \<and>
   (map_a2a_parts_to_opencode_parts ps = Inl e \<longleftrightarrow>
      (\<exists>k < length ps. map_part k (ps ! k) = Inl e \<and> (\<forall>j < k. supported_part (ps ! j))))"
  using map_parts_from_ok [of ps 0] map_parts_from_error [of 0 ps e]
  by (auto simp: map_a2a_parts_to_opencode_parts_def)

theorem map_parts_keeps_order_witness:
  "length (case map_a2a_parts_to_opencode_parts [text_part ''hi'', text_part ''you''] of
      Inr qs \<Rightarrow> qs | Inl _ \<Rightarrow> []) = 2"
  using map_parts_keeps_order [of "[text_part ''hi'', text_part ''you'']" "UnsupportedA2AInputError []"]
  by (auto simp: supported_part_def text_part_def)

text \<open>
  A raw file reaches the upstream unchanged: the data URI of its input part carries the
  Base64 text of exactly the bytes of the part.
\<close>

theorem raw_file_survives:
  assumes "pt_content p = PRaw raw" and "raw \<noteq> []" and "\<forall>b \<in> set raw. b < 256"
  shows "\<exists>mime b64 name. map_part i p = Inr (FileInput (''data:'' @ mime @ '';base64,'' @ b64) mime name) \<and>
    b64decode b64 = raw \<and> strip mime = mime \<and> mime \<noteq> []"
proof -
  have "strip (mime_or_default m) = mime_or_default m \<and> mime_or_default m \<noteq> []" for m
  proof (cases "nonempty_strip m")
    case None
    moreover have "strip ''application/octet-stream'' = ''application/octet-stream''" by code_simp
    ultimately show ?thesis by (simp add: mime_or_default_def)
  next
    case (Some x)
    then have "x = strip m" "x \<noteq> []" by (simp_all add: nonempty_strip_Some)
    with Some show ?thesis by (simp add: mime_or_default_def)
  qed
  with assms b64_round_trip [OF assms(3)] show ?thesis
    by (auto simp: map_part_def is_file_part_def map_file_part_def data_uri_def Let_def)
qed

theorem raw_file_survives_witness:
  "\<exists>mime b64 name.
     map_part 0 \<lparr>pt_content = PRaw [104, 105], pt_media_type = ''text/plain'', pt_filename = []\<rparr> =
       Inr (FileInput (''data:'' @ mime @ '';base64,'' @ b64) mime name) \<and> b64decode b64 = [104, 105]"
  using raw_file_survives
    [of "\<lparr>pt_content = PRaw [104, 105], pt_media_type = ''text/plain'', pt_filename = []\<rparr>"
      "[104, 105]" 0]
  by auto

end
