(* ===== verification/Upstream_Client.thy ===== *)
theory Upstream_Client
  imports A2A_Parts
begin

text \<open>
  The client of the OpenCode runtime (\<open>opencode_upstream_client.py\<close>): its two concurrency
  budgets, how it builds each HTTP request, how it checks and decodes the response, and the
  event stream it reads. The HTTP library is a parameter: a function from a request to a
  transport failure or a response.
\<close>

section \<open>Requests, responses and errors\<close>

datatype timeout = DefaultTimeout | Timeout "seconds option"

record http_request =
  hr_verb :: string
  hr_path :: string
  hr_params :: "(string \<times> string) list"
  hr_json :: "pyval option"
  hr_timeout :: timeout
  hr_headers :: "(string \<times> string) list"

record http_response =
  hs_status :: int
  hs_headers :: "(string \<times> string) list"
  hs_text :: string

text \<open>How the HTTP library fails when there is no response; time-outs are a class of their own.\<close>

datatype transport_failure = TimeoutException string | TransportError string

text \<open>
  What a call raises: the two error classes of the module, the library's status and
  transport errors, and the built-in ones.
\<close>

datatype upstream_error =
    UpstreamConcurrencyLimitError (ue_category: string) (ue_operation: string) (ue_limit: int)
  | UpstreamContractError string
  | HTTPStatusError http_response
  | HTTPError transport_failure
  | RuntimeError string
  | ValueError string
  | AttributeError string

type_synonym transport = "http_request \<Rightarrow> transport_failure + http_response"

text \<open>What Python raises when a value that is no mapping is asked for a key.\<close>

definition no_attribute :: "pyval \<Rightarrow> string \<Rightarrow> upstream_error" where
  "no_attribute v name =
     AttributeError ([CHR 0x27] @ type_name v @ [CHR 0x27] @ '' object has no attribute '' @
                     [CHR 0x27] @ name @ [CHR 0x27])"

section \<open>Concurrency budgets\<close>

record budget =
  bg_category :: string
  bg_limit :: int
  bg_inflight :: int

definition budget_init :: "string \<Rightarrow> int \<Rightarrow> budget" where
  "budget_init category limit =
     \<lparr>bg_category = category, bg_limit = max 0 limit, bg_inflight = 0\<rparr>"

text \<open>\<open>_FastFailConcurrencyBudget.reserve\<close>, before and after the body it guards.\<close>

definition budget_enter :: "string \<Rightarrow> budget \<Rightarrow> upstream_error + budget" where
  "budget_enter operation b =
     (if bg_limit b \<le> 0 then Inr b
      else if bg_limit b \<le> bg_inflight b
        then Inl (UpstreamConcurrencyLimitError (bg_category b) operation (bg_limit b))
      else Inr (b\<lparr>bg_inflight := bg_inflight b + 1\<rparr>))"

definition budget_exit :: "budget \<Rightarrow> budget" where
  "budget_exit b =
     (if bg_limit b \<le> 0 then b
      else if 0 < bg_inflight b then b\<lparr>bg_inflight := bg_inflight b - 1\<rparr> else b)"

section \<open>The client\<close>

record upstream_client =
  uc_directory :: "string option"
  uc_agent :: "string option"
  uc_system :: "string option"
  uc_variant :: "string option"
  uc_request_budget :: budget
  uc_stream_budget :: budget
  uc_trace_headers :: "(string \<times> string) list"

type_synonym 'a action = "transport \<Rightarrow> upstream_client \<Rightarrow> (upstream_error + 'a) \<times> upstream_client"

text \<open>\<open>_request_headers\<close>; the trace headers of the current context come first.\<close>

definition request_headers ::
    "(string \<times> string) list \<Rightarrow> upstream_client \<Rightarrow> (string \<times> string) list" where
  "request_headers headers c = dmerge (uc_trace_headers c) headers"

definition header_get :: "(string \<times> string) list \<Rightarrow> string \<Rightarrow> string option" where
  "header_get headers name = map_of (map (\<lambda>(k, v). (lower k, v)) headers) (lower name)"

definition response_body_preview :: "http_response \<Rightarrow> nat \<Rightarrow> string" where
  "response_body_preview response limit =
     (let body = strip (hs_text response)
      in if body = [] then ''<empty>''
         else let compact = join '' '' (split_ws body)
           in if length compact \<le> limit then compact
              else take (limit - 3) compact @ ''...'')"

definition decode_json_response :: "string \<Rightarrow> http_response \<Rightarrow> upstream_error + pyval" where
  "decode_json_response endpoint response =
     (case json_loads (hs_text response) of
        Some v \<Rightarrow> Inr v
      | None \<Rightarrow>
          (let header = (case header_get (hs_headers response) ''content-type'' of
                           None \<Rightarrow> [] | Some h \<Rightarrow> h);
               content_type = strip (before CHR '';'' header);
               normalized = (if content_type = [] then ''unknown'' else content_type)
           in Inl (UpstreamContractError
                (''OpenCode '' @ endpoint @ '' returned non-JSON response (status='' @
                 str_int (hs_status response) @ '', content-type='' @ normalized @
                 '', body='' @ response_body_preview response 200 @ '')''))))"

fun require_boolean_response :: "string \<Rightarrow> pyval \<Rightarrow> upstream_error + bool" where
  "require_boolean_response endpoint (PBool b) = Inr b"
| "require_boolean_response endpoint payload =
     Inl (RuntimeError (''OpenCode '' @ endpoint @ '' response must be boolean; got '' @ type_name payload))"

definition is_success :: "http_response \<Rightarrow> bool" where
  "is_success response \<longleftrightarrow> 200 \<le> hs_status response \<and> hs_status response \<le> 299"

text \<open>
  One guarded exchange: reserve, send, \<open>raise_for_status\<close>, look at the response, release.
  The release runs on every path.
\<close>

definition exchange ::
    "string \<Rightarrow> http_request \<Rightarrow> (http_response \<Rightarrow> upstream_error + 'a) \<Rightarrow> 'a action" where
  "exchange operation request accept transport c =
     (case budget_enter operation (uc_request_budget c) of
        Inl e \<Rightarrow> (Inl e, c)
      | Inr b \<Rightarrow>
          (case transport request of
             Inl failure \<Rightarrow> Inl (HTTPError failure)
           | Inr response \<Rightarrow>
               if is_success response then accept response else Inl (HTTPStatusError response),
           c\<lparr>uc_request_budget := budget_exit b\<rparr>))"

definition http :: "string \<Rightarrow> string \<Rightarrow> (string \<times> string) list \<Rightarrow> pyval option \<Rightarrow> timeout
    \<Rightarrow> upstream_client \<Rightarrow> http_request" where
  "http verb path params body timeout c =
     \<lparr>hr_verb = verb, hr_path = path, hr_params = params, hr_json = body, hr_timeout = timeout,
      hr_headers = request_headers [] c\<rparr>"

definition get_json :: "string \<Rightarrow> string \<Rightarrow> (string \<times> string) list \<Rightarrow> pyval action" where
  "get_json path endpoint params transport c =
     exchange endpoint (http ''GET'' path params None DefaultTimeout c)
       (decode_json_response endpoint) transport c"

definition post_json ::
    "string \<Rightarrow> string \<Rightarrow> (string \<times> string) list \<Rightarrow> pyval option \<Rightarrow> timeout \<Rightarrow> pyval action" where
  "post_json path endpoint params body timeout transport c =
     exchange endpoint (http ''POST'' path params body timeout c)
       (decode_json_response endpoint) transport c"

definition delete_json :: "string \<Rightarrow> string \<Rightarrow> (string \<times> string) list \<Rightarrow> pyval action" where
  "delete_json path endpoint params transport c =
     exchange endpoint (http ''DELETE'' path params None DefaultTimeout c)
       (decode_json_response endpoint) transport c"

text \<open>A further step on the result of a call.\<close>

definition then_check :: "(upstream_error + 'a) \<times> 's \<Rightarrow> ('a \<Rightarrow> upstream_error + 'b) \<Rightarrow> (upstream_error + 'b) \<times> 's"
  where
  "then_check r f = (case fst r of Inl e \<Rightarrow> Inl e | Inr x \<Rightarrow> f x, snd r)"

definition post_boolean ::
    "string \<Rightarrow> string \<Rightarrow> (string \<times> string) list \<Rightarrow> pyval option \<Rightarrow> timeout \<Rightarrow> bool action" where
  "post_boolean path endpoint params body timeout transport c =
     then_check (post_json path endpoint params body timeout transport c)
       (require_boolean_response endpoint)"

section \<open>Routing and request parameters\<close>

definition normalize_model_ref :: "mapping option \<Rightarrow> mapping option" where
  "normalize_model_ref value =
     (case value of
        None \<Rightarrow> None
      | Some m \<Rightarrow>
          (case (as_str (dget m ''providerID''), as_str (dget m ''modelID'')) of
             (Some provider, Some model) \<Rightarrow>
               (let provider_id = strip provider; model_id = strip model
                in if provider_id = [] \<or> model_id = [] then None
                   else Some [(''providerID'', PStr provider_id), (''modelID'', PStr model_id)])
           | _ \<Rightarrow> None))"

definition nonempty :: "string option \<Rightarrow> string option" where
  "nonempty x = (if x = Some [] then None else x)"

definition query_params ::
    "string option \<Rightarrow> string option \<Rightarrow> upstream_client \<Rightarrow> (string \<times> string) list" where
  "query_params directory workspace_id c =
     (case Option.bind workspace_id nonempty_strip of
        Some w \<Rightarrow> [(''workspace'', w)]
      | None \<Rightarrow>
          (case (if nonempty directory = None then nonempty (uc_directory c) else directory) of
             None \<Rightarrow> []
           | Some d \<Rightarrow> [(''directory'', d)]))"

definition merge_params ::
    "(rat \<Rightarrow> string) \<Rightarrow> mapping option \<Rightarrow> string option \<Rightarrow> string option \<Rightarrow> upstream_client
       \<Rightarrow> (string \<times> string) list" where
  "merge_params fr extra directory workspace_id c =
     fold (\<lambda>(key, value) params.
             if value = PNone \<or> key \<in> {''directory'', ''workspace''} then params
             else dset key (py_str fr value) params)
       (case extra of None \<Rightarrow> [] | Some e \<Rightarrow> e)
       (query_params directory workspace_id c)"

section \<open>Endpoints\<close>

text \<open>
  One definition per method; \<open>d\<close> is the directory and \<open>w\<close> the workspace id of the call.
\<close>

definition create_session :: "string option \<Rightarrow> string option \<Rightarrow> string option \<Rightarrow> string action" where
  "create_session title d w tr c =
     (let payload = dset_opt ''title'' (map_option PStr (nonempty title)) []
      in then_check (post_json ''/session'' ''/session'' (query_params d w c) (Some (PDict payload))
                       DefaultTimeout tr c)
           (\<lambda>data. case data of
              PDict m \<Rightarrow>
                (case as_str (dget m ''id'') of
                   Some sid \<Rightarrow> if sid \<noteq> [] then Inr sid
                               else Inl (RuntimeError ''OpenCode session response missing id'')
                 | None \<Rightarrow> Inl (RuntimeError ''OpenCode session response missing id''))
            | v \<Rightarrow> Inl (no_attribute v ''get'')))"

definition session_status :: "string option \<Rightarrow> string option \<Rightarrow> pyval action" where
  "session_status d w tr c =
     get_json ''/session/status'' ''/session/status'' (query_params d w c) tr c"

definition uc_get_session :: "string \<Rightarrow> string option \<Rightarrow> string option \<Rightarrow> pyval action" where
  "uc_get_session sid d w tr c =
     get_json (''/session/'' @ sid) ''/session/{sessionID}'' (query_params d w c) tr c"

definition list_child_sessions :: "string \<Rightarrow> string option \<Rightarrow> string option \<Rightarrow> pyval action" where
  "list_child_sessions sid d w tr c =
     get_json (''/session/'' @ sid @ ''/children'') ''/session/{sessionID}/children'' (query_params d w c) tr c"

definition get_session_todo :: "string \<Rightarrow> string option \<Rightarrow> string option \<Rightarrow> pyval action" where
  "get_session_todo sid d w tr c =
     get_json (''/session/'' @ sid @ ''/todo'') ''/session/{sessionID}/todo'' (query_params d w c) tr c"

definition get_session_diff ::
    "(rat \<Rightarrow> string) \<Rightarrow> string \<Rightarrow> mapping option \<Rightarrow> string option \<Rightarrow> string option \<Rightarrow> pyval action" where
  "get_session_diff fr sid params d w tr c =
     get_json (''/session/'' @ sid @ ''/diff'') ''/session/{sessionID}/diff''
       (merge_params fr params d w c) tr c"

definition abort_session :: "string \<Rightarrow> string option \<Rightarrow> string option \<Rightarrow> bool action" where
  "abort_session sid d w tr c =
     post_boolean (''/session/'' @ sid @ ''/abort'') ''/session/{sessionID}/abort''
       (query_params d w c) None DefaultTimeout tr c"

definition list_sessions ::
    "(rat \<Rightarrow> string) \<Rightarrow> mapping option \<Rightarrow> string option \<Rightarrow> string option \<Rightarrow> pyval action" where
  "list_sessions fr params d w tr c =
     get_json ''/session'' ''/session'' (merge_params fr params d w c) tr c"

record message_page =
  mp_payload :: pyval
  mp_next_cursor :: "string option"

definition list_messages ::
    "(rat \<Rightarrow> string) \<Rightarrow> string \<Rightarrow> mapping option \<Rightarrow> string option \<Rightarrow> message_page action" where
  "list_messages fr sid params w tr c =
     (let endpoint = ''/session/{sessionID}/message''
      in exchange endpoint
           (http ''GET'' (''/session/'' @ sid @ ''/message'') (merge_params fr params None w c) None
              DefaultTimeout c)
           (\<lambda>response.
              case decode_json_response endpoint response of
                Inl e \<Rightarrow> Inl e
              | Inr payload \<Rightarrow>
                  Inr \<lparr>mp_payload = payload,
                       mp_next_cursor =
                         Option.bind (header_get (hs_headers response) ''X-Next-Cursor'') nonempty_strip\<rparr>)
           tr c)"

definition get_message :: "string \<Rightarrow> string \<Rightarrow> string option \<Rightarrow> string option \<Rightarrow> pyval action" where
  "get_message sid mid d w tr c =
     get_json (''/session/'' @ sid @ ''/message/'' @ mid) ''/session/{sessionID}/message/{messageID}''
       (query_params d w c) tr c"

definition session_prompt_async ::
    "string \<Rightarrow> mapping \<Rightarrow> string option \<Rightarrow> string option \<Rightarrow> unit action" where
  "session_prompt_async sid request d w tr c =
     (let endpoint = ''/session/{sessionID}/prompt_async''
      in exchange endpoint
           (http ''POST'' (''/session/'' @ sid @ ''/prompt_async'') (query_params d w c)
              (Some (PDict request)) DefaultTimeout c)
           (\<lambda>response.
              if hs_status response \<noteq> 204
              then Inl (UpstreamContractError (''OpenCode '' @ endpoint @ '' must return 204; got '' @
                          str_int (hs_status response)))
              else Inr ())
           tr c)"

definition session_command :: "string \<Rightarrow> mapping \<Rightarrow> string option \<Rightarrow> string option \<Rightarrow> pyval action" where
  "session_command sid request d w tr c =
     post_json (''/session/'' @ sid @ ''/command'') ''/session/{sessionID}/command'' (query_params d w c)
       (Some (PDict request)) DefaultTimeout tr c"

definition session_shell :: "string \<Rightarrow> mapping \<Rightarrow> string option \<Rightarrow> string option \<Rightarrow> pyval action" where
  "session_shell sid request d w tr c =
     post_json (''/session/'' @ sid @ ''/shell'') ''/session/{sessionID}/shell'' (query_params d w c)
       (Some (PDict request)) DefaultTimeout tr c"

definition fork_session :: "string \<Rightarrow> mapping option \<Rightarrow> string option \<Rightarrow> string option \<Rightarrow> pyval action" where
  "fork_session sid request d w tr c =
     post_json (''/session/'' @ sid @ ''/fork'') ''/session/{sessionID}/fork'' (query_params d w c)
       (Some (PDict (case request of None \<Rightarrow> [] | Some r \<Rightarrow> r))) DefaultTimeout tr c"

definition share_session :: "string \<Rightarrow> string option \<Rightarrow> string option \<Rightarrow> pyval action" where
  "share_session sid d w tr c =
     post_json (''/session/'' @ sid @ ''/share'') ''/session/{sessionID}/share'' (query_params d w c)
       None DefaultTimeout tr c"

definition unshare_session :: "string \<Rightarrow> string option \<Rightarrow> string option \<Rightarrow> pyval action" where
  "unshare_session sid d w tr c =
     delete_json (''/session/'' @ sid @ ''/share'') ''/session/{sessionID}/share'' (query_params d w c) tr c"

definition summarize_session :: "string \<Rightarrow> mapping option \<Rightarrow> string option \<Rightarrow> string option \<Rightarrow> bool action" where
  "summarize_session sid request d w tr c =
     post_boolean (''/session/'' @ sid @ ''/summarize'') ''/session/{sessionID}/summarize''
       (query_params d w c) (map_option PDict request) DefaultTimeout tr c"

definition revert_session :: "string \<Rightarrow> mapping \<Rightarrow> string option \<Rightarrow> string option \<Rightarrow> pyval action" where
  "revert_session sid request d w tr c =
     post_json (''/session/'' @ sid @ ''/revert'') ''/session/{sessionID}/revert'' (query_params d w c)
       (Some (PDict request)) DefaultTimeout tr c"

definition unrevert_session :: "string \<Rightarrow> string option \<Rightarrow> string option \<Rightarrow> pyval action" where
  "unrevert_session sid d w tr c =
     post_json (''/session/'' @ sid @ ''/unrevert'') ''/session/{sessionID}/unrevert''
       (query_params d w c) None DefaultTimeout tr c"

definition list_provider_catalog :: "string option \<Rightarrow> string option \<Rightarrow> pyval action" where
  "list_provider_catalog d w tr c = get_json ''/provider'' ''/provider'' (query_params d w c) tr c"

definition list_projects :: "pyval action" where
  "list_projects tr c = get_json ''/project'' ''/project'' [] tr c"

definition get_current_project :: "pyval action" where
  "get_current_project tr c = get_json ''/project/current'' ''/project/current'' [] tr c"

definition list_workspaces :: "pyval action" where
  "list_workspaces tr c = get_json ''/experimental/workspace'' ''/experimental/workspace'' [] tr c"

definition create_workspace :: "mapping \<Rightarrow> pyval action" where
  "create_workspace request tr c =
     post_json ''/experimental/workspace'' ''/experimental/workspace'' [] (Some (PDict request))
       DefaultTimeout tr c"

definition remove_workspace :: "string \<Rightarrow> pyval action" where
  "remove_workspace workspace_id tr c =
     delete_json (''/experimental/workspace/'' @ workspace_id) ''/experimental/workspace/{id}'' [] tr c"

definition list_worktrees :: "pyval action" where
  "list_worktrees tr c = get_json ''/experimental/worktree'' ''/experimental/worktree'' [] tr c"

definition create_worktree :: "mapping \<Rightarrow> pyval action" where
  "create_worktree request tr c =
     post_json ''/experimental/worktree'' ''/experimental/worktree'' [] (Some (PDict request))
       DefaultTimeout tr c"

definition remove_worktree :: "mapping \<Rightarrow> bool action" where
  "remove_worktree request tr c =
     then_check
       (exchange ''/experimental/worktree''
          (http ''DELETE'' ''/experimental/worktree'' [] (Some (PDict request)) DefaultTimeout c)
          (decode_json_response ''/experimental/worktree'') tr c)
       (require_boolean_response ''/experimental/worktree'')"

definition reset_worktree :: "mapping \<Rightarrow> bool action" where
  "reset_worktree request tr c =
     post_boolean ''/experimental/worktree/reset'' ''/experimental/worktree/reset'' []
       (Some (PDict request)) DefaultTimeout tr c"

section \<open>Sending a message\<close>

record opencode_message =
  om_text :: string
  om_session_id :: string
  om_message_id :: pyval
  om_raw :: pyval

definition message_payload ::
    "mapping list \<Rightarrow> mapping option \<Rightarrow> upstream_client \<Rightarrow> mapping" where
  "message_payload parts model_override c =
     dset_opt ''model'' (map_option PDict (normalize_model_ref model_override))
       (dset_opt ''variant'' (map_option PStr (nonempty (uc_variant c)))
         (dset_opt ''system'' (map_option PStr (nonempty (uc_system c)))
           (dset_opt ''agent'' (map_option PStr (nonempty (uc_agent c)))
             [(''parts'', PList (map PDict parts))])))"

definition read_message :: "string \<Rightarrow> pyval \<Rightarrow> upstream_error + opencode_message" where
  "read_message sid data =
     (case data of
        PDict m \<Rightarrow>
          Inr \<lparr>om_text = extract_text_from_parts
                 (case map_of m ''parts'' of None \<Rightarrow> PList [] | Some ps \<Rightarrow> ps),
               om_session_id = sid,
               om_message_id = (case dget m ''info'' of PDict info \<Rightarrow> dget info ''id'' | _ \<Rightarrow> PNone),
               om_raw = data\<rparr>
      | v \<Rightarrow> Inl (no_attribute v ''get''))"

definition send_message ::
    "string \<Rightarrow> string option \<Rightarrow> mapping list option \<Rightarrow> string option \<Rightarrow> string option
       \<Rightarrow> mapping option \<Rightarrow> timeout \<Rightarrow> opencode_message action" where
  "send_message sid msg parts d w model_override timeout_override tr c =
     (case (case parts of
              Some ps \<Rightarrow> Inr ps
            | None \<Rightarrow>
                (case msg of
                   Some t \<Rightarrow> Inr [[(''type'', PStr ''text''), (''text'', PStr t)]]
                 | None \<Rightarrow> Inl (ValueError ''send_message requires either text or parts''))) of
        Inl e \<Rightarrow> (Inl e, c)
      | Inr payload_parts \<Rightarrow>
          if payload_parts = [] then (Inl (ValueError ''send_message parts must not be empty''), c)
          else then_check
                 (post_json (''/session/'' @ sid @ ''/message'') ''/session/{sessionID}/message''
                    (query_params d w c) (Some (PDict (message_payload payload_parts model_override c)))
                    timeout_override tr c)
                 (read_message sid))"

section \<open>Answers to interrupts\<close>

definition permission_reply ::
    "string \<Rightarrow> string \<Rightarrow> string option \<Rightarrow> string option \<Rightarrow> string option \<Rightarrow> bool action" where
  "permission_reply rid reply msg d w tr c =
     post_boolean (''/permission/'' @ rid @ ''/reply'') ''/permission/{requestID}/reply''
       (query_params d w c)
       (Some (PDict (dset_opt ''message'' (map_option PStr (nonempty msg)) [(''reply'', PStr reply)])))
       DefaultTimeout tr c"

definition question_reply ::
    "string \<Rightarrow> string list list \<Rightarrow> string option \<Rightarrow> string option \<Rightarrow> bool action" where
  "question_reply rid answers d w tr c =
     post_boolean (''/question/'' @ rid @ ''/reply'') ''/question/{requestID}/reply''
       (query_params d w c)
       (Some (PDict [(''answers'', PList (map (\<lambda>a. PList (map PStr a)) answers))])) DefaultTimeout tr c"

definition question_reject :: "string \<Rightarrow> string option \<Rightarrow> string option \<Rightarrow> bool action" where
  "question_reject rid d w tr c =
     post_boolean (''/question/'' @ rid @ ''/reject'') ''/question/{requestID}/reject''
       (query_params d w c) None DefaultTimeout tr c"

section \<open>The event stream\<close>

text \<open>
  The lines of the response, each with whether the stop event was set when it was read; the
  state is the list of data lines of the event that is being collected.
\<close>

definition decode_event :: "string list \<Rightarrow> mapping option" where
  "decode_event data_lines =
     (let payload = strip (join [CHR 0x0A] data_lines)
      in if payload = [] then None else Option.bind (json_loads payload) as_mapping)"

fun read_events :: "string list \<Rightarrow> (bool \<times> string) list \<Rightarrow> mapping list" where
  "read_events data_lines [] = []"
| "read_events data_lines ((stopped, line) # lines) =
     (if stopped then []
      else if startswith line '':'' then read_events data_lines lines
      else if line = [] then
        (if data_lines = [] then read_events data_lines lines
         else (case decode_event data_lines of
                 None \<Rightarrow> read_events [] lines
               | Some event \<Rightarrow> event # read_events [] lines))
      else if startswith line ''data:''
        then read_events (data_lines @ [lstrip (drop 5 line)]) lines
      else read_events data_lines lines)"

definition stream_events ::
    "string option \<Rightarrow> string option \<Rightarrow> (http_request \<Rightarrow> transport_failure + (http_response \<times> (bool \<times> string) list))
       \<Rightarrow> upstream_client \<Rightarrow> (upstream_error + mapping list) \<times> upstream_client" where
  "stream_events d w tr c =
     (case budget_enter ''/event'' (uc_stream_budget c) of
        Inl e \<Rightarrow> (Inl e, c)
      | Inr b \<Rightarrow>
          (case tr \<lparr>hr_verb = ''GET'', hr_path = ''/event'', hr_params = query_params d w c,
                    hr_json = None, hr_timeout = Timeout None,
                    hr_headers = request_headers [(''Accept'', ''text/event-stream'')] c\<rparr> of
             Inl failure \<Rightarrow> Inl (HTTPError failure)
           | Inr (response, lines) \<Rightarrow>
               if is_success response then Inr (read_events [] lines)
               else Inl (HTTPStatusError response),
           c\<lparr>uc_stream_budget := budget_exit b\<rparr>))"

section \<open>Lemmas\<close>

lemma budget_enter_exit: "0 \<le> bg_inflight b \<Longrightarrow> budget_enter op b = Inr b' \<Longrightarrow> budget_exit b' = b"
  by (auto simp: budget_enter_def budget_exit_def split: if_splits)

lemma exchange_releases:
  "0 \<le> bg_inflight (uc_request_budget c) \<Longrightarrow> snd (exchange op req accept tr c) = c"
  using budget_enter_exit [of "uc_request_budget c" op]
  by (auto simp: exchange_def split: sum.splits)

lemma then_check_snd [simp]: "snd (then_check r f) = snd r"
  by (simp add: then_check_def)

lemmas endpoint_defs =
  get_json_def post_json_def delete_json_def post_boolean_def create_session_def session_status_def
  uc_get_session_def list_child_sessions_def get_session_todo_def get_session_diff_def
  abort_session_def list_sessions_def list_messages_def get_message_def session_prompt_async_def
  session_command_def session_shell_def fork_session_def share_session_def unshare_session_def
  summarize_session_def revert_session_def unrevert_session_def list_provider_catalog_def
  list_projects_def get_current_project_def list_workspaces_def create_workspace_def
  remove_workspace_def list_worktrees_def create_worktree_def remove_worktree_def
  reset_worktree_def permission_reply_def question_reply_def question_reject_def

subsection \<open>Budgets under interleaving\<close>

text \<open>Calls begin and end in any order; a call that was refused never ends.\<close>

datatype budget_event = Begin nat string | End nat

fun budget_step :: "budget_event \<Rightarrow> budget \<times> nat list \<Rightarrow> budget \<times> nat list" where
  "budget_step (Begin i op) (b, active) =
     (if i \<in> set active then (b, active)
      else case budget_enter op b of Inl _ \<Rightarrow> (b, active) | Inr b' \<Rightarrow> (b', i # active))"
| "budget_step (End i) (b, active) =
     (if i \<in> set active then (budget_exit b, remove1 i active) else (b, active))"

definition budget_ok :: "int \<Rightarrow> budget \<times> nat list \<Rightarrow> bool" where
  "budget_ok limit s \<longleftrightarrow> bg_limit (fst s) = limit \<and> distinct (snd s) \<and>
     (0 < limit \<longrightarrow> bg_inflight (fst s) = int (length (snd s)) \<and> bg_inflight (fst s) \<le> limit)"

lemma budget_step_ok: "budget_ok limit s \<Longrightarrow> budget_ok limit (budget_step e s)"
  by (cases "(e, s)" rule: budget_step.cases)
    (auto simp: budget_ok_def budget_enter_def budget_exit_def length_remove1 of_nat_diff
      Suc_le_eq length_pos_if_in_set split: sum.splits if_splits)

lemma budget_run_ok: "budget_ok limit s \<Longrightarrow> budget_ok limit (fold budget_step es s)"
  by (induction es arbitrary: s) (simp_all add: budget_step_ok)

subsection \<open>Strings without surrounding white space\<close>

lemma strip_fixed:
  assumes "s \<noteq> []" and "\<not> is_space (hd s)" and "\<not> is_space (last s)"
  shows "strip s = s"
proof -
  have "dropWhile is_space s = s" using assms(1,2) by (cases s) simp_all
  moreover have "dropWhile is_space (rev s) = rev s"
    using assms(1,3) by (cases s rule: rev_cases) simp_all
  ultimately show ?thesis by (simp add: strip_def)
qed

lemma strip_object: "strip (json_dumps fr asc srt (PDict d)) = json_dumps fr asc srt (PDict d)"
  by (rule strip_fixed) (simp_all add: Let_def is_space_def)

lemma lstrip_object: "lstrip (CHR '' '' # json_dumps fr asc srt (PDict d)) = json_dumps fr asc srt (PDict d)"
  by (simp add: lstrip_def Let_def is_space_def)

section \<open>Properties\<close>

text \<open>
  The concurrency budget is exact: after calls began and ended in any order and any
  number were refused, the counter is the number of running calls and never exceeds the
  limit, and the next call is refused exactly when that many are running.
\<close>

theorem budget_is_exact:
  assumes "0 < limit"
  shows "case fold budget_step events (budget_init category limit, []) of (b, active) \<Rightarrow>
    bg_inflight b = int (length active) \<and> int (length active) \<le> limit \<and>
    ((\<exists>e. budget_enter op b = Inl e) = (int (length active) = limit))"
proof -
  have "budget_ok limit (budget_init category limit, [])"
    using assms by (simp add: budget_ok_def budget_init_def)
  from budget_run_ok [OF this, of events] show ?thesis
    using assms by (auto simp: budget_ok_def budget_enter_def split: prod.splits)
qed

theorem budget_is_exact_witness:
  "case fold budget_step [Begin 1 ''a'', Begin 2 ''b'', Begin 3 ''c'', End 1] (budget_init ''request'' 2, [])
     of (b, active) \<Rightarrow> bg_inflight b = int (length active)"
  using budget_is_exact [where limit = 2 and category = "''request''" and op = "''x''" and
      events = "[Begin 1 ''a'', Begin 2 ''b'', Begin 3 ''c'', End 1]"]
  by (simp split: prod.splits)

text \<open>
  No call leaks its slot: whatever the upstream answers or fails with, sending a message
  leaves the client as it was, and when the budget is exhausted the call fails with the
  concurrency error and the upstream is not contacted.
\<close>

theorem send_message_releases_slot:
  assumes "0 \<le> bg_inflight (uc_request_budget c)"
  shows "snd (send_message sid msg parts d w model timeout tr c) = c \<and>
    (0 < bg_limit (uc_request_budget c) \<longrightarrow>
     bg_limit (uc_request_budget c) \<le> bg_inflight (uc_request_budget c) \<longrightarrow> parts = Some (p # ps) \<longrightarrow>
       fst (send_message sid msg parts d w model timeout tr c) =
         Inl (UpstreamConcurrencyLimitError (bg_category (uc_request_budget c))
               ''/session/{sessionID}/message'' (bg_limit (uc_request_budget c))))"
  using exchange_releases [OF assms]
  by (auto simp: send_message_def post_json_def then_check_def exchange_def budget_enter_def
      split: option.splits sum.splits)

definition sample_client :: upstream_client where
  "sample_client =
     \<lparr>uc_directory = Some ''/work'', uc_agent = None, uc_system = None, uc_variant = None,
      uc_request_budget = \<lparr>bg_category = ''request'', bg_limit = 1, bg_inflight = 1\<rparr>,
      uc_stream_budget = budget_init ''stream'' 1, uc_trace_headers = []\<rparr>"

theorem send_message_releases_slot_witness:
  "fst (send_message ''s'' None (Some [[(''type'', PStr ''text'')]]) None None None DefaultTimeout
      (\<lambda>_. Inl (TimeoutException ''ReadTimeout'')) sample_client) =
    Inl (UpstreamConcurrencyLimitError ''request'' ''/session/{sessionID}/message'' 1)"
  using send_message_releases_slot
    [of sample_client "''s''" None "Some [[(''type'', PStr ''text'')]]" None None None DefaultTimeout
      "\<lambda>_. Inl (TimeoutException ''ReadTimeout'')" "[(''type'', PStr ''text'')]" "[]"]
  by (simp add: sample_client_def)

lemma merge_fold_routing:
  "k \<in> {''directory'', ''workspace''} \<Longrightarrow>
   map_of (fold (\<lambda>(key, value) params.
             if value = PNone \<or> key \<in> {''directory'', ''workspace''} then params
             else dset key (py_str fr value) params) e p) k = map_of p k"
  by (induction e arbitrary: p) (auto split: if_splits)

lemma merge_fold_other:
  "wf_dict e \<Longrightarrow> map_of e k = Some v \<Longrightarrow> v \<noteq> PNone \<Longrightarrow> k \<notin> {''directory'', ''workspace''} \<Longrightarrow>
   map_of (fold (\<lambda>(key, value) params.
             if value = PNone \<or> key \<in> {''directory'', ''workspace''} then params
             else dset key (py_str fr value) params) e p) k = Some (py_str fr v)"
proof (induction e arbitrary: p)
  case (Cons a e)
  obtain ka va where a: "a = (ka, va)" by (cases a)
  have keep: "k \<notin> fst ` set e \<Longrightarrow> map_of (fold (\<lambda>(key, value) params.
             if value = PNone \<or> key \<in> {''directory'', ''workspace''} then params
             else dset key (py_str fr value) params) e p) k = map_of p k" for p
    by (induction e arbitrary: p) (auto split: if_splits)
  show ?case
  proof (cases "ka = k")
    case True
    with Cons.prems a have "k \<notin> fst ` set e" "va = v" by auto
    with keep Cons.prems a True show ?thesis by simp
  next
    case False
    with Cons a show ?thesis by (simp split: if_splits)
  qed
qed simp

text \<open>
  Query parameters of a client never override the routing: in the merged parameters the
  directory and the workspace are those the server chose, and every other parameter with a
  value is passed on.
\<close>

theorem routing_not_overridden:
  assumes "wf_dict e"
  shows "(\<forall>k \<in> {''directory'', ''workspace''}.
      map_of (merge_params fr (Some e) d w c) k = map_of (query_params d w c) k) \<and>
    (\<forall>k v. map_of e k = Some v \<longrightarrow> v \<noteq> PNone \<longrightarrow> k \<notin> {''directory'', ''workspace''} \<longrightarrow>
      map_of (merge_params fr (Some e) d w c) k = Some (py_str fr v))"
  using merge_fold_routing [of _ fr e] merge_fold_other [OF assms]
  by (simp add: merge_params_def)

theorem routing_not_overridden_witness:
  "map_of (merge_params (\<lambda>_. ''0.5'') (Some [(''directory'', PStr ''/etc''), (''limit'', PInt 5)]) None None
      sample_client) ''directory'' = Some ''/work''"
  using routing_not_overridden
    [of "[(''directory'', PStr ''/etc''), (''limit'', PInt 5)]" "\<lambda>_. ''0.5''" None None sample_client]
  by (simp add: sample_client_def query_params_def nonempty_def)

definition event_lines :: "(rat \<Rightarrow> string) \<Rightarrow> bool \<Rightarrow> mapping \<Rightarrow> (bool \<times> string) list" where
  "event_lines fr srt e =
     [(False, ''data: '' @ json_dumps fr False srt (PDict e)), (False, [])]"

lemma read_one_event:
  assumes "jsonable (PDict e)"
  shows "read_events [] (event_lines fr srt e @ rest) =
    the (as_mapping (json_canon srt (PDict e))) # read_events [] rest"
proof -
  have "decode_event [json_dumps fr False srt (PDict e)] = as_mapping (json_canon srt (PDict e))"
    using json_round_trip [OF assms, of fr False srt]
    unfolding decode_event_def join.simps Let_def strip_object
    by (simp add: Let_def)
  moreover have "lstrip (drop 5 (''data: '' @ json_dumps fr False srt (PDict e))) =
      json_dumps fr False srt (PDict e)"
    using lstrip_object [of fr False srt e] by simp
  ultimately show ?thesis
    by (simp add: event_lines_def startswith_def Let_def del: json_dumps.simps)
qed

text \<open>
  The event stream is read back exactly: a sequence of JSON objects written as
  server-sent events, one data line each, is read as the same sequence of objects.
\<close>

theorem event_stream_round_trip:
  assumes "\<forall>e \<in> set es. jsonable (PDict e)"
  shows "map PDict (read_events [] (concat (map (event_lines fr srt) es))) =
    map (\<lambda>e. json_canon srt (PDict e)) es"
  using assms
proof (induction es)
  case (Cons e es)
  then have "jsonable (PDict e)" by simp
  from read_one_event [OF this, of fr srt] Cons show ?case by (simp add: Let_def)
qed simp

theorem event_stream_round_trip_witness:
  "map PDict (read_events [] (concat (map (event_lines (\<lambda>_. ''0.5'') False)
      [[(''type'', PStr ''session.idle'')], [(''ok'', PBool True)]]))) =
    [PDict [(''type'', PStr ''session.idle'')], PDict [(''ok'', PBool True)]]"
  using event_stream_round_trip
    [of "[[(''type'', PStr ''session.idle'')], [(''ok'', PBool True)]]" "\<lambda>_. ''0.5''" False]
  by simp

end
