(* ===== verification/Upstream_Errors.thy ===== *)
theory Upstream_Errors
  imports Upstream_Client
begin

text \<open>
  How errors of the upstream become errors of the task: the profiles of
  \<open>upstream_taxonomy.py\<close> and the messages and terminal signals of
  \<open>execution/upstream_error_translator.py\<close>; the states of a task (\<open>task_states.py\<close>).
\<close>

section \<open>Task states\<close>

datatype task_state =
    TASK_STATE_UNSPECIFIED
  | TASK_STATE_SUBMITTED
  | TASK_STATE_WORKING
  | TASK_STATE_COMPLETED
  | TASK_STATE_FAILED
  | TASK_STATE_CANCELED
  | TASK_STATE_INPUT_REQUIRED
  | TASK_STATE_REJECTED
  | TASK_STATE_AUTH_REQUIRED

instantiation task_state :: enum
begin

definition enum_task_state :: "task_state list" where
  "enum_task_state =
     [TASK_STATE_UNSPECIFIED, TASK_STATE_SUBMITTED, TASK_STATE_WORKING, TASK_STATE_COMPLETED,
      TASK_STATE_FAILED, TASK_STATE_CANCELED, TASK_STATE_INPUT_REQUIRED, TASK_STATE_REJECTED,
      TASK_STATE_AUTH_REQUIRED]"

definition enum_all_task_state :: "(task_state \<Rightarrow> bool) \<Rightarrow> bool" where
  "enum_all_task_state P \<longleftrightarrow> list_all P enum_class.enum"

definition enum_ex_task_state :: "(task_state \<Rightarrow> bool) \<Rightarrow> bool" where
  "enum_ex_task_state P \<longleftrightarrow> list_ex P enum_class.enum"

instance
proof
  show univ: "UNIV = set (enum_class.enum :: task_state list)"
  proof (rule set_eqI)
    fix s :: task_state
    show "s \<in> UNIV \<longleftrightarrow> s \<in> set enum_class.enum" by (cases s) (simp_all add: enum_task_state_def)
  qed
  show "distinct (enum_class.enum :: task_state list)" by (simp add: enum_task_state_def)
  show "enum_class.enum_all P \<longleftrightarrow> Ball UNIV P" for P :: "task_state \<Rightarrow> bool"
    unfolding enum_all_task_state_def univ by (simp add: list_all_iff)
  show "enum_class.enum_ex P \<longleftrightarrow> Bex UNIV P" for P :: "task_state \<Rightarrow> bool"
    unfolding enum_ex_task_state_def univ by (simp add: list_ex_iff)
qed

end

definition TERMINAL_TASK_STATES :: "task_state set" where
  "TERMINAL_TASK_STATES =
     {TASK_STATE_COMPLETED, TASK_STATE_CANCELED, TASK_STATE_FAILED, TASK_STATE_REJECTED}"

section \<open>Error profiles\<close>

record error_profile =
  ep_error_type :: string
  ep_state :: task_state
  ep_default_message :: string

definition resolve_upstream_http_error_profile :: "int \<Rightarrow> error_profile" where
  "resolve_upstream_http_error_profile status =
     (if status = 400 then
        \<lparr>ep_error_type = ''UPSTREAM_BAD_REQUEST'', ep_state = TASK_STATE_FAILED,
         ep_default_message = ''OpenCode rejected the request due to invalid input''\<rparr>
      else if status = 401 then
        \<lparr>ep_error_type = ''UPSTREAM_UNAUTHORIZED'', ep_state = TASK_STATE_AUTH_REQUIRED,
         ep_default_message = ''OpenCode rejected the request due to authentication failure''\<rparr>
      else if status = 403 then
        \<lparr>ep_error_type = ''UPSTREAM_PERMISSION_DENIED'', ep_state = TASK_STATE_FAILED,
         ep_default_message = ''OpenCode rejected the request due to insufficient permissions''\<rparr>
      else if status = 404 then
        \<lparr>ep_error_type = ''UPSTREAM_RESOURCE_NOT_FOUND'', ep_state = TASK_STATE_FAILED,
         ep_default_message =
           ''OpenCode rejected the request because the target resource was not found''\<rparr>
      else if status = 429 then
        \<lparr>ep_error_type = ''UPSTREAM_QUOTA_EXCEEDED'', ep_state = TASK_STATE_FAILED,
         ep_default_message = ''OpenCode rejected the request due to quota limits''\<rparr>
      else if 400 \<le> status \<and> status < 500 then
        \<lparr>ep_error_type = ''UPSTREAM_CLIENT_ERROR'', ep_state = TASK_STATE_FAILED,
         ep_default_message = ''OpenCode rejected the request with client error '' @ str_int status\<rparr>
      else if 500 \<le> status then
        \<lparr>ep_error_type = ''UPSTREAM_SERVER_ERROR'', ep_state = TASK_STATE_FAILED,
         ep_default_message = ''OpenCode rejected the request with server error '' @ str_int status\<rparr>
      else
        \<lparr>ep_error_type = ''UPSTREAM_HTTP_ERROR'', ep_state = TASK_STATE_FAILED,
         ep_default_message = ''OpenCode rejected the request with HTTP status '' @ str_int status\<rparr>)"

text \<open>The first of the given keys whose value is a string that is not blank, stripped.\<close>

fun first_nonempty :: "mapping \<Rightarrow> string list \<Rightarrow> string option" where
  "first_nonempty m [] = None"
| "first_nonempty m (k # ks) =
     (case Option.bind (as_str (dget m k)) nonempty_strip of
        Some v \<Rightarrow> Some v
      | None \<Rightarrow> first_nonempty m ks)"

definition extract_upstream_error_detail :: "http_response \<Rightarrow> string option" where
  "extract_upstream_error_detail response =
     (case Option.bind (Option.bind (json_loads (hs_text response)) as_mapping)
             (\<lambda>d. first_nonempty d [''detail'', ''error'', ''message'']) of
        Some v \<Rightarrow> Some v
      | None \<Rightarrow>
          (let body = strip (hs_text response) in if body \<noteq> [] then Some (take 512 body) else None))"

section \<open>Signals and in-band errors\<close>

text \<open>
  The status of an in-band error is what passes \<open>isinstance(x, int)\<close>: an integer or a
  boolean, which counts as 0 or 1 but is printed as a boolean.
\<close>

fun status_value :: "pyval \<Rightarrow> pyval option" where
  "status_value (PInt i) = Some (PInt i)"
| "status_value (PBool b) = Some (PBool b)"
| "status_value _ = None"

fun status_int :: "pyval \<Rightarrow> int" where
  "status_int (PInt i) = i"
| "status_int (PBool b) = (if b then 1 else 0)"
| "status_int _ = 0"

fun status_text :: "pyval \<Rightarrow> string" where
  "status_text (PInt i) = str_int i"
| "status_text (PBool b) = (if b then ''True'' else ''False'')"
| "status_text _ = []"

record terminal_signal =
  ts_state :: task_state
  ts_error_type :: "string option"
  ts_message :: "string option"
  ts_upstream_status :: "pyval option"

record inband_error =
  ie_error_type :: string
  ie_state :: task_state
  ie_message :: string
  ie_upstream_status :: "pyval option"

definition format_upstream_error :: "http_response \<Rightarrow> string \<Rightarrow> string \<times> task_state \<times> string" where
  "format_upstream_error response request =
     (let status = hs_status response;
          profile = resolve_upstream_http_error_profile status
      in (ep_error_type profile, ep_state profile,
          case extract_upstream_error_detail response of
            Some detail \<Rightarrow> ep_default_message profile @ '' ('' @ request @ '', status='' @ str_int status @
                             '', detail='' @ detail @ '').''
          | None \<Rightarrow> ep_default_message profile @ '' ('' @ request @ '', status='' @ str_int status @ '').''))"

definition format_stream_terminal_error ::
    "string option \<Rightarrow> pyval option \<Rightarrow> string option \<Rightarrow> terminal_signal" where
  "format_stream_terminal_error detail status error_name =
     (case status of
        Some st \<Rightarrow>
          (let profile = resolve_upstream_http_error_profile (status_int st);
               message = (case nonempty detail of
                 Some d \<Rightarrow> ep_default_message profile @ '' (session.error, status='' @ status_text st @
                             '', detail='' @ d @ '').''
               | None \<Rightarrow> ep_default_message profile @ '' (session.error, status='' @ status_text st @ '').'')
           in \<lparr>ts_state = ep_state profile, ts_error_type = Some (ep_error_type profile),
               ts_message = Some message, ts_upstream_status = Some st\<rparr>)
      | None \<Rightarrow>
          if error_name = Some ''ProviderAuthError'' then
            \<lparr>ts_state = TASK_STATE_AUTH_REQUIRED, ts_error_type = Some ''UPSTREAM_UNAUTHORIZED'',
             ts_message = Some (case nonempty detail of
                 Some d \<Rightarrow> ''OpenCode rejected the request due to authentication failure '' @
                             ''(session.error, detail='' @ d @ '').''
               | None \<Rightarrow> ''OpenCode rejected the request due to authentication failure (session.error).''),
             ts_upstream_status = None\<rparr>
          else
            \<lparr>ts_state = TASK_STATE_FAILED, ts_error_type = Some ''UPSTREAM_EXECUTION_ERROR'',
             ts_message = Some (case nonempty detail of
                 Some d \<Rightarrow> ''OpenCode execution failed (session.error, detail='' @ d @ '').''
               | None \<Rightarrow>
                   (case nonempty error_name of
                      Some n \<Rightarrow> ''OpenCode execution failed (session.error, error='' @ n @ '').''
                    | None \<Rightarrow> ''OpenCode execution failed (session.error).'')),
             ts_upstream_status = None\<rparr>)"

definition format_inband_upstream_error ::
    "string \<Rightarrow> string option \<Rightarrow> pyval option \<Rightarrow> string option \<Rightarrow> inband_error" where
  "format_inband_upstream_error source detail status error_name =
     (case status of
        Some st \<Rightarrow>
          (let profile = resolve_upstream_http_error_profile (status_int st);
               message = (case nonempty detail of
                 Some d \<Rightarrow> ep_default_message profile @ '' ('' @ source @ '', status='' @ status_text st @
                             '', detail='' @ d @ '').''
               | None \<Rightarrow> ep_default_message profile @ '' ('' @ source @ '', status='' @ status_text st @ '').'')
           in \<lparr>ie_error_type = ep_error_type profile, ie_state = ep_state profile,
               ie_message = message, ie_upstream_status = Some st\<rparr>)
      | None \<Rightarrow>
          if error_name = Some ''ProviderAuthError'' then
            \<lparr>ie_error_type = ''UPSTREAM_UNAUTHORIZED'', ie_state = TASK_STATE_AUTH_REQUIRED,
             ie_message = (case nonempty detail of
                 Some d \<Rightarrow> ''OpenCode rejected the request due to authentication failure '' @
                             ''('' @ source @ '', detail='' @ d @ '').''
               | None \<Rightarrow> ''OpenCode rejected the request due to authentication failure ('' @ source @ '').''),
             ie_upstream_status = None\<rparr>
          else
            \<lparr>ie_error_type = ''UPSTREAM_EXECUTION_ERROR'', ie_state = TASK_STATE_FAILED,
             ie_message = (case nonempty detail of
                 Some d \<Rightarrow> ''OpenCode execution failed ('' @ source @ '', detail='' @ d @ '').''
               | None \<Rightarrow>
                   (case nonempty error_name of
                      Some n \<Rightarrow> ''OpenCode execution failed ('' @ source @ '', error='' @ n @ '').''
                    | None \<Rightarrow> ''OpenCode execution failed ('' @ source @ '').'')),
             ie_upstream_status = None\<rparr>)"

text \<open>
  Waiting for the terminal signal: whether it is set already, whether the stream task exists,
  and, when neither decides, which of the two completes first; when the stream ends first the
  signal may have been set by then.
\<close>

datatype stream_completion = SignalSet terminal_signal | StreamEnded "terminal_signal option"

definition await_stream_terminal_signal ::
    "string \<Rightarrow> terminal_signal option \<Rightarrow> stream_completion option \<Rightarrow> upstream_error + terminal_signal"
  where
  "await_stream_terminal_signal session_id signal stream_task =
     (case signal of
        Some s \<Rightarrow> Inr s
      | None \<Rightarrow>
          (case stream_task of
             None \<Rightarrow> Inl (RuntimeError ''Streaming task was not initialized'')
           | Some (SignalSet s) \<Rightarrow> Inr s
           | Some (StreamEnded (Some s)) \<Rightarrow> Inr s
           | Some (StreamEnded None) \<Rightarrow>
               Inl (UpstreamContractError
                 (''OpenCode event stream ended before terminal signal '' @
                  ''(session_id='' @ session_id @ '', expected session.idle or session.error)''))))"

section \<open>Properties\<close>

text \<open>
  The error profile is total and never claims success: every HTTP status gives a failed
  task, or one that needs authorization, the latter exactly for 401; the error class of a
  status outside the table says whose fault it was.
\<close>

theorem error_profile_total:
  "(ep_state (resolve_upstream_http_error_profile status) = TASK_STATE_AUTH_REQUIRED \<longleftrightarrow> status = 401) \<and>
   (status \<noteq> 401 \<longrightarrow> ep_state (resolve_upstream_http_error_profile status) = TASK_STATE_FAILED) \<and>
   (ep_error_type (resolve_upstream_http_error_profile status) = ''UPSTREAM_SERVER_ERROR'' \<longleftrightarrow> 500 \<le> status) \<and>
   (ep_error_type (resolve_upstream_http_error_profile status) = ''UPSTREAM_HTTP_ERROR'' \<longleftrightarrow> status < 400)"
  by (auto simp: resolve_upstream_http_error_profile_def)

theorem error_profile_total_witness:
  "ep_state (resolve_upstream_http_error_profile 503) = TASK_STATE_FAILED"
  using error_profile_total [of 503] by simp

text \<open>
  A session.error event ends the stream with the same verdict that is recorded in-band for
  it: the two translations agree on the error type, the task state, the text and the status,
  and the state is one a client can act on.
\<close>

theorem terminal_and_inband_agree:
  "let s = format_stream_terminal_error detail status name;
       e = format_inband_upstream_error ''session.error'' detail status name
   in ts_error_type s = Some (ie_error_type e) \<and> ts_state s = ie_state e \<and>
      ts_message s = Some (ie_message e) \<and> ts_upstream_status s = ie_upstream_status e \<and>
      ie_state e \<in> {TASK_STATE_FAILED, TASK_STATE_AUTH_REQUIRED}"
  by (auto simp: format_stream_terminal_error_def format_inband_upstream_error_def Let_def
      resolve_upstream_http_error_profile_def split: option.splits)

end
