(* ===== verification/Stream_Events.thy ===== *)
theory Stream_Events
  imports Upstream_Errors
begin

text \<open>
  Reading the events of the upstream's stream (\<open>execution/stream_events.py\<close>): sessions,
  messages and parts an event is about, token usage, terminal signals, interrupts, progress,
  the payload of tool parts, and what debug logs show of an event. An event is a mapping.
\<close>

section \<open>Strings of a mapping\<close>

definition mapping_or_empty :: "pyval \<Rightarrow> mapping" where
  "mapping_or_empty v = (case v of PDict m \<Rightarrow> m | _ \<Rightarrow> [])"

definition extract_first_nonempty_string :: "mapping option \<Rightarrow> string list \<Rightarrow> string option" where
  "extract_first_nonempty_string source keys =
     (case source of None \<Rightarrow> None | Some m \<Rightarrow> first_nonempty m keys)"

definition extract_optional_string :: "mapping \<Rightarrow> string \<Rightarrow> string option" where
  "extract_optional_string source key = Option.bind (as_str (dget source key)) nonempty_strip"

fun extract_string_list :: "pyval \<Rightarrow> string list" where
  "extract_string_list (PList vs) =
     List.map_filter (\<lambda>v. Option.bind (as_str v) nonempty_strip) vs"
| "extract_string_list _ = []"

definition first_of :: "string option \<Rightarrow> string option \<Rightarrow> string option" where
  "first_of a b = (case a of None \<Rightarrow> b | Some x \<Rightarrow> Some x)"

section \<open>What an event is about\<close>

definition extract_stream_session_id :: "mapping \<Rightarrow> mapping \<Rightarrow> string option" where
  "extract_stream_session_id part props =
     first_of (first_nonempty part [''sessionID'']) (first_nonempty props [''sessionID''])"

definition extract_event_session_id :: "mapping \<Rightarrow> string option" where
  "extract_event_session_id event =
     (case dget event ''properties'' of
        PDict props \<Rightarrow>
          first_of (first_nonempty props [''sessionID''])
            (first_of
              (Option.bind (as_mapping (dget props ''info'')) (\<lambda>i. first_nonempty i [''sessionID'']))
              (Option.bind (as_mapping (dget props ''part'')) (\<lambda>p. first_nonempty p [''sessionID''])))
      | _ \<Rightarrow> None)"

definition extract_stream_message_id :: "mapping \<Rightarrow> mapping \<Rightarrow> string option" where
  "extract_stream_message_id part props =
     first_of (first_nonempty part [''messageID'']) (first_nonempty props [''messageID''])"

definition extract_stream_part_id :: "mapping \<Rightarrow> mapping \<Rightarrow> string option" where
  "extract_stream_part_id part props =
     first_of (first_nonempty part [''id'']) (first_nonempty props [''partID''])"

definition extract_stream_part_type :: "mapping \<Rightarrow> string option" where
  "extract_stream_part_type part =
     (case as_str (dget part ''type'') of
        None \<Rightarrow> None
      | Some v \<Rightarrow> (let normalized = lower (strip v) in if normalized = [] then None else Some normalized))"

definition extract_stream_snapshot_text :: "mapping \<Rightarrow> string option" where
  "extract_stream_snapshot_text part =
     (if extract_stream_part_type part \<in> {Some ''text'', Some ''reasoning''}
      then first_nonempty part [''text''] else None)"

definition normalize_role :: "pyval \<Rightarrow> string option" where
  "normalize_role role =
     (case as_str role of
        None \<Rightarrow> None
      | Some r \<Rightarrow>
          (let value = lower (strip r)
           in if value = ''assistant'' then Some ''agent''
              else if value = ''user'' then Some ''user''
              else if value = ''system'' then Some ''system''
              else None))"

datatype block_type = TEXT | REASONING | TOOL_CALL

fun block_value :: "block_type \<Rightarrow> string" where
  "block_value TEXT = ''text''"
| "block_value REASONING = ''reasoning''"
| "block_value TOOL_CALL = ''tool_call''"

definition map_part_type_to_block_type :: "string option \<Rightarrow> block_type option" where
  "map_part_type_to_block_type part_type =
     (if part_type = Some ''text'' then Some TEXT
      else if part_type = Some ''reasoning'' then Some REASONING
      else if part_type = Some ''tool'' then Some TOOL_CALL
      else None)"

section \<open>Numbers and token usage\<close>

text \<open>
  \<open>float(s)\<close> of a finite decimal numeral, as the exact rational: sign, digits with an
  optional point, optional exponent. The names of infinities and NaN give \<open>None\<close> here.
\<close>

definition digits_or_empty :: "string \<Rightarrow> bool" where
  "digits_or_empty s \<longleftrightarrow> s = [] \<or> numeral_ok s"

definition split_sign :: "string \<Rightarrow> int \<times> string" where
  "split_sign s =
     (case s of
        c # t \<Rightarrow> if c = CHR ''-'' then (-1, t) else if c = CHR ''+'' then (1, t) else (1, s)
      | [] \<Rightarrow> (1, s))"

definition py_float :: "string \<Rightarrow> rat option" where
  "py_float s =
     (let (sgn, u) = split_sign s;
          mant = takeWhile (\<lambda>c. c \<notin> {CHR ''e'', CHR ''E''}) u;
          expo = drop (length mant) u;
          whole = before CHR ''.'' mant;
          frac = drop (Suc (length whole)) mant;
          mant_ok = digits_or_empty whole \<and> digits_or_empty frac \<and> (whole \<noteq> [] \<or> frac \<noteq> []);
          (esgn, edigits) = split_sign (drop 1 expo);
          expo_ok = (expo = [] \<or> numeral_ok edigits);
          e = (if expo = [] then 0 else esgn * int (digits_val edigits))
              - int (length (filter is_digit frac));
          m = of_int (sgn * int (digits_val (whole @ frac))) :: rat
      in if mant_ok \<and> expo_ok
         then Some (if 0 \<le> e then m * 10 ^ nat e else m / 10 ^ nat (- e)) else None)"

text \<open>An integral float becomes an integer.\<close>

definition float_or_int :: "rat \<Rightarrow> pyval" where
  "float_or_int q = (if of_int \<lfloor>q\<rfloor> = q then PInt \<lfloor>q\<rfloor> else PFloat q)"

fun coerce_number :: "pyval \<Rightarrow> pyval option" where
  "coerce_number (PInt i) = Some (PInt i)"
| "coerce_number (PFloat q) = Some (float_or_int q)"
| "coerce_number (PStr s) =
     (let normalized = strip s
      in if normalized = [] then None
         else if contains normalized ''.'' \<or> contains (lower normalized) ''e''
           then map_option float_or_int (py_float normalized)
         else map_option PInt (py_int normalized))"
| "coerce_number _ = None"

text \<open>\<open>+\<close> on coerced numbers.\<close>

fun num_add :: "pyval \<Rightarrow> pyval \<Rightarrow> pyval" where
  "num_add (PInt i) (PInt j) = PInt (i + j)"
| "num_add (PInt i) (PFloat q) = PFloat (of_int i + q)"
| "num_add (PFloat p) (PInt j) = PFloat (p + of_int j)"
| "num_add (PFloat p) (PFloat q) = PFloat (p + q)"
| "num_add _ _ = PNone"

definition extract_usage_from_info_like :: "mapping \<Rightarrow> mapping option" where
  "extract_usage_from_info_like info =
     (case dget info ''tokens'' of
        PDict tokens \<Rightarrow>
          (let input_tokens = coerce_number (dget tokens ''input'');
               output_tokens = coerce_number (dget tokens ''output'');
               total_tokens = (case coerce_number (dget tokens ''total'') of
                   Some t \<Rightarrow> Some t
                 | None \<Rightarrow> (case (input_tokens, output_tokens) of
                              (Some i, Some q) \<Rightarrow> Some (num_add i q) | _ \<Rightarrow> None));
               cache_usage = (case dget tokens ''cache'' of
                   PDict cache \<Rightarrow>
                     dset_opt ''write_tokens'' (coerce_number (dget cache ''write''))
                       (dset_opt ''read_tokens'' (coerce_number (dget cache ''read'')) [])
                 | _ \<Rightarrow> []);
               usage = dset_opt ''cost'' (coerce_number (dget info ''cost''))
                 (dset_opt ''cache_tokens'' (map_option PDict (dict_or_none cache_usage))
                   (dset_opt ''reasoning_tokens'' (coerce_number (dget tokens ''reasoning''))
                     (dset_opt ''total_tokens'' total_tokens
                       (dset_opt ''output_tokens'' output_tokens
                         (dset_opt ''input_tokens'' input_tokens [])))))
           in dict_or_none usage)
      | _ \<Rightarrow> None)"

fun first_usage :: "mapping list \<Rightarrow> mapping option" where
  "first_usage [] = None"
| "first_usage (c # cs) =
     (case extract_usage_from_info_like c of Some u \<Rightarrow> Some u | None \<Rightarrow> first_usage cs)"

definition usage_candidates :: "mapping \<Rightarrow> mapping list" where
  "usage_candidates payload =
     (case dget payload ''info'' of PDict info \<Rightarrow> [info] | _ \<Rightarrow> []) @
     (case dget payload ''properties'' of
        PDict props \<Rightarrow>
          (case dget props ''info'' of PDict info \<Rightarrow> [info] | _ \<Rightarrow> []) @
          (case dget props ''part'' of
             PDict part \<Rightarrow> if extract_stream_part_type part = Some ''step-finish'' then [part] else []
           | _ \<Rightarrow> [])
      | _ \<Rightarrow> [])"

fun extract_token_usage :: "pyval \<Rightarrow> mapping option" where
  "extract_token_usage (PDict payload) = first_usage (usage_candidates payload)"
| "extract_token_usage _ = None"

section \<open>Errors and terminal signals\<close>

text \<open>The name, the detail and the status of an upstream \<open>error\<close> mapping.\<close>

definition error_fields :: "mapping \<Rightarrow> string option \<times> pyval option \<times> string option" where
  "error_fields error =
     (let data = mapping_or_empty (dget error ''data'');
          detail = first_of (first_nonempty data [''message'']) (first_nonempty error [''message''])
      in (detail, status_value (dget data ''statusCode''), first_nonempty error [''name'']))"

definition plain_session_error :: terminal_signal where
  "plain_session_error =
     \<lparr>ts_state = TASK_STATE_FAILED, ts_error_type = Some ''UPSTREAM_EXECUTION_ERROR'',
      ts_message = Some ''OpenCode execution failed (session.error).'', ts_upstream_status = None\<rparr>"

definition extract_stream_terminal_signal :: "mapping \<Rightarrow> terminal_signal option" where
  "extract_stream_terminal_signal event =
     (let event_type = dget event ''type''
      in if event_type = PStr ''session.idle'' then
           Some \<lparr>ts_state = TASK_STATE_COMPLETED, ts_error_type = None, ts_message = None,
                 ts_upstream_status = None\<rparr>
         else if event_type \<noteq> PStr ''session.error'' then None
         else (case dget event ''properties'' of
                 PDict props \<Rightarrow>
                   (case dget props ''error'' of
                      PDict error \<Rightarrow>
                        (let (detail, status, name) = error_fields error
                         in Some (format_stream_terminal_error detail status name))
                    | _ \<Rightarrow> Some plain_session_error)
               | _ \<Rightarrow> Some plain_session_error))"

definition extract_upstream_error_from_payload :: "mapping \<Rightarrow> string \<Rightarrow> inband_error option" where
  "extract_upstream_error_from_payload payload source =
     (case dget payload ''error'' of
        PDict error \<Rightarrow>
          (let (detail, status, name) = error_fields error
           in Some (format_inband_upstream_error source detail status name))
      | _ \<Rightarrow> None)"

definition extract_upstream_error_from_response :: "pyval \<Rightarrow> inband_error option" where
  "extract_upstream_error_from_response response_raw =
     (case response_raw of
        PDict m \<Rightarrow>
          (case dget m ''info'' of
             PDict info \<Rightarrow> extract_upstream_error_from_payload info ''response.info.error''
           | _ \<Rightarrow> None)
      | _ \<Rightarrow> None)"

definition extract_upstream_error_from_event :: "mapping \<Rightarrow> inband_error option" where
  "extract_upstream_error_from_event event =
     (case (dget event ''type'', dget event ''properties'') of
        (PStr event_type, PDict props) \<Rightarrow>
          if event_type = ''session.error''
            then extract_upstream_error_from_payload props ''session.error''
          else if event_type = ''message.updated''
            then (case dget props ''info'' of
                    PDict info \<Rightarrow> extract_upstream_error_from_payload info ''message.updated''
                  | _ \<Rightarrow> None)
          else None
      | _ \<Rightarrow> None)"

section \<open>Progress\<close>

definition extract_progress_metadata :: "mapping \<Rightarrow> mapping option" where
  "extract_progress_metadata part =
     (case extract_stream_part_type part of
        None \<Rightarrow> None
      | Some t \<Rightarrow>
          if t \<notin> {''step-start'', ''step-finish'', ''snapshot''} then None
          else Some (dset_opt ''status''
                 (Option.bind (as_mapping (dget part ''state''))
                    (\<lambda>s. map_option PStr (first_nonempty s [''status''])))
                 [(''type'', PStr t)]))"

definition build_progress_identity :: "mapping \<Rightarrow> mapping \<Rightarrow> string" where
  "build_progress_identity part props =
     (let part_type = (case extract_stream_part_type part of None \<Rightarrow> ''unknown'' | Some t \<Rightarrow> t)
      in case extract_stream_part_id part props of
           Some i \<Rightarrow> part_type @ '':'' @ i
         | None \<Rightarrow>
             (case extract_stream_message_id part props of
                Some i \<Rightarrow> part_type @ '':'' @ i
              | None \<Rightarrow> part_type))"

section \<open>Interrupts\<close>

fun normalized_fields :: "mapping \<Rightarrow> string list \<Rightarrow> mapping" where
  "normalized_fields item keys =
     fold (\<lambda>key m. dset_opt key (map_option PStr (extract_optional_string item key)) m) keys []"

fun normalize_interrupt_question_options :: "pyval \<Rightarrow> pyval list" where
  "normalize_interrupt_question_options (PList vs) =
     List.map_filter (\<lambda>v. case v of
         PDict item \<Rightarrow>
           map_option PDict (dict_or_none (normalized_fields item [''label'', ''value'', ''description'']))
       | _ \<Rightarrow> None) vs"
| "normalize_interrupt_question_options _ = []"

fun normalize_interrupt_questions :: "pyval \<Rightarrow> pyval list" where
  "normalize_interrupt_questions (PList vs) =
     List.map_filter (\<lambda>v. case v of
         PDict item \<Rightarrow>
           (let options = normalize_interrupt_question_options (dget item ''options'')
            in map_option PDict (dict_or_none
                 (dset_opt ''options'' (if options = [] then None else Some (PList options))
                   (normalized_fields item [''header'', ''question'']))))
       | _ \<Rightarrow> None) vs"
| "normalize_interrupt_questions _ = []"

record interrupt_asked =
  as_request_id :: string
  as_interrupt_type :: string
  as_details :: mapping

definition opt_value :: "string option \<Rightarrow> pyval" where
  "opt_value x = (case x of None \<Rightarrow> PNone | Some s \<Rightarrow> PStr s)"

definition extract_interrupt_asked_event :: "mapping \<Rightarrow> interrupt_asked option" where
  "extract_interrupt_asked_event event =
     (let event_type = dget event ''type''
      in if event_type \<notin> {PStr ''permission.asked'', PStr ''question.asked''} then None
         else case dget event ''properties'' of
             PDict props \<Rightarrow>
               (case first_nonempty props [''id''] of
                  None \<Rightarrow> None
                | Some request_id \<Rightarrow>
                    if event_type = PStr ''permission.asked'' then
                      Some \<lparr>as_request_id = request_id, as_interrupt_type = ''permission'',
                            as_details =
                              [(''permission'', opt_value (extract_optional_string props ''permission'')),
                               (''patterns'',
                                 PList (map PStr (extract_string_list (dget props ''patterns''))))]\<rparr>
                    else
                      Some \<lparr>as_request_id = request_id, as_interrupt_type = ''question'',
                            as_details =
                              [(''questions'',
                                 PList (normalize_interrupt_questions (dget props ''questions'')))]\<rparr>)
           | _ \<Rightarrow> None)"

record interrupt_resolved =
  rv_request_id :: string
  rv_event_type :: string
  rv_interrupt_type :: string
  rv_resolution :: string

definition extract_interrupt_resolved_event :: "mapping \<Rightarrow> interrupt_resolved option" where
  "extract_interrupt_resolved_event event =
     (case (dget event ''type'', dget event ''properties'') of
        (PStr event_type, PDict props) \<Rightarrow>
          if event_type \<notin> {''permission.replied'', ''question.replied'', ''question.rejected''} then None
          else (case first_nonempty props [''requestID''] of
                  None \<Rightarrow> None
                | Some request_id \<Rightarrow>
                    Some \<lparr>rv_request_id = request_id, rv_event_type = event_type,
                          rv_interrupt_type =
                            (if startswith event_type ''permission.'' then ''permission'' else ''question''),
                          rv_resolution =
                            (if event_type = ''question.rejected'' then ''rejected'' else ''replied'')\<rparr>)
      | _ \<Rightarrow> None)"

section \<open>Tool parts\<close>

definition extract_tool_part_payload :: "mapping \<Rightarrow> mapping option" where
  "extract_tool_part_payload part =
     (let base = dset_opt ''tool'' (map_option PStr (extract_optional_string part ''tool''))
                   (dset_opt ''call_id'' (map_option PStr (extract_optional_string part ''callID'')) []);
          payload = (case dget part ''state'' of
              PDict state \<Rightarrow>
                fold (\<lambda>key m. if dget state key = PNone then m else dset key (dget state key) m)
                  [''title'', ''subtitle'', ''input'', ''output'', ''error'']
                  (dset_opt ''status'' (map_option PStr (extract_optional_string state ''status'')) base)
            | _ \<Rightarrow> base)
      in dict_or_none payload)"

section \<open>Logging\<close>

definition preview_log_value :: "(rat \<Rightarrow> string) \<Rightarrow> pyval \<Rightarrow> int \<Rightarrow> string" where
  "preview_log_value fr value limit =
     (let rendered = json_dumps fr False True value
      in if 0 < limit \<and> limit < int (length rendered)
         then take (nat limit) rendered @ ''...[truncated]'' else rendered)"

definition SENSITIVE_LOG_FIELD_MARKERS :: "string list" where
  "SENSITIVE_LOG_FIELD_MARKERS =
     [''api_key'', ''apikey'', ''authorization'', ''bearer'', ''cookie'', ''credential'',
      ''credentials'', ''password'', ''secret'', ''set-cookie'', ''token'']"

definition normalized_log_key :: "string \<Rightarrow> string" where
  "normalized_log_key key = map (\<lambda>c. if c = CHR ''_'' then CHR ''-'' else c) (lower (strip key))"

definition sensitive_log_key :: "string \<Rightarrow> bool" where
  "sensitive_log_key key \<longleftrightarrow>
     list_ex (\<lambda>marker. contains (normalized_log_key key) marker) SENSITIVE_LOG_FIELD_MARKERS"

fun sanitize_log_value :: "pyval \<Rightarrow> pyval" where
  "sanitize_log_value (PDict d) =
     PDict (map (\<lambda>(key, item). (key, if sensitive_log_key key then PStr ''[redacted]''
                                    else sanitize_log_value item)) d)"
| "sanitize_log_value (PList vs) = PList (map sanitize_log_value vs)"
| "sanitize_log_value v = v"

section \<open>Lemmas\<close>

lemma nonempty_strip_fixed: "nonempty_strip s = Some t \<Longrightarrow> t \<noteq> [] \<and> strip t = t"
  by (auto simp: nonempty_strip_def Let_def split: if_splits)

lemma bind_strip_fixed: "Option.bind x nonempty_strip = Some t \<Longrightarrow> t \<noteq> [] \<and> strip t = t"
  by (cases x) (simp_all add: nonempty_strip_fixed)

lemma first_nonempty_fixed: "first_nonempty m ks = Some t \<Longrightarrow> t \<noteq> [] \<and> strip t = t"
  by (induction ks) (auto split: option.splits dest: bind_strip_fixed)

declare first_nonempty.simps [simp del]

lemma asked_fields:
  assumes "extract_interrupt_asked_event event = Some a"
  shows "as_request_id a \<noteq> []" and "strip (as_request_id a) = as_request_id a"
    and "as_interrupt_type a \<in> {''permission'', ''question''}"
  using assms
  by (auto simp: extract_interrupt_asked_event_def Let_def dest!: first_nonempty_fixed
      split: if_splits pyval.splits option.splits)

lemma resolved_fields:
  assumes "extract_interrupt_resolved_event event = Some r"
  shows "rv_request_id r \<noteq> []" and "strip (rv_request_id r) = rv_request_id r"
    and "rv_interrupt_type r \<in> {''permission'', ''question''}"
    and "rv_resolution r \<in> {''replied'', ''rejected''}"
proof -
  obtain t props where tp: "dget event ''type'' = PStr t" "dget event ''properties'' = PDict props"
    using assms by (simp add: extract_interrupt_resolved_event_def split: pyval.splits)
  obtain i where "first_nonempty props [''requestID''] = Some i" and i: "rv_request_id r = i"
    and k: "rv_interrupt_type r \<in> {''permission'', ''question''}"
      "rv_resolution r \<in> {''replied'', ''rejected''}"
    using assms by (auto simp: extract_interrupt_resolved_event_def tp split: if_splits option.splits)
  then show "rv_request_id r \<noteq> []" "strip (rv_request_id r) = rv_request_id r"
    "rv_interrupt_type r \<in> {''permission'', ''question''}"
    "rv_resolution r \<in> {''replied'', ''rejected''}"
    using first_nonempty_fixed by auto
qed

subsection \<open>Numbers\<close>

fun is_number :: "pyval \<Rightarrow> bool" where
  "is_number (PInt _) = True"
| "is_number (PFloat _) = True"
| "is_number _ = False"

lemma coerce_number_is_number: "coerce_number v = Some n \<Longrightarrow> is_number n"
  by (cases v) (auto simp: float_or_int_def Let_def split: if_splits)

lemma num_add_is_number: "is_number a \<Longrightarrow> is_number b \<Longrightarrow> is_number (num_add a b)"
  by (cases a; cases b) auto

text \<open>Values of a usage mapping: numbers, or the mapping of cache counters.\<close>

definition usage_entry_ok :: "string \<Rightarrow> pyval \<Rightarrow> bool" where
  "usage_entry_ok k v \<longleftrightarrow> is_number v \<or>
     k = ''cache_tokens'' \<and> (\<exists>c. v = PDict c \<and> c \<noteq> [] \<and> (\<forall>p \<in> set c. is_number (snd p)))"

definition usage_ok :: "mapping \<Rightarrow> bool" where
  "usage_ok u \<longleftrightarrow> (\<forall>p \<in> set u. usage_entry_ok (fst p) (snd p))"

lemma set_dset_opt: "set (dset_opt k v d) \<subseteq> set d \<union> {(k, x) | x. v = Some x}"
  using set_dset by (fastforce simp: dset_opt_def split: option.splits)

lemma usage_ok_dset_opt:
  "usage_ok u \<Longrightarrow> (\<And>x. v = Some x \<Longrightarrow> usage_entry_ok k x) \<Longrightarrow> usage_ok (dset_opt k v u)"
  using set_dset_opt [of k v u] by (fastforce simp: usage_ok_def)

lemma usage_ok_Nil: "usage_ok []"
  by (simp add: usage_ok_def)

lemma number_entry: "is_number v \<Longrightarrow> usage_entry_ok k v"
  by (simp add: usage_entry_ok_def)

lemma extract_usage_ok:
  assumes "extract_usage_from_info_like info = Some u"
  shows "usage_ok u" and "u \<noteq> []"
proof -
  obtain tokens where t: "dget info ''tokens'' = PDict tokens"
    using assms by (auto simp: extract_usage_from_info_like_def split: pyval.splits)
  note num = number_entry [OF coerce_number_is_number] coerce_number_is_number num_add_is_number
  have cache: "usage_entry_ok ''cache_tokens'' x"
    if "map_option PDict (dict_or_none (case dget tokens ''cache'' of
          PDict cache \<Rightarrow> dset_opt ''write_tokens'' (coerce_number (dget cache ''write''))
             (dset_opt ''read_tokens'' (coerce_number (dget cache ''read'')) [])
        | _ \<Rightarrow> [])) = Some x" for x
    using that num(2)
    by (auto simp: dict_or_none_def usage_entry_ok_def dset_opt_def
        split: pyval.splits option.splits if_splits dest!: set_dset [THEN subsetD])
  have total: "usage_entry_ok ''total_tokens'' x"
    if "(case coerce_number (dget tokens ''total'') of
           Some t \<Rightarrow> Some t
         | None \<Rightarrow> (case (coerce_number (dget tokens ''input''), coerce_number (dget tokens ''output'')) of
              (Some i, Some q) \<Rightarrow> Some (num_add i q) | _ \<Rightarrow> None)) = Some x" for x
    using that num by (auto split: option.splits intro: number_entry)
  show "u \<noteq> []" using assms by (auto simp: extract_usage_from_info_like_def t Let_def dict_or_none_def
        split: if_splits)
  have "u = dset_opt ''cost'' (coerce_number (dget info ''cost''))
      (dset_opt ''cache_tokens'' (map_option PDict (dict_or_none (case dget tokens ''cache'' of
          PDict cache \<Rightarrow> dset_opt ''write_tokens'' (coerce_number (dget cache ''write''))
             (dset_opt ''read_tokens'' (coerce_number (dget cache ''read'')) [])
        | _ \<Rightarrow> [])))
        (dset_opt ''reasoning_tokens'' (coerce_number (dget tokens ''reasoning''))
          (dset_opt ''total_tokens'' (case coerce_number (dget tokens ''total'') of
               Some t \<Rightarrow> Some t
             | None \<Rightarrow> (case (coerce_number (dget tokens ''input''), coerce_number (dget tokens ''output'')) of
                  (Some i, Some q) \<Rightarrow> Some (num_add i q) | _ \<Rightarrow> None))
            (dset_opt ''output_tokens'' (coerce_number (dget tokens ''output''))
              (dset_opt ''input_tokens'' (coerce_number (dget tokens ''input'')) [])))))"
    (is "u = ?u")
    using assms unfolding extract_usage_from_info_like_def t pyval.case Let_def dict_or_none_def
    by (simp split: if_splits)
  moreover have "usage_ok ?u"
    by (rule usage_ok_dset_opt usage_ok_Nil total cache | erule num(1) | assumption)+
  ultimately show "usage_ok u" by simp
qed

lemma first_usage_ok: "first_usage cs = Some u \<Longrightarrow> usage_ok u \<and> u \<noteq> []"
  by (induction cs) (auto split: option.splits dest: extract_usage_ok)

section \<open>Properties\<close>

text \<open>
  Token usage read from any event is well formed: every reported counter is a number
  (never a boolean, a string or null), the cache counters form a non-empty mapping of
  numbers, and a mapping without any counter is not reported at all.
\<close>

theorem token_usage_well_formed:
  assumes "extract_token_usage payload = Some u"
  shows "usage_ok u \<and> u \<noteq> []"
  using assms by (cases payload) (auto dest: first_usage_ok)

theorem token_usage_well_formed_witness:
  "usage_ok (the (extract_token_usage (PDict [(''info'', PDict [(''tokens'',
      PDict [(''input'', PInt 3), (''output'', PInt 4), (''cache'', PDict [(''read'', PInt 1)])])])])))"
proof -
  have "extract_token_usage (PDict [(''info'', PDict [(''tokens'',
      PDict [(''input'', PInt 3), (''output'', PInt 4), (''cache'', PDict [(''read'', PInt 1)])])])]) \<noteq> None"
    by code_simp
  then show ?thesis using token_usage_well_formed by fastforce
qed

text \<open>
  When the upstream reports input and output tokens but no total, the total is their sum.
\<close>

theorem total_is_sum_of_parts:
  assumes "extract_usage_from_info_like info = Some u" and "dget info ''tokens'' = PDict tokens"
    and "coerce_number (dget tokens ''total'') = None"
    and "coerce_number (dget tokens ''input'') = Some (PInt i)"
    and "coerce_number (dget tokens ''output'') = Some (PInt k)"
  shows "map_of u ''total_tokens'' = Some (PInt (i + k))"
  using assms by (auto simp: extract_usage_from_info_like_def Let_def dict_or_none_def split: if_splits)

theorem total_is_sum_of_parts_witness:
  "map_of (the (extract_usage_from_info_like
      [(''tokens'', PDict [(''input'', PInt 3), (''output'', PInt 4)])])) ''total_tokens'' = Some (PInt 7)"
proof -
  have "extract_usage_from_info_like
      [(''tokens'', PDict [(''input'', PInt 3), (''output'', PInt 4)])] \<noteq> None" by code_simp
  then obtain u where "extract_usage_from_info_like
      [(''tokens'', PDict [(''input'', PInt 3), (''output'', PInt 4)])] = Some u" by blast
  from total_is_sum_of_parts [OF this, of "[(''input'', PInt 3), (''output'', PInt 4)]" 3 4] this
  show ?thesis by (simp add: dget_def)
qed

text \<open>A value in which every sensitive key, at any depth, shows only the redaction mark.\<close>

fun redacted :: "pyval \<Rightarrow> bool" where
  "redacted (PDict d) =
     (\<forall>p \<in> set d. (sensitive_log_key (fst p) \<longrightarrow> snd p = PStr ''[redacted]'') \<and> redacted (snd p))"
| "redacted (PList vs) = (\<forall>v \<in> set vs. redacted v)"
| "redacted v = True"

text \<open>
  What a debug log shows of an event hides every sensitive field at any depth of
  nesting, and hiding is idempotent.
\<close>

theorem logs_are_redacted:
  "redacted (sanitize_log_value v) \<and> sanitize_log_value (sanitize_log_value v) = sanitize_log_value v"
proof (induction v)
  case (PDict d)
  have "redacted (sanitize_log_value x) \<and> sanitize_log_value (sanitize_log_value x) = sanitize_log_value x"
    if "(k, x) \<in> set d" for k x
    using PDict [OF that, of x] by simp
  then show ?case by (auto simp: comp_def case_prod_unfold)
qed simp_all

text \<open>
  The marker api_key can never match, since underscores of a key are turned into
  hyphens before the comparison: a field api_key is logged in clear text.
\<close>

theorem api_key_is_logged:
  "sanitize_log_value (PDict [(''api_key'', PStr secret)]) = PDict [(''api_key'', PStr secret)] \<and>
   \<not> contains (normalized_log_key key) ''api_key''"
proof -
  have "\<not> sensitive_log_key ''api_key''" by code_simp
  moreover have "CHR ''_'' \<notin> set (normalized_log_key key)" by (auto simp: normalized_log_key_def)
  then have "\<not> contains (normalized_log_key key) ''api_key''" by (auto simp: contains_iff)
  ultimately show ?thesis by simp
qed

end
