(* ===== verification/Stream_State.thy ===== *)
theory Stream_State
  imports Stream_Events
begin

text \<open>
  The state of one streamed answer (\<open>execution/stream_state.py\<close>, apart from its cache): which
  text every artifact has so far, what was already reported, the token usage, the pending
  interrupts and the sequence counter; and the metadata attached to what is emitted.
\<close>

section \<open>Chunks\<close>

record stream_chunk =
  sc_artifact_id :: string
  sc_part :: part
  sc_content_key :: string
  sc_accumulate_content :: bool
  sc_append :: bool
  sc_block_type :: block_type
  sc_internal_source :: string
  sc_shared_source :: string
  sc_part_id :: "string option"
  sc_message_id :: "string option"
  sc_role :: "string option"

record pending_delta =
  pd_field :: string
  pd_delta :: string
  pd_message_id :: "string option"

record stream_part_state =
  sp_artifact_id :: string
  sp_block_type :: block_type
  sp_part_id :: "string option"
  sp_message_id :: "string option"
  sp_role :: "string option"
  sp_buffer :: string
  sp_saw_delta :: bool

section \<open>Token usage\<close>

definition merge_usage_entry :: "string \<times> pyval \<Rightarrow> mapping \<Rightarrow> mapping" where
  "merge_usage_entry = (\<lambda>(key, value) merged.
     if value = PNone then merged
     else case value of
       PDict v \<Rightarrow>
         if key = ''raw'' then
           (case dget merged ''raw'' of
              PDict existing \<Rightarrow> dset ''raw'' (PDict (dmerge existing v)) merged
            | _ \<Rightarrow> dset ''raw'' (PDict v) merged)
         else dset key value merged
     | _ \<Rightarrow> dset key value merged)"

definition merge_token_usage :: "mapping option \<Rightarrow> mapping option \<Rightarrow> mapping option" where
  "merge_token_usage base incoming =
     (if base = None \<and> incoming = None then None
      else dict_or_none (fold merge_usage_entry (case incoming of None \<Rightarrow> [] | Some i \<Rightarrow> i)
                           (case base of None \<Rightarrow> [] | Some b \<Rightarrow> b)))"

section \<open>The output state\<close>

record stream_output =
  so_user_text :: string
  so_stable_message_id :: string
  so_event_id_namespace :: string
  so_artifact_content_buffers :: "(string \<times> string) list"
  so_progress_buffers :: "(string \<times> string) list"
  so_token_usage :: "mapping option"
  so_upstream_error :: "inband_error option"
  so_pending_interrupts :: "string list"
  so_emitted_artifact_ids :: "string list"
  so_text_artifact_id :: "string option"
  so_saw_any_chunk :: bool
  so_sequence :: int

text \<open>The two Python sets are lists without repetition.\<close>

definition stream_output_init :: "string \<Rightarrow> string \<Rightarrow> string \<Rightarrow> stream_output" where
  "stream_output_init user_text stable_message_id event_id_namespace =
     \<lparr>so_user_text = user_text, so_stable_message_id = stable_message_id,
      so_event_id_namespace = event_id_namespace, so_artifact_content_buffers = [],
      so_progress_buffers = [], so_token_usage = None, so_upstream_error = None,
      so_pending_interrupts = [], so_emitted_artifact_ids = [], so_text_artifact_id = None,
      so_saw_any_chunk = False, so_sequence = 0\<rparr>"

definition should_drop_initial_user_echo ::
    "string \<Rightarrow> block_type \<Rightarrow> string option \<Rightarrow> stream_output \<Rightarrow> bool" where
  "should_drop_initial_user_echo txt block role s =
     (if role \<noteq> None then False
      else if block \<noteq> TEXT then False
      else if so_saw_any_chunk s then False
      else (let user_text = strip (so_user_text s) in user_text \<noteq> [] \<and> strip txt = user_text))"

definition artifact_buffer :: "string \<Rightarrow> stream_output \<Rightarrow> string" where
  "artifact_buffer artifact_id s =
     (case map_of (so_artifact_content_buffers s) artifact_id of None \<Rightarrow> [] | Some b \<Rightarrow> b)"

definition register_chunk ::
    "string \<Rightarrow> string \<Rightarrow> bool \<Rightarrow> bool \<Rightarrow> stream_output \<Rightarrow> (bool \<times> bool) \<times> stream_output" where
  "register_chunk artifact_id content_key app accumulate s =
     (let previous = artifact_buffer artifact_id s;
          next_value = (if app \<and> accumulate then previous @ content_key else content_key)
      in if next_value = previous then ((False, False), s)
         else ((True, artifact_id \<in> set (so_emitted_artifact_ids s)),
               s\<lparr>so_artifact_content_buffers :=
                    dset artifact_id next_value (so_artifact_content_buffers s),
                  so_saw_any_chunk := True,
                  so_emitted_artifact_ids := List.insert artifact_id (so_emitted_artifact_ids s)\<rparr>))"

definition register_progress :: "string \<Rightarrow> string \<Rightarrow> stream_output \<Rightarrow> bool \<times> stream_output" where
  "register_progress ident content_key s =
     (if map_of (so_progress_buffers s) ident = Some content_key then (False, s)
      else (True, s\<lparr>so_progress_buffers := dset ident content_key (so_progress_buffers s)\<rparr>))"

definition remember_text_artifact_id :: "string option \<Rightarrow> stream_output \<Rightarrow> stream_output" where
  "remember_text_artifact_id artifact_id s =
     (case Option.bind artifact_id nonempty_strip of
        None \<Rightarrow> s
      | Some normalized \<Rightarrow> s\<lparr>so_text_artifact_id := Some normalized\<rparr>)"

definition resolve_text_artifact_id :: "string \<Rightarrow> stream_output \<Rightarrow> string" where
  "resolve_text_artifact_id default_artifact_id s =
     (case Option.bind (so_text_artifact_id s) nonempty_strip of
        None \<Rightarrow> default_artifact_id
      | Some a \<Rightarrow> a)"

definition should_emit_final_snapshot :: "string \<Rightarrow> string \<Rightarrow> stream_output \<Rightarrow> bool \<times> stream_output" where
  "should_emit_final_snapshot artifact_id txt s =
     (if strip txt = [] then (False, s)
      else if strip (artifact_buffer artifact_id s) = strip txt then (False, s)
      else (True, s\<lparr>so_artifact_content_buffers :=
                       dset artifact_id txt (so_artifact_content_buffers s),
                     so_saw_any_chunk := True\<rparr>))"

definition next_sequence :: "stream_output \<Rightarrow> int \<times> stream_output" where
  "next_sequence s = (so_sequence s + 1, s\<lparr>so_sequence := so_sequence s + 1\<rparr>)"

definition resolve_message_id :: "string option \<Rightarrow> stream_output \<Rightarrow> string" where
  "resolve_message_id message_id s =
     (case Option.bind message_id nonempty_strip of
        None \<Rightarrow> so_stable_message_id s
      | Some normalized \<Rightarrow> normalized)"

definition build_event_id :: "int \<Rightarrow> stream_output \<Rightarrow> string" where
  "build_event_id sequence s = so_event_id_namespace s @ '':'' @ str_int sequence"

definition ingest_token_usage :: "mapping option \<Rightarrow> stream_output \<Rightarrow> stream_output" where
  "ingest_token_usage usage s = s\<lparr>so_token_usage := merge_token_usage (so_token_usage s) usage\<rparr>"

definition mark_interrupt_pending :: "string \<Rightarrow> stream_output \<Rightarrow> bool \<times> stream_output" where
  "mark_interrupt_pending request_id s =
     (let normalized = strip request_id
      in if normalized = [] then (False, s)
         else if normalized \<in> set (so_pending_interrupts s) then (False, s)
         else (True, s\<lparr>so_pending_interrupts := normalized # so_pending_interrupts s\<rparr>))"

definition clear_interrupt_pending :: "string \<Rightarrow> stream_output \<Rightarrow> bool \<times> stream_output" where
  "clear_interrupt_pending request_id s =
     (let normalized = strip request_id
      in if normalized = [] then (False, s)
         else if normalized \<notin> set (so_pending_interrupts s) then (False, s)
         else (True, s\<lparr>so_pending_interrupts := removeAll normalized (so_pending_interrupts s)\<rparr>))"

section \<open>Metadata\<close>

definition build_stream_artifact_metadata ::
    "block_type \<Rightarrow> string option \<Rightarrow> string option \<Rightarrow> int option \<Rightarrow> bool \<Rightarrow> mapping option" where
  "build_stream_artifact_metadata block message_id event_id sequence include_shared =
     (if \<not> include_shared then None
      else Some [(''shared'', PDict [(''stream'', PDict
             (dset_opt ''sequence'' (map_option PInt sequence)
               (dset_opt ''event_id'' (map_option PStr (nonempty event_id))
                 (dset_opt ''message_id'' (map_option PStr (nonempty message_id))
                   [(''block_type'', PStr (block_value block))]))))])])"

record metadata_switches =
  ms_include_session :: bool
  ms_include_streaming :: bool
  ms_include_interrupt :: bool

definition build_output_metadata ::
    "string option \<Rightarrow> mapping option \<Rightarrow> mapping option \<Rightarrow> mapping option \<Rightarrow> mapping option
       \<Rightarrow> metadata_switches \<Rightarrow> mapping option" where
  "build_output_metadata session_id usage stream progress interrupt sw =
     (let shared =
        dset_opt ''interrupt'' (if ms_include_interrupt sw then map_option PDict interrupt else None)
          (dset_opt ''progress'' (if ms_include_streaming sw then map_option PDict progress else None)
            (dset_opt ''stream'' (if ms_include_streaming sw then map_option PDict stream else None)
              (dset_opt ''usage'' (if ms_include_streaming sw then map_option PDict usage else None)
                (dset_opt ''session''
                  (if ms_include_session sw
                   then map_option (\<lambda>sid. PDict [(''id'', PStr sid)]) (nonempty session_id) else None)
                  []))))
      in if shared = [] then None else Some [(''shared'', PDict shared)])"

section \<open>Lemmas\<close>

lemma register_chunk_simps [simp]:
  "so_sequence (snd (register_chunk a k app acc s)) = so_sequence s"
  "so_event_id_namespace (snd (register_chunk a k app acc s)) = so_event_id_namespace s"
  "so_pending_interrupts (snd (register_chunk a k app acc s)) = so_pending_interrupts s"
  by (simp_all add: register_chunk_def Let_def)

text \<open>What registering a chunk does to the buffers.\<close>

lemma register_chunk_buffer:
  "artifact_buffer b (snd (register_chunk a k app acc s)) =
     (if b = a then (if app \<and> acc then artifact_buffer a s @ k else k) else artifact_buffer b s)"
  by (auto simp: register_chunk_def Let_def artifact_buffer_def)

lemma register_chunk_emitted:
  "set (so_emitted_artifact_ids (snd (register_chunk a k app acc s))) =
     (if fst (fst (register_chunk a k app acc s)) then insert a (set (so_emitted_artifact_ids s))
      else set (so_emitted_artifact_ids s))"
  by (auto simp: register_chunk_def Let_def)

lemma register_chunk_skip:
  "\<not> fst (fst (register_chunk a k app acc s)) \<Longrightarrow> snd (register_chunk a k app acc s) = s"
  by (auto simp: register_chunk_def Let_def split: if_splits)

lemma register_chunk_flag:
  "fst (fst (register_chunk a k app acc s)) \<Longrightarrow>
     snd (fst (register_chunk a k app acc s)) = (a \<in> set (so_emitted_artifact_ids s))"
  by (auto simp: register_chunk_def Let_def split: if_splits)

section \<open>Properties\<close>

lemma merge_usage_entry_lookup:
  "k \<noteq> ''raw'' \<Longrightarrow> map_of (merge_usage_entry (ka, v) b) k =
     (if k = ka \<and> v \<noteq> PNone then Some v else map_of b k)"
  by (auto simp: merge_usage_entry_def split: pyval.splits)

lemma merge_usage_fold:
  assumes "wf_dict i" and "k \<noteq> ''raw''"
  shows "map_of (fold merge_usage_entry i b) k =
    (case map_of i k of None \<Rightarrow> map_of b k | Some v \<Rightarrow> if v = PNone then map_of b k else Some v)"
  using assms
proof (induction i arbitrary: b)
  case (Cons p i)
  obtain ka v where p: "p = (ka, v)" by (cases p)
  have fresh: "map_of i ka = None"
    using Cons.prems(1) by (auto simp: p map_of_eq_None_iff)
  have "map_of (fold merge_usage_entry (p # i) b) k =
      (case map_of i k of None \<Rightarrow> map_of (merge_usage_entry p b) k
        | Some v \<Rightarrow> if v = PNone then map_of (merge_usage_entry p b) k else Some v)"
    using Cons.IH [of "merge_usage_entry p b"] Cons.prems by simp
  then show ?case
    using fresh Cons.prems(2)
    by (cases "k = ka") (simp_all add: merge_usage_entry_lookup p split: option.splits)
qed simp

lemma dict_or_none_lookup: "map_of (case dict_or_none d of None \<Rightarrow> [] | Some m \<Rightarrow> m) k = map_of d k"
  by (simp add: dict_or_none_def)

definition usage_lookup :: "mapping option \<Rightarrow> string \<Rightarrow> pyval option" where
  "usage_lookup u k = (case u of None \<Rightarrow> None | Some m \<Rightarrow> map_of m k)"

text \<open>
  Usage reports accumulate without loss: merging keeps every counter that the newer
  report does not mention, takes the newer value of every counter it does, and a report
  without values changes nothing.
\<close>

theorem usage_merge_keeps_counters:
  assumes "wf_dict new" and "k \<noteq> ''raw''"
  shows "usage_lookup (merge_token_usage base (Some new)) k =
      (case map_of new k of
         Some v \<Rightarrow> if v = PNone then usage_lookup base k else Some v
       | None \<Rightarrow> usage_lookup base k)"
  using merge_usage_fold [OF assms, of "case base of None \<Rightarrow> [] | Some b \<Rightarrow> b"]
    dict_or_none_lookup
      [of "fold merge_usage_entry new (case base of None \<Rightarrow> [] | Some b \<Rightarrow> b)" k]
  by (auto simp: merge_token_usage_def usage_lookup_def dict_or_none_def split: option.splits)

theorem usage_merge_keeps_counters_witness:
  "usage_lookup (merge_token_usage (Some [(''input_tokens'', PInt 3)]) (Some [(''cost'', PInt 1)]))
     ''input_tokens'' = Some (PInt 3)"
  using usage_merge_keeps_counters
    [of "[(''cost'', PInt 1)]" "''input_tokens''" "Some [(''input_tokens'', PInt 3)]"]
  by (simp add: usage_lookup_def)

end
