(* ===== verification/TTL_Cache.thy ===== *)
theory TTL_Cache
  imports Py_Prelude
begin

text \<open>
  The bounded cache with expiry of \<open>execution/stream_state.py\<close> (\<open>_TTLCache\<close>), which holds
  session bindings and session owners in memory. Its clock is an argument: each operation
  takes the time \<open>now\<close> it reads. The key type is a parameter, the values are strings.
\<close>

section \<open>State and operations\<close>

record 'k ttl_cache =
  tc_ttl_seconds :: int
  tc_maxsize :: int
  tc_refresh_on_get :: bool
  tc_store :: "('k \<times> (string \<times> seconds)) list"

definition ttl_cache_init :: "int \<Rightarrow> int \<Rightarrow> bool \<Rightarrow> 'k ttl_cache" where
  "ttl_cache_init ttl maxsize refresh =
     \<lparr>tc_ttl_seconds = ttl, tc_maxsize = maxsize, tc_refresh_on_get = refresh, tc_store = []\<rparr>"

definition tc_disabled :: "'k ttl_cache \<Rightarrow> bool" where
  "tc_disabled c \<longleftrightarrow> tc_ttl_seconds c \<le> 0 \<or> tc_maxsize c \<le> 0"

definition tc_get :: "seconds \<Rightarrow> 'k \<Rightarrow> 'k ttl_cache \<Rightarrow> string option \<times> 'k ttl_cache" where
  "tc_get now key c =
     (if tc_disabled c then (None, c)
      else case map_of (tc_store c) key of
        None \<Rightarrow> (None, c)
      | Some (value, expires_at) \<Rightarrow>
          if expires_at \<le> now then (None, c\<lparr>tc_store := ddel key (tc_store c)\<rparr>)
          else if tc_refresh_on_get c
            then (Some value,
                  c\<lparr>tc_store := dset key (value, now + of_int (tc_ttl_seconds c)) (tc_store c)\<rparr>)
            else (Some value, c))"

text \<open>\<open>_evict_if_needed\<close>: first the expired entries, then the ones that expire first.\<close>

definition tc_expired_keys :: "seconds \<Rightarrow> ('k \<times> (string \<times> seconds)) list \<Rightarrow> 'k list" where
  "tc_expired_keys now store = map fst (filter (\<lambda>(_, (_, ex)). ex \<le> now) store)"

definition tc_evict_if_needed :: "seconds \<Rightarrow> 'k ttl_cache \<Rightarrow> 'k ttl_cache" where
  "tc_evict_if_needed now c =
     (let store = tc_store c in
      if int (length store) \<le> tc_maxsize c then c
      else let store' = ddel_all (tc_expired_keys now store) store in
        if int (length store') \<le> tc_maxsize c then c\<lparr>tc_store := store'\<rparr>
        else let overflow = nat (int (length store') - tc_maxsize c);
                 by_expiry = sort_key (\<lambda>item. snd (snd item)) store'
             in c\<lparr>tc_store := ddel_all (map fst (take overflow by_expiry)) store'\<rparr>)"

definition tc_set :: "seconds \<Rightarrow> 'k \<Rightarrow> string \<Rightarrow> 'k ttl_cache \<Rightarrow> 'k ttl_cache" where
  "tc_set now key value c =
     (if tc_disabled c then c
      else tc_evict_if_needed now
             (c\<lparr>tc_store := dset key (value, now + of_int (tc_ttl_seconds c)) (tc_store c)\<rparr>))"

definition tc_pop :: "'k \<Rightarrow> 'k ttl_cache \<Rightarrow> 'k ttl_cache" where
  "tc_pop key c = c\<lparr>tc_store := ddel key (tc_store c)\<rparr>"

section \<open>Abstraction: what a lookup at a given time would answer\<close>

definition tc_live :: "seconds \<Rightarrow> 'k ttl_cache \<Rightarrow> 'k \<Rightarrow> string option" where
  "tc_live now c key =
     (if tc_disabled c then None
      else case map_of (tc_store c) key of
        None \<Rightarrow> None
      | Some (value, expires_at) \<Rightarrow> if expires_at \<le> now then None else Some value)"

text \<open>
  The invariant: distinct keys, no more entries than the configured size, and no entry
  expires later than one full lifetime from now.
\<close>

definition tc_bounded :: "'k ttl_cache \<Rightarrow> bool" where
  "tc_bounded c \<longleftrightarrow> wf_dict (tc_store c) \<and> int (length (tc_store c)) \<le> max 0 (tc_maxsize c)"

definition tc_fresh :: "seconds \<Rightarrow> 'k ttl_cache \<Rightarrow> bool" where
  "tc_fresh now c \<longleftrightarrow>
     (\<forall>(k, v, ex) \<in> set (tc_store c). ex \<le> now + of_int (tc_ttl_seconds c))"

definition tc_inv :: "seconds \<Rightarrow> 'k ttl_cache \<Rightarrow> bool" where
  "tc_inv now c \<longleftrightarrow> tc_bounded c \<and> tc_fresh now c"

section \<open>Lemmas\<close>

lemma tc_init_inv: "tc_inv now (ttl_cache_init ttl maxsize refresh)"
  by (simp add: tc_inv_def tc_bounded_def tc_fresh_def ttl_cache_init_def)

lemma tc_get_live: "fst (tc_get now key c) = tc_live now c key"
  by (auto simp: tc_get_def tc_live_def split: option.splits prod.splits)

lemma tc_get_store:
  "tc_store (snd (tc_get now key c)) = tc_store c \<or>
   tc_store (snd (tc_get now key c)) = ddel key (tc_store c) \<or>
   (\<exists>v e. map_of (tc_store c) key = Some (v, e) \<and>
      tc_store (snd (tc_get now key c)) =
        dset key (v, now + of_int (tc_ttl_seconds c)) (tc_store c))"
  by (auto simp: tc_get_def split: option.splits prod.splits)

lemma tc_get_config [simp]:
  "tc_ttl_seconds (snd (tc_get now key c)) = tc_ttl_seconds c"
  "tc_maxsize (snd (tc_get now key c)) = tc_maxsize c"
  "tc_refresh_on_get (snd (tc_get now key c)) = tc_refresh_on_get c"
  by (auto simp: tc_get_def split: option.splits prod.splits)

lemma tc_evict_config [simp]:
  "tc_ttl_seconds (tc_evict_if_needed now c) = tc_ttl_seconds c"
  "tc_maxsize (tc_evict_if_needed now c) = tc_maxsize c"
  "tc_refresh_on_get (tc_evict_if_needed now c) = tc_refresh_on_get c"
  by (auto simp: tc_evict_if_needed_def Let_def)

lemma tc_set_config [simp]:
  "tc_ttl_seconds (tc_set now key v c) = tc_ttl_seconds c"
  "tc_maxsize (tc_set now key v c) = tc_maxsize c"
  "tc_refresh_on_get (tc_set now key v c) = tc_refresh_on_get c"
  by (auto simp: tc_set_def)

lemma tc_pop_config [simp]:
  "tc_ttl_seconds (tc_pop key c) = tc_ttl_seconds c"
  "tc_maxsize (tc_pop key c) = tc_maxsize c"
  "tc_refresh_on_get (tc_pop key c) = tc_refresh_on_get c"
  by (auto simp: tc_pop_def)

lemma tc_disabled_ops [simp]:
  "tc_disabled (snd (tc_get now key c)) = tc_disabled c"
  "tc_disabled (tc_set now key v c) = tc_disabled c"
  "tc_disabled (tc_pop key c) = tc_disabled c"
  by (simp_all add: tc_disabled_def)

subsection \<open>Eviction\<close>

lemma evict_mset:
  assumes "wf_dict d"
  shows "mset (ddel_all (map fst (take n (sort_key f d))) d) = mset (drop n (sort_key f d))"
proof -
  let ?s = "sort_key f d" and ?P = "\<lambda>p. fst p \<notin> fst ` set (take n (sort_key f d))"
  have "mset (map fst ?s) = mset (map fst d)" by simp
  with assms have dist: "distinct (map fst (take n ?s @ drop n ?s))"
    by (metis append_take_drop_id mset_eq_imp_distinct_iff)
  have "filter ?P ?s = filter ?P (take n ?s) @ filter ?P (drop n ?s)"
    by (metis append_take_drop_id filter_append)
  also have "filter ?P (take n ?s) = []" by (auto simp: filter_empty_conv)
  also have "filter ?P (drop n ?s) = drop n ?s"
    using dist unfolding map_append distinct_append set_map filter_id_conv by blast
  finally have "filter ?P ?s = drop n ?s" by simp
  then have "mset (filter ?P d) = mset (drop n ?s)"
    by (metis mset_filter mset_sort)
  then show ?thesis by (simp add: ddel_all_filter)
qed

lemma evict_length:
  "wf_dict d \<Longrightarrow> length (ddel_all (map fst (take n (sort_key f d))) d) = length d - n"
  by (metis evict_mset length_drop length_sort size_mset)

lemma tc_evict_wf: "wf_dict (tc_store c) \<Longrightarrow> wf_dict (tc_store (tc_evict_if_needed now c))"
  by (auto simp: tc_evict_if_needed_def Let_def)

lemma tc_evict_length:
  assumes "wf_dict (tc_store c)" and "0 \<le> tc_maxsize c"
  shows "int (length (tc_store (tc_evict_if_needed now c))) \<le> tc_maxsize c"
  using assms by (auto simp: tc_evict_if_needed_def Let_def evict_length)

lemma tc_evict_subset: "set (tc_store (tc_evict_if_needed now c)) \<subseteq> set (tc_store c)"
  by (auto simp: tc_evict_if_needed_def Let_def ddel_all_filter)

lemma sort_key_snoc_max:
  "\<forall>y \<in> set xs. f y \<le> f x \<Longrightarrow> sort_key f (xs @ [x]) = sort_key f xs @ [x]"
proof (induction xs)
  case Nil
  then show ?case by simp
next
  case (Cons y xs)
  have insort_snoc: "f y \<le> f x \<Longrightarrow> insort_key f y (zs @ [x]) = insort_key f y zs @ [x]" for zs
    by (induction zs) auto
  from Cons show ?case by (simp add: insort_snoc)
qed

text \<open>The entry written last survives its own eviction round.\<close>

lemma tc_evict_keeps_last:
  assumes wf: "wf_dict (tc_store c)"
    and store: "tc_store c = xs @ [(k, (v, e))]"
    and len: "1 \<le> tc_maxsize c"
    and max: "\<forall>(k', v', e') \<in> set xs. e' \<le> e" and alive: "now < e"
  shows "map_of (tc_store (tc_evict_if_needed now c)) k = Some (v, e)"
proof -
  let ?f = "\<lambda>item. snd (snd item) :: seconds"
  let ?keep = "\<lambda>p. fst p \<notin> set (tc_expired_keys now (tc_store c))"
  let ?s = "ddel_all (tc_expired_keys now (tc_store c)) (tc_store c)"
  have k_fresh: "k \<notin> fst ` set xs" using wf store by auto
  have keep_k: "?keep (k, (v, e))"
    using k_fresh alive by (auto simp: tc_expired_keys_def store image_iff)
  have s: "?s = filter ?keep xs @ [(k, (v, e))]"
    using keep_k by (simp add: ddel_all_filter store)
  have sorted: "sort_key ?f ?s = sort_key ?f (filter ?keep xs) @ [(k, (v, e))]"
    unfolding s using max by (intro sort_key_snoc_max) auto
  have in_c: "map_of (tc_store c) k = Some (v, e)"
    using k_fresh map_of_eq_None_iff [of xs k] by (simp add: store map_add_def)
  then have in_s: "map_of ?s k = Some (v, e)" using keep_k by (simp add: map_of_ddel_all)
  define n where "n = nat (int (length ?s) - tc_maxsize c)"
  have "n \<le> length (filter ?keep xs)" using len by (simp add: n_def s)
  then have "take n (sort_key ?f ?s) = take n (sort_key ?f (filter ?keep xs))"
    by (simp add: sorted)
  then have "k \<notin> fst ` set (take n (sort_key ?f ?s))"
    using k_fresh by (auto dest!: in_set_takeD)
  with in_s have "map_of (ddel_all (map fst (take n (sort_key ?f ?s))) ?s) k = Some (v, e)"
    by (simp add: map_of_ddel_all)
  then show ?thesis
    using in_c in_s by (simp add: tc_evict_if_needed_def Let_def n_def)
qed

subsection \<open>The invariant and the abstraction under each operation\<close>

lemma tc_inv_later: "tc_inv now c \<Longrightarrow> now \<le> now' \<Longrightarrow> tc_inv now' c"
  by (force simp: tc_inv_def tc_fresh_def)

lemma tc_fresh_dset:
  "tc_fresh now c \<Longrightarrow>
   tc_fresh now (c\<lparr>tc_store := dset key (v, now + of_int (tc_ttl_seconds c)) (tc_store c)\<rparr>)"
  using set_dset [of key "(v, now + of_int (tc_ttl_seconds c))" "tc_store c"]
  by (fastforce simp: tc_fresh_def)

lemma tc_get_inv: "tc_inv now c \<Longrightarrow> tc_inv now (snd (tc_get now key c))"
proof -
  assume inv: "tc_inv now c"
  then have wf: "wf_dict (tc_store c)"
    and len: "int (length (tc_store c)) \<le> max 0 (tc_maxsize c)" and fresh: "tc_fresh now c"
    by (auto simp: tc_inv_def tc_bounded_def)
  have "tc_inv now (c\<lparr>tc_store := ddel key (tc_store c)\<rparr>)"
    using wf len fresh ddel_keeps_set [of key "tc_store c"] length_ddel_le [of key "tc_store c"]
    by (fastforce simp: tc_inv_def tc_bounded_def tc_fresh_def)
  moreover have "map_of (tc_store c) key \<noteq> None \<Longrightarrow>
      tc_inv now (c\<lparr>tc_store := dset key (v, now + of_int (tc_ttl_seconds c)) (tc_store c)\<rparr>)" for v
    using wf len fresh by (auto simp: tc_inv_def tc_bounded_def tc_fresh_dset length_dset)
  ultimately show ?thesis
    using inv by (auto simp: tc_get_def split: option.splits prod.splits)
qed

lemma tc_pop_inv: "tc_inv now c \<Longrightarrow> tc_inv now (tc_pop key c)"
  using ddel_keeps_set [of key "tc_store c"] length_ddel_le [of key "tc_store c"]
  by (fastforce simp: tc_pop_def tc_inv_def tc_bounded_def tc_fresh_def)

lemma tc_set_inv: "tc_inv now c \<Longrightarrow> tc_inv now (tc_set now key v c)"
proof (cases "tc_disabled c")
  case True
  moreover assume "tc_inv now c"
  ultimately show ?thesis by (simp add: tc_set_def)
next
  case False
  assume inv: "tc_inv now c"
  let ?c = "c\<lparr>tc_store := dset key (v, now + of_int (tc_ttl_seconds c)) (tc_store c)\<rparr>"
  have wf: "wf_dict (tc_store ?c)" using inv by (auto simp: tc_inv_def tc_bounded_def)
  have "tc_fresh now ?c" using inv by (simp add: tc_inv_def tc_fresh_dset)
  then have "tc_fresh now (tc_evict_if_needed now ?c)"
    using tc_evict_subset [of now ?c] by (auto simp: tc_fresh_def)
  moreover have "tc_bounded (tc_evict_if_needed now ?c)"
    using wf tc_evict_length [of ?c now] tc_evict_wf [of ?c now] False
    by (simp add: tc_bounded_def tc_disabled_def)
  ultimately show ?thesis using False by (simp add: tc_set_def tc_inv_def)
qed

lemma tc_live_pop [simp]: "tc_live now (tc_pop key c) k = (if k = key then None else tc_live now c k)"
  by (simp add: tc_live_def tc_disabled_def tc_pop_def map_of_ddel)

lemma tc_live_get:
  "wf_dict (tc_store c) \<Longrightarrow> tc_live now (snd (tc_get now key c)) k = tc_live now c k"
  by (auto simp: tc_get_def tc_live_def tc_disabled_def map_of_ddel split: option.splits prod.splits)

lemma tc_live_evict:
  "wf_dict (tc_store c) \<Longrightarrow>
   tc_live now (tc_evict_if_needed now c) k = tc_live now c k \<or>
   tc_live now (tc_evict_if_needed now c) k = None"
  by (auto simp: tc_evict_if_needed_def tc_live_def tc_disabled_def Let_def map_of_ddel_all
      split: option.splits)

lemma tc_live_set_other:
  assumes "tc_inv now c" and "k \<noteq> key"
  shows "tc_live now (tc_set now key v c) k = tc_live now c k \<or>
         tc_live now (tc_set now key v c) k = None"
proof -
  let ?c = "c\<lparr>tc_store := dset key (v, now + of_int (tc_ttl_seconds c)) (tc_store c)\<rparr>"
  have "wf_dict (tc_store ?c)" using assms by (auto simp: tc_inv_def tc_bounded_def)
  moreover have "tc_live now ?c k = tc_live now c k"
    using assms(2) by (simp add: tc_live_def tc_disabled_def)
  ultimately show ?thesis using tc_live_evict [of ?c now k] by (simp add: tc_set_def)
qed

lemma tc_live_set_same:
  assumes inv: "tc_inv now c" and en: "\<not> tc_disabled c"
  shows "tc_live now (tc_set now key v c) key = Some v"
proof -
  let ?e = "now + of_int (tc_ttl_seconds c) :: seconds"
  let ?c = "c\<lparr>tc_store := dset key (v, ?e) (tc_store c)\<rparr>"
  have wf: "wf_dict (tc_store ?c)" using inv by (auto simp: tc_inv_def tc_bounded_def)
  have alive: "now < ?e" using en by (simp add: tc_disabled_def)
  have "map_of (tc_store (tc_evict_if_needed now ?c)) key = Some (v, ?e)"
  proof (cases "map_of (tc_store c) key")
    case None
    then have store: "tc_store ?c = tc_store c @ [(key, (v, ?e))]" by (simp add: dset_new)
    have max: "\<forall>(k', v', e') \<in> set (tc_store c). e' \<le> ?e"
      using inv by (auto simp: tc_inv_def tc_fresh_def)
    show ?thesis
      by (rule tc_evict_keeps_last [OF wf store _ max alive]) (use en in \<open>simp add: tc_disabled_def\<close>)
  next
    case (Some p)
    then have "length (tc_store ?c) = length (tc_store c)" by (simp add: length_dset)
    then have "int (length (tc_store ?c)) \<le> tc_maxsize c"
      using inv en by (simp add: tc_inv_def tc_bounded_def tc_disabled_def)
    then show ?thesis by (simp add: tc_evict_if_needed_def)
  qed
  then show ?thesis using en alive by (simp add: tc_set_def tc_live_def tc_disabled_def)
qed

lemma tc_wf: "tc_inv now c \<Longrightarrow> wf_dict (tc_store c)"
  by (simp add: tc_inv_def tc_bounded_def)

lemma tc_live_fades:
  "now \<le> now' \<Longrightarrow> tc_live now' c k = Some x \<Longrightarrow> tc_live now c k = Some x"
  by (auto simp: tc_live_def split: option.splits if_splits)

lemma tc_get_facts:
  assumes "tc_inv now c" and "tc_get now k c = (x, c')"
  shows "x = tc_live now c k" and "tc_inv now c'" and "tc_live now c' = tc_live now c"
    and "tc_disabled c' = tc_disabled c"
  using assms tc_get_live [of now k c] tc_get_inv [of now c k] tc_live_get [OF tc_wf, of now c now k]
    tc_disabled_ops(1) [of now k c]
  by (auto simp: fun_eq_iff)

section \<open>Properties\<close>

subsection \<open>Any sequence of operations\<close>

datatype 'k tc_op = TC_Get 'k | TC_Set 'k string | TC_Pop 'k

fun tc_step :: "seconds \<times> 'k tc_op \<Rightarrow> 'k ttl_cache \<Rightarrow> 'k ttl_cache" where
  "tc_step (now, TC_Get key) c = snd (tc_get now key c)"
| "tc_step (now, TC_Set key v) c = tc_set now key v c"
| "tc_step (now, TC_Pop key) c = tc_pop key c"

lemma tc_set_bounded: "tc_bounded c \<Longrightarrow> tc_bounded (tc_set now key v c)"
proof -
  assume b: "tc_bounded c"
  let ?c = "c\<lparr>tc_store := dset key (v, now + of_int (tc_ttl_seconds c)) (tc_store c)\<rparr>"
  have wf: "wf_dict (tc_store ?c)" using b by (auto simp: tc_bounded_def)
  show ?thesis
    using b wf tc_evict_length [of ?c now] tc_evict_wf [of ?c now]
    by (auto simp: tc_set_def tc_bounded_def tc_disabled_def)
qed

lemma tc_get_bounded: "tc_bounded c \<Longrightarrow> tc_bounded (snd (tc_get now key c))"
  using tc_get_store [of now key c] length_ddel_le [of key "tc_store c"]
  by (auto simp: tc_bounded_def length_dset)

lemma tc_pop_bounded: "tc_bounded c \<Longrightarrow> tc_bounded (tc_pop key c)"
  using length_ddel_le [of key "tc_store c"] by (auto simp: tc_bounded_def tc_pop_def)

lemma tc_step_bounded:
  "tc_bounded c \<Longrightarrow> tc_bounded (tc_step e c) \<and> tc_maxsize (tc_step e c) = tc_maxsize c"
  by (cases "(e, c)" rule: tc_step.cases)
    (auto simp: tc_set_bounded tc_get_bounded tc_pop_bounded)

lemma tc_run_bounded:
  "tc_bounded c \<Longrightarrow> tc_bounded (fold tc_step ops c) \<and> tc_maxsize (fold tc_step ops c) = tc_maxsize c"
proof (induction ops arbitrary: c)
  case Nil
  then show ?case by simp
next
  case (Cons e ops)
  then show ?case using tc_step_bounded [OF Cons.prems, of e] by simp
qed

text \<open>
  Whatever is stored, read and removed, at whatever times, the cache never holds more
  entries than its configured size, and never two entries for one key.
\<close>

theorem cache_never_overflows:
  "int (length (tc_store (fold tc_step ops (ttl_cache_init ttl maxsize refresh)))) \<le> max 0 maxsize \<and>
   wf_dict (tc_store (fold tc_step ops (ttl_cache_init ttl maxsize refresh)))"
  using tc_run_bounded [of "ttl_cache_init ttl maxsize refresh" ops]
  by (auto simp: tc_bounded_def ttl_cache_init_def)

text \<open>
  When room has to be made, the entries that go are the ones that expire first: an
  entry that has not expired is evicted only if every entry that stays expires no earlier.
\<close>

theorem eviction_takes_earliest:
  assumes wf: "wf_dict (tc_store c)"
    and gone: "(k, (v, e)) \<in> set (tc_store c)"
      "(k, (v, e)) \<notin> set (tc_store (tc_evict_if_needed now c))" and alive: "now < e"
    and stays: "(k', (v', e')) \<in> set (tc_store (tc_evict_if_needed now c))"
  shows "e \<le> e'"
proof -
  let ?f = "\<lambda>item. snd (snd item) :: seconds"
  let ?d = "ddel_all (tc_expired_keys now (tc_store c)) (tc_store c)"
  let ?n = "nat (int (length ?d) - tc_maxsize c)"
  have fresh: "k \<notin> set (tc_expired_keys now (tc_store c))"
    using alive by (auto simp: tc_expired_keys_def dest!: eq_key_imp_eq_value [OF wf gone(1)])
  then have in_d: "(k, (v, e)) \<in> set ?d" using gone(1) by (simp add: ddel_all_filter)
  have store: "tc_store (tc_evict_if_needed now c) =
      ddel_all (map fst (take ?n (sort_key ?f ?d))) ?d"
    using gone in_d by (auto simp: tc_evict_if_needed_def Let_def split: if_splits)
  have "wf_dict ?d" using wf by simp
  from evict_mset [OF this, of ?n ?f]
  have set: "set (tc_store (tc_evict_if_needed now c)) = set (drop ?n (sort_key ?f ?d))"
    unfolding store by (rule mset_eq_setD)
  have "(k, (v, e)) \<in> set (take ?n (sort_key ?f ?d) @ drop ?n (sort_key ?f ?d))"
    using in_d by simp
  then have taken: "(k, (v, e)) \<in> set (take ?n (sort_key ?f ?d))"
    using gone(2) set unfolding set_append by blast
  have "sorted (map ?f (take ?n (sort_key ?f ?d) @ drop ?n (sort_key ?f ?d)))" by simp
  then show ?thesis
    using taken stays unfolding set map_append sorted_append by fastforce
qed

theorem eviction_takes_earliest_witness:
  "(1 :: seconds) \<le> 2"
  by (rule eviction_takes_earliest
      [of "\<lparr>tc_ttl_seconds = 5, tc_maxsize = 1, tc_refresh_on_get = False,
            tc_store = [(0 :: nat, (''a'', 1)), (1, (''b'', 2))]\<rparr>" 0 "''a''" 1 0 1 "''b''" 2])
    (simp_all add: tc_evict_if_needed_def tc_expired_keys_def ddel_all_def Let_def)

text \<open>
  A value that was stored is found again until its lifetime is over, even when storing
  it evicted other entries; afterwards the lookup answers nothing.
\<close>

theorem cache_set_then_get:
  assumes "tc_inv now c" and "\<not> tc_disabled c" and "now \<le> t"
  shows "fst (tc_get t key (tc_set now key v c)) =
    (if t < now + of_int (tc_ttl_seconds c) then Some v else None)"
proof -
  note live = tc_live_set_same [OF assms(1,2), of key v]
  have "map_of (tc_store (tc_set now key v c)) key = Some (v, now + of_int (tc_ttl_seconds c))"
  proof -
    obtain e where e: "map_of (tc_store (tc_set now key v c)) key = Some (v, e)"
      using live by (auto simp: tc_live_def split: option.splits if_splits)
    then have "(key, (v, e)) \<in> set (tc_store (tc_set now key v c))" by (rule map_of_SomeD)
    then have "(key, (v, e)) \<in> set (dset key (v, now + of_int (tc_ttl_seconds c)) (tc_store c))"
      using tc_evict_subset assms(2) by (force simp: tc_set_def)
    moreover have "wf_dict (tc_store c)" using assms(1) by (rule tc_wf)
    ultimately have "map_of (dset key (v, now + of_int (tc_ttl_seconds c)) (tc_store c)) key = Some (v, e)"
      by (intro map_of_is_SomeI) simp_all
    with e show ?thesis by simp
  qed
  then show ?thesis
    using assms(2) by (simp add: tc_get_live tc_live_def)
qed

theorem cache_set_then_get_witness:
  "fst (tc_get 9 ''k'' (tc_set 4 ''k'' ''v'' (ttl_cache_init 10 3 False))) = Some ''v''"
  using cache_set_then_get [of 4 "ttl_cache_init 10 3 False" 9 "''k''" "''v''"]
  by (simp add: tc_init_inv) (simp add: ttl_cache_init_def tc_disabled_def)

end
