(* ===== verification/Session_Repository.thy ===== *)
theory Session_Repository
  imports TTL_Cache
begin

text \<open>
  The repository of session bindings, session owners and pending session claims
  (\<open>SessionStateRepository\<close> of \<open>server/state_store.py\<close>): the abstract class as a record of
  operations, the contract its clients rely on as a locale, and its two implementations,
  one over in-memory caches and one over database tables, both shown to satisfy the
  contract. Every operation takes the time its clock reads.
\<close>

section \<open>The interface\<close>

record 's session_repo =
  sr_get_session :: "seconds \<Rightarrow> string \<Rightarrow> string \<Rightarrow> 's \<Rightarrow> string option \<times> 's"
  sr_set_session :: "seconds \<Rightarrow> string \<Rightarrow> string \<Rightarrow> string \<Rightarrow> 's \<Rightarrow> 's"
  sr_pop_session :: "string \<Rightarrow> string \<Rightarrow> 's \<Rightarrow> 's"
  sr_get_owner :: "seconds \<Rightarrow> string \<Rightarrow> 's \<Rightarrow> string option \<times> 's"
  sr_set_owner :: "seconds \<Rightarrow> string \<Rightarrow> string \<Rightarrow> 's \<Rightarrow> 's"
  sr_get_pending_claim :: "seconds \<Rightarrow> string \<Rightarrow> 's \<Rightarrow> string option \<times> 's"
  sr_set_pending_claim :: "seconds \<Rightarrow> string \<Rightarrow> string \<Rightarrow> 's \<Rightarrow> 's"
  sr_clear_pending_claim :: "string \<Rightarrow> string option \<Rightarrow> 's \<Rightarrow> 's"

text \<open>
  The contract. \<open>binding\<close>, \<open>owner\<close> and \<open>claim\<close> are what a lookup at a given time would
  answer; \<open>claim_ttl\<close> is the lifetime of a claim, and \<open>forgets\<close> says whether storing an
  owner may drop the owners of other sessions. An implementation never changes the owner
  of another session, and never touches a claim of another session, now or later.
\<close>

locale session_repository =
  fixes R :: "'s session_repo"
    and inv :: "seconds \<Rightarrow> 's \<Rightarrow> bool"
    and binding :: "seconds \<Rightarrow> 's \<Rightarrow> string \<times> string \<Rightarrow> string option"
    and owner :: "seconds \<Rightarrow> 's \<Rightarrow> string \<Rightarrow> string option"
    and claim :: "seconds \<Rightarrow> 's \<Rightarrow> string \<Rightarrow> string option"
    and claim_ttl :: "'s \<Rightarrow> seconds"
    and forgets :: bool
  assumes inv_later: "inv now s \<Longrightarrow> now \<le> now' \<Longrightarrow> inv now' s"
    and owner_fades: "now \<le> now' \<Longrightarrow> owner now' s sid = Some i \<Longrightarrow> owner now s sid = Some i"
    and claim_fades: "now \<le> now' \<Longrightarrow> claim now' s sid = Some i \<Longrightarrow> claim now s sid = Some i"
    and get_session: "inv now s \<Longrightarrow> sr_get_session R now i c s = (x, s') \<Longrightarrow>
      x = binding now s (i, c) \<and> inv now s' \<and> binding now s' = binding now s \<and>
      owner now s' = owner now s \<and> claim_ttl s' = claim_ttl s \<and>
      (now \<le> t \<longrightarrow> claim t s' = claim t s)"
    and get_owner: "inv now s \<Longrightarrow> sr_get_owner R now sid s = (x, s') \<Longrightarrow>
      x = owner now s sid \<and> inv now s' \<and> binding now s' = binding now s \<and>
      owner now s' = owner now s \<and> claim_ttl s' = claim_ttl s \<and>
      (now \<le> t \<longrightarrow> claim t s' = claim t s)"
    and get_pending_claim: "inv now s \<Longrightarrow> sr_get_pending_claim R now sid s = (x, s') \<Longrightarrow>
      x = claim now s sid \<and> inv now s' \<and> binding now s' = binding now s \<and>
      owner now s' = owner now s \<and> claim_ttl s' = claim_ttl s \<and>
      (now \<le> t \<longrightarrow> claim t s' = claim t s)"
    and set_session: "inv now s \<Longrightarrow> s' = sr_set_session R now i c sid s \<Longrightarrow>
      inv now s' \<and> owner now s' = owner now s \<and> claim_ttl s' = claim_ttl s \<and>
      (now \<le> t \<longrightarrow> claim t s' = claim t s) \<and> binding now s' (i, c) = Some sid \<and>
      (k \<noteq> (i, c) \<longrightarrow> binding now s' k = binding now s k \<or> binding now s' k = None)"
    and pop_session: "inv now s \<Longrightarrow> s' = sr_pop_session R i c s \<Longrightarrow>
      inv now s' \<and> owner now s' = owner now s \<and> claim_ttl s' = claim_ttl s \<and>
      (now \<le> t \<longrightarrow> claim t s' = claim t s) \<and>
      binding now s' = (binding now s)((i, c) := None)"
    and set_owner: "inv now s \<Longrightarrow> s' = sr_set_owner R now sid i s \<Longrightarrow>
      inv now s' \<and> binding now s' = binding now s \<and> claim_ttl s' = claim_ttl s \<and>
      (now \<le> t \<longrightarrow> claim t s' = claim t s) \<and> owner now s' sid = Some i \<and>
      (sid' \<noteq> sid \<longrightarrow>
         owner now s' sid' = owner now s sid' \<or> forgets \<and> owner now s' sid' = None)"
    and set_pending_claim: "inv now s \<Longrightarrow> s' = sr_set_pending_claim R now sid i s \<Longrightarrow>
      inv now s' \<and> binding now s' = binding now s \<and> owner now s' = owner now s \<and>
      claim_ttl s' = claim_ttl s \<and>
      (now \<le> t \<longrightarrow> claim t s' = (claim t s)(sid := if t < now + claim_ttl s then Some i else None))"
    and clear_pending_claim: "inv now s \<Longrightarrow> s' = sr_clear_pending_claim R sid oi s \<Longrightarrow>
      inv now s' \<and> binding now s' = binding now s \<and> owner now s' = owner now s \<and>
      claim_ttl s' = claim_ttl s \<and>
      (now \<le> t \<longrightarrow> claim t s' = (if oi = None \<or> claim now s sid = oi
        then (claim t s)(sid := None) else claim t s))"

text \<open>A durable repository forgets no owner, neither with time nor to make room.\<close>

locale durable_session_repository = session_repository +
  assumes owner_durable: "owner now' s sid = owner now s sid"
    and never_forgets: "\<not> forgets"

section \<open>The in-memory repository\<close>

record mem_session_repo =
  ms_sessions :: "(string \<times> string) ttl_cache"
  ms_session_owners :: "string ttl_cache"
  ms_pending_session_claims :: "(string \<times> string) list"
  ms_pending_claim_expiries :: "(string \<times> seconds) list"
  ms_pending_claim_ttl_seconds :: seconds

definition mem_session_init :: "int \<Rightarrow> int \<Rightarrow> seconds \<Rightarrow> mem_session_repo" where
  "mem_session_init ttl maxsize claim_ttl =
     \<lparr>ms_sessions = ttl_cache_init ttl maxsize False,
      ms_session_owners = ttl_cache_init ttl maxsize True,
      ms_pending_session_claims = [], ms_pending_claim_expiries = [],
      ms_pending_claim_ttl_seconds = claim_ttl\<rparr>"

definition ms_prune_pending_claims :: "seconds \<Rightarrow> mem_session_repo \<Rightarrow> mem_session_repo" where
  "ms_prune_pending_claims now s =
     (let expired = map fst (filter (\<lambda>(_, ex). ex \<le> now) (ms_pending_claim_expiries s))
      in s\<lparr>ms_pending_session_claims := ddel_all expired (ms_pending_session_claims s),
           ms_pending_claim_expiries := ddel_all expired (ms_pending_claim_expiries s)\<rparr>)"

definition ms_get_session ::
    "seconds \<Rightarrow> string \<Rightarrow> string \<Rightarrow> mem_session_repo \<Rightarrow> string option \<times> mem_session_repo" where
  "ms_get_session now identity context_id s =
     (let (x, c) = tc_get now (identity, context_id) (ms_sessions s)
      in (x, s\<lparr>ms_sessions := c\<rparr>))"

definition ms_set_session ::
    "seconds \<Rightarrow> string \<Rightarrow> string \<Rightarrow> string \<Rightarrow> mem_session_repo \<Rightarrow> mem_session_repo" where
  "ms_set_session now identity context_id session_id s =
     s\<lparr>ms_sessions := tc_set now (identity, context_id) session_id (ms_sessions s)\<rparr>"

definition ms_pop_session :: "string \<Rightarrow> string \<Rightarrow> mem_session_repo \<Rightarrow> mem_session_repo" where
  "ms_pop_session identity context_id s =
     s\<lparr>ms_sessions := tc_pop (identity, context_id) (ms_sessions s)\<rparr>"

definition ms_get_owner ::
    "seconds \<Rightarrow> string \<Rightarrow> mem_session_repo \<Rightarrow> string option \<times> mem_session_repo" where
  "ms_get_owner now session_id s =
     (let (x, c) = tc_get now session_id (ms_session_owners s)
      in (x, s\<lparr>ms_session_owners := c\<rparr>))"

definition ms_set_owner ::
    "seconds \<Rightarrow> string \<Rightarrow> string \<Rightarrow> mem_session_repo \<Rightarrow> mem_session_repo" where
  "ms_set_owner now session_id identity s =
     s\<lparr>ms_session_owners := tc_set now session_id identity (ms_session_owners s)\<rparr>"

definition ms_get_pending_claim ::
    "seconds \<Rightarrow> string \<Rightarrow> mem_session_repo \<Rightarrow> string option \<times> mem_session_repo" where
  "ms_get_pending_claim now session_id s =
     (let s' = ms_prune_pending_claims now s
      in (map_of (ms_pending_session_claims s') session_id, s'))"

definition ms_clear_pending_claim ::
    "string \<Rightarrow> string option \<Rightarrow> mem_session_repo \<Rightarrow> mem_session_repo" where
  "ms_clear_pending_claim session_id identity s =
     (if identity = None \<or> map_of (ms_pending_session_claims s) session_id = identity
      then s\<lparr>ms_pending_session_claims := ddel session_id (ms_pending_session_claims s),
             ms_pending_claim_expiries := ddel session_id (ms_pending_claim_expiries s)\<rparr>
      else s)"

definition ms_set_pending_claim ::
    "seconds \<Rightarrow> string \<Rightarrow> string \<Rightarrow> mem_session_repo \<Rightarrow> mem_session_repo" where
  "ms_set_pending_claim now session_id identity s =
     (let s' = ms_prune_pending_claims now s
      in if ms_pending_claim_ttl_seconds s' \<le> 0
         then ms_clear_pending_claim session_id None s'
         else s'\<lparr>ms_pending_session_claims :=
                    dset session_id identity (ms_pending_session_claims s'),
                  ms_pending_claim_expiries :=
                    dset session_id (now + ms_pending_claim_ttl_seconds s')
                      (ms_pending_claim_expiries s')\<rparr>)"

definition mem_session_repo_ops :: "mem_session_repo session_repo" where
  "mem_session_repo_ops =
     \<lparr>sr_get_session = ms_get_session, sr_set_session = ms_set_session,
      sr_pop_session = ms_pop_session, sr_get_owner = ms_get_owner,
      sr_set_owner = ms_set_owner, sr_get_pending_claim = ms_get_pending_claim,
      sr_set_pending_claim = ms_set_pending_claim,
      sr_clear_pending_claim = ms_clear_pending_claim\<rparr>"

subsection \<open>Its invariant and abstraction\<close>

definition ms_claims_ok :: "mem_session_repo \<Rightarrow> bool" where
  "ms_claims_ok s \<longleftrightarrow>
     wf_dict (ms_pending_session_claims s) \<and> wf_dict (ms_pending_claim_expiries s) \<and>
     dom (map_of (ms_pending_session_claims s)) = dom (map_of (ms_pending_claim_expiries s)) \<and>
     (ms_pending_claim_ttl_seconds s \<le> 0 \<longrightarrow> ms_pending_session_claims s = [])"

definition ms_inv :: "seconds \<Rightarrow> mem_session_repo \<Rightarrow> bool" where
  "ms_inv now s \<longleftrightarrow> tc_inv now (ms_sessions s) \<and> \<not> tc_disabled (ms_sessions s) \<and>
     tc_inv now (ms_session_owners s) \<and> \<not> tc_disabled (ms_session_owners s) \<and> ms_claims_ok s"

definition ms_binding :: "seconds \<Rightarrow> mem_session_repo \<Rightarrow> string \<times> string \<Rightarrow> string option" where
  "ms_binding now s = tc_live now (ms_sessions s)"

definition ms_owner :: "seconds \<Rightarrow> mem_session_repo \<Rightarrow> string \<Rightarrow> string option" where
  "ms_owner now s = tc_live now (ms_session_owners s)"

definition ms_claim :: "seconds \<Rightarrow> mem_session_repo \<Rightarrow> string \<Rightarrow> string option" where
  "ms_claim now s sid =
     (case map_of (ms_pending_claim_expiries s) sid of
        None \<Rightarrow> None
      | Some ex \<Rightarrow> if ex \<le> now then None else map_of (ms_pending_session_claims s) sid)"

lemmas mem_session_ops =
  ms_get_session_def ms_set_session_def ms_pop_session_def ms_get_owner_def ms_set_owner_def
  ms_get_pending_claim_def ms_set_pending_claim_def ms_clear_pending_claim_def

lemma ms_frame [simp]:
  "ms_claim now (s\<lparr>ms_sessions := c\<rparr>) = ms_claim now s"
  "ms_claim now (s\<lparr>ms_session_owners := oc\<rparr>) = ms_claim now s"
  "ms_claims_ok (s\<lparr>ms_sessions := c\<rparr>) = ms_claims_ok s"
  "ms_claims_ok (s\<lparr>ms_session_owners := oc\<rparr>) = ms_claims_ok s"
  by (simp_all add: ms_claims_ok_def fun_eq_iff ms_claim_def split: option.splits)

lemma ms_prune_simps [simp]:
  "ms_sessions (ms_prune_pending_claims now s) = ms_sessions s"
  "ms_session_owners (ms_prune_pending_claims now s) = ms_session_owners s"
  "ms_pending_claim_ttl_seconds (ms_prune_pending_claims now s) = ms_pending_claim_ttl_seconds s"
  by (simp_all add: ms_prune_pending_claims_def Let_def)

lemma in_expired:
  "wf_dict d \<Longrightarrow> k \<in> set (map fst (filter (\<lambda>(_, ex). ex \<le> now) d)) \<longleftrightarrow>
     (\<exists>ex. map_of d k = Some ex \<and> ex \<le> (now :: seconds))"
  by (auto simp: map_of_eq_Some_iff) (auto simp: image_iff)

lemma ms_prune_claims:
  assumes "ms_claims_ok s"
  shows "map_of (ms_pending_session_claims (ms_prune_pending_claims now s)) k = ms_claim now s k"
    and "map_of (ms_pending_claim_expiries (ms_prune_pending_claims now s)) k =
      (case map_of (ms_pending_claim_expiries s) k of
         None \<Rightarrow> None | Some ex \<Rightarrow> if ex \<le> now then None else Some ex)"
proof -
  have wf: "wf_dict (ms_pending_claim_expiries s)"
    and dom: "map_of (ms_pending_session_claims s) k = None \<longleftrightarrow>
      map_of (ms_pending_claim_expiries s) k = None"
    using assms by (auto simp: ms_claims_ok_def)
  show "map_of (ms_pending_session_claims (ms_prune_pending_claims now s)) k = ms_claim now s k"
    using dom in_expired [OF wf, of k now]
    by (simp add: ms_prune_pending_claims_def ms_claim_def Let_def map_of_ddel_all split: option.splits)
  show "map_of (ms_pending_claim_expiries (ms_prune_pending_claims now s)) k =
      (case map_of (ms_pending_claim_expiries s) k of
         None \<Rightarrow> None | Some ex \<Rightarrow> if ex \<le> now then None else Some ex)"
    using in_expired [OF wf, of k now]
    by (simp add: ms_prune_pending_claims_def Let_def map_of_ddel_all split: option.splits)
qed

lemma ms_prune_ok: "ms_claims_ok s \<Longrightarrow> ms_claims_ok (ms_prune_pending_claims now s)"
proof -
  assume ok: "ms_claims_ok s"
  let ?s = "ms_prune_pending_claims now s"
  have wf: "wf_dict (ms_pending_session_claims ?s)" "wf_dict (ms_pending_claim_expiries ?s)"
    using ok by (simp_all add: ms_claims_ok_def ms_prune_pending_claims_def Let_def)
  have dom_s: "map_of (ms_pending_session_claims s) k = None \<longleftrightarrow>
      map_of (ms_pending_claim_expiries s) k = None" for k
    using ok by (auto simp: ms_claims_ok_def)
  have "map_of (ms_pending_session_claims ?s) k = None \<longleftrightarrow>
      map_of (ms_pending_claim_expiries ?s) k = None" for k
    using dom_s [of k] by (simp add: ms_prune_claims [OF ok] ms_claim_def split: option.splits)
  then have "dom (map_of (ms_pending_session_claims ?s)) = dom (map_of (ms_pending_claim_expiries ?s))"
    by (auto simp: dom_def)
  moreover have "ms_pending_claim_ttl_seconds s \<le> 0 \<Longrightarrow> ms_pending_session_claims ?s = []"
    using ok by (simp add: ms_claims_ok_def ms_prune_pending_claims_def Let_def ddel_all_filter)
  ultimately show ?thesis using wf by (simp add: ms_claims_ok_def)
qed

lemma ms_prune_inv: "ms_inv now s \<Longrightarrow> ms_inv now (ms_prune_pending_claims now s)"
  by (simp add: ms_inv_def ms_prune_ok)

lemma ms_prune_claim [simp]:
  "ms_claims_ok s \<Longrightarrow> now \<le> t \<Longrightarrow>
     ms_claim t (ms_prune_pending_claims now s) k = ms_claim t s k"
  unfolding ms_claim_def [of t "ms_prune_pending_claims now s"] ms_prune_claims
  by (auto simp: ms_claim_def split: option.splits)

lemma ms_clear_simps [simp]:
  "ms_sessions (ms_clear_pending_claim sid oi s) = ms_sessions s"
  "ms_session_owners (ms_clear_pending_claim sid oi s) = ms_session_owners s"
  "ms_pending_claim_ttl_seconds (ms_clear_pending_claim sid oi s) = ms_pending_claim_ttl_seconds s"
  by (simp_all add: ms_clear_pending_claim_def)

lemma ms_clear_ok: "ms_claims_ok s \<Longrightarrow> ms_claims_ok (ms_clear_pending_claim sid oi s)"
  by (auto simp: ms_clear_pending_claim_def ms_claims_ok_def delete_conv' dom_def)

lemma ms_clear_claim:
  assumes "ms_claims_ok s" and "now \<le> t"
  shows "ms_claim t (ms_clear_pending_claim sid oi s) =
    (if oi = None \<or> ms_claim now s sid = oi then (ms_claim t s)(sid := None) else ms_claim t s)"
proof -
  have dom: "map_of (ms_pending_session_claims s) sid = None \<longleftrightarrow>
      map_of (ms_pending_claim_expiries s) sid = None"
    using assms by (auto simp: ms_claims_ok_def)
  show ?thesis
    using dom assms(2) by (auto simp: ms_clear_pending_claim_def ms_claim_def fun_eq_iff map_of_ddel
        split: option.splits)
qed

lemma ms_set_pending_facts:
  assumes inv: "ms_inv now s" and s': "s' = ms_set_pending_claim now sid i s"
  shows "ms_inv now s'" and "ms_sessions s' = ms_sessions s"
    and "ms_session_owners s' = ms_session_owners s"
    and "ms_pending_claim_ttl_seconds s' = ms_pending_claim_ttl_seconds s"
    and "now \<le> t \<Longrightarrow> ms_claim t s' = (ms_claim t s)
      (sid := if t < now + ms_pending_claim_ttl_seconds s then Some i else None)"
proof -
  let ?p = "ms_prune_pending_claims now s"
  have ok: "ms_claims_ok s" using inv by (simp add: ms_inv_def)
  have okp: "ms_claims_ok ?p" by (rule ms_prune_ok [OF ok])
  have invp: "ms_inv now ?p" by (rule ms_prune_inv [OF inv])
  show "ms_sessions s' = ms_sessions s" "ms_session_owners s' = ms_session_owners s"
    "ms_pending_claim_ttl_seconds s' = ms_pending_claim_ttl_seconds s"
    by (simp_all add: s' ms_set_pending_claim_def ms_clear_pending_claim_def Let_def)
  show "ms_inv now s'"
  proof (cases "ms_pending_claim_ttl_seconds s \<le> 0")
    case True
    then have "s' = ms_clear_pending_claim sid None ?p" by (simp add: s' ms_set_pending_claim_def)
    with invp ms_clear_ok [OF okp] show ?thesis by (simp add: ms_inv_def)
  next
    case False
    with invp okp show ?thesis
      by (auto simp: s' ms_set_pending_claim_def ms_inv_def ms_claims_ok_def Let_def update_conv')
  qed
  show "ms_claim t s' = (ms_claim t s)
      (sid := if t < now + ms_pending_claim_ttl_seconds s then Some i else None)" if t: "now \<le> t"
  proof (cases "ms_pending_claim_ttl_seconds s \<le> 0")
    case True
    then have "s' = ms_clear_pending_claim sid None ?p" by (simp add: s' ms_set_pending_claim_def)
    with True okp ok t show ?thesis by (simp add: ms_clear_claim [where now = now] fun_eq_iff)
  next
    case False
    then have "ms_claim t s' k =
        (if k = sid then if t < now + ms_pending_claim_ttl_seconds s then Some i else None
         else ms_claim t ?p k)" for k
      by (simp add: s' ms_set_pending_claim_def ms_claim_def Let_def split: option.split)
    with ok t show ?thesis by (simp add: fun_eq_iff)
  qed
qed

interpretation mem: session_repository mem_session_repo_ops ms_inv ms_binding ms_owner ms_claim
  ms_pending_claim_ttl_seconds True
proof (unfold_locales, unfold mem_session_repo_ops_def session_repo.simps)
  fix now now' t :: seconds and s s' :: mem_session_repo and sid sid' i c and x oi and k
  show "ms_inv now s \<Longrightarrow> now \<le> now' \<Longrightarrow> ms_inv now' s"
    by (auto simp: ms_inv_def intro: tc_inv_later)
  show "now \<le> now' \<Longrightarrow> ms_owner now' s sid = Some i \<Longrightarrow> ms_owner now s sid = Some i"
    by (simp add: ms_owner_def tc_live_fades)
  show "now \<le> now' \<Longrightarrow> ms_claim now' s sid = Some i \<Longrightarrow> ms_claim now s sid = Some i"
    by (auto simp: ms_claim_def split: option.splits if_splits)
  show "ms_inv now s \<Longrightarrow> ms_get_session now i c s = (x, s') \<Longrightarrow>
      x = ms_binding now s (i, c) \<and> ms_inv now s' \<and> ms_binding now s' = ms_binding now s \<and>
      ms_owner now s' = ms_owner now s \<and>
      ms_pending_claim_ttl_seconds s' = ms_pending_claim_ttl_seconds s \<and>
      (now \<le> t \<longrightarrow> ms_claim t s' = ms_claim t s)"
    by (auto simp: ms_get_session_def ms_binding_def ms_owner_def ms_inv_def fun_eq_iff
        tc_get_facts [of now "ms_sessions s"] split: prod.splits)
  show "ms_inv now s \<Longrightarrow> ms_get_owner now sid s = (x, s') \<Longrightarrow>
      x = ms_owner now s sid \<and> ms_inv now s' \<and> ms_binding now s' = ms_binding now s \<and>
      ms_owner now s' = ms_owner now s \<and>
      ms_pending_claim_ttl_seconds s' = ms_pending_claim_ttl_seconds s \<and>
      (now \<le> t \<longrightarrow> ms_claim t s' = ms_claim t s)"
    by (auto simp: ms_get_owner_def ms_binding_def ms_owner_def ms_inv_def fun_eq_iff
        tc_get_facts [of now "ms_session_owners s"] split: prod.splits)
  show "ms_inv now s \<Longrightarrow> ms_get_pending_claim now sid s = (x, s') \<Longrightarrow>
      x = ms_claim now s sid \<and> ms_inv now s' \<and> ms_binding now s' = ms_binding now s \<and>
      ms_owner now s' = ms_owner now s \<and>
      ms_pending_claim_ttl_seconds s' = ms_pending_claim_ttl_seconds s \<and>
      (now \<le> t \<longrightarrow> ms_claim t s' = ms_claim t s)"
    using ms_prune_inv [of now s] ms_prune_claims(1) [of s now sid]
    by (auto simp: ms_get_pending_claim_def Let_def ms_inv_def ms_binding_def ms_owner_def fun_eq_iff)
  show "ms_inv now s \<Longrightarrow> s' = ms_set_session now i c sid s \<Longrightarrow>
      ms_inv now s' \<and> ms_owner now s' = ms_owner now s \<and>
      ms_pending_claim_ttl_seconds s' = ms_pending_claim_ttl_seconds s \<and>
      (now \<le> t \<longrightarrow> ms_claim t s' = ms_claim t s) \<and> ms_binding now s' (i, c) = Some sid \<and>
      (k \<noteq> (i, c) \<longrightarrow> ms_binding now s' k = ms_binding now s k \<or> ms_binding now s' k = None)"
    using tc_live_set_other [of now "ms_sessions s" k "(i, c)" sid]
    by (simp add: ms_set_session_def ms_binding_def ms_owner_def ms_inv_def tc_set_inv
        tc_live_set_same fun_eq_iff)
  show "ms_inv now s \<Longrightarrow> s' = ms_pop_session i c s \<Longrightarrow>
      ms_inv now s' \<and> ms_owner now s' = ms_owner now s \<and>
      ms_pending_claim_ttl_seconds s' = ms_pending_claim_ttl_seconds s \<and>
      (now \<le> t \<longrightarrow> ms_claim t s' = ms_claim t s) \<and>
      ms_binding now s' = (ms_binding now s)((i, c) := None)"
    by (simp add: ms_pop_session_def ms_binding_def ms_owner_def ms_inv_def tc_pop_inv fun_eq_iff)
  show "ms_inv now s \<Longrightarrow> s' = ms_set_owner now sid i s \<Longrightarrow>
      ms_inv now s' \<and> ms_binding now s' = ms_binding now s \<and>
      ms_pending_claim_ttl_seconds s' = ms_pending_claim_ttl_seconds s \<and>
      (now \<le> t \<longrightarrow> ms_claim t s' = ms_claim t s) \<and> ms_owner now s' sid = Some i \<and>
      (sid' \<noteq> sid \<longrightarrow> ms_owner now s' sid' = ms_owner now s sid' \<or>
         True \<and> ms_owner now s' sid' = None)"
    using tc_live_set_other [of now "ms_session_owners s" sid' sid i]
    by (simp add: ms_set_owner_def ms_binding_def ms_owner_def ms_inv_def tc_set_inv
        tc_live_set_same fun_eq_iff)
  show "ms_inv now s \<Longrightarrow> s' = ms_set_pending_claim now sid i s \<Longrightarrow>
      ms_inv now s' \<and> ms_binding now s' = ms_binding now s \<and> ms_owner now s' = ms_owner now s \<and>
      ms_pending_claim_ttl_seconds s' = ms_pending_claim_ttl_seconds s \<and>
      (now \<le> t \<longrightarrow> ms_claim t s' = (ms_claim t s)
        (sid := if t < now + ms_pending_claim_ttl_seconds s then Some i else None))"
  proof -
    assume "ms_inv now s" and "s' = ms_set_pending_claim now sid i s"
    note f = ms_set_pending_facts [OF this]
    from f(1) f(5) [of t] show ?thesis
      unfolding ms_binding_def ms_owner_def f(2,3) by (auto simp: f(4))
  qed
  show "ms_inv now s \<Longrightarrow> s' = ms_clear_pending_claim sid oi s \<Longrightarrow>
      ms_inv now s' \<and> ms_binding now s' = ms_binding now s \<and> ms_owner now s' = ms_owner now s \<and>
      ms_pending_claim_ttl_seconds s' = ms_pending_claim_ttl_seconds s \<and>
      (now \<le> t \<longrightarrow> ms_claim t s' = (if oi = None \<or> ms_claim now s sid = oi
        then (ms_claim t s)(sid := None) else ms_claim t s))"
  proof -
    assume inv: "ms_inv now s" and s': "s' = ms_clear_pending_claim sid oi s"
    have ok: "ms_claims_ok s" using inv by (simp add: ms_inv_def)
    have "ms_inv now s'" using inv ms_clear_ok [OF ok] by (simp add: ms_inv_def s')
    with ms_clear_claim [OF ok, of now t sid oi] show ?thesis
      unfolding ms_binding_def ms_owner_def s' ms_clear_simps by blast
  qed
qed

section \<open>The database repository\<close>

text \<open>
  The three tables are association lists from primary key to row. The schema is in place
  (\<open>initialize\<close> has run); each operation is one transaction.
\<close>

record pending_claim_row =
  pc_identity :: string
  pc_updated_at :: "seconds option"
  pc_expires_at :: "seconds option"

record db_session_repo =
  ds_session_bindings :: "((string \<times> string) \<times> string) list"
  ds_session_owners :: "(string \<times> string) list"
  ds_pending_session_claims :: "(string \<times> pending_claim_row) list"
  ds_pending_claim_ttl_seconds :: seconds

definition db_session_init :: "seconds \<Rightarrow> db_session_repo" where
  "db_session_init claim_ttl =
     \<lparr>ds_session_bindings = [], ds_session_owners = [], ds_pending_session_claims = [],
      ds_pending_claim_ttl_seconds = claim_ttl\<rparr>"

text \<open>
  \<open>_insert_then_update_on_conflict\<close>: insert the row; when the primary key is taken
  (\<open>IntegrityError\<close>), update the given columns of the row that is there.
\<close>

definition insert_then_update_on_conflict ::
    "'k \<Rightarrow> 'r \<Rightarrow> ('r \<Rightarrow> 'r) \<Rightarrow> ('k \<times> 'r) list \<Rightarrow> ('k \<times> 'r) list" where
  "insert_then_update_on_conflict key new_row update table =
     (case map_of table key of
        None \<Rightarrow> table @ [(key, new_row)]
      | Some row \<Rightarrow> dset key (update row) table)"

lemma map_of_upsert:
  "map_of (insert_then_update_on_conflict key r u t) k =
     (if k = key then Some (case map_of t key of None \<Rightarrow> r | Some r0 \<Rightarrow> u r0) else map_of t k)"
  by (auto simp: insert_then_update_on_conflict_def map_add_def split: option.splits)

lemma wf_upsert [simp, intro]:
  "wf_dict t \<Longrightarrow> wf_dict (insert_then_update_on_conflict key r u t)"
  by (auto simp: insert_then_update_on_conflict_def map_of_eq_None_iff split: option.splits)

definition ds_prune_expired_pending_claims :: "seconds \<Rightarrow> db_session_repo \<Rightarrow> db_session_repo" where
  "ds_prune_expired_pending_claims now s =
     (if ds_pending_claim_ttl_seconds s \<le> 0 then s\<lparr>ds_pending_session_claims := []\<rparr>
      else s\<lparr>ds_pending_session_claims :=
               filter (\<lambda>(_, row). \<not> (case pc_expires_at row of None \<Rightarrow> False | Some ex \<Rightarrow> ex \<le> now))
                 (ds_pending_session_claims s)\<rparr>)"

definition ds_get_session ::
    "seconds \<Rightarrow> string \<Rightarrow> string \<Rightarrow> db_session_repo \<Rightarrow> string option \<times> db_session_repo" where
  "ds_get_session now identity context_id s =
     (map_of (ds_session_bindings s) (identity, context_id), s)"

definition ds_set_session ::
    "seconds \<Rightarrow> string \<Rightarrow> string \<Rightarrow> string \<Rightarrow> db_session_repo \<Rightarrow> db_session_repo" where
  "ds_set_session now identity context_id session_id s =
     s\<lparr>ds_session_bindings :=
         insert_then_update_on_conflict (identity, context_id) session_id (\<lambda>_. session_id)
           (ds_session_bindings s)\<rparr>"

definition ds_pop_session :: "string \<Rightarrow> string \<Rightarrow> db_session_repo \<Rightarrow> db_session_repo" where
  "ds_pop_session identity context_id s =
     s\<lparr>ds_session_bindings := ddel (identity, context_id) (ds_session_bindings s)\<rparr>"

definition ds_get_owner ::
    "seconds \<Rightarrow> string \<Rightarrow> db_session_repo \<Rightarrow> string option \<times> db_session_repo" where
  "ds_get_owner now session_id s = (map_of (ds_session_owners s) session_id, s)"

definition ds_set_owner ::
    "seconds \<Rightarrow> string \<Rightarrow> string \<Rightarrow> db_session_repo \<Rightarrow> db_session_repo" where
  "ds_set_owner now session_id identity s =
     s\<lparr>ds_session_owners :=
         insert_then_update_on_conflict session_id identity (\<lambda>_. identity) (ds_session_owners s)\<rparr>"

definition ds_get_pending_claim ::
    "seconds \<Rightarrow> string \<Rightarrow> db_session_repo \<Rightarrow> string option \<times> db_session_repo" where
  "ds_get_pending_claim now session_id s =
     (let s' = ds_prune_expired_pending_claims now s
      in case map_of (ds_pending_session_claims s') session_id of
           None \<Rightarrow> (None, s')
         | Some row \<Rightarrow>
             if (case pc_expires_at row of None \<Rightarrow> True | Some ex \<Rightarrow> ex \<le> now)
             then (None, s'\<lparr>ds_pending_session_claims :=
                              ddel session_id (ds_pending_session_claims s')\<rparr>)
             else (Some (pc_identity row), s'))"

definition ds_set_pending_claim ::
    "seconds \<Rightarrow> string \<Rightarrow> string \<Rightarrow> db_session_repo \<Rightarrow> db_session_repo" where
  "ds_set_pending_claim now session_id identity s =
     (let s' = ds_prune_expired_pending_claims now s
      in if ds_pending_claim_ttl_seconds s' \<le> 0
         then s'\<lparr>ds_pending_session_claims := ddel session_id (ds_pending_session_claims s')\<rparr>
         else let ex = Some (now + ds_pending_claim_ttl_seconds s')
           in s'\<lparr>ds_pending_session_claims :=
                   insert_then_update_on_conflict session_id
                     \<lparr>pc_identity = identity, pc_updated_at = None, pc_expires_at = ex\<rparr>
                     (\<lambda>row. row\<lparr>pc_identity := identity, pc_expires_at := ex\<rparr>)
                     (ds_pending_session_claims s')\<rparr>)"

definition ds_clear_pending_claim ::
    "string \<Rightarrow> string option \<Rightarrow> db_session_repo \<Rightarrow> db_session_repo" where
  "ds_clear_pending_claim session_id identity s =
     s\<lparr>ds_pending_session_claims :=
         filter (\<lambda>(sid, row). \<not> (sid = session_id \<and>
             (case identity of None \<Rightarrow> True | Some i \<Rightarrow> pc_identity row = i)))
           (ds_pending_session_claims s)\<rparr>"

definition db_session_repo_ops :: "db_session_repo session_repo" where
  "db_session_repo_ops =
     \<lparr>sr_get_session = ds_get_session, sr_set_session = ds_set_session,
      sr_pop_session = ds_pop_session, sr_get_owner = ds_get_owner,
      sr_set_owner = ds_set_owner, sr_get_pending_claim = ds_get_pending_claim,
      sr_set_pending_claim = ds_set_pending_claim,
      sr_clear_pending_claim = ds_clear_pending_claim\<rparr>"

subsection \<open>Its invariant and abstraction\<close>

definition ds_inv :: "seconds \<Rightarrow> db_session_repo \<Rightarrow> bool" where
  "ds_inv now s \<longleftrightarrow> wf_dict (ds_session_bindings s) \<and> wf_dict (ds_session_owners s) \<and>
     wf_dict (ds_pending_session_claims s)"

definition ds_binding :: "seconds \<Rightarrow> db_session_repo \<Rightarrow> string \<times> string \<Rightarrow> string option" where
  "ds_binding now s = map_of (ds_session_bindings s)"

definition ds_owner :: "seconds \<Rightarrow> db_session_repo \<Rightarrow> string \<Rightarrow> string option" where
  "ds_owner now s = map_of (ds_session_owners s)"

definition live_claim :: "seconds \<Rightarrow> pending_claim_row \<Rightarrow> string option" where
  "live_claim now row =
     (case pc_expires_at row of None \<Rightarrow> None
      | Some ex \<Rightarrow> if ex \<le> now then None else Some (pc_identity row))"

definition ds_claim :: "seconds \<Rightarrow> db_session_repo \<Rightarrow> string \<Rightarrow> string option" where
  "ds_claim now s sid =
     (if ds_pending_claim_ttl_seconds s \<le> 0 then None
      else case map_of (ds_pending_session_claims s) sid of
        None \<Rightarrow> None | Some row \<Rightarrow> live_claim now row)"

lemmas db_session_views = ds_binding_def ds_owner_def

lemma ds_prune_simps [simp]:
  "ds_session_bindings (ds_prune_expired_pending_claims now s) = ds_session_bindings s"
  "ds_session_owners (ds_prune_expired_pending_claims now s) = ds_session_owners s"
  "ds_pending_claim_ttl_seconds (ds_prune_expired_pending_claims now s) =
     ds_pending_claim_ttl_seconds s"
  by (simp_all add: ds_prune_expired_pending_claims_def)

lemma ds_prune_inv: "ds_inv now s \<Longrightarrow> ds_inv now (ds_prune_expired_pending_claims now s)"
  by (auto simp: ds_inv_def ds_prune_expired_pending_claims_def)

lemma ds_prune_claim:
  "ds_inv now s \<Longrightarrow> now \<le> t \<Longrightarrow>
     ds_claim t (ds_prune_expired_pending_claims now s) = ds_claim t s"
  by (auto simp: ds_inv_def ds_claim_def ds_prune_expired_pending_claims_def fun_eq_iff
      map_of_filter_wf live_claim_def split: option.splits)

lemma ds_frame [simp]:
  "ds_claim now (s\<lparr>ds_session_bindings := b\<rparr>) = ds_claim now s"
  "ds_claim now (s\<lparr>ds_session_owners := ob\<rparr>) = ds_claim now s"
  by (simp_all add: ds_claim_def fun_eq_iff)

lemma ds_get_pending_facts:
  assumes inv: "ds_inv now s" and get: "ds_get_pending_claim now sid s = (x, s')"
  shows "x = ds_claim now s sid" and "ds_inv now s'" and "now \<le> t \<Longrightarrow> ds_claim t s' = ds_claim t s"
    and "ds_session_bindings s' = ds_session_bindings s"
    and "ds_session_owners s' = ds_session_owners s"
    and "ds_pending_claim_ttl_seconds s' = ds_pending_claim_ttl_seconds s"
proof -
  let ?p = "ds_prune_expired_pending_claims now s"
  have p: "ds_inv now ?p" "\<And>t. now \<le> t \<Longrightarrow> ds_claim t ?p = ds_claim t s"
    using inv by (simp_all add: ds_prune_inv ds_prune_claim)
  have empty: "ds_pending_claim_ttl_seconds s \<le> 0 \<Longrightarrow> ds_pending_session_claims ?p = []"
    by (simp add: ds_prune_expired_pending_claims_def)
  show "x = ds_claim now s sid"
    using get empty unfolding p(2) [OF order_refl, symmetric]
    by (auto simp: ds_get_pending_claim_def ds_claim_def live_claim_def Let_def
        split: option.splits if_splits)
  show "ds_inv now s'"
    using get p(1) by (auto simp: ds_get_pending_claim_def ds_inv_def Let_def
        split: option.splits if_splits)
  show "ds_claim t s' = ds_claim t s" if "now \<le> t"
  proof -
    have "ds_claim t s' = ds_claim t ?p"
      using get that
      by (auto simp: ds_get_pending_claim_def ds_claim_def live_claim_def Let_def fun_eq_iff map_of_ddel
          split: option.splits if_splits)
    with p(2) [OF that] show ?thesis by simp
  qed
  show "ds_session_bindings s' = ds_session_bindings s" "ds_session_owners s' = ds_session_owners s"
    "ds_pending_claim_ttl_seconds s' = ds_pending_claim_ttl_seconds s"
    using get by (auto simp: ds_get_pending_claim_def Let_def split: option.splits if_splits)
qed

lemma ds_set_pending_facts:
  assumes inv: "ds_inv now s" and s': "s' = ds_set_pending_claim now sid i s"
  shows "ds_inv now s'" and "ds_session_bindings s' = ds_session_bindings s"
    and "ds_session_owners s' = ds_session_owners s"
    and "ds_pending_claim_ttl_seconds s' = ds_pending_claim_ttl_seconds s"
    and "now \<le> t \<Longrightarrow> ds_claim t s' = (ds_claim t s)
      (sid := if t < now + ds_pending_claim_ttl_seconds s then Some i else None)"
proof -
  let ?p = "ds_prune_expired_pending_claims now s"
  have p: "ds_inv now ?p" "\<And>t. now \<le> t \<Longrightarrow> ds_claim t ?p = ds_claim t s"
    using inv by (simp_all add: ds_prune_inv ds_prune_claim)
  show "ds_inv now s'"
    using p(1) by (auto simp: s' ds_set_pending_claim_def ds_inv_def Let_def)
  show "ds_session_bindings s' = ds_session_bindings s" "ds_session_owners s' = ds_session_owners s"
    "ds_pending_claim_ttl_seconds s' = ds_pending_claim_ttl_seconds s"
    by (simp_all add: s' ds_set_pending_claim_def Let_def)
  show "ds_claim t s' = (ds_claim t s)
      (sid := if t < now + ds_pending_claim_ttl_seconds s then Some i else None)" if "now \<le> t"
    unfolding p(2) [OF that, symmetric] using that
    by (auto simp: s' ds_set_pending_claim_def ds_claim_def live_claim_def Let_def
        fun_eq_iff map_of_upsert split: option.splits)
qed

lemma ds_clear_claim:
  assumes "ds_inv now s" and "now \<le> t"
  shows "ds_claim t (ds_clear_pending_claim sid oi s) =
    (if oi = None \<or> ds_claim now s sid = oi then (ds_claim t s)(sid := None) else ds_claim t s)"
  using assms
  by (auto simp: ds_inv_def ds_clear_pending_claim_def ds_claim_def fun_eq_iff map_of_filter_wf
      live_claim_def split: option.splits if_splits)

lemma ds_clear_simps [simp]:
  "ds_session_bindings (ds_clear_pending_claim sid oi s) = ds_session_bindings s"
  "ds_session_owners (ds_clear_pending_claim sid oi s) = ds_session_owners s"
  "ds_pending_claim_ttl_seconds (ds_clear_pending_claim sid oi s) = ds_pending_claim_ttl_seconds s"
  by (simp_all add: ds_clear_pending_claim_def)

lemma ds_clear_inv: "ds_inv now s \<Longrightarrow> ds_inv now (ds_clear_pending_claim sid oi s)"
  by (auto simp: ds_inv_def ds_clear_pending_claim_def)

interpretation db: session_repository db_session_repo_ops ds_inv ds_binding ds_owner ds_claim
  ds_pending_claim_ttl_seconds False
proof (unfold_locales, unfold db_session_repo_ops_def session_repo.simps)
  fix now now' t :: seconds and s s' :: db_session_repo and sid sid' i c and x oi and k
  show "ds_inv now s \<Longrightarrow> now \<le> now' \<Longrightarrow> ds_inv now' s"
    by (simp add: ds_inv_def)
  show "now \<le> now' \<Longrightarrow> ds_owner now' s sid = Some i \<Longrightarrow> ds_owner now s sid = Some i"
    by (simp add: ds_owner_def)
  show "now \<le> now' \<Longrightarrow> ds_claim now' s sid = Some i \<Longrightarrow> ds_claim now s sid = Some i"
    by (auto simp: ds_claim_def live_claim_def split: option.splits if_splits)
  show "ds_inv now s \<Longrightarrow> ds_get_session now i c s = (x, s') \<Longrightarrow>
      x = ds_binding now s (i, c) \<and> ds_inv now s' \<and> ds_binding now s' = ds_binding now s \<and>
      ds_owner now s' = ds_owner now s \<and>
      ds_pending_claim_ttl_seconds s' = ds_pending_claim_ttl_seconds s \<and>
      (now \<le> t \<longrightarrow> ds_claim t s' = ds_claim t s)"
    by (auto simp: ds_get_session_def ds_binding_def)
  show "ds_inv now s \<Longrightarrow> ds_get_owner now sid s = (x, s') \<Longrightarrow>
      x = ds_owner now s sid \<and> ds_inv now s' \<and> ds_binding now s' = ds_binding now s \<and>
      ds_owner now s' = ds_owner now s \<and>
      ds_pending_claim_ttl_seconds s' = ds_pending_claim_ttl_seconds s \<and>
      (now \<le> t \<longrightarrow> ds_claim t s' = ds_claim t s)"
    by (auto simp: ds_get_owner_def ds_owner_def)
  show "ds_inv now s \<Longrightarrow> ds_get_pending_claim now sid s = (x, s') \<Longrightarrow>
      x = ds_claim now s sid \<and> ds_inv now s' \<and> ds_binding now s' = ds_binding now s \<and>
      ds_owner now s' = ds_owner now s \<and>
      ds_pending_claim_ttl_seconds s' = ds_pending_claim_ttl_seconds s \<and>
      (now \<le> t \<longrightarrow> ds_claim t s' = ds_claim t s)"
  proof -
    assume "ds_inv now s" and "ds_get_pending_claim now sid s = (x, s')"
    note f = ds_get_pending_facts [OF this]
    from f(2) f(3) [of t] show ?thesis unfolding db_session_views f(1,4-6) by auto
  qed
  show "ds_inv now s \<Longrightarrow> s' = ds_set_session now i c sid s \<Longrightarrow>
      ds_inv now s' \<and> ds_owner now s' = ds_owner now s \<and>
      ds_pending_claim_ttl_seconds s' = ds_pending_claim_ttl_seconds s \<and>
      (now \<le> t \<longrightarrow> ds_claim t s' = ds_claim t s) \<and> ds_binding now s' (i, c) = Some sid \<and>
      (k \<noteq> (i, c) \<longrightarrow> ds_binding now s' k = ds_binding now s k \<or> ds_binding now s' k = None)"
    by (auto simp: ds_set_session_def db_session_views ds_inv_def map_of_upsert split: option.splits)
  show "ds_inv now s \<Longrightarrow> s' = ds_pop_session i c s \<Longrightarrow>
      ds_inv now s' \<and> ds_owner now s' = ds_owner now s \<and>
      ds_pending_claim_ttl_seconds s' = ds_pending_claim_ttl_seconds s \<and>
      (now \<le> t \<longrightarrow> ds_claim t s' = ds_claim t s) \<and>
      ds_binding now s' = (ds_binding now s)((i, c) := None)"
    by (auto simp: ds_pop_session_def db_session_views ds_inv_def map_of_ddel fun_eq_iff)
  show "ds_inv now s \<Longrightarrow> s' = ds_set_owner now sid i s \<Longrightarrow>
      ds_inv now s' \<and> ds_binding now s' = ds_binding now s \<and>
      ds_pending_claim_ttl_seconds s' = ds_pending_claim_ttl_seconds s \<and>
      (now \<le> t \<longrightarrow> ds_claim t s' = ds_claim t s) \<and> ds_owner now s' sid = Some i \<and>
      (sid' \<noteq> sid \<longrightarrow> ds_owner now s' sid' = ds_owner now s sid' \<or>
         False \<and> ds_owner now s' sid' = None)"
    by (auto simp: ds_set_owner_def db_session_views ds_inv_def map_of_upsert split: option.splits)
  show "ds_inv now s \<Longrightarrow> s' = ds_set_pending_claim now sid i s \<Longrightarrow>
      ds_inv now s' \<and> ds_binding now s' = ds_binding now s \<and> ds_owner now s' = ds_owner now s \<and>
      ds_pending_claim_ttl_seconds s' = ds_pending_claim_ttl_seconds s \<and>
      (now \<le> t \<longrightarrow> ds_claim t s' = (ds_claim t s)
        (sid := if t < now + ds_pending_claim_ttl_seconds s then Some i else None))"
  proof -
    assume "ds_inv now s" and "s' = ds_set_pending_claim now sid i s"
    note f = ds_set_pending_facts [OF this]
    from f(1) f(5) [of t] show ?thesis
      unfolding ds_binding_def ds_owner_def f(2,3) by (auto simp: f(4))
  qed
  show "ds_inv now s \<Longrightarrow> s' = ds_clear_pending_claim sid oi s \<Longrightarrow>
      ds_inv now s' \<and> ds_binding now s' = ds_binding now s \<and> ds_owner now s' = ds_owner now s \<and>
      ds_pending_claim_ttl_seconds s' = ds_pending_claim_ttl_seconds s \<and>
      (now \<le> t \<longrightarrow> ds_claim t s' = (if oi = None \<or> ds_claim now s sid = oi
        then (ds_claim t s)(sid := None) else ds_claim t s))"
  proof -
    assume inv: "ds_inv now s" and s': "s' = ds_clear_pending_claim sid oi s"
    from ds_clear_claim [OF inv, of t sid oi] ds_clear_inv [OF inv, of sid oi] show ?thesis
      unfolding db_session_views s' ds_clear_simps by blast
  qed
qed

interpretation dbd: durable_session_repository db_session_repo_ops ds_inv ds_binding ds_owner
  ds_claim ds_pending_claim_ttl_seconds False
  by unfold_locales (simp_all add: ds_owner_def)

lemma ms_init_inv:
  "0 < ttl \<Longrightarrow> 0 < maxsize \<Longrightarrow> ms_inv now (mem_session_init ttl maxsize claim_ttl)"
  by (simp add: ms_inv_def mem_session_init_def tc_init_inv ms_claims_ok_def)
    (simp add: ttl_cache_init_def tc_disabled_def)

lemma ds_init_inv: "ds_inv now (db_session_init claim_ttl)"
  by (simp add: ds_inv_def db_session_init_def)

end
