(* ===== verification/Interrupt_Store.thy ===== *)
theory Interrupt_Store
  imports Session_Repository Py_Json
begin

text \<open>
  The repository of interrupt requests (\<open>InterruptRequestRepository\<close> of
  \<open>server/state_store.py\<close>): permission and question requests of the upstream that wait for
  an answer of the client. The abstract class is a record of operations, its contract a
  locale, and the in-memory and the database implementation are shown to satisfy it. What
  the contract fixes is which request is active at which time; whether a request that is not
  active is answered as expired or as missing depends on when each implementation prunes.
\<close>

section \<open>Requests and bindings\<close>

record interrupt_request =
  ir_request_id :: string
  ir_session_id :: string
  ir_interrupt_type :: string
  ir_identity :: "string option"
  ir_credential_id :: "string option"
  ir_task_id :: "string option"
  ir_context_id :: "string option"
  ir_details :: "mapping option"

text \<open>\<open>InterruptRequestBinding\<close>: a request with the time it expires.\<close>

record interrupt_binding = interrupt_request +
  ib_expires_at :: seconds

record interrupt_tombstone =
  it_request_id :: string
  it_expires_at :: seconds

definition bind_request :: "interrupt_request \<Rightarrow> seconds \<Rightarrow> interrupt_binding" where
  "bind_request q expires_at = interrupt_request.extend q \<lparr>ib_expires_at = expires_at\<rparr>"

text \<open>The pair of a status and an optional binding that \<open>resolve\<close> returns.\<close>

datatype interrupt_lookup = Active interrupt_binding | Expired | Missing

record 's interrupt_repo =
  ip_remember :: "seconds \<Rightarrow> interrupt_request \<Rightarrow> seconds option \<Rightarrow> 's \<Rightarrow> 's"
  ip_resolve :: "seconds \<Rightarrow> string \<Rightarrow> 's \<Rightarrow> interrupt_lookup \<times> 's"
  ip_discard :: "string \<Rightarrow> 's \<Rightarrow> 's"
  ip_list_pending :: "seconds \<Rightarrow> string \<Rightarrow> string option \<Rightarrow> 's \<Rightarrow> interrupt_binding list \<times> 's"

section \<open>The contract\<close>

definition pending_key :: "interrupt_binding \<Rightarrow> seconds \<times> string" where
  "pending_key b = (ib_expires_at b, ir_request_id b)"

definition pending_for :: "string \<Rightarrow> string option \<Rightarrow> interrupt_binding \<Rightarrow> bool" where
  "pending_for identity kind b \<longleftrightarrow> ir_identity b = Some identity \<and>
     (case kind of None \<Rightarrow> True | Some k \<Rightarrow> ir_interrupt_type b = strip k)"

text \<open>
  \<open>active t s\<close> is what is active at time \<open>t\<close> if nothing is done until then, and \<open>norm\<close> what a
  repository makes of a request it stores (it touches at most the details).
\<close>

locale interrupt_repository =
  fixes R :: "'s interrupt_repo"
    and inv :: "'s \<Rightarrow> bool"
    and active :: "seconds \<Rightarrow> 's \<Rightarrow> string \<Rightarrow> interrupt_binding option"
    and request_ttl :: "'s \<Rightarrow> seconds"
    and norm :: "interrupt_request \<Rightarrow> interrupt_request"
  assumes active_fades: "now \<le> t \<Longrightarrow> active t s rid = Some b \<Longrightarrow> active now s rid = Some b"
    and active_key: "inv s \<Longrightarrow> active t s rid = Some b \<Longrightarrow> ir_request_id b = rid"
    and active_live: "active t s rid = Some b \<Longrightarrow> t < ib_expires_at b"
    and norm_keeps: "(norm q)\<lparr>ir_details := None\<rparr> = q\<lparr>ir_details := None\<rparr>"
    and remember: "inv s \<Longrightarrow> s' = ip_remember R now q ttl s \<Longrightarrow>
      inv s' \<and> request_ttl s' = request_ttl s \<and>
      (let e = now + max 0 (case ttl of None \<Rightarrow> request_ttl s | Some x \<Rightarrow> x)
       in now \<le> t \<longrightarrow> active t s' = (active t s)
            (ir_request_id q := if e \<le> t then None else Some (bind_request (norm q) e)))"
    and resolve: "inv s \<Longrightarrow> ip_resolve R now rid s = (x, s') \<Longrightarrow>
      inv s' \<and> request_ttl s' = request_ttl s \<and> (now \<le> t \<longrightarrow> active t s' = active t s) \<and>
      (x = Active b \<longleftrightarrow> rid \<noteq> [] \<and> active now s rid = Some b)"
    and discard: "inv s \<Longrightarrow> s' = ip_discard R rid s \<Longrightarrow>
      inv s' \<and> request_ttl s' = request_ttl s \<and> active t s' = (active t s)(rid := None)"
    and list_pending: "inv s \<Longrightarrow> ip_list_pending R now i kind s = (l, s') \<Longrightarrow>
      inv s' \<and> request_ttl s' = request_ttl s \<and> (now \<le> t \<longrightarrow> active t s' = active t s) \<and>
      (b \<in> set l \<longleftrightarrow> pending_for i kind b \<and> active now s (ir_request_id b) = Some b) \<and>
      sorted (map pending_key l) \<and> distinct (map ir_request_id l)"

section \<open>The in-memory repository\<close>

record mem_interrupt_repo =
  mi_request_ttl_seconds :: seconds
  mi_tombstone_ttl_seconds :: seconds
  mi_interrupt_requests :: "(string \<times> interrupt_binding) list"
  mi_interrupt_request_tombstones :: "(string \<times> interrupt_tombstone) list"

definition mem_interrupt_init :: "seconds \<Rightarrow> seconds \<Rightarrow> mem_interrupt_repo" where
  "mem_interrupt_init request_ttl tombstone_ttl =
     \<lparr>mi_request_ttl_seconds = request_ttl, mi_tombstone_ttl_seconds = tombstone_ttl,
      mi_interrupt_requests = [], mi_interrupt_request_tombstones = []\<rparr>"

definition mi_remember_tombstone ::
    "string \<Rightarrow> seconds \<Rightarrow> mem_interrupt_repo \<Rightarrow> mem_interrupt_repo" where
  "mi_remember_tombstone request_id now s =
     (let ttl = mi_tombstone_ttl_seconds s
      in if ttl \<le> 0
         then s\<lparr>mi_interrupt_request_tombstones :=
                  ddel request_id (mi_interrupt_request_tombstones s)\<rparr>
         else s\<lparr>mi_interrupt_request_tombstones :=
                  dset request_id \<lparr>it_request_id = request_id, it_expires_at = now + ttl\<rparr>
                    (mi_interrupt_request_tombstones s)\<rparr>)"

definition mi_prune_requests :: "seconds \<Rightarrow> mem_interrupt_repo \<Rightarrow> mem_interrupt_repo" where
  "mi_prune_requests now s =
     (let expired = map fst (filter (\<lambda>(_, b). ib_expires_at b \<le> now) (mi_interrupt_requests s))
      in fold (\<lambda>rid s. mi_remember_tombstone rid now
                 (s\<lparr>mi_interrupt_requests := ddel rid (mi_interrupt_requests s)\<rparr>)) expired s)"

definition mi_prune_tombstones :: "seconds \<Rightarrow> mem_interrupt_repo \<Rightarrow> mem_interrupt_repo" where
  "mi_prune_tombstones now s =
     (let expired = map fst (filter (\<lambda>(_, tb). it_expires_at tb \<le> now)
                               (mi_interrupt_request_tombstones s))
      in s\<lparr>mi_interrupt_request_tombstones :=
             ddel_all expired (mi_interrupt_request_tombstones s)\<rparr>)"

definition mi_remember ::
    "seconds \<Rightarrow> interrupt_request \<Rightarrow> seconds option \<Rightarrow> mem_interrupt_repo \<Rightarrow> mem_interrupt_repo"
  where
  "mi_remember now q ttl_seconds s =
     (let s1 = mi_prune_tombstones now (mi_prune_requests now s);
          ttl = (case ttl_seconds of None \<Rightarrow> mi_request_ttl_seconds s1 | Some x \<Rightarrow> x)
      in s1\<lparr>mi_interrupt_requests :=
              dset (ir_request_id q) (bind_request q (now + max 0 ttl)) (mi_interrupt_requests s1),
            mi_interrupt_request_tombstones :=
              ddel (ir_request_id q) (mi_interrupt_request_tombstones s1)\<rparr>)"

definition mi_resolve ::
    "seconds \<Rightarrow> string \<Rightarrow> mem_interrupt_repo \<Rightarrow> interrupt_lookup \<times> mem_interrupt_repo" where
  "mi_resolve now request_id s =
     (if request_id = [] then (Missing, s)
      else let s1 = mi_prune_tombstones now s
      in case map_of (mi_interrupt_requests s1) request_id of
           None \<Rightarrow>
             (if map_of (mi_interrupt_request_tombstones s1) request_id \<noteq> None
              then (Expired, s1) else (Missing, s1))
         | Some b \<Rightarrow>
             if ib_expires_at b \<le> now
             then (Expired,
                   mi_remember_tombstone request_id now
                     (mi_prune_requests now
                        (s1\<lparr>mi_interrupt_requests := ddel request_id (mi_interrupt_requests s1)\<rparr>)))
             else (Active b, mi_prune_requests now s1))"

definition mi_discard :: "string \<Rightarrow> mem_interrupt_repo \<Rightarrow> mem_interrupt_repo" where
  "mi_discard request_id s =
     s\<lparr>mi_interrupt_requests := ddel request_id (mi_interrupt_requests s),
       mi_interrupt_request_tombstones := ddel request_id (mi_interrupt_request_tombstones s)\<rparr>"

definition mi_list_pending ::
    "seconds \<Rightarrow> string \<Rightarrow> string option \<Rightarrow> mem_interrupt_repo
       \<Rightarrow> interrupt_binding list \<times> mem_interrupt_repo" where
  "mi_list_pending now identity interrupt_type s =
     (let s1 = mi_prune_tombstones now (mi_prune_requests now s);
          items = filter (\<lambda>b. ir_identity b = Some identity \<and>
                      (case map_option strip interrupt_type of
                         None \<Rightarrow> True | Some k \<Rightarrow> ir_interrupt_type b = k) \<and>
                      now < ib_expires_at b)
                    (map snd (mi_interrupt_requests s1))
      in (sort_key (\<lambda>b. (ib_expires_at b, ir_request_id b)) items, s1))"

definition mem_interrupt_repo_ops :: "mem_interrupt_repo interrupt_repo" where
  "mem_interrupt_repo_ops =
     \<lparr>ip_remember = mi_remember, ip_resolve = mi_resolve, ip_discard = mi_discard,
      ip_list_pending = mi_list_pending\<rparr>"

subsection \<open>Its invariant and abstraction\<close>

definition mi_inv :: "mem_interrupt_repo \<Rightarrow> bool" where
  "mi_inv s \<longleftrightarrow> wf_dict (mi_interrupt_requests s) \<and>
     (\<forall>(k, b) \<in> set (mi_interrupt_requests s). ir_request_id b = k)"

definition mi_active :: "seconds \<Rightarrow> mem_interrupt_repo \<Rightarrow> string \<Rightarrow> interrupt_binding option" where
  "mi_active t s rid =
     (case map_of (mi_interrupt_requests s) rid of
        None \<Rightarrow> None
      | Some b \<Rightarrow> if ib_expires_at b \<le> t then None else Some b)"

lemma bind_request_simps [simp]:
  "ir_request_id (bind_request q e) = ir_request_id q"
  "ir_identity (bind_request q e) = ir_identity q"
  "ir_interrupt_type (bind_request q e) = ir_interrupt_type q"
  "ib_expires_at (bind_request q e) = e"
  by (simp_all add: bind_request_def interrupt_request.defs)

lemma mi_tombstone_simps [simp]:
  "mi_interrupt_requests (mi_remember_tombstone rid now s) = mi_interrupt_requests s"
  "mi_request_ttl_seconds (mi_remember_tombstone rid now s) = mi_request_ttl_seconds s"
  "mi_interrupt_requests (mi_prune_tombstones now s) = mi_interrupt_requests s"
  "mi_request_ttl_seconds (mi_prune_tombstones now s) = mi_request_ttl_seconds s"
  by (simp_all add: mi_remember_tombstone_def mi_prune_tombstones_def Let_def)

lemma mi_prune_fold:
  "mi_interrupt_requests (fold (\<lambda>rid s. mi_remember_tombstone rid now
      (s\<lparr>mi_interrupt_requests := ddel rid (mi_interrupt_requests s)\<rparr>)) ks s) =
   ddel_all ks (mi_interrupt_requests s)"
  "mi_request_ttl_seconds (fold (\<lambda>rid s. mi_remember_tombstone rid now
      (s\<lparr>mi_interrupt_requests := ddel rid (mi_interrupt_requests s)\<rparr>)) ks s) =
   mi_request_ttl_seconds s"
  by (induction ks arbitrary: s) (simp_all add: ddel_all_def mi_remember_tombstone_def Let_def)

lemma mi_prune_requests_simps:
  "wf_dict (mi_interrupt_requests s) \<Longrightarrow> mi_interrupt_requests (mi_prune_requests now s) =
     filter (\<lambda>(_, b). now < ib_expires_at b) (mi_interrupt_requests s)"
  "mi_request_ttl_seconds (mi_prune_requests now s) = mi_request_ttl_seconds s"
  by (simp_all add: mi_prune_requests_def Let_def mi_prune_fold ddel_all_filtered not_le)

lemma mi_prune:
  assumes "mi_inv s"
  shows "mi_inv (mi_prune_requests now s)"
    and "now \<le> t \<Longrightarrow> mi_active t (mi_prune_requests now s) = mi_active t s"
  using assms
  by (auto simp: mi_inv_def mi_prune_requests_simps mi_active_def fun_eq_iff map_of_filter_wf
      split: option.splits)

lemma mi_frame [simp]:
  "mi_inv (mi_prune_tombstones now s) = mi_inv s"
  "mi_inv (mi_remember_tombstone rid now s) = mi_inv s"
  "mi_active t (mi_prune_tombstones now s) = mi_active t s"
  "mi_active t (mi_remember_tombstone rid now s) = mi_active t s"
  by (simp_all add: mi_inv_def mi_active_def fun_eq_iff)

lemma mi_inv_ddel:
  "mi_inv s \<Longrightarrow> mi_inv (s\<lparr>mi_interrupt_requests := ddel rid (mi_interrupt_requests s)\<rparr>)"
  using ddel_keeps_set [of rid "mi_interrupt_requests s"] by (auto simp: mi_inv_def)

lemma mi_remember_facts:
  assumes inv: "mi_inv s" and s': "s' = mi_remember now q ttl s"
  shows "mi_inv s'" and "mi_request_ttl_seconds s' = mi_request_ttl_seconds s"
    and "now \<le> t \<Longrightarrow>
      e = now + max 0 (case ttl of None \<Rightarrow> mi_request_ttl_seconds s | Some x \<Rightarrow> x) \<Longrightarrow>
      mi_active t s' = (mi_active t s)
        (ir_request_id q := if e \<le> t then None else Some (bind_request q e))"
proof -
  let ?p = "mi_prune_tombstones now (mi_prune_requests now s)"
  have p: "mi_inv ?p" "mi_request_ttl_seconds ?p = mi_request_ttl_seconds s"
    "\<And>t. now \<le> t \<Longrightarrow> mi_active t ?p = mi_active t s"
    using mi_prune [OF inv] by (simp_all add: mi_prune_requests_simps)
  show "mi_inv s'"
    using p(1) set_dset
    by (fastforce simp: s' mi_remember_def Let_def mi_inv_def simp del: mi_tombstone_simps)
  show "mi_request_ttl_seconds s' = mi_request_ttl_seconds s"
    by (simp add: s' mi_remember_def Let_def mi_prune_requests_simps)
  show "mi_active t s' = (mi_active t s)
        (ir_request_id q := if e \<le> t then None else Some (bind_request q e))"
    if "now \<le> t" and "e = now + max 0 (case ttl of None \<Rightarrow> mi_request_ttl_seconds s | Some x \<Rightarrow> x)"
    unfolding p(3) [OF that(1), symmetric] that(2) p(2) [symmetric]
    by (auto simp: s' mi_remember_def Let_def mi_active_def fun_eq_iff split: option.splits)
qed

lemma mi_resolve_facts:
  assumes inv: "mi_inv s" and run: "mi_resolve now rid s = (x, s')"
  shows "mi_inv s'" and "mi_request_ttl_seconds s' = mi_request_ttl_seconds s"
    and "now \<le> t \<Longrightarrow> mi_active t s' = mi_active t s"
    and "x = Active b \<longleftrightarrow> rid \<noteq> [] \<and> mi_active now s rid = Some b"
proof -
  have wf: "wf_dict (mi_interrupt_requests s)" using inv by (simp add: mi_inv_def)
  have "mi_inv (mi_prune_tombstones now s
      \<lparr>mi_interrupt_requests := ddel rid (mi_interrupt_requests s)\<rparr>)"
    using mi_inv_ddel [of "mi_prune_tombstones now s" rid] inv by simp
  note prune = mi_prune(1) [OF this] mi_prune(1) [of "mi_prune_tombstones now s"]
    mi_prune_requests_simps(2) inv
  show "mi_inv s'" "mi_request_ttl_seconds s' = mi_request_ttl_seconds s"
    using run prune by (auto simp: mi_resolve_def Let_def split: option.splits if_splits)
  show "x = Active b \<longleftrightarrow> rid \<noteq> [] \<and> mi_active now s rid = Some b"
    using run by (auto simp: mi_resolve_def mi_active_def Let_def split: option.splits if_splits)
  have ddel: "mi_active t (mi_prune_tombstones now s
        \<lparr>mi_interrupt_requests := ddel rid (mi_interrupt_requests s)\<rparr>) = mi_active t s"
    if "now \<le> t" and "map_of (mi_interrupt_requests s) rid = Some b0" and "ib_expires_at b0 \<le> now" for b0 t
    using that by (auto simp: mi_active_def fun_eq_iff map_of_ddel split: option.splits)
  have inv': "mi_inv (mi_prune_tombstones now s
        \<lparr>mi_interrupt_requests := ddel rid (mi_interrupt_requests s)\<rparr>)"
    using mi_inv_ddel [of "mi_prune_tombstones now s" rid] inv by simp
  show "mi_active t s' = mi_active t s" if "now \<le> t"
    using run that mi_prune(2) [OF inv'] mi_prune(2) [of "mi_prune_tombstones now s"] inv ddel
    by (auto simp: mi_resolve_def Let_def split: option.splits if_splits)
qed

lemma mi_discard_facts:
  "mi_inv s \<Longrightarrow> mi_inv (mi_discard rid s)"
  "mi_request_ttl_seconds (mi_discard rid s) = mi_request_ttl_seconds s"
  "mi_active t (mi_discard rid s) = (mi_active t s)(rid := None)"
  using ddel_keeps_set [of rid "mi_interrupt_requests s"]
  by (auto simp: mi_discard_def mi_inv_def mi_active_def fun_eq_iff map_of_ddel split: option.splits)

lemma mi_list_facts:
  assumes inv: "mi_inv s" and run: "mi_list_pending now i kind s = (l, s')"
  shows "mi_inv s'" and "mi_request_ttl_seconds s' = mi_request_ttl_seconds s"
    and "now \<le> t \<Longrightarrow> mi_active t s' = mi_active t s"
    and "b \<in> set l \<longleftrightarrow> pending_for i kind b \<and> mi_active now s (ir_request_id b) = Some b"
    and "sorted (map pending_key l)" and "distinct (map ir_request_id l)"
proof -
  let ?p = "mi_prune_requests now s"
  note p = mi_prune [OF inv, of now]
  have s': "s' = mi_prune_tombstones now ?p" using run by (simp add: mi_list_pending_def Let_def)
  show "mi_inv s'" "mi_request_ttl_seconds s' = mi_request_ttl_seconds s"
    "now \<le> t \<Longrightarrow> mi_active t s' = mi_active t s"
    using p by (simp_all add: s' mi_prune_requests_simps(2))
  have wf: "wf_dict (mi_interrupt_requests s)" using inv by (simp add: mi_inv_def)
  have reqs: "mi_interrupt_requests s' = filter (\<lambda>(_, b). now < ib_expires_at b) (mi_interrupt_requests s)"
    by (simp add: s' mi_prune_requests_simps(1) [OF wf])
  have ids: "map fst (mi_interrupt_requests s') = map ir_request_id (map snd (mi_interrupt_requests s'))"
    using inv by (auto simp: reqs mi_inv_def)
  have mem: "b \<in> set (map snd (mi_interrupt_requests s')) \<longleftrightarrow>
      mi_active now s (ir_request_id b) = Some b" for b
  proof -
    have "b \<in> set (map snd (mi_interrupt_requests s')) \<longleftrightarrow>
        (ir_request_id b, b) \<in> set (mi_interrupt_requests s) \<and> now < ib_expires_at b"
      using inv by (force simp: reqs mi_inv_def)
    then show ?thesis
      by (auto simp: mi_active_def map_of_eq_Some_iff [OF wf] simp flip: map_of_eq_Some_iff [OF wf]
          split: option.splits if_splits)
  qed
  define items where "items = filter (\<lambda>b. ir_identity b = Some i \<and>
      (case map_option strip kind of None \<Rightarrow> True | Some k \<Rightarrow> ir_interrupt_type b = k) \<and>
      now < ib_expires_at b) (map snd (mi_interrupt_requests s'))"
  have l: "l = sort_key (\<lambda>b. (ib_expires_at b, ir_request_id b)) items"
    using run by (auto simp: mi_list_pending_def Let_def items_def)
  show "b \<in> set l \<longleftrightarrow> pending_for i kind b \<and> mi_active now s (ir_request_id b) = Some b"
    using mem [of b]
    by (auto simp: l items_def pending_for_def mi_active_def split: option.splits if_splits)
  show "sorted (map pending_key l)" by (simp add: l pending_key_def [abs_def])
  have "distinct (map ir_request_id (map snd (mi_interrupt_requests s')))"
    unfolding ids [symmetric] by (subst reqs) (simp add: wf)
  then have "distinct (map ir_request_id items)"
    by (simp add: items_def distinct_map_filter del: map_map)
  then show "distinct (map ir_request_id l)" by (simp add: l distinct_sort_key)
qed

interpretation mem_int: interrupt_repository mem_interrupt_repo_ops mi_inv mi_active
  mi_request_ttl_seconds "\<lambda>q. q"
proof (unfold_locales, unfold mem_interrupt_repo_ops_def interrupt_repo.simps)
  fix now t :: seconds and s s' :: mem_interrupt_repo and rid i and b and q and ttl kind and x and l
  show "now \<le> t \<Longrightarrow> mi_active t s rid = Some b \<Longrightarrow> mi_active now s rid = Some b"
    by (auto simp: mi_active_def split: option.splits if_splits)
  show "mi_inv s \<Longrightarrow> mi_active t s rid = Some b \<Longrightarrow> ir_request_id b = rid"
    by (auto simp: mi_active_def mi_inv_def split: option.splits if_splits dest!: map_of_SomeD)
  show "mi_active t s rid = Some b \<Longrightarrow> t < ib_expires_at b"
    by (auto simp: mi_active_def split: option.splits if_splits)
  show "q\<lparr>ir_details := None\<rparr> = q\<lparr>ir_details := None\<rparr>" for q :: interrupt_request ..
  show "mi_inv s \<Longrightarrow> s' = mi_remember now q ttl s \<Longrightarrow>
      mi_inv s' \<and> mi_request_ttl_seconds s' = mi_request_ttl_seconds s \<and>
      (let e = now + max 0 (case ttl of None \<Rightarrow> mi_request_ttl_seconds s | Some x \<Rightarrow> x)
       in now \<le> t \<longrightarrow> mi_active t s' = (mi_active t s)
            (ir_request_id q := if e \<le> t then None else Some (bind_request q e)))"
    unfolding Let_def using mi_remember_facts(1,2) [of s s' now q ttl]
      mi_remember_facts(3) [of s s' now q ttl t, OF _ _ _ refl] by blast
  show "mi_inv s \<Longrightarrow> mi_resolve now rid s = (x, s') \<Longrightarrow>
      mi_inv s' \<and> mi_request_ttl_seconds s' = mi_request_ttl_seconds s \<and>
      (now \<le> t \<longrightarrow> mi_active t s' = mi_active t s) \<and>
      (x = Active b \<longleftrightarrow> rid \<noteq> [] \<and> mi_active now s rid = Some b)"
    using mi_resolve_facts [of s now rid x s'] by blast
  show "mi_inv s \<Longrightarrow> s' = mi_discard rid s \<Longrightarrow>
      mi_inv s' \<and> mi_request_ttl_seconds s' = mi_request_ttl_seconds s \<and>
      mi_active t s' = (mi_active t s)(rid := None)"
    by (simp add: mi_discard_facts)
  show "mi_inv s \<Longrightarrow> mi_list_pending now i kind s = (l, s') \<Longrightarrow>
      mi_inv s' \<and> mi_request_ttl_seconds s' = mi_request_ttl_seconds s \<and>
      (now \<le> t \<longrightarrow> mi_active t s' = mi_active t s) \<and>
      (b \<in> set l \<longleftrightarrow> pending_for i kind b \<and> mi_active now s (ir_request_id b) = Some b) \<and>
      sorted (map pending_key l) \<and> distinct (map ir_request_id l)"
    using mi_list_facts [of s now i kind l s'] by blast
qed

section \<open>The database repository\<close>

text \<open>
  One table from \<open>request_id\<close> to its row. A row with a tombstone time stands for a request
  whose expiry was noticed; its other columns are null then.
\<close>

record interrupt_row =
  iw_session_id :: "string option"
  iw_interrupt_type :: "string option"
  iw_identity :: "string option"
  iw_credential_id :: "string option"
  iw_task_id :: "string option"
  iw_context_id :: "string option"
  iw_details_json :: "string option"
  iw_expires_at :: "seconds option"
  iw_tombstone_expires_at :: "seconds option"

record db_interrupt_repo =
  di_request_ttl_seconds :: seconds
  di_tombstone_ttl_seconds :: seconds
  di_interrupt_requests :: "(string \<times> interrupt_row) list"

definition db_interrupt_init :: "seconds \<Rightarrow> seconds \<Rightarrow> db_interrupt_repo" where
  "db_interrupt_init request_ttl tombstone_ttl =
     \<lparr>di_request_ttl_seconds = request_ttl, di_tombstone_ttl_seconds = tombstone_ttl,
      di_interrupt_requests = []\<rparr>"

definition encode_details :: "(rat \<Rightarrow> string) \<Rightarrow> mapping option \<Rightarrow> string option" where
  "encode_details float_repr details =
     map_option (\<lambda>d. json_dumps float_repr False True (PDict d)) details"

definition decode_details :: "string option \<Rightarrow> mapping option" where
  "decode_details value =
     (case value of
        None \<Rightarrow> None
      | Some v \<Rightarrow> if v = [] then None
                  else (case json_loads v of None \<Rightarrow> None | Some decoded \<Rightarrow> as_mapping decoded))"

text \<open>
  The binding a row stands for; the two columns a binding always has are null only in a row
  without an expiry time, for which no binding is built.
\<close>

definition binding_of_row :: "string \<Rightarrow> interrupt_row \<Rightarrow> seconds \<Rightarrow> interrupt_binding" where
  "binding_of_row request_id row expires_at =
     \<lparr>ir_request_id = request_id, ir_session_id = the (iw_session_id row),
      ir_interrupt_type = the (iw_interrupt_type row), ir_identity = iw_identity row,
      ir_credential_id = iw_credential_id row, ir_task_id = iw_task_id row,
      ir_context_id = iw_context_id row, ir_details = decode_details (iw_details_json row),
      ib_expires_at = expires_at\<rparr>"

definition di_prune_tombstones :: "seconds \<Rightarrow> db_interrupt_repo \<Rightarrow> db_interrupt_repo" where
  "di_prune_tombstones now s =
     s\<lparr>di_interrupt_requests :=
         filter (\<lambda>(_, row). \<not> (case iw_tombstone_expires_at row of
                                   None \<Rightarrow> False | Some ex \<Rightarrow> ex \<le> now))
           (di_interrupt_requests s)\<rparr>"

definition di_set_tombstone :: "string \<Rightarrow> seconds \<Rightarrow> db_interrupt_repo \<Rightarrow> db_interrupt_repo" where
  "di_set_tombstone request_id now s =
     (let tombstone = (if di_tombstone_ttl_seconds s \<le> 0 then None
                       else Some (now + di_tombstone_ttl_seconds s))
      in s\<lparr>di_interrupt_requests :=
             map (\<lambda>(rid, row). (rid, if rid = request_id
                    then \<lparr>iw_session_id = None, iw_interrupt_type = None, iw_identity = None,
                          iw_credential_id = None, iw_task_id = None, iw_context_id = None,
                          iw_details_json = None, iw_expires_at = None,
                          iw_tombstone_expires_at = tombstone\<rparr>
                    else row))
               (di_interrupt_requests s)\<rparr>)"

definition di_remember ::
    "(rat \<Rightarrow> string) \<Rightarrow> seconds \<Rightarrow> interrupt_request \<Rightarrow> seconds option \<Rightarrow> db_interrupt_repo
       \<Rightarrow> db_interrupt_repo" where
  "di_remember float_repr now q ttl_seconds s =
     (let ttl = (case ttl_seconds of None \<Rightarrow> di_request_ttl_seconds s | Some x \<Rightarrow> x);
          expires_at = now + max 0 ttl;
          s1 = di_prune_tombstones now s;
          row = \<lparr>iw_session_id = Some (ir_session_id q),
                 iw_interrupt_type = Some (ir_interrupt_type q), iw_identity = ir_identity q,
                 iw_credential_id = ir_credential_id q, iw_task_id = ir_task_id q,
                 iw_context_id = ir_context_id q,
                 iw_details_json = encode_details float_repr (ir_details q),
                 iw_expires_at = Some expires_at, iw_tombstone_expires_at = None\<rparr>
      in s1\<lparr>di_interrupt_requests :=
              insert_then_update_on_conflict (ir_request_id q) row (\<lambda>_. row)
                (di_interrupt_requests s1)\<rparr>)"

definition di_resolve ::
    "seconds \<Rightarrow> string \<Rightarrow> db_interrupt_repo \<Rightarrow> interrupt_lookup \<times> db_interrupt_repo" where
  "di_resolve now request_id s =
     (if request_id = [] then (Missing, s)
      else let s1 = di_prune_tombstones now s
      in case map_of (di_interrupt_requests s1) request_id of
           None \<Rightarrow> (Missing, s1)
         | Some row \<Rightarrow>
             if (case iw_tombstone_expires_at row of None \<Rightarrow> False | Some ex \<Rightarrow> now < ex)
             then (Expired, s1)
             else case iw_expires_at row of
               None \<Rightarrow> (Missing, s1)
             | Some expires_at \<Rightarrow>
                 if expires_at \<le> now then (Expired, di_set_tombstone request_id now s1)
                 else (Active (binding_of_row request_id row expires_at), s1))"

definition di_discard :: "string \<Rightarrow> db_interrupt_repo \<Rightarrow> db_interrupt_repo" where
  "di_discard request_id s =
     s\<lparr>di_interrupt_requests := ddel request_id (di_interrupt_requests s)\<rparr>"

definition di_list_pending ::
    "seconds \<Rightarrow> string \<Rightarrow> string option \<Rightarrow> db_interrupt_repo
       \<Rightarrow> interrupt_binding list \<times> db_interrupt_repo" where
  "di_list_pending now identity interrupt_type s =
     (let s1 = di_prune_tombstones now s;
          rows = filter (\<lambda>(_, row). iw_identity row = Some identity \<and>
                     (case iw_expires_at row of None \<Rightarrow> False | Some ex \<Rightarrow> now < ex) \<and>
                     (case map_option strip interrupt_type of
                        None \<Rightarrow> True | Some k \<Rightarrow> iw_interrupt_type row = Some k))
                   (di_interrupt_requests s1);
          ordered = sort_key (\<lambda>(rid, row). (the (iw_expires_at row), rid)) rows
      in (map (\<lambda>(rid, row). binding_of_row rid row (the (iw_expires_at row))) ordered, s1))"

definition db_interrupt_repo_ops :: "(rat \<Rightarrow> string) \<Rightarrow> db_interrupt_repo interrupt_repo" where
  "db_interrupt_repo_ops float_repr =
     \<lparr>ip_remember = di_remember float_repr, ip_resolve = di_resolve, ip_discard = di_discard,
      ip_list_pending = di_list_pending\<rparr>"

subsection \<open>Its invariant and abstraction\<close>

definition row_ok :: "interrupt_row \<Rightarrow> bool" where
  "row_ok row \<longleftrightarrow>
     (iw_expires_at row \<noteq> None \<longrightarrow> iw_tombstone_expires_at row = None \<and>
        iw_session_id row \<noteq> None \<and> iw_interrupt_type row \<noteq> None)"

definition di_inv :: "db_interrupt_repo \<Rightarrow> bool" where
  "di_inv s \<longleftrightarrow> wf_dict (di_interrupt_requests s) \<and>
     (\<forall>(_, row) \<in> set (di_interrupt_requests s). row_ok row)"

definition di_active :: "seconds \<Rightarrow> db_interrupt_repo \<Rightarrow> string \<Rightarrow> interrupt_binding option" where
  "di_active t s rid =
     (case map_of (di_interrupt_requests s) rid of
        None \<Rightarrow> None
      | Some row \<Rightarrow>
          (case iw_expires_at row of
             None \<Rightarrow> None
           | Some ex \<Rightarrow> if ex \<le> t then None else Some (binding_of_row rid row ex)))"

definition stored_details :: "(rat \<Rightarrow> string) \<Rightarrow> interrupt_request \<Rightarrow> interrupt_request" where
  "stored_details float_repr q =
     q\<lparr>ir_details := decode_details (encode_details float_repr (ir_details q))\<rparr>"

lemma binding_of_row_id [simp]:
  "ir_request_id (binding_of_row rid row ex) = rid"
  "ib_expires_at (binding_of_row rid row ex) = ex"
  "ir_identity (binding_of_row rid row ex) = iw_identity row"
  "ir_interrupt_type (binding_of_row rid row ex) = the (iw_interrupt_type row)"
  by (simp_all add: binding_of_row_def)

lemma row_ok_lookup: "di_inv s \<Longrightarrow> map_of (di_interrupt_requests s) rid = Some row \<Longrightarrow> row_ok row"
  by (auto simp: di_inv_def dest!: map_of_SomeD)

lemma di_prune:
  assumes "di_inv s"
  shows "di_inv (di_prune_tombstones now s)"
    and "di_active t (di_prune_tombstones now s) = di_active t s"
    and "di_request_ttl_seconds (di_prune_tombstones now s) = di_request_ttl_seconds s"
proof -
  show "di_inv (di_prune_tombstones now s)"
    using assms by (auto simp: di_inv_def di_prune_tombstones_def)
  show "di_request_ttl_seconds (di_prune_tombstones now s) = di_request_ttl_seconds s"
    by (simp add: di_prune_tombstones_def)
  have wf: "wf_dict (di_interrupt_requests s)" using assms by (simp add: di_inv_def)
  show "di_active t (di_prune_tombstones now s) = di_active t s"
    using row_ok_lookup [OF assms]
    by (auto simp: di_active_def di_prune_tombstones_def map_of_filter_wf [OF wf] fun_eq_iff row_ok_def
        split: option.splits)
qed

lemma map_of_map_row:
  "map_of (map (\<lambda>(k, v). (k, f k v)) d) k = map_option (f k) (map_of d k)"
  by (induction d) auto

lemma di_set_tombstone_facts:
  assumes inv: "di_inv s"
  shows "di_inv (di_set_tombstone rid now s)"
    and "di_request_ttl_seconds (di_set_tombstone rid now s) = di_request_ttl_seconds s"
    and "di_active t s rid = None \<Longrightarrow> di_active t (di_set_tombstone rid now s) = di_active t s"
proof -
  show "di_inv (di_set_tombstone rid now s)"
    using inv by (auto simp: di_set_tombstone_def di_inv_def row_ok_def Let_def case_prod_unfold comp_def)
  show "di_request_ttl_seconds (di_set_tombstone rid now s) = di_request_ttl_seconds s"
    by (simp add: di_set_tombstone_def Let_def)
  show "di_active t (di_set_tombstone rid now s) = di_active t s" if "di_active t s rid = None"
  proof (rule ext)
    show "di_active t (di_set_tombstone rid now s) k = di_active t s k" for k
      using that
      by (cases "k = rid"; cases "map_of (di_interrupt_requests s) k")
        (simp_all add: di_set_tombstone_def di_active_def Let_def map_of_map_row)
  qed
qed

lemma di_remember_facts:
  assumes inv: "di_inv s" and s': "s' = di_remember fr now q ttl s"
  shows "di_inv s'" and "di_request_ttl_seconds s' = di_request_ttl_seconds s"
    and "e = now + max 0 (case ttl of None \<Rightarrow> di_request_ttl_seconds s | Some x \<Rightarrow> x) \<Longrightarrow>
      di_active t s' = (di_active t s)
        (ir_request_id q := if e \<le> t then None else Some (bind_request (stored_details fr q) e))"
proof -
  note p = di_prune [OF inv, where now = now]
  show "di_inv s'"
    using p(1) by (auto simp: s' di_remember_def Let_def di_inv_def row_ok_def
        insert_then_update_on_conflict_def map_of_eq_None_iff split: option.splits
        dest!: set_dset [THEN subsetD])
  show "di_request_ttl_seconds s' = di_request_ttl_seconds s"
    using p by (simp add: s' di_remember_def Let_def)
  show "di_active t s' = (di_active t s)
        (ir_request_id q := if e \<le> t then None else Some (bind_request (stored_details fr q) e))"
    if "e = now + max 0 (case ttl of None \<Rightarrow> di_request_ttl_seconds s | Some x \<Rightarrow> x)"
    unfolding p(2) [symmetric] that
    by (auto simp: s' di_remember_def Let_def di_active_def map_of_upsert fun_eq_iff
        binding_of_row_def bind_request_def stored_details_def interrupt_request.defs
        split: option.splits)
qed

lemma di_resolve_facts:
  assumes inv: "di_inv s" and run: "di_resolve now rid s = (x, s')"
  shows "di_inv s'" and "di_request_ttl_seconds s' = di_request_ttl_seconds s"
    and "now \<le> t \<Longrightarrow> di_active t s' = di_active t s"
    and "x = Active b \<longleftrightarrow> rid \<noteq> [] \<and> di_active now s rid = Some b"
proof -
  let ?p = "di_prune_tombstones now s"
  note p = di_prune [OF inv, where now = now]
  note ts = di_set_tombstone_facts [OF p(1), where now = now and rid = rid]
  show "di_inv s'" "di_request_ttl_seconds s' = di_request_ttl_seconds s"
    using run p ts inv by (auto simp: di_resolve_def Let_def split: option.splits if_splits)
  show "x = Active b \<longleftrightarrow> rid \<noteq> [] \<and> di_active now s rid = Some b"
    unfolding p(2) [of now, symmetric]
    using run row_ok_lookup [OF p(1), of rid]
    by (auto simp: di_resolve_def Let_def di_active_def row_ok_def split: option.splits if_splits)
  show "di_active t s' = di_active t s" if t: "now \<le> t"
  proof -
    have "di_active t ?p rid = None"
      if "map_of (di_interrupt_requests ?p) rid = Some row" "iw_expires_at row = Some ex" "ex \<le> now"
      for row ex
      using that t by (simp add: di_active_def)
    with ts(3) [of t] run p(2) show ?thesis
      by (auto simp: di_resolve_def Let_def split: option.splits if_splits)
  qed
qed

lemma di_discard_facts:
  "di_inv s \<Longrightarrow> di_inv (di_discard rid s)"
  "di_request_ttl_seconds (di_discard rid s) = di_request_ttl_seconds s"
  "di_active t (di_discard rid s) = (di_active t s)(rid := None)"
  using ddel_keeps_set [of rid "di_interrupt_requests s"]
  by (auto simp: di_discard_def di_inv_def di_active_def fun_eq_iff map_of_ddel split: option.splits)

lemma di_list_facts:
  assumes inv: "di_inv s" and run: "di_list_pending now i kind s = (l, s')"
  shows "di_inv s'" and "di_request_ttl_seconds s' = di_request_ttl_seconds s"
    and "di_active t s' = di_active t s"
    and "b \<in> set l \<longleftrightarrow> pending_for i kind b \<and> di_active now s (ir_request_id b) = Some b"
    and "sorted (map pending_key l)" and "distinct (map ir_request_id l)"
proof -
  let ?p = "di_prune_tombstones now s"
  note p = di_prune [OF inv, where now = now]
  have s': "s' = ?p" using run by (simp add: di_list_pending_def Let_def)
  show "di_inv s'" "di_request_ttl_seconds s' = di_request_ttl_seconds s"
    "di_active t s' = di_active t s"
    using p by (simp_all add: s')
  have wf: "wf_dict (di_interrupt_requests ?p)" using p(1) by (simp add: di_inv_def)
  define rows where "rows = filter (\<lambda>(_, row). iw_identity row = Some i \<and>
      (case iw_expires_at row of None \<Rightarrow> False | Some ex \<Rightarrow> now < ex) \<and>
      (case map_option strip kind of None \<Rightarrow> True | Some k \<Rightarrow> iw_interrupt_type row = Some k))
    (di_interrupt_requests ?p)"
  let ?b = "\<lambda>(rid, row). binding_of_row rid row (the (iw_expires_at row))"
  let ?key = "\<lambda>(rid, row). (the (iw_expires_at row), rid)"
  have l: "l = map ?b (sort_key ?key rows)"
    using run by (auto simp: di_list_pending_def Let_def rows_def)
  have key: "pending_key \<circ> ?b = ?key" "ir_request_id \<circ> ?b = fst"
    by (auto simp: fun_eq_iff pending_key_def)
  show "sorted (map pending_key l)" by (simp add: l key)
  have "distinct (map fst rows)" using wf by (simp add: rows_def)
  then show "distinct (map ir_request_id l)" by (simp add: l key distinct_sort_key)
  have rows: "(rid, row) \<in> set rows \<longleftrightarrow> (\<exists>ex. map_of (di_interrupt_requests ?p) rid = Some row \<and>
      iw_expires_at row = Some ex \<and> now < ex \<and> pending_for i kind (binding_of_row rid row ex))"
    for rid row
    using row_ok_lookup [OF p(1), of rid row]
    by (auto simp: rows_def pending_for_def row_ok_def map_of_eq_Some_iff [OF wf] split: option.splits)
  have "b \<in> set l \<longleftrightarrow> (\<exists>rid row. (rid, row) \<in> set rows \<and> b = ?b (rid, row))"
    by (force simp: l)
  also have "\<dots> \<longleftrightarrow> pending_for i kind b \<and> di_active now ?p (ir_request_id b) = Some b"
    unfolding rows di_active_def
    by (auto split: option.splits if_splits intro!: exI [of _ "ir_request_id b"])
  finally show "b \<in> set l \<longleftrightarrow> pending_for i kind b \<and> di_active now s (ir_request_id b) = Some b"
    by (simp only: p(2))
qed

interpretation db_int: interrupt_repository "db_interrupt_repo_ops fr" di_inv di_active
  di_request_ttl_seconds "stored_details fr" for fr
proof (unfold_locales, unfold db_interrupt_repo_ops_def interrupt_repo.simps)
  fix now t :: seconds and s s' :: db_interrupt_repo and rid i and b and q and ttl kind and x and l
  show "now \<le> t \<Longrightarrow> di_active t s rid = Some b \<Longrightarrow> di_active now s rid = Some b"
    by (auto simp: di_active_def split: option.splits if_splits)
  show "di_inv s \<Longrightarrow> di_active t s rid = Some b \<Longrightarrow> ir_request_id b = rid"
    by (auto simp: di_active_def split: option.splits if_splits)
  show "di_active t s rid = Some b \<Longrightarrow> t < ib_expires_at b"
    by (auto simp: di_active_def split: option.splits if_splits)
  show "(stored_details fr q)\<lparr>ir_details := None\<rparr> = q\<lparr>ir_details := None\<rparr>" for q
    by (simp add: stored_details_def)
  show "di_inv s \<Longrightarrow> s' = di_remember fr now q ttl s \<Longrightarrow>
      di_inv s' \<and> di_request_ttl_seconds s' = di_request_ttl_seconds s \<and>
      (let e = now + max 0 (case ttl of None \<Rightarrow> di_request_ttl_seconds s | Some x \<Rightarrow> x)
       in now \<le> t \<longrightarrow> di_active t s' = (di_active t s)
            (ir_request_id q := if e \<le> t then None else Some (bind_request (stored_details fr q) e)))"
    unfolding Let_def using di_remember_facts(1,2) [of s s' fr now q ttl]
      di_remember_facts(3) [of s s' fr now q ttl, OF _ _ refl] by blast
  show "di_inv s \<Longrightarrow> di_resolve now rid s = (x, s') \<Longrightarrow>
      di_inv s' \<and> di_request_ttl_seconds s' = di_request_ttl_seconds s \<and>
      (now \<le> t \<longrightarrow> di_active t s' = di_active t s) \<and>
      (x = Active b \<longleftrightarrow> rid \<noteq> [] \<and> di_active now s rid = Some b)"
    using di_resolve_facts [of s now rid x s'] by blast
  show "di_inv s \<Longrightarrow> s' = di_discard rid s \<Longrightarrow>
      di_inv s' \<and> di_request_ttl_seconds s' = di_request_ttl_seconds s \<and>
      di_active t s' = (di_active t s)(rid := None)"
    by (simp add: di_discard_facts)
  show "di_inv s \<Longrightarrow> di_list_pending now i kind s = (l, s') \<Longrightarrow>
      di_inv s' \<and> di_request_ttl_seconds s' = di_request_ttl_seconds s \<and>
      (now \<le> t \<longrightarrow> di_active t s' = di_active t s) \<and>
      (b \<in> set l \<longleftrightarrow> pending_for i kind b \<and> di_active now s (ir_request_id b) = Some b) \<and>
      sorted (map pending_key l) \<and> distinct (map ir_request_id l)"
    using di_list_facts [of s now i kind l s'] by blast
qed

end
