(* ===== verification/Interrupt_Client.thy ===== *)
theory Interrupt_Client
  imports Interrupt_Store
begin

text \<open>
  How the adapter uses the interrupt repository: the interrupt methods of
  \<open>opencode_upstream_client.py\<close>, which normalise what they are given, and the tracker of
  \<open>interrupt_request_tracker.py\<close>, which works with clients that offer only some of them.
\<close>

section \<open>The client's methods\<close>

text \<open>\<open>x.strip() if isinstance(x, str) and x.strip() else None\<close>\<close>

definition opt_strip :: "string option \<Rightarrow> string option" where
  "opt_strip x = (case x of None \<Rightarrow> None | Some v \<Rightarrow> nonempty_strip v)"

definition remember_interrupt_request ::
    "'s interrupt_repo \<Rightarrow> seconds \<Rightarrow> interrupt_request \<Rightarrow> seconds option \<Rightarrow> 's \<Rightarrow> 's" where
  "remember_interrupt_request R now q ttl_seconds s =
     (let request = strip (ir_request_id q);
          session = strip (ir_session_id q);
          kind = strip (ir_interrupt_type q)
      in if request = [] \<or> session = [] \<or> kind \<notin> {''permission'', ''question''} then s
         else ip_remember R now
                \<lparr>ir_request_id = request, ir_session_id = session, ir_interrupt_type = kind,
                 ir_identity = opt_strip (ir_identity q),
                 ir_credential_id = opt_strip (ir_credential_id q),
                 ir_task_id = opt_strip (ir_task_id q), ir_context_id = opt_strip (ir_context_id q),
                 ir_details = ir_details q\<rparr> ttl_seconds s)"

definition resolve_interrupt_request ::
    "'s interrupt_repo \<Rightarrow> seconds \<Rightarrow> string \<Rightarrow> 's \<Rightarrow> interrupt_lookup \<times> 's" where
  "resolve_interrupt_request R now request_id s =
     (let request = strip request_id
      in if request = [] then (Missing, s) else ip_resolve R now request s)"

definition resolve_interrupt_session ::
    "'s interrupt_repo \<Rightarrow> seconds \<Rightarrow> string \<Rightarrow> 's \<Rightarrow> string option \<times> 's" where
  "resolve_interrupt_session R now request_id s =
     (case resolve_interrupt_request R now request_id s of
        (Active b, s') \<Rightarrow> (Some (ir_session_id b), s')
      | (_, s') \<Rightarrow> (None, s'))"

definition discard_interrupt_request :: "'s interrupt_repo \<Rightarrow> string \<Rightarrow> 's \<Rightarrow> 's" where
  "discard_interrupt_request R request_id s =
     (let request = strip request_id in if request = [] then s else ip_discard R request s)"

definition list_interrupt_requests ::
    "'s interrupt_repo \<Rightarrow> seconds \<Rightarrow> string \<Rightarrow> string option \<Rightarrow> 's \<Rightarrow> interrupt_binding list \<times> 's"
  where
  "list_interrupt_requests R now identity interrupt_type s =
     (let normalized = strip identity
      in if normalized = [] then ([], s) else ip_list_pending R now normalized interrupt_type s)"

definition list_permission_requests ::
    "'s interrupt_repo \<Rightarrow> seconds \<Rightarrow> string \<Rightarrow> 's \<Rightarrow> interrupt_binding list \<times> 's" where
  "list_permission_requests R now identity =
     list_interrupt_requests R now identity (Some ''permission'')"

definition list_question_requests ::
    "'s interrupt_repo \<Rightarrow> seconds \<Rightarrow> string \<Rightarrow> 's \<Rightarrow> interrupt_binding list \<times> 's" where
  "list_question_requests R now identity =
     list_interrupt_requests R now identity (Some ''question'')"

section \<open>The tracker\<close>

text \<open>The methods a client offers; a missing one is \<open>None\<close>.\<close>

record 's interrupt_tracker =
  bt_remember_request :: "(interrupt_request \<Rightarrow> seconds option \<Rightarrow> 's \<Rightarrow> 's) option"
  bt_resolve_request :: "(string \<Rightarrow> 's \<Rightarrow> interrupt_lookup \<times> 's) option"
  bt_resolve_session :: "(string \<Rightarrow> 's \<Rightarrow> string option \<times> 's) option"
  bt_discard_request :: "(string \<Rightarrow> 's \<Rightarrow> 's) option"

text \<open>\<open>InterruptRequestResolution\<close>: the status and, where the client knows it, the binding.\<close>

datatype resolution = Resolution (rs_status: string) (rs_binding: "interrupt_binding option")

fun resolution_of :: "interrupt_lookup \<Rightarrow> resolution" where
  "resolution_of (Active b) = Resolution ''active'' (Some b)"
| "resolution_of Expired = Resolution ''expired'' None"
| "resolution_of Missing = Resolution ''missing'' None"

definition tracker_remember ::
    "'s interrupt_tracker \<Rightarrow> interrupt_request \<Rightarrow> seconds option \<Rightarrow> 's \<Rightarrow> 's" where
  "tracker_remember T q ttl s =
     (case bt_remember_request T of None \<Rightarrow> s | Some f \<Rightarrow> f q ttl s)"

definition tracker_resolve :: "'s interrupt_tracker \<Rightarrow> string \<Rightarrow> 's \<Rightarrow> resolution \<times> 's" where
  "tracker_resolve T request_id s =
     (case bt_resolve_request T of
        Some f \<Rightarrow> (let (x, s') = f request_id s in (resolution_of x, s'))
      | None \<Rightarrow>
          (case bt_resolve_session T of
             None \<Rightarrow> (Resolution ''missing'' None, s)
           | Some f \<Rightarrow>
               (case f request_id s of
                  (Some sid, s') \<Rightarrow>
                    if sid \<noteq> [] then (Resolution ''active'' None, s')
                    else (Resolution ''missing'' None, s')
                | (None, s') \<Rightarrow> (Resolution ''missing'' None, s'))))"

definition tracker_discard :: "'s interrupt_tracker \<Rightarrow> string \<Rightarrow> 's \<Rightarrow> 's" where
  "tracker_discard T request_id s =
     (case bt_discard_request T of None \<Rightarrow> s | Some f \<Rightarrow> f request_id s)"

text \<open>The tracker on the adapter's own client.\<close>

definition client_tracker :: "'s interrupt_repo \<Rightarrow> seconds \<Rightarrow> 's interrupt_tracker" where
  "client_tracker R now =
     \<lparr>bt_remember_request = Some (remember_interrupt_request R now),
      bt_resolve_request = Some (resolve_interrupt_request R now),
      bt_resolve_session = Some (resolve_interrupt_session R now),
      bt_discard_request = Some (discard_interrupt_request R)\<rparr>"

section \<open>Histories\<close>

datatype interrupt_op =
    Remember interrupt_request "seconds option"
  | Resolve string
  | ResolveSession string
  | Discard string
  | ListPending string "string option"

datatype interrupt_out =
    Quiet
  | Resolved interrupt_lookup
  | ResolvedSession "string option"
  | Pending "interrupt_binding list"

fun ir_exec :: "'s interrupt_repo \<Rightarrow> seconds \<Rightarrow> interrupt_op \<Rightarrow> 's \<Rightarrow> interrupt_out \<times> 's" where
  "ir_exec R now (Remember q ttl) s = (Quiet, remember_interrupt_request R now q ttl s)"
| "ir_exec R now (Resolve rid) s =
     (let (x, s') = resolve_interrupt_request R now rid s in (Resolved x, s'))"
| "ir_exec R now (ResolveSession rid) s =
     (let (x, s') = resolve_interrupt_session R now rid s in (ResolvedSession x, s'))"
| "ir_exec R now (Discard rid) s = (Quiet, discard_interrupt_request R rid s)"
| "ir_exec R now (ListPending i kind) s =
     (let (l, s') = list_interrupt_requests R now i kind s in (Pending l, s'))"

fun ir_run :: "'s interrupt_repo \<Rightarrow> (seconds \<times> interrupt_op) list \<Rightarrow> 's \<Rightarrow> interrupt_out list \<times> 's"
  where
  "ir_run R [] s = ([], s)"
| "ir_run R ((now, op) # ops) s =
     (let (x, s1) = ir_exec R now op s; (xs, s2) = ir_run R ops s1 in (x # xs, s2))"

text \<open>
  What a caller sees that does not depend on when a repository prunes: which requests are
  active, with everything but the details.
\<close>

definition erase :: "interrupt_binding \<Rightarrow> interrupt_binding" where
  "erase b = b\<lparr>ir_details := None\<rparr>"

fun visible :: "interrupt_out \<Rightarrow> interrupt_out" where
  "visible (Resolved (Active b)) = Resolved (Active (erase b))"
| "visible (Resolved _) = Resolved Missing"
| "visible (Pending l) = Pending (map erase l)"
| "visible x = x"

section \<open>What holds for every repository\<close>

text \<open>The operations that change the entry of one request.\<close>

fun touches :: "string \<Rightarrow> interrupt_op \<Rightarrow> bool" where
  "touches rid (Remember q _) = (strip (ir_request_id q) = rid)"
| "touches rid (Discard r) = (strip r = rid)"
| "touches rid _ = False"

context interrupt_repository
begin

lemma client_remember:
  assumes "inv s"
  shows "inv (remember_interrupt_request R now q ttl s)"
    and "request_ttl (remember_interrupt_request R now q ttl s) = request_ttl s"
    and "strip (ir_request_id q) \<noteq> rid \<Longrightarrow> now \<le> t \<Longrightarrow>
      active t (remember_interrupt_request R now q ttl s) rid = active t s rid"
  using assms remember [OF assms refl, where t = t]
  by (auto simp: remember_interrupt_request_def Let_def)

lemma client_resolve:
  assumes "inv s" and "resolve_interrupt_request R now rid s = (x, s')"
  shows "inv s'" and "request_ttl s' = request_ttl s" and "now \<le> t \<Longrightarrow> active t s' = active t s"
    and "x = Active b \<longleftrightarrow> strip rid \<noteq> [] \<and> active now s (strip rid) = Some b"
  using assms resolve [OF assms(1), of now "strip rid" x s' t b]
  by (auto simp: resolve_interrupt_request_def Let_def split: if_splits)

lemma client_resolve_session:
  assumes inv: "inv s" and run: "resolve_interrupt_session R now rid s = (x, s')"
  shows "inv s'" and "request_ttl s' = request_ttl s" and "now \<le> t \<Longrightarrow> active t s' = active t s"
    and "x = (if strip rid = [] then None
              else map_option ir_session_id (active now s (strip rid)))"
proof -
  obtain y where y: "resolve_interrupt_request R now rid s = (y, s')"
    and x: "x = (case y of Active b \<Rightarrow> Some (ir_session_id b) | _ \<Rightarrow> None)"
    using run by (auto simp: resolve_interrupt_session_def split: prod.splits interrupt_lookup.splits)
  note c = client_resolve [OF inv y]
  show "inv s'" "request_ttl s' = request_ttl s" "now \<le> t \<Longrightarrow> active t s' = active t s"
    by (fact c)+
  show "x = (if strip rid = [] then None else map_option ir_session_id (active now s (strip rid)))"
  proof (cases "strip rid \<noteq> [] \<and> active now s (strip rid) \<noteq> None")
    case True
    then obtain b where b: "strip rid \<noteq> []" "active now s (strip rid) = Some b" by auto
    with c(4) [of b] x show ?thesis by simp
  next
    case False
    then have "y \<noteq> Active b" for b using c(4) [of b] by auto
    with x have "x = None" by (simp split: interrupt_lookup.splits)
    with False show ?thesis by auto
  qed
qed

lemma client_discard:
  assumes "inv s"
  shows "inv (discard_interrupt_request R rid s)"
    and "request_ttl (discard_interrupt_request R rid s) = request_ttl s"
    and "active t (discard_interrupt_request R rid s) =
      (if strip rid = [] then active t s else (active t s)(strip rid := None))"
  using assms discard [OF assms refl, of "strip rid" t]
  by (auto simp: discard_interrupt_request_def Let_def)

lemma client_list:
  assumes "inv s" and "list_interrupt_requests R now i kind s = (l, s')"
  shows "inv s'" and "request_ttl s' = request_ttl s" and "now \<le> t \<Longrightarrow> active t s' = active t s"
    and "b \<in> set l \<longleftrightarrow> strip i \<noteq> [] \<and> pending_for (strip i) kind b \<and>
      active now s (ir_request_id b) = Some b"
    and "sorted (map pending_key l)" and "distinct (map ir_request_id l)"
  using assms list_pending [OF assms(1), of now "strip i" kind l s' t b]
  by (auto simp: list_interrupt_requests_def Let_def split: if_splits)

lemma exec_inv:
  assumes inv: "inv s" and run: "ir_exec R now op s = (x, s')"
  shows "inv s'" and "request_ttl s' = request_ttl s"
proof -
  have "inv s' \<and> request_ttl s' = request_ttl s"
  proof (cases op)
    case (Remember q ttl)
    with run client_remember [OF inv] show ?thesis by auto
  next
    case (Resolve rid)
    with run client_resolve [OF inv] show ?thesis by (auto split: prod.splits)
  next
    case (ResolveSession rid)
    with run client_resolve_session [OF inv] show ?thesis by (auto split: prod.splits)
  next
    case (Discard rid)
    with run client_discard [OF inv] show ?thesis by auto
  next
    case (ListPending i kind)
    with run client_list [OF inv] show ?thesis by (auto split: prod.splits)
  qed
  then show "inv s'" and "request_ttl s' = request_ttl s" by simp_all
qed

lemma exec_untouched:
  assumes inv: "inv s" and run: "ir_exec R now op s = (x, s')"
    and out: "\<not> touches rid op" and t: "now \<le> t"
  shows "active t s' rid = active t s rid"
proof (cases op)
  case (Remember q ttl)
  with run out t client_remember(3) [OF inv] show ?thesis by auto
next
  case (Resolve r)
  with run t client_resolve(3) [OF inv] show ?thesis by (auto split: prod.splits)
next
  case (ResolveSession r)
  with run t client_resolve_session(3) [OF inv] show ?thesis by (auto split: prod.splits)
next
  case (Discard r)
  with run out client_discard(3) [OF inv] show ?thesis by auto
next
  case (ListPending i kind)
  with run t client_list(3) [OF inv] show ?thesis by (auto split: prod.splits)
qed

lemma run_untouched:
  assumes "inv s" and "ir_run R ops s = (xs, s')" and "\<forall>(u, op) \<in> set ops. \<not> touches rid op \<and> u \<le> t"
  shows "inv s' \<and> active t s' rid = active t s rid"
  using assms
proof (induction ops arbitrary: s xs)
  case (Cons e ops)
  obtain u op where e: "e = (u, op)" by (cases e)
  obtain x s1 where one: "ir_exec R u op s = (x, s1)" by fastforce
  obtain ys s2 where rest: "ir_run R ops s1 = (ys, s2)" by fastforce
  have s': "s' = s2" using Cons.prems(2) by (simp add: e one rest)
  have inv1: "inv s1" using exec_inv [OF Cons.prems(1) one] by simp
  show ?case using Cons.IH [OF inv1 rest [folded s']] Cons.prems(3)
      exec_untouched [OF Cons.prems(1) one, of rid t] by (simp add: e)
qed simp

text \<open>
  A request that was remembered is found until it expires, whatever is done with other
  requests; afterwards it is not.
\<close>

lemma remembered_is_found:
  assumes inv: "inv s" and q: "strip (ir_request_id q) \<noteq> []" "strip (ir_session_id q) \<noteq> []"
      "strip (ir_interrupt_type q) \<in> {''permission'', ''question''}"
    and run: "ir_run R ops (remember_interrupt_request R now q ttl s) = (xs, s1)"
    and ops: "\<forall>(u, op) \<in> set ops. \<not> touches (strip (ir_request_id q)) op \<and> u \<le> t" and t: "now \<le> t"
    and e: "e = now + max 0 (case ttl of None \<Rightarrow> request_ttl s | Some x \<Rightarrow> x)"
    and res: "resolve_interrupt_session R t (ir_request_id q) s1 = (sid, s2)"
  shows "sid = (if t < e then Some (strip (ir_session_id q)) else None)"
proof -
  let ?q = "\<lparr>ir_request_id = strip (ir_request_id q), ir_session_id = strip (ir_session_id q),
      ir_interrupt_type = strip (ir_interrupt_type q), ir_identity = opt_strip (ir_identity q),
      ir_credential_id = opt_strip (ir_credential_id q), ir_task_id = opt_strip (ir_task_id q),
      ir_context_id = opt_strip (ir_context_id q), ir_details = ir_details q\<rparr>"
  let ?s = "remember_interrupt_request R now q ttl s"
  have s: "?s = ip_remember R now ?q ttl s"
    using q by (auto simp: remember_interrupt_request_def Let_def)
  note r = remember [OF inv s, of t, unfolded Let_def e [symmetric]]
  have act: "active t s1 (strip (ir_request_id q)) =
      (if e \<le> t then None else Some (bind_request (norm ?q) e))" and inv1: "inv s1"
    using run_untouched [OF _ run ops] r t by auto
  have "(norm ?q)\<lparr>ir_details := None\<rparr> = ?q\<lparr>ir_details := None\<rparr>" by (rule norm_keeps)
  then have "ir_session_id ((norm ?q)\<lparr>ir_details := None\<rparr>) = ir_session_id (?q\<lparr>ir_details := None\<rparr>)"
    by simp
  then have sid: "ir_session_id (bind_request (norm ?q) e) = strip (ir_session_id q)"
    by (simp add: bind_request_def interrupt_request.defs)
  show ?thesis
    using client_resolve_session(4) [OF inv1 res] act q(1) sid by auto
qed

end

section \<open>Two repositories cannot be told apart\<close>

lemma erase_simps [simp]:
  "ir_request_id (erase b) = ir_request_id b" "ib_expires_at (erase b) = ib_expires_at b"
  "ir_session_id (erase b) = ir_session_id b" "pending_for i kind (erase b) = pending_for i kind b"
  "pending_key (erase b) = pending_key b"
  by (cases kind; simp add: erase_def pending_for_def pending_key_def)+

lemma erase_bind: "erase (bind_request q e) = bind_request (q\<lparr>ir_details := None\<rparr>) e"
  by (simp add: erase_def bind_request_def interrupt_request.defs)

lemma sorted_key_unique:
  assumes "set xs = set ys" and "sorted (map k xs)" "sorted (map k ys)"
    and "distinct (map k xs)" "distinct (map k ys)"
  shows "xs = ys"
proof (rule map_inj_on)
  show "map k xs = map k ys"
    using assms by (intro sorted_distinct_set_unique) simp_all
  show "inj_on k (set xs \<union> set ys)"
    using assms(1,4) by (simp add: distinct_map)
qed

locale two_interrupt_repositories =
  A: interrupt_repository RA invA activeA ttlA normA +
  B: interrupt_repository RB invB activeB ttlB normB
  for RA invA activeA ttlA normA RB invB activeB ttlB normB
begin

text \<open>The states agree from time \<open>now\<close> on.\<close>

definition agree where
  "agree now a b \<longleftrightarrow> invA a \<and> invB b \<and> ttlA a = ttlB b \<and>
     (\<forall>t \<ge> now. \<forall>rid. map_option erase (activeA t a rid) = map_option erase (activeB t b rid))"

lemma agreeD:
  assumes "agree now a b" and "now \<le> t"
  shows "invA a" and "invB b" and "ttlA a = ttlB b"
    and "map_option erase (activeA t a rid) = map_option erase (activeB t b rid)"
  using assms by (auto simp: agree_def)

lemma agree_later: "agree now a b \<Longrightarrow> now \<le> t \<Longrightarrow> agree t a b"
  by (auto simp: agree_def)

lemma agree_active:
  assumes "agree now a b" and "now \<le> t"
  shows "(\<exists>x. activeA t a rid = Some x \<and> P (erase x)) \<longleftrightarrow>
    (\<exists>x. activeB t b rid = Some x \<and> P (erase x))"
  using agreeD(4) [OF assms, of rid]
  by (cases "activeA t a rid"; cases "activeB t b rid") auto

lemma agree_remember:
  assumes ag: "agree now a b"
  shows "agree now (remember_interrupt_request RA now q ttl a)
    (remember_interrupt_request RB now q ttl b)"
proof -
  note d = agreeD [OF ag order_refl]
  have norm: "(normA q)\<lparr>ir_details := None\<rparr> = (normB q)\<lparr>ir_details := None\<rparr>" for q
    by (simp add: A.norm_keeps B.norm_keeps)
  have "agree now (ip_remember RA now q' ttl a) (ip_remember RB now q' ttl b)" for q'
  proof -
    define e where "e = now + max 0 (case ttl of None \<Rightarrow> ttlA a | Some x \<Rightarrow> x)"
    have eB: "e = now + max 0 (case ttl of None \<Rightarrow> ttlB b | Some x \<Rightarrow> x)"
      unfolding e_def d(3) ..
    note ra = A.remember [OF d(1) refl, of now q' ttl, unfolded Let_def, folded e_def]
    note rb = B.remember [OF d(2) refl, of now q' ttl, unfolded Let_def, folded eB]
    have "map_option erase (activeA t (ip_remember RA now q' ttl a) rid) =
        map_option erase (activeB t (ip_remember RB now q' ttl b) rid)" if "now \<le> t" for t rid
      using ra [of t] rb [of t] agreeD(4) [OF ag that, of rid] that
      by (simp add: erase_bind norm)
    with ra rb d(3) show ?thesis unfolding agree_def by metis
  qed
  with ag show ?thesis by (simp add: remember_interrupt_request_def Let_def)
qed

lemma agree_resolve:
  assumes ag: "agree now a b" and run: "resolve_interrupt_request RA now rid a = (x, a')"
    "resolve_interrupt_request RB now rid b = (y, b')"
  shows "agree now a' b'" and "visible (Resolved x) = visible (Resolved y)"
proof -
  note d = agreeD [OF ag order_refl]
  note ca = A.client_resolve [OF d(1) run(1)] and cb = B.client_resolve [OF d(2) run(2)]
  show "agree now a' b'" using ca(1-3) cb(1-3) ag by (auto simp: agree_def)
  have act: "(\<exists>w. x = Active w \<and> erase w = e) \<longleftrightarrow> (\<exists>w. y = Active w \<and> erase w = e)" for e
    using ca(4) cb(4) agree_active [OF ag order_refl, of "strip rid" "\<lambda>w. w = e"] by auto
  show "visible (Resolved x) = visible (Resolved y)"
  proof (cases x)
    case (Active w)
    with act [of "erase w"] show ?thesis by auto
  next
    case Expired
    with act have "y \<noteq> Active w" for w by auto
    with Expired show ?thesis by (cases y) auto
  next
    case Missing
    with act have "y \<noteq> Active w" for w by auto
    with Missing show ?thesis by (cases y) auto
  qed
qed

lemma agree_resolve_session:
  assumes ag: "agree now a b" and run: "resolve_interrupt_session RA now rid a = (x, a')"
    "resolve_interrupt_session RB now rid b = (y, b')"
  shows "agree now a' b'" and "x = y"
proof -
  note d = agreeD [OF ag order_refl]
  note ca = A.client_resolve_session [OF d(1) run(1)]
    and cb = B.client_resolve_session [OF d(2) run(2)]
  show "agree now a' b'" using ca(1-3) cb(1-3) ag by (auto simp: agree_def)
  show "x = y"
    using ca(4) cb(4) d(4) [of "strip rid"]
    by (cases "activeA now a (strip rid)"; cases "activeB now b (strip rid)")
      (auto simp: erase_def dest: arg_cong [of _ _ ir_session_id])
qed

lemma agree_discard:
  assumes ag: "agree now a b"
  shows "agree now (discard_interrupt_request RA rid a) (discard_interrupt_request RB rid b)"
proof -
  note d = agreeD [OF ag order_refl]
  note ca = A.client_discard [OF d(1), where rid = rid] and cb = B.client_discard [OF d(2), where rid = rid]
  have "map_option erase (activeA t (discard_interrupt_request RA rid a) r) =
      map_option erase (activeB t (discard_interrupt_request RB rid b) r)" if "now \<le> t" for t r
    using agreeD(4) [OF ag that, of r] by (simp add: ca(3) cb(3))
  with ca(1,2) cb(1,2) d(3) show ?thesis by (simp add: agree_def)
qed

lemma agree_list:
  assumes ag: "agree now a b" and run: "list_interrupt_requests RA now i kind a = (la, a')"
    "list_interrupt_requests RB now i kind b = (lb, b')"
  shows "agree now a' b'" and "map erase la = map erase lb"
proof -
  note d = agreeD [OF ag order_refl]
  note ca = A.client_list [OF d(1) run(1)] and cb = B.client_list [OF d(2) run(2)]
  show "agree now a' b'" using ca(1-3) cb(1-3) ag by (auto simp: agree_def)
  have mem: "e \<in> erase ` set l \<longleftrightarrow> strip i \<noteq> [] \<and> pending_for (strip i) kind e \<and>
      (\<exists>x. act (ir_request_id e) = Some x \<and> erase x = e)"
    if "\<And>x. x \<in> set l \<longleftrightarrow> strip i \<noteq> [] \<and> pending_for (strip i) kind x \<and> act (ir_request_id x) = Some x"
      and "\<And>r x. act r = Some x \<Longrightarrow> ir_request_id x = r"
    for l e and act :: "string \<Rightarrow> interrupt_binding option"
  proof
    assume "e \<in> erase ` set l"
    then obtain x where "x \<in> set l" "e = erase x" by auto
    with that(1) [of x] show "strip i \<noteq> [] \<and> pending_for (strip i) kind e \<and>
        (\<exists>x. act (ir_request_id e) = Some x \<and> erase x = e)" by auto
  next
    assume "strip i \<noteq> [] \<and> pending_for (strip i) kind e \<and>
      (\<exists>x. act (ir_request_id e) = Some x \<and> erase x = e)"
    then obtain x where x: "strip i \<noteq> []" "pending_for (strip i) kind (erase x)"
      "act (ir_request_id (erase x)) = Some x" "e = erase x" by auto
    then have "x \<in> set l" using that(1) [of x] by simp
    with x(4) show "e \<in> erase ` set l" by simp
  qed
  have "e \<in> erase ` set la \<longleftrightarrow> e \<in> erase ` set lb" for e
    using mem [of la "activeA now a" e, OF ca(4) A.active_key [OF d(1)]]
      mem [of lb "activeB now b" e, OF cb(4) B.active_key [OF d(2)]] agree_active [OF ag order_refl, of "ir_request_id e" "\<lambda>x. x = e"] by simp
  then have set: "set (map erase la) = set (map erase lb)" by auto
  have dist: "distinct (map ir_request_id l) \<Longrightarrow> distinct (map pending_key (map erase l))" for l
    by (auto simp: distinct_map inj_on_def pending_key_def)
  show "map erase la = map erase lb"
    by (rule sorted_key_unique [where k = pending_key, OF set])
      (use ca(5,6) cb(5,6) dist in \<open>simp_all add: comp_def\<close>)
qed

lemma agree_exec:
  assumes ag: "agree now a b" and run: "ir_exec RA now op a = (x, a')" "ir_exec RB now op b = (y, b')"
  shows "agree now a' b' \<and> visible x = visible y"
proof (cases op)
  case (Remember q ttl)
  with run agree_remember [OF ag] show ?thesis by auto
next
  case (Resolve rid)
  with run agree_resolve [OF ag] show ?thesis by (auto split: prod.splits)
next
  case (ResolveSession rid)
  with run agree_resolve_session [OF ag] show ?thesis by (auto split: prod.splits)
next
  case (Discard rid)
  with run agree_discard [OF ag] show ?thesis by auto
next
  case (ListPending i kind)
  with run agree_list [OF ag] show ?thesis by (auto split: prod.splits)
qed

lemma agree_run:
  assumes "agree t0 a b" and "sorted (map fst ops)" and "\<forall>(t, _) \<in> set ops. t0 \<le> t"
  shows "map visible (fst (ir_run RA ops a)) = map visible (fst (ir_run RB ops b))"
  using assms
proof (induction ops arbitrary: t0 a b)
  case (Cons e ops)
  obtain t op where e: "e = (t, op)" by (cases e)
  obtain x a' where a: "ir_exec RA t op a = (x, a')" by fastforce
  obtain y b' where b: "ir_exec RB t op b = (y, b')" by fastforce
  have ag: "agree t a b" using Cons.prems by (auto simp: e intro: agree_later)
  note ex = agree_exec [OF ag a b]
  have "map visible (fst (ir_run RA ops a')) = map visible (fst (ir_run RB ops b'))"
    by (rule Cons.IH) (use ex Cons.prems(2) in \<open>auto simp: e\<close>)
  with ex show ?case by (simp add: e a b case_prod_unfold Let_def)
qed simp

end

interpretation both: two_interrupt_repositories
  mem_interrupt_repo_ops mi_inv mi_active mi_request_ttl_seconds "\<lambda>q. q"
  "db_interrupt_repo_ops fr" di_inv di_active di_request_ttl_seconds "stored_details fr" for fr ..

section \<open>Properties\<close>

lemma mem_interrupt_init_inv: "mi_inv (mem_interrupt_init r t)"
  by (simp add: mi_inv_def mem_interrupt_init_def)

lemma db_interrupt_init_inv: "di_inv (db_interrupt_init r t)"
  by (simp add: di_inv_def db_interrupt_init_def)

lemma init_agree: "both.agree now (mem_interrupt_init r t) (db_interrupt_init r t)"
  unfolding both.agree_def
  by (simp add: mem_interrupt_init_inv db_interrupt_init_inv)
    (simp add: mem_interrupt_init_def db_interrupt_init_def mi_active_def di_active_def)

text \<open>
  C17. The in-memory and the database repository cannot be told apart by their callers:
  after any history of calls, at any non-decreasing times, both answer every resolution and
  every listing with the same active requests in the same order.
\<close>

theorem interrupt_repositories_agree:
  assumes "sorted (map fst ops)"
  shows "map visible (fst (ir_run mem_interrupt_repo_ops ops (mem_interrupt_init r tomb))) =
    map visible (fst (ir_run (db_interrupt_repo_ops fr) ops (db_interrupt_init r tomb)))"
proof (cases ops)
  case (Cons e es)
  have "\<forall>(t, _) \<in> set ops. fst e \<le> t" using assms Cons by auto
  then show ?thesis by (rule both.agree_run [OF init_agree assms])
qed simp

definition sample_request :: interrupt_request where
  "sample_request =
     \<lparr>ir_request_id = ''req-1'', ir_session_id = ''ses-1'', ir_interrupt_type = ''permission'',
      ir_identity = Some ''alice'', ir_credential_id = None, ir_task_id = None,
      ir_context_id = None, ir_details = Some [(''b'', PInt 2), (''a'', PStr ''x'')]\<rparr>"

theorem interrupt_repositories_agree_witness:
  "map visible (fst (ir_run mem_interrupt_repo_ops
      [(1, Remember sample_request (Some 5)), (2, Resolve ''req-1''), (9, Resolve ''req-1'')]
      (mem_interrupt_init 60 600))) =
   map visible (fst (ir_run (db_interrupt_repo_ops (\<lambda>_. ''0.5''))
      [(1, Remember sample_request (Some 5)), (2, Resolve ''req-1''), (9, Resolve ''req-1'')]
      (db_interrupt_init 60 600)))"
  by (rule interrupt_repositories_agree) simp

text \<open>
  An interrupt request that was remembered leads to its session until it expires, and
  not one moment longer, whatever is done with other requests in the meantime.
\<close>

theorem mem_interrupt_found_until_expiry:
  assumes "mi_inv s" and "strip (ir_request_id q) \<noteq> []" and "strip (ir_session_id q) \<noteq> []"
    and "strip (ir_interrupt_type q) \<in> {''permission'', ''question''}"
    and "\<forall>(u, op) \<in> set ops. \<not> touches (strip (ir_request_id q)) op \<and> u \<le> t" and "now \<le> t"
    and "e = now + max 0 (case ttl of None \<Rightarrow> mi_request_ttl_seconds s | Some x \<Rightarrow> x)"
  shows "fst (resolve_interrupt_session mem_interrupt_repo_ops t (ir_request_id q)
      (snd (ir_run mem_interrupt_repo_ops ops
        (remember_interrupt_request mem_interrupt_repo_ops now q ttl s)))) =
    (if t < e then Some (strip (ir_session_id q)) else None)"
  by (rule mem_int.remembered_is_found
      [OF assms(1-4) prod.collapse [symmetric] assms(5-7) prod.collapse [symmetric]])

theorem mem_interrupt_found_until_expiry_witness:
  "fst (resolve_interrupt_session mem_interrupt_repo_ops 5 ''req-1''
      (snd (ir_run mem_interrupt_repo_ops [(2, Discard ''req-2''), (3, ListPending ''alice'' None)]
        (remember_interrupt_request mem_interrupt_repo_ops 1 sample_request (Some 5)
          (mem_interrupt_init 60 600))))) = Some ''ses-1''"
proof -
  have ids: "strip ''req-1'' = ''req-1''" "strip ''req-2'' = ''req-2''" "strip ''ses-1'' = ''ses-1''"
    "strip ''permission'' = ''permission''" by code_simp+
  show ?thesis
    using mem_interrupt_found_until_expiry [OF mem_interrupt_init_inv [of 60 600] _ _ _ _ _ refl,
        where q = sample_request and ops = "[(2, Discard ''req-2''), (3, ListPending ''alice'' None)]"
          and t = 5 and now = 1 and ttl = "Some 5"]
    by (simp add: sample_request_def ids)
qed

text \<open>
  Listing pending requests answers exactly the active requests of that identity and of
  that kind, each once, ordered by expiry and then by request id; listing changes nothing.
\<close>

theorem db_list_is_exact:
  assumes "di_inv s" and "list_interrupt_requests (db_interrupt_repo_ops fr) now i kind s = (l, s')"
  shows "set l = {b. strip i \<noteq> [] \<and> pending_for (strip i) kind b \<and>
        di_active now s (ir_request_id b) = Some b} \<and>
      sorted (map pending_key l) \<and> distinct (map ir_request_id l) \<and>
      di_active now s' = di_active now s"
  using db_int.client_list [OF assms] by auto

theorem db_list_is_exact_witness:
  "set (fst (list_interrupt_requests (db_interrupt_repo_ops (\<lambda>_. ''0.5'')) 3 ''alice'' None
      (db_interrupt_init 60 600))) = {}"
proof -
  let ?l = "list_interrupt_requests (db_interrupt_repo_ops (\<lambda>_. ''0.5'')) 3 ''alice'' None
      (db_interrupt_init 60 600)"
  show ?thesis
    using db_list_is_exact [OF db_interrupt_init_inv [of 60 600] prod.collapse [symmetric],
        where fr = "\<lambda>_. ''0.5''" and now = 3 and i = "''alice''" and kind = None]
    by (simp add: db_interrupt_init_def di_active_def)
qed

text \<open>
  The details of a request survive the database: what is resolved carries the details
  that were stored, with the keys of every object in sorted order.
\<close>

theorem db_details_round_trip:
  assumes "di_inv s" and "ir_request_id q \<noteq> []" and "jsonable (PDict d)" and "ir_details q = Some d"
    and "0 < ttl"
  shows "\<exists>b s'. di_resolve now (ir_request_id q) (di_remember fr now q (Some ttl) s) = (Active b, s') \<and>
    map_option PDict (ir_details b) = Some (json_canon True (PDict d)) \<and>
    ir_session_id b = ir_session_id q \<and> ir_identity b = ir_identity q"
proof -
  obtain x s' where run: "di_resolve now (ir_request_id q) (di_remember fr now q (Some ttl) s) = (x, s')"
    by fastforce
  note f = di_remember_facts [OF assms(1) refl, where fr = fr and now = now and q = q and ttl = "Some ttl"]
  let ?b = "bind_request (stored_details fr q) (now + ttl)"
  have "di_active now (di_remember fr now q (Some ttl) s) (ir_request_id q) = Some ?b"
    using f(3) [OF refl, of now] assms(5) by (simp add: max_def)
  then have "x = Active ?b"
    using di_resolve_facts(4) [OF f(1) run, of ?b] assms(2) by simp
  moreover have "ir_details ?b = decode_details (encode_details fr (Some d))"
    and "ir_session_id ?b = ir_session_id q" and "ir_identity ?b = ir_identity q"
    using assms(4) by (simp_all add: bind_request_def interrupt_request.defs stored_details_def)
  moreover have "json_loads (json_dumps fr False True (PDict d)) = Some (json_canon True (PDict d))"
    by (rule json_round_trip [OF assms(3)])
  then have "decode_details (encode_details fr (Some d)) = as_mapping (json_canon True (PDict d))"
    by (simp add: decode_details_def encode_details_def Let_def)
  ultimately show ?thesis using run by (auto simp: Let_def)
qed

theorem db_details_round_trip_witness:
  "\<exists>b s'. di_resolve 1 ''req-1''
      (di_remember (\<lambda>_. ''0.5'') 1 sample_request (Some 5) (db_interrupt_init 60 600)) = (Active b, s') \<and>
    ir_identity b = Some ''alice''"
  using db_details_round_trip [OF db_interrupt_init_inv [of 60 600], where q = sample_request and
      d = "[(''b'', PInt 2), (''a'', PStr ''x'')]" and ttl = 5 and now = 1 and fr = "\<lambda>_. ''0.5''"]
  by (auto simp: sample_request_def nat_digits.simps)

end
