(* ===== verification/Stream_Runtime.thy ===== *)
theory Stream_Runtime
  imports Stream_State A2A_Parts Interrupt_Client
begin

text \<open>
  Turning the upstream's event stream into updates of the task (\<open>execution/stream_runtime.py\<close>,
  \<open>execution/event_helpers.py\<close> and the data parts of \<open>a2a_utils.py\<close>). The handler of one event
  is a function on the state of the stream; the event queue is the list of what was enqueued,
  the oldest first. The rendering of floats in JSON is a parameter of the configuration.
\<close>

section \<open>Data parts\<close>

text \<open>The protocol's \<open>Value\<close> has one kind of number, a double: an integer becomes a float.\<close>

fun to_proto_value :: "pyval \<Rightarrow> pyval" where
  "to_proto_value PNone = PNone"
| "to_proto_value (PBool b) = PBool b"
| "to_proto_value (PInt i) = PFloat (of_int i)"
| "to_proto_value (PFloat q) = PFloat q"
| "to_proto_value (PStr s) = PStr s"
| "to_proto_value (PDict d) = PDict (map (\<lambda>(k, v). (k, to_proto_value v)) d)"
| "to_proto_value (PList vs) = PList (map to_proto_value vs)"

definition make_data_part :: "pyval \<Rightarrow> part" where
  "make_data_part data =
     \<lparr>pt_content = PData (to_proto_value data), pt_media_type = [], pt_filename = []\<rparr>"

section \<open>What is enqueued\<close>

datatype out_event =
    ArtifactUpdate (oe_task_id: string) (oe_context_id: string) (oe_artifact_id: string)
      (oe_part: part) (oe_append: bool) (oe_last_chunk: "bool option") (oe_metadata: "mapping option")
  | StatusUpdate (oe_task_id: string) (oe_context_id: string) (oe_state: task_state)
      (oe_metadata: "mapping option")

definition enqueue_artifact_update ::
    "string \<Rightarrow> string \<Rightarrow> string \<Rightarrow> part \<Rightarrow> bool \<Rightarrow> bool option \<Rightarrow> mapping option \<Rightarrow> out_event" where
  "enqueue_artifact_update task_id context_id artifact_id part app last_chunk artifact_metadata =
     ArtifactUpdate task_id context_id artifact_id part app
       (if last_chunk = Some True then Some True else None)
       (Option.bind artifact_metadata dict_or_none)"

section \<open>Configuration and state\<close>

record runtime_cfg =
  cf_session_id :: string
  cf_identity :: string
  cf_task_id :: string
  cf_context_id :: string
  cf_artifact_id :: string
  cf_allow_structured_output :: bool
  cf_switches :: metadata_switches
  cf_float_repr :: "rat \<Rightarrow> string"

record 's runtime =
  rt_out :: stream_output
  rt_parts :: "(string \<times> stream_part_state) list"
  rt_pending :: "(string \<times> pending_delta list) list"
  rt_queue :: "out_event list"
  rt_metrics :: "string list"
  rt_interrupts :: 's
  rt_stop :: bool
  rt_signal :: "terminal_signal option"

definition runtime_init :: "stream_output \<Rightarrow> 's \<Rightarrow> 's runtime" where
  "runtime_init out interrupts =
     \<lparr>rt_out = out, rt_parts = [], rt_pending = [], rt_queue = [], rt_metrics = [],
      rt_interrupts = interrupts, rt_stop = False, rt_signal = None\<rparr>"

section \<open>Emitting\<close>

definition emit_chunk :: "runtime_cfg \<Rightarrow> stream_chunk \<Rightarrow> 's runtime \<Rightarrow> 's runtime" where
  "emit_chunk cfg c s =
     (let out = rt_out s;
          message_id = resolve_message_id (sc_message_id c) out;
          chunk_text = (case has_text (pt_content (sc_part c)) of None \<Rightarrow> [] | Some t \<Rightarrow> t)
      in if should_drop_initial_user_echo chunk_text (sc_block_type c) (sc_role c) out then s
         else (let ((should_emit, effective_append), out1) =
                     register_chunk (sc_artifact_id c) (sc_content_key c) (sc_append c)
                       (sc_accumulate_content c) out
               in if \<not> should_emit then s\<lparr>rt_out := out1\<rparr>
                  else (let out2 = (if sc_block_type c = TEXT
                                    then remember_text_artifact_id (Some (sc_artifact_id c)) out1
                                    else out1);
                            (sequence, out3) = next_sequence out2
                        in s\<lparr>rt_out := out3,
                             rt_queue := rt_queue s @ [enqueue_artifact_update (cf_task_id cfg)
                               (cf_context_id cfg) (sc_artifact_id c) (sc_part c) effective_append
                               (Some False)
                               (build_stream_artifact_metadata (sc_block_type c) (Some message_id)
                                  (Some (build_event_id sequence out3)) (Some sequence)
                                  (ms_include_streaming (cf_switches cfg)))],
                             rt_metrics := rt_metrics s @
                               (if sc_block_type c = TOOL_CALL
                                then [''tool_call_chunks_emitted_total''] else [])\<rparr>)))"

definition emit_chunks :: "runtime_cfg \<Rightarrow> stream_chunk list \<Rightarrow> 's runtime \<Rightarrow> 's runtime" where
  "emit_chunks cfg chunks s = fold (emit_chunk cfg) chunks s"

text \<open>A status update takes the next sequence number.\<close>

definition emit_status ::
    "runtime_cfg \<Rightarrow> task_state \<Rightarrow> string option \<Rightarrow> mapping option \<Rightarrow> mapping option
       \<Rightarrow> 's runtime \<Rightarrow> 's runtime" where
  "emit_status cfg state message_id progress interrupt s =
     (let (sequence, out) = next_sequence (rt_out s);
          stream = [(''message_id'', PStr (resolve_message_id message_id out)),
                    (''event_id'', PStr (build_event_id sequence out)),
                    (''sequence'', PInt sequence)]
      in s\<lparr>rt_out := out,
           rt_queue := rt_queue s @ [StatusUpdate (cf_task_id cfg) (cf_context_id cfg) state
             (build_output_metadata (Some (cf_session_id cfg)) None (Some stream) progress interrupt
                (cf_switches cfg))]\<rparr>)"

definition emit_interrupt_status ::
    "runtime_cfg \<Rightarrow> task_state \<Rightarrow> string \<Rightarrow> string \<Rightarrow> string \<Rightarrow> mapping option \<Rightarrow> string option
       \<Rightarrow> 's runtime \<Rightarrow> 's runtime" where
  "emit_interrupt_status cfg state request_id interrupt_type phase details resolution s =
     (let interrupt = dset_opt ''resolution'' (map_option PStr resolution)
            (dset_opt ''details'' (map_option PDict details)
              [(''request_id'', PStr request_id), (''type'', PStr interrupt_type),
               (''phase'', PStr phase)]);
          s1 = emit_status cfg state None None (Some interrupt) s
      in s1\<lparr>rt_metrics := rt_metrics s1 @
             (if phase = ''asked'' then [''interrupt_requests_total'']
              else if phase = ''resolved'' then [''interrupt_resolved_total''] else [])\<rparr>)"

section \<open>Chunks of a part\<close>

definition new_text_chunk :: "stream_part_state \<Rightarrow> string \<Rightarrow> string \<Rightarrow> stream_chunk" where
  "new_text_chunk st txt internal_source =
     \<lparr>sc_artifact_id = sp_artifact_id st, sc_part = text_part txt, sc_content_key = txt,
      sc_accumulate_content = True, sc_append = True, sc_block_type = sp_block_type st,
      sc_internal_source = internal_source, sc_shared_source = ''stream'',
      sc_part_id = sp_part_id st, sc_message_id = sp_message_id st, sc_role = sp_role st\<rparr>"

definition new_data_chunk ::
    "runtime_cfg \<Rightarrow> stream_part_state \<Rightarrow> mapping \<Rightarrow> string \<Rightarrow> bool \<Rightarrow> stream_chunk" where
  "new_data_chunk cfg st data content_key app =
     (let fallback_text = json_dumps (cf_float_repr cfg) True True (PDict data);
          structured = cf_allow_structured_output cfg
      in \<lparr>sc_artifact_id = sp_artifact_id st,
          sc_part = (if structured then make_data_part (PDict data) else text_part fallback_text),
          sc_content_key = (if structured then content_key else fallback_text),
          sc_accumulate_content = False, sc_append = app, sc_block_type = sp_block_type st,
          sc_internal_source = ''tool_part_update'', sc_shared_source = ''tool_part_update'',
          sc_part_id = sp_part_id st, sc_message_id = sp_message_id st, sc_role = sp_role st\<rparr>)"

definition resolve_stream_artifact_id :: "string \<Rightarrow> block_type \<Rightarrow> string option \<Rightarrow> string" where
  "resolve_stream_artifact_id artifact_id block part_id =
     (if block = TEXT then artifact_id @ '':text''
      else if block = REASONING then artifact_id @ '':reasoning''
      else (let normalized_part_id = strip (case part_id of None \<Rightarrow> [] | Some i \<Rightarrow> i)
            in if normalized_part_id \<noteq> [] then artifact_id @ '':tool:'' @ normalized_part_id
               else artifact_id @ '':tool''))"

definition upsert_part_state ::
    "string \<Rightarrow> (string \<times> stream_part_state) list \<Rightarrow> string \<Rightarrow> mapping \<Rightarrow> string option \<Rightarrow> string option
       \<Rightarrow> stream_part_state option" where
  "upsert_part_state base_artifact_id part_states part_id part role message_id =
     (case map_part_type_to_block_type (extract_stream_part_type part) of
        None \<Rightarrow> None
      | Some block \<Rightarrow>
          (let artifact_id = resolve_stream_artifact_id base_artifact_id block (Some part_id)
           in case map_of part_states part_id of
                None \<Rightarrow> Some \<lparr>sp_artifact_id = artifact_id, sp_block_type = block,
                              sp_part_id = Some part_id, sp_message_id = message_id,
                              sp_role = role, sp_buffer = [], sp_saw_delta = False\<rparr>
              | Some st \<Rightarrow>
                  Some (st\<lparr>sp_artifact_id := artifact_id, sp_block_type := block,
                           sp_part_id := Some part_id,
                           sp_role := (if role \<noteq> None then role else sp_role st),
                           sp_message_id := (if nonempty message_id \<noteq> None then message_id
                                             else sp_message_id st)\<rparr>)))"

definition note_message_id :: "string option \<Rightarrow> stream_part_state \<Rightarrow> stream_part_state" where
  "note_message_id message_id st =
     (if nonempty message_id \<noteq> None then st\<lparr>sp_message_id := message_id\<rparr> else st)"

definition delta_chunks ::
    "stream_part_state \<Rightarrow> string \<Rightarrow> string option \<Rightarrow> string
       \<Rightarrow> stream_part_state \<times> stream_chunk list" where
  "delta_chunks st delta_text message_id internal_source =
     (if delta_text = [] then (st, [])
      else (let st1 = (note_message_id message_id st)
                        \<lparr>sp_buffer := sp_buffer st @ delta_text, sp_saw_delta := True\<rparr>
            in (st1, [new_text_chunk st1 delta_text internal_source])))"

definition snapshot_chunks ::
    "stream_part_state \<Rightarrow> string \<Rightarrow> string option \<Rightarrow> stream_part_state \<times> stream_chunk list" where
  "snapshot_chunks st snapshot message_id =
     (let st1 = note_message_id message_id st; previous = sp_buffer st1
      in if snapshot = previous then (st1, [])
         else if startswith snapshot previous then
           (let delta_text = drop (length previous) snapshot; st2 = st1\<lparr>sp_buffer := snapshot\<rparr>
            in if delta_text = [] then (st2, [])
               else (st2, [new_text_chunk st2 delta_text ''part_text_diff'']))
         else (st1\<lparr>sp_buffer := snapshot\<rparr>, []))"

definition tool_chunks ::
    "runtime_cfg \<Rightarrow> stream_part_state \<Rightarrow> mapping \<Rightarrow> string option
       \<Rightarrow> stream_part_state \<times> stream_chunk list" where
  "tool_chunks cfg st part message_id =
     (case extract_tool_part_payload part of
        None \<Rightarrow> (st, [])
      | Some tool_payload \<Rightarrow>
          (let content_key = json_dumps (cf_float_repr cfg) False True (PDict tool_payload);
               st1 = note_message_id message_id st; previous = sp_buffer st1
           in if content_key = previous then (st1, [])
              else (let st2 = st1\<lparr>sp_buffer := content_key\<rparr>
                    in (st2, [new_data_chunk cfg st2 tool_payload content_key (previous \<noteq> [])]))))"

fun pending_chunks ::
    "pending_delta list \<Rightarrow> stream_part_state \<Rightarrow> stream_part_state \<times> stream_chunk list" where
  "pending_chunks [] st = (st, [])"
| "pending_chunks (b # bs) st =
     (if pd_field b \<noteq> ''text'' then pending_chunks bs st
      else (let (st1, c) = delta_chunks st (pd_delta b) (pd_message_id b) ''delta_event_buffered'';
                (st2, cs) = pending_chunks bs st1
            in (st2, c @ cs)))"

section \<open>One event\<close>

definition silent_role :: "string option \<Rightarrow> bool" where
  "silent_role role \<longleftrightarrow> role \<in> {Some ''user'', Some ''system''}"

definition handle_part_delta ::
    "runtime_cfg \<Rightarrow> mapping \<Rightarrow> string \<Rightarrow> string option \<Rightarrow> 's runtime \<Rightarrow> 's runtime" where
  "handle_part_delta cfg props part_id message_id s =
     (case (dget props ''field'', dget props ''delta'') of
        (PStr field, PStr delta) \<Rightarrow>
          if field \<noteq> ''text'' \<or> delta = [] then s
          else (case map_of (rt_parts s) part_id of
                  None \<Rightarrow>
                    s\<lparr>rt_pending := dset part_id
                        ((case map_of (rt_pending s) part_id of None \<Rightarrow> [] | Some l \<Rightarrow> l) @
                         [\<lparr>pd_field = field, pd_delta = delta, pd_message_id = message_id\<rparr>])
                        (rt_pending s)\<rparr>
                | Some st \<Rightarrow>
                    if silent_role (sp_role st) then s
                    else (let (st1, chunks) = delta_chunks st delta message_id ''delta_event''
                          in emit_chunks cfg chunks
                               (s\<lparr>rt_parts := dset part_id st1 (rt_parts s)\<rparr>)))
      | _ \<Rightarrow> s)"

definition py_or :: "pyval \<Rightarrow> pyval \<Rightarrow> pyval" where
  "py_or a b = (if truthy a then a else b)"

text \<open>The chunks of a \<open>message.part.updated\<close> event after the buffered deltas.\<close>

definition update_chunks ::
    "runtime_cfg \<Rightarrow> mapping \<Rightarrow> mapping \<Rightarrow> string option \<Rightarrow> stream_part_state
       \<Rightarrow> stream_part_state \<times> stream_chunk list" where
  "update_chunks cfg part props message_id st =
     (case nonempty (as_str (dget props ''delta'')) of
        Some delta \<Rightarrow> delta_chunks st delta message_id ''delta''
      | None \<Rightarrow>
          if sp_block_type st = TOOL_CALL then tool_chunks cfg st part message_id
          else (case extract_stream_snapshot_text part of
                  None \<Rightarrow> (st, [])
                | Some snapshot \<Rightarrow> snapshot_chunks st snapshot message_id))"

definition handle_part_updated ::
    "runtime_cfg \<Rightarrow> mapping \<Rightarrow> mapping \<Rightarrow> string \<Rightarrow> string option \<Rightarrow> 's runtime \<Rightarrow> 's runtime" where
  "handle_part_updated cfg part props part_id message_id s =
     (let role = normalize_role (py_or (dget part ''role'') (dget props ''role''));
          pending = (case map_of (rt_pending s) part_id of None \<Rightarrow> [] | Some l \<Rightarrow> l);
          popped = ddel part_id (rt_pending s)
      in case upsert_part_state (cf_artifact_id cfg) (rt_parts s) part_id part role message_id of
           None \<Rightarrow> s\<lparr>rt_pending := popped\<rparr>
         | Some st \<Rightarrow>
             if silent_role (sp_role st)
             then s\<lparr>rt_parts := dset part_id st (rt_parts s), rt_pending := popped\<rparr>
             else (let (st1, buffered) = pending_chunks pending st;
                       (st2, chunks) = update_chunks cfg part props message_id st1
                   in emit_chunks cfg (buffered @ chunks)
                        (s\<lparr>rt_parts := dset part_id st2 (rt_parts s), rt_pending := popped\<rparr>)))"

definition handle_part ::
    "runtime_cfg \<Rightarrow> string \<Rightarrow> mapping \<Rightarrow> 's runtime \<Rightarrow> 's runtime" where
  "handle_part cfg event_type props s =
     (if event_type \<notin> {''message.part.updated'', ''message.part.delta''} then s
      else (let part = mapping_or_empty (dget props ''part'')
            in if extract_stream_session_id part props \<noteq> Some (cf_session_id cfg) then s
               else (let message_id = extract_stream_message_id part props
                     in case extract_stream_part_id part props of
                          None \<Rightarrow> s
                        | Some part_id \<Rightarrow>
                            if event_type = ''message.part.delta''
                            then handle_part_delta cfg props part_id message_id s
                            else handle_part_updated cfg part props part_id message_id s)))"

definition handle_progress :: "runtime_cfg \<Rightarrow> mapping \<Rightarrow> 's runtime \<Rightarrow> 's runtime" where
  "handle_progress cfg props s =
     (case dget props ''part'' of
        PDict part \<Rightarrow>
          (case extract_progress_metadata part of
             None \<Rightarrow> s
           | Some progress \<Rightarrow>
               (let (fresh, out) = register_progress (build_progress_identity part props)
                      (json_dumps (cf_float_repr cfg) False True (PDict progress)) (rt_out s);
                    s1 = s\<lparr>rt_out := out\<rparr>
                in if fresh \<and> ms_include_streaming (cf_switches cfg)
                   then emit_status cfg TASK_STATE_WORKING (extract_stream_message_id part props)
                          (Some progress) None s1
                   else s1))
      | _ \<Rightarrow> s)"

definition handle_upstream_error :: "mapping \<Rightarrow> 's runtime \<Rightarrow> 's runtime" where
  "handle_upstream_error event s =
     (let upstream_error = extract_upstream_error_from_event event; out = rt_out s
      in if upstream_error \<noteq> None \<and> so_upstream_error out = None
         then s\<lparr>rt_out := out\<lparr>so_upstream_error := upstream_error\<rparr>\<rparr> else s)"

definition handle_terminal_signal :: "mapping \<Rightarrow> 's runtime \<Rightarrow> 's runtime" where
  "handle_terminal_signal event s =
     (let signal = extract_stream_terminal_signal event
      in if signal \<noteq> None \<and> rt_signal s = None
         then s\<lparr>rt_signal := signal, rt_stop := True\<rparr> else s)"

definition handle_token_usage :: "mapping \<Rightarrow> 's runtime \<Rightarrow> 's runtime" where
  "handle_token_usage event s =
     (case extract_token_usage (PDict event) of
        None \<Rightarrow> s
      | Some usage \<Rightarrow> s\<lparr>rt_out := ingest_token_usage (Some usage) (rt_out s)\<rparr>)"

definition asked_request :: "runtime_cfg \<Rightarrow> interrupt_asked \<Rightarrow> interrupt_request" where
  "asked_request cfg a =
     \<lparr>ir_request_id = as_request_id a, ir_session_id = cf_session_id cfg,
      ir_interrupt_type = as_interrupt_type a, ir_identity = Some (cf_identity cfg),
      ir_credential_id = None, ir_task_id = Some (cf_task_id cfg),
      ir_context_id = Some (cf_context_id cfg), ir_details = Some (as_details a)\<rparr>"

definition handle_asked ::
    "runtime_cfg \<Rightarrow> 's interrupt_tracker \<Rightarrow> mapping \<Rightarrow> 's runtime \<Rightarrow> 's runtime" where
  "handle_asked cfg T event s =
     (case extract_interrupt_asked_event event of
        None \<Rightarrow> s
      | Some a \<Rightarrow>
          (let (fresh, out) = mark_interrupt_pending (as_request_id a) (rt_out s);
               s1 = s\<lparr>rt_out := out\<rparr>
           in if fresh
              then emit_interrupt_status cfg TASK_STATE_INPUT_REQUIRED (as_request_id a)
                     (as_interrupt_type a) ''asked'' (Some (as_details a)) None
                     (s1\<lparr>rt_interrupts :=
                           tracker_remember T (asked_request cfg a) None (rt_interrupts s1)\<rparr>)
              else s1))"

definition handle_resolved ::
    "runtime_cfg \<Rightarrow> 's interrupt_tracker \<Rightarrow> mapping \<Rightarrow> 's runtime \<Rightarrow> 's runtime" where
  "handle_resolved cfg T event s =
     (case extract_interrupt_resolved_event event of
        None \<Rightarrow> s
      | Some r \<Rightarrow>
          (let (cleared, out) = clear_interrupt_pending (rv_request_id r) (rt_out s);
               s1 = s\<lparr>rt_out := out,
                       rt_interrupts := tracker_discard T (rv_request_id r) (rt_interrupts s)\<rparr>
           in if cleared
              then emit_interrupt_status cfg TASK_STATE_WORKING (rv_request_id r)
                     (rv_interrupt_type r) ''resolved'' None (Some (rv_resolution r)) s1
              else s1))"

definition handle_event ::
    "runtime_cfg \<Rightarrow> 's interrupt_tracker \<Rightarrow> mapping \<Rightarrow> 's runtime \<Rightarrow> 's runtime" where
  "handle_event cfg T event s =
     (case (dget event ''type'', dget event ''properties'') of
        (PStr event_type, PDict props) \<Rightarrow>
          handle_part cfg event_type props
            (if extract_event_session_id event = Some (cf_session_id cfg)
             then handle_resolved cfg T event (handle_asked cfg T event
                    (handle_token_usage event (handle_terminal_signal event
                      (handle_upstream_error event (handle_progress cfg props s)))))
             else s)
      | _ \<Rightarrow> s)"

section \<open>The loop\<close>

text \<open>
  One connection yields events, each at a time, and may see the stop event set from outside;
  it ends normally or, when the flag is set, with an exception. The result says whether the
  loop over the events was left by \<open>break\<close>.
\<close>

datatype stream_item = Received seconds mapping | StopRequested

fun run_events ::
    "runtime_cfg \<Rightarrow> (seconds \<Rightarrow> 's interrupt_tracker) \<Rightarrow> stream_item list \<Rightarrow> 's runtime
       \<Rightarrow> bool \<times> 's runtime" where
  "run_events cfg T [] s = (False, s)"
| "run_events cfg T (StopRequested # items) s = run_events cfg T items (s\<lparr>rt_stop := True\<rparr>)"
| "run_events cfg T (Received now event # items) s =
     (if rt_stop s then (True, s) else run_events cfg T items (handle_event cfg (T now) event s))"

text \<open>\<open>consume\<close>: the connections the upstream accepts, and the pauses between them.\<close>

fun consume_connections ::
    "runtime_cfg \<Rightarrow> (seconds \<Rightarrow> 's interrupt_tracker) \<Rightarrow> (stream_item list \<times> bool) list \<Rightarrow> rat
       \<Rightarrow> 's runtime \<Rightarrow> rat list \<times> 's runtime" where
  "consume_connections cfg T [] backoff s = ([], s)"
| "consume_connections cfg T ((items, fails) # rest) backoff s =
     (if rt_stop s then ([], s)
      else (let (left_by_break, s1) = run_events cfg T items s
            in if left_by_break \<or> \<not> fails \<or> rt_stop s1 then ([], s1)
               else (let s2 = s1\<lparr>rt_metrics := rt_metrics s1 @ [''opencode_stream_retries_total'']\<rparr>;
                         (waits, s3) = consume_connections cfg T rest (min (backoff * 2) 5) s2
                     in (backoff # waits, s3))))"

definition consume ::
    "runtime_cfg \<Rightarrow> (seconds \<Rightarrow> 's interrupt_tracker) \<Rightarrow> (stream_item list \<times> bool) list
       \<Rightarrow> stream_output \<Rightarrow> 's \<Rightarrow> rat list \<times> 's runtime" where
  "consume cfg T connections out interrupts =
     consume_connections cfg T connections (1 / 2) (runtime_init out interrupts)"

section \<open>The steps of a stream\<close>

text \<open>
  What handling an event does to the queue, and to the part of the state the queue depends on,
  is a sequence of five kinds of steps. Facts about the queue are proved over the steps.
\<close>

definition same_core :: "'s runtime \<Rightarrow> 's runtime \<Rightarrow> bool" where
  "same_core s s' \<longleftrightarrow> rt_queue s' = rt_queue s \<and>
     so_sequence (rt_out s') = so_sequence (rt_out s) \<and>
     so_event_id_namespace (rt_out s') = so_event_id_namespace (rt_out s) \<and>
     so_artifact_content_buffers (rt_out s') = so_artifact_content_buffers (rt_out s) \<and>
     so_emitted_artifact_ids (rt_out s') = so_emitted_artifact_ids (rt_out s) \<and>
     so_pending_interrupts (rt_out s') = so_pending_interrupts (rt_out s) \<and>
     so_text_artifact_id (rt_out s') = so_text_artifact_id (rt_out s)"

definition chunk_ok :: "runtime_cfg \<Rightarrow> stream_chunk \<Rightarrow> bool" where
  "chunk_ok cfg c \<longleftrightarrow>
     sc_artifact_id c = resolve_stream_artifact_id (cf_artifact_id cfg) (sc_block_type c) (sc_part_id c)
     \<and> \<not> silent_role (sc_role c)
     \<and> (if sc_accumulate_content c
        then sc_append c \<and> sc_part c = text_part (sc_content_key c) \<and> sc_content_key c \<noteq> []
        else sc_block_type c = TOOL_CALL)"

inductive rt_step :: "runtime_cfg \<Rightarrow> 's runtime \<Rightarrow> 's runtime \<Rightarrow> bool" for cfg where
  quiet: "same_core s s' \<Longrightarrow> rt_step cfg s s'"
| chunk: "chunk_ok cfg c \<Longrightarrow> rt_step cfg s (emit_chunk cfg c s)"
| progress: "ms_include_streaming (cf_switches cfg) \<Longrightarrow>
    rt_step cfg s (emit_status cfg TASK_STATE_WORKING message_id (Some progress) None s)"
| asked: "mark_interrupt_pending request_id (rt_out s) = (True, out) \<Longrightarrow> strip request_id = request_id \<Longrightarrow>
    rt_step cfg s (emit_interrupt_status cfg TASK_STATE_INPUT_REQUIRED request_id kind ''asked''
      (Some details) None (s\<lparr>rt_out := out, rt_interrupts := i\<rparr>))"
| resolved: "clear_interrupt_pending request_id (rt_out s) = (True, out) \<Longrightarrow>
    strip request_id = request_id \<Longrightarrow>
    rt_step cfg s (emit_interrupt_status cfg TASK_STATE_WORKING request_id kind ''resolved''
      None (Some resolution) (s\<lparr>rt_out := out, rt_interrupts := i\<rparr>))"

definition part_ok :: "runtime_cfg \<Rightarrow> string \<Rightarrow> stream_part_state \<Rightarrow> bool" where
  "part_ok cfg part_id st \<longleftrightarrow> sp_part_id st = Some part_id \<and>
     sp_artifact_id st =
       resolve_stream_artifact_id (cf_artifact_id cfg) (sp_block_type st) (Some part_id)"

definition parts_ok :: "runtime_cfg \<Rightarrow> 's runtime \<Rightarrow> bool" where
  "parts_ok cfg s \<longleftrightarrow> (\<forall>p st. map_of (rt_parts s) p = Some st \<longrightarrow> part_ok cfg p st)"

lemma parts_okD: "parts_ok cfg s \<Longrightarrow> map_of (rt_parts s) p = Some st \<Longrightarrow> part_ok cfg p st"
  by (simp add: parts_ok_def)

lemma parts_ok_dset:
  "parts_ok cfg s \<Longrightarrow> part_ok cfg p st \<Longrightarrow> rt_parts s' = dset p st (rt_parts s) \<Longrightarrow> parts_ok cfg s'"
  by (simp add: parts_ok_def)

subsection \<open>Chunks are well formed\<close>

lemma note_message_id_simps [simp]:
  "sp_artifact_id (note_message_id i st) = sp_artifact_id st"
  "sp_block_type (note_message_id i st) = sp_block_type st"
  "sp_part_id (note_message_id i st) = sp_part_id st"
  "sp_role (note_message_id i st) = sp_role st"
  "sp_buffer (note_message_id i st) = sp_buffer st"
  by (simp_all add: note_message_id_def)

text \<open>What every producer of chunks keeps of the part, and what it produces.\<close>

definition produces ::
    "runtime_cfg \<Rightarrow> string \<Rightarrow> stream_part_state \<Rightarrow> stream_part_state \<times> stream_chunk list \<Rightarrow> bool" where
  "produces cfg p st r \<longleftrightarrow> part_ok cfg p (fst r) \<and> sp_role (fst r) = sp_role st \<and>
     sp_block_type (fst r) = sp_block_type st \<and> (\<forall>c \<in> set (snd r). chunk_ok cfg c)"

lemma text_chunk_ok:
  "part_ok cfg p st \<Longrightarrow> \<not> silent_role (sp_role st) \<Longrightarrow> t \<noteq> [] \<Longrightarrow> chunk_ok cfg (new_text_chunk st t src)"
  by (simp add: chunk_ok_def new_text_chunk_def part_ok_def)

lemma delta_chunks_produces:
  "part_ok cfg p st \<Longrightarrow> \<not> silent_role (sp_role st) \<Longrightarrow> produces cfg p st (delta_chunks st t mid src)"
  by (auto simp: produces_def delta_chunks_def Let_def part_ok_def intro!: text_chunk_ok)

lemma snapshot_chunks_produces:
  "part_ok cfg p st \<Longrightarrow> \<not> silent_role (sp_role st) \<Longrightarrow> produces cfg p st (snapshot_chunks st t mid)"
  by (auto simp: produces_def snapshot_chunks_def Let_def part_ok_def intro!: text_chunk_ok)

lemma tool_chunks_produces:
  "part_ok cfg p st \<Longrightarrow> \<not> silent_role (sp_role st) \<Longrightarrow> sp_block_type st = TOOL_CALL \<Longrightarrow>
     produces cfg p st (tool_chunks cfg st part mid)"
  by (auto simp: produces_def tool_chunks_def Let_def part_ok_def new_data_chunk_def chunk_ok_def
      split: option.splits)

lemma update_chunks_produces:
  "part_ok cfg p st \<Longrightarrow> \<not> silent_role (sp_role st) \<Longrightarrow>
     produces cfg p st (update_chunks cfg part props mid st)"
  using delta_chunks_produces [of cfg p st] snapshot_chunks_produces [of cfg p st]
    tool_chunks_produces [of cfg p st]
  by (auto simp: update_chunks_def produces_def split: option.splits)

lemma pending_chunks_produces:
  "part_ok cfg p st \<Longrightarrow> \<not> silent_role (sp_role st) \<Longrightarrow> produces cfg p st (pending_chunks bs st)"
proof (induction bs arbitrary: st)
  case (Cons b bs)
  let ?d = "delta_chunks st (pd_delta b) (pd_message_id b) ''delta_event_buffered''"
  have d: "produces cfg p st ?d" by (rule delta_chunks_produces [OF Cons.prems])
  then have "produces cfg p (fst ?d) (pending_chunks bs (fst ?d))"
    using Cons.IH [of "fst ?d"] Cons.prems(2) by (simp add: produces_def)
  with d Cons.IH [OF Cons.prems] show ?case
    by (auto simp: produces_def case_prod_unfold Let_def)
qed (simp add: produces_def)

lemma upsert_ok:
  "upsert_part_state (cf_artifact_id cfg) parts p part role mid = Some st \<Longrightarrow> part_ok cfg p st"
  by (auto simp: upsert_part_state_def part_ok_def Let_def split: option.splits)

subsection \<open>Handlers are sequences of steps\<close>

lemma quiet_steps: "same_core s s' \<Longrightarrow> (rt_step cfg)\<^sup>*\<^sup>* s s'"
  by (intro r_into_rtranclp rt_step.quiet)

lemma emit_chunk_parts [simp]: "rt_parts (emit_chunk cfg c s) = rt_parts s"
  by (simp add: emit_chunk_def Let_def case_prod_unfold)

lemma emit_chunks_parts [simp]: "rt_parts (emit_chunks cfg cs s) = rt_parts s"
  by (induction cs arbitrary: s) (simp_all add: emit_chunks_def)

lemma emit_chunks_steps:
  "\<forall>c \<in> set cs. chunk_ok cfg c \<Longrightarrow> (rt_step cfg)\<^sup>*\<^sup>* s (emit_chunks cfg cs s)"
proof (induction cs arbitrary: s)
  case (Cons c cs)
  have "rt_step cfg s (emit_chunk cfg c s)" using Cons.prems by (intro rt_step.chunk) simp
  with Cons.IH [of "emit_chunk cfg c s"] Cons.prems show ?case
    by (simp add: emit_chunks_def)
qed (simp add: emit_chunks_def)

lemma emit_after_quiet:
  assumes "same_core s s1" and "\<forall>c \<in> set cs. chunk_ok cfg c"
  shows "(rt_step cfg)\<^sup>*\<^sup>* s (emit_chunks cfg cs s1)"
  using quiet_steps [OF assms(1)] emit_chunks_steps [OF assms(2)] by (rule rtranclp_trans)

text \<open>A handler that takes steps and keeps the parts well formed.\<close>

definition steps_to :: "runtime_cfg \<Rightarrow> 's runtime \<Rightarrow> 's runtime \<Rightarrow> bool" where
  "steps_to cfg s s' \<longleftrightarrow> (parts_ok cfg s \<longrightarrow> parts_ok cfg s' \<and> (rt_step cfg)\<^sup>*\<^sup>* s s')"

lemma steps_to_refl [simp, intro]: "steps_to cfg s s"
  by (simp add: steps_to_def)

lemma steps_to_trans: "steps_to cfg a b \<Longrightarrow> steps_to cfg b c \<Longrightarrow> steps_to cfg a c"
  by (auto simp: steps_to_def)

lemma steps_to_quiet: "same_core s s' \<Longrightarrow> rt_parts s' = rt_parts s \<Longrightarrow> steps_to cfg s s'"
  by (simp add: steps_to_def parts_ok_def quiet_steps)

lemma steps_to_step: "rt_step cfg s s' \<Longrightarrow> rt_parts s' = rt_parts s \<Longrightarrow> steps_to cfg s s'"
  by (simp add: steps_to_def parts_ok_def r_into_rtranclp)

lemma emit_status_parts [simp]: "rt_parts (emit_status cfg st mid pr i s) = rt_parts s"
  by (simp add: emit_status_def next_sequence_def Let_def)

lemma emit_interrupt_status_parts [simp]:
  "rt_parts (emit_interrupt_status cfg st rid k ph d r s) = rt_parts s"
  by (simp add: emit_interrupt_status_def Let_def)

lemma delta_steps: "steps_to cfg s (handle_part_delta cfg props p mid s)"
  unfolding steps_to_def
proof
  assume ok: "parts_ok cfg s"
  consider (same) "handle_part_delta cfg props p mid s = s"
    | (buffered) l where "handle_part_delta cfg props p mid s = s\<lparr>rt_pending := l\<rparr>"
    | (live) st t st1 cs where "map_of (rt_parts s) p = Some st" "\<not> silent_role (sp_role st)"
        "delta_chunks st t mid ''delta_event'' = (st1, cs)"
        "handle_part_delta cfg props p mid s =
           emit_chunks cfg cs (s\<lparr>rt_parts := dset p st1 (rt_parts s)\<rparr>)"
  proof -
    let ?h = "handle_part_delta cfg props p mid s"
    show thesis
    proof (cases "\<exists>t. dget props ''field'' = PStr ''text'' \<and> dget props ''delta'' = PStr t \<and> t \<noteq> []")
      case False
      then have "?h = s" by (simp add: handle_part_delta_def split: pyval.splits)
      then show thesis by (rule that(1))
    next
      case True
      then obtain t where t: "dget props ''field'' = PStr ''text''" "dget props ''delta'' = PStr t"
        "t \<noteq> []" by blast
      show thesis
      proof (cases "map_of (rt_parts s) p")
        case None
        with t that(2) show thesis by (simp add: handle_part_delta_def)
      next
        case (Some st)
        obtain st1 cs where d: "delta_chunks st t mid ''delta_event'' = (st1, cs)" by fastforce
        show thesis
        proof (cases "silent_role (sp_role st)")
          case True
          with t Some that(1) show thesis by (simp add: handle_part_delta_def)
        next
          case False
          with t Some d that(3) [OF Some False d] show thesis by (simp add: handle_part_delta_def)
        qed
      qed
    qed
  qed
  then show "parts_ok cfg (handle_part_delta cfg props p mid s) \<and>
      (rt_step cfg)\<^sup>*\<^sup>* s (handle_part_delta cfg props p mid s)"
  proof cases
    case same
    with ok show ?thesis by simp
  next
    case buffered
    with ok show ?thesis by (auto simp: parts_ok_def same_core_def intro!: quiet_steps)
  next
    case live
    have "produces cfg p st (st1, cs)"
      unfolding live(3) [symmetric]
      by (rule delta_chunks_produces [OF parts_okD [OF ok live(1)] live(2)])
    with ok show ?thesis unfolding live(4)
      by (auto simp: produces_def same_core_def intro!: emit_after_quiet intro: parts_ok_dset)
  qed
qed

lemma updated_steps: "steps_to cfg s (handle_part_updated cfg part props p mid s)"
  unfolding steps_to_def
proof
  assume ok: "parts_ok cfg s"
  let ?u = "upsert_part_state (cf_artifact_id cfg) (rt_parts s) p part
      (normalize_role (py_or (dget part ''role'') (dget props ''role''))) mid"
  show "parts_ok cfg (handle_part_updated cfg part props p mid s) \<and>
      (rt_step cfg)\<^sup>*\<^sup>* s (handle_part_updated cfg part props p mid s)"
  proof (cases ?u)
    case None
    with ok show ?thesis
      by (auto simp: handle_part_updated_def Let_def parts_ok_def same_core_def intro!: quiet_steps)
  next
    case (Some st)
    note p_ok = upsert_ok [OF Some]
    show ?thesis
    proof (cases "silent_role (sp_role st)")
      case True
      with ok p_ok Some show ?thesis
        by (auto simp: handle_part_updated_def Let_def same_core_def
            intro!: quiet_steps intro: parts_ok_dset)
    next
      case False
      define b where "b = pending_chunks (case map_of (rt_pending s) p of None \<Rightarrow> [] | Some l \<Rightarrow> l) st"
      define r where "r = update_chunks cfg part props mid (fst b)"
      have b: "produces cfg p st b" unfolding b_def by (rule pending_chunks_produces [OF p_ok False])
      then have r: "produces cfg p (fst b) r"
        unfolding r_def using False by (intro update_chunks_produces) (simp_all add: produces_def)
      have eq: "handle_part_updated cfg part props p mid s = emit_chunks cfg (snd b @ snd r)
          (s\<lparr>rt_parts := dset p (fst r) (rt_parts s), rt_pending := ddel p (rt_pending s)\<rparr>)"
        by (simp add: handle_part_updated_def Some False b_def r_def case_prod_unfold Let_def)
      show ?thesis unfolding eq using b r ok
        by (auto simp: produces_def same_core_def intro!: emit_after_quiet intro: parts_ok_dset)
    qed
  qed
qed

lemma part_steps: "steps_to cfg s (handle_part cfg ty props s)"
  using delta_steps updated_steps
  by (auto simp: handle_part_def Let_def split: option.splits)

lemma progress_steps: "steps_to cfg s (handle_progress cfg props s)"
proof -
  have quiet: "steps_to cfg s (s\<lparr>rt_out := snd (register_progress i k (rt_out s))\<rparr>)" for i k
    by (intro steps_to_quiet) (auto simp: same_core_def register_progress_def)
  have step: "ms_include_streaming (cf_switches cfg) \<Longrightarrow>
      steps_to cfg s1 (emit_status cfg TASK_STATE_WORKING m (Some pr) None s1)"
    for s1 :: "'a runtime" and m pr
    by (intro steps_to_step rt_step.progress) auto
  show ?thesis
    using quiet steps_to_trans [OF quiet step]
    by (auto simp: handle_progress_def Let_def case_prod_unfold split: pyval.splits option.splits)
qed

lemma error_steps: "steps_to cfg s (handle_upstream_error event s)"
  by (auto simp: handle_upstream_error_def Let_def same_core_def intro!: steps_to_quiet)

lemma signal_steps: "steps_to cfg s (handle_terminal_signal event s)"
  by (auto simp: handle_terminal_signal_def Let_def same_core_def intro!: steps_to_quiet)

lemma usage_steps: "steps_to cfg s (handle_token_usage event s)"
  by (auto simp: handle_token_usage_def ingest_token_usage_def same_core_def
      intro!: steps_to_quiet split: option.splits)

lemma mark_False: "fst (mark_interrupt_pending i out) = False \<Longrightarrow> snd (mark_interrupt_pending i out) = out"
  by (auto simp: mark_interrupt_pending_def Let_def split: if_splits)

lemma clear_False: "fst (clear_interrupt_pending i out) = False \<Longrightarrow> snd (clear_interrupt_pending i out) = out"
  by (auto simp: clear_interrupt_pending_def Let_def split: if_splits)

lemma asked_steps: "steps_to cfg s (handle_asked cfg T event s)"
proof (cases "extract_interrupt_asked_event event")
  case (Some a)
  obtain fresh out where m: "mark_interrupt_pending (as_request_id a) (rt_out s) = (fresh, out)"
    by fastforce
  show ?thesis
  proof (cases fresh)
    case True
    with m asked_fields(2) [OF Some] show ?thesis
      by (auto simp: handle_asked_def Some Let_def intro!: steps_to_step rt_step.asked)
  next
    case False
    with m mark_False [of "as_request_id a" "rt_out s"] have "out = rt_out s" by simp
    with m False show ?thesis by (simp add: handle_asked_def Some)
  qed
qed (simp add: handle_asked_def)

lemma resolved_steps: "steps_to cfg s (handle_resolved cfg T event s)"
proof (cases "extract_interrupt_resolved_event event")
  case (Some r)
  obtain cleared out where m: "clear_interrupt_pending (rv_request_id r) (rt_out s) = (cleared, out)"
    by fastforce
  show ?thesis
  proof (cases cleared)
    case True
    with m resolved_fields(2) [OF Some] show ?thesis
      by (auto simp: handle_resolved_def Some Let_def intro!: steps_to_step rt_step.resolved)
  next
    case False
    with m clear_False [of "rv_request_id r" "rt_out s"] have "out = rt_out s" by simp
    with m False show ?thesis
      by (auto simp: handle_resolved_def Some same_core_def intro!: steps_to_quiet)
  qed
qed (simp add: handle_resolved_def)

lemma event_steps: "steps_to cfg s (handle_event cfg T event s)"
proof -
  have session: "steps_to cfg s (handle_resolved cfg T event (handle_asked cfg T event
      (handle_token_usage event (handle_terminal_signal event
        (handle_upstream_error event (handle_progress cfg props s))))))" (is "steps_to cfg s (?h props)")
    for props
    by (rule steps_to_trans [OF steps_to_trans [OF steps_to_trans [OF steps_to_trans [OF
          steps_to_trans [OF progress_steps error_steps] signal_steps] usage_steps] asked_steps]
          resolved_steps])
  have "steps_to cfg s (handle_part cfg ty props (if b then ?h props else s))" for ty props b
    using session [of props] by (cases b) (simp_all add: part_steps steps_to_trans [OF _ part_steps])
  then show ?thesis by (simp add: handle_event_def split: pyval.split)
qed

lemma run_events_steps: "steps_to cfg s (snd (run_events cfg T items s))"
proof (induction cfg T items s rule: run_events.induct)
  case (2 cfg T items s)
  have "steps_to cfg s (s\<lparr>rt_stop := True\<rparr>)" by (intro steps_to_quiet) (auto simp: same_core_def)
  with 2 show ?case by (auto intro: steps_to_trans)
next
  case (3 cfg T now event items s)
  then show ?case using event_steps [of cfg s "T now" event] by (auto intro: steps_to_trans)
qed simp

lemma consume_steps: "steps_to cfg s (snd (consume_connections cfg T cs backoff s))"
proof (induction cfg T cs backoff s rule: consume_connections.induct)
  case (2 cfg T items fails rest backoff s)
  obtain br s1 where r: "run_events cfg T items s = (br, s1)" by fastforce
  have one: "steps_to cfg s s1" using run_events_steps [of cfg s T items] by (simp add: r)
  have two: "steps_to cfg s1 (s1\<lparr>rt_metrics := m\<rparr>)" for m
    by (intro steps_to_quiet) (auto simp: same_core_def)
  show ?case
  proof (cases "rt_stop s \<or> br \<or> \<not> fails \<or> rt_stop s1")
    case True
    with one r show ?thesis by auto
  next
    case False
    with 2 [OF _ r [symmetric] refl _ refl] r show ?thesis
      by (auto simp: Let_def case_prod_unfold intro: steps_to_trans [OF one] steps_to_trans [OF two])
  qed
qed simp

text \<open>Everything \<open>consume\<close> does is a sequence of steps from the initial state.\<close>

lemma consume_reach:
  "(rt_step cfg)\<^sup>*\<^sup>* (runtime_init out i) (snd (consume cfg T cs out i))"
  using consume_steps [of cfg "runtime_init out i" T cs "1 / 2"]
  by (simp add: consume_def steps_to_def parts_ok_def runtime_init_def)

text \<open>An invariant of the steps holds of every run of \<open>consume\<close>.\<close>

lemma consume_invariant:
  assumes "P (runtime_init out i)" and "\<And>s s'. P s \<Longrightarrow> rt_step cfg s s' \<Longrightarrow> P s'"
  shows "P (snd (consume cfg T cs out i))"
  using consume_reach by (induction rule: rtranclp_induct) (auto intro: assms)

end
