(* ===== verification/Stream_Updates.thy ===== *)
theory Stream_Updates
  imports Stream_Runtime
begin

text \<open>
  What the updates enqueued by \<open>execution/stream_runtime.py\<close> look like to the client that
  receives them: numbering, the flag \<open>append\<close>, the text a client puts together, the reports
  of interrupts, what is kept quiet, and the pauses before reconnections.
\<close>

section \<open>Facts about the queue\<close>

text \<open>The stream and the interrupt metadata of an enqueued event, empty when absent.\<close>

definition event_shared :: "out_event \<Rightarrow> mapping" where
  "event_shared e = (case oe_metadata e of None \<Rightarrow> [] | Some m \<Rightarrow> mapping_or_empty (dget m ''shared''))"

definition event_stream :: "out_event \<Rightarrow> mapping" where
  "event_stream e = mapping_or_empty (dget (event_shared e) ''stream'')"

definition event_interrupt :: "out_event \<Rightarrow> mapping" where
  "event_interrupt e = mapping_or_empty (dget (event_shared e) ''interrupt'')"

definition is_update_of :: "string \<Rightarrow> out_event \<Rightarrow> bool" where
  "is_update_of artifact_id e = (case e of ArtifactUpdate _ _ a _ _ _ _ \<Rightarrow> a = artifact_id | _ \<Rightarrow> False)"

text \<open>A chunk is dropped, or enqueued as one update with the next sequence number.\<close>

lemma emit_chunk_cases [consumes 0, case_names dropped emitted]:
  obtains (dropped) "same_core s (emit_chunk cfg c s)"
      "sc_accumulate_content c \<and> sc_append c \<and> sc_content_key c \<noteq> [] \<Longrightarrow> emit_chunk cfg c s = s"
  | (emitted) e k where "k = so_sequence (rt_out s) + 1"
      "e = ArtifactUpdate (cf_task_id cfg) (cf_context_id cfg) (sc_artifact_id c) (sc_part c)
         (sc_artifact_id c \<in> set (so_emitted_artifact_ids (rt_out s))) None
         (build_stream_artifact_metadata (sc_block_type c)
            (Some (resolve_message_id (sc_message_id c) (rt_out s)))
            (Some (build_event_id k (rt_out s))) (Some k) (ms_include_streaming (cf_switches cfg)))"
      "rt_queue (emit_chunk cfg c s) = rt_queue s @ [e]"
      "so_sequence (rt_out (emit_chunk cfg c s)) = k"
      "so_event_id_namespace (rt_out (emit_chunk cfg c s)) = so_event_id_namespace (rt_out s)"
      "so_pending_interrupts (rt_out (emit_chunk cfg c s)) = so_pending_interrupts (rt_out s)"
      "\<And>b. artifact_buffer b (rt_out (emit_chunk cfg c s)) =
         (if b = sc_artifact_id c then
            (if sc_append c \<and> sc_accumulate_content c then artifact_buffer b (rt_out s) @ sc_content_key c
             else sc_content_key c)
          else artifact_buffer b (rt_out s))"
      "set (so_emitted_artifact_ids (rt_out (emit_chunk cfg c s))) =
         insert (sc_artifact_id c) (set (so_emitted_artifact_ids (rt_out s)))"
      "so_text_artifact_id (rt_out (emit_chunk cfg c s)) =
         (if sc_block_type c = TEXT \<and> strip (sc_artifact_id c) \<noteq> []
          then Some (strip (sc_artifact_id c)) else so_text_artifact_id (rt_out s))"
proof -
  let ?txt = "case has_text (pt_content (sc_part c)) of None \<Rightarrow> [] | Some t \<Rightarrow> t"
  let ?r = "register_chunk (sc_artifact_id c) (sc_content_key c) (sc_append c)
      (sc_accumulate_content c) (rt_out s)"
  show thesis
  proof (cases "should_drop_initial_user_echo ?txt (sc_block_type c) (sc_role c) (rt_out s)
      \<or> \<not> fst (fst ?r)")
    case True
    then have "emit_chunk cfg c s = s"
      using register_chunk_skip [of "sc_artifact_id c" "sc_content_key c"]
      by (auto simp: emit_chunk_def Let_def case_prod_unfold)
    then show thesis by (intro dropped) (simp_all add: same_core_def)
  next
    case False
    have meta: "Option.bind (build_stream_artifact_metadata b m ev sq inc) dict_or_none =
        build_stream_artifact_metadata b m ev sq inc" for b m ev sq inc
      by (simp add: build_stream_artifact_metadata_def dict_or_none_def)
    have remember: "so_sequence (remember_text_artifact_id a out) = so_sequence out"
      "so_event_id_namespace (remember_text_artifact_id a out) = so_event_id_namespace out"
      "so_pending_interrupts (remember_text_artifact_id a out) = so_pending_interrupts out"
      "so_emitted_artifact_ids (remember_text_artifact_id a out) = so_emitted_artifact_ids out"
      "artifact_buffer b (remember_text_artifact_id a out) = artifact_buffer b out" for a b out
      by (simp_all add: remember_text_artifact_id_def artifact_buffer_def split: option.split)
    have remembered: "so_text_artifact_id (remember_text_artifact_id (Some a) out) =
        (if strip a \<noteq> [] then Some (strip a) else so_text_artifact_id out)" for a out
      by (auto simp: remember_text_artifact_id_def nonempty_strip_def Let_def)
    have kept: "so_text_artifact_id (snd ?r) = so_text_artifact_id (rt_out s)"
      by (simp add: register_chunk_def Let_def)
    have next_buffer: "artifact_buffer b (out\<lparr>so_sequence := k\<rparr>) = artifact_buffer b out" for b out k
      by (simp add: artifact_buffer_def)
    show thesis
      using False register_chunk_flag [of "sc_artifact_id c" "sc_content_key c"]
      by (intro emitted [OF refl refl])
        (auto simp: emit_chunk_def Let_def case_prod_unfold next_sequence_def
          enqueue_artifact_update_def meta remember remembered kept register_chunk_buffer register_chunk_emitted
          build_event_id_def next_buffer)
  qed
qed

lemma resolve_message_id_sequence [simp]:
  "resolve_message_id m (out\<lparr>so_sequence := k\<rparr>) = resolve_message_id m out"
  by (simp add: resolve_message_id_def split: option.split)

lemma emit_status_facts:
  "rt_queue (emit_status cfg st m pr i s) = rt_queue s @
     [StatusUpdate (cf_task_id cfg) (cf_context_id cfg) st
       (build_output_metadata (Some (cf_session_id cfg)) None
         (Some [(''message_id'', PStr (resolve_message_id m (rt_out s))),
                (''event_id'', PStr (build_event_id (so_sequence (rt_out s) + 1) (rt_out s))),
                (''sequence'', PInt (so_sequence (rt_out s) + 1))]) pr i (cf_switches cfg))]"
  "rt_out (emit_status cfg st m pr i s) = (rt_out s)\<lparr>so_sequence := so_sequence (rt_out s) + 1\<rparr>"
  by (simp_all add: emit_status_def next_sequence_def Let_def build_event_id_def)

lemma emit_interrupt_status_facts:
  "rt_queue (emit_interrupt_status cfg st rid k ph d r s) = rt_queue (emit_status cfg st None None
     (Some (dset_opt ''resolution'' (map_option PStr r) (dset_opt ''details'' (map_option PDict d)
       [(''request_id'', PStr rid), (''type'', PStr k), (''phase'', PStr ph)]))) s)"
  "rt_out (emit_interrupt_status cfg st rid k ph d r s) =
     (rt_out s)\<lparr>so_sequence := so_sequence (rt_out s) + 1\<rparr>"
  by (simp_all add: emit_interrupt_status_def Let_def emit_status_facts)

lemma mark_True:
  assumes "mark_interrupt_pending rid out = (True, out')" and "strip rid = rid"
  shows "out' = out\<lparr>so_pending_interrupts := rid # so_pending_interrupts out\<rparr>"
    and "rid \<notin> set (so_pending_interrupts out)" and "rid \<noteq> []"
  using assms by (auto simp: mark_interrupt_pending_def Let_def split: if_splits)

lemma clear_True:
  assumes "clear_interrupt_pending rid out = (True, out')" and "strip rid = rid"
  shows "out' = out\<lparr>so_pending_interrupts := removeAll rid (so_pending_interrupts out)\<rparr>"
    and "rid \<in> set (so_pending_interrupts out)"
  using assms by (auto simp: clear_interrupt_pending_def Let_def split: if_splits)

text \<open>The stream metadata of what a step enqueues.\<close>

lemma artifact_stream:
  "event_stream (ArtifactUpdate t c a p app l
     (build_stream_artifact_metadata b (Some m) (Some i) (Some k) True)) =
   dset ''sequence'' (PInt k) (dset_opt ''event_id'' (map_option PStr (nonempty (Some i)))
     (dset_opt ''message_id'' (map_option PStr (nonempty (Some m))) [(''block_type'', PStr (block_value b))]))"
  by (simp add: event_stream_def event_shared_def build_stream_artifact_metadata_def dget_def
      mapping_or_empty_def dset_opt_def)

lemma output_shared:
  "event_shared (StatusUpdate t c st (build_output_metadata sid us (Some str) pr i sw)) =
     dset_opt ''interrupt'' (if ms_include_interrupt sw then map_option PDict i else None)
       (dset_opt ''progress'' (if ms_include_streaming sw then map_option PDict pr else None)
         (dset_opt ''stream'' (if ms_include_streaming sw then Some (PDict str) else None)
           (dset_opt ''usage'' (if ms_include_streaming sw then map_option PDict us else None)
             (dset_opt ''session''
               (if ms_include_session sw
                then map_option (\<lambda>sid. PDict [(''id'', PStr sid)]) (nonempty sid) else None) []))))"
  by (simp add: event_shared_def build_output_metadata_def Let_def dget_def mapping_or_empty_def)

lemma status_stream:
  "ms_include_streaming sw \<Longrightarrow>
     event_stream (StatusUpdate t c st (build_output_metadata sid us (Some str) pr i sw)) = str"
  by (simp add: event_stream_def output_shared dget_def mapping_or_empty_def)

lemma status_interrupt:
  "ms_include_interrupt sw \<Longrightarrow>
     event_interrupt (StatusUpdate t c st (build_output_metadata sid us (Some str) pr i sw)) =
       (case i of None \<Rightarrow> [] | Some d \<Rightarrow> d)"
  by (simp add: event_interrupt_def output_shared dget_def mapping_or_empty_def split: option.split)

definition numbered :: "runtime_cfg \<Rightarrow> string \<Rightarrow> 's runtime \<Rightarrow> bool" where
  "numbered cfg ns s \<longleftrightarrow> so_sequence (rt_out s) = int (length (rt_queue s)) \<and>
     so_event_id_namespace (rt_out s) = ns \<and>
     (\<forall>i < length (rt_queue s).
        dget (event_stream (rt_queue s ! i)) ''sequence'' = PInt (int i + 1) \<and>
        dget (event_stream (rt_queue s ! i)) ''event_id'' = PStr (ns @ '':'' @ str_int (int i + 1)))"

lemma numbered_emit:
  assumes "numbered cfg ns s" and "rt_queue s' = rt_queue s @ [e]"
    and "so_sequence (rt_out s') = so_sequence (rt_out s) + 1"
    and "so_event_id_namespace (rt_out s') = ns"
    and "dget (event_stream e) ''sequence'' = PInt (so_sequence (rt_out s) + 1)"
    and "dget (event_stream e) ''event_id'' = PStr (build_event_id (so_sequence (rt_out s) + 1) (rt_out s))"
  shows "numbered cfg ns s'"
  using assms by (auto simp: numbered_def nth_append less_Suc_eq build_event_id_def)

lemma dget_Cons: "dget ((k, v) # d) x = (if x = k then v else dget d x)"
  by (simp add: dget_def)

lemma numbered_step:
  assumes stream: "ms_include_streaming (cf_switches cfg)"
    and inv: "numbered cfg ns s" and step: "rt_step cfg s s'"
  shows "numbered cfg ns s'"
  using step
proof cases
  case quiet
  with inv show ?thesis by (simp add: same_core_def numbered_def)
next
  case (chunk c)
  show ?thesis
  proof (cases cfg c s rule: emit_chunk_cases)
    case dropped
    with inv chunk show ?thesis by (simp add: same_core_def numbered_def)
  next
    case (emitted e k)
    have "nonempty (Some (build_event_id k (rt_out s))) = Some (build_event_id k (rt_out s))"
      by (simp add: nonempty_def build_event_id_def)
    with stream emitted inv chunk show ?thesis
      by (intro numbered_emit [OF inv, of s' e])
        (simp_all add: artifact_stream numbered_def dset_opt_def)
  qed
next
  case progress
  with inv stream show ?thesis
    by (intro numbered_emit [OF inv])
      (simp add: emit_status_facts, simp_all add: emit_status_facts status_stream dget_Cons numbered_def)
next
  case (asked rid out)
  from asked inv stream show ?thesis
    by (intro numbered_emit [OF inv])
      (simp add: emit_interrupt_status_facts emit_status_facts,
       simp_all add: emit_interrupt_status_facts emit_status_facts status_stream dget_Cons
        numbered_def mark_True(1) [OF asked(2,3)] build_event_id_def)
next
  case (resolved rid out)
  from resolved inv stream show ?thesis
    by (intro numbered_emit [OF inv])
      (simp add: emit_interrupt_status_facts emit_status_facts,
       simp_all add: emit_interrupt_status_facts emit_status_facts status_stream dget_Cons
        numbered_def clear_True(1) [OF resolved(2,3)] build_event_id_def)
qed

text \<open>
  The updates of one answer are numbered 1, 2, 3, ... without gaps or repetitions, across
  artifact and status updates and across reconnections, and the event identifier of the
  k-th is the namespace with k.
\<close>

theorem updates_are_numbered:
  assumes "ms_include_streaming (cf_switches cfg)" and "so_sequence out = 0"
    and "snd (consume cfg T connections out i) = s" and "k < length (rt_queue s)"
  shows "dget (event_stream (rt_queue s ! k)) ''sequence'' = PInt (int k + 1) \<and>
         dget (event_stream (rt_queue s ! k)) ''event_id'' =
           PStr (so_event_id_namespace out @ '':'' @ str_int (int k + 1))"
proof -
  have "numbered cfg (so_event_id_namespace out) (snd (consume cfg T connections out i))"
    by (rule consume_invariant [where P = "numbered cfg (so_event_id_namespace out)"])
      (simp add: numbered_def runtime_init_def assms(2), erule (1) numbered_step [OF assms(1)])
  with assms(3,4) show ?thesis by (simp add: numbered_def)
qed

subsection \<open>What a client puts together\<close>

text \<open>A client of the protocol replaces an artifact's parts or, when told to, appends to them.\<close>

fun client_parts :: "string \<Rightarrow> out_event list \<Rightarrow> part list \<Rightarrow> part list" where
  "client_parts a [] acc = acc"
| "client_parts a (ArtifactUpdate _ _ b p app _ _ # es) acc =
     client_parts a es (if b = a then (if app then acc @ [p] else [p]) else acc)"
| "client_parts a (StatusUpdate _ _ _ _ # es) acc = client_parts a es acc"

definition client_text :: "string \<Rightarrow> out_event list \<Rightarrow> string" where
  "client_text a es =
     concat (List.map_filter (\<lambda>p. has_text (pt_content p)) (client_parts a es []))"

text \<open>The flag \<open>append\<close> is false exactly at the first update of an artifact.\<close>

fun append_flags_ok :: "string list \<Rightarrow> out_event list \<Rightarrow> bool" where
  "append_flags_ok seen [] = True"
| "append_flags_ok seen (ArtifactUpdate _ _ a _ app lst _ # es) \<longleftrightarrow>
     (app \<longleftrightarrow> a \<in> set seen) \<and> lst = None \<and> append_flags_ok (a # seen) es"
| "append_flags_ok seen (StatusUpdate _ _ _ _ # es) \<longleftrightarrow> append_flags_ok seen es"

fun updated_ids :: "out_event list \<Rightarrow> string list" where
  "updated_ids [] = []"
| "updated_ids (ArtifactUpdate _ _ a _ _ _ _ # es) = a # updated_ids es"
| "updated_ids (StatusUpdate _ _ _ _ # es) = updated_ids es"

lemma client_parts_append: "client_parts a (es @ fs) acc = client_parts a fs (client_parts a es acc)"
  by (induction a es acc rule: client_parts.induct) auto

lemma updated_ids_append [simp]: "updated_ids (es @ fs) = updated_ids es @ updated_ids fs"
  by (induction es rule: updated_ids.induct) auto

lemma append_flags_append:
  "append_flags_ok seen (es @ fs) \<longleftrightarrow>
     append_flags_ok seen es \<and> append_flags_ok (rev (updated_ids es) @ seen) fs"
  by (induction seen es rule: append_flags_ok.induct) auto

lemma client_parts_untouched: "a \<notin> set (updated_ids es) \<Longrightarrow> client_parts a es acc = acc"
  by (induction a es acc rule: client_parts.induct) auto

text \<open>The artifacts of text and of reasoning hold text chunks only.\<close>

definition text_artifact :: "runtime_cfg \<Rightarrow> string \<Rightarrow> bool" where
  "text_artifact cfg a \<longleftrightarrow> a \<in> {cf_artifact_id cfg @ '':text'', cf_artifact_id cfg @ '':reasoning''}"

lemma text_artifact_chunk:
  assumes "chunk_ok cfg c" and "text_artifact cfg (sc_artifact_id c)"
  shows "sc_accumulate_content c" "sc_append c" "sc_part c = text_part (sc_content_key c)"
proof -
  have "sc_block_type c \<noteq> TOOL_CALL"
    using assms
    by (auto simp: chunk_ok_def text_artifact_def resolve_stream_artifact_id_def Let_def split: if_splits)
  with assms(1) show "sc_accumulate_content c" "sc_append c" "sc_part c = text_part (sc_content_key c)"
    by (auto simp: chunk_ok_def split: if_splits)
qed

definition assembled :: "runtime_cfg \<Rightarrow> 's runtime \<Rightarrow> bool" where
  "assembled cfg s \<longleftrightarrow> append_flags_ok [] (rt_queue s) \<and>
     set (so_emitted_artifact_ids (rt_out s)) = set (updated_ids (rt_queue s)) \<and>
     (\<forall>a. text_artifact cfg a \<longrightarrow> client_text a (rt_queue s) = artifact_buffer a (rt_out s))"

lemma assembled_status:
  assumes "assembled cfg s" and "rt_queue s' = rt_queue s @ [StatusUpdate t c st m]"
    and "so_emitted_artifact_ids (rt_out s') = so_emitted_artifact_ids (rt_out s)"
    and "so_artifact_content_buffers (rt_out s') = so_artifact_content_buffers (rt_out s)"
  shows "assembled cfg s'"
  using assms
  by (auto simp: assembled_def append_flags_append client_text_def client_parts_append artifact_buffer_def)

lemma assembled_step:
  assumes inv: "assembled cfg s" and step: "rt_step cfg s s'"
  shows "assembled cfg s'"
  using step
proof cases
  case quiet
  with inv show ?thesis by (simp add: same_core_def assembled_def artifact_buffer_def)
next
  case (chunk c)
  show ?thesis
  proof (cases cfg c s rule: emit_chunk_cases)
    case dropped
    with inv chunk show ?thesis by (simp add: same_core_def assembled_def artifact_buffer_def)
  next
    case (emitted e k)
    have "client_text a (rt_queue s') = artifact_buffer a (rt_out s')" if a: "text_artifact cfg a" for a
    proof (cases "a = sc_artifact_id c")
      case True
      note c = text_artifact_chunk [OF chunk(2) a [unfolded True]]
      have old: "client_text a (rt_queue s) = artifact_buffer a (rt_out s)"
        using inv a by (simp add: assembled_def)
      have "a \<notin> set (so_emitted_artifact_ids (rt_out s)) \<Longrightarrow> client_parts a (rt_queue s) [] = []"
        using inv by (simp add: assembled_def client_parts_untouched)
      with old c True show ?thesis
        by (auto simp: chunk(1) emitted(2,3,7) client_text_def client_parts_append map_filter_def
            text_part_def)
    next
      case False
      with inv a show ?thesis
        by (simp add: chunk(1) emitted(2,3,7) client_text_def client_parts_append assembled_def)
    qed
    with inv show ?thesis
      by (auto simp: assembled_def chunk(1) emitted(2,3,8) append_flags_append)
  qed
next
  case progress
  with inv show ?thesis by (auto simp: emit_status_facts intro: assembled_status)
next
  case (asked rid out)
  then show ?thesis
    by (intro assembled_status [OF inv])
      (simp add: emit_interrupt_status_facts emit_status_facts,
       simp_all add: emit_interrupt_status_facts mark_True(1) [OF asked(2,3)])
next
  case (resolved rid out)
  then show ?thesis
    by (intro assembled_status [OF inv])
      (simp add: emit_interrupt_status_facts emit_status_facts,
       simp_all add: emit_interrupt_status_facts clear_True(1) [OF resolved(2,3)])
qed

definition fresh_output :: "stream_output \<Rightarrow> bool" where
  "fresh_output out \<longleftrightarrow> so_artifact_content_buffers out = [] \<and> so_emitted_artifact_ids out = [] \<and>
     so_pending_interrupts out = [] \<and> so_sequence out = 0"

lemma consume_assembled:
  "fresh_output out \<Longrightarrow> assembled cfg (snd (consume cfg T cs out i))"
  by (rule consume_invariant [where P = "assembled cfg"], rule_tac [2] assembled_step)
    (auto simp: fresh_output_def assembled_def runtime_init_def client_text_def artifact_buffer_def
      map_filter_def)

text \<open>
  The first update of every artifact starts it (append is false), every later one extends
  it, and no update of the running stream is marked as the last one.
\<close>

theorem append_flags_are_exact:
  assumes "fresh_output out"
  shows "append_flags_ok [] (rt_queue (snd (consume cfg T connections out i)))"
  using consume_assembled [OF assms, of cfg T connections i] by (simp add: assembled_def)

text \<open>
  C14. A client that follows the updates holds, for the text and the reasoning artifact, exactly
  the text that the adapter has recorded as sent.
\<close>

theorem client_holds_what_was_sent:
  assumes "fresh_output out" and "snd (consume cfg T connections out i) = s"
    and "a = cf_artifact_id cfg @ '':text'' \<or> a = cf_artifact_id cfg @ '':reasoning''"
  shows "client_text a (rt_queue s) = artifact_buffer a (rt_out s)"
  using consume_assembled [OF assms(1), of cfg T connections i] assms(2,3)
  by (auto simp: assembled_def text_artifact_def)

subsection \<open>Interrupts\<close>

definition interrupt_phase :: "string \<Rightarrow> out_event \<Rightarrow> string option" where
  "interrupt_phase request_id e =
     (if dget (event_interrupt e) ''request_id'' = PStr request_id
      then as_str (dget (event_interrupt e) ''phase'') else None)"

text \<open>
  The phases of one request alternate, asked first; the result says whether it is open.
\<close>

fun phase_run :: "bool \<Rightarrow> string list \<Rightarrow> bool option" where
  "phase_run opened [] = Some opened"
| "phase_run opened (p # ps) =
     (if p = (if opened then ''resolved'' else ''asked'') then phase_run (\<not> opened) ps else None)"

definition interrupt_phases :: "string \<Rightarrow> out_event list \<Rightarrow> string list" where
  "interrupt_phases request_id es = List.map_filter (interrupt_phase request_id) es"

definition phases_ok :: "'s runtime \<Rightarrow> bool" where
  "phases_ok s \<longleftrightarrow> distinct (so_pending_interrupts (rt_out s)) \<and> (\<forall>request_id.
     phase_run False (interrupt_phases request_id (rt_queue s)) =
       Some (request_id \<in> set (so_pending_interrupts (rt_out s))))"

lemma phase_run_append:
  "phase_run b (ps @ [p]) =
     (case phase_run b ps of
        None \<Rightarrow> None
      | Some opened \<Rightarrow>
          if p = (if opened then ''resolved'' else ''asked'') then Some (\<not> opened) else None)"
  by (induction ps arbitrary: b) auto

lemma interrupt_phases_append:
  "interrupt_phases r (es @ [e]) =
     interrupt_phases r es @ (case interrupt_phase r e of None \<Rightarrow> [] | Some p \<Rightarrow> [p])"
  by (simp add: interrupt_phases_def map_filter_def split: option.split)

lemma artifact_no_phase:
  "interrupt_phase r (ArtifactUpdate t c a p app l (build_stream_artifact_metadata b m ev sq inc)) = None"
  by (simp add: interrupt_phase_def event_interrupt_def event_shared_def dget_def mapping_or_empty_def
      build_stream_artifact_metadata_def)

lemma progress_no_phase:
  "interrupt_phase r (StatusUpdate t c st (build_output_metadata sid us (Some str) pr None sw)) = None"
  by (simp add: interrupt_phase_def event_interrupt_def output_shared dget_def mapping_or_empty_def)

lemma status_phase:
  "ms_include_interrupt sw \<Longrightarrow>
   interrupt_phase r (StatusUpdate t c st (build_output_metadata sid us (Some str) pr
     (Some (dset_opt ''resolution'' x (dset_opt ''details'' y
        [(''request_id'', PStr rid), (''type'', PStr k), (''phase'', PStr ph)]))) sw)) =
     (if r = rid then Some ph else None)"
  by (simp add: interrupt_phase_def status_interrupt dget_def)

lemma phases_ok_quiet:
  assumes "phases_ok s" and "rt_queue s' = rt_queue s @ [e]" and "\<And>r. interrupt_phase r e = None"
    and "so_pending_interrupts (rt_out s') = so_pending_interrupts (rt_out s)"
  shows "phases_ok s'"
  using assms by (simp add: phases_ok_def interrupt_phases_append)

lemma phases_ok_step:
  assumes flag: "ms_include_interrupt (cf_switches cfg)"
    and inv: "phases_ok s" and step: "rt_step cfg s s'"
  shows "phases_ok s'"
  using step
proof cases
  case quiet
  with inv show ?thesis by (simp add: same_core_def phases_ok_def)
next
  case (chunk c)
  show ?thesis
  proof (cases cfg c s rule: emit_chunk_cases)
    case dropped
    with inv chunk show ?thesis by (simp add: same_core_def phases_ok_def)
  next
    case (emitted e k)
    with inv chunk(1) show ?thesis
      by (intro phases_ok_quiet [OF inv, of s' e]) (simp_all add: artifact_no_phase)
  qed
next
  case progress
  with inv show ?thesis
    by (intro phases_ok_quiet [OF inv]) (auto simp: emit_status_facts progress_no_phase)
next
  case (asked rid out)
  note m = mark_True [OF asked(2,3)]
  from inv m show ?thesis
    by (simp add: asked(1) phases_ok_def emit_interrupt_status_facts emit_status_facts
        interrupt_phases_append status_phase [OF flag] phase_run_append)
next
  case (resolved rid out)
  note m = clear_True [OF resolved(2,3)]
  from inv m show ?thesis
    by (simp add: resolved(1) phases_ok_def emit_interrupt_status_facts emit_status_facts
        interrupt_phases_append status_phase [OF flag] phase_run_append distinct_removeAll)
qed

text \<open>
  For every interrupt request the reported phases alternate between asked and resolved,
  beginning with asked, and the request is pending exactly when the last report is asked: no
  request is announced twice while it is open, and none is resolved that was not open.
\<close>

theorem interrupts_are_reported_once:
  assumes "ms_include_interrupt (cf_switches cfg)" and "fresh_output out"
    and "snd (consume cfg T connections out i) = s"
  shows "phase_run False (interrupt_phases request_id (rt_queue s)) =
    Some (request_id \<in> set (so_pending_interrupts (rt_out s)))"
proof -
  have "phases_ok (snd (consume cfg T connections out i))"
    by (rule consume_invariant [where P = phases_ok])
      (use assms(2) in \<open>simp add: phases_ok_def runtime_init_def fresh_output_def
         interrupt_phases_def map_filter_def\<close>, erule (1) phases_ok_step [OF assms(1)])
  then show ?thesis by (simp add: assms(3) phases_ok_def)
qed

subsection \<open>What is kept quiet\<close>

lemma normalize_role_values: "normalize_role v \<in> {None, Some ''agent'', Some ''user'', Some ''system''}"
  by (simp add: normalize_role_def Let_def split: option.split)

lemma upsert_role:
  assumes "map_of parts p = Some st" and "silent_role (sp_role st)"
    and "normalize_role r \<noteq> Some ''agent''"
    and "upsert_part_state a parts p part (normalize_role r) mid = Some st'"
  shows "silent_role (sp_role st')"
  using assms normalize_role_values [of r]
  by (auto simp: upsert_part_state_def Let_def silent_role_def split: option.splits if_splits)

text \<open>
  A part that was announced as the user's or the system's stays silent: events about it
  produce no update and no text, until some event announces it as the agent's.
\<close>

theorem silent_part_stays_silent:
  assumes "map_of (rt_parts s) p = Some st" and "silent_role (sp_role st)"
    and "extract_stream_part_id (mapping_or_empty (dget props ''part'')) props = Some p"
    and "normalize_role (py_or (dget (mapping_or_empty (dget props ''part'')) ''role'')
           (dget props ''role'')) \<noteq> Some ''agent''"
    and "handle_part cfg ty props s = s'"
  shows "rt_queue s' = rt_queue s \<and> rt_out s' = rt_out s \<and>
    silent_role (Option.bind (map_of (rt_parts s') p) sp_role)"
proof -
  have "rt_queue (handle_part_delta cfg props p m s) = rt_queue s \<and>
      rt_out (handle_part_delta cfg props p m s) = rt_out s \<and>
      rt_parts (handle_part_delta cfg props p m s) = rt_parts s" for m
    using assms(1,2) by (simp add: handle_part_delta_def split: pyval.split)
  moreover have "rt_queue (handle_part_updated cfg part props p m s) = rt_queue s \<and>
      rt_out (handle_part_updated cfg part props p m s) = rt_out s \<and>
      silent_role (Option.bind (map_of (rt_parts (handle_part_updated cfg part props p m s)) p) sp_role)"
    if "part = mapping_or_empty (dget props ''part'')" for m part
    using assms(1,2) upsert_role [OF assms(1,2,4)]
    by (auto simp: handle_part_updated_def Let_def that split: option.split)
  ultimately show ?thesis
    using assms(1-3,5) by (auto simp: handle_part_def Let_def split: option.splits if_splits)
qed

subsection \<open>Redelivery\<close>

lemma note_message_buffer [simp]: "sp_buffer (note_message_id m st) = sp_buffer st"
  by (simp add: note_message_id_def)

text \<open>After the chunks of an update without a delta the buffer is the update's content.\<close>

lemma update_again:
  assumes "nonempty (as_str (dget props ''delta'')) = None"
    and "update_chunks cfg part props mid st = (st1, cs)"
    and "sp_buffer st2 = sp_buffer st1" and "sp_block_type st2 = sp_block_type st"
  shows "snd (update_chunks cfg part props mid st2) = []"
  using assms
  by (auto simp: update_chunks_def tool_chunks_def snapshot_chunks_def Let_def
      split: option.splits if_splits)

lemma update_chunks_keep:
  assumes "nonempty (as_str (dget props ''delta'')) = None"
    and "update_chunks cfg part props mid st = (st1, cs)"
  shows "sp_block_type st1 = sp_block_type st" and "sp_role st1 = sp_role st"
  using assms
  by (auto simp: update_chunks_def tool_chunks_def snapshot_chunks_def Let_def
      split: option.splits if_splits)

lemma pending_chunks_keep:
  "sp_block_type (fst (pending_chunks bs st)) = sp_block_type st"
  "sp_role (fst (pending_chunks bs st)) = sp_role st"
  by (induction bs st rule: pending_chunks.induct)
    (auto simp: delta_chunks_def Let_def case_prod_unfold)

lemma upsert_block:
  "upsert_part_state a parts p part role mid = Some st \<Longrightarrow>
     map_part_type_to_block_type (extract_stream_part_type part) = Some (sp_block_type st) \<and>
     (role \<noteq> None \<longrightarrow> sp_role st = role)"
  by (auto simp: upsert_part_state_def Let_def split: option.splits)

lemma upsert_again:
  assumes "map_part_type_to_block_type (extract_stream_part_type part) = Some b"
    and "map_of parts p = Some st" and "role \<noteq> None \<longrightarrow> sp_role st = role"
  obtains st' where "upsert_part_state a parts p part role mid = Some st'"
    and "sp_block_type st' = b" and "sp_role st' = sp_role st" and "sp_buffer st' = sp_buffer st"
  using assms by (auto simp: upsert_part_state_def Let_def)

lemma emit_chunks_pending [simp]: "rt_pending (emit_chunks cfg cs s) = rt_pending s"
  by (induction cs arbitrary: s) (simp_all add: emit_chunks_def emit_chunk_def Let_def case_prod_unfold)

lemma updated_again:
  assumes nodelta: "nonempty (as_str (dget props ''delta'')) = None"
    and s1: "s1 = handle_part_updated cfg part props p mid s"
  shows "rt_queue (handle_part_updated cfg part props p mid s1) = rt_queue s1"
proof -
  define role where "role = normalize_role (py_or (dget part ''role'') (dget props ''role''))"
  note d = handle_part_updated_def Let_def role_def [symmetric]
  have popped: "map_of (rt_pending s1) p = None"
    by (simp add: s1 d case_prod_unfold split: option.split)
  show ?thesis
  proof (cases "upsert_part_state (cf_artifact_id cfg) (rt_parts s) p part role mid")
    case None
    then have "map_part_type_to_block_type (extract_stream_part_type part) = None"
      by (auto simp: upsert_part_state_def Let_def split: option.splits)
    then show ?thesis by (simp add: d upsert_part_state_def)
  next
    case (Some st)
    note u = upsert_block [OF Some]
    show ?thesis
    proof (cases "silent_role (sp_role st)")
      case True
      then have m: "map_of (rt_parts s1) p = Some st" by (simp add: s1 d Some)
      obtain st' where "upsert_part_state (cf_artifact_id cfg) (rt_parts s1) p part role mid = Some st'"
        "sp_role st' = sp_role st"
        by (rule upsert_again [OF u [THEN conjunct1] m u [THEN conjunct2]])
      with True show ?thesis by (simp add: d)
    next
      case False
      obtain stb csb where b: "pending_chunks
          (case map_of (rt_pending s) p of None \<Rightarrow> [] | Some l \<Rightarrow> l) st = (stb, csb)" by fastforce
      obtain st1 cs where c: "update_chunks cfg part props mid stb = (st1, cs)" by fastforce
      have kb: "sp_block_type stb = sp_block_type st" "sp_role stb = sp_role st"
        using pending_chunks_keep [of "case map_of (rt_pending s) p of None \<Rightarrow> [] | Some l \<Rightarrow> l" st]
        by (simp_all add: b)
      note kc = update_chunks_keep [OF nodelta c]
      have m: "map_of (rt_parts s1) p = Some st1" using False by (simp add: s1 d Some b c)
      have r: "role \<noteq> None \<longrightarrow> sp_role st1 = role" using u kb kc by simp
      obtain st2 where st2: "upsert_part_state (cf_artifact_id cfg) (rt_parts s1) p part role mid = Some st2"
        "sp_block_type st2 = sp_block_type st" "sp_role st2 = sp_role st" "sp_buffer st2 = sp_buffer st1"
        using kb kc by (rule_tac upsert_again [OF u [THEN conjunct1] m r]) auto
      have "snd (update_chunks cfg part props mid st2) = []"
        by (rule update_again [OF nodelta c]) (simp_all add: st2 kb)
      with False st2 popped show ?thesis
        by (simp add: d case_prod_unfold emit_chunks_def)
    qed
  qed
qed

text \<open>
  Delivery is idempotent: a snapshot of a part that is delivered twice in a row, as after
  a reconnection, produces no second update.
\<close>

theorem redelivered_snapshot_adds_nothing:
  assumes "as_str (dget props ''delta'') = None \<or> as_str (dget props ''delta'') = Some []"
    and "handle_part cfg ''message.part.updated'' props s = s1"
  shows "rt_queue (handle_part cfg ''message.part.updated'' props s1) = rt_queue s1"
proof -
  have "nonempty (as_str (dget props ''delta'')) = None"
    using assms(1) by (auto simp: nonempty_def)
  from updated_again [OF this refl] assms(2) show ?thesis
    by (auto simp: handle_part_def Let_def split: option.splits if_splits)
qed

subsection \<open>Reconnecting\<close>

lemma backoff_step: "min (min (2 ^ k / 2) 5 * 2) 5 = (min (2 ^ Suc k / 2) 5 :: rat)"
  by (simp add: min_def)

lemma waits_doubling:
  "fst (consume_connections cfg T cs (min (2 ^ k / 2) 5) s) = ws \<Longrightarrow> j < length ws \<Longrightarrow>
     ws ! j = min (2 ^ (k + j) / 2) 5"
proof (induction cs arbitrary: k s ws j)
  case (Cons c cs)
  obtain items fails where c: "c = (items, fails)" by (cases c)
  obtain br s1 where r: "run_events cfg T items s = (br, s1)" by fastforce
  show ?case
  proof (cases "rt_stop s \<or> br \<or> \<not> fails \<or> rt_stop s1")
    case True
    then have "ws = []" using Cons.prems(1) [symmetric] by (auto simp: c r)
    with Cons.prems(2) show ?thesis by simp
  next
    case False
    let ?s2 = "s1\<lparr>rt_metrics := rt_metrics s1 @ [''opencode_stream_retries_total'']\<rparr>"
    have ws: "ws = min (2 ^ k / 2) 5 #
        fst (consume_connections cfg T cs (min (2 ^ Suc k / 2) 5) ?s2)"
      using Cons.prems(1) False by (auto simp: c r Let_def case_prod_unfold backoff_step)
    show ?thesis
    proof (cases j)
      case (Suc i)
      with Cons.IH [OF refl, of i "Suc k" ?s2] Cons.prems(2) ws show ?thesis by simp
    qed (simp add: ws)
  qed
qed simp

lemma waits_bounded:
  "length (fst (consume_connections cfg T cs b s)) \<le> length (filter snd cs)"
proof (induction cs arbitrary: b s)
  case (Cons c cs)
  obtain items fails where c: "c = (items, fails)" by (cases c)
  show ?case
    using Cons.IH [of "min (b * 2) 5" "(snd (run_events cfg T items s))
        \<lparr>rt_metrics := rt_metrics (snd (run_events cfg T items s)) @ [''opencode_stream_retries_total'']\<rparr>"]
    by (auto simp: c Let_def case_prod_unfold)
qed simp

text \<open>
  The pauses before reconnections double from half a second and never exceed five seconds,
  and there is one for each failed connection at most.
\<close>

theorem reconnection_pauses:
  assumes "fst (consume cfg T connections out i) = waits" and "k < length waits"
  shows "waits ! k = min (2 ^ k / 2) 5 \<and> length waits \<le> length (filter snd connections)"
proof -
  have "(1 / 2 :: rat) = min (2 ^ 0 / 2) 5" by simp
  then show ?thesis
    using assms waits_bounded [of cfg T connections "1 / 2" "runtime_init out i"] waits_doubling [of cfg T connections 0 "runtime_init out i" waits k]
    by (auto simp: consume_def)
qed

section \<open>A concrete stream\<close>

text \<open>The configuration and the events the examples use.\<close>

definition sample_cfg :: runtime_cfg where
  "sample_cfg =
     \<lparr>cf_session_id = ''s'', cf_identity = ''me'', cf_task_id = ''t'', cf_context_id = ''c'',
      cf_artifact_id = ''a'', cf_allow_structured_output = True,
      cf_switches = \<lparr>ms_include_session = True, ms_include_streaming = True,
                     ms_include_interrupt = True\<rparr>,
      cf_float_repr = (\<lambda>_. ''0.5'')\<rparr>"

definition sample_tracker :: "seconds \<Rightarrow> unit interrupt_tracker" where
  "sample_tracker now =
     \<lparr>bt_remember_request = None, bt_resolve_request = None, bt_resolve_session = None,
      bt_discard_request = None\<rparr>"

definition part_props :: "string \<Rightarrow> string \<Rightarrow> mapping" where
  "part_props role txt =
     [(''part'', PDict [(''id'', PStr ''p''), (''sessionID'', PStr ''s''), (''type'', PStr ''text''),
        (''role'', PStr role), (''text'', PStr txt)])]"

definition delta_props :: "string \<Rightarrow> mapping" where
  "delta_props txt =
     [(''partID'', PStr ''p''), (''sessionID'', PStr ''s''), (''field'', PStr ''text''),
      (''delta'', PStr txt)]"

definition part_updated :: "string \<Rightarrow> stream_item" where
  "part_updated txt = Received 0
     [(''type'', PStr ''message.part.updated''), (''properties'', PDict (part_props ''assistant'' txt))]"

definition part_delta :: "string \<Rightarrow> stream_item" where
  "part_delta txt = Received 0
     [(''type'', PStr ''message.part.delta''), (''properties'', PDict (delta_props txt))]"

definition question_asked :: "string \<Rightarrow> stream_item" where
  "question_asked rid = Received 0
     [(''type'', PStr ''question.asked''),
      (''properties'', PDict [(''id'', PStr rid), (''sessionID'', PStr ''s'')])]"

definition sample_run :: "(stream_item list \<times> bool) list \<Rightarrow> rat list \<times> unit runtime" where
  "sample_run connections =
     consume sample_cfg sample_tracker connections (stream_output_init ''hi'' ''m'' ''ns'') ()"

lemma sample_fresh: "fresh_output (stream_output_init u m n)"
  by (simp add: fresh_output_def stream_output_init_def)

theorem updates_are_numbered_witness:
  "dget (event_stream (rt_queue (snd (sample_run
      [([part_updated ''one''], True), ([part_updated ''one two''], False)])) ! 1)) ''sequence'' = PInt 2"
proof -
  have len: "1 < length (rt_queue (snd (sample_run
      [([part_updated ''one''], True), ([part_updated ''one two''], False)])))" by code_simp
  show ?thesis
    using updates_are_numbered [OF _ _ refl len [unfolded sample_run_def]]
    by (simp add: sample_run_def sample_cfg_def stream_output_init_def)
qed

theorem append_flags_are_exact_witness:
  "append_flags_ok [] (rt_queue (snd (sample_run [([part_updated ''one'', part_delta '' two''], False)])))"
  unfolding sample_run_def by (rule append_flags_are_exact [OF sample_fresh])

theorem client_holds_what_was_sent_witness:
  "client_text ''a:text'' (rt_queue (snd (sample_run [([part_updated ''one'', part_delta '' two''], False)])))
     = ''one two''"
proof -
  have "artifact_buffer ''a:text'' (rt_out (snd (sample_run
      [([part_updated ''one'', part_delta '' two''], False)]))) = ''one two''" by code_simp
  moreover have "''a:text'' = cf_artifact_id sample_cfg @ '':text'' \<or>
      ''a:text'' = cf_artifact_id sample_cfg @ '':reasoning''" by code_simp
  note client_holds_what_was_sent [OF sample_fresh refl this, of sample_tracker
      "[([part_updated ''one'', part_delta '' two''], False)]" "''hi''" "''m''" "''ns''" "()"]
  ultimately show ?thesis unfolding sample_run_def by simp
qed

theorem interrupts_are_reported_once_witness:
  "phase_run False (interrupt_phases ''q'' (rt_queue (snd (sample_run
      [([question_asked ''q'', question_asked ''q''], False)])))) = Some True"
proof -
  have "''q'' \<in> set (so_pending_interrupts (rt_out (snd (sample_run
      [([question_asked ''q'', question_asked ''q''], False)]))))" by code_simp
  moreover have "ms_include_interrupt (cf_switches sample_cfg)" by code_simp
  note interrupts_are_reported_once [OF this sample_fresh refl, of "''q''" sample_tracker
      "[([question_asked ''q'', question_asked ''q''], False)]" "''hi''" "''m''" "''ns''" "()"]
  ultimately show ?thesis unfolding sample_run_def by simp
qed

theorem silent_part_stays_silent_witness:
  "let s = handle_part sample_cfg ''message.part.updated'' (part_props ''user'' ''hello'')
             (runtime_init (stream_output_init ''hi'' ''m'' ''ns'') ())
   in rt_queue (handle_part sample_cfg ''message.part.delta'' (delta_props ''hello'') s) = rt_queue s"
proof -
  define s where "s = handle_part sample_cfg ''message.part.updated'' (part_props ''user'' ''hello'')
             (runtime_init (stream_output_init ''hi'' ''m'' ''ns'') ())"
  have "map_option (\<lambda>st. silent_role (sp_role st)) (map_of (rt_parts s) ''p'') = Some True"
    unfolding s_def by code_simp
  then obtain st where st: "map_of (rt_parts s) ''p'' = Some st" "silent_role (sp_role st)" by auto
  have p: "extract_stream_part_id (mapping_or_empty (dget (delta_props ''hello'') ''part''))
      (delta_props ''hello'') = Some ''p''" by code_simp
  have r: "normalize_role (py_or (dget (mapping_or_empty (dget (delta_props ''hello'') ''part'')) ''role'')
      (dget (delta_props ''hello'') ''role'')) \<noteq> Some ''agent''" by code_simp
  show ?thesis using silent_part_stays_silent [OF st p r refl] by (simp add: s_def [symmetric])
qed

theorem redelivered_snapshot_adds_nothing_witness:
  "let s1 = handle_part sample_cfg ''message.part.updated'' (part_props ''assistant'' ''hello'')
              (runtime_init (stream_output_init ''hi'' ''m'' ''ns'') ())
   in rt_queue s1 \<noteq> [] \<and>
      rt_queue (handle_part sample_cfg ''message.part.updated'' (part_props ''assistant'' ''hello'') s1)
        = rt_queue s1"
proof -
  have "as_str (dget (part_props ''assistant'' ''hello'') ''delta'') = None" by code_simp
  then have same: "rt_queue (handle_part sample_cfg ''message.part.updated'' (part_props ''assistant'' ''hello'') s1)
        = rt_queue s1" if "handle_part sample_cfg ''message.part.updated'' (part_props ''assistant'' ''hello'') s = s1"
    for s s1 :: "unit runtime"
    using redelivered_snapshot_adds_nothing [OF disjI1 that] by blast
  have "rt_queue (handle_part sample_cfg ''message.part.updated'' (part_props ''assistant'' ''hello'')
      (runtime_init (stream_output_init ''hi'' ''m'' ''ns'') ())) \<noteq> []" by code_simp
  then show ?thesis using same [OF refl] by (simp add: Let_def)
qed

theorem reconnection_pauses_witness:
  "fst (sample_run [([], True), ([], True), ([], True), ([], True), ([], True), ([], True)]) ! 4 = 5"
proof -
  have "4 < length (fst (sample_run [([], True), ([], True), ([], True), ([], True), ([], True), ([], True)]))"
    by code_simp
  from reconnection_pauses [OF refl this [unfolded sample_run_def]] show ?thesis
    by (simp add: sample_run_def)
qed

text \<open>
  White space at the end of a streamed text is sent twice. Snapshots are stripped before
  they are compared with what the deltas said, so a snapshot that repeats the deltas replaces
  the recorded text by a shorter one, and the next snapshot sends the missing space again: the
  client holds two spaces where the upstream's text has one.
\<close>

theorem snapshot_duplicates_white_space:
  "client_text ''a:text'' (rt_queue (snd (sample_run
      [([part_updated [], part_delta ''Hello '', part_updated ''Hello '', part_updated ''Hello world''],
        False)]))) = ''Hello  world''"
  by code_simp

end
