(* ===== verification/A2A_Events.thy ===== *)
theory A2A_Events
  imports Stream_Updates
begin

text \<open>
  The protocol's messages, artifacts, tasks and update events, as far as the program reads or
  builds them, and what it does to them on the way out: negotiated output modes
  (\<open>output_modes.py\<close>), negotiated extensions (\<open>extension_negotiation.py\<close>) and the reading of
  request metadata (\<open>metadata_access.py\<close>). The \<open>Struct\<close> of a metadata field is the mapping it
  holds; what \<open>MessageToDict\<close> makes of the value of a data part is a parameter.
\<close>

section \<open>Messages, artifacts, tasks\<close>

datatype role = ROLE_USER | ROLE_AGENT

record message =
  mg_message_id :: string
  mg_role :: role
  mg_parts :: "part list"
  mg_task_id :: string
  mg_context_id :: string
  mg_metadata :: mapping

record artifact =
  ar_artifact_id :: string
  ar_name :: string
  ar_parts :: "part list"
  ar_metadata :: mapping

record task =
  tk_id :: string
  tk_context_id :: string
  tk_state :: task_state
  tk_message :: "message option"
  tk_history :: "message list"
  tk_artifacts :: "artifact list"
  tk_metadata :: mapping

record status_event =
  se_task_id :: string
  se_context_id :: string
  se_state :: task_state
  se_message :: "message option"
  se_metadata :: mapping

record artifact_event =
  ae_task_id :: string
  ae_context_id :: string
  ae_artifact :: artifact
  ae_append :: bool
  ae_last_chunk :: bool
  ae_metadata :: mapping

datatype payload =
    PTask task
  | PStatus status_event
  | PArtifact artifact_event
  | PMessage message

text \<open>The updates of the stream as events of the protocol; absent metadata is empty.\<close>

definition metadata_of :: "mapping option \<Rightarrow> mapping" where
  "metadata_of m = (case m of None \<Rightarrow> [] | Some d \<Rightarrow> d)"

fun payload_of :: "out_event \<Rightarrow> payload" where
  "payload_of (ArtifactUpdate t c a p app lst m) =
     PArtifact \<lparr>ae_task_id = t, ae_context_id = c,
                ae_artifact = \<lparr>ar_artifact_id = a, ar_name = [], ar_parts = [p],
                               ar_metadata = metadata_of m\<rparr>,
                ae_append = app, ae_last_chunk = (lst = Some True), ae_metadata = []\<rparr>"
| "payload_of (StatusUpdate t c st m) =
     PStatus \<lparr>se_task_id = t, se_context_id = c, se_state = st, se_message = None,
              se_metadata = metadata_of m\<rparr>"

section \<open>Accepted output modes\<close>

text \<open>The loop over the given modes; a wildcard accepts everything, like giving no mode at all.\<close>

fun normalize_modes :: "pyval list \<Rightarrow> string list \<Rightarrow> string list option" where
  "normalize_modes [] normalized = (if normalized = [] then None else Some normalized)"
| "normalize_modes (v # vs) normalized =
     (case as_str v of
        None \<Rightarrow> normalize_modes vs normalized
      | Some value \<Rightarrow>
          (let mode = lower (strip value)
           in if mode = [] \<or> mode \<in> set normalized then normalize_modes vs normalized
              else if mode \<in> {''*'', ''*/*''} then None
              else normalize_modes vs (normalized @ [mode])))"

definition normalize_accepted_output_modes :: "pyval \<Rightarrow> string list option" where
  "normalize_accepted_output_modes source =
     (case source of PList vs \<Rightarrow> normalize_modes vs [] | _ \<Rightarrow> None)"

definition mode_list :: "string list \<Rightarrow> pyval" where
  "mode_list modes = PList (map PStr modes)"

definition accepts_output_mode :: "string list option \<Rightarrow> string \<Rightarrow> bool" where
  "accepts_output_mode accepted media_type =
     (case accepted of None \<Rightarrow> True | Some modes \<Rightarrow> media_type \<in> set modes)"

definition build_output_negotiation_metadata :: "pyval \<Rightarrow> mapping option" where
  "build_output_negotiation_metadata accepted =
     map_option (\<lambda>normalized. [(''opencode'', PDict [(''output_negotiation'',
         PDict [(''accepted_output_modes'', mode_list (sort normalized))])])])
       (normalize_accepted_output_modes accepted)"

definition merge_output_negotiation_metadata :: "mapping \<Rightarrow> pyval \<Rightarrow> mapping" where
  "merge_output_negotiation_metadata metadata accepted =
     (case build_output_negotiation_metadata accepted of
        None \<Rightarrow> metadata
      | Some negotiation \<Rightarrow>
          (let opencode = mapping_or_empty (dget metadata ''opencode'');
               output = dget (mapping_or_empty (dget negotiation ''opencode'')) ''output_negotiation''
           in dset ''opencode'' (PDict (dset ''output_negotiation'' output opencode)) metadata))"

definition extract_accepted_output_modes_from_metadata :: "mapping \<Rightarrow> string list option" where
  "extract_accepted_output_modes_from_metadata metadata =
     (case dget metadata ''opencode'' of
        PDict opencode \<Rightarrow>
          (case dget opencode ''output_negotiation'' of
             PDict negotiation \<Rightarrow>
               normalize_accepted_output_modes (dget negotiation ''accepted_output_modes'')
           | _ \<Rightarrow> None)
      | _ \<Rightarrow> None)"

fun annotate_output_negotiation_metadata :: "payload \<Rightarrow> pyval \<Rightarrow> payload" where
  "annotate_output_negotiation_metadata (PTask t) accepted =
     PTask (t\<lparr>tk_metadata := merge_output_negotiation_metadata (tk_metadata t) accepted\<rparr>)"
| "annotate_output_negotiation_metadata (PStatus e) accepted =
     PStatus (e\<lparr>se_metadata := merge_output_negotiation_metadata (se_metadata e) accepted\<rparr>)"
| "annotate_output_negotiation_metadata (PArtifact e) accepted =
     PArtifact (e\<lparr>ae_metadata := merge_output_negotiation_metadata (ae_metadata e) accepted\<rparr>)"
| "annotate_output_negotiation_metadata (PMessage m) accepted = PMessage m"

section \<open>Filtering\<close>

fun part_media_type :: "part \<Rightarrow> string option" where
  "part_media_type p =
     (case pt_content p of
        PText _ \<Rightarrow> Some ''text/plain''
      | PData _ \<Rightarrow> Some ''application/json''
      | PRaw _ \<Rightarrow> Some (if pt_media_type p = [] then ''application/octet-stream'' else pt_media_type p)
      | PUrl _ \<Rightarrow> Some (if pt_media_type p = [] then ''application/octet-stream'' else pt_media_type p)
      | PNothing \<Rightarrow> None)"

text \<open>A data part that is not accepted is shown as text where text is accepted.\<close>

definition filter_part ::
    "(rat \<Rightarrow> string) \<Rightarrow> (pyval \<Rightarrow> pyval) \<Rightarrow> string list \<Rightarrow> part \<Rightarrow> part list" where
  "filter_part fr message_to_dict accepted p =
     (case part_media_type p of
        None \<Rightarrow> [p]
      | Some media_type \<Rightarrow>
          if media_type \<in> set accepted then [p]
          else if ''text/plain'' \<in> set accepted then
            (case pt_content p of
               PText t \<Rightarrow> [text_part t]
             | PData v \<Rightarrow> [text_part (json_dumps fr True True (message_to_dict v))]
             | _ \<Rightarrow> [])
          else [])"

definition filter_parts ::
    "(rat \<Rightarrow> string) \<Rightarrow> (pyval \<Rightarrow> pyval) \<Rightarrow> string list \<Rightarrow> part list \<Rightarrow> part list" where
  "filter_parts fr message_to_dict accepted ps =
     concat (map (filter_part fr message_to_dict accepted) ps)"

definition filter_message ::
    "(rat \<Rightarrow> string) \<Rightarrow> (pyval \<Rightarrow> pyval) \<Rightarrow> string list \<Rightarrow> message \<Rightarrow> message option" where
  "filter_message fr d accepted m =
     (let ps = filter_parts fr d accepted (mg_parts m)
      in if ps = [] then None else Some (m\<lparr>mg_parts := ps\<rparr>))"

definition filter_artifact ::
    "(rat \<Rightarrow> string) \<Rightarrow> (pyval \<Rightarrow> pyval) \<Rightarrow> string list \<Rightarrow> artifact \<Rightarrow> artifact option" where
  "filter_artifact fr d accepted a =
     (let ps = filter_parts fr d accepted (ar_parts a)
      in if ps = [] then None else Some (a\<lparr>ar_parts := ps\<rparr>))"

definition filter_task ::
    "(rat \<Rightarrow> string) \<Rightarrow> (pyval \<Rightarrow> pyval) \<Rightarrow> string list \<Rightarrow> task \<Rightarrow> task" where
  "filter_task fr d accepted t =
     t\<lparr>tk_message := Option.bind (tk_message t) (filter_message fr d accepted),
       tk_history := List.map_filter (filter_message fr d accepted) (tk_history t),
       tk_artifacts := List.map_filter (filter_artifact fr d accepted) (tk_artifacts t)\<rparr>"

definition apply_accepted_output_modes ::
    "(rat \<Rightarrow> string) \<Rightarrow> (pyval \<Rightarrow> pyval) \<Rightarrow> payload \<Rightarrow> pyval \<Rightarrow> payload option" where
  "apply_accepted_output_modes fr d payload source =
     (case normalize_accepted_output_modes source of
        None \<Rightarrow> Some payload
      | Some accepted \<Rightarrow>
          (case payload of
             PArtifact e \<Rightarrow>
               map_option (\<lambda>a. PArtifact (e\<lparr>ae_artifact := a\<rparr>)) (filter_artifact fr d accepted (ae_artifact e))
           | PStatus e \<Rightarrow>
               Some (PStatus (e\<lparr>se_message := Option.bind (se_message e) (filter_message fr d accepted)\<rparr>))
           | PTask t \<Rightarrow> Some (PTask (filter_task fr d accepted t))
           | PMessage m \<Rightarrow>
               Some (PMessage (case filter_message fr d accepted m of
                                 None \<Rightarrow> m\<lparr>mg_parts := []\<rparr> | Some f \<Rightarrow> f))))"

section \<open>Compacting streamed artifacts\<close>

definition extract_artifact_stream_block_type :: "artifact \<Rightarrow> string option" where
  "extract_artifact_stream_block_type a =
     Option.bind (as_str (dget (mapping_or_empty (dget (mapping_or_empty
         (dget (ar_metadata a) ''shared'')) ''stream'')) ''block_type'')) nonempty_strip"

definition streamed_text :: "artifact \<Rightarrow> bool" where
  "streamed_text a \<longleftrightarrow> extract_artifact_stream_block_type a \<in> {Some ''text'', Some ''reasoning''} \<and>
     (\<forall>p \<in> set (ar_parts a). has_text (pt_content p) \<noteq> None)"

definition canonical_artifact :: "artifact \<Rightarrow> artifact" where
  "canonical_artifact a =
     (if ar_parts a = [] then a
      else if streamed_text a
      then a\<lparr>ar_parts := [(hd (ar_parts a))\<lparr>pt_content :=
               PText (concat (List.map_filter (\<lambda>p. has_text (pt_content p)) (ar_parts a)))\<rparr>]\<rparr>
      else if extract_artifact_stream_block_type a = Some ''tool_call'' \<and> 1 < length (ar_parts a)
      then a\<lparr>ar_parts := [last (ar_parts a)]\<rparr>
      else a)"

definition canonicalize_stream_artifacts :: "task \<Rightarrow> task" where
  "canonicalize_stream_artifacts t = t\<lparr>tk_artifacts := map canonical_artifact (tk_artifacts t)\<rparr>"

section \<open>Negotiated extensions\<close>

definition EXTENSION_URI_NAMESPACE :: string where
  "EXTENSION_URI_NAMESPACE = ''urn:opencode-a2a:extension:''"

definition SESSION_BINDING_EXTENSION_URI :: string where
  "SESSION_BINDING_EXTENSION_URI = EXTENSION_URI_NAMESPACE @ ''session-binding:v1''"

definition MODEL_SELECTION_EXTENSION_URI :: string where
  "MODEL_SELECTION_EXTENSION_URI = EXTENSION_URI_NAMESPACE @ ''model-selection:v1''"

definition STREAMING_EXTENSION_URI :: string where
  "STREAMING_EXTENSION_URI = EXTENSION_URI_NAMESPACE @ ''stream-hints:v1''"

definition INTERRUPT_CALLBACK_EXTENSION_URI :: string where
  "INTERRUPT_CALLBACK_EXTENSION_URI = EXTENSION_URI_NAMESPACE @ ''interactive-interrupt:v1''"

definition requested_extensions_from_call_context :: "string list option \<Rightarrow> string list" where
  "requested_extensions_from_call_context requested =
     (case requested of None \<Rightarrow> [] | Some vs \<Rightarrow> List.map_filter nonempty_strip vs)"

definition filtered_metadata :: "string list \<Rightarrow> mapping \<Rightarrow> mapping" where
  "filtered_metadata requested metadata =
     (case dget metadata ''shared'' of
        PDict shared \<Rightarrow>
          (let drop = (if SESSION_BINDING_EXTENSION_URI \<in> set requested then [] else [''session'']) @
                      (if MODEL_SELECTION_EXTENSION_URI \<in> set requested then [] else [''model'']) @
                      (if STREAMING_EXTENSION_URI \<in> set requested then []
                       else [''stream'', ''progress'', ''usage'']) @
                      (if INTERRUPT_CALLBACK_EXTENSION_URI \<in> set requested then [] else [''interrupt'']);
               filtered_shared = ddel_all drop shared
           in if filtered_shared \<noteq> [] then dset ''shared'' (PDict filtered_shared) metadata
              else ddel ''shared'' metadata)
      | _ \<Rightarrow> metadata)"

definition filter_message_metadata :: "string list \<Rightarrow> message \<Rightarrow> message" where
  "filter_message_metadata requested m = m\<lparr>mg_metadata := filtered_metadata requested (mg_metadata m)\<rparr>"

definition filter_artifact_metadata :: "string list \<Rightarrow> artifact \<Rightarrow> artifact" where
  "filter_artifact_metadata requested a = a\<lparr>ar_metadata := filtered_metadata requested (ar_metadata a)\<rparr>"

fun filter_negotiated_extensions_from_payload :: "payload \<Rightarrow> string list \<Rightarrow> payload" where
  "filter_negotiated_extensions_from_payload (PTask t) requested =
     PTask (t\<lparr>tk_metadata := filtered_metadata requested (tk_metadata t),
              tk_message := map_option (filter_message_metadata requested) (tk_message t),
              tk_history := map (filter_message_metadata requested) (tk_history t),
              tk_artifacts := map (filter_artifact_metadata requested) (tk_artifacts t)\<rparr>)"
| "filter_negotiated_extensions_from_payload (PStatus e) requested =
     PStatus (e\<lparr>se_metadata := filtered_metadata requested (se_metadata e),
                se_message := map_option (filter_message_metadata requested) (se_message e)\<rparr>)"
| "filter_negotiated_extensions_from_payload (PArtifact e) requested =
     PArtifact (e\<lparr>ae_artifact := filter_artifact_metadata requested (ae_artifact e)\<rparr>)"
| "filter_negotiated_extensions_from_payload (PMessage m) requested = PMessage m"

section \<open>Request metadata\<close>

text \<open>A value that is no mapping ends the path.\<close>

fun follow_path :: "pyval \<Rightarrow> string list \<Rightarrow> pyval" where
  "follow_path v [] = v"
| "follow_path v (p # ps) = (case v of PDict d \<Rightarrow> follow_path (dget d p) ps | _ \<Rightarrow> PNone)"

definition extract_namespaced_value :: "mapping option \<Rightarrow> string \<Rightarrow> string list \<Rightarrow> pyval" where
  "extract_namespaced_value source namespace path =
     (case source of
        None \<Rightarrow> PNone
      | Some m \<Rightarrow> (case dget m namespace of PDict d \<Rightarrow> follow_path (PDict d) path | _ \<Rightarrow> PNone))"

fun extract_first_namespaced_string ::
    "mapping option list \<Rightarrow> string \<Rightarrow> string list \<Rightarrow> string option" where
  "extract_first_namespaced_string [] namespace path = None"
| "extract_first_namespaced_string (source # sources) namespace path =
     (case Option.bind (as_str (extract_namespaced_value source namespace path)) nonempty_strip of
        Some value \<Rightarrow> Some value
      | None \<Rightarrow> extract_first_namespaced_string sources namespace path)"

section \<open>Output modes\<close>

definition mode_ok :: "string \<Rightarrow> bool" where
  "mode_ok m \<longleftrightarrow> m \<noteq> [] \<and> lower (strip m) = m \<and> m \<noteq> ''*'' \<and> m \<noteq> ''*/*''"

lemma mode_okI: "lower (strip s) \<noteq> [] \<Longrightarrow> lower (strip s) \<notin> {''*'', ''*/*''} \<Longrightarrow> mode_ok (lower (strip s))"
  by (simp add: mode_ok_def strip_lower)

lemma normalize_modes_ok:
  "normalize_modes vs acc = Some ms \<Longrightarrow> distinct acc \<Longrightarrow> \<forall>m \<in> set acc. mode_ok m \<Longrightarrow>
     distinct ms \<and> (\<forall>m \<in> set ms. mode_ok m)"
proof (induction vs arbitrary: acc)
  case (Cons v vs)
  show ?case
  proof (cases "as_str v")
    case None
    with Cons show ?thesis by simp
  next
    case (Some s)
    define mode where "mode = lower (strip s)"
    note run = Cons.prems(1) [unfolded normalize_modes.simps Some option.case Let_def mode_def [symmetric]]
    show ?thesis
    proof (cases "mode = [] \<or> mode \<in> set acc")
      case True
      with Cons.IH [OF _ Cons.prems(2,3)] run show ?thesis by simp
    next
      case False
      then have "mode \<notin> {''*'', ''*/*''}" using run by (auto split: if_splits)
      then have "mode_ok mode" using False mode_okI unfolding mode_def by blast
      with False Cons.IH [of "acc @ [mode]"] Cons.prems(2,3) run \<open>mode \<notin> _\<close> show ?thesis by simp
    qed
  qed
qed (auto split: if_splits)

lemma normalize_modes_fixed:
  "distinct (acc @ ms) \<Longrightarrow> \<forall>m \<in> set ms. mode_ok m \<Longrightarrow> acc @ ms \<noteq> [] \<Longrightarrow>
     normalize_modes (map PStr ms) acc = Some (acc @ ms)"
  by (induction ms arbitrary: acc) (auto simp: mode_ok_def Let_def)

lemma normalized_modes:
  assumes "normalize_accepted_output_modes source = Some ms"
  shows "distinct ms" and "\<forall>m \<in> set ms. mode_ok m" and "ms \<noteq> []"
proof -
  obtain vs where vs: "normalize_modes vs [] = Some ms"
    using assms by (auto simp: normalize_accepted_output_modes_def split: pyval.splits)
  show "distinct ms" "\<forall>m \<in> set ms. mode_ok m" using normalize_modes_ok [OF vs] by simp_all
  have "normalize_modes vs acc = Some [] \<Longrightarrow> False" for acc
    by (induction vs acc rule: normalize_modes.induct)
      (auto simp: Let_def split: option.splits if_splits)
  with vs show "ms \<noteq> []" by auto
qed

lemma normalize_mode_list:
  "distinct ms \<Longrightarrow> \<forall>m \<in> set ms. mode_ok m \<Longrightarrow> ms \<noteq> [] \<Longrightarrow>
     normalize_accepted_output_modes (mode_list ms) = Some ms"
  using normalize_modes_fixed [of "[]" ms] by (simp add: normalize_accepted_output_modes_def mode_list_def)

text \<open>
  What was negotiated is found again: the modes written into the metadata of a task or an
  event are read back as the same set, whatever else the metadata holds.
\<close>

theorem negotiated_modes_round_trip:
  assumes "normalize_accepted_output_modes source = Some modes"
  shows "extract_accepted_output_modes_from_metadata (merge_output_negotiation_metadata metadata source)
    = Some (sort modes)"
proof -
  note n = normalized_modes [OF assms]
  have "normalize_accepted_output_modes (mode_list (sort modes)) = Some (sort modes)"
    using n by (intro normalize_mode_list) (simp_all flip: set_empty)
  then show ?thesis
    by (simp add: extract_accepted_output_modes_from_metadata_def merge_output_negotiation_metadata_def
        build_output_negotiation_metadata_def assms Let_def mapping_or_empty_def dget_Cons)
qed

theorem negotiated_modes_round_trip_witness:
  "extract_accepted_output_modes_from_metadata (merge_output_negotiation_metadata
      [(''opencode'', PDict [(''directory'', PStr ''/w'')])]
      (PList [PStr ''Text/Plain '', PStr ''application/json'']))
    = Some [''application/json'', ''text/plain'']"
proof -
  have "normalize_accepted_output_modes (PList [PStr ''Text/Plain '', PStr ''application/json''])
      = Some [''text/plain'', ''application/json'']" by code_simp
  moreover have "sort [''text/plain'', ''application/json''] = [''application/json'', ''text/plain'']"
    by code_simp
  ultimately show ?thesis using negotiated_modes_round_trip by simp
qed

text \<open>Every part an event carries, in whatever place.\<close>

definition message_parts :: "message option \<Rightarrow> part list" where
  "message_parts m = (case m of None \<Rightarrow> [] | Some x \<Rightarrow> mg_parts x)"

fun payload_parts :: "payload \<Rightarrow> part list" where
  "payload_parts (PTask t) = message_parts (tk_message t) @ concat (map mg_parts (tk_history t)) @
     concat (map ar_parts (tk_artifacts t))"
| "payload_parts (PStatus e) = message_parts (se_message e)"
| "payload_parts (PArtifact e) = ar_parts (ae_artifact e)"
| "payload_parts (PMessage m) = mg_parts m"

definition part_accepted :: "string list \<Rightarrow> part \<Rightarrow> bool" where
  "part_accepted accepted p \<longleftrightarrow> (case part_media_type p of None \<Rightarrow> True | Some m \<Rightarrow> m \<in> set accepted)"

lemma filter_part_accepted: "q \<in> set (filter_part fr d accepted p) \<Longrightarrow> part_accepted accepted q"
  by (auto simp: filter_part_def part_accepted_def text_part_def split: option.splits part_content.splits if_splits)

lemma filter_parts_accepted: "q \<in> set (filter_parts fr d accepted ps) \<Longrightarrow> part_accepted accepted q"
  by (auto simp: filter_parts_def dest: filter_part_accepted)

lemma filter_message_accepted:
  "filter_message fr d accepted m = Some m' \<Longrightarrow> q \<in> set (mg_parts m') \<Longrightarrow> part_accepted accepted q"
  by (auto simp: filter_message_def Let_def dest: filter_parts_accepted split: if_splits)

lemma filter_artifact_accepted:
  "filter_artifact fr d accepted a = Some a' \<Longrightarrow> q \<in> set (ar_parts a') \<Longrightarrow> part_accepted accepted q"
  by (auto simp: filter_artifact_def Let_def dest: filter_parts_accepted split: if_splits)

text \<open>
  Nothing leaves that the client did not accept: every part of a filtered task, message or
  event, in its status message, its history and its artifacts, has an accepted media type.
\<close>

theorem only_accepted_parts_leave:
  assumes "normalize_accepted_output_modes source = Some accepted"
    and "apply_accepted_output_modes fr d payload source = Some payload'"
  shows "\<forall>q \<in> set (payload_parts payload'). part_accepted accepted q"
proof -
  have m: "part_accepted accepted q"
    if "q \<in> set (message_parts (Option.bind m (filter_message fr d accepted)))" for q m
  proof (cases "Option.bind m (filter_message fr d accepted)")
    case (Some m')
    with that filter_message_accepted show ?thesis
      by (auto simp: message_parts_def Option.bind_eq_Some_conv)
  qed (use that in \<open>simp add: message_parts_def\<close>)
  show ?thesis
    using assms
    by (cases payload)
      (auto simp: apply_accepted_output_modes_def filter_task_def map_filter_def split: option.splits,
       (blast intro: m filter_message_accepted filter_artifact_accepted)+)
qed

theorem only_accepted_parts_leave_witness:
  "let m = \<lparr>mg_message_id = ''m'', mg_role = ROLE_AGENT,
         mg_parts = [make_data_part (PStr ''x''), text_part ''t''], mg_task_id = [],
         mg_context_id = [], mg_metadata = []\<rparr>
   in \<forall>p'. apply_accepted_output_modes (\<lambda>_. ''0'') id (PMessage m) (PList [PStr ''text/plain'']) = Some p' \<longrightarrow>
        (\<forall>q \<in> set (payload_parts p'). part_accepted [''text/plain''] q)"
proof -
  have "normalize_accepted_output_modes (PList [PStr ''text/plain'']) = Some [''text/plain'']" by code_simp
  from only_accepted_parts_leave [OF this, of "\<lambda>_. ''0''" id] show ?thesis by (auto simp: Let_def)
qed

section \<open>Compacting\<close>

definition artifact_text :: "artifact \<Rightarrow> string" where
  "artifact_text a = concat (List.map_filter (\<lambda>p. has_text (pt_content p)) (ar_parts a))"

lemma canonical_metadata [simp]: "ar_metadata (canonical_artifact a) = ar_metadata a"
  by (simp add: canonical_artifact_def Let_def)

text \<open>
  Compacting an artifact before it is stored keeps the text a client has put together for
  it, and compacting twice changes nothing.
\<close>

theorem compacting_keeps_the_text:
  "(extract_artifact_stream_block_type a \<noteq> Some ''tool_call'' \<longrightarrow>
      artifact_text (canonical_artifact a) = artifact_text a) \<and>
   canonical_artifact (canonical_artifact a) = canonical_artifact a"
proof -
  have bt: "extract_artifact_stream_block_type (a\<lparr>ar_parts := ps\<rparr>) = extract_artifact_stream_block_type a"
    for ps by (simp add: extract_artifact_stream_block_type_def)
  consider "canonical_artifact a = a"
    | "streamed_text a" "canonical_artifact a =
        a\<lparr>ar_parts := [(hd (ar_parts a))\<lparr>pt_content := PText (artifact_text a)\<rparr>]\<rparr>"
    | "extract_artifact_stream_block_type a = Some ''tool_call''"
        "canonical_artifact a = a\<lparr>ar_parts := [last (ar_parts a)]\<rparr>"
    unfolding canonical_artifact_def artifact_text_def
    by (cases "ar_parts a = []"; cases "streamed_text a";
        cases "extract_artifact_stream_block_type a = Some ''tool_call''"; cases "1 < length (ar_parts a)")
      simp_all
  then show ?thesis
  proof cases
    case 2
    then have "streamed_text (canonical_artifact a)" by (simp add: 2(2)) (simp add: streamed_text_def bt)
    then have "canonical_artifact (canonical_artifact a) = canonical_artifact a"
      by (simp add: 2(2)) (simp add: canonical_artifact_def map_filter_def)
    then show ?thesis by (simp add: 2(2) artifact_text_def map_filter_def)
  next
    case 3
    then show ?thesis by (simp add: 3(2)) (simp add: canonical_artifact_def streamed_text_def bt)
  qed simp
qed

section \<open>Extensions\<close>

definition shared_of :: "mapping \<Rightarrow> mapping" where
  "shared_of metadata = mapping_or_empty (dget metadata ''shared'')"

lemma filtered_shared:
  "shared_of (filtered_metadata requested metadata) =
     ddel_all ((if SESSION_BINDING_EXTENSION_URI \<in> set requested then [] else [''session'']) @
               (if MODEL_SELECTION_EXTENSION_URI \<in> set requested then [] else [''model'']) @
               (if STREAMING_EXTENSION_URI \<in> set requested then [] else [''stream'', ''progress'', ''usage'']) @
               (if INTERRUPT_CALLBACK_EXTENSION_URI \<in> set requested then [] else [''interrupt'']))
       (shared_of metadata)"
proof (cases "dget metadata ''shared''")
  case (PDict d)
  then show ?thesis
    by (simp add: filtered_metadata_def shared_of_def mapping_or_empty_def Let_def)
      (simp add: dget_def)
qed (simp_all add: filtered_metadata_def shared_of_def mapping_or_empty_def ddel_all_def)

text \<open>The keys of \<open>metadata.shared\<close> that a client sees without the extension.\<close>

definition negotiated_key :: "string list \<Rightarrow> string \<Rightarrow> bool" where
  "negotiated_key requested k \<longleftrightarrow>
     (k = ''session'' \<longrightarrow> SESSION_BINDING_EXTENSION_URI \<in> set requested) \<and>
     (k = ''model'' \<longrightarrow> MODEL_SELECTION_EXTENSION_URI \<in> set requested) \<and>
     (k \<in> {''stream'', ''progress'', ''usage''} \<longrightarrow> STREAMING_EXTENSION_URI \<in> set requested) \<and>
     (k = ''interrupt'' \<longrightarrow> INTERRUPT_CALLBACK_EXTENSION_URI \<in> set requested)"

lemma filtered_shared_lookup:
  "map_of (shared_of (filtered_metadata requested metadata)) k =
     (if negotiated_key requested k then map_of (shared_of metadata) k else None)"
  by (auto simp: filtered_shared map_of_ddel_all negotiated_key_def)

lemma filtered_other_keys:
  "k \<noteq> ''shared'' \<Longrightarrow> map_of (filtered_metadata requested metadata) k = map_of metadata k"
proof (cases "dget metadata ''shared''")
  case (PDict d)
  then obtain F where "filtered_metadata requested metadata =
      (if F \<noteq> [] then dset ''shared'' (PDict F) metadata else ddel ''shared'' metadata)"
    by (simp add: filtered_metadata_def Let_def)
  then show "k \<noteq> ''shared'' \<Longrightarrow> ?thesis" by (simp add: map_of_ddel)
qed (simp_all add: filtered_metadata_def)

text \<open>
  Metadata of an extension reaches exactly the clients that asked for the extension: in the
  filtered metadata every key under shared that belongs to an extension is there only if the
  extension was requested, and everything else is untouched.
\<close>

theorem only_negotiated_metadata_leaves:
  "map_of (shared_of (filtered_metadata requested metadata)) k =
     (if negotiated_key requested k then map_of (shared_of metadata) k else None) \<and>
   (k \<noteq> ''shared'' \<longrightarrow> map_of (filtered_metadata requested metadata) k = map_of metadata k)"
  using filtered_shared_lookup filtered_other_keys by blast

theorem only_negotiated_metadata_leaves_witness:
  "map_of (filtered_metadata [] [(''shared'', PDict [(''usage'', PInt 1)]), (''x'', PInt 2)]) ''x''
     = Some (PInt 2)"
  using only_negotiated_metadata_leaves
    [of "[]" "[(''shared'', PDict [(''usage'', PInt 1)]), (''x'', PInt 2)]" "''x''"] by simp

text \<open>What is read from request metadata is stripped and not empty.\<close>

lemma namespaced_string_normal:
  "extract_first_namespaced_string sources namespace path = Some v \<Longrightarrow> v \<noteq> [] \<and> strip v = v"
proof (induction sources)
  case (Cons source sources)
  let ?o = "Option.bind (as_str (extract_namespaced_value source namespace path)) nonempty_strip"
  show ?case
  proof (cases ?o)
    case None
    with Cons show ?thesis by simp
  next
    case (Some w)
    with Cons.prems have "w = v" by simp
    with bind_strip_fixed [OF Some] show ?thesis by simp
  qed
qed simp

end
