(* ===== verification/Redact.thy ===== *)
theory Redact
  imports Py_Prelude
begin

text \<open>
  Python's regular expressions as far as the program uses them (classes of characters,
  sequence, ordered choice, greedy repetition, a negative look at the next character), and the
  masking of file system paths in error texts built on them (\<open>redact.py\<close>).
\<close>

section \<open>Regular expressions\<close>

datatype regex =
    Cls "char \<Rightarrow> bool"
  | Then regex regex
  | Or regex regex
  | Many regex
  | Empty
  | NotNext "char \<Rightarrow> bool"

text \<open>
  The rests of the text after a match at its beginning, in the order the matcher tries them.
  A round of a repetition that consumes nothing ends it.
\<close>

function (sequential) rests :: "regex \<Rightarrow> string \<Rightarrow> string list" where
  "rests (Cls P) s = (case s of [] \<Rightarrow> [] | c # t \<Rightarrow> if P c then [t] else [])"
| "rests (Then a b) s = concat (map (rests b) (rests a s))"
| "rests (Or a b) s = rests a s @ rests b s"
| "rests (Many a) s =
     concat (map (\<lambda>t. if length t < length s then rests (Many a) t else []) (rests a s)) @ [s]"
| "rests Empty s = [s]"
| "rests (NotNext P) s = (case s of [] \<Rightarrow> [s] | c # t \<Rightarrow> if P c then [] else [s])"
  by pat_completeness auto

termination
  by (relation "measures [\<lambda>(r, s). size r, \<lambda>(r, s). length s]") auto

definition Some_of :: "regex \<Rightarrow> regex" where
  "Some_of r = Then r (Many r)"

definition Chr :: "char \<Rightarrow> regex" where
  "Chr c = Cls ((=) c)"

fun Lit :: "string \<Rightarrow> regex" where
  "Lit [] = Empty"
| "Lit (c # s) = Then (Chr c) (Lit s)"

text \<open>
  \<open>pattern.sub(replacement, text)\<close>: from left to right, at a position whose previous character
  passes the look behind; the empty match does not occur in the patterns of the program.
\<close>

fun first_rest :: "string \<Rightarrow> string list \<Rightarrow> string option" where
  "first_rest s [] = None"
| "first_rest s (t # ts) = (if length t < length s then Some t else first_rest s ts)"

lemma first_rest_shorter: "first_rest s ts = Some t \<Longrightarrow> length t < length s"
  by (induction ts) (auto split: if_splits)

function re_sub :: "(char option \<Rightarrow> bool) \<Rightarrow> regex \<Rightarrow> string \<Rightarrow> char option \<Rightarrow> string \<Rightarrow> string" where
  "re_sub behind r repl prev [] = []"
| "re_sub behind r repl prev (c # s) =
     (case (if behind prev then first_rest (c # s) (rests r (c # s)) else None) of
        None \<Rightarrow> c # re_sub behind r repl (Some c) s
      | Some t \<Rightarrow> repl @ re_sub behind r repl
                   (Some (last (take (length (c # s) - length t) (c # s)))) t)"
  by pat_completeness auto

termination
  by (relation "measure (\<lambda>(_, _, _, _, s). length s)")
    (auto dest: first_rest_shorter split: if_splits)

section \<open>The patterns\<close>

text \<open>\<open>\w\<close> on the characters U+00 to U+FF.\<close>

definition word_char :: "char \<Rightarrow> bool" where
  "word_char c \<longleftrightarrow> (let n = of_char c :: nat in
     (48 \<le> n \<and> n \<le> 57) \<or> (65 \<le> n \<and> n \<le> 90) \<or> (97 \<le> n \<and> n \<le> 122) \<or> n = 95 \<or>
     n \<in> {170, 178, 179, 181, 185, 186, 188, 189, 190} \<or> (192 \<le> n \<and> n \<noteq> 215 \<and> n \<noteq> 247))"

definition letter :: "char \<Rightarrow> bool" where
  "letter c \<longleftrightarrow> (let n = of_char c :: nat in (65 \<le> n \<and> n \<le> 90) \<or> (97 \<le> n \<and> n \<le> 122))"

definition backslash :: char where
  "backslash = CHR 0x5C"

definition separator :: "char \<Rightarrow> bool" where
  "separator c \<longleftrightarrow> c = CHR ''/'' \<or> c = backslash"

definition segment_char :: "char \<Rightarrow> bool" where
  "segment_char c \<longleftrightarrow> word_char c \<or> c \<in> {CHR ''@'', CHR ''+'', CHR ''%'', CHR ''-''}"

definition SEGMENT :: regex where
  "SEGMENT = Then (Some_of (Cls segment_char))
     (Many (Then (Chr CHR ''.'') (Some_of (Cls segment_char))))"

definition POSIX_ABSOLUTE_PATH :: regex where
  "POSIX_ABSOLUTE_PATH = Then (Some_of (Then (Chr CHR ''/'') SEGMENT))
     (NotNext (\<lambda>c. word_char c \<or> c = CHR '':'' \<or> c = CHR ''/'' \<or> c = CHR ''{''))"

definition posix_behind :: "char option \<Rightarrow> bool" where
  "posix_behind prev = (case prev of None \<Rightarrow> True
     | Some c \<Rightarrow> \<not> (separator c \<or> word_char c \<or> c = CHR ''.''))"

definition WINDOWS_ABSOLUTE_PATH :: regex where
  "WINDOWS_ABSOLUTE_PATH = Then
     (Or (Then (Cls letter) (Then (Chr CHR '':'') (Cls separator)))
         (Then (Chr backslash) (Then (Chr backslash)
           (Then (Some_of (Cls segment_char)) (Cls separator)))))
     (Then SEGMENT (Many (Then (Cls separator) SEGMENT)))"

definition windows_behind :: "char option \<Rightarrow> bool" where
  "windows_behind prev = (case prev of None \<Rightarrow> True | Some c \<Rightarrow> \<not> (separator c \<or> word_char c))"

text \<open>The letters of the scheme match in either case.\<close>

fun Lit_ignore_case :: "string \<Rightarrow> regex" where
  "Lit_ignore_case [] = Empty"
| "Lit_ignore_case (c # s) = Then (Cls (\<lambda>d. lower_char d = c)) (Lit_ignore_case s)"

definition FILE_URL_PATH :: regex where
  "FILE_URL_PATH = Then (Lit_ignore_case ''file://'')
     (Then
       (Or (Then (Cls letter) (Then (Chr CHR '':'') (Cls separator)))
         (Or (Then (Some_of (Cls segment_char))
               (Then (Many (Then (Cls (\<lambda>c. c = CHR ''.'' \<or> c = CHR '':'')) (Some_of (Cls segment_char))))
                 (Chr CHR ''/'')))
             (Chr CHR ''/'')))
       (Then SEGMENT (Many (Then (Chr CHR ''/'') SEGMENT))))"

definition REDACTED_PATH_PLACEHOLDER :: string where
  "REDACTED_PATH_PLACEHOLDER = ''<redacted-path>''"

definition redact_absolute_paths :: "string \<Rightarrow> string" where
  "redact_absolute_paths txt =
     (let redacted = re_sub (\<lambda>_. True) FILE_URL_PATH REDACTED_PATH_PLACEHOLDER None txt;
          redacted = re_sub windows_behind WINDOWS_ABSOLUTE_PATH REDACTED_PATH_PLACEHOLDER None redacted
      in re_sub posix_behind POSIX_ABSOLUTE_PATH REDACTED_PATH_PLACEHOLDER None redacted)"

fun redact_paths_in_value :: "pyval \<Rightarrow> pyval" where
  "redact_paths_in_value (PStr s) = PStr (redact_absolute_paths s)"
| "redact_paths_in_value (PList vs) = PList (map redact_paths_in_value vs)"
| "redact_paths_in_value (PDict d) = PDict (map (\<lambda>(k, v). (k, redact_paths_in_value v)) d)"
| "redact_paths_in_value v = v"

section \<open>Matching\<close>

declare rests.simps(4) [simp del]

lemma rests_Many_Cons:
  "rests a s = t # ts \<Longrightarrow> length t < length s \<Longrightarrow> rests (Many a) t = u # us \<Longrightarrow>
     \<exists>vs. rests (Many a) s = u # vs"
  by (simp add: rests.simps(4) [of a s])

lemma rests_Many_Nil: "rests a s = [] \<Longrightarrow> rests (Many a) s = [s]"
  by (simp add: rests.simps(4) [of a s])

lemma rests_Then_Cons:
  "rests a s = t # ts \<Longrightarrow> rests b t = u # us \<Longrightarrow> \<exists>vs. rests (Then a b) s = u # vs"
  by simp

lemma rests_suffix: "t \<in> set (rests r s) \<Longrightarrow> \<exists>u. s = u @ t"
proof (induction r s arbitrary: t rule: rests.induct)
  case (1 P s)
  then show ?case by (cases s) (auto split: if_splits)
next
  case (2 a b s)
  then obtain m where m: "m \<in> set (rests a s)" "t \<in> set (rests b m)" by auto
  from 2(1) [OF m(1)] 2(2) [OF m] show ?case by force
next
  case (4 a s)
  show ?case
  proof (cases "t = s")
    case False
    with 4(3) obtain m where m: "m \<in> set (rests a s)" "length m < length s"
      "t \<in> set (rests (Many a) m)" by (auto simp: rests.simps(4) [of a s] split: if_splits)
    from 4(1) [OF m(1)] 4(2) [OF m] show ?thesis by force
  qed simp
qed (auto split: list.splits if_splits)

text \<open>Every match contains a character of the class.\<close>

fun mandatory :: "(char \<Rightarrow> bool) \<Rightarrow> regex \<Rightarrow> bool" where
  "mandatory C (Then a b) \<longleftrightarrow> mandatory C a \<or> mandatory C b"
| "mandatory C (Or a b) \<longleftrightarrow> mandatory C a \<and> mandatory C b"
| "mandatory C (Cls P) \<longleftrightarrow> (\<forall>d. P d \<longrightarrow> C d)"
| "mandatory C _ \<longleftrightarrow> False"

lemma mandatory_Chr [simp]: "mandatory C (Chr d) \<longleftrightarrow> C d"
  by (auto simp: Chr_def)

lemma mandatory_in_match:
  "t \<in> set (rests r s) \<Longrightarrow> mandatory C r \<Longrightarrow> \<exists>u. s = u @ t \<and> (\<exists>c \<in> set u. C c)"
proof (induction r s arbitrary: t rule: rests.induct)
  case (1 P s)
  then show ?case by (cases s) (auto split: if_splits)
next
  case (2 a b s)
  then obtain m where m: "m \<in> set (rests a s)" "t \<in> set (rests b m)" by auto
  from rests_suffix [OF m(1)] obtain u where u: "s = u @ m" ..
  from rests_suffix [OF m(2)] obtain v where v: "m = v @ t" ..
  show ?case
  proof (cases "mandatory C a")
    case True
    from 2(1) [OF m(1) True] v show ?thesis by auto
  next
    case False
    then have "mandatory C b" using 2(4) by simp
    from 2(2) [OF m this] u show ?thesis by auto
  qed
qed auto

lemma rests_absent: "\<forall>c \<in> set s. \<not> C c \<Longrightarrow> mandatory C r \<Longrightarrow> rests r s = []"
  using mandatory_in_match [of _ r s C] by (cases "rests r s") force+

lemma re_sub_absent: "\<forall>c \<in> set s. \<not> C c \<Longrightarrow> mandatory C r \<Longrightarrow> re_sub behind r repl prev s = s"
proof (induction s arbitrary: prev)
  case (Cons d s)
  then have "rests r (d # s) = []" by (intro rests_absent [where C = C]) simp_all
  with Cons show ?case by simp
qed simp

text \<open>Greedy repetition takes everything first.\<close>

lemma many_cls_greedy:
  "\<forall>c \<in> set w. P c \<Longrightarrow> t = [] \<or> \<not> P (hd t) \<Longrightarrow> \<exists>ts. rests (Many (Cls P)) (w @ t) = t # ts"
proof (induction w)
  case Nil
  then have "rests (Cls P) t = []" by (cases t) auto
  then show ?case by (simp add: rests_Many_Nil)
next
  case (Cons c w)
  then obtain ts where "rests (Many (Cls P)) (w @ t) = t # ts" by auto
  with Cons.prems show ?case by (intro rests_Many_Cons) auto
qed

lemma segment_greedy:
  assumes "w \<noteq> []" and "\<forall>c \<in> set w. segment_char c" and t: "t = [] \<or> hd t = CHR ''/''"
  shows "\<exists>ts. rests SEGMENT (w @ t) = t # ts"
proof -
  obtain c w' where w: "w = c # w'" using assms(1) by (cases w) auto
  have "\<not> segment_char CHR ''/''" by code_simp
  with t have stop: "t = [] \<or> \<not> segment_char (hd t)" by auto
  obtain ts where many: "rests (Many (Cls segment_char)) (w' @ t) = t # ts"
    using many_cls_greedy [where P = segment_char, OF _ stop, of w'] assms(2) by (auto simp: w)
  then have some: "rests (Some_of (Cls segment_char)) (w @ t) = t # ts"
    using assms(2) by (simp add: Some_of_def w)
  have "rests (Then (Chr CHR ''.'') (Some_of (Cls segment_char))) t = []"
    using t by (cases t) (auto simp: Chr_def)
  from rests_Then_Cons [OF some rests_Many_Nil [OF this]] show ?thesis by (simp add: SEGMENT_def)
qed

definition posix_path :: "string list \<Rightarrow> string" where
  "posix_path segments = concat (map (\<lambda>w. CHR ''/'' # w) segments)"

definition plain_segment :: "string \<Rightarrow> bool" where
  "plain_segment w \<longleftrightarrow> w \<noteq> [] \<and> (\<forall>c \<in> set w. segment_char c)"

lemma posix_path_start: "posix_path ws = [] \<or> hd (posix_path ws) = CHR ''/''"
  by (cases ws) (simp_all add: posix_path_def)

lemma slash_segment_greedy:
  assumes "plain_segment w"
  shows "\<exists>ts. rests (Then (Chr CHR ''/'') SEGMENT) (posix_path (w # ws)) = posix_path ws # ts"
  using segment_greedy [of w "posix_path ws"] assms posix_path_start [of ws]
  by (simp add: plain_segment_def posix_path_def Chr_def)

lemma segments_greedy:
  "\<forall>w \<in> set ws. plain_segment w \<Longrightarrow>
     \<exists>ts. rests (Many (Then (Chr CHR ''/'') SEGMENT)) (posix_path ws) = [] # ts"
proof (induction ws)
  case Nil
  have "rests (Then (Chr CHR ''/'') SEGMENT) [] = []" by (simp add: Chr_def)
  then show ?case by (simp add: posix_path_def rests_Many_Nil)
next
  case (Cons w ws)
  obtain ts us where "rests (Then (Chr CHR ''/'') SEGMENT) (posix_path (w # ws)) = posix_path ws # ts"
    "rests (Many (Then (Chr CHR ''/'') SEGMENT)) (posix_path ws) = [] # us"
    using slash_segment_greedy [of w ws] Cons by auto
  moreover have "length (posix_path ws) < length (posix_path (w # ws))" by (simp add: posix_path_def)
  ultimately show ?case using rests_Many_Cons by blast
qed

lemma whole_path_match:
  assumes "ws \<noteq> []" and ok: "\<forall>w \<in> set ws. plain_segment w"
  shows "\<exists>ts. rests POSIX_ABSOLUTE_PATH (posix_path ws) = [] # ts"
proof -
  obtain w vs where ws: "ws = w # vs" using assms(1) by (cases ws) auto
  obtain ts us where "rests (Then (Chr CHR ''/'') SEGMENT) (posix_path ws) = posix_path vs # ts"
    "rests (Many (Then (Chr CHR ''/'') SEGMENT)) (posix_path vs) = [] # us"
    using slash_segment_greedy [of w vs] segments_greedy [of vs] ok by (auto simp: ws)
  then obtain xs where some: "rests (Some_of (Then (Chr CHR ''/'') SEGMENT)) (posix_path ws) = [] # xs"
    unfolding Some_of_def using rests_Then_Cons by blast
  show ?thesis unfolding POSIX_ABSOLUTE_PATH_def by (rule rests_Then_Cons [OF some]) simp
qed

definition marker :: "char \<Rightarrow> bool" where
  "marker c \<longleftrightarrow> c = CHR '':'' \<or> c = backslash"

lemma lower_char_colon: "lower_char d = CHR '':'' \<longleftrightarrow> d = CHR '':''"
proof
  assume "lower_char d = CHR '':''"
  then have "(of_char (lower_char d) :: nat) = of_char CHR '':''" by simp
  then have "(of_char d :: nat) = of_char CHR '':''" by (auto simp: of_lower_char Let_def split: if_splits)
  then show "d = CHR '':''" by (simp only: of_char_eq_iff)
qed (simp add: lower_char_def)

lemma marked_patterns: "mandatory marker FILE_URL_PATH" "mandatory marker WINDOWS_ABSOLUTE_PATH"
  by (simp_all add: FILE_URL_PATH_def WINDOWS_ABSOLUTE_PATH_def lower_char_colon marker_def)

lemma redact_without_markers:
  assumes "\<forall>c \<in> set txt. \<not> marker c"
  shows "redact_absolute_paths txt =
    re_sub posix_behind POSIX_ABSOLUTE_PATH REDACTED_PATH_PLACEHOLDER None txt"
  using re_sub_absent [OF assms] marked_patterns by (simp add: redact_absolute_paths_def)

text \<open>A text without separators is not changed.\<close>

lemma redact_without_separators:
  assumes "\<forall>c \<in> set txt. \<not> marker c \<and> c \<noteq> CHR ''/''"
  shows "redact_absolute_paths txt = txt"
proof -
  have "mandatory (\<lambda>c. c = CHR ''/'') POSIX_ABSOLUTE_PATH"
    by (simp add: POSIX_ABSOLUTE_PATH_def Some_of_def)
  then show ?thesis
    using assms re_sub_absent [where C = "\<lambda>c. c = CHR ''/''"] by (simp add: redact_without_markers)
qed

section \<open>Properties\<close>

text \<open>
  An absolute path of plain segments, given alone, is masked as a whole.
\<close>

theorem plain_path_is_masked:
  assumes "segments \<noteq> []" and "\<forall>w \<in> set segments. plain_segment w"
  shows "redact_absolute_paths (posix_path segments) = REDACTED_PATH_PLACEHOLDER"
proof -
  have "\<not> marker c" if "c = CHR ''/'' \<or> segment_char c" for c
  proof -
    have "\<not> segment_char CHR '':''" "\<not> segment_char backslash" by code_simp+
    with that show ?thesis by (auto simp: marker_def backslash_def)
  qed
  then have no: "\<forall>c \<in> set (posix_path segments). \<not> marker c"
    using assms(2) by (auto simp: posix_path_def plain_segment_def)
  obtain c t where ct: "posix_path segments = c # t"
    using assms(1) by (cases segments) (auto simp: posix_path_def)
  obtain ts where "rests POSIX_ABSOLUTE_PATH (posix_path segments) = [] # ts"
    using whole_path_match [OF assms] by blast
  then show ?thesis
    unfolding redact_without_markers [OF no] by (simp add: ct posix_behind_def)
qed

theorem plain_path_is_masked_witness:
  "redact_absolute_paths ''/home/ubuntu'' = ''<redacted-path>''"
  using plain_path_is_masked [of "[''home'', ''ubuntu'']"]
  by (simp add: posix_path_def plain_segment_def segment_char_def word_char_def
      REDACTED_PATH_PLACEHOLDER_def)

text \<open>
  Masking has gaps. A directory with a trailing slash stays in the text, as does a path
  followed by a colon, the usual form of a system error; and masking twice is not the same as
  masking once, since the first pass can uncover a network path for the second.
\<close>

theorem masking_has_gaps:
  "redact_absolute_paths ''no directory /home/ubuntu/'' = ''no directory /home/ubuntu/'' \<and>
   redact_absolute_paths ''cat: /etc/passwd: denied'' = ''cat: /etc/passwd: denied'' \<and>
   (let unc = backslash # backslash # ''srv'' @ backslash # ''share''
    in redact_absolute_paths (''/a'' @ unc) = ''<redacted-path>'' @ unc \<and>
       redact_absolute_paths (redact_absolute_paths (''/a'' @ unc)) = ''<redacted-path><redacted-path>'')"
  by code_simp

end
