(* ===== verification/Sandbox_Policy.thy ===== *)
theory Sandbox_Policy
  imports Py_Prelude
begin

text \<open>
  Which directory a request may work in (\<open>sandbox_policy.py\<close>). A resolved path is the list of
  its components; \<open>Path.resolve\<close>, which follows the links of the file system, is the parameter
  \<open>resolve\<close> on the components of an absolute path, and \<open>cwd\<close> is the working directory.
\<close>

section \<open>Paths\<close>

type_synonym path = "string list"

definition path_components :: "string \<Rightarrow> path" where
  "path_components s = filter (\<lambda>c. c \<noteq> [] \<and> c \<noteq> ''.'') (split_char CHR ''/'' s)"

definition is_absolute :: "string \<Rightarrow> bool" where
  "is_absolute s = startswith s ''/''"

definition path_str :: "path \<Rightarrow> string" where
  "path_str p = CHR ''/'' # join ''/'' p"

definition relative_to :: "path \<Rightarrow> path \<Rightarrow> bool" where
  "relative_to p base \<longleftrightarrow> take (length base) p = base"

text \<open>\<open>Path(s).resolve()\<close>\<close>

definition resolve_str :: "(path \<Rightarrow> path) \<Rightarrow> path \<Rightarrow> string \<Rightarrow> path" where
  "resolve_str resolve cwd s =
     resolve (if is_absolute s then path_components s else cwd @ path_components s)"

section \<open>The policy\<close>

datatype value_error = ValueError string

record sandbox_policy =
  sp_workspace_root :: path
  sp_allow_directory_override :: bool
  sp_sandbox_mode :: string
  sp_filesystem_scope :: string
  sp_writable_roots :: "path list"
  sp_write_access_scope :: string

record sandbox_settings =
  st_opencode_workspace_root :: "string option"
  st_allow_directory_override :: bool
  st_sandbox_mode :: string
  st_filesystem_scope :: string
  st_writable_roots :: "string list"
  st_write_access_scope :: string

definition from_settings ::
    "(path \<Rightarrow> path) \<Rightarrow> path \<Rightarrow> sandbox_settings \<Rightarrow> string option \<Rightarrow> sandbox_policy" where
  "from_settings resolve cwd settings workspace_root =
     (let pick = (\<lambda>x. case x of None \<Rightarrow> None | Some s \<Rightarrow> if s = [] then None else Some s);
          base = (case pick workspace_root of
                    Some s \<Rightarrow> resolve_str resolve cwd s
                  | None \<Rightarrow> (case pick (st_opencode_workspace_root settings) of
                               Some s \<Rightarrow> resolve_str resolve cwd s | None \<Rightarrow> resolve cwd))
      in \<lparr>sp_workspace_root = base,
          sp_allow_directory_override = st_allow_directory_override settings,
          sp_sandbox_mode = st_sandbox_mode settings,
          sp_filesystem_scope = st_filesystem_scope settings,
          sp_writable_roots = map (resolve_str resolve cwd)
            (filter (\<lambda>r. strip r \<noteq> []) (st_writable_roots settings)),
          sp_write_access_scope = st_write_access_scope settings\<rparr>)"

definition base_directory ::
    "(path \<Rightarrow> path) \<Rightarrow> path \<Rightarrow> sandbox_policy \<Rightarrow> string option \<Rightarrow> path" where
  "base_directory resolve cwd P default_directory =
     (case default_directory of
        None \<Rightarrow> sp_workspace_root P
      | Some d \<Rightarrow> if d = [] then sp_workspace_root P else resolve_str resolve cwd d)"

definition resolve_directory ::
    "(path \<Rightarrow> path) \<Rightarrow> path \<Rightarrow> sandbox_policy \<Rightarrow> pyval \<Rightarrow> string option \<Rightarrow> value_error + string"
  where
  "resolve_directory resolve cwd P requested default_directory =
     (let base = base_directory resolve cwd P default_directory
      in if requested \<noteq> PNone \<and> as_str requested = None
         then Inl (ValueError ''Directory must be a string path'')
         else (let r = strip (case as_str requested of None \<Rightarrow> [] | Some s \<Rightarrow> s)
               in if r = [] then Inr (path_str base)
                  else (let target = resolve (if is_absolute r then path_components r
                                              else base @ path_components r)
                        in if \<not> sp_allow_directory_override P then
                             (if target = base then Inr (path_str base)
                              else Inl (ValueError
                                ''Directory override is disabled by service configuration''))
                           else if relative_to target base then Inr (path_str target)
                           else Inl (ValueError (''Directory '' @ r @
                                  '' is outside the allowed workspace '' @ path_str base)))))"

definition is_session_shell_enabled :: "sandbox_policy \<Rightarrow> bool \<Rightarrow> bool" where
  "is_session_shell_enabled P enabled_by_config =
     (if \<not> enabled_by_config then False
      else if sp_sandbox_mode P = ''read-only'' then False
      else if sp_write_access_scope P = ''none'' then False
      else True)"

definition is_workspace_mutations_enabled :: "sandbox_policy \<Rightarrow> bool \<Rightarrow> bool" where
  "is_workspace_mutations_enabled P enabled_by_config =
     (if \<not> enabled_by_config then False
      else if sp_sandbox_mode P = ''read-only'' then False
      else if sp_write_access_scope P = ''none'' then False
      else True)"

definition is_within_workspace :: "path \<Rightarrow> path \<Rightarrow> bool" where
  "is_within_workspace p workspace_root = relative_to p workspace_root"

definition validate_configuration :: "sandbox_policy \<Rightarrow> value_error + unit" where
  "validate_configuration P =
     (if sp_write_access_scope P = ''none'' \<and> sp_writable_roots P \<noteq> [] then
        Inl (ValueError ''Declared writable roots are incompatible with A2A_WRITE_ACCESS_SCOPE=none'')
      else if sp_write_access_scope P = ''workspace_only'' \<or> sp_filesystem_scope P = ''workspace_only''
      then (let outside = filter (\<lambda>r. \<not> is_within_workspace r (sp_workspace_root P)) (sp_writable_roots P)
            in if outside \<noteq> [] then
                 Inl (ValueError (''Declared writable roots must stay within the workspace root when '' @
                   ''the configured scope is workspace_only: '' @ join '', '' (map path_str outside)))
               else Inr ())
      else Inr ())"

section \<open>Lemmas\<close>

lemma relative_to_iff: "relative_to p base \<longleftrightarrow> (\<exists>rest. p = base @ rest)"
  by (auto simp: relative_to_def intro: exI [of _ "drop (length base) p"])
    (metis append_take_drop_id)

lemma valid_roots_within:
  "validate_configuration P = Inr () \<Longrightarrow>
     sp_write_access_scope P = ''workspace_only'' \<or> sp_filesystem_scope P = ''workspace_only'' \<Longrightarrow>
     r \<in> set (sp_writable_roots P) \<Longrightarrow> \<exists>rest. r = sp_workspace_root P @ rest"
  by (auto simp: validate_configuration_def Let_def is_within_workspace_def relative_to_iff
      filter_empty_conv split: if_splits)

text \<open>The lexical resolution, which is that of a file system without links.\<close>

fun normalize_dots :: "path \<Rightarrow> path \<Rightarrow> path" where
  "normalize_dots acc [] = rev acc"
| "normalize_dots acc (c # cs) =
     (if c = ''..'' then normalize_dots (tl acc) cs else normalize_dots (c # acc) cs)"

text \<open>
  The answer is the base directory or lies below it, however the file system resolves links, and
  it is the base directory itself where the configuration does not allow an override.
\<close>

lemma directory_is_confined:
  "resolve_directory resolve cwd P requested default_directory = Inr d \<Longrightarrow>
     \<exists>rest. d = path_str (base_directory resolve cwd P default_directory @ rest) \<and>
       (\<not> sp_allow_directory_override P \<longrightarrow> rest = [])"
  by (auto simp: resolve_directory_def Let_def relative_to_iff intro: exI [of _ "[]"] split: if_splits)

end
