(* ===== verification/Session_Manager.thy ===== *)
theory Session_Manager
  imports Session_Repository
begin

text \<open>
  The session manager of \<open>execution/session_manager.py\<close>: which identity owns which upstream
  session, the two-phase claim of a session a client names itself, and the creation of a
  session per conversation with concurrent requests sharing one creation. The manager
  works on any repository of theory \<open>Session_Repository\<close>.

  Each definition is one critical section of the code (the ownership lock, the context
  lock, the registry lock), run at one time \<open>now\<close>; between critical sections other
  operations may run, which the step relation at the end makes explicit.
\<close>

section \<open>Operations\<close>

datatype sm_error = PermissionError string

text \<open>An optional string that is neither \<open>None\<close> nor empty.\<close>

definition is_set :: "string option \<Rightarrow> bool" where
  "is_set x \<longleftrightarrow> x \<noteq> None \<and> x \<noteq> Some []"

definition claim_preferred_session ::
    "'s session_repo \<Rightarrow> seconds \<Rightarrow> string \<Rightarrow> string \<Rightarrow> 's \<Rightarrow> (sm_error + bool) \<times> 's" where
  "claim_preferred_session R now identity session_id s =
     (let (owner, s1) = sr_get_owner R now session_id s;
          (pending_owner, s2) = sr_get_pending_claim R now session_id s1
      in if is_set owner \<and> owner \<noteq> Some identity then (Inl (PermissionError session_id), s2)
         else if is_set pending_owner \<and> pending_owner \<noteq> Some identity
           then (Inl (PermissionError session_id), s2)
         else if owner = Some identity then (Inr False, s2)
         else (Inr True, sr_set_pending_claim R now session_id identity s2))"

definition finalize_session_claim ::
    "'s session_repo \<Rightarrow> seconds \<Rightarrow> string \<Rightarrow> string \<Rightarrow> 's \<Rightarrow> (sm_error + unit) \<times> 's" where
  "finalize_session_claim R now identity session_id s =
     (let (owner, s1) = sr_get_owner R now session_id s;
          (pending_owner, s2) = sr_get_pending_claim R now session_id s1
      in if is_set owner \<and> owner \<noteq> Some identity then (Inl (PermissionError session_id), s2)
         else if is_set pending_owner \<and> pending_owner \<noteq> Some identity
           then (Inl (PermissionError session_id), s2)
         else (Inr (), sr_clear_pending_claim R session_id (Some identity)
                         (sr_set_owner R now session_id identity s2)))"

definition release_preferred_session_claim ::
    "'s session_repo \<Rightarrow> string \<Rightarrow> string \<Rightarrow> 's \<Rightarrow> 's" where
  "release_preferred_session_claim R identity session_id s =
     sr_clear_pending_claim R session_id (Some identity) s"

definition finalize_preferred_session_binding ::
    "'s session_repo \<Rightarrow> seconds \<Rightarrow> string \<Rightarrow> string \<Rightarrow> string \<Rightarrow> 's \<Rightarrow> (sm_error + unit) \<times> 's" where
  "finalize_preferred_session_binding R now identity context_id session_id s =
     (case finalize_session_claim R now identity session_id s of
        (Inl e, s1) \<Rightarrow> (Inl e, s1)
      | (Inr _, s1) \<Rightarrow> (Inr (), sr_set_session R now identity context_id session_id s1))"

text \<open>\<open>get_or_create_session\<close> with a preferred session: claim it, bind it at once when it is owned.\<close>

definition get_preferred_session ::
    "'s session_repo \<Rightarrow> seconds \<Rightarrow> string \<Rightarrow> string \<Rightarrow> string \<Rightarrow> 's
       \<Rightarrow> (sm_error + string \<times> bool) \<times> 's" where
  "get_preferred_session R now identity context_id preferred s =
     (case claim_preferred_session R now identity preferred s of
        (Inl e, s1) \<Rightarrow> (Inl e, s1)
      | (Inr pending_claim, s1) \<Rightarrow>
          (Inr (preferred, pending_claim),
           if pending_claim then s1
           else sr_set_session R now identity context_id preferred s1))"

text \<open>
  The manager's own state: the session creations in flight, by conversation. A creation is
  an asyncio task, here a number with the arguments it passes to the upstream client.
\<close>

record create_request =
  cr_title :: string
  cr_kwargs :: "(string \<times> string) list"

record 's session_manager =
  sm_repo :: 's
  sm_inflight_session_creates :: "((string \<times> string) \<times> nat) list"
  sm_tasks :: "create_request list"

definition create_session_kwargs :: "string option \<Rightarrow> string option \<Rightarrow> (string \<times> string) list" where
  "create_session_kwargs directory workspace_id =
     dset_opt ''workspace_id'' workspace_id (dset_opt ''directory'' directory [])"

text \<open>First critical section: the bound session, or the creation to wait for.\<close>

definition lookup_or_start_create ::
    "'s session_repo \<Rightarrow> seconds \<Rightarrow> string \<Rightarrow> string \<Rightarrow> string \<Rightarrow> string option \<Rightarrow> string option
       \<Rightarrow> 's session_manager \<Rightarrow> (string + nat) \<times> 's session_manager" where
  "lookup_or_start_create R now identity context_id title directory workspace_id m =
     (let key = (identity, context_id);
          (existing, s1) = sr_get_session R now identity context_id (sm_repo m);
          m1 = m\<lparr>sm_repo := s1\<rparr>
      in if is_set existing then (Inl (the existing), m1)
         else case map_of (sm_inflight_session_creates m1) key of
           Some task \<Rightarrow> (Inr task, m1)
         | None \<Rightarrow>
             (let task = length (sm_tasks m1)
              in (Inr task,
                  m1\<lparr>sm_tasks := sm_tasks m1 @
                        [\<lparr>cr_title = title,
                          cr_kwargs = create_session_kwargs directory workspace_id\<rparr>],
                     sm_inflight_session_creates :=
                        dset key task (sm_inflight_session_creates m1)\<rparr>)))"

text \<open>\<open>if self._inflight_session_creates.get(cache_key) is task: pop\<close>\<close>

definition drop_inflight :: "string \<times> string \<Rightarrow> nat \<Rightarrow> 's session_manager \<Rightarrow> 's session_manager" where
  "drop_inflight key task m =
     (if map_of (sm_inflight_session_creates m) key = Some task
      then m\<lparr>sm_inflight_session_creates := ddel key (sm_inflight_session_creates m)\<rparr> else m)"

text \<open>Last critical section: bind the created session, unless another identity owns it.\<close>

definition bind_created_session ::
    "'s session_repo \<Rightarrow> seconds \<Rightarrow> string \<Rightarrow> string \<Rightarrow> nat \<Rightarrow> string
       \<Rightarrow> 's session_manager \<Rightarrow> (sm_error + string \<times> bool) \<times> 's session_manager" where
  "bind_created_session R now identity context_id task session_id m =
     (let key = (identity, context_id);
          (owner, s1) = sr_get_owner R now session_id (sm_repo m)
      in if is_set owner \<and> owner \<noteq> Some identity
         then (Inl (PermissionError session_id), drop_inflight key task (m\<lparr>sm_repo := s1\<rparr>))
         else let s2 = sr_set_session R now identity context_id session_id s1;
                  s3 = (if is_set owner then s2 else sr_set_owner R now session_id identity s2)
              in (Inr (session_id, False), drop_inflight key task (m\<lparr>sm_repo := s3\<rparr>)))"

definition pop_cached_session ::
    "'s session_repo \<Rightarrow> string \<Rightarrow> string \<Rightarrow> 's session_manager \<Rightarrow> nat option \<times> 's session_manager"
  where
  "pop_cached_session R identity context_id m =
     (let key = (identity, context_id);
          inflight = sm_inflight_session_creates m
      in (map_of inflight key,
          m\<lparr>sm_repo := sr_pop_session R identity context_id (sm_repo m),
            sm_inflight_session_creates := ddel key inflight\<rparr>))"

section \<open>Interleavings\<close>

text \<open>
  One critical section of one caller, with the identity that runs it. A creation ends with
  a session, with an exception (\<open>CreateFailed\<close>, the \<open>except Exception\<close> branch), or because
  the awaiting task is cancelled: \<open>CancelledError\<close> is not an \<open>Exception\<close>, so that no clean-up
  runs (\<open>CreateCancelled\<close>).
\<close>

datatype sm_op =
    Claim string string
  | Finalize string string
  | FinalizeBinding string string string
  | Release string string
  | Preferred string string string
  | LookupOrCreate string string string "string option" "string option"
  | CreateFailed string string nat
  | CreateCancelled string string nat
  | CreateDone string string nat string
  | PopCached string string

fun op_identity :: "sm_op \<Rightarrow> string" where
  "op_identity (Claim i _) = i"
| "op_identity (Finalize i _) = i"
| "op_identity (FinalizeBinding i _ _) = i"
| "op_identity (Release i _) = i"
| "op_identity (Preferred i _ _) = i"
| "op_identity (LookupOrCreate i _ _ _ _) = i"
| "op_identity (CreateFailed i _ _) = i"
| "op_identity (CreateCancelled i _ _) = i"
| "op_identity (CreateDone i _ _ _) = i"
| "op_identity (PopCached i _) = i"

datatype sm_outcome =
    Denied sm_error
  | Claimed bool
  | Done
  | Session string bool
  | Waiting nat
  | Popped "nat option"

text \<open>The session an operation asks to use in the name of its identity.\<close>

fun op_session :: "sm_op \<Rightarrow> string option" where
  "op_session (Claim _ sid) = Some sid"
| "op_session (Finalize _ sid) = Some sid"
| "op_session (FinalizeBinding _ _ sid) = Some sid"
| "op_session (Preferred _ _ sid) = Some sid"
| "op_session (CreateDone _ _ _ sid) = Some sid"
| "op_session _ = None"

fun outcome :: "('a \<Rightarrow> sm_outcome) \<Rightarrow> sm_error + 'a \<Rightarrow> sm_outcome" where
  "outcome f (Inl e) = Denied e"
| "outcome f (Inr x) = f x"

fun sm_exec ::
    "'s session_repo \<Rightarrow> seconds \<Rightarrow> sm_op \<Rightarrow> 's session_manager \<Rightarrow> sm_outcome \<times> 's session_manager"
  where
  "sm_exec R now (Claim i sid) m =
     (let (r, s) = claim_preferred_session R now i sid (sm_repo m)
      in (outcome Claimed r, m\<lparr>sm_repo := s\<rparr>))"
| "sm_exec R now (Finalize i sid) m =
     (let (r, s) = finalize_session_claim R now i sid (sm_repo m)
      in (outcome (\<lambda>_. Done) r, m\<lparr>sm_repo := s\<rparr>))"
| "sm_exec R now (FinalizeBinding i c sid) m =
     (let (r, s) = finalize_preferred_session_binding R now i c sid (sm_repo m)
      in (outcome (\<lambda>_. Done) r, m\<lparr>sm_repo := s\<rparr>))"
| "sm_exec R now (Release i sid) m =
     (Done, m\<lparr>sm_repo := release_preferred_session_claim R i sid (sm_repo m)\<rparr>)"
| "sm_exec R now (Preferred i c sid) m =
     (let (r, s) = get_preferred_session R now i c sid (sm_repo m)
      in (outcome (\<lambda>(sid, p). Session sid p) r, m\<lparr>sm_repo := s\<rparr>))"
| "sm_exec R now (LookupOrCreate i c title d w) m =
     (let (r, m') = lookup_or_start_create R now i c title d w m
      in (case r of Inl sid \<Rightarrow> Session sid False | Inr task \<Rightarrow> Waiting task, m'))"
| "sm_exec R now (CreateFailed i c task) m = (Done, drop_inflight (i, c) task m)"
| "sm_exec R now (CreateCancelled i c task) m = (Done, m)"
| "sm_exec R now (CreateDone i c task sid) m =
     (let (r, m') = bind_created_session R now i c task sid m
      in (outcome (\<lambda>(sid, p). Session sid p) r, m'))"
| "sm_exec R now (PopCached i c) m =
     (let (t, m') = pop_cached_session R i c m in (Popped t, m'))"

text \<open>
  The states a manager can reach from a start state: any operation of any caller that
  satisfies \<open>P\<close> may run next, at any later time.
\<close>

inductive sm_reach ::
    "'s session_repo \<Rightarrow> (sm_op \<Rightarrow> bool) \<Rightarrow> seconds \<Rightarrow> 's session_manager
       \<Rightarrow> seconds \<Rightarrow> 's session_manager \<Rightarrow> bool"
  for R P t0 m0 where
  sm_start: "sm_reach R P t0 m0 t0 m0"
| sm_next: "sm_reach R P t0 m0 t m \<Longrightarrow> t \<le> t' \<Longrightarrow> P op \<Longrightarrow> sm_exec R t' op m = (out, m') \<Longrightarrow>
    sm_reach R P t0 m0 t' m'"

section \<open>The protocol, for every repository that keeps the contract\<close>

context session_repository
begin

lemma owner_then_claim:
  assumes inv: "inv now s" and go: "sr_get_owner R now sid s = (o1, s1)"
    and gp: "sr_get_pending_claim R now sid s1 = (p, s2)"
  shows "o1 = owner now s sid" and "p = claim now s sid" and "inv now s2"
    and "owner now s2 = owner now s" and "claim_ttl s2 = claim_ttl s"
    and "now \<le> t \<Longrightarrow> claim t s2 = claim t s"
proof -
  note o = get_owner [OF inv go]
  have inv1: "inv now s1" using o by blast
  note q = get_pending_claim [OF inv1 gp]
  show "o1 = owner now s sid" "inv now s2" "owner now s2 = owner now s" "claim_ttl s2 = claim_ttl s"
    using o q by simp_all
  show "p = claim now s sid" using o [of now] q by simp
  show "now \<le> t \<Longrightarrow> claim t s2 = claim t s" using o [of t] q [of t] by simp
qed

text \<open>Whether the tables refuse session \<open>sid\<close> to identity \<open>i\<close>.\<close>

definition refused :: "seconds \<Rightarrow> 's \<Rightarrow> string \<Rightarrow> string \<Rightarrow> bool" where
  "refused now s i sid \<longleftrightarrow> is_set (owner now s sid) \<and> owner now s sid \<noteq> Some i \<or>
     is_set (claim now s sid) \<and> claim now s sid \<noteq> Some i"

lemma claim_spec:
  assumes inv: "inv now s" and run: "claim_preferred_session R now i sid s = (r, s')"
  shows "inv now s'" and "owner now s' = owner now s" and "claim_ttl s' = claim_ttl s"
    and "r = (if refused now s i sid then Inl (PermissionError sid)
              else Inr (owner now s sid \<noteq> Some i))"
    and "now \<le> t \<Longrightarrow> claim t s' = (if r = Inr True
           then (claim t s)(sid := if t < now + claim_ttl s then Some i else None) else claim t s)"
proof -
  obtain o1 s1 where go: "sr_get_owner R now sid s = (o1, s1)" by fastforce
  obtain p s2 where gp: "sr_get_pending_claim R now sid s1 = (p, s2)" by fastforce
  note f = owner_then_claim [OF inv go gp]
  note w = set_pending_claim [OF f(3) refl, of sid i]
  show "inv now s'" "owner now s' = owner now s" "claim_ttl s' = claim_ttl s"
    "r = (if refused now s i sid then Inl (PermissionError sid)
              else Inr (owner now s sid \<noteq> Some i))"
    using run f(1-5) w
    by (auto simp: claim_preferred_session_def refused_def go gp split: if_splits)
  show "now \<le> t \<Longrightarrow> claim t s' = (if r = Inr True
      then (claim t s)(sid := if t < now + claim_ttl s then Some i else None) else claim t s)"
    using run f w [of t] by (auto simp: claim_preferred_session_def go gp split: if_splits)
qed

lemma finalize_spec:
  assumes inv: "inv now s" and run: "finalize_session_claim R now i sid s = (r, s')"
  shows "inv now s'" and "claim_ttl s' = claim_ttl s"
    and "r = (if refused now s i sid then Inl (PermissionError sid) else Inr ())"
    and "r = Inr () \<Longrightarrow> owner now s' sid = Some i"
    and "r = Inr () \<Longrightarrow> sid' \<noteq> sid \<Longrightarrow>
           owner now s' sid' = owner now s sid' \<or> forgets \<and> owner now s' sid' = None"
    and "r = Inr () \<Longrightarrow> now \<le> t \<Longrightarrow> claim t s' =
           (if claim now s sid = Some i then (claim t s)(sid := None) else claim t s)"
    and "r \<noteq> Inr () \<Longrightarrow> owner now s' = owner now s"
    and "r \<noteq> Inr () \<Longrightarrow> now \<le> t \<Longrightarrow> claim t s' = claim t s"
proof -
  obtain o1 s1 where go: "sr_get_owner R now sid s = (o1, s1)" by fastforce
  obtain p s2 where gp: "sr_get_pending_claim R now sid s1 = (p, s2)" by fastforce
  note f = owner_then_claim [OF inv go gp]
  let ?s3 = "sr_set_owner R now sid i s2"
  let ?s4 = "sr_clear_pending_claim R sid (Some i) ?s3"
  note w = set_owner [OF f(3) refl, of sid i]
  have inv3: "inv now ?s3" using w by blast
  note c = clear_pending_claim [OF inv3 refl, of sid "Some i"]
  have g: "inv now ?s4" "claim_ttl ?s4 = claim_ttl s" "owner now ?s4 sid = Some i"
    "sid' \<noteq> sid \<Longrightarrow>
       owner now ?s4 sid' = owner now s sid' \<or> forgets \<and> owner now ?s4 sid' = None"
    using w c f(1-5) w [of _ sid'] by simp_all
  have g5: "claim t ?s4 =
      (if claim now s sid = Some i then (claim t s)(sid := None) else claim t s)" if "now \<le> t"
    using that w [of t] w [of now] c [of t] f(6) [of t] f(6) [of now] by simp
  show "inv now s'" "claim_ttl s' = claim_ttl s"
    "r = (if refused now s i sid then Inl (PermissionError sid) else Inr ())"
    "r = Inr () \<Longrightarrow> owner now s' sid = Some i"
    "r = Inr () \<Longrightarrow> sid' \<noteq> sid \<Longrightarrow>
       owner now s' sid' = owner now s sid' \<or> forgets \<and> owner now s' sid' = None"
    "r \<noteq> Inr () \<Longrightarrow> owner now s' = owner now s"
    using run f(1-5) g
    by (auto simp: finalize_session_claim_def refused_def go gp split: if_splits)
  show "r = Inr () \<Longrightarrow> now \<le> t \<Longrightarrow> claim t s' =
       (if claim now s sid = Some i then (claim t s)(sid := None) else claim t s)"
    "r \<noteq> Inr () \<Longrightarrow> now \<le> t \<Longrightarrow> claim t s' = claim t s"
    using run f g5 by (auto simp: finalize_session_claim_def go gp split: if_splits)
qed

text \<open>What one critical section may do to the tables, for each operation.\<close>

definition may_change :: "seconds \<Rightarrow> string \<Rightarrow> 's \<Rightarrow> 's \<Rightarrow> bool" where
  "may_change now i s s' \<longleftrightarrow> inv now s' \<and> claim_ttl s' = claim_ttl s \<and>
     (\<forall>sid. owner now s' sid = owner now s sid \<or> forgets \<and> owner now s' sid = None \<or>
        owner now s' sid = Some i \<and> \<not> (is_set (owner now s sid) \<and> owner now s sid \<noteq> Some i)) \<and>
     (\<forall>sid a t. now \<le> t \<longrightarrow> claim t s sid = Some a \<longrightarrow> a \<noteq> [] \<longrightarrow> a \<noteq> i \<longrightarrow>
        claim t s' sid = Some a)"

lemma may_changeI:
  assumes "inv now s'" and "claim_ttl s' = claim_ttl s"
    and "\<And>sid. owner now s' sid = owner now s sid \<or> forgets \<and> owner now s' sid = None \<or>
        owner now s' sid = Some i \<and> \<not> (is_set (owner now s sid) \<and> owner now s sid \<noteq> Some i)"
    and "\<And>sid a t. now \<le> t \<Longrightarrow> claim t s sid = Some a \<Longrightarrow> a \<noteq> [] \<Longrightarrow> a \<noteq> i \<Longrightarrow>
        claim t s' sid = Some a"
  shows "may_change now i s s'"
  using assms by (auto simp: may_change_def)

lemma may_changeD:
  assumes "may_change now i s s'"
  shows "inv now s'" and "claim_ttl s' = claim_ttl s"
    and "owner now s' sid = owner now s sid \<or> forgets \<and> owner now s' sid = None \<or>
        owner now s' sid = Some i \<and> \<not> (is_set (owner now s sid) \<and> owner now s sid \<noteq> Some i)"
    and "now \<le> t \<Longrightarrow> claim t s sid = Some a \<Longrightarrow> a \<noteq> [] \<Longrightarrow> a \<noteq> i \<Longrightarrow> claim t s' sid = Some a"
  using assms by (simp_all add: may_change_def)

lemma may_change_refl: "inv now s \<Longrightarrow> may_change now i s s"
  by (simp add: may_change_def)

lemma may_change_trans:
  assumes a: "may_change now i s s1" and b: "may_change now i s1 s2"
    and keep: "owner now s1 = owner now s \<or> owner now s2 = owner now s1"
  shows "may_change now i s s2"
proof (rule may_changeI)
  show "inv now s2" "claim_ttl s2 = claim_ttl s"
    using may_changeD(1,2) [OF b] may_changeD(2) [OF a] by simp_all
  show "owner now s2 x = owner now s x \<or> forgets \<and> owner now s2 x = None \<or>
      owner now s2 x = Some i \<and> \<not> (is_set (owner now s x) \<and> owner now s x \<noteq> Some i)" for x
    using may_changeD(3) [OF a, of x] may_changeD(3) [OF b, of x] keep by auto
  show "now \<le> t \<Longrightarrow> claim t s x = Some a \<Longrightarrow> a \<noteq> [] \<Longrightarrow> a \<noteq> i \<Longrightarrow> claim t s2 x = Some a" for x a t
    using may_changeD(4) [OF a, of t x a] may_changeD(4) [OF b, of t x a] by simp
qed

lemma may_change_claim:
  assumes "inv now s" and "claim_preferred_session R now i sid s = (r, s')"
  shows "may_change now i s s'"
proof (rule may_changeI)
  note f = claim_spec [OF assms]
  show "inv now s'" "claim_ttl s' = claim_ttl s" by (fact f)+
  show "owner now s' x = owner now s x \<or> forgets \<and> owner now s' x = None \<or>
      owner now s' x = Some i \<and> \<not> (is_set (owner now s x) \<and> owner now s x \<noteq> Some i)" for x
    by (simp add: f(2))
  show "claim t s' x = Some a"
    if t: "now \<le> t" and c: "claim t s x = Some a" and a: "a \<noteq> []" "a \<noteq> i" for x a t
  proof -
    have "refused now s i sid" if "x = sid"
      using claim_fades [OF t c] a that by (auto simp: refused_def is_set_def)
    with f(4) f(5) [OF t] c show ?thesis by (auto split: if_splits)
  qed
qed

lemma may_change_finalize:
  assumes "inv now s" and "finalize_session_claim R now i sid s = (r, s')"
  shows "may_change now i s s'"
proof (rule may_changeI)
  note f = finalize_spec [OF assms]
  show "inv now s'" "claim_ttl s' = claim_ttl s" by (fact f)+
  show "owner now s' x = owner now s x \<or> forgets \<and> owner now s' x = None \<or>
      owner now s' x = Some i \<and> \<not> (is_set (owner now s x) \<and> owner now s x \<noteq> Some i)" for x
    using f(3,4,7) f(5) [of x]
    by (cases "r = Inr ()"; cases "x = sid") (auto simp: refused_def split: if_splits)
  show "claim t s' x = Some a"
    if t: "now \<le> t" and c: "claim t s x = Some a" and a: "a \<noteq> []" "a \<noteq> i" for x a t
    using f(6) [OF _ t] f(8) [OF _ t] c a claim_fades [OF t c]
    by (cases "r = Inr ()") (auto split: if_splits)
qed

lemma may_change_set_session:
  "inv now s \<Longrightarrow> may_change now i s (sr_set_session R now i c sid s)"
  by (rule may_changeI) (use set_session [OF _ refl] in auto)

lemma may_change_then_session:
  assumes a: "may_change now i s s1"
  shows "may_change now i s (sr_set_session R now i c sid s1)"
  using set_session [OF may_changeD(1) [OF a] refl, of i c sid]
  by (intro may_change_trans [OF a may_change_set_session]) (use may_changeD(1) [OF a] in auto)

lemma may_change_clear:
  "inv now s \<Longrightarrow> may_change now i s (sr_clear_pending_claim R sid (Some i) s)"
proof (rule may_changeI)
  assume inv: "inv now s"
  note c = clear_pending_claim [OF inv refl, of sid "Some i"]
  let ?s = "sr_clear_pending_claim R sid (Some i) s"
  show "inv now ?s" "claim_ttl ?s = claim_ttl s" using c by auto
  show "owner now ?s x = owner now s x \<or> forgets \<and> owner now ?s x = None \<or>
      owner now ?s x = Some i \<and> \<not> (is_set (owner now s x) \<and> owner now s x \<noteq> Some i)" for x
    using c by simp
  show "claim t ?s x = Some a"
    if t: "now \<le> t" and cl: "claim t s x = Some a" and a: "a \<noteq> []" "a \<noteq> i" for x a t
    using c [of t] t cl a claim_fades [OF t cl] by (auto split: if_splits)
qed

lemma may_change_bind:
  assumes inv: "inv now (sm_repo m)"
    and run: "bind_created_session R now i c task sid m = (r, m')"
  shows "may_change now i (sm_repo m) (sm_repo m')"
proof -
  obtain o1 s1 where go: "sr_get_owner R now sid (sm_repo m) = (o1, s1)" by fastforce
  note o = get_owner [OF inv go]
  have f: "o1 = owner now (sm_repo m) sid" "inv now s1" "owner now s1 = owner now (sm_repo m)"
    using o by auto
  have start: "may_change now i (sm_repo m) s1"
    using o by (auto simp: may_change_def)
  let ?s2 = "sr_set_session R now i c sid s1"
  have two: "may_change now i (sm_repo m) ?s2"
    using start by (rule may_change_then_session)
  have inv2: "inv now ?s2" and own2: "owner now ?s2 = owner now (sm_repo m)"
    using set_session [OF f(2) refl, of i c sid] f(3) by auto
  have three: "may_change now i ?s2 (sr_set_owner R now sid i ?s2)" if "\<not> is_set o1"
  proof (rule may_changeI)
    note w = set_owner [OF inv2 refl, of sid i]
    show "inv now (sr_set_owner R now sid i ?s2)"
      "claim_ttl (sr_set_owner R now sid i ?s2) = claim_ttl ?s2" using w by auto
    show "owner now (sr_set_owner R now sid i ?s2) x = owner now ?s2 x \<or>
        forgets \<and> owner now (sr_set_owner R now sid i ?s2) x = None \<or>
        owner now (sr_set_owner R now sid i ?s2) x = Some i \<and>
        \<not> (is_set (owner now ?s2 x) \<and> owner now ?s2 x \<noteq> Some i)" for x
      using w [of _ x] that own2 f(1) by (cases "x = sid") auto
    show "claim t (sr_set_owner R now sid i ?s2) x = Some a"
      if "now \<le> t" and "claim t ?s2 x = Some a" for x a t
      using w [of t] that by auto
  qed
  show ?thesis
    using run start two may_change_trans [OF two three] own2
    by (auto simp: bind_created_session_def go drop_inflight_def Let_def split: if_splits)
qed

lemma exec_may_change:
  assumes inv: "inv now (sm_repo m)" and run: "sm_exec R now op m = (out, m')"
  shows "may_change now (op_identity op) (sm_repo m) (sm_repo m')"
proof (cases op)
  case (Claim i sid)
  with run may_change_claim [OF inv] show ?thesis by (auto split: prod.splits)
next
  case (Finalize i sid)
  with run may_change_finalize [OF inv] show ?thesis by (auto split: prod.splits)
next
  case (FinalizeBinding i c sid)
  obtain r s where fin: "finalize_session_claim R now i sid (sm_repo m) = (r, s)" by fastforce
  have one: "may_change now i (sm_repo m) s" by (rule may_change_finalize [OF inv fin])
  have "may_change now i (sm_repo m) (sr_set_session R now i c sid s)"
    using one by (rule may_change_then_session)
  with one run FinalizeBinding fin show ?thesis
    by (auto simp: finalize_preferred_session_binding_def split: sum.splits)
next
  case (Release i sid)
  with run may_change_clear [OF inv] show ?thesis
    by (auto simp: release_preferred_session_claim_def)
next
  case (Preferred i c sid)
  obtain r s where cl: "claim_preferred_session R now i sid (sm_repo m) = (r, s)" by fastforce
  have one: "may_change now i (sm_repo m) s" by (rule may_change_claim [OF inv cl])
  have "may_change now i (sm_repo m) (sr_set_session R now i c sid s)"
    using one by (rule may_change_then_session)
  with one run Preferred cl show ?thesis
    by (auto simp: get_preferred_session_def split: sum.splits if_splits)
next
  case (LookupOrCreate i c title d w)
  obtain x s1 where g: "sr_get_session R now i c (sm_repo m) = (x, s1)" by fastforce
  have "may_change now i (sm_repo m) s1"
    using get_session [OF inv g] by (auto simp: may_change_def)
  with run LookupOrCreate g show ?thesis
    by (auto simp: lookup_or_start_create_def Let_def split: if_splits option.splits)
next
  case (CreateFailed i c task)
  with run may_change_refl [OF inv] show ?thesis by (auto simp: drop_inflight_def)
next
  case (CreateCancelled i c task)
  with run may_change_refl [OF inv] show ?thesis by auto
next
  case (CreateDone i c task sid)
  with run may_change_bind [OF inv] show ?thesis by (auto split: prod.splits)
next
  case (PopCached i c)
  have "may_change now i (sm_repo m) (sr_pop_session R i c (sm_repo m))"
    using pop_session [OF inv refl, of i c] by (auto simp: may_change_def)
  with run PopCached show ?thesis by (auto simp: pop_cached_session_def Let_def)
qed

lemma reach_later: "sm_reach R P t0 m0 t m \<Longrightarrow> t0 \<le> t"
  by (induction rule: sm_reach.induct) auto

lemma reach_inv: "sm_reach R P t0 m0 t m \<Longrightarrow> inv t0 (sm_repo m0) \<Longrightarrow> inv t (sm_repo m)"
proof (induction rule: sm_reach.induct)
  case (sm_next t m t' op out m')
  then show ?case
    using may_changeD(1) exec_may_change inv_later by metis
qed

text \<open>A live claim survives everything that other identities do, in any interleaving.\<close>

lemma reach_claim:
  assumes "sm_reach R P t0 m0 t m" and "inv t0 (sm_repo m0)"
    and "\<And>op. P op \<Longrightarrow> op_identity op \<noteq> a" and "a \<noteq> []"
    and "claim tx (sm_repo m0) sid = Some a" and "t \<le> tx"
  shows "claim tx (sm_repo m) sid = Some a"
  using assms
proof (induction rule: sm_reach.induct)
  case (sm_next t m t' op out m')
  have inv: "inv t' (sm_repo m)"
    using sm_next reach_inv inv_later by blast
  have "claim tx (sm_repo m) sid = Some a"
    using sm_next.IH sm_next.prems sm_next.hyps(2) by simp
  then show ?case
    using may_changeD(4) [OF exec_may_change [OF inv sm_next.hyps(4)], of tx sid a] sm_next
    by auto
qed

text \<open>Operations on a session that the tables refuse are denied, whichever they are.\<close>

lemma claim_refused:
  "inv now s \<Longrightarrow> refused now s i sid \<Longrightarrow>
     fst (claim_preferred_session R now i sid s) = Inl (PermissionError sid)"
  by (metis claim_spec(4) prod.collapse)

lemma finalize_refused:
  "inv now s \<Longrightarrow> refused now s i sid \<Longrightarrow>
     fst (finalize_session_claim R now i sid s) = Inl (PermissionError sid)"
  by (metis finalize_spec(3) prod.collapse)

lemma exec_refused:
  assumes inv: "inv now (sm_repo m)" and run: "sm_exec R now op m = (out, m')"
    and sid: "op_session op = Some sid" and op: "\<nexists>i c task s. op = CreateDone i c task s"
    and ref: "refused now (sm_repo m) (op_identity op) sid"
  shows "out = Denied (PermissionError sid)"
proof -
  note d = claim_refused [OF inv ref] finalize_refused [OF inv ref]
  show ?thesis
    using run sid op d
    by (cases op) (auto simp: finalize_preferred_session_binding_def get_preferred_session_def
        fst_def split: prod.splits sum.splits)
qed

lemma exec_denied_by_owner:
  assumes inv: "inv now (sm_repo m)" and run: "sm_exec R now op m = (out, m')"
    and sid: "op_session op = Some sid"
    and own: "is_set (owner now (sm_repo m) sid)" "owner now (sm_repo m) sid \<noteq> Some (op_identity op)"
  shows "out = Denied (PermissionError sid)"
proof (cases "\<exists>i c task s. op = CreateDone i c task s")
  case True
  obtain o1 s1 where go: "sr_get_owner R now sid (sm_repo m) = (o1, s1)" by fastforce
  have "o1 = owner now (sm_repo m) sid" using get_owner [OF inv go] by simp
  with True run sid own go show ?thesis by (auto simp: bind_created_session_def Let_def)
next
  case False
  then show ?thesis
    using exec_refused [OF inv run sid] own by (simp add: refused_def)
qed

lemma exec_denied_by_claim:
  assumes inv: "inv now (sm_repo m)" and run: "sm_exec R now op m = (out, m')"
    and sid: "op_session op = Some sid" and op: "\<nexists>i c task s. op = CreateDone i c task s"
    and cl: "is_set (claim now (sm_repo m) sid)" "claim now (sm_repo m) sid \<noteq> Some (op_identity op)"
  shows "out = Denied (PermissionError sid)"
  using exec_refused [OF inv run sid op] cl by (simp add: refused_def)

text \<open>
  A successful claim excludes every other identity until its lifetime is over, whatever
  the other identities do in between.
\<close>

lemma claim_excludes:
  assumes inv: "inv t0 (sm_repo m0)"
    and claimed: "sm_exec R t0 (Claim a sid) m0 = (Claimed True, m1)" and a: "a \<noteq> []"
    and reach: "sm_reach R (\<lambda>op. op_identity op \<noteq> a) t0 m1 t m"
    and live: "t \<le> t'" "t' < t0 + claim_ttl (sm_repo m0)"
    and op: "op_session op = Some sid" "op_identity op \<noteq> a" "\<nexists>i c task s. op = CreateDone i c task s"
    and run: "sm_exec R t' op m = (out, m')"
  shows "out = Denied (PermissionError sid)"
proof -
  obtain r s where cl: "claim_preferred_session R t0 a sid (sm_repo m0) = (r, s)" by fastforce
  have r: "r = Inr True" and m1: "sm_repo m1 = s"
    using claimed cl by (cases r; auto)+
  have t0: "t0 \<le> t'" using reach_later [OF reach] live(1) by simp
  have "claim t' (sm_repo m1) sid = Some a"
    using claim_spec(5) [OF inv cl t0] live(2) by (simp add: r m1)
  moreover have inv1: "inv t0 (sm_repo m1)" using claim_spec(1) [OF inv cl] by (simp add: m1)
  ultimately have "claim t' (sm_repo m) sid = Some a"
    using reach_claim [OF reach _ _ a _ live(1)] by simp
  moreover have "inv t' (sm_repo m)"
    using reach_inv [OF reach inv1] live(1) by (rule inv_later)
  ultimately show ?thesis
    using exec_denied_by_claim [OF _ run op(1,3)] op(2) a by (auto simp: is_set_def)
qed

end

context durable_session_repository
begin

text \<open>In a durable repository an owner stays the owner for ever.\<close>

lemma reach_owner:
  assumes "sm_reach R P t0 m0 t m" and "inv t0 (sm_repo m0)"
    and "owner t0 (sm_repo m0) sid = Some a" and "a \<noteq> []"
  shows "owner t (sm_repo m) sid = Some a"
  using assms
proof (induction rule: sm_reach.induct)
  case (sm_next t m t' op out m')
  have inv: "inv t' (sm_repo m)"
    using sm_next reach_inv inv_later by blast
  have own: "owner t' (sm_repo m) sid = Some a"
    using sm_next owner_durable by metis
  show ?case
    using may_changeD(3) [OF exec_may_change [OF inv sm_next.hyps(4)], of sid] own never_forgets
      \<open>a \<noteq> []\<close> by (auto simp: is_set_def)
qed

end

section \<open>Properties of the two implementations\<close>

subsection \<open>Exclusion\<close>

text \<open>The session operations that name an existing session, as opposed to a new one.\<close>

definition names_existing :: "sm_op \<Rightarrow> bool" where
  "names_existing op \<longleftrightarrow> (\<nexists>i c task s. op = CreateDone i c task s)"

definition fresh_manager :: "'s \<Rightarrow> 's session_manager" where
  "fresh_manager s = \<lparr>sm_repo = s, sm_inflight_session_creates = [], sm_tasks = []\<rparr>"

text \<open>
  C10. A claim granted to an identity excludes every other one until it expires: whatever the
  other identities run in between and in whatever order, each operation of theirs on that
  session is refused with a permission error (in-memory repository).
\<close>

theorem mem_claim_excludes:
  assumes "ms_inv t0 (sm_repo m0)" and "a \<noteq> []"
    and "sm_exec mem_session_repo_ops t0 (Claim a sid) m0 = (Claimed True, m1)"
    and "sm_reach mem_session_repo_ops (\<lambda>op. op_identity op \<noteq> a) t0 m1 t m"
    and "t \<le> t'" and "t' < t0 + ms_pending_claim_ttl_seconds (sm_repo m0)"
    and "op_session op = Some sid" and "op_identity op \<noteq> a" and "names_existing op"
    and "sm_exec mem_session_repo_ops t' op m = (out, m')"
  shows "out = Denied (PermissionError sid)"
  using mem.claim_excludes [OF assms(1,3,2,4-8) _ assms(10)] assms(9)
  by (simp add: names_existing_def)

theorem mem_claim_excludes_witness:
  "fst (sm_exec mem_session_repo_ops 3 (Finalize ''bob'' ''ses1'')
     (snd (sm_exec mem_session_repo_ops 0 (Claim ''alice'' ''ses1'')
        (fresh_manager (mem_session_init 60 10 30))))) = Denied (PermissionError ''ses1'')"
proof -
  let ?m0 = "fresh_manager (mem_session_init 60 10 30)"
  let ?r = "sm_exec mem_session_repo_ops 0 (Claim ''alice'' ''ses1'') ?m0"
  let ?op = "Finalize ''bob'' ''ses1''"
  have "fst ?r = Claimed True" by code_simp
  then have claimed: "?r = (Claimed True, snd ?r)" by (metis prod.collapse)
  have inv: "ms_inv 0 (sm_repo ?m0)" by (simp add: fresh_manager_def ms_init_inv)
  have ttl: "ms_pending_claim_ttl_seconds (sm_repo ?m0) = 30"
    by (simp add: fresh_manager_def mem_session_init_def)
  show ?thesis
    by (rule mem_claim_excludes [OF inv _ claimed sm_start _ _ _ _ _ prod.collapse [symmetric]])
      (simp_all add: ttl names_existing_def)
qed

text \<open>
  C11. In the database the owner of a session is its owner for ever: whatever every identity
  does afterwards, the owner stays, and every operation of another identity on the session,
  also the binding of a newly created one, is refused.
\<close>

theorem db_owner_is_permanent:
  assumes inv: "ds_inv t0 (sm_repo m0)" and own: "ds_owner t0 (sm_repo m0) sid = Some a" "a \<noteq> []"
    and reach: "sm_reach db_session_repo_ops P t0 m0 t m"
  shows "ds_owner t (sm_repo m) sid = Some a \<and>
    (t \<le> t' \<longrightarrow> op_session op = Some sid \<longrightarrow> op_identity op \<noteq> a \<longrightarrow>
       fst (sm_exec db_session_repo_ops t' op m) = Denied (PermissionError sid))"
proof -
  have now: "ds_owner t (sm_repo m) sid = Some a"
    by (rule dbd.reach_owner [OF reach inv own])
  have inv': "ds_inv t' (sm_repo m)"
    using db.reach_inv [OF reach inv] by (simp add: ds_inv_def)
  have "fst (sm_exec db_session_repo_ops t' op m) = Denied (PermissionError sid)"
    if "op_session op = Some sid" and "op_identity op \<noteq> a"
    using db.exec_denied_by_owner [OF inv' prod.collapse [symmetric] that(1)] now that own(2)
    by (simp add: is_set_def ds_owner_def)
  with now show ?thesis by blast
qed

theorem db_owner_is_permanent_witness:
  "ds_owner 9 (db_session_init 30\<lparr>ds_session_owners := [(''ses1'', ''alice'')]\<rparr>) ''ses1'' = Some ''alice''"
  using db_owner_is_permanent
    [of 9 "fresh_manager (db_session_init 30\<lparr>ds_session_owners := [(''ses1'', ''alice'')]\<rparr>)"
      "''ses1''" "''alice''" "\<lambda>_. True" 9 _ 9 undefined, OF _ _ _ sm_start]
  by (simp add: fresh_manager_def ds_inv_def db_session_init_def ds_owner_def)

text \<open>
  No takeover: one operation of an identity never gives it a session that the tables
  attribute to somebody else. After any operation the owner of each session is the old one,
  or the operation's identity where no other identity was the owner, or (only where the
  bounded cache dropped the entry) nobody.
\<close>

theorem mem_no_takeover:
  assumes "ms_inv now (sm_repo m)" and "sm_exec mem_session_repo_ops now op m = (out, m')"
    and "ms_owner now (sm_repo m) sid = Some a" and "a \<noteq> []" and "a \<noteq> op_identity op"
  shows "ms_inv now (sm_repo m') \<and> ms_owner now (sm_repo m') sid \<in> {Some a, None}"
  using mem.may_changeD(1) [OF mem.exec_may_change [OF assms(1,2)]]
    mem.may_changeD(3) [OF mem.exec_may_change [OF assms(1,2)], of sid] assms(3-5)
  by (auto simp: is_set_def)

theorem mem_no_takeover_witness:
  "ms_owner 5 (sm_repo (snd (sm_exec mem_session_repo_ops 5 (Claim ''bob'' ''s'')
     (fresh_manager (ms_set_owner 5 ''s'' ''alice'' (mem_session_init 60 10 30)))))) ''s''
   \<in> {Some ''alice'', None}"
proof -
  let ?s = "ms_set_owner 5 ''s'' ''alice'' (mem_session_init 60 10 30)"
  have inv: "ms_inv 5 ?s"
    using mem.set_owner [OF ms_init_inv [of 60 10 5 30] refl, of "''s''" "''alice''"]
    by (simp add: mem_session_repo_ops_def)
  have own: "ms_owner 5 ?s ''s'' = Some ''alice''" by code_simp
  show ?thesis
    by (rule mem_no_takeover
        [of 5 "fresh_manager ?s" "Claim ''bob'' ''s''", OF _ prod.collapse [symmetric], THEN conjunct2])
      (simp_all add: fresh_manager_def inv own)
qed

subsection \<open>Binding a session the client names\<close>

text \<open>
  The two phases of binding a session the client names: once the claim of an unowned
  session is granted, finalising it within its lifetime succeeds, makes the identity its
  owner, removes the claim, and the conversation is bound to that session.
\<close>

theorem mem_claim_then_bind:
  assumes inv: "ms_inv t0 s" and a: "a \<noteq> []"
    and claim: "claim_preferred_session mem_session_repo_ops t0 a sid s = (Inr True, s1)"
    and t: "t0 \<le> t" "t < t0 + ms_pending_claim_ttl_seconds s"
    and fin: "finalize_preferred_session_binding mem_session_repo_ops t a c sid s1 = (r, s2)"
  shows "r = Inr () \<and> ms_owner t s2 sid = Some a \<and> ms_claim t s2 sid = None \<and>
    ms_binding t s2 (a, c) = Some sid"
proof -
  note cs = mem.claim_spec [OF inv claim]
  have inv1: "ms_inv t s1" by (rule mem.inv_later [OF cs(1) t(1)])
  have cl: "ms_claim t s1 sid = Some a" using cs(5) [OF t(1)] t(2) by simp
  have "\<not> mem.refused t0 s a sid" using cs(4) by (auto split: if_splits)
  then have "\<not> (is_set (ms_owner t s1 sid) \<and> ms_owner t s1 sid \<noteq> Some a)"
    using mem.owner_fades [OF t(1), of s1 sid] cs(2)
    by (cases "ms_owner t s1 sid") (auto simp: mem.refused_def is_set_def)
  then have free: "\<not> mem.refused t s1 a sid" using cl by (simp add: mem.refused_def is_set_def)
  obtain r' s' where go: "finalize_session_claim mem_session_repo_ops t a sid s1 = (r', s')"
    by fastforce
  note fs = mem.finalize_spec [OF inv1 go]
  have r': "r' = Inr ()" using fs(3) free by simp
  note ss = mem.set_session [OF fs(1) refl, of a c sid]
  have s2: "r = Inr ()" "s2 = sr_set_session mem_session_repo_ops t a c sid s'"
    using fin go r' by (auto simp: finalize_preferred_session_binding_def)
  show ?thesis
    using ss [of t] fs(4) fs(6) [OF r' order_refl] r' cl unfolding s2(2) by (simp add: s2(1))
qed

theorem mem_claim_then_bind_witness:
  "\<exists>s2. finalize_preferred_session_binding mem_session_repo_ops 2 ''alice'' ''ctx'' ''ses1''
      (snd (claim_preferred_session mem_session_repo_ops 1 ''alice'' ''ses1'' (mem_session_init 60 10 30)))
    = (Inr (), s2) \<and> ms_binding 2 s2 (''alice'', ''ctx'') = Some ''ses1''"
proof -
  let ?c = "claim_preferred_session mem_session_repo_ops 1 ''alice'' ''ses1'' (mem_session_init 60 10 30)"
  let ?f = "finalize_preferred_session_binding mem_session_repo_ops 2 ''alice'' ''ctx'' ''ses1'' (snd ?c)"
  have granted: "fst ?c = Inr True" by code_simp
  have "?c = (Inr True, snd ?c)" by (subst granted [symmetric]) simp
  from mem_claim_then_bind [OF ms_init_inv _ this, of 2 "''ctx''" "fst ?f" "snd ?f"]
  have "fst ?f = Inr () \<and> ms_binding 2 (snd ?f) (''alice'', ''ctx'') = Some ''ses1''"
    by (simp add: mem_session_init_def)
  then show ?thesis by (metis prod.collapse)
qed

subsection \<open>One creation per conversation\<close>

text \<open>The operations that end the creation in flight for a conversation.\<close>

fun ends_creation :: "string \<times> string \<Rightarrow> nat \<Rightarrow> sm_op \<Rightarrow> bool" where
  "ends_creation key task (CreateFailed i c t) = ((i, c) = key \<and> t = task)"
| "ends_creation key task (CreateDone i c t _) = ((i, c) = key \<and> t = task)"
| "ends_creation key task (PopCached i c) = ((i, c) = key)"
| "ends_creation key task _ = False"

lemma drop_inflight_other:
  "map_of (sm_inflight_session_creates m) key = Some task \<Longrightarrow> (key', task') \<noteq> (key, task) \<Longrightarrow>
     map_of (sm_inflight_session_creates (drop_inflight key' task' m)) key = Some task"
  by (auto simp: drop_inflight_def map_of_ddel)

lemma exec_keeps_creation:
  assumes "\<not> ends_creation key task op" and "map_of (sm_inflight_session_creates m) key = Some task"
    and "sm_exec R now op m = (out, m')"
  shows "map_of (sm_inflight_session_creates m') key = Some task"
  using assms
  by (cases op) (auto simp: lookup_or_start_create_def bind_created_session_def
      pop_cached_session_def Let_def drop_inflight_other map_of_ddel
      split: prod.splits if_splits option.splits)

lemma reach_keeps_creation:
  assumes "sm_reach R (\<lambda>op. \<not> ends_creation key task op) t0 m0 t m"
    and "map_of (sm_inflight_session_creates m0) key = Some task"
  shows "map_of (sm_inflight_session_creates m) key = Some task"
  using assms by (induction rule: sm_reach.induct) (auto dest: exec_keeps_creation)

text \<open>
  C18. Concurrent requests of one conversation share one session creation: from the first
  one on, whatever else runs, every further lookup of the conversation either finds the
  bound session or waits for that same creation, and starts no second one.
\<close>

theorem creation_is_shared:
  assumes reach: "sm_reach R (\<lambda>op. \<not> ends_creation (i, c) task op) t0 m0 t m"
    and first: "sm_exec R t00 (LookupOrCreate i c title d w) m00 = (Waiting task, m0)"
    and again: "sm_exec R t' (LookupOrCreate i c title' d' w') m = (out, m')"
  shows "(out = Waiting task \<or> (\<exists>sid. sid \<noteq> [] \<and> out = Session sid False)) \<and>
    sm_tasks m' = sm_tasks m \<and> sm_inflight_session_creates m' = sm_inflight_session_creates m"
proof -
  have "map_of (sm_inflight_session_creates m0) (i, c) = Some task"
    using first by (auto simp: lookup_or_start_create_def Let_def
        split: prod.splits if_splits option.splits)
  then have "map_of (sm_inflight_session_creates m) (i, c) = Some task"
    by (rule reach_keeps_creation [OF reach])
  then show ?thesis
    using again by (auto simp: lookup_or_start_create_def Let_def is_set_def
        split: prod.splits if_splits option.splits)
qed

theorem creation_is_shared_witness:
  "fst (sm_exec db_session_repo_ops 2 (LookupOrCreate ''alice'' ''ctx'' ''again'' None None)
     (snd (sm_exec db_session_repo_ops 1 (LookupOrCreate ''alice'' ''ctx'' ''title'' None None)
        (fresh_manager (db_session_init 30))))) \<in> {Waiting 0} \<union> {Session sid False | sid. True}"
proof -
  let ?r = "sm_exec db_session_repo_ops 1 (LookupOrCreate ''alice'' ''ctx'' ''title'' None None)
        (fresh_manager (db_session_init 30))"
  have "fst ?r = Waiting 0" by code_simp
  then have "?r = (Waiting 0, snd ?r)" by (metis prod.collapse)
  from creation_is_shared [OF sm_start this prod.collapse [symmetric]]
  show ?thesis by blast
qed

text \<open>
  A creation whose waiting request is cancelled is not cleaned up: the next request of
  the conversation waits for the cancelled creation again, although no session is bound.
\<close>

theorem cancelled_creation_is_reused:
  assumes "sm_exec R t0 (LookupOrCreate i c title d w) m0 = (Waiting task, m1)"
    and "sm_exec R t1 (CreateCancelled i c task) m1 = (Done, m2)"
    and "\<not> is_set (fst (sr_get_session R t2 i c (sm_repo m2)))"
  shows "fst (sm_exec R t2 (LookupOrCreate i c title' d' w') m2) = Waiting task"
  using assms by (auto simp: lookup_or_start_create_def Let_def
      split: prod.splits if_splits option.splits)

theorem cancelled_creation_is_reused_witness:
  "fst (sm_exec db_session_repo_ops 2 (LookupOrCreate ''alice'' ''ctx'' ''again'' None None)
     (snd (sm_exec db_session_repo_ops 1 (LookupOrCreate ''alice'' ''ctx'' ''title'' None None)
        (fresh_manager (db_session_init 30))))) = Waiting 0"
proof -
  let ?r = "sm_exec db_session_repo_ops 1 (LookupOrCreate ''alice'' ''ctx'' ''title'' None None)
        (fresh_manager (db_session_init 30))"
  have "fst ?r = Waiting 0" by code_simp
  then have r: "?r = (Waiting 0, snd ?r)" by (metis prod.collapse)
  have unbound: "\<not> is_set (fst (sr_get_session db_session_repo_ops 2 ''alice'' ''ctx'' (sm_repo (snd ?r))))"
    by code_simp
  show ?thesis
    using cancelled_creation_is_reused [OF r _ unbound, of 1 "''again''" None None] by simp
qed

end
