(* ===== verification/Executor.thy ===== *)
theory Executor
  imports A2A_Events Redact Sandbox_Policy Session_Manager
begin

text \<open>
  The first half of an execution (\<open>execution/executor.py\<close>): reading the request, refusing it or
  preparing it, and the events that report an error. Fresh message ids are a parameter.
\<close>

section \<open>Reporting an error\<close>

definition error_payload :: "string option \<Rightarrow> pyval option \<Rightarrow> mapping" where
  "error_payload error_type upstream_status =
     dset_opt ''upstream_status'' upstream_status
       (dset_opt ''type'' (map_option PStr (nonempty error_type)) [])"

definition error_metadata :: "string option \<Rightarrow> pyval option \<Rightarrow> mapping" where
  "error_metadata error_type upstream_status =
     (if nonempty error_type \<noteq> None \<or> upstream_status \<noteq> None
      then [(''opencode'', PDict [(''error'', PDict (error_payload error_type upstream_status))])]
      else [])"

definition emit_error ::
    "string \<Rightarrow> string \<Rightarrow> string \<Rightarrow> string \<Rightarrow> task_state \<Rightarrow> string option \<Rightarrow> pyval option \<Rightarrow> bool
       \<Rightarrow> payload list" where
  "emit_error fresh task_id context_id msg state error_type upstream_status streaming_request =
     (let message = redact_absolute_paths msg;
          error_message = \<lparr>mg_message_id = fresh, mg_role = ROLE_AGENT, mg_parts = [text_part message],
                           mg_task_id = task_id, mg_context_id = context_id, mg_metadata = []\<rparr>;
          metadata = error_metadata error_type upstream_status
      in if streaming_request then
           [payload_of (enqueue_artifact_update task_id context_id (task_id @ '':error'')
                          (text_part message) False (Some True) None),
            PStatus \<lparr>se_task_id = task_id, se_context_id = context_id, se_state = state,
                     se_message = None, se_metadata = metadata\<rparr>]
         else
           [PTask \<lparr>tk_id = task_id, tk_context_id = context_id, tk_state = state,
                   tk_message = Some error_message, tk_history = [error_message],
                   tk_artifacts = [], tk_metadata = metadata\<rparr>])"

section \<open>The request\<close>

record call_context =
  cc_identity :: "string option"
  cc_a2a_streaming_request :: bool
  cc_method :: "string option"
  cc_requested_extensions :: "string list"

record configuration =
  co_accepted_output_modes :: pyval
  co_return_immediately :: bool

text \<open>
  The request context of the SDK. \<open>rc_user_input\<close> is the text its own \<open>get_user_input\<close> finds.
\<close>

record request_context =
  rc_task_id :: "string option"
  rc_context_id :: "string option"
  rc_call_context :: "call_context option"
  rc_configuration :: "configuration option"
  rc_message :: "message option"
  rc_metadata :: pyval
  rc_user_input :: string
  rc_current_task :: "task option"

definition should_stream :: "bool \<Rightarrow> request_context \<Rightarrow> bool" where
  "should_stream streaming_enabled context =
     (if \<not> streaming_enabled then False
      else case rc_call_context context of
        None \<Rightarrow> False
      | Some call \<Rightarrow> if cc_a2a_streaming_request call then True
                    else cc_method call = Some ''SendStreamingMessage'')"

definition request_identity :: "request_context \<Rightarrow> string" where
  "request_identity context =
     (case Option.bind (rc_call_context context) (\<lambda>call. nonempty (cc_identity call)) of
        None \<Rightarrow> ''anonymous'' | Some identity \<Rightarrow> identity)"

definition metadata_sources :: "request_context \<Rightarrow> mapping option list" where
  "metadata_sources context =
     (case rc_metadata context of PDict m \<Rightarrow> [Some m] | _ \<Rightarrow> []) @
     (case rc_message context of None \<Rightarrow> [] | Some m \<Rightarrow> [Some (mg_metadata m)])"

section \<open>What is prepared\<close>

record prepared_execution =
  pe_identity :: string
  pe_streaming_request :: bool
  pe_return_immediately :: bool
  pe_request_parts :: "mapping list"
  pe_user_text :: string
  pe_session_title :: string
  pe_use_structured_parts :: bool
  pe_bound_session_id :: "string option"
  pe_model_override :: "mapping option"
  pe_directory :: "string option"
  pe_workspace_id :: "string option"
  pe_session_binding_context_id :: string
  pe_allow_structured_output :: bool
  pe_switches :: metadata_switches

definition build_session_binding_context_id ::
    "string \<Rightarrow> string option \<Rightarrow> string option \<Rightarrow> bool \<Rightarrow> string" where
  "build_session_binding_context_id context_id directory workspace_id use_directory_binding =
     (case Option.bind workspace_id nonempty_strip of
        Some w \<Rightarrow> context_id @ ''::workspace:'' @ w
      | None \<Rightarrow>
          (case (if use_directory_binding then Option.bind directory nonempty_strip else None) of
             Some d \<Rightarrow> context_id @ ''::directory:'' @ d
           | None \<Rightarrow> context_id))"

record executor =
  ex_streaming_enabled :: bool
  ex_sandbox_policy :: sandbox_policy
  ex_client_directory :: "string option"
  ex_resolve :: "path \<Rightarrow> path"
  ex_cwd :: path

text \<open>\<open>execute\<close> up to the construction of the coordinator: events that refuse, or a preparation.\<close>

definition requested_model :: "mapping option list \<Rightarrow> mapping option" where
  "requested_model sources =
     (case (extract_first_namespaced_string sources ''shared'' [''model'', ''providerID''],
            extract_first_namespaced_string sources ''shared'' [''model'', ''modelID'']) of
        (Some provider, Some model) \<Rightarrow> Some [(''providerID'', PStr provider), (''modelID'', PStr model)]
      | _ \<Rightarrow> None)"

definition opt_str :: "string option \<Rightarrow> pyval" where
  "opt_str x = (case x of None \<Rightarrow> PNone | Some s \<Rightarrow> PStr s)"

definition request_directory ::
    "executor \<Rightarrow> string option \<Rightarrow> string option \<Rightarrow> value_error + string option" where
  "request_directory X workspace_id requested_dir =
     (if workspace_id \<noteq> None then Inr None
      else case resolve_directory (ex_resolve X) (ex_cwd X) (ex_sandbox_policy X)
                  (opt_str requested_dir) (ex_client_directory X) of
             Inl e \<Rightarrow> Inl e | Inr d \<Rightarrow> Inr (Some d))"

definition text_only_request :: "mapping list \<Rightarrow> string \<Rightarrow> bool" where
  "text_only_request request_parts user_text \<longleftrightarrow> length request_parts = 1 \<and>
     dget (hd request_parts) ''type'' = PStr ''text'' \<and>
     dget (hd request_parts) ''text'' = PStr user_text"

definition requested_workspace :: "request_context \<Rightarrow> string option" where
  "requested_workspace context =
     extract_first_namespaced_string (metadata_sources context) ''opencode'' [''workspace'', ''id'']"

definition requested_directory :: "request_context \<Rightarrow> string option" where
  "requested_directory context =
     extract_first_namespaced_string (metadata_sources context) ''opencode'' [''directory'']"

definition context_parts :: "request_context \<Rightarrow> part list" where
  "context_parts context = (case rc_message context of None \<Rightarrow> [] | Some m \<Rightarrow> mg_parts m)"

definition context_output_modes :: "request_context \<Rightarrow> string list option" where
  "context_output_modes context = normalize_accepted_output_modes
     (case rc_configuration context of None \<Rightarrow> PNone | Some c \<Rightarrow> co_accepted_output_modes c)"

definition prepare_execution ::
    "executor \<Rightarrow> request_context \<Rightarrow> string \<Rightarrow> mapping list \<Rightarrow> string \<Rightarrow> string option
       \<Rightarrow> prepared_execution" where
  "prepare_execution X context context_id request_parts user_text directory =
     (let requested = requested_extensions_from_call_context
            (map_option cc_requested_extensions (rc_call_context context))
      in \<lparr>pe_identity = request_identity context,
          pe_streaming_request = should_stream (ex_streaming_enabled X) context,
          pe_return_immediately =
            (case rc_configuration context of None \<Rightarrow> False | Some c \<Rightarrow> co_return_immediately c),
          pe_request_parts = request_parts,
          pe_user_text = user_text,
          pe_session_title =
            (if user_text \<noteq> [] then user_text
             else case summarize_a2a_parts (context_parts context) of None \<Rightarrow> user_text | Some t \<Rightarrow> t),
          pe_use_structured_parts = (request_parts \<noteq> [] \<and> \<not> text_only_request request_parts user_text),
          pe_bound_session_id =
            extract_first_namespaced_string (metadata_sources context) ''shared'' [''session'', ''id''],
          pe_model_override = requested_model (metadata_sources context),
          pe_directory = directory,
          pe_workspace_id = requested_workspace context,
          pe_session_binding_context_id =
            build_session_binding_context_id context_id directory (requested_workspace context)
              (requested_directory context \<noteq> None),
          pe_allow_structured_output =
            accepts_output_mode (context_output_modes context) ''application/json'',
          pe_switches =
            \<lparr>ms_include_session = SESSION_BINDING_EXTENSION_URI \<in> set requested,
             ms_include_streaming = STREAMING_EXTENSION_URI \<in> set requested,
             ms_include_interrupt = INTERRUPT_CALLBACK_EXTENSION_URI \<in> set requested\<rparr>\<rparr>)"

definition execute_prepare ::
    "executor \<Rightarrow> string \<Rightarrow> request_context \<Rightarrow> payload list + string \<times> string \<times> prepared_execution" where
  "execute_prepare X fresh context =
     (let streaming_request = should_stream (ex_streaming_enabled X) context;
          unknown = (\<lambda>i. case nonempty i of None \<Rightarrow> ''unknown'' | Some v \<Rightarrow> v);
          error = (\<lambda>task_id context_id msg. Inl (emit_error fresh task_id context_id msg
                     TASK_STATE_FAILED None None streaming_request))
      in case (nonempty (rc_task_id context), nonempty (rc_context_id context)) of
        (Some task_id, Some context_id) \<Rightarrow>
          (case map_a2a_parts_to_opencode_parts (context_parts context) of
             Inl (UnsupportedA2AInputError msg) \<Rightarrow> error task_id context_id msg
           | Inr mapped \<Rightarrow>
               (let user_text = (case extract_text_from_a2a_parts (context_parts context) of
                                   [] \<Rightarrow> strip (rc_user_input context) | t \<Rightarrow> t)
                in if rc_metadata context \<noteq> PNone \<and> as_mapping (rc_metadata context) = None
                   then error task_id context_id ''Invalid metadata: expected an object/map.''
                   else case request_directory X (requested_workspace context)
                               (requested_directory context) of
                     Inl (value_error.ValueError msg) \<Rightarrow> error task_id context_id msg
                   | Inr directory \<Rightarrow>
                       if user_text = [] \<and> mapped = []
                       then error task_id context_id ''Only text and file input are supported.''
                       else if \<not> accepts_output_mode (context_output_modes context) ''text/plain''
                       then error task_id context_id
                              (''acceptedOutputModes must include text/plain for '' @
                               ''OpenCode chat responses.'')
                       else Inr (task_id, context_id,
                              prepare_execution X context context_id (map input_part_dict mapped)
                                user_text directory)))
      | _ \<Rightarrow> error (unknown (rc_task_id context)) (unknown (rc_context_id context))
               ''Missing task_id or context_id in request context'')"

section \<open>Properties\<close>

lemma request_directory_confined:
  assumes "request_directory X workspace_id requested = Inr directory"
  shows "if workspace_id \<noteq> None then directory = None
    else \<exists>rest. directory = Some (path_str (base_directory (ex_resolve X) (ex_cwd X) (ex_sandbox_policy X)
             (ex_client_directory X) @ rest)) \<and>
           (\<not> sp_allow_directory_override (ex_sandbox_policy X) \<longrightarrow> rest = [])"
  using assms directory_is_confined
  by (auto simp: request_directory_def split: if_splits sum.splits)

lemma prepared_fields [simp]:
  "pe_workspace_id (prepare_execution X ctx c ps txt d) = requested_workspace ctx"
  "pe_directory (prepare_execution X ctx c ps txt d) = d"
  "pe_user_text (prepare_execution X ctx c ps txt d) = txt"
  "pe_request_parts (prepare_execution X ctx c ps txt d) = ps"
  by (simp_all add: prepare_execution_def Let_def)

lemma prepared_facts:
  assumes "execute_prepare X fresh ctx = Inr (t, c, p)"
  shows "request_directory X (pe_workspace_id p) (requested_directory ctx) = Inr (pe_directory p)"
    and "pe_user_text p \<noteq> [] \<or> pe_request_parts p \<noteq> []"
  using assms
  by (auto simp: execute_prepare_def Let_def
      split: option.splits sum.splits if_splits input_error.splits value_error.splits)


text \<open>A service in the directory \<open>/w\<close>, and a request for a directory.\<close>

definition workspace_executor :: executor where
  "workspace_executor =
     \<lparr>ex_streaming_enabled = True,
      ex_sandbox_policy = \<lparr>sp_workspace_root = [''w''], sp_allow_directory_override = True,
        sp_sandbox_mode = ''workspace-write'', sp_filesystem_scope = ''workspace_only'',
        sp_writable_roots = [], sp_write_access_scope = ''workspace_only''\<rparr>,
      ex_client_directory = None, ex_resolve = normalize_dots [], ex_cwd = [''tmp'']\<rparr>"

definition directory_request :: "string \<Rightarrow> request_context" where
  "directory_request d =
     \<lparr>rc_task_id = Some ''t'', rc_context_id = Some ''c'', rc_call_context = None,
      rc_configuration = None, rc_message = None,
      rc_metadata = PDict [(''opencode'', PDict [(''directory'', PStr d)])], rc_user_input = ''hi'',
      rc_current_task = None\<rparr>"


end
