(* ===== verification/Tool_Calls.thy ===== *)
theory Tool_Calls
  imports A2A_Events
begin

text \<open>
  Calls of other agents that the model requests as tools: the errors of the protocol client
  (\<open>client/errors.py\<close>, \<open>client/error_mapping.py\<close>), their stable form for the model
  (\<open>execution/tool_error_mapping.py\<close>), the text of a peer's answers (\<open>client/payload_text.py\<close>) and
  the handling of the calls (\<open>execution/tool_orchestration.py\<close>). The peer is a parameter: what
  a conversation with it yields. Fresh identifiers are a parameter too.
\<close>

section \<open>Errors of the protocol client\<close>

datatype client_error_class =
    A2AClientError
  | A2AAgentUnavailableError
  | A2AAuthenticationError
  | A2APermissionDeniedError
  | A2AClientResetRequiredError
  | A2ATimeoutError
  | A2AUnsupportedBindingError
  | A2AUnsupportedOperationError
  | A2APeerProtocolError

record client_error =
  ce_class :: client_error_class
  ce_message :: string
  ce_error_code :: string
  ce_code :: "int option"
  ce_http_status :: "int option"
  ce_data :: pyval

fun class_error_code :: "client_error_class \<Rightarrow> string" where
  "class_error_code A2AClientError = ''client_error''"
| "class_error_code A2AAgentUnavailableError = ''agent_unavailable''"
| "class_error_code A2AAuthenticationError = ''authentication_failed''"
| "class_error_code A2APermissionDeniedError = ''permission_denied''"
| "class_error_code A2AClientResetRequiredError = ''reset_required''"
| "class_error_code A2ATimeoutError = ''timeout''"
| "class_error_code A2AUnsupportedBindingError = ''unsupported_binding''"
| "class_error_code A2AUnsupportedOperationError = ''unsupported_operation''"
| "class_error_code A2APeerProtocolError = ''peer_protocol_error''"

definition client_error :: "client_error_class \<Rightarrow> string \<Rightarrow> client_error" where
  "client_error cls msg =
     \<lparr>ce_class = cls, ce_message = msg, ce_error_code = class_error_code cls, ce_code = None,
      ce_http_status = None, ce_data = PNone\<rparr>"

text \<open>
  Exceptions of the SDK and of the HTTP library: their class, their text, the attribute
  \<open>status_code\<close> and what \<open>response.error\<close> holds, where they have one.
\<close>

datatype sdk_class =
    TaskNotFoundError
  | TaskNotCancelableError
  | UnsupportedOperationError
  | MethodNotFoundError
  | InvalidParamsError
  | InvalidRequestError
  | VersionNotSupportedError
  | OtherA2AError
  | A2AClientTimeoutError
  | AgentCardResolutionError
  | OtherSDKClientError
  | HttpxTimeout
  | HttpxTransport
  | ParseError
  | OtherException

record sdk_exception =
  xc_class :: sdk_class
  xc_text :: string
  xc_status_code :: "int option"
  xc_rpc_code :: "int option"
  xc_rpc_data :: pyval
  xc_data :: pyval

definition a2a_error :: "sdk_class \<Rightarrow> bool" where
  "a2a_error c \<longleftrightarrow> c \<in> {TaskNotFoundError, TaskNotCancelableError, UnsupportedOperationError,
     MethodNotFoundError, InvalidParamsError, InvalidRequestError, VersionNotSupportedError,
     OtherA2AError}"

definition sdk_client_error :: "sdk_class \<Rightarrow> bool" where
  "sdk_client_error c \<longleftrightarrow> c \<in> {A2AClientTimeoutError, AgentCardResolutionError, OtherSDKClientError}"

text \<open>The first match of \<open>HTTP Error (\d+):\<close>.\<close>

fun search_http_status :: "string \<Rightarrow> int option" where
  "search_http_status [] = None"
| "search_http_status (c # s) =
     (let rest = drop (length ''HTTP Error '') (c # s); digits = takeWhile is_digit rest
      in if startswith (c # s) ''HTTP Error '' \<and> digits \<noteq> [] \<and>
            startswith (drop (length digits) rest) '':''
         then Some (int (digits_val digits)) else search_http_status s)"

definition extract_http_status :: "sdk_exception \<Rightarrow> int option" where
  "extract_http_status exc =
     (case xc_status_code exc of Some s \<Rightarrow> Some s | None \<Rightarrow> search_http_status (xc_text exc))"

definition map_a2a_error :: "sdk_exception \<Rightarrow> client_error" where
  "map_a2a_error exc =
     (if xc_class exc = TaskNotFoundError then
        (client_error A2AUnsupportedOperationError ''Remote A2A peer could not find the task'')
          \<lparr>ce_error_code := ''task_not_found''\<rparr>
      else if xc_class exc \<in> {TaskNotCancelableError, UnsupportedOperationError, MethodNotFoundError} then
        (client_error A2AUnsupportedOperationError
           ''Remote A2A peer does not support the requested operation'')
          \<lparr>ce_error_code := ''method_not_supported''\<rparr>
      else if xc_class exc \<in> {InvalidParamsError, InvalidRequestError} then
        (client_error A2APeerProtocolError ''Remote A2A peer rejected the request payload'')
          \<lparr>ce_error_code := ''invalid_params'', ce_data := xc_data exc\<rparr>
      else if xc_class exc = VersionNotSupportedError then
        (client_error A2AUnsupportedOperationError ''Remote A2A peer rejected the requested version'')
          \<lparr>ce_error_code := ''version_not_supported'', ce_data := xc_data exc\<rparr>
      else (client_error A2APeerProtocolError ''Remote A2A peer returned a protocol error'')
             \<lparr>ce_data := xc_data exc\<rparr>)"

definition invalid_client_error :: "string \<Rightarrow> client_error" where
  "invalid_client_error operation =
     (client_error A2APeerProtocolError
        (''Remote A2A peer returned an invalid client error during '' @ operation))
       \<lparr>ce_error_code := ''invalid_client_error''\<rparr>"

definition map_http_error :: "string \<Rightarrow> sdk_exception \<Rightarrow> client_error" where
  "map_http_error operation exc =
     (case extract_http_status exc of
        None \<Rightarrow> invalid_client_error operation
      | Some status \<Rightarrow>
          (if status = 401 then client_error A2AAuthenticationError
             (''Remote A2A peer rejected '' @ operation @ '' due to authentication failure'')
           else if status = 403 then client_error A2APermissionDeniedError
             (''Remote A2A peer rejected '' @ operation @ '' due to insufficient permissions'')
           else if status \<in> {404, 405, 409, 501} then client_error A2AUnsupportedOperationError
             (''Remote A2A peer does not support '' @ operation)
           else if status = 408 then client_error A2ATimeoutError
             (''Remote A2A peer timed out during '' @ operation)
           else if status \<in> {429, 502, 503, 504} then client_error A2AClientResetRequiredError
             (''Remote A2A peer is temporarily unstable during '' @ operation)
           else client_error A2AAgentUnavailableError
             (''Remote A2A peer is unavailable for '' @ operation))
            \<lparr>ce_http_status := Some status\<rparr>)"

definition map_client_error :: "string \<Rightarrow> sdk_exception \<Rightarrow> client_error" where
  "map_client_error operation exc =
     (if xc_class exc = A2AClientTimeoutError
      then client_error A2ATimeoutError (''Remote A2A peer timed out during '' @ operation)
      else map_http_error operation exc)"

definition map_jsonrpc_error :: "sdk_exception \<Rightarrow> client_error" where
  "map_jsonrpc_error exc =
     (let data = (case xc_rpc_data exc of PDict d \<Rightarrow> PDict d | _ \<Rightarrow> PNone)
      in if xc_rpc_code exc = Some (-32601) then
           (client_error A2AUnsupportedOperationError
              ''Remote A2A peer does not support the requested operation'')
             \<lparr>ce_error_code := ''method_not_supported''\<rparr>
         else if xc_rpc_code exc = Some (-32602) then
           (client_error A2APeerProtocolError ''Remote A2A peer rejected the request payload'')
             \<lparr>ce_error_code := ''invalid_params'', ce_code := xc_rpc_code exc, ce_data := data\<rparr>
         else if xc_rpc_code exc = Some (-32603) then
           client_error A2AClientResetRequiredError ''Remote A2A peer is temporarily unstable during call''
         else (client_error A2APeerProtocolError ''Remote A2A peer returned a protocol error'')
                \<lparr>ce_code := xc_rpc_code exc, ce_data := data\<rparr>)"

definition map_transport_error :: "string \<Rightarrow> sdk_exception \<Rightarrow> client_error" where
  "map_transport_error operation exc =
     (if xc_class exc = HttpxTimeout
      then client_error A2ATimeoutError (''Remote A2A peer timed out during '' @ operation)
      else client_error A2AAgentUnavailableError (''Remote A2A peer is unreachable for '' @ operation))"

definition map_operation_error :: "string \<Rightarrow> sdk_exception \<Rightarrow> client_error" where
  "map_operation_error operation exc =
     (if xc_rpc_code exc \<noteq> None then map_jsonrpc_error exc
      else if extract_http_status exc \<noteq> None \<and> xc_class exc \<noteq> HttpxTimeout then map_http_error operation exc
      else if sdk_client_error (xc_class exc) then map_client_error operation exc
      else if a2a_error (xc_class exc) then map_a2a_error exc
      else map_transport_error operation exc)"

definition map_agent_card_error :: "sdk_exception \<Rightarrow> client_error" where
  "map_agent_card_error exc =
     (let invalid_card = (client_error A2APeerProtocolError
            ''Remote A2A peer returned an invalid agent card payload'')\<lparr>ce_error_code := ''invalid_agent_card''\<rparr>
      in if xc_class exc = ParseError then invalid_card
         else if xc_class exc = AgentCardResolutionError then
           (if xc_status_code exc \<noteq> None then map_http_error ''agent-card/fetch'' exc else invalid_card)
         else if sdk_client_error (xc_class exc) then
           (if extract_http_status exc \<noteq> None then map_http_error ''agent-card/fetch'' exc else invalid_card)
         else if extract_http_status exc \<noteq> None then map_http_error ''agent-card/fetch'' exc
         else if xc_class exc \<in> {HttpxTimeout, HttpxTransport} then map_transport_error ''agent-card/fetch'' exc
         else client_error A2AAgentUnavailableError ''Remote A2A peer is unreachable for agent-card/fetch'')"

section \<open>Errors of tool calls\<close>

definition build_tool_error :: "string \<Rightarrow> string \<Rightarrow> mapping option \<Rightarrow> mapping" where
  "build_tool_error error_code error error_meta =
     dset_opt ''error_meta'' (map_option PDict (Option.bind error_meta dict_or_none))
       [(''error'', PStr error), (''error_code'', PStr error_code)]"

definition build_client_error_meta :: "client_error \<Rightarrow> mapping option" where
  "build_client_error_meta e =
     dict_or_none (dset_opt ''rpc_code'' (map_option PInt (ce_code e))
       (dset_opt ''http_status'' (map_option PInt (ce_http_status e))
         (dset_opt ''client_error_code'' (map_option PStr (nonempty (Some (ce_error_code e)))) [])))"

definition build_client_error_payload :: "client_error \<Rightarrow> string \<Rightarrow> string \<Rightarrow> mapping" where
  "build_client_error_payload e error_code error =
     build_tool_error error_code error (build_client_error_meta e)"

fun tool_error_of_client_error :: "client_error \<Rightarrow> mapping" where
  "tool_error_of_client_error e =
     (case ce_class e of
        A2AAuthenticationError \<Rightarrow> build_client_error_payload e ''a2a_peer_auth_failed''
          ''Authentication failed when calling remote A2A peer''
      | A2APermissionDeniedError \<Rightarrow> build_client_error_payload e ''a2a_peer_permission_denied''
          ''Permission denied when calling remote A2A peer''
      | A2ATimeoutError \<Rightarrow> build_tool_error ''a2a_timeout'' ''Remote A2A peer timed out'' None
      | A2AUnsupportedOperationError \<Rightarrow> build_client_error_payload e ''a2a_unsupported_operation''
          ''Remote A2A peer does not support the requested operation''
      | A2AClientResetRequiredError \<Rightarrow> build_client_error_payload e ''a2a_retryable_unavailable''
          (''Remote A2A peer is temporarily unavailable and should be retried '' @ ''with a fresh client'')
      | A2APeerProtocolError \<Rightarrow>
          (if ce_error_code e = ''invalid_agent_card''
           then build_client_error_payload e ''a2a_invalid_agent_card''
                  ''Remote A2A peer returned an invalid agent card payload''
           else build_client_error_payload e ''a2a_peer_protocol_error''
                  ''Remote A2A peer returned an invalid protocol payload'')
      | A2AAgentUnavailableError \<Rightarrow> build_tool_error ''a2a_unavailable''
          ''Remote A2A peer is unavailable'' (build_client_error_meta e)
      | _ \<Rightarrow> build_tool_error ''a2a_call_failed'' ''Remote A2A call failed'' None)"

datatype call_exception = FromSdk sdk_exception | FromClient client_error

fun map_a2a_tool_exception :: "call_exception \<Rightarrow> mapping" where
  "map_a2a_tool_exception (FromClient e) = tool_error_of_client_error e"
| "map_a2a_tool_exception (FromSdk exc) =
     (if a2a_error (xc_class exc) \<or> sdk_client_error (xc_class exc) \<or>
         xc_class exc \<in> {HttpxTimeout, HttpxTransport}
      then tool_error_of_client_error (map_operation_error ''SendMessage'' exc)
      else build_tool_error ''a2a_call_failed'' ''Remote A2A call failed'' None)"

section \<open>The text of an answer\<close>

text \<open>
  \<open>extract_text\<close> on the messages of the protocol. Its last resort, a search through the message
  as a dictionary, looks for the same parts under the same names and finds nothing new.
\<close>

definition texts_of_parts :: "part list \<Rightarrow> string option" where
  "texts_of_parts ps =
     (let texts = filter (\<lambda>t. t \<noteq> []) (List.map_filter (\<lambda>p. has_text (pt_content p)) ps)
      in if texts = [] then None else nonempty (Some (join [CHR 0x0A] texts)))"

fun first_text :: "string option list \<Rightarrow> string option" where
  "first_text [] = None"
| "first_text (t # ts) = (case t of Some x \<Rightarrow> Some x | None \<Rightarrow> first_text ts)"

definition text_of_message :: "message \<Rightarrow> string option" where
  "text_of_message m = texts_of_parts (mg_parts m)"

definition text_of_task :: "task \<Rightarrow> string option" where
  "text_of_task t = first_text (map (\<lambda>a. texts_of_parts (ar_parts a)) (tk_artifacts t) @
     [Option.bind (tk_message t) text_of_message] @ map text_of_message (rev (tk_history t)))"

fun extract_text :: "payload \<Rightarrow> string option" where
  "extract_text (PArtifact e) = texts_of_parts (ar_parts (ae_artifact e))"
| "extract_text (PStatus e) = Option.bind (se_message e) text_of_message"
| "extract_text (PMessage m) = text_of_message m"
| "extract_text (PTask t) = text_of_task t"

section \<open>Tool calls\<close>

definition ends_with_space :: "string \<Rightarrow> bool" where
  "ends_with_space s \<longleftrightarrow> s \<noteq> [] \<and> last s \<in> {CHR 0x0A, CHR '' '', CHR 0x09}"

definition starts_with_space :: "string \<Rightarrow> bool" where
  "starts_with_space s \<longleftrightarrow> s \<noteq> [] \<and> hd s \<in> {CHR 0x0A, CHR '' '', CHR 0x09}"

definition merge_streamed_tool_output :: "string \<Rightarrow> string \<Rightarrow> string" where
  "merge_streamed_tool_output current incoming =
     (if current = [] then incoming
      else if incoming = current \<or> contains current incoming then current
      else if startswith incoming current then incoming
      else if startswith current incoming then current
      else current @ (if ends_with_space current \<or> starts_with_space incoming then [] else [CHR 0x0A])
             @ incoming)"

text \<open>What a conversation with a peer yields: the events, and the exception that ended it, if any.\<close>

type_synonym peer = "pyval \<Rightarrow> pyval \<Rightarrow> payload list \<times> call_exception option"

definition collect_output :: "payload list \<Rightarrow> string" where
  "collect_output events =
     fold (\<lambda>e current. case extract_text e of
             None \<Rightarrow> current | Some x \<Rightarrow> merge_streamed_tool_output current x) events []"

fun completed_task :: "payload \<Rightarrow> bool" where
  "completed_task (PTask t) \<longleftrightarrow> tk_state t = TASK_STATE_COMPLETED"
| "completed_task _ \<longleftrightarrow> False"

definition tool_failure :: "pyval \<Rightarrow> pyval \<Rightarrow> mapping \<Rightarrow> mapping" where
  "tool_failure call_id tool error = dmerge [(''call_id'', call_id), (''tool'', tool)] error"

definition handle_a2a_call_tool :: "string \<Rightarrow> peer option \<Rightarrow> mapping \<Rightarrow> mapping" where
  "handle_a2a_call_tool fresh peer part =
     (let call_id = py_or (dget part ''callID'') (PStr fresh);
          tool_name = py_or (dget part ''tool'') (PStr ''a2a_call'');
          state = mapping_or_empty (dget part ''state'');
          fail = (\<lambda>code msg meta. tool_failure call_id tool_name (build_tool_error code msg meta))
      in case (case map_of state ''input'' of None \<Rightarrow> PDict [] | Some v \<Rightarrow> v) of
           PDict inputs \<Rightarrow>
             if \<not> truthy (dget inputs ''url'') \<or> \<not> truthy (dget inputs ''message'')
             then fail ''a2a_missing_required_input'' ''Missing required a2a_call url or message'' None
             else (case peer of
                     None \<Rightarrow> fail ''a2a_client_manager_unavailable'' ''A2A client manager is not available'' None
                   | Some p \<Rightarrow>
                       (case p (dget inputs ''url'') (dget inputs ''message'') of
                          (_, Some exc) \<Rightarrow> tool_failure call_id tool_name (map_a2a_tool_exception exc)
                        | (events, None) \<Rightarrow>
                            (let result_text = collect_output events
                             in if result_text \<noteq> [] then
                                  [(''call_id'', call_id), (''tool'', tool_name), (''output'', PStr result_text)]
                                else if events \<noteq> [] \<and> completed_task (last events) then
                                  [(''call_id'', call_id), (''tool'', tool_name),
                                   (''output'', PStr ''Task completed.'')]
                                else fail ''a2a_unexpected_response''
                                       ''Remote A2A peer returned an unexpected response type''
                                       (Some [(''response_type'',
                                          PStr (if events = [] then ''NoneType'' else ''StreamResponse''))]))))
         | _ \<Rightarrow> fail ''a2a_invalid_input'' ''Invalid a2a_call input payload'' None)"

definition calls_a2a_tool :: "pyval \<Rightarrow> mapping option" where
  "calls_a2a_tool v =
     (case v of
        PDict part \<Rightarrow>
          if dget part ''type'' = PStr ''tool'' \<and>
             dget (mapping_or_empty (dget part ''state'')) ''status'' = PStr ''calling'' \<and>
             dget part ''tool'' = PStr ''a2a_call''
          then Some part else None
      | _ \<Rightarrow> None)"

definition maybe_handle_tools :: "(nat \<Rightarrow> string) \<Rightarrow> peer option \<Rightarrow> mapping \<Rightarrow> mapping list option" where
  "maybe_handle_tools fresh peer raw_response =
     (case (case map_of raw_response ''parts'' of None \<Rightarrow> PList [] | Some v \<Rightarrow> v) of
        PList parts \<Rightarrow>
          (let results = map (\<lambda>(i, part). handle_a2a_call_tool (fresh i) peer part)
                 (enumerate 0 (List.map_filter calls_a2a_tool parts))
           in if results = [] then None else Some results)
      | _ \<Rightarrow> None)"

section \<open>Properties\<close>

text \<open>The texts a failed call can show to the model.\<close>

definition stable_tool_errors :: "(string \<times> string) list" where
  "stable_tool_errors =
     [(''a2a_invalid_input'', ''Invalid a2a_call input payload''),
      (''a2a_missing_required_input'', ''Missing required a2a_call url or message''),
      (''a2a_client_manager_unavailable'', ''A2A client manager is not available''),
      (''a2a_unexpected_response'', ''Remote A2A peer returned an unexpected response type''),
      (''a2a_peer_auth_failed'', ''Authentication failed when calling remote A2A peer''),
      (''a2a_peer_permission_denied'', ''Permission denied when calling remote A2A peer''),
      (''a2a_timeout'', ''Remote A2A peer timed out''),
      (''a2a_unsupported_operation'', ''Remote A2A peer does not support the requested operation''),
      (''a2a_retryable_unavailable'',
       ''Remote A2A peer is temporarily unavailable and should be retried with a fresh client''),
      (''a2a_invalid_agent_card'', ''Remote A2A peer returned an invalid agent card payload''),
      (''a2a_peer_protocol_error'', ''Remote A2A peer returned an invalid protocol payload''),
      (''a2a_unavailable'', ''Remote A2A peer is unavailable''),
      (''a2a_call_failed'', ''Remote A2A call failed'')]"

definition stable_error :: "mapping \<Rightarrow> bool" where
  "stable_error e \<longleftrightarrow> (\<exists>(code, msg) \<in> set stable_tool_errors.
     dget e ''error_code'' = PStr code \<and> dget e ''error'' = PStr msg)"

lemma build_tool_error_stable:
  "(code, msg) \<in> set stable_tool_errors \<Longrightarrow> stable_error (build_tool_error code msg meta)"
  by (force simp: stable_error_def build_tool_error_def dget_def)

lemma tool_failure_stable:
  "stable_error e \<Longrightarrow> wf_dict e \<Longrightarrow> stable_error (tool_failure call_id tool e)"
  by (auto simp: stable_error_def tool_failure_def dget_def map_of_dmerge split: option.splits)

lemma wf_tool_error [simp]: "wf_dict (build_tool_error code msg meta)"
  by (auto simp: build_tool_error_def intro!: wf_dset_opt)

lemma no_output_in_error [simp]: "map_of (build_tool_error code msg meta) ''output'' = None"
  by (simp add: build_tool_error_def)

definition stable_shape :: "mapping \<Rightarrow> bool" where
  "stable_shape e \<longleftrightarrow> (\<exists>code msg meta. e = build_tool_error code msg meta \<and> (code, msg) \<in> set stable_tool_errors)"

lemma stable_shapeI: "(code, msg) \<in> set stable_tool_errors \<Longrightarrow> stable_shape (build_tool_error code msg meta)"
  by (auto simp: stable_shape_def)

lemma client_error_stable: "stable_shape (tool_error_of_client_error e)"
  by (cases "ce_class e")
    (simp_all add: build_client_error_payload_def stable_shapeI stable_tool_errors_def del: append.simps)

declare tool_error_of_client_error.simps [simp del]

lemma mapped_exception_stable: "stable_shape (map_a2a_tool_exception exc)"
proof (cases exc)
  case (FromSdk x)
  have "(''a2a_call_failed'', ''Remote A2A call failed'') \<in> set stable_tool_errors"
    by (simp add: stable_tool_errors_def)
  with FromSdk client_error_stable stable_shapeI show ?thesis by simp
qed (simp add: client_error_stable)

text \<open>The two shapes of a result.\<close>

definition tool_success :: "mapping \<Rightarrow> bool" where
  "tool_success r \<longleftrightarrow> (\<exists>t. dget r ''output'' = PStr t \<and> t \<noteq> []) \<and> dget r ''error'' = PNone"

definition tool_failed :: "mapping \<Rightarrow> bool" where
  "tool_failed r \<longleftrightarrow> stable_error r \<and> dget r ''output'' = PNone"

lemma tool_failure_failed:
  "(code, msg) \<in> set stable_tool_errors \<Longrightarrow>
     tool_failed (tool_failure call_id tool (build_tool_error code msg meta))"
  using tool_failure_stable [OF build_tool_error_stable wf_tool_error]
  by (simp add: tool_failed_def tool_failure_def dget_def map_of_dmerge)

lemma mapped_failure_failed: "tool_failed (tool_failure call_id tool (map_a2a_tool_exception exc))"
  using mapped_exception_stable [of exc] tool_failure_failed by (auto simp: stable_shape_def)

text \<open>
  A tool call never fails silently and never shows the model what a peer or the network
  said: every result is an output that is not empty, or one of thirteen fixed errors, never
  both.
\<close>

theorem tool_results_are_stable:
  "tool_success (handle_a2a_call_tool fresh peer part) \<noteq> tool_failed (handle_a2a_call_tool fresh peer part)"
proof -
  have not_both: "\<not> (tool_success r \<and> tool_failed r)" for r
    by (auto simp: tool_success_def tool_failed_def)
  have stable: "(code, msg) \<in> set stable_tool_errors" if "(code, msg) \<in>
      {(''a2a_invalid_input'', ''Invalid a2a_call input payload''),
       (''a2a_missing_required_input'', ''Missing required a2a_call url or message''),
       (''a2a_client_manager_unavailable'', ''A2A client manager is not available''),
       (''a2a_unexpected_response'', ''Remote A2A peer returned an unexpected response type'')}" for code msg
    using that by (auto simp: stable_tool_errors_def)
  have fail: "tool_failed (tool_failure c t (build_tool_error code msg meta))" if "(code, msg) \<in>
      {(''a2a_invalid_input'', ''Invalid a2a_call input payload''),
       (''a2a_missing_required_input'', ''Missing required a2a_call url or message''),
       (''a2a_client_manager_unavailable'', ''A2A client manager is not available''),
       (''a2a_unexpected_response'', ''Remote A2A peer returned an unexpected response type'')}"
    for c t code msg meta using tool_failure_failed [OF stable [OF that]] .
  have success: "tool_success [(''call_id'', c), (''tool'', t), (''output'', PStr x)]" if "x \<noteq> []" for c t x
    using that by (simp add: tool_success_def dget_def)
  let ?input = "case map_of (mapping_or_empty (dget part ''state'')) ''input'' of
      None \<Rightarrow> PDict [] | Some v \<Rightarrow> v"
  have "tool_success (handle_a2a_call_tool fresh peer part) \<or> tool_failed (handle_a2a_call_tool fresh peer part)"
  proof (cases ?input)
    case (PDict inputs)
    show ?thesis
    proof (cases "\<not> truthy (dget inputs ''url'') \<or> \<not> truthy (dget inputs ''message'')")
      case True
      with PDict fail show ?thesis by (simp add: handle_a2a_call_tool_def Let_def)
    next
      case False
      note inp = PDict False
      show ?thesis
      proof (cases peer)
        case None
        with inp fail show ?thesis by (simp add: handle_a2a_call_tool_def Let_def)
      next
        case (Some p)
        obtain events exc where r: "p (dget inputs ''url'') (dget inputs ''message'') = (events, exc)"
          by fastforce
        show ?thesis
        proof (cases exc)
          case None
          with inp Some r fail success show ?thesis
            by (simp add: handle_a2a_call_tool_def Let_def)
        next
          case (Some x)
          with inp \<open>peer = Some p\<close> r mapped_failure_failed show ?thesis
            by (simp add: handle_a2a_call_tool_def Let_def)
        qed
      qed
    qed
  qed (use fail in \<open>simp_all add: handle_a2a_call_tool_def Let_def\<close>)
  with not_both show ?thesis by blast
qed

text \<open>
  A peer that streams its answer in pieces is misread: a piece that already occurs in the
  text is dropped as a repetition, and other pieces are separated by line breaks. The updates
  this very program sends for one text hold that text for every client of the protocol, and are
  turned into a different one by its own tool call.
\<close>

theorem streamed_answers_are_garbled:
  "let updates = rt_queue (snd (sample_run
         [([part_updated [], part_delta ''ha'', part_delta ''ha'', part_delta ''lo''], False)]))
   in client_text ''a:text'' updates = ''hahalo'' \<and>
      collect_output (map payload_of updates) = ''ha'' @ [CHR 0x0A] @ ''lo''"
  by code_simp

end
