(* ===== verification/Coordinator.thy ===== *)
theory Coordinator
  imports Executor Tool_Calls
begin

text \<open>
  The second half of an execution (\<open>execution/coordinator.py\<close>): binding a session, the turns with
  the upstream, the verdict and the clean-up. What the rest of the world contributes is given by
  records: the answers of the upstream, what other executions do to the session state while this
  one waits, the events of the stream. An execution that still waits when they are used up has no
  result. The lock of the session is the subject of another theory.
\<close>

section \<open>Failures\<close>

datatype run_error = UpstreamFailure upstream_error | AccessDenied sm_error

fun sm_error_text :: "sm_error \<Rightarrow> string" where
  "sm_error_text (PermissionError sid) = ''Session '' @ sid @ '' is not owned by you''"

text \<open>The text of an exception; that of a status error is never used.\<close>

fun upstream_error_text :: "upstream_error \<Rightarrow> string" where
  "upstream_error_text (UpstreamConcurrencyLimitError category operation limit) =
     ''OpenCode upstream '' @ category @ '' concurrency limit exceeded '' @
     ''while calling '' @ operation @ '' (limit='' @ str_int limit @ '')''"
| "upstream_error_text (UpstreamContractError m) = m"
| "upstream_error_text (HTTPStatusError response) = []"
| "upstream_error_text (HTTPError (TimeoutException m)) = m"
| "upstream_error_text (HTTPError (TransportError m)) = m"
| "upstream_error_text (RuntimeError m) = m"
| "upstream_error_text (upstream_error.ValueError m) = m"
| "upstream_error_text (AttributeError m) = m"

fun run_error_text :: "run_error \<Rightarrow> string" where
  "run_error_text (UpstreamFailure e) = upstream_error_text e"
| "run_error_text (AccessDenied e) = sm_error_text e"

text \<open>The \<open>except\<close> clauses of \<open>run\<close>.\<close>

definition failure_report :: "run_error \<Rightarrow> string \<times> task_state \<times> string option \<times> pyval option" where
  "failure_report e =
     (case e of
        UpstreamFailure (HTTPStatusError response) \<Rightarrow>
          (let (error_type, state, message) = format_upstream_error response ''send_message''
           in (message, state, Some error_type, Some (PInt (hs_status response))))
      | UpstreamFailure (HTTPError (TimeoutException m)) \<Rightarrow>
          (''OpenCode request timed out: '' @ m, TASK_STATE_FAILED, Some ''UPSTREAM_TIMEOUT'', None)
      | UpstreamFailure (UpstreamContractError m) \<Rightarrow>
          (''OpenCode payload mismatch: '' @ m, TASK_STATE_FAILED, Some ''UPSTREAM_PAYLOAD_ERROR'', None)
      | UpstreamFailure (UpstreamConcurrencyLimitError category operation limit) \<Rightarrow>
          (run_error_text e, TASK_STATE_FAILED, Some ''UPSTREAM_BACKPRESSURE'', None)
      | _ \<Rightarrow> (''OpenCode error: '' @ run_error_text e, TASK_STATE_FAILED, None, None))"

section \<open>Binding the session\<close>

record 's binding_world =
  bw_now :: seconds
  bw_client :: upstream_client
  bw_transport :: transport
  bw_creating :: "'s session_manager \<Rightarrow> 's session_manager"
  bw_created :: seconds
  bw_locking :: "'s session_manager \<Rightarrow> 's session_manager"

definition run_create_request ::
    "create_request \<Rightarrow> transport \<Rightarrow> upstream_client \<Rightarrow> upstream_error + string" where
  "run_create_request r tr c =
     fst (create_session (Some (cr_title r)) (map_of (cr_kwargs r) ''directory'')
            (map_of (cr_kwargs r) ''workspace_id'') tr c)"

definition get_or_create_session ::
    "'s session_repo \<Rightarrow> 's binding_world \<Rightarrow> string \<Rightarrow> string \<Rightarrow> string \<Rightarrow> string option \<Rightarrow> string option
       \<Rightarrow> string option \<Rightarrow> 's session_manager \<Rightarrow> (run_error + string \<times> bool) \<times> 's session_manager"
  where
  "get_or_create_session R W identity context_id title preferred directory workspace_id m =
     (case nonempty preferred of
        Some preferred_session_id \<Rightarrow>
          (let (r, s) = get_preferred_session R (bw_now W) identity context_id preferred_session_id
                          (sm_repo m)
           in (map_sum AccessDenied id r, m\<lparr>sm_repo := s\<rparr>))
      | None \<Rightarrow>
          (case lookup_or_start_create R (bw_now W) identity context_id title directory workspace_id m of
             (Inl existing, m1) \<Rightarrow> (Inr (existing, False), m1)
           | (Inr task, m1) \<Rightarrow>
               (let m2 = bw_creating W m1
                in case run_create_request (sm_tasks m1 ! task) (bw_transport W) (bw_client W) of
                     Inl e \<Rightarrow> (Inl (UpstreamFailure e), drop_inflight (identity, context_id) task m2)
                   | Inr sid \<Rightarrow>
                       (let (r, m3) = bind_created_session R (bw_created W) identity context_id task sid m2
                        in (map_sum AccessDenied id r, m3)))))"

definition bind_session ::
    "'s session_repo \<Rightarrow> 's binding_world \<Rightarrow> prepared_execution \<Rightarrow> 's session_manager
       \<Rightarrow> (run_error + string \<times> bool) \<times> 's session_manager" where
  "bind_session R W p m =
     (let title = (if pe_session_title p \<noteq> [] then pe_session_title p else pe_user_text p)
      in case get_or_create_session R W (pe_identity p) (pe_session_binding_context_id p) title
                (pe_bound_session_id p) (pe_directory p) (pe_workspace_id p) m of
           (Inl e, m1) \<Rightarrow> (Inl e, m1)
         | (Inr b, m1) \<Rightarrow> (Inr b, bw_locking W m1))"

section \<open>Turns\<close>

record 's turn =
  tn_client :: upstream_client
  tn_transport :: transport
  tn_stream_timeout :: "seconds option"
  tn_waiting :: "'s session_manager \<Rightarrow> 's session_manager"
  tn_now :: seconds
  tn_peer :: "peer option"
  tn_fresh :: "nat \<Rightarrow> string"

definition send_turn ::
    "prepared_execution \<Rightarrow> string \<Rightarrow> string \<Rightarrow> mapping list \<Rightarrow> 's turn \<Rightarrow> upstream_error + opencode_message"
  where
  "send_turn p session_id user_text turn_parts tn =
     (let timeout_override = (if pe_streaming_request p then Timeout (tn_stream_timeout tn)
                              else DefaultTimeout)
      in fst (if \<not> pe_use_structured_parts p \<and> turn_parts = []
              then send_message session_id (Some user_text) None (pe_directory p) (pe_workspace_id p)
                     (pe_model_override p) timeout_override (tn_transport tn) (tn_client tn)
              else send_message session_id (nonempty (Some user_text)) (Some turn_parts)
                     (pe_directory p) (pe_workspace_id p) (pe_model_override p) timeout_override
                     (tn_transport tn) (tn_client tn)))"

definition tool_part :: "mapping \<Rightarrow> mapping" where
  "tool_part res =
     [(''type'', PStr ''tool''), (''tool'', dget res ''tool''), (''call_id'', dget res ''call_id''),
      (''output'', dget res ''output''), (''error'', dget res ''error'')]"

text \<open>The result of the turns, whether a claim is still pending, and the session state.\<close>

fun run_turns ::
    "'s session_repo \<Rightarrow> prepared_execution \<Rightarrow> string \<Rightarrow> bool \<Rightarrow> string \<Rightarrow> mapping list \<Rightarrow> 's turn list
       \<Rightarrow> 's session_manager
       \<Rightarrow> (run_error + opencode_message) option \<times> bool \<times> 's session_manager" where
  "run_turns R p session_id pending user_text turn_parts [] m = (None, pending, m)"
| "run_turns R p session_id pending user_text turn_parts (tn # tns) m =
     (let m1 = tn_waiting tn m
      in case send_turn p session_id user_text turn_parts tn of
           Inl e \<Rightarrow> (Some (Inl (UpstreamFailure e)), pending, m1)
         | Inr response \<Rightarrow>
             (case (if pending
                    then (let (r, s) = finalize_preferred_session_binding R (tn_now tn) (pe_identity p)
                                 (pe_session_binding_context_id p) session_id (sm_repo m1)
                          in (r, m1\<lparr>sm_repo := s\<rparr>))
                    else (Inr (), m1)) of
                (Inl e, m2) \<Rightarrow> (Some (Inl (AccessDenied e)), pending, m2)
              | (Inr _, m2) \<Rightarrow>
                  (case maybe_handle_tools (tn_fresh tn) (tn_peer tn)
                          (mapping_or_empty (om_raw response)) of
                     None \<Rightarrow> (Some (Inr response), False, m2)
                   | Some results \<Rightarrow>
                       run_turns R p session_id False [] (map tool_part results) tns m2)))"

section \<open>The verdict\<close>

text \<open>
  The place of an execution: its ids and the fresh ids of its messages and its artifact.
\<close>

record run_ids =
  ri_task_id :: string
  ri_context_id :: string
  ri_fresh_message :: string
  ri_fresh_artifact :: string

definition stream_artifact_base_id :: "run_ids \<Rightarrow> string" where
  "stream_artifact_base_id ids = ri_task_id ids @ '':stream''"

definition initial_stream_state :: "run_ids \<Rightarrow> prepared_execution \<Rightarrow> stream_output" where
  "initial_stream_state ids p =
     (let place = ri_task_id ids @ '':'' @ ri_context_id ids @ '':''
      in stream_output_init (pe_user_text p) (place @ ''assistant'')
           (place @ stream_artifact_base_id ids))"

definition report_error ::
    "run_ids \<Rightarrow> bool \<Rightarrow> string \<times> task_state \<times> string option \<times> pyval option \<Rightarrow> payload list" where
  "report_error ids streaming_request = (\<lambda>(message, state, error_type, upstream_status).
     emit_error (ri_fresh_message ids) (ri_task_id ids) (ri_context_id ids) message state error_type
       upstream_status streaming_request)"

definition report_inband :: "run_ids \<Rightarrow> bool \<Rightarrow> inband_error \<Rightarrow> payload list" where
  "report_inband ids streaming_request e =
     report_error ids streaming_request
       (ie_message e, ie_state e, Some (ie_error_type e), ie_upstream_status e)"

text \<open>The stream has ended when its task returned: a connection ended without failing, or was left.\<close>

definition stream_ended :: "(stream_item list \<times> bool) list \<Rightarrow> rat list \<Rightarrow> bool" where
  "stream_ended connections waits \<longleftrightarrow> length waits < length connections"

definition handle_streaming_response ::
    "run_ids \<Rightarrow> prepared_execution \<Rightarrow> string \<Rightarrow> string \<Rightarrow> string \<Rightarrow> mapping option \<Rightarrow> stream_output
       \<Rightarrow> terminal_signal \<Rightarrow> payload list" where
  "handle_streaming_response ids p session_id response_text message_id usage out signal =
     (if ts_state signal \<noteq> TASK_STATE_COMPLETED then
        report_error ids True
          (case nonempty (ts_message signal) of None \<Rightarrow> ''OpenCode execution failed.'' | Some t \<Rightarrow> t,
           ts_state signal, ts_error_type signal, ts_upstream_status signal)
      else case so_upstream_error out of
        Some e \<Rightarrow> report_inband ids True e
      | None \<Rightarrow>
          (let artifact_id = resolve_text_artifact_id (stream_artifact_base_id ids @ '':text'') out;
               (emit, out1) = should_emit_final_snapshot artifact_id response_text out;
               (sequence, out2) = next_sequence out1
           in (if emit then
                 [payload_of (enqueue_artifact_update (ri_task_id ids) (ri_context_id ids) artifact_id
                    (text_part response_text) False (Some True)
                    (build_stream_artifact_metadata TEXT (Some message_id)
                       (Some (build_event_id sequence out2)) (Some sequence)
                       (ms_include_streaming (pe_switches p))))]
               else []) @
              [PStatus \<lparr>se_task_id = ri_task_id ids, se_context_id = ri_context_id ids,
                        se_state = TASK_STATE_COMPLETED, se_message = None,
                        se_metadata = metadata_of (build_output_metadata (Some session_id) usage
                          (Some [(''message_id'', PStr message_id),
                                 (''event_id'', PStr (so_event_id_namespace out @ '':status''))])
                          None None (pe_switches p))\<rparr>]))"

definition handle_non_streaming_response ::
    "run_ids \<Rightarrow> prepared_execution \<Rightarrow> request_context \<Rightarrow> string \<Rightarrow> string \<Rightarrow> string \<Rightarrow> mapping option
       \<Rightarrow> payload list" where
  "handle_non_streaming_response ids p context session_id response_text message_id usage =
     (let response_text =
        (if response_text = [] then ''(No text content returned by OpenCode.)'' else response_text);
          status_message =
            \<lparr>mg_message_id = (if message_id = [] then ri_fresh_message ids else message_id),
             mg_role = ROLE_AGENT, mg_parts = [text_part ''Completed.''],
             mg_task_id = ri_task_id ids, mg_context_id = ri_context_id ids, mg_metadata = []\<rparr>;
          history = (case rc_current_task context of
                       Some t \<Rightarrow> if tk_history t \<noteq> [] then tk_history t
                                 else (case rc_message context of None \<Rightarrow> [] | Some m \<Rightarrow> [m])
                     | None \<Rightarrow> (case rc_message context of None \<Rightarrow> [] | Some m \<Rightarrow> [m]))
      in [PTask \<lparr>tk_id = ri_task_id ids, tk_context_id = ri_context_id ids,
                 tk_state = TASK_STATE_COMPLETED, tk_message = Some status_message,
                 tk_history = history,
                 tk_artifacts = [\<lparr>ar_artifact_id = ri_fresh_artifact ids, ar_name = ''response'',
                                  ar_parts = [text_part response_text], ar_metadata = []\<rparr>],
                 tk_metadata = metadata_of (build_output_metadata (Some session_id) usage None None None
                                 (pe_switches p))\<rparr>])"

text \<open>
  The stream of an execution: what the connections had delivered when the response came, and
  until the stream ended or the execution did.
\<close>

record 'i stream_world =
  sw_early :: "(stream_item list \<times> bool) list"
  sw_connections :: "(stream_item list \<times> bool) list"
  sw_tracker :: "seconds \<Rightarrow> 'i interrupt_tracker"
  sw_interrupts :: 'i
  sw_float_repr :: "rat \<Rightarrow> string"

definition stream_cfg ::
    "run_ids \<Rightarrow> prepared_execution \<Rightarrow> string \<Rightarrow> 'i stream_world \<Rightarrow> runtime_cfg" where
  "stream_cfg ids p session_id V =
     \<lparr>cf_session_id = session_id, cf_identity = pe_identity p, cf_task_id = ri_task_id ids,
      cf_context_id = ri_context_id ids, cf_artifact_id = stream_artifact_base_id ids,
      cf_allow_structured_output = pe_allow_structured_output p, cf_switches = pe_switches p,
      cf_float_repr = sw_float_repr V\<rparr>"

definition run_stream ::
    "run_ids \<Rightarrow> prepared_execution \<Rightarrow> string \<Rightarrow> 'i stream_world \<Rightarrow> (stream_item list \<times> bool) list
       \<Rightarrow> rat list \<times> 'i runtime" where
  "run_stream ids p session_id V connections =
     (if pe_streaming_request p
      then consume (stream_cfg ids p session_id V) (sw_tracker V) connections
             (initial_stream_state ids p) (sw_interrupts V)
      else ([], runtime_init (initial_stream_state ids p) (sw_interrupts V)))"

definition handle_response ::
    "run_ids \<Rightarrow> prepared_execution \<Rightarrow> request_context \<Rightarrow> string \<Rightarrow> 'i stream_world \<Rightarrow> opencode_message
       \<Rightarrow> (run_error + payload list) option" where
  "handle_response ids p context session_id V response =
     (let early = rt_out (snd (run_stream ids p session_id V (sw_early V)));
          message_id = resolve_message_id (as_str (om_message_id response)) early;
          usage = merge_token_usage (extract_token_usage (om_raw response)) (so_token_usage early)
      in case extract_upstream_error_from_response (om_raw response) of
           Some e \<Rightarrow> Some (Inr (report_inband ids (pe_streaming_request p) e))
         | None \<Rightarrow>
             if pe_streaming_request p then
               (let (waits, rt) = run_stream ids p session_id V (sw_connections V)
                in if rt_signal rt = None \<and> \<not> stream_ended (sw_connections V) waits then None
                   else (case await_stream_terminal_signal session_id (rt_signal rt)
                                (Some (StreamEnded None)) of
                           Inl e \<Rightarrow> Some (Inl (UpstreamFailure e))
                         | Inr signal \<Rightarrow>
                             Some (Inr (handle_streaming_response ids p session_id (om_text response)
                               message_id usage (rt_out rt) signal))))
             else Some (Inr (handle_non_streaming_response ids p context (om_session_id response)
                               (om_text response) message_id usage)))"

section \<open>The whole execution\<close>

definition build_initial_task_snapshot :: "run_ids \<Rightarrow> request_context \<Rightarrow> task" where
  "build_initial_task_snapshot ids context =
     (case rc_current_task context of
        Some t \<Rightarrow> t\<lparr>tk_id := ri_task_id ids, tk_context_id := ri_context_id ids,
                     tk_state := TASK_STATE_WORKING, tk_message := None\<rparr>
      | None \<Rightarrow> \<lparr>tk_id = ri_task_id ids, tk_context_id = ri_context_id ids,
                 tk_state = TASK_STATE_WORKING, tk_message = None,
                 tk_history = (case rc_message context of None \<Rightarrow> [] | Some m \<Rightarrow> [m]),
                 tk_artifacts = [], tk_metadata = []\<rparr>)"

definition cleanup ::
    "'s session_repo \<Rightarrow> bool \<Rightarrow> string \<Rightarrow> string \<Rightarrow> 's session_manager \<Rightarrow> 's session_manager" where
  "cleanup R pending identity session_id m =
     (if pending \<and> session_id \<noteq> []
      then m\<lparr>sm_repo := release_preferred_session_claim R identity session_id (sm_repo m)\<rparr> else m)"

text \<open>
  The events of an execution in their order, and the session state it leaves; no events when it
  still waits for the upstream. Updates that arrive while a failure is being reported are not
  modelled.
\<close>

definition run ::
    "'s session_repo \<Rightarrow> run_ids \<Rightarrow> prepared_execution \<Rightarrow> request_context \<Rightarrow> 's binding_world
       \<Rightarrow> 's turn list \<Rightarrow> 'i stream_world \<Rightarrow> 's session_manager
       \<Rightarrow> payload list option \<times> 's session_manager" where
  "run R ids p context W turns V m =
     (let fail = (\<lambda>e. report_error ids (pe_streaming_request p) (failure_report e))
      in case bind_session R W p m of
           (Inl e, m1) \<Rightarrow> (Some (fail e), m1)
         | (Inr (session_id, pending), m1) \<Rightarrow>
             (let before =
                (if pe_streaming_request p \<or> pe_return_immediately p
                 then [PTask (build_initial_task_snapshot ids context)] else []) @
                map payload_of (rt_queue (snd (run_stream ids p session_id V (sw_connections V))))
              in case run_turns R p session_id pending (pe_user_text p) (pe_request_parts p) turns m1 of
                   (answer, pending1, m2) \<Rightarrow>
                     (let finished = cleanup R pending1 (pe_identity p) session_id m2
                      in case answer of
                           None \<Rightarrow> (None, m2)
                         | Some (Inl e) \<Rightarrow> (Some (before @ fail e), finished)
                         | Some (Inr response) \<Rightarrow>
                             (case handle_response ids p context session_id V response of
                                None \<Rightarrow> (None, m2)
                              | Some (Inl e) \<Rightarrow> (Some (before @ fail e), finished)
                              | Some (Inr verdict) \<Rightarrow> (Some (before @ verdict), finished)))))"

definition execute ::
    "'s session_repo \<Rightarrow> executor \<Rightarrow> string \<Rightarrow> string \<Rightarrow> request_context \<Rightarrow> 's binding_world
       \<Rightarrow> 's turn list \<Rightarrow> 'i stream_world \<Rightarrow> 's session_manager
       \<Rightarrow> payload list option \<times> 's session_manager" where
  "execute R X fresh_message fresh_artifact context W turns V m =
     (case execute_prepare X fresh_message context of
        Inl refusal \<Rightarrow> (Some refusal, m)
      | Inr (task_id, context_id, p) \<Rightarrow>
          run R \<lparr>ri_task_id = task_id, ri_context_id = context_id, ri_fresh_message = fresh_message,
                 ri_fresh_artifact = fresh_artifact\<rparr> p context W turns V m)"

end
