(* ===== verification/Execution_Verdicts.thy ===== *)
theory Execution_Verdicts
  imports Coordinator
begin

text \<open>
  What an execution promises: one verdict at the end, an answer the client really holds, and no
  claim left behind. The facts about the stream are invariants of its steps.
\<close>

section \<open>Failing states\<close>


definition failing :: "task_state \<Rightarrow> bool" where
  "failing st \<longleftrightarrow> st \<in> {TASK_STATE_FAILED, TASK_STATE_AUTH_REQUIRED}"

lemma failing_simps [simp]: "failing TASK_STATE_FAILED" "failing TASK_STATE_AUTH_REQUIRED"
  by (simp_all add: failing_def)

lemma profile_failing [simp]: "failing (ep_state (resolve_upstream_http_error_profile status))"
  by (simp add: resolve_upstream_http_error_profile_def)

lemma formatted_failing [simp]:
  "failing (ts_state (format_stream_terminal_error d st n))"
  "failing (ie_state (format_inband_upstream_error src d st n))"
  by (simp_all add: format_stream_terminal_error_def format_inband_upstream_error_def Let_def
      split: option.split)

lemma signal_states:
  "extract_stream_terminal_signal event = Some sig \<Longrightarrow>
     ts_state sig = TASK_STATE_COMPLETED \<or> failing (ts_state sig)"
  by (auto simp: extract_stream_terminal_signal_def plain_session_error_def Let_def
      split: if_splits pyval.splits prod.splits)

lemma payload_error_failing:
  "extract_upstream_error_from_payload m src = Some e \<Longrightarrow> failing (ie_state e)"
  by (auto simp: extract_upstream_error_from_payload_def split: pyval.splits prod.splits)

lemma response_error_failing: "extract_upstream_error_from_response v = Some e \<Longrightarrow> failing (ie_state e)"
  by (auto simp: extract_upstream_error_from_response_def split: pyval.splits intro: payload_error_failing)

lemma event_error_failing: "extract_upstream_error_from_event v = Some e \<Longrightarrow> failing (ie_state e)"
  by (auto simp: extract_upstream_error_from_event_def split: pyval.splits if_splits
      intro: payload_error_failing)

definition same_ends :: "'s runtime \<Rightarrow> 's runtime \<Rightarrow> bool" where
  "same_ends s s' \<longleftrightarrow> rt_signal s' = rt_signal s \<and>
     so_upstream_error (rt_out s') = so_upstream_error (rt_out s)"

lemma same_ends_refl [simp, intro]: "same_ends s s"
  by (simp add: same_ends_def)

lemma same_ends_trans: "same_ends a b \<Longrightarrow> same_ends b c \<Longrightarrow> same_ends a c"
  by (simp add: same_ends_def)

lemma register_chunk_error [simp]:
  "so_upstream_error (snd (register_chunk a k app acc s)) = so_upstream_error s"
  by (simp add: register_chunk_def Let_def)

lemma remember_text_error [simp]: "so_upstream_error (remember_text_artifact_id a s) = so_upstream_error s"
  by (simp add: remember_text_artifact_id_def split: option.split)

lemma emit_chunk_ends: "same_ends s (emit_chunk cfg c s)"
  by (simp add: same_ends_def emit_chunk_def next_sequence_def Let_def case_prod_unfold)

lemma emit_chunks_ends: "same_ends s (emit_chunks cfg cs s)"
  unfolding emit_chunks_def
  by (induction cs arbitrary: s) (auto intro: same_ends_trans emit_chunk_ends)

lemma emit_status_ends: "same_ends s (emit_status cfg st m p i s)"
  by (simp add: same_ends_def emit_status_def next_sequence_def)

lemma emit_interrupt_ends: "same_ends s (emit_interrupt_status cfg st r k ph d re s)"
  using emit_status_ends by (simp add: same_ends_def emit_interrupt_status_def Let_def)

lemma emit_after_ends: "same_ends s s' \<Longrightarrow> same_ends s (emit_chunks cfg cs s')"
  using emit_chunks_ends same_ends_trans by blast

lemma mark_error [simp]: "so_upstream_error (snd (mark_interrupt_pending i s)) = so_upstream_error s"
  by (simp add: mark_interrupt_pending_def Let_def)

lemma clear_error [simp]: "so_upstream_error (snd (clear_interrupt_pending i s)) = so_upstream_error s"
  by (simp add: clear_interrupt_pending_def Let_def)

lemma same_ends_updates [simp]:
  "same_ends s (s\<lparr>rt_pending := p\<rparr>)" "same_ends s (s\<lparr>rt_parts := q\<rparr>)"
  "same_ends s (s\<lparr>rt_parts := q, rt_pending := p\<rparr>)"
  by (simp_all add: same_ends_def)

lemma delta_ends: "same_ends s (handle_part_delta cfg props p mid s)"
  unfolding handle_part_delta_def Let_def case_prod_unfold
  by (cases "dget props ''field''"; cases "dget props ''delta''")
    (simp_all add: emit_after_ends split: option.split)

lemma updated_ends: "same_ends s (handle_part_updated cfg part props p mid s)"
  unfolding handle_part_updated_def Let_def case_prod_unfold
  by (simp add: emit_after_ends split: option.split)

lemma part_ends: "same_ends s (handle_part cfg ty props s)"
  by (simp add: handle_part_def Let_def delta_ends updated_ends split: option.split)

lemma progress_ends: "same_ends s (handle_progress cfg props s)"
  unfolding handle_progress_def register_progress_def Let_def
  using emit_status_ends [where s = "s\<lparr>rt_out := out\<rparr>" for out]
  by (auto simp: same_ends_def emit_status_def next_sequence_def split: pyval.split option.split)

lemma usage_ends: "same_ends s (handle_token_usage event s)"
  by (simp add: handle_token_usage_def same_ends_def ingest_token_usage_def split: option.split)

lemma asked_ends: "same_ends s (handle_asked cfg T event s)"
  using mark_error
  by (auto simp: handle_asked_def same_ends_def emit_interrupt_status_def emit_status_def next_sequence_def
      Let_def case_prod_unfold split: option.split)

lemma resolved_ends: "same_ends s (handle_resolved cfg T event s)"
  by (auto simp: handle_resolved_def same_ends_def emit_interrupt_status_def emit_status_def next_sequence_def
      Let_def case_prod_unfold split: option.split)


text \<open>What the stream leaves as its signal and as its error.\<close>

definition ends_ok :: "'s runtime \<Rightarrow> bool" where
  "ends_ok s \<longleftrightarrow>
     (\<forall>sig. rt_signal s = Some sig \<longrightarrow> ts_state sig = TASK_STATE_COMPLETED \<or> failing (ts_state sig)) \<and>
     (\<forall>e. so_upstream_error (rt_out s) = Some e \<longrightarrow> failing (ie_state e))"

lemma ends_ok_same: "same_ends s s' \<Longrightarrow> ends_ok s \<Longrightarrow> ends_ok s'"
  by (simp add: same_ends_def ends_ok_def)

lemma ends_ok_error: "ends_ok s \<Longrightarrow> ends_ok (handle_upstream_error event s)"
  using event_error_failing by (auto simp: ends_ok_def handle_upstream_error_def Let_def)

lemma ends_ok_signal: "ends_ok s \<Longrightarrow> ends_ok (handle_terminal_signal event s)"
  using signal_states by (auto simp: ends_ok_def handle_terminal_signal_def Let_def)

lemmas ends_ok_quiet = part_ends [THEN ends_ok_same] resolved_ends [THEN ends_ok_same]
  asked_ends [THEN ends_ok_same] usage_ends [THEN ends_ok_same] progress_ends [THEN ends_ok_same]

lemma ends_ok_event:
  assumes "ends_ok s"
  shows "ends_ok (handle_event cfg T event s)"
proof -
  have session: "ends_ok (handle_resolved cfg T event (handle_asked cfg T event
      (handle_token_usage event (handle_terminal_signal event
        (handle_upstream_error event (handle_progress cfg props s))))))" (is "ends_ok (?h props)") for props
    by (intro ends_ok_quiet ends_ok_signal ends_ok_error assms)
  have "ends_ok (handle_part cfg ty props (if b then ?h props else s))" for ty props b
    by (rule ends_ok_quiet(1)) (use session assms in \<open>cases b; simp only: if_True if_False\<close>)
  then show ?thesis using assms by (simp add: handle_event_def split: pyval.split)
qed

lemma ends_ok_updates [simp]:
  "ends_ok (s\<lparr>rt_stop := b\<rparr>) = ends_ok s" "ends_ok (s\<lparr>rt_metrics := m\<rparr>) = ends_ok s"
  by (simp_all add: ends_ok_def)

lemma ends_ok_events: "ends_ok s \<Longrightarrow> ends_ok (snd (run_events cfg T items s))"
proof (induction cfg T items s rule: run_events.induct)
  case (3 cfg T now event items s)
  then show ?case by (simp add: ends_ok_event)
qed simp_all

lemma ends_ok_connections: "ends_ok s \<Longrightarrow> ends_ok (snd (consume_connections cfg T cs backoff s))"
proof (induction cfg T cs backoff s rule: consume_connections.induct)
  case (2 cfg T items fails rest backoff s)
  obtain br s1 where r: "run_events cfg T items s = (br, s1)" by fastforce
  have one: "ends_ok s1" using ends_ok_events [OF 2(2), of cfg T items] by (simp add: r)
  show ?case
    using 2(1) [OF _ r [symmetric] refl _ refl] 2(2) one
    by (simp add: r Let_def case_prod_unfold)
qed simp

lemma consume_ends_ok: "so_upstream_error out = None \<Longrightarrow> ends_ok (snd (consume cfg T cs out i))"
  unfolding consume_def by (rule ends_ok_connections) (simp add: ends_ok_def runtime_init_def)


section \<open>Verdicts\<close>

definition settled :: "task_state \<Rightarrow> bool" where
  "settled st \<longleftrightarrow> st = TASK_STATE_COMPLETED \<or> failing st"

text \<open>A verdict is an event after which the task makes no progress any more.\<close>

fun verdict :: "payload \<Rightarrow> bool" where
  "verdict (PTask t) \<longleftrightarrow> settled (tk_state t)"
| "verdict (PStatus e) \<longleftrightarrow> settled (se_state e)"
| "verdict _ \<longleftrightarrow> False"

fun place :: "payload \<Rightarrow> string \<times> string" where
  "place (PTask t) = (tk_id t, tk_context_id t)"
| "place (PStatus e) = (se_task_id e, se_context_id e)"
| "place (PArtifact e) = (ae_task_id e, ae_context_id e)"
| "place (PMessage m) = (mg_task_id m, mg_context_id m)"

lemma unsettled [simp]: "\<not> settled TASK_STATE_WORKING" "\<not> settled TASK_STATE_INPUT_REQUIRED"
  by (simp_all add: settled_def failing_def)

lemma failing_settled: "failing st \<Longrightarrow> settled st"
  by (simp add: settled_def)

definition running_updates :: "runtime_cfg \<Rightarrow> 's runtime \<Rightarrow> bool" where
  "running_updates cfg s \<longleftrightarrow> (\<forall>e \<in> set (rt_queue s). \<not> verdict (payload_of e) \<and>
     place (payload_of e) = (cf_task_id cfg, cf_context_id cfg))"

lemma running_updates_step:
  assumes "running_updates cfg s" and "rt_step cfg s s'"
  shows "running_updates cfg s'"
  using assms(2)
proof cases
  case quiet
  with assms(1) show ?thesis by (simp add: running_updates_def same_core_def)
next
  case (chunk c)
  with assms(1) show ?thesis
    by (cases cfg c s rule: emit_chunk_cases) (auto simp: running_updates_def same_core_def)
qed (use assms(1) in \<open>auto simp: running_updates_def emit_status_facts emit_interrupt_status_facts\<close>)

lemma consume_running: "running_updates cfg (snd (consume cfg T cs out i))"
proof (rule consume_invariant [where P = "running_updates cfg"])
  show "running_updates cfg (runtime_init out i)" by (simp add: running_updates_def runtime_init_def)
qed (rule running_updates_step)

text \<open>One verdict at the end, every event at its place.\<close>

definition one_verdict :: "string \<times> string \<Rightarrow> payload list \<Rightarrow> bool" where
  "one_verdict loc events \<longleftrightarrow> events \<noteq> [] \<and> verdict (last events) \<and>
     (\<forall>e \<in> set (butlast events). \<not> verdict e) \<and> (\<forall>e \<in> set events. place e = loc)"

lemma one_verdict_emit_error:
  "failing state \<Longrightarrow> one_verdict (t, c) (emit_error fresh t c msg state ty st streaming)"
  by (simp add: one_verdict_def emit_error_def Let_def failing_settled enqueue_artifact_update_def)

lemma one_verdict_before:
  "one_verdict loc events \<Longrightarrow> \<forall>e \<in> set pre. \<not> verdict e \<and> place e = loc \<Longrightarrow>
     one_verdict loc (pre @ events)"
  by (auto simp: one_verdict_def butlast_append)

lemma failure_report_failing: "failing (fst (snd (failure_report e)))"
  by (auto simp: failure_report_def format_upstream_error_def Let_def
      split: run_error.split upstream_error.split transport_failure.split)

lemma one_verdict_failure:
  "one_verdict (ri_task_id ids, ri_context_id ids) (report_error ids streaming (failure_report e))"
  using failure_report_failing [of e]
  by (cases "failure_report e") (simp add: report_error_def one_verdict_emit_error)

lemma one_verdict_inband:
  "failing (ie_state e) \<Longrightarrow>
     one_verdict (ri_task_id ids, ri_context_id ids) (report_inband ids streaming e)"
  by (simp add: report_inband_def report_error_def one_verdict_emit_error)

lemma one_verdict_streaming:
  assumes "ts_state signal = TASK_STATE_COMPLETED \<or> failing (ts_state signal)"
    and "\<And>e. so_upstream_error out = Some e \<Longrightarrow> failing (ie_state e)"
  shows "one_verdict (ri_task_id ids, ri_context_id ids)
    (handle_streaming_response ids p sid txt mid usage out signal)"
  using assms one_verdict_inband
  by (auto simp: handle_streaming_response_def Let_def report_error_def one_verdict_emit_error
      split: option.split prod.split)
    (auto simp: one_verdict_def settled_def enqueue_artifact_update_def)

lemma one_verdict_non_streaming:
  "one_verdict (ri_task_id ids, ri_context_id ids)
    (handle_non_streaming_response ids p context sid txt mid usage)"
  by (simp add: handle_non_streaming_response_def Let_def one_verdict_def settled_def)

lemma initial_stream_state_error [simp]: "so_upstream_error (initial_stream_state ids p) = None"
  by (simp add: initial_stream_state_def stream_output_init_def Let_def)

lemma stream_ends_ok: "ends_ok (snd (run_stream ids p sid V cs))"
  by (auto simp: run_stream_def intro: consume_ends_ok) (simp add: ends_ok_def runtime_init_def)

lemma one_verdict_response:
  assumes "handle_response ids p context sid V response = Some (Inr events)"
  shows "one_verdict (ri_task_id ids, ri_context_id ids) events"
proof -
  obtain waits rt where rt: "run_stream ids p sid V (sw_connections V) = (waits, rt)" by fastforce
  have ok: "ends_ok rt" using stream_ends_ok [of ids p sid V "sw_connections V"] by (simp add: rt)
  show ?thesis
    using assms ok
    by (auto simp: handle_response_def rt Let_def await_stream_terminal_signal_def ends_ok_def
        one_verdict_inband response_error_failing one_verdict_streaming one_verdict_non_streaming
        split: option.splits if_splits)
qed


text \<open>What comes before the verdict.\<close>

definition events_before ::
    "run_ids \<Rightarrow> prepared_execution \<Rightarrow> request_context \<Rightarrow> string \<Rightarrow> 'i stream_world \<Rightarrow> payload list" where
  "events_before ids p context sid V =
     (if pe_streaming_request p \<or> pe_return_immediately p
      then [PTask (build_initial_task_snapshot ids context)] else []) @
     map payload_of (rt_queue (snd (run_stream ids p sid V (sw_connections V))))"

lemma snapshot_unsettled:
  "tk_state (build_initial_task_snapshot ids context) = TASK_STATE_WORKING"
  "tk_id (build_initial_task_snapshot ids context) = ri_task_id ids"
  "tk_context_id (build_initial_task_snapshot ids context) = ri_context_id ids"
  by (simp_all add: build_initial_task_snapshot_def split: option.split)

lemma events_before_running:
  "\<forall>e \<in> set (events_before ids p context sid V).
     \<not> verdict e \<and> place e = (ri_task_id ids, ri_context_id ids)"
proof -
  have "\<forall>e \<in> set (rt_queue (snd (run_stream ids p sid V (sw_connections V)))).
      \<not> verdict (payload_of e) \<and> place (payload_of e) = (ri_task_id ids, ri_context_id ids)"
    using consume_running [of "stream_cfg ids p sid V" "sw_tracker V" "sw_connections V"
        "initial_stream_state ids p" "sw_interrupts V"]
    by (simp add: run_stream_def running_updates_def stream_cfg_def runtime_init_def)
  then show ?thesis by (auto simp: events_before_def snapshot_unsettled)
qed

text \<open>The answer the turns of an execution end with.\<close>

definition final_answer ::
    "'s session_repo \<Rightarrow> prepared_execution \<Rightarrow> 's binding_world \<Rightarrow> 's turn list \<Rightarrow> 's session_manager
       \<Rightarrow> (string \<times> opencode_message) option" where
  "final_answer R p W turns m =
     (case bind_session R W p m of
        (Inr (sid, pending), m1) \<Rightarrow>
          (case run_turns R p sid pending (pe_user_text p) (pe_request_parts p) turns m1 of
             (Some (Inr response), _) \<Rightarrow> Some (sid, response)
           | _ \<Rightarrow> None)
      | _ \<Rightarrow> None)"

text \<open>How an execution can end: a failure, or what \<open>handle_response\<close> makes of the answer.\<close>

lemma run_cases [consumes 1, case_names unbound failed answered]:
  assumes "fst (run R ids p context W turns V m) = Some events"
  obtains (unbound) e where "events = report_error ids (pe_streaming_request p) (failure_report e)"
  | (failed) e sid where "events = events_before ids p context sid V @
        report_error ids (pe_streaming_request p) (failure_report e)"
  | (answered) sid response evs where "final_answer R p W turns m = Some (sid, response)"
        "handle_response ids p context sid V response = Some (Inr evs)"
        "events = events_before ids p context sid V @ evs"
proof -
  obtain b m1 where b: "bind_session R W p m = (b, m1)" by fastforce
  show ?thesis
  proof (cases b)
    case (Inl e)
    with assms b show ?thesis by (intro unbound [of e]) (simp add: run_def)
  next
    case (Inr sp)
    obtain sid pending where sp: "sp = (sid, pending)" by (cases sp)
    obtain answer pend m2 where t: "run_turns R p sid pending (pe_user_text p) (pe_request_parts p) turns m1
        = (answer, pend, m2)" by (cases rule: prod_cases3)
    have run: "fst (run R ids p context W turns V m) = Some events" by (rule assms)
    show ?thesis
    proof (cases "\<exists>e. answer = Some (Inl e)")
      case True
      then obtain e where "answer = Some (Inl e)" ..
      with run b Inr sp t show ?thesis
        by (intro failed [of sid e]) (simp add: run_def Let_def events_before_def)
    next
      case False
      then obtain response where a: "answer = Some (Inr response)"
        using run b Inr sp t by (cases answer; cases "the answer") (auto simp: run_def Let_def)
      have fa: "final_answer R p W turns m = Some (sid, response)"
        using b Inr sp t a by (simp add: final_answer_def)
      obtain r where h: "handle_response ids p context sid V response = Some r"
        using run b Inr sp t a by (cases "handle_response ids p context sid V response")
          (auto simp: run_def Let_def)
      show ?thesis
      proof (cases r)
        case (Inl e)
        with run b \<open>b = Inr sp\<close> sp t a h show ?thesis
          by (intro failed [of sid e]) (simp add: run_def Let_def events_before_def)
      next
        case (Inr evs)
        with run b \<open>b = Inr sp\<close> sp t a h show ?thesis
          by (intro answered [OF fa, of evs]) (simp_all add: run_def Let_def events_before_def)
      qed
    qed
  qed
qed

lemma run_one_verdict:
  assumes "fst (run R ids p context W turns V m) = Some events"
  shows "one_verdict (ri_task_id ids, ri_context_id ids) events"
  using assms
proof (cases rule: run_cases)
  case unbound
  then show ?thesis by (simp add: one_verdict_failure)
next
  case failed
  then show ?thesis by (simp add: one_verdict_before [OF one_verdict_failure events_before_running])
next
  case (answered sid response evs)
  then show ?thesis
    by (simp add: one_verdict_before [OF one_verdict_response events_before_running])
qed

definition request_place :: "request_context \<Rightarrow> string \<times> string" where
  "request_place context =
     (case (nonempty (rc_task_id context), nonempty (rc_context_id context)) of
        (Some t, Some c) \<Rightarrow> (t, c)
      | (t, c) \<Rightarrow> (case t of None \<Rightarrow> ''unknown'' | Some x \<Rightarrow> x, case c of None \<Rightarrow> ''unknown'' | Some x \<Rightarrow> x))"

lemma refusal_one_verdict:
  "execute_prepare X fresh context = Inl events \<Longrightarrow> one_verdict (request_place context) events"
  by (auto simp: execute_prepare_def request_place_def Let_def one_verdict_emit_error
      split: option.splits sum.splits if_splits input_error.splits value_error.splits)

lemma prepared_place:
  "execute_prepare X fresh context = Inr (t, c, p) \<Longrightarrow> request_place context = (t, c)"
  by (auto simp: execute_prepare_def request_place_def Let_def
      split: option.splits sum.splits if_splits input_error.splits value_error.splits)



section \<open>The answer a client holds\<close>

definition text_id_ok :: "runtime_cfg \<Rightarrow> 's runtime \<Rightarrow> bool" where
  "text_id_ok cfg s \<longleftrightarrow> so_text_artifact_id (rt_out s) \<in> {None, Some (cf_artifact_id cfg @ '':text'')}"

lemma text_id_ok_step:
  assumes "strip (cf_artifact_id cfg @ '':text'') = cf_artifact_id cfg @ '':text''"
    and "text_id_ok cfg s" and "rt_step cfg s s'"
  shows "text_id_ok cfg s'"
  using assms(3)
proof cases
  case quiet
  with assms(2) show ?thesis by (simp add: text_id_ok_def same_core_def)
next
  case (chunk c)
  show ?thesis
  proof (cases cfg c s rule: emit_chunk_cases)
    case dropped
    with assms(2) chunk show ?thesis by (simp add: text_id_ok_def same_core_def)
  next
    case (emitted e k)
    have "sc_block_type c = TEXT \<Longrightarrow> sc_artifact_id c = cf_artifact_id cfg @ '':text''"
      using chunk(2) by (simp add: chunk_ok_def resolve_stream_artifact_id_def)
    with assms(1,2) chunk(1) emitted(9) show ?thesis by (simp add: text_id_ok_def)
  qed
next
  case (asked rid out)
  with assms(2) mark_True(1) [OF asked(2,3)] show ?thesis
    by (simp add: text_id_ok_def emit_interrupt_status_facts)
next
  case (resolved rid out)
  with assms(2) clear_True(1) [OF resolved(2,3)] show ?thesis
    by (simp add: text_id_ok_def emit_interrupt_status_facts)
qed (use assms(2) in \<open>simp add: text_id_ok_def emit_status_facts\<close>)

lemma consume_text_id:
  assumes "strip (cf_artifact_id cfg @ '':text'') = cf_artifact_id cfg @ '':text''"
    and "so_text_artifact_id out = None"
  shows "resolve_text_artifact_id (cf_artifact_id cfg @ '':text'') (rt_out (snd (consume cfg T cs out i))) =
    cf_artifact_id cfg @ '':text''"
proof -
  have "text_id_ok cfg (snd (consume cfg T cs out i))"
  proof (rule consume_invariant [where P = "text_id_ok cfg"])
    show "text_id_ok cfg (runtime_init out i)" using assms(2) by (simp add: text_id_ok_def runtime_init_def)
  qed (rule text_id_ok_step [OF assms(1)])
  then show ?thesis
    using assms(1)
    by (auto simp: text_id_ok_def resolve_text_artifact_id_def nonempty_strip_def split: option.split)
qed

text \<open>A client that follows the events of an execution.\<close>

fun held_parts :: "string \<Rightarrow> payload list \<Rightarrow> part list \<Rightarrow> part list" where
  "held_parts a [] acc = acc"
| "held_parts a (PArtifact e # es) acc =
     held_parts a es (if ar_artifact_id (ae_artifact e) = a
                      then (if ae_append e then acc @ ar_parts (ae_artifact e)
                            else ar_parts (ae_artifact e))
                      else acc)"
| "held_parts a (_ # es) acc = held_parts a es acc"

definition held_text :: "string \<Rightarrow> payload list \<Rightarrow> string" where
  "held_text a es = concat (List.map_filter (\<lambda>p. has_text (pt_content p)) (held_parts a es []))"

lemma held_parts_append: "held_parts a (es @ fs) acc = held_parts a fs (held_parts a es acc)"
  by (induction a es acc rule: held_parts.induct) auto

lemma held_parts_stream: "held_parts a (map payload_of q) acc = client_parts a q acc"
  by (induction a q acc rule: client_parts.induct) auto

lemma held_before:
  assumes "pe_streaming_request p"
  shows "held_parts (stream_artifact_base_id ids @ '':text'') (events_before ids p context sid V) [] =
    client_parts (stream_artifact_base_id ids @ '':text'')
      (rt_queue (snd (run_stream ids p sid V (sw_connections V)))) []"
  using assms by (simp add: events_before_def held_parts_stream)

lemma initial_stream_state_fresh [simp]:
  "fresh_output (initial_stream_state ids p)" "so_text_artifact_id (initial_stream_state ids p) = None"
  by (simp_all add: initial_stream_state_def stream_output_init_def fresh_output_def Let_def)

lemma stream_text:
  assumes "pe_streaming_request p"
  shows "client_text (stream_artifact_base_id ids @ '':text'')
      (rt_queue (snd (run_stream ids p sid V cs))) =
    artifact_buffer (stream_artifact_base_id ids @ '':text'') (rt_out (snd (run_stream ids p sid V cs)))"
  using assms consume_assembled [OF initial_stream_state_fresh(1),
      of "stream_cfg ids p sid V" "sw_tracker V" cs ids p "sw_interrupts V"]
  by (simp add: run_stream_def assembled_def text_artifact_def stream_cfg_def)

lemma stream_text_id:
  assumes "pe_streaming_request p"
    and "strip (stream_artifact_base_id ids @ '':text'') = stream_artifact_base_id ids @ '':text''"
  shows "resolve_text_artifact_id (stream_artifact_base_id ids @ '':text'')
      (rt_out (snd (run_stream ids p sid V cs))) = stream_artifact_base_id ids @ '':text''"
  using assms consume_text_id [of "stream_cfg ids p sid V" "initial_stream_state ids p"]
  by (simp add: run_stream_def stream_cfg_def)

lemma error_last_state:
  "emit_error f t c msg st ty us True \<noteq> [] \<and>
   last (emit_error f t c msg st ty us True) = PStatus e \<Longrightarrow> se_state e = st"
  by (auto simp: emit_error_def Let_def)

text \<open>The verdict of a completed stream.\<close>

lemma streaming_verdict:
  assumes sig: "ts_state signal = TASK_STATE_COMPLETED \<or> failing (ts_state signal)"
    and err: "\<And>e. so_upstream_error out = Some e \<Longrightarrow> failing (ie_state e)"
    and lst: "last (handle_streaming_response ids p sid txt mid usage out signal) = PStatus e"
    and completed: "se_state e = TASK_STATE_COMPLETED"
  shows "ts_state signal = TASK_STATE_COMPLETED \<and> so_upstream_error out = None"
proof -
  have "\<not> failing TASK_STATE_COMPLETED" by (simp add: failing_def)
  with assms show ?thesis
    by (auto simp: handle_streaming_response_def report_inband_def report_error_def emit_error_def Let_def
        split: if_splits option.splits prod.splits)
qed


lemma failure_not_completed:
  assumes "last (report_error ids True (failure_report e)) = PStatus ev"
  shows "se_state ev \<noteq> TASK_STATE_COMPLETED" "report_error ids True (failure_report e) \<noteq> []"
  using assms failure_report_failing [of e]
  by (cases "failure_report e"; auto simp: report_error_def emit_error_def Let_def failing_def)+

lemma report_error_nonempty [simp]: "report_error ids b r \<noteq> []"
  by (cases r) (simp add: report_error_def emit_error_def Let_def)

lemma snapshot_held:
  assumes "should_emit_final_snapshot a txt out = (emit, out')"
  shows "strip txt = [] \<or> (if emit then True else strip (artifact_buffer a out) = strip txt)"
  using assms by (auto simp: should_emit_final_snapshot_def split: if_splits)

text \<open>
  C3. When the stream of an execution ends in success, a client that followed the events holds
  the upstream's answer: the text of its text artifact is the text of the last response, up to
  surrounding white space, whatever part of it had been streamed before. The task id must not
  begin with white space, which the artifact id would lose.
\<close>

theorem completed_answer_is_held:
  assumes run: "fst (run R ids p context W turns V m) = Some events"
    and streaming: "pe_streaming_request p"
    and completed: "last events = PStatus e" "se_state e = TASK_STATE_COMPLETED"
    and id: "strip (ri_task_id ids @ '':stream:text'') = ri_task_id ids @ '':stream:text''"
  shows "\<exists>sid response. final_answer R p W turns m = Some (sid, response) \<and>
    (strip (om_text response) = [] \<or>
     strip (held_text (ri_task_id ids @ '':stream:text'') events) = strip (om_text response))"
  using run
proof (cases rule: run_cases)
  case (unbound f)
  then show ?thesis using failure_not_completed(1) [of ids f e] completed streaming by simp
next
  case (failed f sid)
  then show ?thesis using failure_not_completed(1) [of ids f e] completed streaming by simp
next
  case (answered sid response evs)
  let ?a = "stream_artifact_base_id ids @ '':text''"
  let ?rt = "snd (run_stream ids p sid V (sw_connections V))"
  have a: "?a = ri_task_id ids @ '':stream:text''" by (simp add: stream_artifact_base_id_def)
  have verdict: "one_verdict (ri_task_id ids, ri_context_id ids) evs"
    by (rule one_verdict_response [OF answered(2)])
  have lst: "last evs = PStatus e" using answered(3) completed verdict by (simp add: one_verdict_def)
  have ok: "ends_ok ?rt" by (rule stream_ends_ok)
  obtain mid usage signal where evs: "evs = handle_streaming_response ids p sid (om_text response) mid usage
      (rt_out ?rt) signal" and sig: "ts_state signal = TASK_STATE_COMPLETED \<or> failing (ts_state signal)"
  proof (cases "extract_upstream_error_from_response (om_raw response)")
    case None
    with answered(2) streaming ok that show thesis
      by (auto simp: handle_response_def Let_def case_prod_unfold await_stream_terminal_signal_def ends_ok_def
          split: option.splits if_splits)
  next
    case (Some er)
    then have "evs = report_inband ids True er" "failing (ie_state er)"
      using answered(2) streaming by (simp_all add: handle_response_def Let_def response_error_failing)
    with lst completed(2) have False
      by (auto simp: report_inband_def report_error_def emit_error_def Let_def failing_def)
    then show thesis ..
  qed
  have clean: "ts_state signal = TASK_STATE_COMPLETED \<and> so_upstream_error (rt_out ?rt) = None"
    using streaming_verdict [OF sig _ lst [unfolded evs] completed(2)] ok by (simp add: ends_ok_def)
  obtain emit out' where snap: "should_emit_final_snapshot ?a (om_text response) (rt_out ?rt) = (emit, out')"
    by fastforce
  have held: "held_parts ?a events [] = held_parts ?a evs (client_parts ?a (rt_queue ?rt) [])"
    using answered(3) held_before [OF streaming, of ids "context" sid V] by (simp add: held_parts_append)
  have evs': "held_parts ?a evs acc = (if emit then [text_part (om_text response)] else acc)" for acc
    using clean stream_text_id [OF streaming, of ids sid V "sw_connections V"] id a snap
    by (simp add: evs handle_streaming_response_def Let_def next_sequence_def enqueue_artifact_update_def)
  have "strip (held_text ?a events) = strip (om_text response)" if "strip (om_text response) \<noteq> []"
    using snapshot_held [OF snap] that stream_text [OF streaming, of ids sid V "sw_connections V"]
    by (cases emit) (simp_all add: held_text_def held evs' client_text_def text_part_def map_filter_def)
  with answered(1) a show ?thesis by auto
qed

section \<open>The pending claim\<close>

text \<open>
  What other executions do while this one waits: they keep the tables well formed and put no
  claim of this identity on the session. Which claims there are at a time is what \<open>claim_of\<close> says.
\<close>

definition leaves_claim ::
    "(seconds \<Rightarrow> 's \<Rightarrow> bool) \<Rightarrow> (seconds \<Rightarrow> 's \<Rightarrow> string \<Rightarrow> string option) \<Rightarrow> seconds \<Rightarrow> string \<Rightarrow> string
       \<Rightarrow> ('s session_manager \<Rightarrow> 's session_manager) \<Rightarrow> bool" where
  "leaves_claim ok claim_of t i sid f \<longleftrightarrow>
     (\<forall>now m. ok now (sm_repo m) \<longrightarrow> ok now (sm_repo (f m))) \<and>
     (\<forall>m. claim_of t (sm_repo m) sid \<noteq> Some i \<longrightarrow> claim_of t (sm_repo (f m)) sid \<noteq> Some i)"

context session_repository
begin

lemma finalize_binding_spec:
  assumes "inv now s" and "now \<le> t"
    and "finalize_preferred_session_binding R now i c sid s = (r, s')"
  shows "inv now s'" and "r = Inr () \<Longrightarrow> claim t s' sid \<noteq> Some i"
proof -
  obtain r1 s1 where f: "finalize_session_claim R now i sid s = (r1, s1)" by fastforce
  note spec = finalize_spec [OF assms(1) f]
  note w = set_session [OF spec(1) refl, of i c sid]
  show "inv now s'"
    using assms(3) f spec(1) w by (cases r1) (auto simp: finalize_preferred_session_binding_def)
  assume "r = Inr ()"
  then have "r1 = Inr ()" and s': "s' = sr_set_session R now i c sid s1"
    using assms(3) f by (auto simp: finalize_preferred_session_binding_def split: sum.splits)
  then have "claim t s1 sid \<noteq> Some i"
    using spec(6) [OF _ assms(2)] claim_fades [OF assms(2), of s sid i] by auto
  moreover have "claim t s' = claim t s1" using w [of t] assms(2) by (simp add: s')
  ultimately show "claim t s' sid \<noteq> Some i" by simp
qed

lemma release_claim:
  assumes "inv now s" and "now \<le> t"
  shows "claim t (release_preferred_session_claim R i sid s) sid \<noteq> Some i"
  using clear_pending_claim [OF assms(1) refl, of sid "Some i" t] assms(2)
    claim_fades [OF assms(2), of s sid i]
  by (auto simp: release_preferred_session_claim_def)

lemma turns_claim:
  assumes "run_turns R p sid pending user_text parts turns m = (answer, pending', m')"
    and "inv t0 (sm_repo m)" and "sorted (t0 # map tn_now turns @ [t])"
    and "\<forall>tn \<in> set turns. leaves_claim inv claim t (pe_identity p) sid (tn_waiting tn)"
    and "\<not> pending \<Longrightarrow> claim t (sm_repo m) sid \<noteq> Some (pe_identity p)"
  shows "(\<exists>now \<le> t. inv now (sm_repo m')) \<and>
    (\<not> pending' \<longrightarrow> claim t (sm_repo m') sid \<noteq> Some (pe_identity p))"
  using assms
proof (induction turns arbitrary: pending user_text parts m t0)
  case Nil
  then show ?case by auto
next
  case (Cons tn tns)
  let ?m1 = "tn_waiting tn m" and ?i = "pe_identity p"
  have times: "t0 \<le> tn_now tn" "tn_now tn \<le> t" "sorted (tn_now tn # map tn_now tns @ [t])"
    using Cons.prems(3) by auto
  have waiting: "leaves_claim inv claim t ?i sid (tn_waiting tn)" using Cons.prems(4) by simp
  have inv1: "inv (tn_now tn) (sm_repo ?m1)"
    using waiting inv_later [OF Cons.prems(2) times(1)] by (simp add: leaves_claim_def)
  have claim1: "\<not> pending \<Longrightarrow> claim t (sm_repo ?m1) sid \<noteq> Some ?i"
    using waiting Cons.prems(5) by (simp add: leaves_claim_def)
  show ?case
  proof (cases "send_turn p sid user_text parts tn")
    case (Inl e)
    with Cons.prems(1) inv1 claim1 times show ?thesis by auto
  next
    case (Inr response)
    obtain r m2 where f: "(if pending
        then (let (r, s) = finalize_preferred_session_binding R (tn_now tn) ?i
                 (pe_session_binding_context_id p) sid (sm_repo ?m1) in (r, ?m1\<lparr>sm_repo := s\<rparr>))
        else (Inr (), ?m1)) = (r, m2)" by fastforce
    have inv2: "inv (tn_now tn) (sm_repo m2)" and
      claim2: "r = Inr () \<Longrightarrow> claim t (sm_repo m2) sid \<noteq> Some ?i" and
      keep: "r \<noteq> Inr () \<Longrightarrow> pending"
      using f inv1 claim1 finalize_binding_spec [OF inv1 times(2)]
      by (auto split: if_splits prod.splits)
    show ?thesis
    proof (cases r)
      case (Inl e)
      with Cons.prems(1) \<open>send_turn p sid user_text parts tn = Inr response\<close> f keep inv2 times
      show ?thesis by auto
    next
      case (Inr u)
      show ?thesis
      proof (cases "maybe_handle_tools (tn_fresh tn) (tn_peer tn) (mapping_or_empty (om_raw response))")
        case None
        then show ?thesis
          using Cons.prems(1) \<open>send_turn p sid user_text parts tn = Inr response\<close> f Inr claim2 inv2 times
          by auto
      next
        case (Some results)
        then have "run_turns R p sid False [] (map tool_part results) tns m2 = (answer, pending', m')"
          using Cons.prems(1) \<open>send_turn p sid user_text parts tn = Inr response\<close> f Inr
          by simp
        from Cons.IH [OF this inv2 times(3)] Cons.prems(4) claim2 Inr show ?thesis by simp
      qed
    qed
  qed
qed

lemma run_leaves_no_claim:
  assumes bound: "bind_session R W p m = (Inr (sid, pending), m1)" and sid: "sid \<noteq> []"
    and inv: "inv t0 (sm_repo m1)" and "sorted (t0 # map tn_now turns @ [t])"
    and "\<forall>tn \<in> set turns. leaves_claim inv claim t (pe_identity p) sid (tn_waiting tn)"
    and "\<not> pending \<Longrightarrow> claim t (sm_repo m1) sid \<noteq> Some (pe_identity p)"
    and fin: "fst (run R ids p ctx W turns V m) = Some events"
  shows "claim t (sm_repo (snd (run R ids p ctx W turns V m))) sid \<noteq> Some (pe_identity p)"
proof -
  obtain answer pending' m2 where turns: "run_turns R p sid pending (pe_user_text p) (pe_request_parts p) turns m1
      = (answer, pending', m2)" by (cases rule: prod_cases3)
  note end_state = turns_claim [OF turns inv assms(4-6)]
  have "claim t (sm_repo (cleanup R pending' (pe_identity p) sid m2)) sid \<noteq> Some (pe_identity p)"
    using end_state sid release_claim by (auto simp: cleanup_def)
  then show ?thesis
    using fin bound turns
    by (auto simp: run_def Let_def split: option.splits sum.splits)
qed

end

text \<open>
  C16. An execution that has claimed a session leaves no claim behind: at its end, in success
  or failure, the in-memory tables hold no claim of its identity on the session, unless another
  execution of the same identity has put one there.
\<close>

theorem no_claim_is_left:
  assumes "bind_session mem_session_repo_ops W p m = (Inr (sid, True), m1)" and "sid \<noteq> []"
    and "ms_inv t0 (sm_repo m1)" and "sorted (t0 # map tn_now turns @ [t])"
    and "\<forall>tn \<in> set turns. leaves_claim ms_inv ms_claim t (pe_identity p) sid (tn_waiting tn)"
    and "fst (run mem_session_repo_ops ids p ctx W turns V m) = Some events"
  shows "ms_claim t (sm_repo (snd (run mem_session_repo_ops ids p ctx W turns V m))) sid
    \<noteq> Some (pe_identity p)"
  using mem.run_leaves_no_claim [OF assms(1-5) _ assms(6)] by simp

section \<open>Examples\<close>

definition sample_prepared :: prepared_execution where
  "sample_prepared =
     \<lparr>pe_identity = ''me'', pe_streaming_request = True, pe_return_immediately = False,
      pe_request_parts = [[(''type'', PStr ''text''), (''text'', PStr ''hi'')]],
      pe_user_text = ''hi'', pe_session_title = ''hi'', pe_use_structured_parts = False,
      pe_bound_session_id = Some ''s'', pe_model_override = None, pe_directory = None,
      pe_workspace_id = None, pe_session_binding_context_id = ''c'', pe_allow_structured_output = True,
      pe_switches = cf_switches sample_cfg\<rparr>"

definition sample_binding :: "mem_session_repo binding_world" where
  "sample_binding =
     \<lparr>bw_now = 0, bw_client = sample_client, bw_transport = (\<lambda>_. Inl (TransportError ''down'')),
      bw_creating = id, bw_created = 0, bw_locking = id\<rparr>"

definition sample_turn :: "string \<Rightarrow> mem_session_repo turn" where
  "sample_turn body =
     \<lparr>tn_client = sample_client\<lparr>uc_request_budget := budget_init ''request'' 1\<rparr>,
      tn_transport = (\<lambda>_. Inr \<lparr>hs_status = 200, hs_headers = [], hs_text = body\<rparr>),
      tn_stream_timeout = None, tn_waiting = id, tn_now = 1, tn_peer = None,
      tn_fresh = (\<lambda>_. ''call'')\<rparr>"

text \<open>The JSON body \<open>{"parts": [{"type": "text", "text": "Hello"}]}\<close>.\<close>

definition sample_body :: string where
  "sample_body = json_dumps (\<lambda>_. ''0.5'') False False
     (PDict [(''parts'', PList [PDict [(''type'', PStr ''text''), (''text'', PStr ''Hello'')]])])"

definition session_idle :: stream_item where
  "session_idle = Received 0
     [(''type'', PStr ''session.idle''), (''properties'', PDict [(''sessionID'', PStr ''s'')])]"

definition sample_stream :: "stream_item list \<Rightarrow> unit stream_world" where
  "sample_stream items =
     \<lparr>sw_early = [], sw_connections = [(items, False)], sw_tracker = sample_tracker,
      sw_interrupts = (), sw_float_repr = (\<lambda>_. ''0.5'')\<rparr>"

definition sample_ids :: run_ids where
  "sample_ids = \<lparr>ri_task_id = ''t'', ri_context_id = ''c'', ri_fresh_message = ''m1'',
                 ri_fresh_artifact = ''a1''\<rparr>"

definition sample_context :: request_context where
  "sample_context =
     \<lparr>rc_task_id = Some ''t'', rc_context_id = Some ''c'', rc_call_context = None,
      rc_configuration = None, rc_message = None, rc_metadata = PNone, rc_user_input = ''hi'',
      rc_current_task = None\<rparr>"

definition sample_execution :: "stream_item list \<Rightarrow> payload list option \<times> mem_session_repo session_manager" where
  "sample_execution items =
     run mem_session_repo_ops sample_ids sample_prepared sample_context sample_binding
       [sample_turn sample_body] (sample_stream items) (fresh_manager (mem_session_init 60 10 30))"

definition sample_request :: "payload list option \<times> mem_session_repo session_manager" where
  "sample_request =
     execute mem_session_repo_ops workspace_executor ''m1'' ''a1''
       (sample_context\<lparr>rc_metadata := PDict [(''shared'', PDict [(''session'', PDict [(''id'', PStr ''s'')])])]\<rparr>)
       sample_binding [sample_turn sample_body] (sample_stream [])
       (fresh_manager (mem_session_init 60 10 30))"


theorem completed_answer_is_held_witness:
  "\<exists>sid response. final_answer mem_session_repo_ops sample_prepared sample_binding [sample_turn sample_body]
      (fresh_manager (mem_session_init 60 10 30)) = Some (sid, response) \<and>
    (strip (om_text response) = [] \<or>
     strip (held_text ''t:stream:text''
       (the (fst (sample_execution [part_updated ''Hel'', session_idle])))) = strip (om_text response))"
proof -
  let ?items = "[part_updated ''Hel'', session_idle]"
  have "case fst (sample_execution ?items) of None \<Rightarrow> False | Some es \<Rightarrow>
      (case last es of PStatus e \<Rightarrow> se_state e = TASK_STATE_COMPLETED | _ \<Rightarrow> False)" by code_simp
  then obtain events e where e: "fst (sample_execution ?items) = Some events" "last events = PStatus e"
      "se_state e = TASK_STATE_COMPLETED" by (auto split: option.splits payload.splits)
  have "pe_streaming_request sample_prepared" by (simp add: sample_prepared_def)
  moreover have "strip (ri_task_id sample_ids @ '':stream:text'') = ri_task_id sample_ids @ '':stream:text''"
    by code_simp
  moreover have "ri_task_id sample_ids = ''t''" by (simp add: sample_ids_def)
  ultimately show ?thesis
    using completed_answer_is_held [OF e(1) [unfolded sample_execution_def] _ e(2,3)] e(1) by simp
qed

theorem no_claim_is_left_witness:
  "ms_claim 5 (sm_repo (snd (sample_execution []))) ''s'' \<noteq> Some ''me''"
proof -
  let ?R = mem_session_repo_ops and ?s = "mem_session_init 60 10 30"
  obtain s1 where c: "claim_preferred_session ?R 0 ''me'' ''s'' ?s = (Inr True, s1)"
  proof -
    have "fst (claim_preferred_session ?R 0 ''me'' ''s'' ?s) = Inr True" by code_simp
    then show thesis using that by (cases "claim_preferred_session ?R 0 ''me'' ''s'' ?s") simp
  qed
  have "ms_inv 0 ?s" by (simp add: ms_init_inv)
  then have inv: "ms_inv 0 s1" using mem.claim_spec(1) [OF _ c] by blast
  have bound: "bind_session ?R sample_binding sample_prepared (fresh_manager ?s)
      = (Inr (''s'', True), (fresh_manager ?s)\<lparr>sm_repo := s1\<rparr>)"
    by (simp add: bind_session_def get_or_create_session_def sample_prepared_def sample_binding_def
        nonempty_def get_preferred_session_def fresh_manager_def c)
  have "fst (sample_execution []) \<noteq> None" by code_simp
  then obtain events where e: "fst (sample_execution []) = Some events" by blast
  have me: "pe_identity sample_prepared = ''me''" by (simp add: sample_prepared_def)
  show ?thesis
    using no_claim_is_left [OF bound _ _ _ _ e [unfolded sample_execution_def], of 0 5] inv
    by (simp add: sample_turn_def leaves_claim_def me sample_execution_def)
qed

end
