(* ===== verification/Execution_Locks.thy ===== *)
theory Execution_Locks
  imports Coordinator
begin

text \<open>
  Executions side by side: the lock of a session, which an execution takes before it talks to the
  upstream and gives back when it is cleaned up (\<open>coordinator.py\<close>, \<open>session_manager.py\<close>), as a
  transition system over any number of executions, and \<open>cancel\<close> (\<open>executor.py\<close>).
\<close>

section \<open>The session locks\<close>

text \<open>
  An execution has no lock yet, waits for one, holds one, or has been cleaned up. A lock of the
  event loop knows whether it is locked and who waits, in order; it does not know its holder.
\<close>

datatype phase = Idle | Queued string | Holding string | Ended

record lock_table =
  lt_locked :: "string \<Rightarrow> bool"
  lt_waiters :: "string \<Rightarrow> nat list"
  lt_phase :: "nat \<Rightarrow> phase"

definition lock_init :: lock_table where
  "lock_init = \<lparr>lt_locked = (\<lambda>_. False), lt_waiters = (\<lambda>_. []), lt_phase = (\<lambda>_. Idle)\<rparr>"

definition lock_acquired :: "nat \<Rightarrow> string \<Rightarrow> lock_table \<Rightarrow> lock_table" where
  "lock_acquired e sid s =
     s\<lparr>lt_locked := (lt_locked s)(sid := True), lt_phase := (lt_phase s)(e := Holding sid)\<rparr>"

definition lock_queued :: "nat \<Rightarrow> string \<Rightarrow> lock_table \<Rightarrow> lock_table" where
  "lock_queued e sid s =
     s\<lparr>lt_waiters := (lt_waiters s)(sid := lt_waiters s sid @ [e]),
       lt_phase := (lt_phase s)(e := Queued sid)\<rparr>"

definition leave_queue :: "nat \<Rightarrow> string \<Rightarrow> lock_table \<Rightarrow> lock_table" where
  "leave_queue e sid s = s\<lparr>lt_waiters := (lt_waiters s)(sid := removeAll e (lt_waiters s sid))\<rparr>"

text \<open>\<open>_cleanup\<close> releases the lock whenever it is locked.\<close>

definition cleanup_lock :: "nat \<Rightarrow> string \<Rightarrow> lock_table \<Rightarrow> lock_table" where
  "cleanup_lock e sid s =
     (if lt_locked s sid then s\<lparr>lt_locked := (lt_locked s)(sid := False)\<rparr> else s)
       \<lparr>lt_phase := (lt_phase s)(e := Ended)\<rparr>"

datatype lock_event = Acquire nat string | Wake nat | Finish nat | CancelQueued nat

inductive lock_step :: "lock_event \<Rightarrow> lock_table \<Rightarrow> lock_table \<Rightarrow> bool" where
  acquire_free: "lt_phase s e = Idle \<Longrightarrow> \<not> lt_locked s sid \<Longrightarrow> lt_waiters s sid = [] \<Longrightarrow>
    lock_step (Acquire e sid) s (lock_acquired e sid s)"
| acquire_busy: "lt_phase s e = Idle \<Longrightarrow> lt_locked s sid \<or> lt_waiters s sid \<noteq> [] \<Longrightarrow>
    lock_step (Acquire e sid) s (lock_queued e sid s)"
| wake: "lt_phase s e = Queued sid \<Longrightarrow> \<not> lt_locked s sid \<Longrightarrow> lt_waiters s sid = e # ws \<Longrightarrow>
    lock_step (Wake e) s (lock_acquired e sid (leave_queue e sid s))"
| finish: "lt_phase s e = Holding sid \<Longrightarrow> lock_step (Finish e) s (cleanup_lock e sid s)"
| cancel_queued: "lt_phase s e = Queued sid \<Longrightarrow>
    lock_step (CancelQueued e) s (cleanup_lock e sid (leave_queue e sid s))"

inductive_cases acquire_cases: "lock_step (Acquire e sid) s s'"
inductive_cases wake_cases: "lock_step (Wake e) s s'"
inductive_cases finish_cases: "lock_step (Finish e) s s'"
inductive_cases cancel_queued_cases: "lock_step (CancelQueued e) s s'"

inductive_simps wake_enabled: "lock_step (Wake e) s s'"

inductive lock_run :: "lock_event list \<Rightarrow> lock_table \<Rightarrow> lock_table \<Rightarrow> bool" where
  run_nil: "lock_run [] s s"
| run_snoc: "lock_run es s0 s \<Longrightarrow> lock_step e s s' \<Longrightarrow> lock_run (es @ [e]) s0 s'"

lemmas lock_defs = lock_init_def lock_acquired_def lock_queued_def leave_queue_def cleanup_lock_def

text \<open>The queue holds exactly the executions that wait, and a locked lock has a holder.\<close>

definition queue_exact :: "lock_table \<Rightarrow> bool" where
  "queue_exact s \<longleftrightarrow> (\<forall>e sid. e \<in> set (lt_waiters s sid) \<longleftrightarrow> lt_phase s e = Queued sid)"

definition has_holder :: "lock_table \<Rightarrow> bool" where
  "has_holder s \<longleftrightarrow> (\<forall>sid. lt_locked s sid \<longrightarrow> (\<exists>e. lt_phase s e = Holding sid))"

lemma queue_exact_step: "lock_step ev s s' \<Longrightarrow> queue_exact s \<Longrightarrow> queue_exact s'"
proof (induction rule: lock_step.induct)
  case (wake s e sid ws)
  then have "x \<in> set (e # ws) \<longleftrightarrow> lt_phase s x = Queued sid" for x
    by (simp add: queue_exact_def flip: wake(3))
  with wake show ?case by (auto simp: queue_exact_def lock_defs)
qed (auto simp: queue_exact_def lock_defs)

lemma other_holder:
  "has_holder s \<Longrightarrow> lt_locked s y \<Longrightarrow> lt_phase s e \<noteq> Holding y \<Longrightarrow>
     \<exists>x. x \<noteq> e \<and> lt_phase s x = Holding y"
  unfolding has_holder_def by metis

lemma has_holder_acquired:
  assumes "has_holder s" and "\<forall>y. lt_phase s e \<noteq> Holding y"
  shows "has_holder (lock_acquired e sid s)"
  unfolding has_holder_def
proof (intro allI impI)
  fix y assume "lt_locked (lock_acquired e sid s) y"
  then show "\<exists>x. lt_phase (lock_acquired e sid s) x = Holding y"
    using other_holder [OF assms(1), of y e] assms(2)
    by (cases "y = sid") (auto simp: lock_acquired_def intro: exI [of _ e])
qed

lemma has_holder_cleanup:
  assumes "has_holder s" and "\<forall>y. y \<noteq> sid \<longrightarrow> lt_phase s e \<noteq> Holding y"
  shows "has_holder (cleanup_lock e sid s)"
  unfolding has_holder_def
proof (intro allI impI)
  fix y assume "lt_locked (cleanup_lock e sid s) y"
  then have "lt_locked s y" "y \<noteq> sid" by (auto simp: cleanup_lock_def split: if_splits)
  with other_holder [OF assms(1), of y e] assms(2)
  show "\<exists>x. lt_phase (cleanup_lock e sid s) x = Holding y" by (auto simp: cleanup_lock_def)
qed

lemma has_holder_step: "lock_step ev s s' \<Longrightarrow> has_holder s \<Longrightarrow> has_holder s'"
proof (induction rule: lock_step.induct)
  case (acquire_busy s e sid)
  then show ?case using other_holder [of s _ e] by (fastforce simp: has_holder_def lock_queued_def)
next
  case (wake s e sid ws)
  then have "has_holder (leave_queue e sid s)" by (simp add: has_holder_def leave_queue_def)
  with wake show ?case by (auto intro!: has_holder_acquired simp: leave_queue_def)
next
  case (cancel_queued s e sid)
  then have "has_holder (leave_queue e sid s)" by (simp add: has_holder_def leave_queue_def)
  with cancel_queued show ?case by (auto intro!: has_holder_cleanup simp: leave_queue_def)
qed (auto intro!: has_holder_acquired has_holder_cleanup)

lemma queues_run: "lock_run es s0 s \<Longrightarrow> queue_exact s0 \<Longrightarrow> has_holder s0 \<Longrightarrow> queue_exact s \<and> has_holder s"
  by (induction rule: lock_run.induct) (auto intro: queue_exact_step has_holder_step)

lemma lock_init_ok: "queue_exact lock_init" "has_holder lock_init"
  by (simp_all add: queue_exact_def has_holder_def lock_init_def)

text \<open>Whoever holds a session is alone with it, and its lock is locked.\<close>

definition exclusive :: "lock_table \<Rightarrow> bool" where
  "exclusive s \<longleftrightarrow>
     (\<forall>e sid. lt_phase s e = Holding sid \<longrightarrow>
        lt_locked s sid \<and> (\<forall>e'. lt_phase s e' = Holding sid \<longrightarrow> e' = e))"

lemma exclusive_step:
  "lock_step ev s s' \<Longrightarrow> (\<forall>e. ev \<noteq> CancelQueued e) \<Longrightarrow> exclusive s \<Longrightarrow> exclusive s'"
  by (induction rule: lock_step.induct) (auto simp: exclusive_def lock_defs split: if_splits)

lemma exclusive_run:
  "lock_run es s0 s \<Longrightarrow> (\<forall>e. CancelQueued e \<notin> set es) \<Longrightarrow> exclusive s0 \<Longrightarrow> exclusive s"
  by (induction rule: lock_run.induct) (auto intro: exclusive_step)


lemma lock_init_exclusive: "exclusive lock_init"
  by (simp add: exclusive_def lock_init_def)

section \<open>Properties of the locks\<close>

text \<open>
  C5. A session serves one execution at a time, as long as no execution is cancelled while it
  waits for the session: in every state reached without such a cancellation, an execution that
  holds a session is its only holder and its lock is locked.
\<close>

theorem sessions_are_exclusive:
  assumes "lock_run events lock_init s" and "\<forall>e. CancelQueued e \<notin> set events"
    and "lt_phase s e = Holding sid"
  shows "lt_locked s sid \<and> (\<forall>e'. lt_phase s e' = Holding sid \<longrightarrow> e' = e)"
  using exclusive_run [OF assms(1,2) lock_init_exclusive] assms(3) by (simp add: exclusive_def)

text \<open>The first execution holds the session and the second waits.\<close>

lemma second_waits:
  "lock_run [Acquire 1 ''s'', Acquire 2 ''s''] lock_init (lock_queued 2 ''s'' (lock_acquired 1 ''s'' lock_init))"
proof -
  let ?s1 = "lock_acquired 1 ''s'' lock_init"
  have "lock_step (Acquire 1 ''s'') lock_init ?s1"
    by (rule acquire_free) (simp_all add: lock_init_def)
  moreover have "lock_step (Acquire 2 ''s'') ?s1 (lock_queued 2 ''s'' ?s1)"
    by (rule acquire_busy) (simp_all add: lock_defs)
  ultimately have "lock_run (([] @ [Acquire 1 ''s'']) @ [Acquire 2 ''s'']) lock_init (lock_queued 2 ''s'' ?s1)"
    using run_nil by (blast intro: run_snoc)
  then show ?thesis by simp
qed

text \<open>
  C9. Cancelling an execution that waits for a session breaks the exclusion: its clean-up
  releases the lock that another execution holds, and the next execution gets the session too.
\<close>

theorem cancelled_waiter_breaks_exclusion:
  "\<exists>s. lock_run ([Acquire 1 ''s'', Acquire 2 ''s''] @ [CancelQueued 2] @ [Acquire 3 ''s'']) lock_init s \<and>
     lt_phase s 1 = Holding ''s'' \<and> lt_phase s 3 = Holding ''s''"
proof -
  let ?s2 = "lock_queued 2 ''s'' (lock_acquired 1 ''s'' lock_init)"
  let ?s3 = "cleanup_lock 2 ''s'' (leave_queue 2 ''s'' ?s2)"
  let ?s4 = "lock_acquired 3 ''s'' ?s3"
  have "lock_step (CancelQueued 2) ?s2 ?s3"
    by (rule cancel_queued) (simp add: lock_defs)
  moreover have "lock_step (Acquire 3 ''s'') ?s3 ?s4"
    by (rule acquire_free) (simp_all add: lock_defs)
  ultimately have "lock_run (([Acquire 1 ''s'', Acquire 2 ''s''] @ [CancelQueued 2]) @ [Acquire 3 ''s''])
      lock_init ?s4"
    using second_waits by (blast intro: run_snoc)
  moreover have "lt_phase ?s4 1 = Holding ''s'' \<and> lt_phase ?s4 3 = Holding ''s''"
    by (simp add: lock_defs)
  ultimately show ?thesis by (metis append_assoc)
qed

text \<open>
  No execution waits for nobody: whatever happened before, cancellations included, when an
  execution waits for a session then somebody holds the session, or the first in the queue can
  take it at once.
\<close>

theorem waiting_is_for_somebody:
  assumes "lock_run events lock_init s" and "lt_phase s e = Queued sid"
  shows "(\<exists>e'. lt_phase s e' = Holding sid) \<or>
    (\<exists>e' s'. hd (lt_waiters s sid) = e' \<and> lock_step (Wake e') s s' \<and> lt_phase s' e' = Holding sid)"
proof (cases "lt_locked s sid")
  case True
  with queues_run [OF assms(1) lock_init_ok] show ?thesis by (auto simp: has_holder_def)
next
  case False
  have exact: "queue_exact s" using queues_run [OF assms(1) lock_init_ok] by blast
  then have "e \<in> set (lt_waiters s sid)" using assms(2) by (simp add: queue_exact_def)
  then obtain first ws where ws: "lt_waiters s sid = first # ws" by (cases "lt_waiters s sid") auto
  have "first \<in> set (lt_waiters s sid)" by (simp add: ws)
  with exact have "lt_phase s first = Queued sid" by (simp add: queue_exact_def)
  from wake [OF this False ws] ws show ?thesis by (auto simp: lock_defs)
qed

theorem sessions_are_exclusive_witness:
  "lt_locked (lock_queued 2 ''s'' (lock_acquired 1 ''s'' lock_init)) ''s''"
  using sessions_are_exclusive [OF second_waits, of 1 "''s''"] by (simp add: lock_defs)

theorem waiting_is_for_somebody_witness:
  "\<exists>e'. lt_phase (lock_queued 2 ''s'' (lock_acquired 1 ''s'' lock_init)) e' = Holding ''s''"
proof -
  let ?s = "lock_queued 2 ''s'' (lock_acquired 1 ''s'' lock_init)"
  have "\<not> lock_step (Wake 2) ?s s'" for s' by (simp add: wake_enabled lock_defs)
  moreover have "lt_phase ?s 2 = Queued ''s''" "hd (lt_waiters ?s ''s'') = 2"
    by (simp_all add: lock_defs)
  ultimately show ?thesis using waiting_is_for_somebody [OF second_waits, of 2 "''s''"] by metis
qed

section \<open>The registry of running executions\<close>

text \<open>
  What \<open>_register_running_request\<close> notes of an execution under its task and context, and what
  \<open>_bind_session\<close> adds once it holds the session.
\<close>

record running_request =
  rx_task :: nat
  rx_stop :: bool
  rx_identity :: string

record running_session =
  rs_session_id :: string
  rs_directory :: "string option"
  rs_workspace_id :: "string option"
  rs_binding_context_id :: string

type_synonym execution_key = "string \<times> string"

record registry =
  rg_requests :: "(execution_key \<times> running_request) list"
  rg_sessions :: "(execution_key \<times> running_session) list"

definition register_running_request :: "execution_key \<Rightarrow> nat \<Rightarrow> string \<Rightarrow> registry \<Rightarrow> registry" where
  "register_running_request key task identity reg =
     reg\<lparr>rg_requests := dset key \<lparr>rx_task = task, rx_stop = False, rx_identity = identity\<rparr>
           (rg_requests reg)\<rparr>"

definition register_running_session ::
    "execution_key \<Rightarrow> prepared_execution \<Rightarrow> string \<Rightarrow> registry \<Rightarrow> registry" where
  "register_running_session key p session_id reg =
     reg\<lparr>rg_sessions := dset key
           \<lparr>rs_session_id = session_id, rs_directory = pe_directory p,
            rs_workspace_id = pe_workspace_id p,
            rs_binding_context_id = pe_session_binding_context_id p\<rparr> (rg_sessions reg)\<rparr>"

definition unregister_running :: "execution_key \<Rightarrow> registry \<Rightarrow> registry" where
  "unregister_running key reg =
     \<lparr>rg_requests = ddel key (rg_requests reg), rg_sessions = ddel key (rg_sessions reg)\<rparr>"

section \<open>Cancelling\<close>

text \<open>
  The world of a cancellation: whether a task is still running (and not the cancelling one), and
  the answer to the abort call, none if it takes longer than allowed.
\<close>

record cancel_world =
  kw_alive :: "nat \<Rightarrow> bool"
  kw_abort :: "string \<Rightarrow> string option \<Rightarrow> string option \<Rightarrow> (upstream_error + bool) option"
  kw_fresh :: string

record 's cancel_effects =
  ke_events :: "payload list"
  ke_outcome :: string
  ke_registry :: registry
  ke_manager :: "'s session_manager"
  ke_abort :: "(string \<times> string option \<times> string option) option"
  ke_cancelled :: "nat option"
  ke_inflight :: "nat option"

text \<open>The failures of the abort call that do not stop the cancellation.\<close>

fun tolerated :: "upstream_error \<Rightarrow> bool" where
  "tolerated (upstream_error.ValueError _) = False"
| "tolerated (AttributeError _) = False"
| "tolerated _ = True"

definition stop_running :: "execution_key \<Rightarrow> registry \<Rightarrow> registry" where
  "stop_running key reg =
     (case map_of (rg_requests reg) key of
        None \<Rightarrow> reg
      | Some r \<Rightarrow> reg\<lparr>rg_requests := dset key (r\<lparr>rx_stop := True\<rparr>) (rg_requests reg)\<rparr>)"

definition cancel ::
    "'s session_repo \<Rightarrow> cancel_world \<Rightarrow> request_context \<Rightarrow> registry \<Rightarrow> 's session_manager
       \<Rightarrow> 's cancel_effects" where
  "cancel R W context reg m =
     (let unknown = (\<lambda>i. case nonempty i of None \<Rightarrow> ''unknown'' | Some v \<Rightarrow> v)
      in case (nonempty (rc_task_id context), nonempty (rc_context_id context)) of
        (Some task_id, Some context_id) \<Rightarrow>
          (let key = (task_id, context_id);
               canceled = PStatus \<lparr>se_task_id = task_id, se_context_id = context_id,
                 se_state = TASK_STATE_CANCELED, se_message = None, se_metadata = []\<rparr>;
               request = map_of (rg_requests reg) key;
               session = map_of (rg_sessions reg) key;
               identity = (case request of None \<Rightarrow> request_identity context | Some r \<Rightarrow> rx_identity r);
               binding = (case session of None \<Rightarrow> context_id | Some s \<Rightarrow> rs_binding_context_id s);
               (inflight, m1) = pop_cached_session R identity binding m;
               reg1 = stop_running key reg;
               running = (case request of None \<Rightarrow> None
                          | Some r \<Rightarrow> if kw_alive W (rx_task r) then Some (rx_task r) else None);
               target = (case session of
                   None \<Rightarrow> None
                 | Some s \<Rightarrow> if rs_session_id s = [] then None
                             else Some (rs_session_id s, rs_directory s, rs_workspace_id s));
               done = (\<lambda>events outcome abort cancelled inflight.
                 \<lparr>ke_events = events, ke_outcome = outcome, ke_registry = reg1, ke_manager = m1,
                  ke_abort = abort, ke_cancelled = cancelled, ke_inflight = inflight\<rparr>)
           in case running of
                None \<Rightarrow> done [canceled] ''no_running_task'' None None inflight
              | Some task \<Rightarrow>
                  (case target of
                     None \<Rightarrow> done [canceled] ''no_session_binding'' None (Some task) inflight
                   | Some (sid, d, w) \<Rightarrow>
                       (case kw_abort W sid d w of
                          None \<Rightarrow> done [canceled] ''timeout'' target (Some task) inflight
                        | Some (Inr _) \<Rightarrow> done [canceled] ''success'' target (Some task) inflight
                        | Some (Inl e) \<Rightarrow>
                            if tolerated e then done [canceled] ''error'' target (Some task) inflight
                            else done (canceled # emit_error (kw_fresh W) task_id context_id
                                   (''Cancel failed: '' @ upstream_error_text e) TASK_STATE_FAILED
                                   None None False) ''cancel_error'' target None None)))
      | _ \<Rightarrow> \<lparr>ke_events = emit_error (kw_fresh W) (unknown (rc_task_id context))
                 (unknown (rc_context_id context)) ''Missing task_id or context_id in request context''
                 TASK_STATE_FAILED None None False,
              ke_outcome = ''invalid_request_context'', ke_registry = reg, ke_manager = m,
              ke_abort = None, ke_cancelled = None, ke_inflight = None\<rparr>)"

text \<open>The conversation a cancellation forgets: that of the running execution, if there is one.\<close>

definition cancel_conversation :: "request_context \<Rightarrow> execution_key \<Rightarrow> registry \<Rightarrow> string \<times> string" where
  "cancel_conversation ctx key reg =
     (case map_of (rg_requests reg) key of None \<Rightarrow> request_identity ctx | Some r \<Rightarrow> rx_identity r,
      case map_of (rg_sessions reg) key of None \<Rightarrow> snd key | Some s \<Rightarrow> rs_binding_context_id s)"

text \<open>What a cancellation can do, whatever becomes of the abort call.\<close>

definition cancel_target :: "execution_key \<Rightarrow> registry \<Rightarrow> (string \<times> string option \<times> string option) option" where
  "cancel_target key reg =
     map_option (\<lambda>s. (rs_session_id s, rs_directory s, rs_workspace_id s)) (map_of (rg_sessions reg) key)"

lemma cancel_effects_cases:
  assumes "nonempty (rc_task_id ctx) = Some t" and "nonempty (rc_context_id ctx) = Some c"
    and "cancel R W ctx reg m = k"
  shows "ke_registry k = stop_running (t, c) reg"
    and "ke_manager k = snd (pop_cached_session R (fst (cancel_conversation ctx (t, c) reg))
           (snd (cancel_conversation ctx (t, c) reg)) m)"
    and "ke_cancelled k \<in> {None, map_option rx_task (map_of (rg_requests reg) (t, c))}"
    and "ke_abort k \<in> {None, cancel_target (t, c) reg}"
    and "\<exists>e es. ke_events k = PStatus e # es \<and> se_state e = TASK_STATE_CANCELED \<and> se_task_id e = t"
  using assms
  by (auto simp: cancel_def Let_def cancel_target_def cancel_conversation_def case_prod_unfold
      split: option.splits sum.splits if_splits)

lemma stop_running_other: "key \<noteq> k \<Longrightarrow> map_of (rg_requests (stop_running k reg)) key = map_of (rg_requests reg) key"
  by (simp add: stop_running_def split: option.split)

lemma popped_binding:
  assumes "ms_inv now (sm_repo m)"
  shows "ms_binding now (sm_repo (snd (pop_cached_session mem_session_repo_ops i c m))) =
    (ms_binding now (sm_repo m))((i, c) := None)"
  using mem.pop_session [OF assms refl, of i c] by (simp add: pop_cached_session_def Let_def)

text \<open>
  A cancellation reaches one execution only, the one registered under the task and context
  of the request: no other is stopped or has its stop event set, the session that is aborted is
  the one that execution holds, with its directory and workspace, and of all conversations only
  its own loses its cached session. The task is reported as cancelled first.
\<close>

theorem cancel_hits_its_execution:
  fixes m :: "mem_session_repo session_manager"
  assumes "rc_task_id ctx = Some t" and "rc_context_id ctx = Some c" and "t \<noteq> []" and "c \<noteq> []"
    and "cancel mem_session_repo_ops W ctx reg m = k" and "ms_inv now (sm_repo m)"
  shows "(\<exists>e es. ke_events k = PStatus e # es \<and> se_state e = TASK_STATE_CANCELED \<and> se_task_id e = t) \<and>
    (\<forall>x. ke_cancelled k = Some x \<longrightarrow> (\<exists>r. map_of (rg_requests reg) (t, c) = Some r \<and> rx_task r = x)) \<and>
    (\<forall>sid d w. ke_abort k = Some (sid, d, w) \<longrightarrow> (\<exists>s. map_of (rg_sessions reg) (t, c) = Some s \<and>
       sid = rs_session_id s \<and> d = rs_directory s \<and> w = rs_workspace_id s)) \<and>
    (\<forall>key. key \<noteq> (t, c) \<longrightarrow>
       map_of (rg_requests (ke_registry k)) key = map_of (rg_requests reg) key) \<and>
    ms_binding now (sm_repo (ke_manager k)) =
      (ms_binding now (sm_repo m))(cancel_conversation ctx (t, c) reg := None)"
proof (intro conjI)
  have ids: "nonempty (rc_task_id ctx) = Some t" "nonempty (rc_context_id ctx) = Some c"
    using assms(1-4) by (simp_all add: nonempty_def)
  note f = cancel_effects_cases [OF ids assms(5)]
  show "\<exists>e es. ke_events k = PStatus e # es \<and> se_state e = TASK_STATE_CANCELED \<and> se_task_id e = t"
    by (rule f(5))
  show "\<forall>x. ke_cancelled k = Some x \<longrightarrow> (\<exists>r. map_of (rg_requests reg) (t, c) = Some r \<and> rx_task r = x)"
    using f(3) by auto
  show "\<forall>sid d w. ke_abort k = Some (sid, d, w) \<longrightarrow> (\<exists>s. map_of (rg_sessions reg) (t, c) = Some s \<and>
      sid = rs_session_id s \<and> d = rs_directory s \<and> w = rs_workspace_id s)"
    using f(4) by (auto simp: cancel_target_def)
  show "\<forall>key. key \<noteq> (t, c) \<longrightarrow> map_of (rg_requests (ke_registry k)) key = map_of (rg_requests reg) key"
    by (simp add: f(1) stop_running_other)
  show "ms_binding now (sm_repo (ke_manager k)) =
      (ms_binding now (sm_repo m))(cancel_conversation ctx (t, c) reg := None)"
    by (simp add: f(2) popped_binding [OF assms(6)])
qed


definition sample_registry :: registry where
  "sample_registry =
     \<lparr>rg_requests = [((''t'', ''c''), \<lparr>rx_task = 7, rx_stop = False, rx_identity = ''me''\<rparr>)],
      rg_sessions = [((''t'', ''c''), \<lparr>rs_session_id = ''s'', rs_directory = None, rs_workspace_id = None,
                                      rs_binding_context_id = ''c''\<rparr>)]\<rparr>"

theorem cancel_hits_its_execution_witness:
  "ke_cancelled (cancel mem_session_repo_ops
      \<lparr>kw_alive = (\<lambda>_. True), kw_abort = (\<lambda>_ _ _. None), kw_fresh = ''m''\<rparr>
      (directory_request ''d'') sample_registry (fresh_manager (mem_session_init 60 10 30))) \<in> {None, Some 7}"
  (is "ke_cancelled ?k \<in> _")
proof -
  have "rc_task_id (directory_request ''d'') = Some ''t''" "rc_context_id (directory_request ''d'') = Some ''c''"
    by (simp_all add: directory_request_def)
  from cancel_hits_its_execution [OF this _ _ refl, of 0 "fresh_manager (mem_session_init 60 10 30)"
      "\<lparr>kw_alive = (\<lambda>_. True), kw_abort = (\<lambda>_ _ _. None), kw_fresh = ''m''\<rparr>" sample_registry]
  have "\<forall>x. ke_cancelled ?k = Some x \<longrightarrow>
      (\<exists>r. map_of (rg_requests sample_registry) (''t'', ''c'') = Some r \<and> rx_task r = x)"
    by (simp add: fresh_manager_def ms_init_inv)
  then show ?thesis by (cases "ke_cancelled ?k") (auto simp: sample_registry_def)
qed

end
