(* ===== verification/Runtime_Limits.thy ===== *)
theory Runtime_Limits
  imports Py_Json
begin

text \<open>
  Admission control (\<open>server/runtime_limits.py\<close>): the sliding-window rate limiter and the
  budget of a streaming response. The reading of the clock is an argument of each operation.
\<close>

section \<open>The rate limiter\<close>

record rate_limiter =
  rl_max_requests :: nat
  rl_window_seconds :: seconds
  rl_max_keys :: nat
  rl_entries :: "(string \<times> seconds list) list"

definition rate_limiter_init :: "int \<Rightarrow> seconds \<Rightarrow> int \<Rightarrow> rate_limiter option" where
  "rate_limiter_init max_requests window_seconds max_keys =
     (if max_requests \<le> 0 \<or> window_seconds \<le> 0 \<or> max_keys \<le> 0 then None
      else Some \<lparr>rl_max_requests = nat max_requests, rl_window_seconds = window_seconds,
                 rl_max_keys = nat max_keys, rl_entries = []\<rparr>)"

definition rl_prune :: "rate_limiter \<Rightarrow> seconds \<Rightarrow> seconds list \<Rightarrow> seconds list" where
  "rl_prune L now entries = dropWhile (\<lambda>t. rl_window_seconds L \<le> now - t) entries"

definition rl_bucket :: "rate_limiter \<Rightarrow> string \<Rightarrow> seconds list" where
  "rl_bucket L key = (case map_of (rl_entries L) key of None \<Rightarrow> [] | Some b \<Rightarrow> b)"

definition rl_evict_if_needed :: "rate_limiter \<Rightarrow> rate_limiter" where
  "rl_evict_if_needed L =
     (if length (rl_entries L) \<le> rl_max_keys L then L
      else L\<lparr>rl_entries := tl (rl_entries L)\<rparr>)"

definition check_and_record :: "seconds \<Rightarrow> string \<Rightarrow> rate_limiter \<Rightarrow> bool \<times> rate_limiter" where
  "check_and_record now key L =
     (let entries = rl_prune L now (rl_bucket L key);
          L1 = L\<lparr>rl_entries := dset key entries (rl_entries L)\<rparr>
      in if rl_max_requests L \<le> length entries then (False, L1)
         else (True, rl_evict_if_needed
                       (L\<lparr>rl_entries := dset key (entries @ [now]) (rl_entries L)\<rparr>)))"

definition retry_after :: "seconds \<Rightarrow> string \<Rightarrow> rate_limiter \<Rightarrow> seconds \<times> rate_limiter" where
  "retry_after now key L =
     (if rl_bucket L key = [] then (rl_window_seconds L, L)
      else (let entries = rl_prune L now (rl_bucket L key);
                L1 = L\<lparr>rl_entries := dset key entries (rl_entries L)\<rparr>
            in if entries = [] then (rl_window_seconds L, L1)
               else (max 0 (hd entries + rl_window_seconds L - now), L1)))"

text \<open>The answer to a refused request: its status and its headers.\<close>

definition build_rate_limit_response :: "seconds \<Rightarrow> int \<times> (string \<times> string) list \<times> mapping" where
  "build_rate_limit_response retry_after_seconds =
     (429, [(''Retry-After'', str_int (max 1 \<lceil>retry_after_seconds\<rceil>)), (''Cache-Control'', ''no-store'')],
      [(''error'', PStr ''Too many requests'')])"

section \<open>The budget of a stream\<close>

definition utf8_length :: "string \<Rightarrow> nat" where
  "utf8_length s = sum_list (map (\<lambda>c. if (of_char c :: nat) < 128 then 1 else 2) s)"

definition json_event_size :: "(rat \<Rightarrow> string) \<Rightarrow> pyval \<Rightarrow> nat" where
  "json_event_size fr item = utf8_length (json_dumps fr False False item) + 32"

record stream_budget =
  sb_max_bytes :: int
  sb_max_duration_seconds :: seconds
  sb_idle_timeout_seconds :: seconds

datatype budget_verdict = StreamDone | StreamBudgetExceeded string | StreamOpen

text \<open>
  The wrapped stream: an event with the pause before it, the end after a pause, or silence for
  ever. The result is what was yielded, each event with its time, and how the stream ended;
  \<open>StreamOpen\<close> is a consumer that waits for ever.
\<close>

datatype 'e upstream_item = After seconds 'e | EndAfter seconds

fun apply_stream_budget ::
    "stream_budget \<Rightarrow> ('e \<Rightarrow> nat) \<Rightarrow> seconds \<Rightarrow> seconds option \<Rightarrow> nat \<Rightarrow> 'e upstream_item list
       \<Rightarrow> (seconds \<times> 'e) list \<times> budget_verdict" where
  "apply_stream_budget B size_of now started_at total_bytes [] =
     ([], if 0 < sb_idle_timeout_seconds B then StreamBudgetExceeded ''idle timeout'' else StreamOpen)"
| "apply_stream_budget B size_of now started_at total_bytes (EndAfter gap # _) =
     ([], if 0 < sb_idle_timeout_seconds B \<and> sb_idle_timeout_seconds B < gap
          then StreamBudgetExceeded ''idle timeout'' else StreamDone)"
| "apply_stream_budget B size_of now started_at total_bytes (After gap event # items) =
     (if 0 < sb_idle_timeout_seconds B \<and> sb_idle_timeout_seconds B < gap
      then ([], StreamBudgetExceeded ''idle timeout'')
      else (let now1 = now + gap;
                timed = 0 < sb_max_duration_seconds B;
                late = (case started_at of
                          None \<Rightarrow> False | Some s \<Rightarrow> timed \<and> sb_max_duration_seconds B \<le> now1 - s);
                started1 = (if timed \<and> started_at = None then Some now1 else started_at);
                total1 = (if 0 < sb_max_bytes B then total_bytes + size_of event else total_bytes)
            in if late then ([], StreamBudgetExceeded ''duration budget'')
               else if 0 < sb_max_bytes B \<and> sb_max_bytes B < int total1
               then ([], StreamBudgetExceeded ''byte budget'')
               else (let (ys, v) = apply_stream_budget B size_of now1 started1 total1 items
                     in ((now1, event) # ys, v))))"

section \<open>The limiter against its specification\<close>

text \<open>
  The specification keeps the whole log of admitted requests: a request is admitted when fewer
  than the limit were admitted for its key within the window that ends now.
\<close>

definition recent :: "seconds \<Rightarrow> seconds \<Rightarrow> seconds list \<Rightarrow> seconds list" where
  "recent window now ts = filter (\<lambda>t. now - t < window) ts"

fun spec_decisions ::
    "nat \<Rightarrow> seconds \<Rightarrow> (seconds \<times> string) list \<Rightarrow> (string \<Rightarrow> seconds list) \<Rightarrow> bool list" where
  "spec_decisions limit window [] admitted = []"
| "spec_decisions limit window ((now, key) # rs) admitted =
     (if length (recent window now (admitted key)) < limit
      then True # spec_decisions limit window rs (admitted(key := admitted key @ [now]))
      else False # spec_decisions limit window rs admitted)"

fun limiter_decisions :: "(seconds \<times> string) list \<Rightarrow> rate_limiter \<Rightarrow> bool list" where
  "limiter_decisions [] L = []"
| "limiter_decisions ((now, key) # rs) L =
     (let (admitted, L') = check_and_record now key L in admitted # limiter_decisions rs L')"

text \<open>The table never holds more keys than allowed, and each key once.\<close>

definition rl_ok :: "rate_limiter \<Rightarrow> bool" where
  "rl_ok L \<longleftrightarrow> 0 < rl_max_requests L \<and> 0 < rl_max_keys L \<and> 0 < rl_window_seconds L \<and>
     wf_dict (rl_entries L) \<and> length (rl_entries L) \<le> rl_max_keys L \<and>
     (\<forall>(key, b) \<in> set (rl_entries L). sorted b \<and> length b \<le> rl_max_requests L)"

definition rl_before :: "rate_limiter \<Rightarrow> seconds \<Rightarrow> bool" where
  "rl_before L now \<longleftrightarrow> (\<forall>(key, b) \<in> set (rl_entries L). \<forall>t \<in> set b. t \<le> now)"

lemma prune_recent: "sorted b \<Longrightarrow> rl_prune L now b = recent (rl_window_seconds L) now b"
proof (induction b)
  case (Cons t b)
  show ?case
  proof (cases "rl_window_seconds L \<le> now - t")
    case True
    with Cons show ?thesis by (simp add: rl_prune_def recent_def)
  next
    case False
    have "filter (\<lambda>u. now - u < rl_window_seconds L) b = b"
      using Cons.prems False by (intro filter_True) fastforce
    with False show ?thesis by (simp add: rl_prune_def recent_def)
  qed
qed (simp add: rl_prune_def recent_def)

lemma in_tl: "x \<in> set (tl xs) \<Longrightarrow> x \<in> set xs"
  by (cases xs) auto

lemma recent_recent: "now \<le> t \<Longrightarrow> recent w t (recent w now b) = recent w t b"
  by (auto simp: recent_def intro: filter_cong)

lemma recent_append [simp]: "recent w t (a @ b) = recent w t a @ recent w t b"
  by (simp add: recent_def)

lemma bucket_ok:
  assumes "rl_ok L"
  shows "sorted (rl_bucket L key)" and "length (rl_bucket L key) \<le> rl_max_requests L"
    and "rl_before L now \<Longrightarrow> t \<in> set (rl_bucket L key) \<Longrightarrow> t \<le> now"
proof -
  have "rl_bucket L key = [] \<or> (key, rl_bucket L key) \<in> set (rl_entries L)"
    by (cases "map_of (rl_entries L) key") (auto simp: rl_bucket_def dest: map_of_SomeD)
  with assms show "sorted (rl_bucket L key)" "length (rl_bucket L key) \<le> rl_max_requests L"
    "rl_before L now \<Longrightarrow> t \<in> set (rl_bucket L key) \<Longrightarrow> t \<le> now"
    by (auto simp: rl_ok_def rl_before_def)
qed

lemma rl_ok_dset:
  assumes "rl_ok L" and "sorted b" and "length b \<le> rl_max_requests L"
  shows "rl_ok (rl_evict_if_needed (L\<lparr>rl_entries := dset key b (rl_entries L)\<rparr>))"
proof -
  let ?d = "dset key b (rl_entries L)"
  have "\<forall>(k, c) \<in> set ?d. sorted c \<and> length c \<le> rl_max_requests L"
    using assms set_dset [of key b "rl_entries L"] by (auto simp: rl_ok_def)
  moreover have "length ?d \<le> Suc (length (rl_entries L))" by (simp add: length_dset)
  moreover have "wf_dict ?d" using assms(1) by (auto simp: rl_ok_def)
  ultimately show ?thesis
    using assms(1) by (auto simp: rl_ok_def rl_evict_if_needed_def distinct_tl map_tl dest: in_tl)
qed

lemma rl_before_dset:
  "rl_before L now \<Longrightarrow> \<forall>t \<in> set b. t \<le> now \<Longrightarrow>
     rl_before (rl_evict_if_needed (L\<lparr>rl_entries := dset key b (rl_entries L)\<rparr>)) now"
  using set_dset [of key b "rl_entries L"]
  by (auto simp: rl_before_def rl_evict_if_needed_def dest!: in_tl)

lemma rl_evict_fields [simp]:
  "rl_max_requests (rl_evict_if_needed L) = rl_max_requests L"
  "rl_window_seconds (rl_evict_if_needed L) = rl_window_seconds L"
  "rl_max_keys (rl_evict_if_needed L) = rl_max_keys L"
  by (simp_all add: rl_evict_if_needed_def)

text \<open>A refusal leaves the number of keys as it is: the key was in the table.\<close>

lemma refused_no_evict:
  assumes "rl_ok L" and "rl_max_requests L \<le> length (rl_prune L now (rl_bucket L key))"
  shows "rl_evict_if_needed (L\<lparr>rl_entries := dset key b (rl_entries L)\<rparr>) =
    L\<lparr>rl_entries := dset key b (rl_entries L)\<rparr>"
proof -
  have "rl_bucket L key \<noteq> []" using assms by (auto simp: rl_ok_def rl_prune_def)
  then have "map_of (rl_entries L) key \<noteq> None" by (auto simp: rl_bucket_def split: option.splits)
  then have "length (dset key b (rl_entries L)) = length (rl_entries L)"
    by (auto simp: length_dset)
  with assms(1) show ?thesis by (simp add: rl_evict_if_needed_def rl_ok_def)
qed

lemma check_ok:
  assumes ok: "rl_ok L" and past: "rl_before L now" and run: "check_and_record now key L = (adm, L')"
  shows "rl_ok L'" and "rl_before L' now"
    and "adm \<longleftrightarrow> length (recent (rl_window_seconds L) now (rl_bucket L key)) < rl_max_requests L"
    and "rl_max_requests L' = rl_max_requests L" and "rl_window_seconds L' = rl_window_seconds L"
    and "rl_max_keys L' = rl_max_keys L"
proof -
  let ?p = "rl_prune L now (rl_bucket L key)"
  have p: "?p = recent (rl_window_seconds L) now (rl_bucket L key)"
    by (rule prune_recent [OF bucket_ok(1) [OF ok]])
  have old: "\<forall>t \<in> set ?p. t \<le> now" using bucket_ok(3) [OF ok past] by (auto simp: p recent_def)
  have srt: "sorted ?p" using bucket_ok(1) [OF ok] by (simp add: p recent_def sorted_wrt_filter)
  have len: "length ?p \<le> rl_max_requests L"
    using le_trans [OF length_filter_le bucket_ok(2) [OF ok]] by (simp add: p recent_def)
  define b where "b = (if rl_max_requests L \<le> length ?p then ?p else ?p @ [now])"
  have L': "L' = rl_evict_if_needed (L\<lparr>rl_entries := dset key b (rl_entries L)\<rparr>)"
    using run refused_no_evict [OF ok] by (auto simp: check_and_record_def Let_def b_def split: if_splits)
  have b: "sorted b" "length b \<le> rl_max_requests L" "\<forall>t \<in> set b. t \<le> now"
    using srt len old by (auto simp: b_def sorted_append)
  show "rl_ok L'" unfolding L' by (rule rl_ok_dset [OF ok b(1,2)])
  show "rl_before L' now" unfolding L' by (rule rl_before_dset [OF past b(3)])
  show "adm \<longleftrightarrow> length (recent (rl_window_seconds L) now (rl_bucket L key)) < rl_max_requests L"
    using run by (auto simp: check_and_record_def Let_def p split: if_splits)
  show "rl_max_requests L' = rl_max_requests L" "rl_window_seconds L' = rl_window_seconds L"
    "rl_max_keys L' = rl_max_keys L" by (simp_all add: L')
qed

text \<open>The buckets and the log agree about everything that can still be recent.\<close>

definition rl_sim :: "rate_limiter \<Rightarrow> seconds \<Rightarrow> (string \<Rightarrow> seconds list) \<Rightarrow> bool" where
  "rl_sim L now admitted \<longleftrightarrow> (\<forall>key t. now \<le> t \<longrightarrow>
     recent (rl_window_seconds L) t (rl_bucket L key) = recent (rl_window_seconds L) t (admitted key))"

lemma bucket_dset:
  "length (dset key b (rl_entries L)) \<le> rl_max_keys L \<Longrightarrow>
   rl_bucket (rl_evict_if_needed (L\<lparr>rl_entries := dset key b (rl_entries L)\<rparr>)) k =
     (if k = key then b else rl_bucket L k)"
  by (auto simp: rl_bucket_def rl_evict_if_needed_def)

lemma check_sim:
  assumes ok: "rl_ok L" and past: "rl_before L now" and sim: "rl_sim L now admitted"
    and run: "check_and_record now key L = (adm, L')"
    and room: "length (dset key [] (rl_entries L)) \<le> rl_max_keys L"
  shows "adm \<longleftrightarrow> length (recent (rl_window_seconds L) now (admitted key)) < rl_max_requests L"
    and "rl_sim L' now (if adm then admitted(key := admitted key @ [now]) else admitted)"
proof -
  let ?p = "rl_prune L now (rl_bucket L key)"
  have p: "?p = recent (rl_window_seconds L) now (rl_bucket L key)"
    by (rule prune_recent [OF bucket_ok(1) [OF ok]])
  show adm: "adm \<longleftrightarrow> length (recent (rl_window_seconds L) now (admitted key)) < rl_max_requests L"
    using check_ok(3) [OF ok past run] sim by (simp add: rl_sim_def)
  have room': "length (dset key b (rl_entries L)) \<le> rl_max_keys L" for b
    using room by (simp add: length_dset)
  define b where "b = (if adm then ?p @ [now] else ?p)"
  have L': "L' = rl_evict_if_needed (L\<lparr>rl_entries := dset key b (rl_entries L)\<rparr>)"
    using run refused_no_evict [OF ok] by (auto simp: check_and_record_def Let_def b_def split: if_splits)
  show "rl_sim L' now (if adm then admitted(key := admitted key @ [now]) else admitted)"
    using sim by (auto simp: rl_sim_def L' bucket_dset [OF room'] b_def p recent_recent)
qed

definition rl_keys_in :: "rate_limiter \<Rightarrow> string set \<Rightarrow> bool" where
  "rl_keys_in L K \<longleftrightarrow> fst ` set (rl_entries L) \<subseteq> K"

lemma room_for_key:
  assumes "rl_ok L" and "rl_keys_in L K" and "key \<in> K" and "finite K" and "card K \<le> rl_max_keys L"
  shows "length (dset key b (rl_entries L)) \<le> rl_max_keys L"
    and "rl_keys_in (L\<lparr>rl_entries := dset key b (rl_entries L)\<rparr>) K"
proof -
  have sub: "fst ` set (dset key b (rl_entries L)) \<subseteq> K"
    using assms(2,3) set_dset [of key b "rl_entries L"] by (force simp: rl_keys_in_def)
  then show "rl_keys_in (L\<lparr>rl_entries := dset key b (rl_entries L)\<rparr>) K" by (simp add: rl_keys_in_def)
  have "wf_dict (dset key b (rl_entries L))" using assms(1) by (auto simp: rl_ok_def)
  then have "length (dset key b (rl_entries L)) = card (fst ` set (dset key b (rl_entries L)))"
    by (metis distinct_card length_map list.set_map)
  also have "\<dots> \<le> card K" by (rule card_mono [OF assms(4) sub])
  finally show "length (dset key b (rl_entries L)) \<le> rl_max_keys L" using assms(5) by simp
qed

lemma limiter_meets_spec:
  assumes "rl_ok L" and "rl_sim L now admitted" and "rl_before L now"
    and "sorted (now # map fst rs)" and "finite K" and "card K \<le> rl_max_keys L"
    and "rl_keys_in L K" and "snd ` set rs \<subseteq> K"
  shows "limiter_decisions rs L =
    spec_decisions (rl_max_requests L) (rl_window_seconds L) rs admitted"
  using assms
proof (induction rs arbitrary: L now admitted)
  case (Cons r rs)
  obtain t key where r: "r = (t, key)" by (cases r)
  have t: "now \<le> t" and key: "key \<in> K" and rest: "sorted (t # map fst rs)" "snd ` set rs \<subseteq> K"
    using Cons.prems by (auto simp: r)
  have past: "rl_before L t" and sim: "rl_sim L t admitted"
    using Cons.prems(2,3) t by (fastforce simp: rl_before_def rl_sim_def)+
  obtain adm L' where run: "check_and_record t key L = (adm, L')" by fastforce
  note room = room_for_key [OF Cons.prems(1,7) key Cons.prems(5,6)]
  note c = check_ok [OF Cons.prems(1) past run] and s = check_sim [OF Cons.prems(1) past sim run room(1)]
  have "rl_keys_in L' K"
    using run room refused_no_evict [OF Cons.prems(1)]
    by (auto simp: check_and_record_def Let_def rl_evict_if_needed_def split: if_splits)
  from Cons.IH [OF c(1) s(2) c(2) rest(1) Cons.prems(5) _ this rest(2)] Cons.prems(6) c(4-6) s(1) run
  show ?case by (simp add: r)
qed simp

section \<open>Properties\<close>

text \<open>
  C15. The limiter admits exactly what the specification admits that remembers every request:
  pruning loses nothing, as long as no more keys are in use than the table holds and the clock
  does not run backwards.
\<close>

theorem limiter_refines_log:
  assumes "rate_limiter_init limit window keys = Some L" and "sorted (map fst rs)"
    and "card (snd ` set rs) \<le> nat keys"
  shows "limiter_decisions rs L = spec_decisions (nat limit) window rs (\<lambda>_. [])"
proof (cases rs)
  case (Cons r rs')
  have L: "L = \<lparr>rl_max_requests = nat limit, rl_window_seconds = window, rl_max_keys = nat keys,
      rl_entries = []\<rparr>" "0 < limit" "0 < window" "0 < keys"
    using assms(1) by (auto simp: rate_limiter_init_def split: if_splits)
  have "limiter_decisions rs L = spec_decisions (rl_max_requests L) (rl_window_seconds L) rs (\<lambda>_. [])"
    by (rule limiter_meets_spec [where now = "fst r" and K = "snd ` set rs"])
      (use L assms(2,3) in \<open>simp_all add: rl_ok_def rl_sim_def rl_before_def rl_keys_in_def rl_bucket_def Cons\<close>)
  with L show ?thesis by simp
qed simp

theorem limiter_refines_log_witness:
  "let L = the (rate_limiter_init 2 10 5)
   in limiter_decisions [(0, ''a''), (1, ''a''), (2, ''a''), (3, ''b''), (11, ''a'')] L
        = [True, True, False, True, True]"
proof -
  let ?rs = "[(0, ''a''), (1, ''a''), (2, ''a''), (3, ''b''), (11, ''a'')] :: (seconds \<times> string) list"
  obtain L where L: "rate_limiter_init 2 10 5 = Some L" by (simp add: rate_limiter_init_def)
  have "card (snd ` set ?rs) \<le> nat 5" by (simp add: card_insert_if)
  from limiter_refines_log [OF L _ this] show ?thesis
    by (simp add: L recent_def)
qed

text \<open>A refused bucket is full, and its oldest entry leaves after the announced time.\<close>

lemma retry_frees_a_place:
  assumes ok: "rl_ok L" and p: "p = rl_prune L now (rl_bucket L key)"
    and full: "rl_max_requests L \<le> length p"
  shows "0 < hd p + rl_window_seconds L - now"
    and "hd p + rl_window_seconds L \<le> t \<Longrightarrow> length (rl_prune L t p) < rl_max_requests L"
proof -
  have len: "length p = rl_max_requests L" and srt: "sorted p"
    using full bucket_ok(1,2) [OF ok] le_trans [OF length_filter_le bucket_ok(2) [OF ok]]
    by (simp_all add: p prune_recent recent_def sorted_wrt_filter le_antisym)
  obtain a b where ab: "p = a # b" using len ok by (cases p) (auto simp: rl_ok_def)
  have "hd p \<in> set (recent (rl_window_seconds L) now (rl_bucket L key))"
    unfolding prune_recent [OF bucket_ok(1) [OF ok], symmetric] p [symmetric] by (simp add: ab)
  then show "0 < hd p + rl_window_seconds L - now" by (simp add: recent_def)
  assume t: "hd p + rl_window_seconds L \<le> t"
  have "length (rl_prune L t p) = length (recent (rl_window_seconds L) t b)"
    using prune_recent [OF srt] t by (simp add: ab recent_def)
  also have "\<dots> \<le> length b" by (simp add: recent_def)
  finally show "length (rl_prune L t p) < rl_max_requests L" using len by (simp add: ab)
qed

text \<open>
  The announced waiting time is right: a refused client that waits for it, and sends
  nothing else meanwhile, is admitted; and the wait is positive and no longer than the window.
\<close>

theorem retry_after_is_enough:
  assumes "rl_ok L" and "rl_before L now" and "check_and_record now key L = (False, L1)"
    and "retry_after now key L1 = (w, L2)"
  shows "0 < w \<and> w \<le> rl_window_seconds L \<and> fst (check_and_record (now + w) key L2)"
proof -
  define p where "p = rl_prune L now (rl_bucket L key)"
  have full: "rl_max_requests L \<le> length p" and L1: "L1 = L\<lparr>rl_entries := dset key p (rl_entries L)\<rparr>"
    using assms(3) by (auto simp: check_and_record_def Let_def p_def split: if_splits)
  have b1: "rl_bucket L1 key = p" by (simp add: L1 rl_bucket_def)
  have ne: "p \<noteq> []" using full assms(1) by (auto simp: rl_ok_def)
  note free = retry_frees_a_place [OF assms(1) p_def full]
  have p_old: "hd p \<le> now"
  proof -
    have "hd p \<in> set p" using ne by simp
    then have "hd p \<in> set (rl_bucket L key)" unfolding p_def rl_prune_def by (rule set_dropWhileD)
    then show ?thesis by (rule bucket_ok(3) [OF assms(1,2)])
  qed
  have again: "rl_prune L1 now p = p"
    using free(1) by (cases p) (simp_all add: L1 rl_prune_def)
  have w: "w = hd p + rl_window_seconds L - now" and L2: "rl_bucket L2 key = p"
    "rl_max_requests L2 = rl_max_requests L" "rl_window_seconds L2 = rl_window_seconds L"
    using assms(4) ne again free(1) by (auto simp: retry_after_def b1 Let_def rl_bucket_def L1)
  have "length (rl_prune L2 (now + w) p) < rl_max_requests L"
    using free(2) [of "now + w"] by (simp add: w rl_prune_def L2(3))
  then show ?thesis using free(1) p_old
    by (simp add: check_and_record_def Let_def L2 w)
qed

theorem retry_after_is_enough_witness:
  "let L0 = the (rate_limiter_init 1 10 5);
       L = snd (check_and_record 3 ''a'' L0);
       L1 = snd (check_and_record 5 ''a'' L);
       (w, L2) = retry_after 5 ''a'' L1
   in w = 8 \<and> fst (check_and_record (5 + w) ''a'' L2)"
proof -
  define L where "L = snd (check_and_record 3 ''a'' (the (rate_limiter_init 1 10 5)))"
  have L: "L = \<lparr>rl_max_requests = 1, rl_window_seconds = 10, rl_max_keys = 5, rl_entries = [(''a'', [3])]\<rparr>"
    unfolding L_def by code_simp
  define L1 where "L1 = snd (check_and_record 5 ''a'' L)"
  have "fst (check_and_record 5 ''a'' L) = False" unfolding L by code_simp
  then have L1: "check_and_record 5 ''a'' L = (False, L1)" by (simp add: L1_def prod_eq_iff)
  obtain w L2 where r: "retry_after 5 ''a'' L1 = (w, L2)" by fastforce
  have "rl_ok L" "rl_before L 5" by (simp_all add: L rl_ok_def rl_before_def)
  note enough = retry_after_is_enough [OF this L1 r]
  have "fst (retry_after 5 ''a'' (snd (check_and_record 5 ''a'' L))) = 8" unfolding L by code_simp
  then have "w = 8" using r by (simp add: L1_def)
  with enough r L1 show ?thesis by (simp add: L_def [symmetric] Let_def)
qed

section \<open>Streams within their budget\<close>

lemma budget_bytes:
  assumes "0 < sb_max_bytes B" and "apply_stream_budget B size_of now started used items = (ys, v)"
    and "int used \<le> sb_max_bytes B"
  shows "int (used + sum_list (map (size_of \<circ> snd) ys)) \<le> sb_max_bytes B"
  using assms
proof (induction B size_of now started used items arbitrary: ys rule: apply_stream_budget.induct)
  case (3 B size_of now started used gap event items)
  then show ?case
    by (auto simp: Let_def add.assoc split: if_splits prod.splits)
qed auto

lemma budget_duration:
  assumes "0 < sb_max_duration_seconds B"
    and "apply_stream_budget B size_of now (Some s) used items = (ys, v)" and "y \<in> set ys"
  shows "fst y - s < sb_max_duration_seconds B"
  using assms
proof (induction items arbitrary: ys now used)
  case (Cons i items)
  then show ?case by (cases i) (fastforce simp: Let_def split: if_splits prod.splits)+
qed (auto split: if_splits)

text \<open>The events of a wrapped stream.\<close>

fun stream_items :: "'e upstream_item list \<Rightarrow> 'e list" where
  "stream_items (After gap e # items) = e # stream_items items"
| "stream_items _ = []"

text \<open>
  A budgeted stream is a prefix of the wrapped one, its bytes never exceed the byte budget,
  no event is delivered later than the duration budget after the first, and it is cut only when
  a budget is configured.
\<close>

theorem stream_stays_within_budget:
  assumes "apply_stream_budget B size_of now None 0 items = (ys, v)"
  shows "(\<exists>rest. stream_items items = map snd ys @ rest \<and> (v = StreamDone \<longrightarrow> rest = [])) \<and>
    (0 < sb_max_bytes B \<longrightarrow> int (sum_list (map (size_of \<circ> snd) ys)) \<le> sb_max_bytes B) \<and>
    (0 < sb_max_duration_seconds B \<longrightarrow>
       (\<forall>y \<in> set ys. fst y - fst (hd ys) < sb_max_duration_seconds B)) \<and>
    (\<forall>reason. v = StreamBudgetExceeded reason \<longrightarrow> 0 < sb_max_bytes B \<or>
       0 < sb_max_duration_seconds B \<or> 0 < sb_idle_timeout_seconds B)"
proof (intro conjI impI)
  have "\<exists>rest. stream_items items = map snd ys @ rest \<and> (v = StreamDone \<longrightarrow> rest = [])"
    if "apply_stream_budget B size_of now st used items = (ys, v)" for st used
    using that
    by (induction B size_of now st used items arbitrary: ys rule: apply_stream_budget.induct)
      (auto simp: Let_def split: if_splits prod.splits)
  then show "\<exists>rest. stream_items items = map snd ys @ rest \<and> (v = StreamDone \<longrightarrow> rest = [])"
    using assms by blast
next
  assume "0 < sb_max_bytes B"
  from budget_bytes [OF this assms] this show "int (sum_list (map (size_of \<circ> snd) ys)) \<le> sb_max_bytes B"
    by simp
next
  assume d: "0 < sb_max_duration_seconds B"
  show "\<forall>y \<in> set ys. fst y - fst (hd ys) < sb_max_duration_seconds B"
  proof (cases items)
    case (Cons i rest)
    show ?thesis
    proof (cases "\<exists>gap e t ws. i = After gap e \<and> ys = (now + gap, e) # ws \<and>
        apply_stream_budget B size_of (now + gap) (Some (now + gap)) t rest = (ws, v)")
      case True
      with budget_duration [OF d] d show ?thesis by fastforce
    next
      case False
      then have "ys = []" using assms d unfolding Cons
        by (cases i) (auto simp: Let_def split: if_splits prod.splits)
      then show ?thesis by simp
    qed
  qed (use assms in \<open>auto split: if_splits\<close>)
next
  have "v = StreamBudgetExceeded reason \<longrightarrow> 0 < sb_max_bytes B \<or>
      0 < sb_max_duration_seconds B \<or> 0 < sb_idle_timeout_seconds B"
    if "apply_stream_budget B size_of now st used items = (ys, v)" for st used reason
    using that
    by (induction B size_of now st used items arbitrary: ys rule: apply_stream_budget.induct)
      (auto simp: Let_def split: if_splits prod.splits option.splits)
  then show "\<forall>reason. v = StreamBudgetExceeded reason \<longrightarrow> 0 < sb_max_bytes B \<or>
      0 < sb_max_duration_seconds B \<or> 0 < sb_idle_timeout_seconds B"
    using assms by blast
qed

theorem stream_stays_within_budget_witness:
  "apply_stream_budget \<lparr>sb_max_bytes = 5, sb_max_duration_seconds = 0, sb_idle_timeout_seconds = 0\<rparr>
     length 0 None 0 [After 1 ''abc'', After 1 ''de'', After 1 ''f''] =
       ([(1, ''abc''), (2, ''de'')], StreamBudgetExceeded ''byte budget'') \<and>
   int (sum_list (map (length \<circ> snd) [(1 :: seconds, ''abc''), (2, ''de'')])) \<le> 5"
proof -
  have run: "apply_stream_budget \<lparr>sb_max_bytes = 5, sb_max_duration_seconds = 0, sb_idle_timeout_seconds = 0\<rparr>
     length 0 None 0 [After 1 ''abc'', After 1 ''de'', After 1 ''f''] =
       ([(1, ''abc''), (2, ''de'')], StreamBudgetExceeded ''byte budget'')" by code_simp
  from stream_stays_within_budget [OF this] run show ?thesis by simp
qed

end
