(* ===== verification/Network_Policy.thy ===== *)
theory Network_Policy
  imports Py_Prelude
begin

text \<open>
  Which agents may be called (\<open>client/network_policy.py\<close>). The parts of a URL are those
  \<open>urllib.parse.urlsplit\<close> gives for the model's characters; resolving a name and reading an address
  (\<open>socket\<close>, \<open>ipaddress\<close>) are the fields of \<open>network\<close>.
\<close>

section \<open>The parts of a URL\<close>

record address =
  ad_version6 :: bool
  ad_is_private :: bool
  ad_is_loopback :: bool
  ad_is_link_local :: bool
  ad_is_reserved :: bool
  ad_is_multicast :: bool
  ad_is_unspecified :: bool

text \<open>\<open>getaddrinfo\<close>: the addresses of the sockets in their order, or the failure.\<close>

record network =
  nw_getaddrinfo :: "string \<Rightarrow> string list option"
  nw_ip_address :: "string \<Rightarrow> address option"

record split_url =
  su_scheme :: string
  su_netloc :: string

datatype policy_error =
    InvalidUrl string
  | A2ANetworkPolicyError string

text \<open>\<open>s.partition(c)\<close> and \<open>s.rpartition(c)\<close>: the two sides and whether \<open>c\<close> occurs.\<close>

definition partition_char :: "char \<Rightarrow> string \<Rightarrow> string \<times> bool \<times> string" where
  "partition_char c s =
     (if c \<in> set s then (before c s, True, drop (length (before c s) + 1) s) else (s, False, []))"

definition rpartition_char :: "char \<Rightarrow> string \<Rightarrow> string \<times> bool \<times> string" where
  "rpartition_char c s =
     (if c \<in> set s
      then (rev (drop (length (before c (rev s)) + 1) (rev s)), True, rev (before c (rev s)))
      else ([], False, s))"

definition is_ascii_alpha :: "char \<Rightarrow> bool" where
  "is_ascii_alpha c = (let n = (of_char c :: nat) in (65 \<le> n \<and> n \<le> 90) \<or> (97 \<le> n \<and> n \<le> 122))"

definition is_scheme_char :: "char \<Rightarrow> bool" where
  "is_scheme_char c \<longleftrightarrow>
     is_ascii_alpha c \<or> is_digit c \<or> c = CHR ''+'' \<or> c = CHR ''-'' \<or> c = CHR ''.''"

text \<open>What a bracketed host must be: an IPv6 address, or an address of a future version.\<close>

definition future_address :: "string \<Rightarrow> bool" where
  "future_address host =
     (case host of
        c # rest \<Rightarrow>
          (let hex = takeWhile (\<lambda>x. x \<in> set ''0123456789abcdefABCDEF'') rest;
               tail = drop (length hex) rest
           in c = CHR ''v'' \<and> hex \<noteq> [] \<and> startswith tail ''.'' \<and> 1 < length tail)
      | [] \<Rightarrow> False)"

definition bracketed_netloc_ok :: "network \<Rightarrow> string \<Rightarrow> bool" where
  "bracketed_netloc_ok nw netloc =
     (let (_, _, hostinfo) = rpartition_char CHR ''@'' netloc;
          (left, open_br, bracketed) = partition_char CHR ''['' hostinfo;
          (host, _, port) = (if open_br then partition_char CHR '']'' bracketed
                             else partition_char CHR '':'' hostinfo)
      in (open_br \<longrightarrow> left = [] \<and> (port = [] \<or> startswith port '':'')) \<and>
         (if startswith host ''v'' then future_address host
          else (case nw_ip_address nw host of None \<Rightarrow> False | Some a \<Rightarrow> ad_version6 a)))"

definition urlsplit :: "network \<Rightarrow> string \<Rightarrow> policy_error + split_url" where
  "urlsplit nw url =
     (let url = dropWhile (\<lambda>c. (of_char c :: nat) \<le> 32) url;
          url = filter (\<lambda>c. c \<noteq> CHR 0x09 \<and> c \<noteq> CHR 0x0D \<and> c \<noteq> CHR 0x0A) url;
          (name, colon, rest) = partition_char CHR '':'' url;
          (scheme, rest) =
            (if colon \<and> name \<noteq> [] \<and> is_ascii_alpha (hd name) \<and> (\<forall>c \<in> set name. is_scheme_char c)
             then (lower name, rest) else ([], url));
          netloc = (if startswith rest ''//''
                    then takeWhile (\<lambda>c. c \<notin> {CHR ''/'', CHR ''?'', CHR ''#''}) (drop 2 rest) else [])
      in if (CHR ''['' \<in> set netloc) \<noteq> (CHR '']'' \<in> set netloc) then Inl (InvalidUrl ''Invalid IPv6 URL'')
         else if CHR ''['' \<in> set netloc \<and> \<not> bracketed_netloc_ok nw netloc
         then Inl (InvalidUrl ''Invalid IPv6 URL'')
         else Inr \<lparr>su_scheme = scheme, su_netloc = netloc\<rparr>)"

definition url_hostname :: "string \<Rightarrow> string" where
  "url_hostname netloc =
     (let (_, _, hostinfo) = rpartition_char CHR ''@'' netloc;
          (_, open_br, bracketed) = partition_char CHR ''['' hostinfo;
          (host, _, _) = (if open_br then partition_char CHR '']'' bracketed
                          else partition_char CHR '':'' hostinfo);
          (name, percent, zone) = partition_char CHR ''%'' host
      in lower name @ (if percent then CHR ''%'' # zone else []))"

text \<open>\<open>parsed.username or parsed.password\<close>\<close>

definition url_has_userinfo :: "string \<Rightarrow> bool" where
  "url_has_userinfo netloc =
     (let (userinfo, found, _) = rpartition_char CHR ''@'' netloc;
          (username, _, password) = partition_char CHR '':'' userinfo
      in found \<and> (username \<noteq> [] \<or> password \<noteq> []))"

section \<open>The policy\<close>

record network_policy_decision =
  np_host :: string
  np_allowed_host :: bool
  np_credentials_allowed :: bool

text \<open>\<open>(s or "").strip().lower().rstrip(".")\<close>\<close>

definition normalize_host :: "string \<Rightarrow> string" where
  "normalize_host s = rstrip_char CHR ''.'' (lower (strip s))"

fun entry_matches :: "string \<Rightarrow> string \<Rightarrow> bool" where
  "entry_matches normalized entry =
     (if entry = [] then False
      else if startswith entry ''*.''
      then normalized \<noteq> drop 2 entry \<and> endswith normalized (drop 1 entry)
      else normalized = entry)"

definition matches_allowed_host :: "string \<Rightarrow> string list \<Rightarrow> bool" where
  "matches_allowed_host host allowed_hosts =
     (let normalized = normalize_host host
      in normalized \<noteq> [] \<and> (\<exists>raw \<in> set allowed_hosts. entry_matches normalized (normalize_host raw)))"

definition is_private_address :: "address \<Rightarrow> bool" where
  "is_private_address a \<longleftrightarrow> ad_is_private a \<or> ad_is_loopback a \<or> ad_is_link_local a \<or>
     ad_is_reserved a \<or> ad_is_multicast a \<or> ad_is_unspecified a"

definition resolve_host_addresses :: "network \<Rightarrow> string \<Rightarrow> policy_error + string list" where
  "resolve_host_addresses nw host =
     (case nw_getaddrinfo nw host of
        None \<Rightarrow> Inl (A2ANetworkPolicyError (''Agent URL host could not be resolved: '' @ py_repr_str host))
      | Some ips \<Rightarrow> Inr (fold (\<lambda>ip acc. if ip \<in> set acc then acc else acc @ [ip]) ips []))"

text \<open>The addresses that are private, in their order, or the address that cannot be read.\<close>

fun private_addresses :: "network \<Rightarrow> string list \<Rightarrow> policy_error + string list" where
  "private_addresses nw [] = Inr []"
| "private_addresses nw (ip # ips) =
     (case nw_ip_address nw ip of
        None \<Rightarrow> Inl (InvalidUrl (py_repr_str ip @ '' does not appear to be an IPv4 or IPv6 address''))
      | Some a \<Rightarrow>
          (case private_addresses nw ips of
             Inl e \<Rightarrow> Inl e
           | Inr found \<Rightarrow> Inr (if is_private_address a then ip # found else found)))"

definition check_addresses :: "network \<Rightarrow> string \<Rightarrow> policy_error + unit" where
  "check_addresses nw host =
     (case resolve_host_addresses nw host of
        Inl e \<Rightarrow> Inl e
      | Inr addresses \<Rightarrow>
          (case private_addresses nw addresses of
             Inl e \<Rightarrow> Inl e
           | Inr [] \<Rightarrow> Inr ()
           | Inr (ip # _) \<Rightarrow> Inl (A2ANetworkPolicyError (''Agent URL host '' @ py_repr_str host @
               '' resolves to a private/loopback address: '' @ ip))))"

definition host_allowlist :: "string list \<Rightarrow> string list" where
  "host_allowlist allowed_hosts =
     map normalize_host (filter (\<lambda>item. strip item \<noteq> []) allowed_hosts)"

definition validate_agent_url ::
    "network \<Rightarrow> string \<Rightarrow> string list \<Rightarrow> bool \<Rightarrow> policy_error + network_policy_decision" where
  "validate_agent_url nw agent_url allowed_hosts allow_private_hosts =
     (let normalized = strip agent_url
      in if normalized = [] then Inl (A2ANetworkPolicyError ''agent_url is required'')
         else
         (case urlsplit nw normalized of
            Inl e \<Rightarrow> Inl e
          | Inr parsed \<Rightarrow>
              let scheme = su_scheme parsed;
                  host = lower (strip (url_hostname (su_netloc parsed)));
                  allowlist = host_allowlist allowed_hosts;
                  matched = matches_allowed_host host allowlist
              in if scheme \<noteq> ''http'' \<and> scheme \<noteq> ''https''
                 then Inl (A2ANetworkPolicyError (''Agent URL scheme must be http or https, got '' @
                   (if scheme = [] then ''empty'' else scheme)))
                 else if host = [] then Inl (A2ANetworkPolicyError ''Agent URL must include a host'')
                 else if url_has_userinfo (su_netloc parsed)
                 then Inl (A2ANetworkPolicyError ''Agent URL must not include userinfo credentials'')
                 else if allowlist \<noteq> [] \<and> \<not> matched
                 then Inl (A2ANetworkPolicyError (''Agent URL host '' @ py_repr_str host @
                   '' is not allowed by A2A_CLIENT_ALLOWED_HOSTS''))
                 else
                 (case (if allow_private_hosts then Inr () else check_addresses nw host) of
                    Inl e \<Rightarrow> Inl e
                  | Inr _ \<Rightarrow> Inr \<lparr>np_host = host, np_allowed_host = matched,
                      np_credentials_allowed = (allowlist \<noteq> [] \<and> matched)\<rparr>)))"

section \<open>What the allow list matches\<close>

definition labels :: "string \<Rightarrow> string list" where
  "labels host = split_char CHR ''.'' host"

lemma labels_inverse: "join ''.'' (labels s) = s"
proof (induction s)
  case (Cons x s)
  obtain w ws where "labels s = w # ws" by (cases "labels s") (auto simp: labels_def)
  with Cons show ?case by (cases ws) (auto simp: labels_def)
qed (simp add: labels_def)

lemma labels_inject: "labels s = labels t \<longleftrightarrow> s = t"
  by (metis labels_inverse)

lemma labels_append: "labels (s @ ''.'' @ t) = labels s @ labels t"
  by (induction s) (auto simp: labels_def split: list.splits)

lemma join_append: "ls \<noteq> [] \<Longrightarrow> ms \<noteq> [] \<Longrightarrow> join sep (ls @ ms) = join sep ls @ sep @ join sep ms"
proof (induction ls)
  case (Cons l ls)
  then show ?case by (cases ls; cases ms) auto
qed simp

lemma endswith_iff: "endswith s p \<longleftrightarrow> (\<exists>t. s = t @ p)"
  unfolding endswith_def startswith_iff by (metis rev_append rev_rev_ident)

lemma subdomain_labels:
  "endswith host (''.'' @ apex) \<longleftrightarrow> (\<exists>ls. ls \<noteq> [] \<and> labels host = ls @ labels apex)"
proof
  assume "endswith host (''.'' @ apex)"
  then obtain t where "host = t @ ''.'' @ apex" by (auto simp: endswith_iff)
  then show "\<exists>ls. ls \<noteq> [] \<and> labels host = ls @ labels apex"
    by (intro exI [of _ "labels t"]) (simp add: labels_append [simplified], simp add: labels_def)
next
  assume "\<exists>ls. ls \<noteq> [] \<and> labels host = ls @ labels apex"
  then obtain ls where ls: "ls \<noteq> []" "labels host = ls @ labels apex" by blast
  have "host = join ''.'' ls @ ''.'' @ join ''.'' (labels apex)"
    using join_append [OF ls(1), of "labels apex" "''.''"] ls(2) labels_inverse [of host]
    by (simp add: labels_def)
  then show "endswith host (''.'' @ apex)" by (auto simp: labels_inverse endswith_iff)
qed

text \<open>The contract of one entry of the allow list, in labels.\<close>

definition listed :: "string \<Rightarrow> string \<Rightarrow> bool" where
  "listed host entry \<longleftrightarrow> entry \<noteq> [] \<and>
     (if startswith entry ''*.''
      then \<exists>ls. ls \<noteq> [] \<and> labels host = ls @ labels (drop 2 entry)
      else host = entry)"

lemma entry_matches_listed: "entry_matches host entry \<longleftrightarrow> listed host entry"
proof (cases "startswith entry ''*.''")
  case True
  then obtain apex where e: "entry = ''*.'' @ apex" by (auto simp: startswith_iff)
  have "host \<noteq> apex" if "labels host = ls @ labels apex" "ls \<noteq> []" for ls
    using that by auto
  with e subdomain_labels [of host apex] show ?thesis by (auto simp: listed_def)
qed (auto simp: listed_def)

text \<open>
  A host matches the allow list exactly if it is an entry, or some entry is *. and a domain of
  which the host is a proper subdomain, label by label: badexample.com and example.com do not match
  *.example.com. Spaces around, letter case and dots at the end do not count.
\<close>

theorem allow_list_is_by_labels:
  "matches_allowed_host host allowed_hosts \<longleftrightarrow> normalize_host host \<noteq> [] \<and>
     (\<exists>raw \<in> set allowed_hosts. listed (normalize_host host) (normalize_host raw))"
  by (simp add: matches_allowed_host_def entry_matches_listed Let_def del: entry_matches.simps)

lemma resolve_host_addresses_set:
  "resolve_host_addresses nw host = Inr addresses \<Longrightarrow>
     \<exists>ips. nw_getaddrinfo nw host = Some ips \<and> set addresses = set ips"
proof -
  have "set (fold (\<lambda>ip acc. if ip \<in> set acc then acc else acc @ [ip]) ips acc) = set acc \<union> set ips"
    for ips acc :: "string list"
    by (induction ips arbitrary: acc) auto
  then show "resolve_host_addresses nw host = Inr addresses \<Longrightarrow>
      \<exists>ips. nw_getaddrinfo nw host = Some ips \<and> set addresses = set ips"
    by (auto simp: resolve_host_addresses_def split: option.splits)
qed

lemma private_addresses_none:
  "private_addresses nw ips = Inr [] \<Longrightarrow> ip \<in> set ips \<Longrightarrow>
     \<exists>a. nw_ip_address nw ip = Some a \<and> \<not> is_private_address a"
  by (induction nw ips rule: private_addresses.induct)
    (auto split: option.splits sum.splits if_splits)

lemma check_addresses_public:
  assumes "check_addresses nw host = Inr u"
  shows "\<exists>ips. nw_getaddrinfo nw host = Some ips \<and>
    (\<forall>ip \<in> set ips. \<exists>a. nw_ip_address nw ip = Some a \<and> \<not> is_private_address a)"
  using assms resolve_host_addresses_set [of nw host] private_addresses_none [of nw]
  by (fastforce simp: check_addresses_def split: sum.splits list.splits)

lemma admitted_safe:
  assumes "validate_agent_url nw agent_url allowed_hosts allow_private = Inr d"
  shows "(\<exists>parsed. urlsplit nw (strip agent_url) = Inr parsed \<and> su_scheme parsed \<in> {''http'', ''https''} \<and>
      \<not> url_has_userinfo (su_netloc parsed) \<and> np_host d = lower (strip (url_hostname (su_netloc parsed)))) \<and>
    np_host d \<noteq> [] \<and>
    (host_allowlist allowed_hosts \<noteq> [] \<or> np_credentials_allowed d \<longrightarrow>
      (\<exists>entry \<in> set (host_allowlist allowed_hosts).
         listed (normalize_host (np_host d)) (normalize_host entry))) \<and>
    (\<not> allow_private \<longrightarrow> (\<exists>ips. nw_getaddrinfo nw (np_host d) = Some ips \<and>
      (\<forall>ip \<in> set ips. \<exists>a. nw_ip_address nw ip = Some a \<and> \<not> is_private_address a)))"
proof -
  obtain parsed where parsed: "urlsplit nw (strip agent_url) = Inr parsed"
    using assms by (auto simp: validate_agent_url_def Let_def split: if_splits sum.splits)
  define host where "host = lower (strip (url_hostname (su_netloc parsed)))"
  have d: "d = \<lparr>np_host = host, np_allowed_host = matches_allowed_host host (host_allowlist allowed_hosts),
      np_credentials_allowed = (host_allowlist allowed_hosts \<noteq> [] \<and>
        matches_allowed_host host (host_allowlist allowed_hosts))\<rparr>"
    and checks: "su_scheme parsed \<in> {''http'', ''https''}" "host \<noteq> []"
      "\<not> url_has_userinfo (su_netloc parsed)"
      "host_allowlist allowed_hosts = [] \<or> matches_allowed_host host (host_allowlist allowed_hosts)"
      "allow_private \<or> check_addresses nw host = Inr ()"
    using assms parsed host_def by (auto simp: validate_agent_url_def Let_def split: if_splits sum.splits)
  have "\<exists>entry \<in> set (host_allowlist allowed_hosts).
      listed (normalize_host host) (normalize_host entry)"
    if "host_allowlist allowed_hosts \<noteq> []"
    using that checks(4) by (simp add: matches_allowed_host_def entry_matches_listed Let_def
        del: entry_matches.simps)
  with d parsed checks check_addresses_public [of nw host "()"] host_def show ?thesis by auto
qed

text \<open>
  C37. A URL that is let through is http or https, has a host and no user name or password; the host
  is on the allow list, if there is one, and every address it resolves to is public, unless private
  hosts are allowed. Credentials may go only to a host that is on the list.
\<close>

theorem admitted_url_is_safe:
  assumes "validate_agent_url nw agent_url allowed_hosts allow_private = Inr d"
  shows "(\<exists>parsed. urlsplit nw (strip agent_url) = Inr parsed \<and> su_scheme parsed \<in> {''http'', ''https''} \<and>
      \<not> url_has_userinfo (su_netloc parsed) \<and> np_host d = lower (strip (url_hostname (su_netloc parsed)))) \<and>
    np_host d \<noteq> [] \<and>
    (host_allowlist allowed_hosts \<noteq> [] \<or> np_credentials_allowed d \<longrightarrow>
      (\<exists>entry \<in> set (host_allowlist allowed_hosts).
         listed (normalize_host (np_host d)) (normalize_host entry))) \<and>
    (\<not> allow_private \<longrightarrow> (\<exists>ips. nw_getaddrinfo nw (np_host d) = Some ips \<and>
      (\<forall>ip \<in> set ips. \<exists>a. nw_ip_address nw ip = Some a \<and> \<not> is_private_address a)))"
  by (rule admitted_safe [OF assms])

text \<open>A network that knows one public name; the cloud's metadata service is behind another.\<close>

definition public_address :: address where
  "public_address = \<lparr>ad_version6 = False, ad_is_private = False, ad_is_loopback = False,
     ad_is_link_local = False, ad_is_reserved = False, ad_is_multicast = False, ad_is_unspecified = False\<rparr>"

definition small_network :: network where
  "small_network =
     \<lparr>nw_getaddrinfo = (\<lambda>host. if host = ''api.example.com'' then Some [''93.184.216.34'']
        else if host = ''rebind.example.com'' then Some [''93.184.216.34'', ''169.254.169.254''] else None),
      nw_ip_address = (\<lambda>ip. if ip = ''93.184.216.34'' then Some public_address
        else if ip = ''169.254.169.254'' then Some (public_address\<lparr>ad_is_link_local := True\<rparr>) else None)\<rparr>"

lemma admitted_url_is_safe_witness:
  "(\<exists>parsed. urlsplit small_network (strip '' https://api.example.com:8443/agent '') = Inr parsed \<and>
      su_scheme parsed \<in> {''http'', ''https''}) \<and>
    validate_agent_url small_network ''http://rebind.example.com'' [] False =
      Inl (A2ANetworkPolicyError ''Agent URL host 'rebind.example.com' resolves to a private/loopback address: 169.254.169.254'')"
proof -
  have "validate_agent_url small_network '' https://api.example.com:8443/agent '' [''*.example.com''] False =
      Inr \<lparr>np_host = ''api.example.com'', np_allowed_host = True, np_credentials_allowed = True\<rparr>"
    by code_simp
  from admitted_url_is_safe [OF this]
  have "\<exists>parsed. urlsplit small_network (strip '' https://api.example.com:8443/agent '') = Inr parsed \<and>
      su_scheme parsed \<in> {''http'', ''https''}" by blast
  moreover have "validate_agent_url small_network ''http://rebind.example.com'' [] False =
      Inl (A2ANetworkPolicyError ''Agent URL host 'rebind.example.com' resolves to a private/loopback address: 169.254.169.254'')"
    by code_simp
  ultimately show ?thesis by blast
qed

end
