(* ===== verification/Peer_Manager.thy ===== *)
theory Peer_Manager
  imports Py_Prelude
begin

text \<open>
  The clients for other agents and the table they are borrowed from (\<open>server/client_manager.py\<close>). A
  client is known by a number; whether it has work in flight is asked of a function, since that
  changes outside the table. One event of the manager is one of its critical sections.
\<close>

section \<open>The cache of clients\<close>

record peer_client =
  pc_id :: nat
  pc_url :: string
  pc_credentials :: bool

record cache_entry =
  en_client :: peer_client
  en_last_used :: seconds
  en_expires_at :: "seconds option"
  en_borrow_count :: nat
  en_pending_eviction :: bool

record client_manager =
  cm_cache_ttl_seconds :: seconds
  cm_cache_maxsize :: int
  cm_clients :: "(string \<times> cache_entry) list"
  cm_next :: nat

definition client_manager_init :: "seconds \<Rightarrow> int \<Rightarrow> client_manager" where
  "client_manager_init ttl maxsize =
     \<lparr>cm_cache_ttl_seconds = ttl, cm_cache_maxsize = maxsize, cm_clients = [], cm_next = 0\<rparr>"

definition en_expired :: "seconds \<Rightarrow> cache_entry \<Rightarrow> bool" where
  "en_expired now e \<longleftrightarrow> (case en_expires_at e of None \<Rightarrow> False | Some t \<Rightarrow> t \<le> now)"

definition in_use :: "(peer_client \<Rightarrow> bool) \<Rightarrow> cache_entry \<Rightarrow> bool" where
  "in_use busy e \<longleftrightarrow> 0 < en_borrow_count e \<or> busy (en_client e)"

text \<open>The first loop of \<open>_evict_locked\<close>, over a copy of the table.\<close>

fun evict_stale ::
    "(peer_client \<Rightarrow> bool) \<Rightarrow> seconds \<Rightarrow> string set \<Rightarrow> (string \<times> cache_entry) list
       \<Rightarrow> peer_client list \<times> (string \<times> cache_entry) list" where
  "evict_stale busy now protected [] = ([], [])"
| "evict_stale busy now protected ((key, e) # items) =
     (let (gone, kept) = evict_stale busy now protected items
      in if \<not> en_expired now e \<and> \<not> en_pending_eviction e then (gone, (key, e) # kept)
         else if key \<in> protected \<or> in_use busy e
         then (gone, (key, e\<lparr>en_pending_eviction := True\<rparr>) # kept)
         else (en_client e # gone, kept))"

text \<open>The second loop, over the entries from the least recently used one.\<close>

fun evict_lru ::
    "(peer_client \<Rightarrow> bool) \<Rightarrow> int \<Rightarrow> string set \<Rightarrow> (string \<times> cache_entry) list
       \<Rightarrow> (string \<times> cache_entry) list \<Rightarrow> peer_client list \<times> (string \<times> cache_entry) list" where
  "evict_lru busy maxsize protected [] clients = ([], clients)"
| "evict_lru busy maxsize protected ((key, e) # items) clients =
     (if int (length clients) \<le> maxsize then ([], clients)
      else if key \<in> protected then evict_lru busy maxsize protected items clients
      else if in_use busy e
      then evict_lru busy maxsize protected items (dset key (e\<lparr>en_pending_eviction := True\<rparr>) clients)
      else (let (gone, kept) = evict_lru busy maxsize protected items (ddel key clients)
            in (en_client e # gone, kept)))"

definition evict_locked ::
    "(peer_client \<Rightarrow> bool) \<Rightarrow> seconds \<Rightarrow> string set \<Rightarrow> client_manager
       \<Rightarrow> peer_client list \<times> client_manager" where
  "evict_locked busy now protected m =
     (let (gone, kept) = evict_stale busy now protected (cm_clients m)
      in if cm_cache_maxsize m \<le> 0 \<or> int (length kept) \<le> cm_cache_maxsize m then
           (gone, m\<lparr>cm_clients := kept\<rparr>)
         else if \<exists>(key, e) \<in> set kept. en_pending_eviction e then (gone, m\<lparr>cm_clients := kept\<rparr>)
         else (let (gone', kept') = evict_lru busy (cm_cache_maxsize m) protected
                     (sort_key (\<lambda>(key, e). en_last_used e) kept) kept
               in (gone @ gone', m\<lparr>cm_clients := kept'\<rparr>)))"

definition next_expiry :: "seconds \<Rightarrow> client_manager \<Rightarrow> seconds option" where
  "next_expiry now m =
     (if cm_cache_ttl_seconds m \<le> 0 then None else Some (now + cm_cache_ttl_seconds m))"

text \<open>The part of \<open>borrow_client\<close> before the client is handed out: the client and those to close.\<close>

definition retire_expired ::
    "(peer_client \<Rightarrow> bool) \<Rightarrow> seconds \<Rightarrow> string \<Rightarrow> client_manager \<Rightarrow> peer_client list \<times> client_manager"
  where
  "retire_expired busy now url m =
     (case map_of (cm_clients m) url of
        Some e \<Rightarrow>
          if en_expired now e then
            (if in_use busy e
             then ([], m\<lparr>cm_clients := dset url (e\<lparr>en_pending_eviction := True\<rparr>) (cm_clients m)\<rparr>)
             else ([en_client e], m\<lparr>cm_clients := ddel url (cm_clients m)\<rparr>))
          else ([], m)
      | None \<Rightarrow> ([], m))"

definition take_entry ::
    "seconds \<Rightarrow> string \<Rightarrow> bool \<Rightarrow> client_manager \<Rightarrow> peer_client \<times> client_manager" where
  "take_entry now url credentials m =
     (case map_of (cm_clients m) url of
        None \<Rightarrow>
          (let client = \<lparr>pc_id = cm_next m, pc_url = url, pc_credentials = credentials\<rparr>
           in (client, m\<lparr>cm_clients := dset url
                \<lparr>en_client = client, en_last_used = now, en_expires_at = next_expiry now m,
                 en_borrow_count = 1, en_pending_eviction = False\<rparr> (cm_clients m),
                cm_next := cm_next m + 1\<rparr>))
      | Some e \<Rightarrow>
          (en_client e, m\<lparr>cm_clients := dset url
             (e\<lparr>en_last_used := now, en_expires_at := next_expiry now m, en_pending_eviction := False,
                en_borrow_count := en_borrow_count e + 1\<rparr>) (cm_clients m)\<rparr>))"

definition borrow_client ::
    "(peer_client \<Rightarrow> bool) \<Rightarrow> seconds \<Rightarrow> string \<Rightarrow> bool \<Rightarrow> client_manager
       \<Rightarrow> peer_client \<times> peer_client list \<times> client_manager" where
  "borrow_client busy now url credentials m =
     (if cm_cache_maxsize m \<le> 0
      then (\<lparr>pc_id = cm_next m, pc_url = url, pc_credentials = credentials\<rparr>, [],
            m\<lparr>cm_next := cm_next m + 1\<rparr>)
      else
      let (gone0, m0) = retire_expired busy now url m;
          (gone1, m1) = evict_locked busy now {url} m0;
          (client, m2) = take_entry now url credentials m1;
          (gone2, m3) = evict_locked busy now {url} m2
      in (client, gone0 @ gone1 @ gone2, m3))"

text \<open>The part after the client was used.\<close>

definition return_client ::
    "(peer_client \<Rightarrow> bool) \<Rightarrow> seconds \<Rightarrow> string \<Rightarrow> peer_client \<Rightarrow> client_manager
       \<Rightarrow> peer_client list \<times> client_manager" where
  "return_client busy now url client m =
     (if cm_cache_maxsize m \<le> 0 then ([client], m)
      else case map_of (cm_clients m) url of
        Some e \<Rightarrow>
          evict_locked busy now {}
            (if en_client e = client
             then m\<lparr>cm_clients := dset url
               (e\<lparr>en_borrow_count := en_borrow_count e - 1, en_last_used := now,
                  en_expires_at := next_expiry now m\<rparr>) (cm_clients m)\<rparr>
             else m)
      | None \<Rightarrow> evict_locked busy now {} m)"

definition close_all :: "client_manager \<Rightarrow> peer_client list \<times> client_manager" where
  "close_all m = (map (\<lambda>(key, e). en_client e) (cm_clients m), m\<lparr>cm_clients := []\<rparr>)"

section \<open>Who holds a client\<close>

datatype manager_event =
    Borrow "peer_client \<Rightarrow> bool" seconds string bool
  | Return "peer_client \<Rightarrow> bool" seconds peer_client

fun event_busy :: "manager_event \<Rightarrow> peer_client \<Rightarrow> bool" where
  "event_busy (Borrow busy now url credentials) = busy"
| "event_busy (Return busy now client) = busy"

text \<open>One event: the clients it closes, the clients held afterwards, the table.\<close>

fun manager_step ::
    "manager_event \<Rightarrow> peer_client list \<times> client_manager
       \<Rightarrow> peer_client list \<times> peer_client list \<times> client_manager" where
  "manager_step (Borrow busy now url credentials) (held, m) =
     (let (client, gone, m') = borrow_client busy now url credentials m
      in (gone, client # held, m'))"
| "manager_step (Return busy now client) (held, m) =
     (if client \<in> set held
      then (let (gone, m') = return_client busy now (pc_url client) client m
            in (gone, remove1 client held, m'))
      else ([], held, m))"

fun manager_run :: "manager_event list \<Rightarrow> peer_client list \<times> client_manager \<Rightarrow> peer_client list \<times> client_manager"
  where
  "manager_run [] s = s"
| "manager_run (ev # evs) s = manager_run evs (snd (manager_step ev s))"

section \<open>Eviction\<close>

text \<open>
  What eviction may do: entries keep their clients and their borrowers, an entry in use stays, and
  what is closed was not in use and has left the table.
\<close>

definition evicts ::
    "(peer_client \<Rightarrow> bool) \<Rightarrow> (string \<times> cache_entry) list \<Rightarrow> (string \<times> cache_entry) list
       \<Rightarrow> peer_client list \<Rightarrow> bool" where
  "evicts busy C C' gone \<longleftrightarrow> wf_dict C' \<and>
     (\<forall>k e'. map_of C' k = Some e' \<longrightarrow> (\<exists>e. map_of C k = Some e \<and> en_client e' = en_client e \<and>
        en_borrow_count e' = en_borrow_count e)) \<and>
     (\<forall>k e. map_of C k = Some e \<longrightarrow> in_use busy e \<longrightarrow> map_of C' k \<noteq> None) \<and>
     (\<forall>c \<in> set gone. \<exists>k e. map_of C k = Some e \<and> en_client e = c \<and> \<not> in_use busy e \<and>
        map_of C' k = None)"

lemma evictsD:
  assumes "evicts busy C C' gone"
  shows evicts_wf: "wf_dict C'"
    and evicts_kept: "map_of C' k = Some e' \<Longrightarrow> \<exists>e. map_of C k = Some e \<and> en_client e' = en_client e \<and>
        en_borrow_count e' = en_borrow_count e"
    and evicts_stays: "map_of C k = Some e \<Longrightarrow> in_use busy e \<Longrightarrow> \<exists>e'. map_of C' k = Some e' \<and>
        en_client e' = en_client e \<and> en_borrow_count e' = en_borrow_count e"
    and evicts_gone: "c \<in> set gone \<Longrightarrow> \<exists>k e. map_of C k = Some e \<and> en_client e = c \<and>
        \<not> in_use busy e \<and> map_of C' k = None"
  using assms unfolding evicts_def by (blast, blast, (metis not_None_eq option.inject)+)

lemma evicts_refl: "wf_dict C \<Longrightarrow> evicts busy C C []"
  by (simp add: evicts_def)

lemma evicts_trans:
  assumes ab: "evicts busy A B c1" and bc: "evicts busy B C c2"
  shows "evicts busy A C (c1 @ c2)"
proof -
  have three: "\<exists>k e. map_of A k = Some e \<and> en_client e = c \<and> \<not> in_use busy e \<and> map_of C k = None"
    if c: "c \<in> set c1 \<union> set c2" for c
  proof (cases "c \<in> set c1")
    case True
    then obtain k e where "map_of A k = Some e" "en_client e = c" "\<not> in_use busy e" "map_of B k = None"
      using evicts_gone [OF ab] by blast
    moreover from this(4) have "map_of C k = None"
      using evicts_kept [OF bc, of k] by (cases "map_of C k") auto
    ultimately show ?thesis by blast
  next
    case False
    then obtain k e where *: "map_of B k = Some e" "en_client e = c" "\<not> in_use busy e" "map_of C k = None"
      using c evicts_gone [OF bc] by blast
    then obtain e0 where "map_of A k = Some e0" "en_client e = en_client e0"
        "en_borrow_count e = en_borrow_count e0"
      using evicts_kept [OF ab] by blast
    with * show ?thesis by (auto simp: in_use_def)
  qed
  have two: "map_of C k \<noteq> None" if e: "map_of A k = Some e" "in_use busy e" for k e
  proof -
    obtain e1 where "map_of B k = Some e1" "en_client e1 = en_client e" "en_borrow_count e1 = en_borrow_count e"
      using evicts_stays [OF ab e] by blast
    with e(2) show ?thesis using evicts_stays [OF bc, of k e1] by (auto simp: in_use_def)
  qed
  have one: "\<exists>e. map_of A k = Some e \<and> en_client e' = en_client e \<and> en_borrow_count e' = en_borrow_count e"
    if "map_of C k = Some e'" for k e'
    using evicts_kept [OF bc that] evicts_kept [OF ab] by metis
  show ?thesis using one two three evicts_wf [OF bc] by (auto simp: evicts_def)
qed

lemma evicts_mark:
  "wf_dict C \<Longrightarrow> map_of C k = Some e \<Longrightarrow> evicts busy C (dset k (e\<lparr>en_pending_eviction := b\<rparr>) C) []"
  by (simp add: evicts_def)

lemma evicts_close:
  "wf_dict C \<Longrightarrow> map_of C k = Some e \<Longrightarrow> \<not> in_use busy e \<Longrightarrow> evicts busy C (ddel k C) [en_client e]"
  by (auto simp: evicts_def map_of_ddel split: if_splits)

lemma evict_stale_keys: "fst ` set (snd (evict_stale busy now protected C)) \<subseteq> fst ` set C"
  by (induction busy now protected C rule: evict_stale.induct) (auto simp: Let_def case_prod_unfold)

lemma evicts_cons_kept:
  assumes e: "evicts busy C C' gone" and fresh: "map_of C k = None" "map_of C' k = None"
    and "en_client x' = en_client x" "en_borrow_count x' = en_borrow_count x"
  shows "evicts busy ((k, x) # C) ((k, x') # C') gone"
  unfolding evicts_def
proof (intro conjI allI impI ballI)
  show "wf_dict ((k, x') # C')" using evicts_wf [OF e] fresh by (auto simp: map_of_eq_None_iff)
next
  fix k1 e' assume "map_of ((k, x') # C') k1 = Some e'"
  then show "\<exists>e. map_of ((k, x) # C) k1 = Some e \<and> en_client e' = en_client e \<and>
      en_borrow_count e' = en_borrow_count e"
    using assms(4,5) evicts_kept [OF e, of k1 e'] by (auto split: if_splits)
next
  fix k1 e1 assume "map_of ((k, x) # C) k1 = Some e1" "in_use busy e1"
  then show "map_of ((k, x') # C') k1 \<noteq> None"
    using evicts_stays [OF e, of k1 e1] by (auto split: if_splits)
next
  fix c assume "c \<in> set gone"
  then obtain k1 e1 where "map_of C k1 = Some e1 \<and> en_client e1 = c \<and> \<not> in_use busy e1 \<and> map_of C' k1 = None"
    using evicts_gone [OF e] by blast
  moreover from this fresh have "k1 \<noteq> k" by auto
  ultimately show "\<exists>k1 e. map_of ((k, x) # C) k1 = Some e \<and> en_client e = c \<and> \<not> in_use busy e \<and>
      map_of ((k, x') # C') k1 = None"
    by (intro exI [of _ k1] exI [of _ e1]) simp
qed

lemma evicts_cons_gone:
  assumes e: "evicts busy C C' gone" and fresh: "map_of C k = None" "map_of C' k = None"
    and "\<not> in_use busy x"
  shows "evicts busy ((k, x) # C) C' (en_client x # gone)"
proof -
  have "evicts busy ((k, x) # C) ((k, x) # C') gone"
    by (rule evicts_cons_kept [OF e fresh]) simp_all
  moreover have "ddel k ((k, x) # C') = C'"
    using fresh(2) by (auto simp: map_of_eq_None_iff intro!: filter_True)
  then have "evicts busy ((k, x) # C') C' [en_client x]"
    using evicts_close [of "(k, x) # C'" k x busy] evicts_wf [OF calculation] assms(4) by simp
  ultimately have "evicts busy ((k, x) # C) C' (gone @ [en_client x])"
    by (rule evicts_trans)
  then show ?thesis by (simp add: evicts_def)
qed

lemma evict_stale_evicts:
  "wf_dict C \<Longrightarrow> evict_stale busy now protected C = (gone, kept) \<Longrightarrow> evicts busy C kept gone"
proof (induction busy now protected C arbitrary: gone kept rule: evict_stale.induct)
  case (1 busy now protected)
  then show ?case by (simp add: evicts_def)
next
  case (2 busy now protected key e items)
  obtain cl kp where r: "evict_stale busy now protected items = (cl, kp)" by fastforce
  have ih: "evicts busy items kp cl" using 2 r by simp
  have fresh: "map_of items key = None" "map_of kp key = None"
    using 2(2) evict_stale_keys [of busy now protected items] r
    by (auto simp: map_of_eq_None_iff)
  show ?case
    using 2(3) r evicts_cons_kept [OF ih fresh, of e e] evicts_cons_gone [OF ih fresh, of e]
      evicts_cons_kept [OF ih fresh, of "e\<lparr>en_pending_eviction := True\<rparr>" e]
    by (auto split: if_splits)
qed

text \<open>The second loop runs over entries of the table it started from; each key comes once.\<close>

lemma evict_lru_evicts:
  "wf_dict C \<Longrightarrow> wf_dict items \<Longrightarrow> (\<forall>(k, e) \<in> set items. map_of C k = Some e) \<Longrightarrow>
   evict_lru busy maxsize protected items C = (gone, kept) \<Longrightarrow> evicts busy C kept gone"
proof (induction busy maxsize protected items C arbitrary: gone kept rule: evict_lru.induct)
  case (1 busy maxsize protected C)
  then show ?case by (simp add: evicts_refl)
next
  case (2 busy maxsize protected key e items C)
  have C: "map_of C key = Some e" "\<forall>(k, e) \<in> set items. map_of C k = Some e" using 2(6) by auto
  have others: "k \<noteq> key" if "(k, e') \<in> set items" for k e'
    using 2(5) that by (auto intro: rev_image_eqI)
  have upd: "\<forall>(k, e) \<in> set items. map_of (dset key x C) k = Some e"
    and del: "\<forall>(k, e) \<in> set items. map_of (ddel key C) k = Some e" for x
    using C(2) others by (auto simp: map_of_ddel)
  consider "int (length C) \<le> maxsize" | "\<not> int (length C) \<le> maxsize" "key \<in> protected"
    | "\<not> int (length C) \<le> maxsize" "key \<notin> protected" "in_use busy e"
    | "\<not> int (length C) \<le> maxsize" "key \<notin> protected" "\<not> in_use busy e" by blast
  then show ?case
  proof cases
    case 1 with 2(7) evicts_refl [OF 2(4), of busy] show ?thesis by auto
  next
    case 2 with "2.prems" C(2) "2.IH"(1) show ?thesis by simp
  next
    case 3
    then have "evicts busy (dset key (e\<lparr>en_pending_eviction := True\<rparr>) C) kept gone"
      using "2.prems" "2.IH"(2) upd by simp
    from evicts_trans [OF evicts_mark [OF 2(4) C(1)] this] show ?thesis by simp
  next
    case 4
    obtain g kp where r: "evict_lru busy maxsize protected items (ddel key C) = (g, kp)" by fastforce
    then have "evicts busy (ddel key C) kp g" using 4 "2.prems" "2.IH"(3) del by simp
    from evicts_trans [OF evicts_close [OF 2(4) C(1) 4(3)] this]
    show ?thesis using r 4 "2.prems"(4) by auto
  qed
qed

lemma evict_locked_evicts:
  assumes "wf_dict (cm_clients m)" "evict_locked busy now protected m = (gone, m')"
  shows "evicts busy (cm_clients m) (cm_clients m') gone \<and>
    (\<exists>C. m' = m\<lparr>cm_clients := C\<rparr>)"
proof -
  obtain g kp where st: "evict_stale busy now protected (cm_clients m) = (g, kp)" by fastforce
  have stale: "evicts busy (cm_clients m) kp g" by (rule evict_stale_evicts [OF assms(1) st])
  let ?items = "sort_key (\<lambda>(key, e). en_last_used e) kp"
  obtain g2 kp2 where lr: "evict_lru busy (cm_cache_maxsize m) protected ?items kp = (g2, kp2)"
    by fastforce
  have wf: "wf_dict kp" by (rule evicts_wf [OF stale])
  have "wf_dict ?items"
    using wf by (simp add: distinct_map)
  moreover have "\<forall>(k, e) \<in> set ?items. map_of kp k = Some e" using wf by auto
  ultimately have "evicts busy kp kp2 g2" by (rule evict_lru_evicts [OF wf _ _ lr])
  from evicts_trans [OF stale this] stale show ?thesis
    using assms(2) st lr by (auto simp: evict_locked_def split: if_splits)
qed

lemma retire_expired_evicts:
  assumes "wf_dict (cm_clients m)" "retire_expired busy now url m = (gone, m')"
  shows "evicts busy (cm_clients m) (cm_clients m') gone \<and> (\<exists>C. m' = m\<lparr>cm_clients := C\<rparr>)"
  using assms(2) evicts_mark [OF assms(1), of url] evicts_close [OF assms(1), of url]
    evicts_refl [OF assms(1), of busy]
  by (auto simp: retire_expired_def split: option.splits if_splits intro: exI [of _ "cm_clients m"])

section \<open>No client is closed while it is held\<close>

text \<open>
  The invariant: an entry is for its own address, counts those who hold its client, and every held
  client is in the table. Without a cache, each client has one holder.
\<close>

definition held_ok :: "peer_client list \<Rightarrow> client_manager \<Rightarrow> bool" where
  "held_ok held m \<longleftrightarrow> wf_dict (cm_clients m) \<and> (\<forall>c \<in> set held. pc_id c < cm_next m) \<and>
     (if cm_cache_maxsize m \<le> 0 then distinct held
      else (\<forall>k e. map_of (cm_clients m) k = Some e \<longrightarrow> pc_url (en_client e) = k \<and>
              pc_id (en_client e) < cm_next m \<and> en_borrow_count e = count_list held (en_client e)) \<and>
           (\<forall>c \<in> set held. \<exists>e. map_of (cm_clients m) (pc_url c) = Some e \<and> en_client e = c))"

lemma held_ok_init: "held_ok [] (client_manager_init ttl maxsize)"
  by (simp add: held_ok_def client_manager_init_def)

lemma held_okI:
  assumes "cm_clients m' = C" "cm_next m' = n" "cm_cache_maxsize m' = mx" "\<not> mx \<le> 0" "wf_dict C"
    "\<And>c. c \<in> set held \<Longrightarrow> pc_id c < n \<and> (\<exists>e. map_of C (pc_url c) = Some e \<and> en_client e = c)"
    "\<And>k e. map_of C k = Some e \<Longrightarrow> pc_url (en_client e) = k \<and> pc_id (en_client e) < n \<and>
        en_borrow_count e = count_list held (en_client e)"
  shows "held_ok held m'"
  using assms by (simp add: held_ok_def)

lemma held_okD:
  assumes "held_ok held m"
  shows held_ok_wf: "wf_dict (cm_clients m)"
    and held_ok_old: "c \<in> set held \<Longrightarrow> pc_id c < cm_next m"
    and held_ok_entry: "\<not> cm_cache_maxsize m \<le> 0 \<Longrightarrow> map_of (cm_clients m) k = Some e \<Longrightarrow>
        pc_url (en_client e) = k \<and> pc_id (en_client e) < cm_next m \<and>
        en_borrow_count e = count_list held (en_client e)"
    and held_ok_held: "\<not> cm_cache_maxsize m \<le> 0 \<Longrightarrow> c \<in> set held \<Longrightarrow>
        \<exists>e. map_of (cm_clients m) (pc_url c) = Some e \<and> en_client e = c"
    and held_ok_distinct: "cm_cache_maxsize m \<le> 0 \<Longrightarrow> distinct held"
  using assms by (simp_all add: held_ok_def)

lemma in_use_held:
  assumes "held_ok held m" "\<not> cm_cache_maxsize m \<le> 0" "map_of (cm_clients m) k = Some e"
    "en_client e \<in> set held"
  shows "in_use busy e"
proof -
  have "count_list held (en_client e) \<noteq> 0" using assms(4) by (simp add: count_list_0_iff)
  with held_ok_entry [OF assms(1-3)] show ?thesis by (simp add: in_use_def)
qed

lemma evicts_held_ok:
  assumes ok: "held_ok held m" and cached: "\<not> cm_cache_maxsize m \<le> 0"
    and ev: "evicts busy (cm_clients m) C gone"
  shows "held_ok held (m\<lparr>cm_clients := C\<rparr>)"
    and "c \<in> set gone \<Longrightarrow> c \<notin> set held \<and> \<not> busy c \<and> map_of C (pc_url c) = None \<and> pc_id c < cm_next m"
proof -
  note ent = held_ok_entry [OF ok cached]
  show "held_ok held (m\<lparr>cm_clients := C\<rparr>)"
  proof (rule held_okI [OF _ _ _ cached evicts_wf [OF ev]])
    fix c assume c: "c \<in> set held"
    obtain e where e: "map_of (cm_clients m) (pc_url c) = Some e" "en_client e = c"
      using held_ok_held [OF ok cached c] by blast
    then show "pc_id c < cm_next m \<and> (\<exists>e. map_of C (pc_url c) = Some e \<and> en_client e = c)"
      using evicts_stays [OF ev e(1) in_use_held [OF ok cached e(1)]] c held_ok_old [OF ok c] by auto
  next
    fix k e' assume "map_of C k = Some e'"
    then show "pc_url (en_client e') = k \<and> pc_id (en_client e') < cm_next m \<and>
        en_borrow_count e' = count_list held (en_client e')"
      using evicts_kept [OF ev] ent by force
  qed simp_all
  assume "c \<in> set gone"
  then obtain k e where e: "map_of (cm_clients m) k = Some e" "en_client e = c" "\<not> in_use busy e"
      "map_of C k = None"
    using evicts_gone [OF ev] by blast
  then show "c \<notin> set held \<and> \<not> busy c \<and> map_of C (pc_url c) = None \<and> pc_id c < cm_next m"
    using ent [OF e(1)] in_use_held [OF ok cached e(1)] by (auto simp: in_use_def)
qed

lemma take_entry_held_ok:
  assumes ok: "held_ok held m" and cached: "\<not> cm_cache_maxsize m \<le> 0"
    and t: "take_entry now url credentials m = (client, m')"
  shows "held_ok (client # held) m'" "cm_cache_maxsize m' = cm_cache_maxsize m" "pc_url client = url"
    "pc_id client < cm_next m \<Longrightarrow> map_of (cm_clients m) url \<noteq> None"
proof -
  show max: "cm_cache_maxsize m' = cm_cache_maxsize m" and url: "pc_url client = url"
    and "pc_id client < cm_next m \<Longrightarrow> map_of (cm_clients m) url \<noteq> None"
    using t held_ok_entry [OF ok cached, of url]
    by (auto simp: take_entry_def Let_def split: option.splits)
  show "held_ok (client # held) m'"
  proof (cases "map_of (cm_clients m) url")
    case None
    obtain new where new: "m' = m\<lparr>cm_clients := dset url new (cm_clients m), cm_next := cm_next m + 1\<rparr>"
        "en_client new = client" "en_borrow_count new = 1" "pc_id client = cm_next m"
      using t None by (auto simp: take_entry_def Let_def)
    have fresh: "client \<notin> set held" using held_ok_old [OF ok, of client] new(4) by auto
    show ?thesis
    proof (rule held_okI [OF _ _ _ cached wf_dset [OF held_ok_wf [OF ok]]])
      fix c assume c: "c \<in> set (client # held)"
      then show "pc_id c < cm_next m + 1 \<and>
          (\<exists>e. map_of (dset url new (cm_clients m)) (pc_url c) = Some e \<and> en_client e = c)"
        using None new(2,4) url held_ok_held [OF ok cached, of c] held_ok_old [OF ok, of c] by auto
    next
      fix k e assume "map_of (dset url new (cm_clients m)) k = Some e"
      then show "pc_url (en_client e) = k \<and> pc_id (en_client e) < cm_next m + 1 \<and>
          en_borrow_count e = count_list (client # held) (en_client e)"
        using held_ok_entry [OF ok cached, of k e] new url fresh
        by (auto simp: count_list_0_iff split: if_splits)
    qed (use new(1) in simp_all)
  next
    case (Some e0)
    obtain new where new: "m' = m\<lparr>cm_clients := dset url new (cm_clients m)\<rparr>" "en_client new = client"
        "en_client e0 = client" "en_borrow_count new = en_borrow_count e0 + 1"
      using t Some by (auto simp: take_entry_def)
    note e0 = held_ok_entry [OF ok cached Some]
    show ?thesis
    proof (rule held_okI [OF _ _ _ cached wf_dset [OF held_ok_wf [OF ok]]])
      fix c assume c: "c \<in> set (client # held)"
      show "pc_id c < cm_next m \<and>
          (\<exists>e. map_of (dset url new (cm_clients m)) (pc_url c) = Some e \<and> en_client e = c)"
      proof (cases "c = client")
        case True
        then show ?thesis using new(2,3) e0 url by simp
      next
        case False
        with c have c: "c \<in> set held" by simp
        then obtain e where e: "map_of (cm_clients m) (pc_url c) = Some e" "en_client e = c"
          using held_ok_held [OF ok cached c] by blast
        then have "pc_url c \<noteq> url" using Some new(3) False by auto
        with e held_ok_old [OF ok c] show ?thesis by simp
      qed
    next
      fix k e assume "map_of (dset url new (cm_clients m)) k = Some e"
      then show "pc_url (en_client e) = k \<and> pc_id (en_client e) < cm_next m \<and>
          en_borrow_count e = count_list (client # held) (en_client e)"
        using held_ok_entry [OF ok cached, of k e] new(2-4) e0 url by (cases "k = url") auto
    qed (use new(1) in simp_all)
  qed
qed

lemma evict_step:
  assumes ok: "held_ok held m" and cached: "\<not> cm_cache_maxsize m \<le> 0"
    and ev: "evict_locked busy now protected m = (gone, m') \<or> retire_expired busy now url m = (gone, m')"
  shows "held_ok held m' \<and> cm_cache_maxsize m' = cm_cache_maxsize m \<and> cm_next m' = cm_next m \<and>
    (\<forall>c \<in> set gone. c \<notin> set held \<and> \<not> busy c \<and> map_of (cm_clients m') (pc_url c) = None \<and>
       pc_id c < cm_next m)"
proof -
  obtain C where C: "m' = m\<lparr>cm_clients := C\<rparr>" "evicts busy (cm_clients m) C gone"
    using ev evict_locked_evicts [OF held_ok_wf [OF ok]] retire_expired_evicts [OF held_ok_wf [OF ok]]
    by (metis client_manager.select_convs(3) client_manager.surjective client_manager.update_convs(3))
  then show ?thesis using evicts_held_ok [OF ok cached C(2)] by auto
qed

lemma borrow_client_ok:
  assumes ok: "held_ok held m" and b: "borrow_client busy now url credentials m = (client, gone, m')"
  shows "held_ok (client # held) m' \<and> cm_cache_maxsize m' = cm_cache_maxsize m \<and> pc_url client = url \<and>
    (\<forall>c \<in> set gone. c \<notin> set (client # held) \<and> \<not> busy c)"
proof (cases "cm_cache_maxsize m \<le> 0")
  case True
  then show ?thesis
    using ok b by (auto simp: borrow_client_def held_ok_def less_Suc_eq)
next
  case False
  obtain g0 m0 where r: "retire_expired busy now url m = (g0, m0)" by fastforce
  obtain g1 m1 where e1: "evict_locked busy now {url} m0 = (g1, m1)" by fastforce
  obtain m2 where t: "take_entry now url credentials m1 = (client, m2)"
    using b False r e1 by (auto simp: borrow_client_def split: prod.splits)
  obtain g2 where e2: "evict_locked busy now {url} m2 = (g2, m')" and gone: "gone = g0 @ g1 @ g2"
    using b False r e1 t by (auto simp: borrow_client_def split: prod.splits)
  have s0: "held_ok held m0 \<and> cm_cache_maxsize m0 = cm_cache_maxsize m \<and> cm_next m0 = cm_next m \<and>
      (\<forall>c \<in> set g0. c \<notin> set held \<and> \<not> busy c \<and> map_of (cm_clients m0) (pc_url c) = None \<and>
         pc_id c < cm_next m)"
    using evict_step [OF ok False] r by blast
  then have ok0: "held_ok held m0" and c0: "\<not> cm_cache_maxsize m0 \<le> 0" using False by auto
  have s1: "held_ok held m1 \<and> cm_cache_maxsize m1 = cm_cache_maxsize m0 \<and> cm_next m1 = cm_next m0 \<and>
      (\<forall>c \<in> set g1. c \<notin> set held \<and> \<not> busy c \<and> map_of (cm_clients m1) (pc_url c) = None \<and>
         pc_id c < cm_next m0)"
    using evict_step [OF ok0 c0] e1 by blast
  then have ok1: "held_ok held m1" and c1: "\<not> cm_cache_maxsize m1 \<le> 0" using c0 by auto
  note s2 = take_entry_held_ok [OF ok1 c1 t]
  have c2: "\<not> cm_cache_maxsize m2 \<le> 0" using c1 s2(2) by simp
  have s3: "held_ok (client # held) m' \<and> cm_cache_maxsize m' = cm_cache_maxsize m2 \<and>
      cm_next m' = cm_next m2 \<and> (\<forall>c \<in> set g2. c \<notin> set (client # held) \<and> \<not> busy c \<and>
         map_of (cm_clients m') (pc_url c) = None \<and> pc_id c < cm_next m2)"
    using evict_step [OF s2(1) c2] e2 by blast
  have "client \<notin> set (g0 @ g1)"
  proof
    assume "client \<in> set (g0 @ g1)"
    then have "map_of (cm_clients m0) url = None \<or> map_of (cm_clients m1) url = None"
      and "pc_id client < cm_next m1"
      using s0 s1 s2(3) by auto
    moreover from this(2) have "map_of (cm_clients m1) url \<noteq> None" by (rule s2(4))
    ultimately have "map_of (cm_clients m0) url = None" "map_of (cm_clients m1) url \<noteq> None" by auto
    then show False
      using evicts_kept [OF conjunct1 [OF evict_locked_evicts [OF held_ok_wf [OF ok0] e1]], of url] by auto
  qed
  then show ?thesis
    using s0 s1 s2(2,3) s3 gone by auto
qed

lemma return_client_ok:
  assumes ok: "held_ok held m" and c: "client \<in> set held"
    and r: "return_client busy now (pc_url client) client m = (gone, m')"
  shows "held_ok (remove1 client held) m' \<and> cm_cache_maxsize m' = cm_cache_maxsize m \<and>
    (\<forall>c \<in> set gone. c \<notin> set (remove1 client held) \<and> (\<not> busy c \<or> cm_cache_maxsize m \<le> 0))"
proof (cases "cm_cache_maxsize m \<le> 0")
  case True
  then show ?thesis using ok r by (auto simp: return_client_def held_ok_def dest: notin_set_remove1)
next
  case False
  obtain e where e: "map_of (cm_clients m) (pc_url client) = Some e" "en_client e = client"
    using held_ok_held [OF ok False c] by blast
  define new where "new = e\<lparr>en_borrow_count := en_borrow_count e - 1, en_last_used := now,
     en_expires_at := next_expiry now m\<rparr>"
  let ?m = "m\<lparr>cm_clients := dset (pc_url client) new (cm_clients m)\<rparr>"
  have new: "en_client new = client" "en_borrow_count new = en_borrow_count e - 1"
    by (simp_all add: new_def e)
  have ok': "held_ok (remove1 client held) ?m"
  proof (rule held_okI [OF _ _ _ False wf_dset [OF held_ok_wf [OF ok]]])
    fix d assume "d \<in> set (remove1 client held)"
    then have d: "d \<in> set held" using set_remove1_subset by fast
    then obtain e1 where "map_of (cm_clients m) (pc_url d) = Some e1" "en_client e1 = d"
      using held_ok_held [OF ok False d] by blast
    note d_entry = this
    show "pc_id d < cm_next m \<and> (\<exists>e. map_of (dset (pc_url client) new (cm_clients m)) (pc_url d) =
        Some e \<and> en_client e = d)"
    proof (cases "pc_url d = pc_url client")
      case True
      then have "d = client" using d_entry e by (metis option.inject)
      with held_ok_old [OF ok d] new(1) show ?thesis by simp
    next
      case False
      with held_ok_old [OF ok d] d_entry show ?thesis by simp
    qed
  next
    fix k e1 assume "map_of (dset (pc_url client) new (cm_clients m)) k = Some e1"
    then show "pc_url (en_client e1) = k \<and> pc_id (en_client e1) < cm_next m \<and>
        en_borrow_count e1 = count_list (remove1 client held) (en_client e1)"
      using held_ok_entry [OF ok False, of k] held_ok_entry [OF ok False e(1)] e(2) new
      by (cases "k = pc_url client") auto
  qed simp_all
  have c': "\<not> cm_cache_maxsize ?m \<le> 0" using False by simp
  have "evict_locked busy now {} ?m = (gone, m')"
    using r e False by (simp add: return_client_def new_def)
  then show ?thesis using evict_step [OF ok' c', of busy now "{}" gone m'] by auto
qed

lemma manager_step_ok:
  assumes ok: "held_ok held m" and st: "manager_step ev (held, m) = (gone, held', m')"
  shows "held_ok held' m' \<and> cm_cache_maxsize m' = cm_cache_maxsize m \<and>
    (\<forall>c \<in> set gone. c \<notin> set held' \<and> (\<not> event_busy ev c \<or> cm_cache_maxsize m \<le> 0))"
proof (cases ev)
  case (Borrow busy now url credentials)
  obtain client g m1 where b: "borrow_client busy now url credentials m = (client, g, m1)"
    using prod_cases3 by blast
  from borrow_client_ok [OF ok b] show ?thesis using st b Borrow by auto
next
  case (Return busy now client)
  obtain g m1 where r: "return_client busy now (pc_url client) client m = (g, m1)" by fastforce
  show ?thesis
  proof (cases "client \<in> set held")
    case True
    from return_client_ok [OF ok True r] show ?thesis using st r Return True by auto
  next
    case False
    then show ?thesis using st ok Return by auto
  qed
qed

lemma manager_run_ok:
  "held_ok held m \<Longrightarrow> manager_run evs (held, m) = (held', m') \<Longrightarrow>
     held_ok held' m' \<and> cm_cache_maxsize m' = cm_cache_maxsize m"
proof (induction evs arbitrary: held m)
  case (Cons ev evs)
  obtain gone held1 m1 where st: "manager_step ev (held, m) = (gone, held1, m1)"
    using prod_cases3 by blast
  from manager_step_ok [OF Cons.prems(1) st] Cons.IH [of held1 m1] Cons.prems(2) st
  show ?case by auto
qed simp

text \<open>
  C20. Whatever sequence of borrowings and returns the manager serves, it closes a client only when
  nobody holds it: a client closed by an event is not among those held after it, and, where clients
  are cached, it had no request in flight. Two holders of one address share one client that the
  table still knows.
\<close>

theorem held_client_is_never_closed:
  assumes "manager_run evs ([], client_manager_init ttl maxsize) = (held, m)"
    and "manager_step ev (held, m) = (gone, held', m')"
  shows "set gone \<inter> set held' = {} \<and>
    (0 < maxsize \<longrightarrow> (\<forall>c \<in> set gone. \<not> event_busy ev c) \<and>
       (\<forall>c \<in> set held'. \<exists>e. map_of (cm_clients m') (pc_url c) = Some e \<and> en_client e = c \<and>
          en_borrow_count e = count_list held' c))"
proof -
  have ok: "held_ok held m" "cm_cache_maxsize m = maxsize"
    using manager_run_ok [OF held_ok_init assms(1)] by (simp_all add: client_manager_init_def)
  have st: "held_ok held' m' \<and> cm_cache_maxsize m' = maxsize \<and>
      (\<forall>c \<in> set gone. c \<notin> set held' \<and> (\<not> event_busy ev c \<or> maxsize \<le> 0))"
    using manager_step_ok [OF ok(1) assms(2)] ok(2) by simp
  have "\<exists>e. map_of (cm_clients m') (pc_url c) = Some e \<and> en_client e = c \<and>
      en_borrow_count e = count_list held' c" if c: "c \<in> set held'" "0 < maxsize" for c
  proof -
    have cached: "\<not> cm_cache_maxsize m' \<le> 0" using st c(2) by simp
    obtain e where e: "map_of (cm_clients m') (pc_url c) = Some e" "en_client e = c"
      using held_ok_held [OF conjunct1 [OF st] cached c(1)] by blast
    with held_ok_entry [OF conjunct1 [OF st] cached e(1)] show ?thesis by auto
  qed
  with st show ?thesis by (auto 0 3)
qed

text \<open>
  The address \<open>a\<close> outlives its place in a table of one while it is held, and is closed when returned.
\<close>

definition peer_a :: peer_client where
  "peer_a = \<lparr>pc_id = 0, pc_url = ''a'', pc_credentials = True\<rparr>"

definition two_peers :: "manager_event list" where
  "two_peers = [Borrow (\<lambda>c. False) 1 ''a'' True, Borrow (\<lambda>c. False) 2 ''b'' True]"

lemma held_client_is_never_closed_witness:
  "(let (gone, held, m) = manager_step (Return (\<lambda>c. False) 3 peer_a)
        (manager_run two_peers ([], client_manager_init 0 1))
    in gone = [peer_a] \<and> map pc_url held = [''b''] \<and> set gone \<inter> set held = {})"
proof -
  let ?s = "manager_run two_peers ([], client_manager_init 0 1)"
  let ?t = "manager_step (Return (\<lambda>c. False) 3 peer_a) ?s"
  have "set (fst ?t) \<inter> set (fst (snd ?t)) = {}"
    using held_client_is_never_closed [of two_peers 0 1 "fst ?s" "snd ?s" "Return (\<lambda>c. False) 3 peer_a"
        "fst ?t" "fst (snd ?t)" "snd (snd ?t)"] by simp
  moreover have "fst ?t = [peer_a] \<and> map pc_url (fst (snd ?t)) = [''b'']" by code_simp
  ultimately show ?thesis by (simp add: case_prod_unfold)
qed

section \<open>How far the table grows\<close>

lemma length_ddel_present:
  assumes "wf_dict C" "key \<in> fst ` set C"
  shows "length (ddel key C) = length C - 1"
proof -
  have "map fst (ddel key C) = remove1 key (map fst C)"
    using assms(1) by (simp add: AList.delete_keys distinct_remove1_removeAll)
  then have "length (ddel key C) = length (remove1 key (map fst C))" by (metis length_map)
  then show ?thesis using assms(2) by (simp add: length_remove1)
qed

lemma evict_lru_idle:
  "\<forall>(k, e) \<in> set items. \<not> in_use busy e \<Longrightarrow> wf_dict items \<Longrightarrow> wf_dict C \<Longrightarrow>
   fst ` set items \<subseteq> fst ` set C \<Longrightarrow>
   int (length (snd (evict_lru busy maxsize {} items C))) \<le> max maxsize (int (length C) - int (length items))"
proof (induction busy maxsize "{} :: string set" items C rule: evict_lru.induct)
  case (2 busy maxsize key e items C)
  show ?case
  proof (cases "int (length C) \<le> maxsize")
    case False
    have key: "key \<in> fst ` set C" "key \<notin> fst ` set items" using 2(5,7) by auto
    have "fst ` set (ddel key C) = fst ` set C - {key}"
      using AList.delete_keys [of key C] by (metis list.set_map set_removeAll)
    moreover have "fst ` set items \<subseteq> fst ` set C" using 2(7) by simp
    ultimately have "fst ` set items \<subseteq> fst ` set (ddel key C)"
      using key(2) by (simp only: subset_Diff_insert Diff_empty simp_thms)
    moreover have "length (ddel key C) = length C - 1" "0 < length C"
      using length_ddel_present [OF 2(6) key(1)] key(1) by (simp, cases C, simp_all)
    ultimately show ?thesis
      using 2(3) [OF False] 2(4-6) False by (simp add: case_prod_unfold Let_def of_nat_diff Suc_le_eq)
  qed simp
qed auto

lemma evict_stale_idle:
  "\<forall>(k, e) \<in> set C. \<not> in_use busy e \<Longrightarrow> evict_stale busy now {} C = (gone, kept) \<Longrightarrow>
     set kept \<subseteq> set C \<and> (\<forall>(k, e) \<in> set kept. \<not> en_pending_eviction e)"
  by (induction busy now "{} :: string set" C arbitrary: gone kept rule: evict_stale.induct)
    (fastforce split: if_splits prod.splits)+

lemma evict_locked_idle:
  assumes "\<forall>(k, e) \<in> set (cm_clients m). \<not> in_use busy e" "wf_dict (cm_clients m)"
    and "0 < cm_cache_maxsize m" "evict_locked busy now {} m = (gone, m')"
  shows "int (length (cm_clients m')) \<le> cm_cache_maxsize m"
proof -
  obtain g kept where st: "evict_stale busy now {} (cm_clients m) = (g, kept)" by fastforce
  let ?items = "sort_key (\<lambda>(key, e). en_last_used e) kept"
  note kept = evict_stale_idle [OF assms(1) st]
  have wf: "wf_dict kept" by (rule evicts_wf [OF evict_stale_evicts [OF assms(2) st]])
  have "int (length (snd (evict_lru busy (cm_cache_maxsize m) {} ?items kept)))
      \<le> max (cm_cache_maxsize m) (int (length kept) - int (length ?items))"
    by (rule evict_lru_idle) (use kept assms(1) wf in \<open>auto simp: distinct_map\<close>)
  moreover have "\<not> (\<exists>(key, e) \<in> set kept. en_pending_eviction e)" using kept by auto
  ultimately show ?thesis
    using assms(3,4) st by (auto simp: evict_locked_def case_prod_unfold Let_def split: if_splits)
qed

text \<open>
  Once the last client is returned and none of them has a request in flight, the table holds at
  most maxsize clients, whatever was borrowed before.
\<close>

theorem idle_table_is_bounded:
  assumes "manager_run evs ([], client_manager_init ttl maxsize) = ([client], m)"
    and "manager_step (Return busy now client) ([client], m) = (gone, held', m')"
    and "0 < maxsize" "\<forall>c. \<not> busy c"
  shows "held' = [] \<and> int (length (cm_clients m')) \<le> maxsize"
proof -
  have ok: "held_ok [client] m" "cm_cache_maxsize m = maxsize"
    using manager_run_ok [OF held_ok_init assms(1)] by (simp_all add: client_manager_init_def)
  have cached: "\<not> cm_cache_maxsize m \<le> 0" using ok(2) assms(3) by simp
  obtain e where e: "map_of (cm_clients m) (pc_url client) = Some e" "en_client e = client"
    using held_ok_held [OF ok(1) cached, of client] by auto
  let ?new = "e\<lparr>en_borrow_count := en_borrow_count e - 1, en_last_used := now,
     en_expires_at := next_expiry now m\<rparr>"
  let ?m = "m\<lparr>cm_clients := dset (pc_url client) ?new (cm_clients m)\<rparr>"
  have "\<not> in_use busy e1" if e1: "map_of (cm_clients ?m) k = Some e1" for k e1
  proof (cases "k = pc_url client")
    case True
    then have "e1 = ?new" using e1 by simp
    then show ?thesis
      using held_ok_entry [OF ok(1) cached e(1)] e(2) assms(4) by (simp add: in_use_def)
  next
    case False
    then have k: "map_of (cm_clients m) k = Some e1" using e1 by simp
    have "en_client e1 \<noteq> client" using held_ok_entry [OF ok(1) cached k] False by auto
    then show ?thesis
      using held_ok_entry [OF ok(1) cached k] assms(4) by (simp add: in_use_def)
  qed
  then have "\<forall>(k, e) \<in> set (cm_clients ?m). \<not> in_use busy e"
    using wf_dset [OF held_ok_wf [OF ok(1)], of "pc_url client" ?new]
    by (auto simp del: map_of_dset dest: map_of_is_SomeI)
  moreover have "evict_locked busy now {} ?m = (gone, m')" "held' = []"
    using assms(2) e cached by (auto simp: return_client_def split: prod.splits)
  ultimately show ?thesis
    using evict_locked_idle [of ?m busy now gone m'] wf_dset [OF held_ok_wf [OF ok(1)]] ok(2) assms(3)
    by auto
qed

definition two_peers_back :: "manager_event list" where
  "two_peers_back = two_peers @ [Return (\<lambda>c. False) 3 peer_a]"

lemma idle_table_is_bounded_witness:
  "(let (gone, held, m) = manager_step (Return (\<lambda>c. False) 4 \<lparr>pc_id = 1, pc_url = ''b'', pc_credentials = True\<rparr>)
        (manager_run two_peers_back ([], client_manager_init 0 1))
    in held = [] \<and> length (cm_clients m) \<le> 1)"
proof -
  let ?b = "\<lparr>pc_id = 1, pc_url = ''b'', pc_credentials = True\<rparr>"
  let ?s = "manager_run two_peers_back ([], client_manager_init 0 1)"
  let ?t = "manager_step (Return (\<lambda>c. False) 4 ?b) ?s"
  have s: "fst ?s = [?b]" by code_simp
  then have "?s = ([?b], snd ?s)" "manager_step (Return (\<lambda>c. False) 4 ?b) ([?b], snd ?s) =
      (fst ?t, fst (snd ?t), snd (snd ?t))"
    by (metis prod.collapse)+
  from idle_table_is_bounded [OF this] show ?thesis by (simp add: case_prod_unfold)
qed

text \<open>
  The limit does not hold while a client evicted by age is still held: the table then keeps every
  address used since, although nobody holds them.
\<close>

definition visit :: "seconds \<Rightarrow> string \<Rightarrow> client_manager \<Rightarrow> client_manager" where
  "visit now url m =
     (let (client, gone, m') = borrow_client (\<lambda>c. False) now url True m
      in snd (return_client (\<lambda>c. False) now url client m'))"

definition stuck :: "client_manager \<Rightarrow> bool" where
  "stuck m \<longleftrightarrow> 0 < cm_cache_maxsize m \<and> cm_cache_ttl_seconds m \<le> 0 \<and>
     (\<exists>(k, e) \<in> set (cm_clients m). en_pending_eviction e) \<and> cm_cache_maxsize m \<le> int (length (cm_clients m)) \<and>
     (\<forall>(k, e) \<in> set (cm_clients m). en_expires_at e = None \<and>
        (en_pending_eviction e \<longrightarrow> 0 < en_borrow_count e))"

lemma evict_stale_stuck:
  "\<forall>(k, e) \<in> set C. en_expires_at e = None \<and> (en_pending_eviction e \<longrightarrow> 0 < en_borrow_count e) \<Longrightarrow>
     evict_stale busy now protected C = ([], C)"
  by (induction busy now protected C rule: evict_stale.induct)
    (auto simp: en_expired_def in_use_def cache_entry.splits)

lemma dset_end: "k \<notin> fst ` set d \<Longrightarrow> dset k v (d @ [(k, w)]) = d @ [(k, v)]"
  by (induction d) auto

lemma evict_locked_stuck: "stuck m \<Longrightarrow> evict_locked busy now protected m = ([], m)"
  using evict_stale_stuck [of "cm_clients m" busy now protected]
  by (auto simp: stuck_def evict_locked_def)

lemma visit_stuck:
  assumes st: "stuck m" and wf: "wf_dict (cm_clients m)" and fresh: "url \<notin> fst ` set (cm_clients m)"
  shows "stuck (visit now url m) \<and> wf_dict (cm_clients (visit now url m)) \<and>
    map fst (cm_clients (visit now url m)) = map fst (cm_clients m) @ [url]"
proof -
  have none: "map_of (cm_clients m) url = None" using fresh by (simp add: map_of_eq_None_iff)
  have c: "\<not> cm_cache_maxsize m \<le> 0" "next_expiry now m = None"
    using st by (simp_all add: stuck_def next_expiry_def)
  let ?client = "\<lparr>pc_id = cm_next m, pc_url = url, pc_credentials = True\<rparr>"
  let ?entry = "\<lambda>n. \<lparr>en_client = ?client, en_last_used = now, en_expires_at = None,
    en_borrow_count = n, en_pending_eviction = False\<rparr>"
  let ?m = "\<lambda>n. m\<lparr>cm_clients := cm_clients m @ [(url, ?entry n)], cm_next := cm_next m + 1\<rparr>"
  have stuck: "stuck (?m n)" for n using st by (auto simp: stuck_def)
  have "take_entry now url True m = (?client, ?m 1)"
    using none c(2) by (simp add: take_entry_def dset_new Let_def)
  then have "borrow_client (\<lambda>c. False) now url True m = (?client, [], ?m 1)"
    using c(1) none evict_locked_stuck [OF st] evict_locked_stuck [OF stuck]
    by (simp add: borrow_client_def retire_expired_def)
  moreover have "return_client (\<lambda>c. False) now url ?client (?m 1) = ([], ?m 0)"
  proof -
    have "(?m 1)\<lparr>cm_clients := dset url (?entry 0) (cm_clients (?m 1))\<rparr> = ?m 0"
      using dset_end [OF fresh] by (cases m) simp
    moreover have "map_of (cm_clients (?m 1)) url = Some (?entry 1)" "next_expiry now (?m 1) = None"
      using none st by (simp_all add: map_add_def next_expiry_def stuck_def)
    ultimately show ?thesis
      using c(1) evict_locked_stuck [OF stuck, of "\<lambda>c. False" now "{}" 0]
      by (simp add: return_client_def)
  qed
  ultimately have "visit now url m = ?m 0" by (simp add: visit_def)
  then show ?thesis using stuck wf fresh by simp
qed

lemma visits_stuck:
  "stuck m \<Longrightarrow> wf_dict (cm_clients m) \<Longrightarrow> distinct us \<Longrightarrow> set us \<inter> fst ` set (cm_clients m) = {} \<Longrightarrow>
     map fst (cm_clients (fold (visit now) us m)) = map fst (cm_clients m) @ us"
proof (induction us arbitrary: m)
  case (Cons url us)
  have v: "stuck (visit now url m) \<and> wf_dict (cm_clients (visit now url m)) \<and>
      map fst (cm_clients (visit now url m)) = map fst (cm_clients m) @ [url]"
    using Cons.prems by (intro visit_stuck) auto
  then have "fst ` set (cm_clients (visit now url m)) = insert url (fst ` set (cm_clients m))"
    using list.set_map [of fst] by (metis Un_insert_right list.set sup_bot.right_neutral set_append)
  then have "set us \<inter> fst ` set (cm_clients (visit now url m)) = {}"
    using Cons.prems(3,4) by auto
  from Cons.IH [OF conjunct1 [OF v] conjunct1 [OF conjunct2 [OF v]] _ this] v Cons.prems(3)
  show ?case by auto
qed simp

definition one_held :: client_manager where
  "one_held = visit 2 ''b'' (snd (manager_run [Borrow (\<lambda>c. False) 1 ''a'' True]
     ([], client_manager_init 0 1)))"

text \<open>
  The limit is not kept while a client over the limit is held: in a manager for one client, once
  b was borrowed and returned while a is held, every other address used and returned since stays
  in the table.
\<close>

theorem held_client_lets_the_table_grow:
  assumes "distinct us" "''a'' \<notin> set us" "''b'' \<notin> set us"
  shows "cm_cache_maxsize one_held = 1 \<and>
    map fst (cm_clients (fold (visit 3) us one_held)) = ''a'' # ''b'' # us"
proof -
  have m: "stuck one_held" "wf_dict (cm_clients one_held)" "map fst (cm_clients one_held) = [''a'', ''b'']"
    "cm_cache_maxsize one_held = 1"
    unfolding stuck_def by code_simp+
  have "fst ` set (cm_clients one_held) = {''a'', ''b''}"
    using arg_cong [OF m(3), of set] by simp
  then have "set us \<inter> fst ` set (cm_clients one_held) = {}" using assms by auto
  from visits_stuck [OF m(1,2) assms(1) this] m(3,4) show ?thesis by simp
qed

lemma held_client_lets_the_table_grow_witness:
  "map fst (cm_clients (fold (visit 3) [''c'', ''d'', ''e''] one_held)) = [''a'', ''b'', ''c'', ''d'', ''e'']"
  by (rule conjunct2 [OF held_client_lets_the_table_grow]) simp_all

end
