(* ===== verification/Peer_Agents.thy ===== *)
theory Peer_Agents
  imports Network_Policy Peer_Manager
begin

text \<open>
  Borrowing a client for an agent: the network policy decides, then the table hands out a client with
  or without the configured credentials (\<open>borrow_client\<close> of \<open>server/client_manager.py\<close> as a whole).
\<close>

section \<open>Clients for agents\<close>

record peer_settings =
  ps_allowed_hosts :: "string list"
  ps_allow_private_hosts :: bool
  ps_credentials :: bool

datatype agent_event =
    Agent_Borrow network "peer_client \<Rightarrow> bool" seconds string
  | Agent_Return "peer_client \<Rightarrow> bool" seconds peer_client

text \<open>
  \<open>borrow_client\<close> from its start: the policy decides for the address at that moment; the credentials
  that are configured go to the new client only if the host may have them.
\<close>

definition borrow_agent ::
    "peer_settings \<Rightarrow> network \<Rightarrow> (peer_client \<Rightarrow> bool) \<Rightarrow> seconds \<Rightarrow> string
       \<Rightarrow> peer_client list \<times> client_manager
       \<Rightarrow> policy_error + peer_client list \<times> peer_client list \<times> client_manager" where
  "borrow_agent ps nw busy now agent_url s =
     (let url = rstrip_char CHR ''/'' agent_url
      in case validate_agent_url nw url (ps_allowed_hosts ps) (ps_allow_private_hosts ps) of
           Inl e \<Rightarrow> Inl e
         | Inr policy \<Rightarrow>
             Inr (manager_step (Borrow busy now url (ps_credentials ps \<and> np_credentials_allowed policy)) s))"

fun agent_step ::
    "peer_settings \<Rightarrow> agent_event \<Rightarrow> peer_client list \<times> client_manager
       \<Rightarrow> peer_client list \<times> client_manager" where
  "agent_step ps (Agent_Borrow nw busy now agent_url) s =
     (case borrow_agent ps nw busy now agent_url s of Inl _ \<Rightarrow> s | Inr r \<Rightarrow> snd r)"
| "agent_step ps (Agent_Return busy now client) s = snd (manager_step (Return busy now client) s)"

definition agent_run ::
    "peer_settings \<Rightarrow> agent_event list \<Rightarrow> peer_client list \<times> client_manager
       \<Rightarrow> peer_client list \<times> client_manager" where
  "agent_run ps evs s = fold (agent_step ps) evs s"

definition clients_of :: "client_manager \<Rightarrow> peer_client set" where
  "clients_of m = {en_client e | k e. map_of (cm_clients m) k = Some e}"

lemma evict_clients:
  assumes "wf_dict (cm_clients m)"
    "evict_locked busy now protected m = (gone, m') \<or> retire_expired busy now url m = (gone, m')"
  shows "clients_of m' \<subseteq> clients_of m \<and> wf_dict (cm_clients m')"
proof -
  have "evicts busy (cm_clients m) (cm_clients m') gone"
    using assms(2) evict_locked_evicts [OF assms(1)] retire_expired_evicts [OF assms(1)] by blast
  from evicts_kept [OF this] evicts_wf [OF this] show ?thesis by (auto simp: clients_of_def) metis
qed

lemma take_entry_clients:
  assumes "take_entry now url credentials m = (client, m')" "wf_dict (cm_clients m)"
  shows "clients_of m' \<subseteq> insert client (clients_of m) \<and> wf_dict (cm_clients m') \<and>
    (client \<in> clients_of m \<or> pc_url client = url \<and> pc_credentials client = credentials)"
  using assms
  by (auto simp: take_entry_def clients_of_def Let_def split: option.splits if_splits) metis+

lemma borrow_clients:
  assumes "borrow_client busy now url credentials m = (client, gone, m')" "wf_dict (cm_clients m)"
  shows "clients_of m' \<subseteq> insert client (clients_of m) \<and> wf_dict (cm_clients m') \<and>
    (client \<in> clients_of m \<or> pc_url client = url \<and> pc_credentials client = credentials)"
proof (cases "cm_cache_maxsize m \<le> 0")
  case True
  then have c: "cm_clients m' = cm_clients m" "pc_url client = url" "pc_credentials client = credentials"
    using assms by (auto simp: borrow_client_def)
  then have "clients_of m' = clients_of m" by (simp add: clients_of_def)
  with c assms(2) show ?thesis by auto
next
  case False
  obtain g0 m0 where r: "retire_expired busy now url m = (g0, m0)" by fastforce
  obtain g1 m1 where e1: "evict_locked busy now {url} m0 = (g1, m1)" by fastforce
  obtain m2 where t: "take_entry now url credentials m1 = (client, m2)"
    using assms False r e1 by (auto simp: borrow_client_def split: prod.splits)
  obtain g2 where e2: "evict_locked busy now {url} m2 = (g2, m')"
    using assms False r e1 t by (auto simp: borrow_client_def split: prod.splits)
  have s0: "clients_of m0 \<subseteq> clients_of m \<and> wf_dict (cm_clients m0)"
    using evict_clients [OF assms(2)] r by blast
  have s1: "clients_of m1 \<subseteq> clients_of m0 \<and> wf_dict (cm_clients m1)"
    using evict_clients s0 e1 by blast
  have s2: "clients_of m2 \<subseteq> insert client (clients_of m1) \<and> wf_dict (cm_clients m2) \<and>
      (client \<in> clients_of m1 \<or> pc_url client = url \<and> pc_credentials client = credentials)"
    using take_entry_clients [OF t] s1 by blast
  have "clients_of m' \<subseteq> clients_of m2 \<and> wf_dict (cm_clients m')" using evict_clients s2 e2 by blast
  with s0 s1 s2 show ?thesis by blast
qed

lemma return_clients:
  assumes "return_client busy now url client m = (gone, m')" "wf_dict (cm_clients m)"
  shows "clients_of m' \<subseteq> clients_of m \<and> wf_dict (cm_clients m')"
proof (cases "cm_cache_maxsize m \<le> 0")
  case True
  then show ?thesis using assms by (simp add: return_client_def)
next
  case False
  define m1 where "m1 = (case map_of (cm_clients m) url of
      Some e \<Rightarrow> if en_client e = client
             then m\<lparr>cm_clients := dset url
               (e\<lparr>en_borrow_count := en_borrow_count e - 1, en_last_used := now,
                  en_expires_at := next_expiry now m\<rparr>) (cm_clients m)\<rparr>
             else m
    | None \<Rightarrow> m)"
  have "wf_dict (cm_clients m1)" using assms(2) by (simp add: m1_def split: option.split)
  moreover have "clients_of m1 \<subseteq> clients_of m"
    by (auto simp: m1_def clients_of_def split: option.splits if_splits)
  moreover have "evict_locked busy now {} m1 = (gone, m')"
    using assms(1) False by (auto simp: return_client_def m1_def split: option.splits)
  ultimately show ?thesis using evict_clients by blast
qed

lemma manager_step_clients:
  assumes "wf_dict (cm_clients m)" "\<forall>c \<in> set held \<union> clients_of m. P (pc_url c) (pc_credentials c)"
    and "case ev of Borrow busy now url credentials \<Rightarrow> P url credentials | Return busy now client \<Rightarrow> True"
    and "snd (manager_step ev (held, m)) = (held', m')"
  shows "wf_dict (cm_clients m') \<and> (\<forall>c \<in> set held' \<union> clients_of m'. P (pc_url c) (pc_credentials c))"
proof (cases ev)
  case (Borrow busy now url credentials)
  obtain client g m1 where b: "borrow_client busy now url credentials m = (client, g, m1)"
    using prod_cases3 by blast
  from borrow_clients [OF b assms(1)] show ?thesis using assms b Borrow by auto
next
  case (Return busy now client)
  obtain g m1 where r: "return_client busy now (pc_url client) client m = (g, m1)" by fastforce
  from return_clients [OF r assms(1)] show ?thesis
    using assms(1,2,4) r Return set_remove1_subset [of client held] by (auto split: if_splits)
qed

definition credentials_allowed_for :: "peer_settings \<Rightarrow> string \<Rightarrow> bool \<Rightarrow> bool" where
  "credentials_allowed_for ps url credentials \<longleftrightarrow>
     (\<exists>nw policy. validate_agent_url nw url (ps_allowed_hosts ps) (ps_allow_private_hosts ps) = Inr policy \<and>
        (credentials \<longrightarrow> ps_credentials ps \<and> np_credentials_allowed policy))"

lemma agent_run_clients:
  "wf_dict (cm_clients m) \<Longrightarrow>
   \<forall>c \<in> set held \<union> clients_of m. credentials_allowed_for ps (pc_url c) (pc_credentials c) \<Longrightarrow>
   agent_run ps evs (held, m) = (held', m') \<Longrightarrow>
   \<forall>c \<in> set held' \<union> clients_of m'. credentials_allowed_for ps (pc_url c) (pc_credentials c)"
proof (induction evs arbitrary: held m)
  case (Cons ev evs)
  obtain held1 m1 where st: "agent_step ps ev (held, m) = (held1, m1)" by fastforce
  have "wf_dict (cm_clients m1) \<and>
      (\<forall>c \<in> set held1 \<union> clients_of m1. credentials_allowed_for ps (pc_url c) (pc_credentials c))"
  proof (cases ev)
    case (Agent_Return busy now client)
    then show ?thesis
      using manager_step_clients [OF Cons.prems(1,2), of "Return busy now client"] st by simp
  next
    case (Agent_Borrow nw busy now agent_url)
    let ?url = "rstrip_char CHR ''/'' agent_url"
    show ?thesis
    proof (cases "validate_agent_url nw ?url (ps_allowed_hosts ps) (ps_allow_private_hosts ps)")
      case (Inl e)
      then show ?thesis using st Agent_Borrow Cons.prems by (auto simp: borrow_agent_def Let_def)
    next
      case (Inr policy)
      let ?ev = "Borrow busy now ?url (ps_credentials ps \<and> np_credentials_allowed policy)"
      have "snd (manager_step ?ev (held, m)) = (held1, m1)"
        using st Agent_Borrow Inr by (simp add: borrow_agent_def Let_def del: manager_step.simps)
      moreover have "credentials_allowed_for ps ?url (ps_credentials ps \<and> np_credentials_allowed policy)"
        using Inr by (auto simp: credentials_allowed_for_def)
      ultimately show ?thesis
        using manager_step_clients [OF Cons.prems(1,2), of ?ev] by (simp del: manager_step.simps)
    qed
  qed
  with Cons.IH [of m1 held1] Cons.prems(3) st show ?case by (simp add: agent_run_def)
qed (simp add: agent_run_def)

text \<open>
  C21. Whatever agents are called, and however their names resolve at each call, a client that carries
  the configured credentials is for an address whose host is on the allow list; and every client that
  is handed out is for an http or https address with a host and without a user name.
\<close>

theorem credentials_stay_on_the_list:
  assumes "agent_run ps evs ([], client_manager_init ttl maxsize) = (held, m)" "c \<in> set held"
  shows "\<exists>nw parsed. urlsplit nw (strip (pc_url c)) = Inr parsed \<and>
    su_scheme parsed \<in> {''http'', ''https''} \<and> \<not> url_has_userinfo (su_netloc parsed) \<and>
    (pc_credentials c \<longrightarrow> ps_credentials ps \<and>
      (\<exists>entry \<in> set (host_allowlist (ps_allowed_hosts ps)).
         listed (normalize_host (lower (strip (url_hostname (su_netloc parsed))))) (normalize_host entry)))"
proof -
  have "credentials_allowed_for ps (pc_url c) (pc_credentials c)"
    using agent_run_clients [of "client_manager_init ttl maxsize" "[]" ps evs held m] assms
    by (auto simp: client_manager_init_def clients_of_def)
  then obtain nw policy where
    v: "validate_agent_url nw (pc_url c) (ps_allowed_hosts ps) (ps_allow_private_hosts ps) = Inr policy"
    and cred: "pc_credentials c \<longrightarrow> ps_credentials ps \<and> np_credentials_allowed policy"
    by (auto simp: credentials_allowed_for_def)
  from admitted_safe [OF v] cred show ?thesis by (intro exI [of _ nw]) auto
qed


definition listed_agent :: peer_settings where
  "listed_agent = \<lparr>ps_allowed_hosts = [''*.example.com''], ps_allow_private_hosts = False,
     ps_credentials = True\<rparr>"

definition two_calls :: "agent_event list" where
  "two_calls = [Agent_Borrow small_network (\<lambda>c. False) 1 ''http://evil.test/'',
     Agent_Borrow small_network (\<lambda>c. False) 2 ''https://api.example.com/'']"

lemma credentials_stay_on_the_list_witness:
  "(let c = \<lparr>pc_id = 0, pc_url = ''https://api.example.com'', pc_credentials = True\<rparr>
    in fst (agent_run listed_agent two_calls ([], client_manager_init 0 4)) = [c] \<and>
       (\<exists>nw parsed. urlsplit nw (strip (pc_url c)) = Inr parsed \<and> \<not> url_has_userinfo (su_netloc parsed)))"
proof -
  let ?c = "\<lparr>pc_id = 0, pc_url = ''https://api.example.com'', pc_credentials = True\<rparr>"
  let ?s = "agent_run listed_agent two_calls ([], client_manager_init 0 4)"
  have held: "fst ?s = [?c]" by code_simp
  then have "?s = ([?c], snd ?s)" by (metis prod.collapse)
  from credentials_stay_on_the_list [OF this, of ?c] held show ?thesis by (auto simp: Let_def)
qed

end
