(* ===== verification/Peer_Polling.thy ===== *)
theory Peer_Polling
  imports Tool_Calls
begin

text \<open>
  Waiting for a peer's task by polling (\<open>client/polling.py\<close> and the polling loop of
  \<open>client/client.py\<close>). The settings are floats, which may be infinite or not a number at all; the
  times and delays of a run are rationals. The loop may run forever, so it is a partial function:
  \<open>None\<close> is not returning.
\<close>

section \<open>Floats\<close>

datatype pyfloat = Fin rat | PosInf | NegInf | NaN

fun float_less :: "pyfloat \<Rightarrow> pyfloat \<Rightarrow> bool" where
  "float_less NaN y = False"
| "float_less x NaN = False"
| "float_less (Fin a) (Fin b) = (a < b)"
| "float_less (Fin a) y = (y = PosInf)"
| "float_less PosInf y = False"
| "float_less NegInf y = (y \<noteq> NegInf)"

definition float_leq :: "pyfloat \<Rightarrow> pyfloat \<Rightarrow> bool" where
  "float_leq x y \<longleftrightarrow> x \<noteq> NaN \<and> y \<noteq> NaN \<and> (float_less x y \<or> x = y)"

text \<open>\<open>min(x, y)\<close> and \<open>max(x, y)\<close> of Python, which keep \<open>x\<close> unless \<open>y\<close> is strictly better.\<close>

definition float_min :: "pyfloat \<Rightarrow> pyfloat \<Rightarrow> pyfloat" where
  "float_min x y = (if float_less y x then y else x)"

definition float_max :: "pyfloat \<Rightarrow> pyfloat \<Rightarrow> pyfloat" where
  "float_max x y = (if float_less x y then y else x)"

fun float_plus :: "pyfloat \<Rightarrow> pyfloat \<Rightarrow> pyfloat" where
  "float_plus (Fin a) (Fin b) = Fin (a + b)"
| "float_plus NaN y = NaN"
| "float_plus x NaN = NaN"
| "float_plus PosInf NegInf = NaN"
| "float_plus NegInf PosInf = NaN"
| "float_plus (Fin a) y = y"
| "float_plus x y = x"

fun float_uminus :: "pyfloat \<Rightarrow> pyfloat" where
  "float_uminus (Fin a) = Fin (- a)"
| "float_uminus PosInf = NegInf"
| "float_uminus NegInf = PosInf"
| "float_uminus NaN = NaN"

definition float_minus :: "pyfloat \<Rightarrow> pyfloat \<Rightarrow> pyfloat" where
  "float_minus x y = float_plus x (float_uminus y)"

fun float_times :: "pyfloat \<Rightarrow> pyfloat \<Rightarrow> pyfloat" where
  "float_times (Fin a) (Fin b) = Fin (a * b)"
| "float_times NaN y = NaN"
| "float_times x NaN = NaN"
| "float_times x y =
     (if x = Fin 0 \<or> y = Fin 0 then NaN
      else if float_less x (Fin 0) = float_less y (Fin 0) then PosInf else NegInf)"

section \<open>The policy\<close>

record polling_fallback_policy =
  pf_enabled :: bool
  pf_initial_interval_seconds :: pyfloat
  pf_max_interval_seconds :: pyfloat
  pf_backoff_multiplier :: pyfloat
  pf_timeout_seconds :: pyfloat

definition AUTO_POLLING_TASK_STATES :: "task_state set" where
  "AUTO_POLLING_TASK_STATES = {TASK_STATE_SUBMITTED, TASK_STATE_WORKING, TASK_STATE_UNSPECIFIED}"

definition should_poll_state :: "task_state \<Rightarrow> bool" where
  "should_poll_state state \<longleftrightarrow> state \<in> AUTO_POLLING_TASK_STATES"

definition is_terminal_state :: "task_state \<Rightarrow> bool" where
  "is_terminal_state state \<longleftrightarrow> state \<in> TERMINAL_TASK_STATES"

definition next_interval_seconds :: "polling_fallback_policy \<Rightarrow> pyfloat \<Rightarrow> pyfloat" where
  "next_interval_seconds p current =
     float_min (float_times (float_max current (Fin 0)) (pf_backoff_multiplier p))
       (pf_max_interval_seconds p)"

definition validate_polling_fallback_policy :: "polling_fallback_policy \<Rightarrow> string + unit" where
  "validate_polling_fallback_policy p =
     (if float_leq (pf_initial_interval_seconds p) (Fin 0)
      then Inl ''A2A_CLIENT_POLLING_FALLBACK_INITIAL_INTERVAL_SECONDS must be positive''
      else if float_leq (pf_max_interval_seconds p) (Fin 0)
      then Inl ''A2A_CLIENT_POLLING_FALLBACK_MAX_INTERVAL_SECONDS must be positive''
      else if float_less (pf_backoff_multiplier p) (Fin 1)
      then Inl ''A2A_CLIENT_POLLING_FALLBACK_BACKOFF_MULTIPLIER must be greater than or equal to 1''
      else if float_leq (pf_timeout_seconds p) (Fin 0)
      then Inl ''A2A_CLIENT_POLLING_FALLBACK_TIMEOUT_SECONDS must be positive''
      else if float_less (pf_max_interval_seconds p) (pf_initial_interval_seconds p)
      then Inl ''A2A_CLIENT_POLLING_FALLBACK_MAX_INTERVAL_SECONDS must be greater than or equal to A2A_CLIENT_POLLING_FALLBACK_INITIAL_INTERVAL_SECONDS''
      else Inr ())"

section \<open>Polling\<close>

record polled_task =
  pt_id :: string
  pt_state :: task_state

text \<open>
  What a run of the loop meets: the time at each reading of the clock and what each \<open>GetTask\<close> gives
  for the task asked for.
\<close>

record poll_world =
  pw_clock :: "nat \<Rightarrow> rat"
  pw_get_task :: "nat \<Rightarrow> string \<Rightarrow> client_error + polled_task"

datatype poll_error =
    Polling_Timed_Out
  | Get_Task_Failed client_error
  | Invalid_Delay

definition polling_timeout_error :: client_error where
  "polling_timeout_error = client_error A2ATimeoutError
     ''Remote A2A peer did not reach a terminal task state before polling fallback timed out''"

text \<open>
  One turn of \<open>while True\<close> per call: the \<open>n\<close>th reading of the clock is this turn's, \<open>slept\<close> are the
  delays so far. Sleeping for a delay that is not a number raises.
\<close>

partial_function (option) poll_loop ::
    "polling_fallback_policy \<Rightarrow> poll_world \<Rightarrow> pyfloat \<Rightarrow> nat \<Rightarrow> pyfloat \<Rightarrow> polled_task \<Rightarrow> pyfloat list
       \<Rightarrow> (pyfloat list \<times> (poll_error + polled_task)) option" where
  "poll_loop p w deadline n interval task slept =
     (if is_terminal_state (pt_state task) then Some (slept, Inr task)
      else if \<not> should_poll_state (pt_state task) then Some (slept, Inr task)
      else
        let remaining = float_minus deadline (Fin (pw_clock w n));
            delay = float_min interval remaining
        in if float_leq remaining (Fin 0) then Some (slept, Inl Polling_Timed_Out)
           else if delay = NaN then Some (slept, Inl Invalid_Delay)
           else
             (case pw_get_task w n (pt_id task) of
                Inl e \<Rightarrow> Some (slept @ [delay], Inl (Get_Task_Failed e))
              | Inr task' \<Rightarrow>
                  poll_loop p w deadline (n + 1) (next_interval_seconds p interval) task' (slept @ [delay])))"

definition poll_task_until_terminal ::
    "polling_fallback_policy \<Rightarrow> poll_world \<Rightarrow> polled_task
       \<Rightarrow> (pyfloat list \<times> (poll_error + polled_task)) option" where
  "poll_task_until_terminal p w task =
     poll_loop p w (float_plus (Fin (pw_clock w 0)) (pf_timeout_seconds p)) 1
       (pf_initial_interval_seconds p) task []"

text \<open>
  \<open>send\<close>: the last event of the answer, or the task it polls for. An event is a task's snapshot, with
  its status if it has one, or another one.
\<close>

datatype peer_event = Task_Event string "task_state option" | Other_Event

definition should_poll_after_send :: "polling_fallback_policy \<Rightarrow> peer_event option \<Rightarrow> bool" where
  "should_poll_after_send p event \<longleftrightarrow> pf_enabled p \<and>
     (case event of Some (Task_Event _ (Some state)) \<Rightarrow> should_poll_state state | _ \<Rightarrow> False)"

definition send_and_poll ::
    "polling_fallback_policy \<Rightarrow> poll_world \<Rightarrow> peer_event list \<Rightarrow> (poll_error + peer_event option) option" where
  "send_and_poll p w events =
     (let last_event = (if events = [] then None else Some (List.last events))
      in if \<not> should_poll_after_send p last_event then Some (Inr last_event)
         else (case last_event of
             Some (Task_Event task_id (Some state)) \<Rightarrow>
               (case poll_task_until_terminal p w \<lparr>pt_id = task_id, pt_state = state\<rparr> of
                  None \<Rightarrow> None
                | Some (_, Inl e) \<Rightarrow> Some (Inl e)
                | Some (_, Inr t) \<Rightarrow> Some (Inr (Some (Task_Event (pt_id t) (Some (pt_state t))))))
           | _ \<Rightarrow> Some (Inr last_event)))"

section \<open>Polling ends\<close>

text \<open>
  What \<open>asyncio.sleep\<close> promises: the clock does not go back, and the reading after the \<open>n\<close>th sleep is
  later by at least the delay. The delays are those of the policy.
\<close>

fun interval_at :: "rat \<Rightarrow> rat \<Rightarrow> rat \<Rightarrow> nat \<Rightarrow> rat" where
  "interval_at a b k 0 = a"
| "interval_at a b k (Suc n) = min (interval_at a b k n * k) b"

definition sleeps_pass :: "rat \<Rightarrow> rat \<Rightarrow> rat \<Rightarrow> rat \<Rightarrow> poll_world \<Rightarrow> bool" where
  "sleeps_pass a b k t w \<longleftrightarrow> pw_clock w 0 \<le> pw_clock w 1 \<and>
     (\<forall>n. pw_clock w (n + 1) + min (interval_at a b k n) (pw_clock w 0 + t - pw_clock w (n + 1))
        \<le> pw_clock w (n + 2))"

lemma interval_at_bounds:
  "0 < a \<Longrightarrow> a \<le> b \<Longrightarrow> 1 \<le> k \<Longrightarrow> a \<le> interval_at a b k n \<and> interval_at a b k n \<le> b"
proof (induction n)
  case (Suc n)
  then have i: "a \<le> interval_at a b k n" "0 \<le> interval_at a b k n" by auto
  from mult_left_mono [OF Suc.prems(3) i(2)] i(1) have "a \<le> interval_at a b k n * k" by linarith
  with Suc show ?case by simp
qed simp

lemma next_interval:
  assumes "0 < x" "1 \<le> k" "pf_backoff_multiplier p = Fin k" "pf_max_interval_seconds p = Fin b"
  shows "next_interval_seconds p (Fin x) = Fin (min (x * k) b)"
  using assms by (simp add: next_interval_seconds_def float_min_def float_max_def min_def)

text \<open>What a run of the loop gives from its \<open>n\<close>th turn on, whose sleeps are \<open>ds\<close>.\<close>

definition polled_well ::
    "poll_world \<Rightarrow> rat \<Rightarrow> rat \<Rightarrow> nat \<Rightarrow> rat list \<Rightarrow> poll_error + polled_task \<Rightarrow> bool" where
  "polled_well w b d n ds r \<longleftrightarrow>
     (\<forall>x \<in> set ds. 0 < x \<and> x \<le> b) \<and> sum_list ds \<le> max 0 (d - pw_clock w n) \<and>
     (case r of Inr task \<Rightarrow> \<not> should_poll_state (pt_state task)
      | Inl Polling_Timed_Out \<Rightarrow> d \<le> pw_clock w (n + length ds)
      | Inl (Get_Task_Failed e) \<Rightarrow> True | Inl Invalid_Delay \<Rightarrow> False)"

lemma polled_well_stop: "polled_well w b d n [] r \<longleftrightarrow>
    (case r of Inr task \<Rightarrow> \<not> should_poll_state (pt_state task)
      | Inl Polling_Timed_Out \<Rightarrow> d \<le> pw_clock w n
      | Inl (Get_Task_Failed e) \<Rightarrow> True | Inl Invalid_Delay \<Rightarrow> False)"
  by (auto simp: polled_well_def split: sum.splits poll_error.splits)

lemma polled_well_sleep:
  assumes "polled_well w b d (n + 1) ds r" "0 < x" "x \<le> b" "x \<le> d - pw_clock w n"
    "pw_clock w n + x \<le> pw_clock w (n + 1)"
  shows "polled_well w b d n (x # ds) r"
  using assms by (auto simp: polled_well_def split: sum.splits poll_error.splits)

lemma polled_states: "is_terminal_state s \<Longrightarrow> \<not> should_poll_state s"
  by (cases s) (simp_all add: is_terminal_state_def should_poll_state_def
      AUTO_POLLING_TASK_STATES_def TERMINAL_TASK_STATES_def)

lemma poll_loop_ends:
  assumes p: "pf_backoff_multiplier p = Fin k" "pf_max_interval_seconds p = Fin b" "0 < a" "a \<le> b" "1 \<le> k"
    and w: "sleeps_pass a b k t w" and d: "d = pw_clock w 0 + t"
  shows "d - pw_clock w (n + 1) \<le> of_nat j * a \<Longrightarrow>
    \<exists>ds r. poll_loop p w (Fin d) (n + 1) (Fin (interval_at a b k n)) task slept =
        Some (slept @ map Fin ds, r) \<and> length ds \<le> j \<and> polled_well w b d (n + 1) ds r"
proof (induction j arbitrary: n task slept)
  case 0
  then show ?case
    by (subst poll_loop.simps)
      (auto simp: Let_def float_minus_def float_leq_def polled_well_stop dest: polled_states)
next
  case (Suc j)
  let ?R = "d - pw_clock w (n + 1)" and ?i = "interval_at a b k n"
  let ?x = "min ?i ?R"
  let ?loop = "poll_loop p w (Fin d) (n + 1) (Fin ?i) task slept"
  have i: "0 < ?i" "a \<le> ?i" "?i \<le> b" using interval_at_bounds [OF p(3-5), of n] p(3) by auto
  consider "\<not> should_poll_state (pt_state task)" | "should_poll_state (pt_state task)" "?R \<le> 0"
    | "should_poll_state (pt_state task)" "0 < ?R" by linarith
  then show ?case
  proof cases
    case 3
    have live: "\<not> is_terminal_state (pt_state task)" using 3(1) polled_states by blast
    have delay: "float_min (Fin ?i) (float_minus (Fin d) (Fin (pw_clock w (Suc n)))) = Fin ?x"
      "\<not> float_leq (float_minus (Fin d) (Fin (pw_clock w (Suc n)))) (Fin 0)"
      using 3(2) by (auto simp: float_min_def float_minus_def float_leq_def min_def)
    have x: "0 < ?x" "?x \<le> b" using i 3(2) by auto
    have step: "pw_clock w (n + 1) + ?x \<le> pw_clock w (n + 2)" using w d by (simp add: sleeps_pass_def)
    show ?thesis
    proof (cases "pw_get_task w (Suc n) (pt_id task)")
      case (Inl e)
      have "?loop = Some (slept @ [Fin ?x], Inl (Get_Task_Failed e))"
        by (subst poll_loop.simps) (simp add: 3 live delay Inl Let_def)
      moreover have "polled_well w b d (n + 1) [?x] (Inl (Get_Task_Failed e))"
        using x step by (intro polled_well_sleep) (auto simp: polled_well_stop)
      ultimately show ?thesis by (intro exI [of _ "[?x]"] exI [of _ "Inl (Get_Task_Failed e)"]) simp
    next
      case (Inr task')
      have "?loop = poll_loop p w (Fin d) (n + 2) (Fin (interval_at a b k (n + 1))) task' (slept @ [Fin ?x])"
        by (subst poll_loop.simps)
          (simp add: 3 live delay Inr Let_def next_interval [OF i(1) p(5,1,2)])
      moreover have "d - pw_clock w (n + 1 + 1) \<le> of_nat j * a"
      proof (cases "?R \<le> ?i")
        case True
        moreover have "0 \<le> of_nat j * a" using p(3) by simp
        ultimately show ?thesis using step by simp
      next
        case False
        then have "?x = ?i" by simp
        with step Suc.prems i(2) show ?thesis by (simp add: algebra_simps)
      qed
      from Suc.IH [OF this, of task' "slept @ [Fin ?x]"] obtain ds r where
        "poll_loop p w (Fin d) (n + 2) (Fin (interval_at a b k (n + 1))) task' (slept @ [Fin ?x]) =
           Some (slept @ map Fin (?x # ds), r)" "length ds \<le> j" "polled_well w b d (n + 2) ds r"
        by auto
      moreover from this(3) have "polled_well w b d (n + 1) (?x # ds) r"
        using x step by (intro polled_well_sleep) auto
      ultimately show ?thesis by (intro exI [of _ "?x # ds"] exI [of _ r]) simp
    qed
  qed (subst poll_loop.simps; auto simp: Let_def float_minus_def float_leq_def polled_well_stop dest: polled_states)+
qed

text \<open>
  C22. Polling ends: with settings that pass the check and are numbers, a clock that sleeps move on, and
  whatever the peer answers, the loop returns. It asks at most timeout by initial interval times
  (rounded up), each delay is positive and at most the longest interval, all of them together at most
  the timeout; a task it returns is not one to wait for, and it gives up only when the timeout has passed.
\<close>

theorem polling_ends:
  assumes "validate_polling_fallback_policy p = Inr ()"
    and "pf_initial_interval_seconds p = Fin a" "pf_max_interval_seconds p = Fin b"
      "pf_backoff_multiplier p = Fin k" "pf_timeout_seconds p = Fin t"
    and "sleeps_pass a b k t w"
  shows "\<exists>ds r. poll_task_until_terminal p w task = Some (map Fin ds, r) \<and>
    int (length ds) \<le> \<lceil>t / a\<rceil> \<and> (\<forall>x \<in> set ds. 0 < x \<and> x \<le> b) \<and> sum_list ds \<le> t \<and>
    (case r of Inr task' \<Rightarrow> \<not> should_poll_state (pt_state task')
     | Inl Polling_Timed_Out \<Rightarrow> pw_clock w 0 + t \<le> pw_clock w (length ds + 1)
     | Inl (Get_Task_Failed e) \<Rightarrow> True | Inl Invalid_Delay \<Rightarrow> False)"
proof -
  have v: "0 < a" "a \<le> b" "1 \<le> k" "0 < t"
    using assms(1-5) by (auto simp: validate_polling_fallback_policy_def float_leq_def split: if_splits)
  let ?j = "nat \<lceil>t / a\<rceil>" and ?d = "pw_clock w 0 + t"
  have c: "pw_clock w 0 \<le> pw_clock w 1" using assms(6) by (simp add: sleeps_pass_def)
  have "t / a \<le> of_nat ?j" using v(1,4) by (simp add: of_nat_ceiling)
  then have "t \<le> of_nat ?j * a" using v(1) by (simp add: pos_divide_le_eq)
  with c have "?d - pw_clock w (0 + 1) \<le> of_nat ?j * a" by simp
  from poll_loop_ends [OF assms(4,3) v(1-3) assms(6) refl this, of task "[]"]
  obtain ds r where r: "poll_task_until_terminal p w task = Some (map Fin ds, r)" "length ds \<le> ?j"
      "polled_well w b ?d 1 ds r"
    using assms(2,5) by (auto simp: poll_task_until_terminal_def)
  have "0 < t / a" using v(1,4) by simp
  then have "0 \<le> \<lceil>t / a\<rceil>" by linarith
  with r(2) have "int (length ds) \<le> \<lceil>t / a\<rceil>" by linarith
  moreover have "sum_list ds \<le> t" using r(3) c v(4) by (auto simp: polled_well_def)
  ultimately show ?thesis
    using r by (intro exI [of _ ds] exI [of _ r]) (auto simp: polled_well_def split: sum.splits poll_error.splits)
qed

text \<open>A peer that works for three turns; the clock shows the whole seconds of a quick machine.\<close>

definition default_polling :: polling_fallback_policy where
  "default_polling = \<lparr>pf_enabled = True, pf_initial_interval_seconds = Fin (1/2),
     pf_max_interval_seconds = Fin 2, pf_backoff_multiplier = Fin 2, pf_timeout_seconds = Fin 10\<rparr>"

definition slow_peer :: poll_world where
  "slow_peer = \<lparr>pw_clock = (\<lambda>n. 2 * of_nat n),
     pw_get_task = (\<lambda>n id. Inr \<lparr>pt_id = id, pt_state = (if n < 3 then TASK_STATE_WORKING else TASK_STATE_COMPLETED)\<rparr>)\<rparr>"

lemma slow_peer_sleeps: "sleeps_pass (1/2) 2 2 10 slow_peer"
proof -
  have "interval_at (1/2) 2 2 n \<le> 2" for n using interval_at_bounds [of "1/2" 2 2 n] by simp
  then have "2 * of_nat (n + 1) + min (interval_at (1/2) 2 2 n) x \<le> (2 * of_nat (n + 2) :: rat)" for n x
    by (simp add: min.coboundedI1)
  then show ?thesis unfolding sleeps_pass_def by (simp add: slow_peer_def)
qed

lemma polling_ends_witness:
  "\<exists>ds r. poll_task_until_terminal default_polling slow_peer \<lparr>pt_id = ''t'', pt_state = TASK_STATE_WORKING\<rparr> =
     Some (map Fin ds, r) \<and> length ds \<le> 20 \<and> sum_list ds \<le> 10"
proof -
  have "validate_polling_fallback_policy default_polling = Inr ()" by code_simp
  from polling_ends [OF this _ _ _ _ slow_peer_sleeps, of "\<lparr>pt_id = ''t'', pt_state = TASK_STATE_WORKING\<rparr>"]
  show ?thesis by (auto simp: default_polling_def) 
qed

section \<open>A timeout that is no number\<close>

definition endless :: "polling_fallback_policy \<Rightarrow> poll_world \<Rightarrow> bool" where
  "endless p w \<longleftrightarrow> (\<exists>k b. pf_backoff_multiplier p = Fin k \<and> pf_max_interval_seconds p = Fin b \<and>
     0 < b \<and> 1 \<le> k) \<and>
     (\<forall>n id. pw_get_task w n id = Inr \<lparr>pt_id = id, pt_state = TASK_STATE_WORKING\<rparr>)"

lemma poll_loop_nan:
  assumes "poll_loop p w deadline n interval task slept = Some y"
  shows "\<not> (deadline = NaN \<and> endless p w \<and> (\<exists>x > 0. interval = Fin x) \<and>
     pt_state task = TASK_STATE_WORKING)"
proof (rule poll_loop.raw_induct [OF _ assms], rule notI, (elim conjE exE)+)
  fix loop p w deadline n interval task slept y x
  assume IH: "\<And>p w deadline n interval task slept y.
      loop p w deadline n interval task slept = Some y \<Longrightarrow>
      \<not> (deadline = NaN \<and> endless p w \<and> (\<exists>x > 0. interval = Fin x) \<and> pt_state task = TASK_STATE_WORKING)"
    and body: "(if is_terminal_state (pt_state task) then Some (slept, Inr task)
      else if \<not> should_poll_state (pt_state task) then Some (slept, Inr task)
      else
        let remaining = float_minus deadline (Fin (pw_clock w n));
            delay = float_min interval remaining
        in if float_leq remaining (Fin 0) then Some (slept, Inl Polling_Timed_Out)
           else if delay = NaN then Some (slept, Inl Invalid_Delay)
           else
             (case pw_get_task w n (pt_id task) of
                Inl e \<Rightarrow> Some (slept @ [delay], Inl (Get_Task_Failed e))
              | Inr task' \<Rightarrow>
                  loop p w deadline (n + 1) (next_interval_seconds p interval) task' (slept @ [delay]))) = Some y"
    and run: "deadline = NaN" "endless p w" "0 < x" "interval = Fin x" "pt_state task = TASK_STATE_WORKING"
  obtain k b where kb: "pf_backoff_multiplier p = Fin k" "pf_max_interval_seconds p = Fin b"
      "0 < b" "1 \<le> k"
    using run(2) by (auto simp: endless_def)
  have nan: "float_minus NaN z = NaN" "float_min (Fin x) NaN = Fin x" "\<not> float_leq NaN (Fin 0)" for z
    by (cases "float_uminus z"; simp add: float_minus_def float_min_def float_leq_def)+
  have "\<not> is_terminal_state TASK_STATE_WORKING" "should_poll_state TASK_STATE_WORKING" by code_simp+
  then have "loop p w NaN (n + 1) (next_interval_seconds p (Fin x))
      \<lparr>pt_id = pt_id task, pt_state = TASK_STATE_WORKING\<rparr> (slept @ [Fin x]) = Some y"
    using body run(2) nan unfolding run(1,4,5) by (simp add: endless_def Let_def)
  from IH [OF this] run(2) show False
    using next_interval [OF run(3) kb(4,1,2)] run(3) kb(3,4) by simp
qed

text \<open>
  The check of the settings accepts a timeout that is not a number, which the environment variable
  can give (nan): then a task that stays at work is polled forever.
\<close>

theorem nan_timeout_never_ends:
  assumes "\<And>n id. pw_get_task w n id = Inr \<lparr>pt_id = id, pt_state = TASK_STATE_WORKING\<rparr>"
  shows "validate_polling_fallback_policy (default_polling\<lparr>pf_timeout_seconds := NaN\<rparr>) = Inr () \<and>
    poll_task_until_terminal (default_polling\<lparr>pf_timeout_seconds := NaN\<rparr>) w
      \<lparr>pt_id = ''t'', pt_state = TASK_STATE_WORKING\<rparr> = None"
proof
  let ?p = "default_polling\<lparr>pf_timeout_seconds := NaN\<rparr>"
  show "validate_polling_fallback_policy ?p = Inr ()" by code_simp
  have "endless ?p w" using assms by (simp add: endless_def default_polling_def)
  moreover have "\<exists>x > 0. pf_initial_interval_seconds ?p = Fin x"
    by (intro exI [of _ "1/2"]) (simp add: default_polling_def)
  ultimately have "poll_loop ?p w NaN 1 (pf_initial_interval_seconds ?p)
      \<lparr>pt_id = ''t'', pt_state = TASK_STATE_WORKING\<rparr> [] \<noteq> Some y" for y
    using poll_loop_nan [of ?p w NaN 1 "pf_initial_interval_seconds ?p"
        "\<lparr>pt_id = ''t'', pt_state = TASK_STATE_WORKING\<rparr>" "[]" y]
    by (auto simp del: polling_fallback_policy.simps)
  then show "poll_task_until_terminal ?p w \<lparr>pt_id = ''t'', pt_state = TASK_STATE_WORKING\<rparr> = None"
    by (auto simp: poll_task_until_terminal_def simp flip: not_Some_eq)
qed

lemma nan_timeout_never_ends_witness:
  "poll_task_until_terminal (default_polling\<lparr>pf_timeout_seconds := NaN\<rparr>)
     \<lparr>pw_clock = of_nat, pw_get_task = (\<lambda>n id. Inr \<lparr>pt_id = id, pt_state = TASK_STATE_WORKING\<rparr>)\<rparr>
     \<lparr>pt_id = ''t'', pt_state = TASK_STATE_WORKING\<rparr> = None"
  by (rule conjunct2 [OF nan_timeout_never_ends]) simp

end
