(* ===== verification/Access_Control.thy ===== *)
theory Access_Control
  imports A2A_Parts
begin

text \<open>
  Who a request comes from: the configured credentials (\<open>StaticAuthCredentialSettings\<close> of
  \<open>config.py\<close>), their check (\<open>auth.py\<close>), and the header a client sends (\<open>client/auth.py\<close>). A decoded
  text is a list of code points, for it may hold characters the model's strings lack.
\<close>

section \<open>Text and bytes\<close>

type_synonym code_points = "nat list"

definition points :: "string \<Rightarrow> code_points" where
  "points s = map of_char s"

definition utf8_encode :: "string \<Rightarrow> byte list" where
  "utf8_encode s = concat (map (\<lambda>c. let n = of_char c in if n < 128 then [n] else [192 + n div 64, 128 + n mod 64]) s)"

definition continuation :: "byte \<Rightarrow> bool" where
  "continuation b \<longleftrightarrow> 128 \<le> b \<and> b < 192"

text \<open>\<open>bytes.decode("utf-8")\<close>: overlong forms, surrogates and what is beyond U+10FFFF are errors.\<close>

fun utf8_decode :: "byte list \<Rightarrow> code_points option" where
  "utf8_decode [] = Some []"
| "utf8_decode (a # bs) =
     (if a < 128 then map_option (\<lambda>ps. a # ps) (utf8_decode bs)
      else case bs of
        [] \<Rightarrow> None
      | b # cs \<Rightarrow>
          if \<not> continuation b then None
          else if 194 \<le> a \<and> a < 224
          then map_option (\<lambda>ps. ((a - 192) * 64 + (b - 128)) # ps) (utf8_decode cs)
          else case cs of
            [] \<Rightarrow> None
          | c # ds \<Rightarrow>
              if \<not> continuation c then None
              else if 224 \<le> a \<and> a < 240 \<and> (a = 224 \<longrightarrow> 160 \<le> b) \<and> (a = 237 \<longrightarrow> b < 160)
              then map_option (\<lambda>ps. ((a - 224) * 4096 + (b - 128) * 64 + (c - 128)) # ps) (utf8_decode ds)
              else case ds of
                [] \<Rightarrow> None
              | d # es \<Rightarrow>
                  if continuation d \<and> 240 \<le> a \<and> a < 245 \<and> (a = 240 \<longrightarrow> 144 \<le> b) \<and> (a = 244 \<longrightarrow> b < 144)
                  then map_option (\<lambda>ps. ((a - 240) * 262144 + (b - 128) * 4096 + (c - 128) * 64 + (d - 128)) # ps)
                         (utf8_decode es)
                  else None)"

text \<open>
  \<open>base64.b64decode(value, validate=True)\<close>. Text outside ASCII raises a \<open>ValueError\<close> that is not a
  \<open>binascii.Error\<close>. Padding must be exact, as current releases of Python demand.
\<close>

datatype auth_exception = BinasciiError | ValueError_not_ascii | TypeError_not_ascii

definition ascii :: "code_points \<Rightarrow> bool" where
  "ascii s \<longleftrightarrow> (\<forall>n \<in> set s. n < 128)"

definition b64_alphabet :: "char \<Rightarrow> bool" where
  "b64_alphabet c = (let n = (of_char c :: nat)
     in (65 \<le> n \<and> n \<le> 90) \<or> (97 \<le> n \<and> n \<le> 122) \<or> (48 \<le> n \<and> n \<le> 57) \<or> c = CHR ''+'' \<or> c = CHR ''/'')"

definition well_padded :: "string \<Rightarrow> bool" where
  "well_padded value =
     (let payload = takeWhile (\<lambda>c. c \<noteq> CHR ''='') value; pads = drop (length payload) value
      in list_all b64_alphabet payload \<and> list_all (\<lambda>c. c = CHR ''='') pads \<and>
         length value mod 4 = 0 \<and> length pads \<le> 2)"

definition b64decode_validate :: "string \<Rightarrow> auth_exception + byte list" where
  "b64decode_validate value =
     (if \<not> ascii (points value) then Inl ValueError_not_ascii
      else if well_padded value then Inr (b64decode value) else Inl BinasciiError)"

section \<open>Credentials\<close>

record credential_settings =
  cs_credential_id :: "string option"
  cs_scheme :: string
  cs_principal :: "string option"
  cs_token :: "string option"
  cs_username :: "string option"
  cs_password :: "string option"
  cs_capabilities :: "string list"
  cs_enabled :: bool

definition strip_setting :: "string option \<Rightarrow> string option" where
  "strip_setting x = (case x of None \<Rightarrow> None | Some s \<Rightarrow> if s = [] then None else Some (strip s))"

definition empty_setting :: "string option \<Rightarrow> bool" where
  "empty_setting x \<longleftrightarrow> x = None \<or> x = Some []"

definition validate_shape :: "credential_settings \<Rightarrow> string + credential_settings" where
  "validate_shape entry =
     (let cs = entry\<lparr>cs_credential_id := strip_setting (cs_credential_id entry),
          cs_principal := strip_setting (cs_principal entry), cs_token := strip_setting (cs_token entry),
          cs_username := strip_setting (cs_username entry), cs_password := strip_setting (cs_password entry),
          cs_capabilities := filter (\<lambda>c. c \<noteq> []) (map strip (cs_capabilities entry))\<rparr>
      in if cs_scheme cs = ''bearer'' then
           (if empty_setting (cs_token cs) then Inl ''Static bearer credential requires token.''
            else if \<not> empty_setting (cs_username cs) \<or> \<not> empty_setting (cs_password cs)
            then Inl ''Static bearer credential does not accept username/password.''
            else if cs_principal cs = None then Inl ''Static bearer credential requires explicit principal; registry bearer principals must not default to automation.''
            else Inr cs)
         else if empty_setting (cs_username cs) \<or> empty_setting (cs_password cs)
         then Inl ''Static basic credential requires username/password.''
         else if \<not> empty_setting (cs_token cs) then Inl ''Static basic credential does not accept token.''
         else if cs_principal cs \<noteq> None
         then Inl ''Static basic credential does not accept principal; principal defaults to username.''
         else Inr (cs\<lparr>cs_principal := cs_username cs\<rparr>))"

record authenticated_principal =
  ap_identity :: string
  ap_auth_scheme :: string
  ap_capabilities :: "string list"
  ap_credential_id :: "string option"

record static_auth_credential =
  sc_auth_scheme :: string
  sc_principal :: string
  sc_capabilities :: "string list"
  sc_token :: "string option"
  sc_username :: "string option"
  sc_password :: "string option"
  sc_credential_id :: "string option"

definition AUTOMATION_PRINCIPAL :: string where
  "AUTOMATION_PRINCIPAL = ''automation''"

definition CAPABILITY_SESSION_SHELL :: string where
  "CAPABILITY_SESSION_SHELL = ''session_shell''"

definition CAPABILITY_WORKSPACE_MUTATION :: string where
  "CAPABILITY_WORKSPACE_MUTATION = ''workspace_mutation''"

definition default_capabilities_for_scheme :: "string \<Rightarrow> string list" where
  "default_capabilities_for_scheme scheme =
     (if scheme = ''basic'' then [CAPABILITY_SESSION_SHELL, CAPABILITY_WORKSPACE_MUTATION] else [])"

text \<open>\<open>value or default\<close> for an optional string.\<close>

definition setting_or :: "string option \<Rightarrow> string \<Rightarrow> string" where
  "setting_or x d = (case x of None \<Rightarrow> d | Some s \<Rightarrow> if s = [] then d else s)"

definition static_credential :: "credential_settings \<Rightarrow> static_auth_credential" where
  "static_credential entry =
     \<lparr>sc_auth_scheme = cs_scheme entry,
      sc_principal = (if cs_scheme entry = ''basic'' then setting_or (cs_username entry) []
                      else setting_or (cs_principal entry) AUTOMATION_PRINCIPAL),
      sc_capabilities = (if cs_capabilities entry = [] then default_capabilities_for_scheme (cs_scheme entry)
                         else cs_capabilities entry),
      sc_token = cs_token entry, sc_username = cs_username entry, sc_password = cs_password entry,
      sc_credential_id = cs_credential_id entry\<rparr>"

definition build_static_auth_credentials :: "credential_settings list \<Rightarrow> static_auth_credential list" where
  "build_static_auth_credentials entries = map static_credential (filter cs_enabled entries)"

section \<open>Authentication\<close>

text \<open>\<open>secrets.compare_digest\<close> of two strings raises a \<open>TypeError\<close> if one is not ASCII.\<close>

definition compare_digest :: "code_points \<Rightarrow> code_points \<Rightarrow> auth_exception + bool" where
  "compare_digest a b = (if ascii a \<and> ascii b then Inr (a = b) else Inl TypeError_not_ascii)"

definition principal_of :: "string \<Rightarrow> static_auth_credential \<Rightarrow> authenticated_principal" where
  "principal_of scheme c =
     \<lparr>ap_identity = sc_principal c, ap_auth_scheme = scheme, ap_capabilities = sc_capabilities c,
      ap_credential_id = sc_credential_id c\<rparr>"

definition COLON :: nat where
  "COLON = 58"

definition decode_basic_credentials ::
    "string \<Rightarrow> auth_exception + (code_points \<times> code_points) option" where
  "decode_basic_credentials value =
     (case b64decode_validate value of
        Inl e \<Rightarrow> if e = BinasciiError then Inr None else Inl e
      | Inr bytes \<Rightarrow>
          (case utf8_decode bytes of
             None \<Rightarrow> Inr None
           | Some decoded \<Rightarrow>
               if COLON \<notin> set decoded then Inr None
               else let username = takeWhile (\<lambda>n. n \<noteq> COLON) decoded;
                        password = drop (length username + 1) decoded
                    in Inr (if username = [] \<or> password = [] then None else Some (username, password))))"

fun authenticate_bearer ::
    "static_auth_credential list \<Rightarrow> string \<Rightarrow> auth_exception + authenticated_principal option" where
  "authenticate_bearer [] auth_value = Inr None"
| "authenticate_bearer (c # cs) auth_value =
     (if sc_auth_scheme c \<noteq> ''bearer'' then authenticate_bearer cs auth_value
      else case sc_token c of
        None \<Rightarrow> authenticate_bearer cs auth_value
      | Some token \<Rightarrow>
          (case compare_digest (points auth_value) (points token) of
             Inl e \<Rightarrow> Inl e
           | Inr True \<Rightarrow> Inr (Some (principal_of ''bearer'' c))
           | Inr False \<Rightarrow> authenticate_bearer cs auth_value))"

fun authenticate_basic ::
    "static_auth_credential list \<Rightarrow> code_points \<Rightarrow> code_points
       \<Rightarrow> auth_exception + authenticated_principal option" where
  "authenticate_basic [] username password = Inr None"
| "authenticate_basic (c # cs) username password =
     (if sc_auth_scheme c \<noteq> ''basic'' then authenticate_basic cs username password
      else case (sc_username c, sc_password c) of
        (Some u, Some p) \<Rightarrow>
          (case (compare_digest username (points u), compare_digest password (points p)) of
             (Inr u_ok, Inr p_ok) \<Rightarrow>
               if u_ok \<and> p_ok then Inr (Some (principal_of ''basic'' c))
               else authenticate_basic cs username password
           | _ \<Rightarrow> Inl TypeError_not_ascii)
      | _ \<Rightarrow> authenticate_basic cs username password)"

definition authenticate_static_credential ::
    "static_auth_credential list \<Rightarrow> string \<Rightarrow> string \<Rightarrow> auth_exception + authenticated_principal option"
  where
  "authenticate_static_credential credentials auth_scheme auth_value =
     (if lower auth_scheme = ''bearer'' then authenticate_bearer credentials auth_value
      else if lower auth_scheme \<noteq> ''basic'' then Inr None
      else case decode_basic_credentials auth_value of
        Inl e \<Rightarrow> Inl e
      | Inr None \<Rightarrow> Inr None
      | Inr (Some (username, password)) \<Rightarrow> authenticate_basic credentials username password)"

definition request_has_capability :: "authenticated_principal option \<Rightarrow> string \<Rightarrow> bool" where
  "request_has_capability who capability =
     (case who of None \<Rightarrow> False | Some p \<Rightarrow> capability \<in> set (ap_capabilities p))"

section \<open>The client's side\<close>

definition BASIC_AUTH_FORMAT_ERROR :: string where
  "BASIC_AUTH_FORMAT_ERROR = ''A2A_CLIENT_BASIC_AUTH must be 'username:password' or a base64-encoded 'username:password' value''"

definition decode_basic_auth :: "string \<Rightarrow> string + byte list" where
  "decode_basic_auth value =
     (case b64decode_validate (value @ replicate (nat (- int (length value) mod 4)) CHR ''='') of
        Inl _ \<Rightarrow> Inl BASIC_AUTH_FORMAT_ERROR | Inr bytes \<Rightarrow> Inr bytes)"

definition validate_basic_auth :: "string \<Rightarrow> string + unit" where
  "validate_basic_auth value =
     (if CHR '':'' \<in> set value then Inr ()
      else case decode_basic_auth value of
        Inl e \<Rightarrow> Inl e
      | Inr decoded \<Rightarrow> if COLON \<notin> set decoded then Inl BASIC_AUTH_FORMAT_ERROR else Inr ())"

definition encode_basic_auth :: "string \<Rightarrow> string + string" where
  "encode_basic_auth value =
     (if CHR '':'' \<in> set value then Inr (b64encode (utf8_encode value))
      else case decode_basic_auth value of
        Inl e \<Rightarrow> Inl e
      | Inr decoded \<Rightarrow>
          if COLON \<notin> set decoded then Inl BASIC_AUTH_FORMAT_ERROR else Inr (b64encode decoded))"

section \<open>What a header carries\<close>

lemma of_char_less: "(of_char c :: nat) < 256"
  using of_char_of [of "of_char c :: nat"] by simp

lemma utf8_round_trip: "utf8_decode (utf8_encode s) = Some (points s)"
proof (induction s)
  case (Cons c s)
  let ?n = "of_char c :: nat"
  have n: "?n < 256" by (rule of_char_less)
  show ?case
  proof (cases "?n < 128")
    case True
    then show ?thesis using Cons by (simp add: utf8_encode_def points_def Let_def)
  next
    case False
    then have b: "2 \<le> ?n div 64" "?n div 64 < 4" "?n mod 64 < 64" "?n div 64 * 64 + ?n mod 64 = ?n"
      using n by (simp_all add: less_mult_imp_div_less)
    then have "continuation (128 + ?n mod 64)" by (simp add: continuation_def)
    then show ?thesis
      using Cons False b by (simp add: utf8_encode_def points_def Let_def)
  qed
qed (simp add: utf8_encode_def points_def)

lemma utf8_bytes: "\<forall>b \<in> set (utf8_encode s). b < 256"
proof -
  have "\<forall>b \<in> set (if (of_char c :: nat) < 128 then [of_char c] else [192 + of_char c div 64, 128 + of_char c mod 64]). b < (256 :: nat)"
    for c :: char
  proof -
    have "of_char c div 64 < (4 :: nat)" using of_char_less [of c] by (simp add: less_mult_imp_div_less)
    then show ?thesis using of_char_less [of c] by auto
  qed
  then show ?thesis unfolding utf8_encode_def Let_def set_concat set_map by blast
qed

lemma b64_char_alphabet: "n < 64 \<Longrightarrow> b64_alphabet (b64_char n)"
  by (auto simp: b64_alphabet_def b64_char_def Let_def of_char_of)

lemma b64_char_ascii: "n < 64 \<Longrightarrow> (of_char (b64_char n) :: nat) < 128"
  by (auto simp: b64_char_def of_char_of)

lemma takeWhile_b64: "n < 64 \<Longrightarrow> takeWhile (\<lambda>c. c \<noteq> CHR ''='') (b64_char n # s) =
    b64_char n # takeWhile (\<lambda>c. c \<noteq> CHR ''='') s"
  by simp

lemma well_padded_quad:
  assumes "\<forall>c \<in> {c1, c2, c3, c4}. b64_alphabet c \<and> c \<noteq> CHR ''=''" "well_padded s"
  shows "well_padded (c1 # c2 # c3 # c4 # s)"
proof -
  have "takeWhile (\<lambda>c. c \<noteq> CHR ''='') (c1 # c2 # c3 # c4 # s) =
      [c1, c2, c3, c4] @ takeWhile (\<lambda>c. c \<noteq> CHR ''='') s"
    using assms(1) by simp
  moreover have "length (c1 # c2 # c3 # c4 # s) mod 4 = length s mod 4"
  proof -
    have "length (c1 # c2 # c3 # c4 # s) = length s + 4" by simp
    then show ?thesis by presburger
  qed
  ultimately show ?thesis using assms unfolding well_padded_def Let_def by (simp only:) simp
qed

lemma b64encode_well_padded:
  "\<forall>b \<in> set bs. b < 256 \<Longrightarrow> well_padded (b64encode bs) \<and> ascii (points (b64encode bs))"
proof (induction bs rule: b64encode.induct)
  case 1
  then show ?case by (simp add: well_padded_def ascii_def points_def)
next
  case (2 a)
  then show ?case
    by (simp add: well_padded_def ascii_def points_def b64_char_alphabet b64_char_ascii Let_def)
next
  case (3 a b)
  then show ?case
    by (simp add: well_padded_def ascii_def points_def b64_char_alphabet b64_char_ascii Let_def)
next
  case (4 a b c bs)
  then have "well_padded (b64encode bs) \<and> ascii (points (b64encode bs))" by simp
  with 4 show ?case
    by (simp add: well_padded_quad b64_char_alphabet b64_char_ascii ascii_def points_def)
qed

lemma b64decode_validate_encoded:
  "\<forall>b \<in> set bs. b < 256 \<Longrightarrow> b64decode_validate (b64encode bs) = Inr bs"
  using b64encode_well_padded [of bs] b64_round_trip [of bs] by (simp add: b64decode_validate_def)

lemma points_colon: "CHR '':'' \<in> set s \<longleftrightarrow> COLON \<in> set (points s)"
proof
  assume "COLON \<in> set (points s)"
  then obtain c where c: "c \<in> set s" "of_char c = (58 :: nat)" by (auto simp: points_def COLON_def)
  from c(2) have "char_of (58 :: nat) = c" by (simp add: char_of_is)
  moreover have "char_of (58 :: nat) = CHR '':''" by (simp add: char_of_is)
  ultimately show "CHR '':'' \<in> set s" using c(1) by simp
qed (force simp: points_def COLON_def)

lemma header_round_trip:
  assumes "username \<noteq> []" "password \<noteq> []" "CHR '':'' \<notin> set username"
  shows "\<exists>header. encode_basic_auth (username @ '':'' @ password) = Inr header \<and>
    decode_basic_credentials header = Inr (Some (points username, points password))"
proof -
  let ?credential = "username @ '':'' @ password"
  let ?header = "b64encode (utf8_encode ?credential)"
  have no_colon: "COLON \<notin> set (points username)" using assms(3) points_colon by simp
  have split: "points ?credential = points username @ COLON # points password"
    by (simp add: points_def COLON_def)
  have "takeWhile (\<lambda>n. n \<noteq> COLON) (points ?credential) = points username"
    unfolding split using no_colon by (subst takeWhile_append2) auto
  then have "decode_basic_credentials ?header = Inr (Some (points username, points password))"
    using b64decode_validate_encoded [OF utf8_bytes [of ?credential]] utf8_round_trip [of ?credential] split
      assms(1,2) by (simp add: decode_basic_credentials_def Let_def) (simp add: points_def)
  then show ?thesis by (simp add: encode_basic_auth_def)
qed

text \<open>
  What a client configured with a user name and a password sends, the service reads back as that
  user name and that password, whatever characters they have: the user name must have no colon, and
  neither may be empty.
\<close>

theorem basic_header_round_trip:
  assumes "username \<noteq> []" "password \<noteq> []" "CHR '':'' \<notin> set username"
  shows "\<exists>header. encode_basic_auth (username @ '':'' @ password) = Inr header \<and>
    decode_basic_credentials header = Inr (Some (points username, points password))"
  by (rule header_round_trip [OF assms])

lemma basic_header_round_trip_witness:
  "decode_basic_credentials ''b3BzOnM6M2NyZXQ='' = Inr (Some (points ''ops'', points ''s:3cret''))"
proof -
  have "encode_basic_auth (''ops'' @ '':'' @ ''s:3cret'') = Inr ''b3BzOnM6M2NyZXQ=''" by code_simp
  with basic_header_round_trip [of "''ops''" "''s:3cret''"] show ?thesis by simp
qed

section \<open>Who gets in\<close>

lemma points_inject [simp]: "points a = points b \<longleftrightarrow> a = b"
proof -
  have "inj (of_char :: char \<Rightarrow> nat)" by (rule injI) simp
  then show ?thesis by (simp add: points_def inj_map_eq_map)
qed

lemma static_credential_simps [simp]:
  "sc_auth_scheme (static_credential entry) = cs_scheme entry"
  "sc_token (static_credential entry) = cs_token entry"
  "sc_username (static_credential entry) = cs_username entry"
  "sc_password (static_credential entry) = cs_password entry"
  by (simp_all add: static_credential_def)

lemma authenticate_bearer_sound:
  "authenticate_bearer cs auth_value = Inr (Some p) \<Longrightarrow>
     \<exists>c \<in> set cs. sc_auth_scheme c = ''bearer'' \<and> sc_token c = Some auth_value \<and> p = principal_of ''bearer'' c"
proof (induction cs)
  case (Cons c cs)
  then show ?case
    by (auto simp: compare_digest_def split: if_splits option.splits sum.splits bool.splits)
qed simp

lemma authenticate_basic_sound:
  "authenticate_basic cs username password = Inr (Some p) \<Longrightarrow>
     \<exists>c \<in> set cs. \<exists>u w. sc_auth_scheme c = ''basic'' \<and> sc_username c = Some u \<and> sc_password c = Some w \<and>
       points u = username \<and> points w = password \<and> p = principal_of ''basic'' c"
proof (induction cs)
  case (Cons c cs)
  then show ?case
    by (fastforce simp: compare_digest_def split: if_splits option.splits sum.splits)
qed simp

text \<open>
  C7. Nobody gets in without a credential: a request is authenticated only as the principal of an
  enabled entry of the configuration, either with exactly its token, or with a Basic header that
  carries exactly its user name and password, and it has the capabilities of that entry.
\<close>

theorem only_configured_credentials_get_in:
  assumes "authenticate_static_credential (build_static_auth_credentials entries) auth_scheme auth_value = Inr (Some p)"
  shows "\<exists>entry \<in> set entries. cs_enabled entry \<and> lower auth_scheme = cs_scheme entry \<and>
    p = principal_of (cs_scheme entry) (static_credential entry) \<and>
    (cs_scheme entry = ''bearer'' \<and> cs_token entry = Some auth_value \<or>
     cs_scheme entry = ''basic'' \<and> (\<exists>u w. cs_username entry = Some u \<and> cs_password entry = Some w \<and>
       decode_basic_credentials auth_value = Inr (Some (points u, points w))))"
proof (cases "lower auth_scheme = ''bearer''")
  case True
  with assms obtain c where "c \<in> set (build_static_auth_credentials entries)" "sc_auth_scheme c = ''bearer''"
      "sc_token c = Some auth_value" "p = principal_of ''bearer'' c"
    using authenticate_bearer_sound by (fastforce simp: authenticate_static_credential_def)
  with True show ?thesis by (auto simp: build_static_auth_credentials_def)
next
  case False
  with assms obtain username password where d: "decode_basic_credentials auth_value = Inr (Some (username, password))"
      "authenticate_basic (build_static_auth_credentials entries) username password = Inr (Some p)"
      "lower auth_scheme = ''basic''"
    by (auto simp: authenticate_static_credential_def split: if_splits sum.splits option.splits)
  from authenticate_basic_sound [OF d(2)] d(1,3) show ?thesis
    by (auto simp: build_static_auth_credentials_def)
qed

definition example_entries :: "credential_settings list" where
  "example_entries =
     [\<lparr>cs_credential_id = Some ''ci'', cs_scheme = ''bearer'', cs_principal = Some ''ci-bot'',
       cs_token = Some ''t0ken'', cs_username = None, cs_password = None, cs_capabilities = [], cs_enabled = True\<rparr>,
      \<lparr>cs_credential_id = None, cs_scheme = ''basic'', cs_principal = Some ''ops'', cs_token = None,
       cs_username = Some ''ops'', cs_password = Some ''s:3cret'', cs_capabilities = [], cs_enabled = True\<rparr>]"

lemma only_configured_credentials_get_in_witness:
  "\<exists>entry \<in> set example_entries. cs_enabled entry \<and> cs_scheme entry = ''basic''"
proof -
  have "authenticate_static_credential (build_static_auth_credentials example_entries) ''Basic'' ''b3BzOnM6M2NyZXQ='' =
      Inr (Some \<lparr>ap_identity = ''ops'', ap_auth_scheme = ''basic'',
        ap_capabilities = [''session_shell'', ''workspace_mutation''], ap_credential_id = None\<rparr>)"
    by code_simp
  from only_configured_credentials_get_in [OF this] show ?thesis by (auto simp: lower_def lower_char_def)
qed

text \<open>A configured user gets in, as long as the configuration is ASCII.\<close>

definition ascii_entry :: "credential_settings \<Rightarrow> bool" where
  "ascii_entry entry \<longleftrightarrow> (\<forall>s \<in> set_option (cs_username entry) \<union> set_option (cs_password entry). ascii (points s))"

lemma authenticate_basic_complete:
  assumes "\<forall>entry \<in> set entries. ascii_entry entry" "entry \<in> set entries" "cs_enabled entry"
    "cs_scheme entry = ''basic''" "cs_username entry = Some u" "cs_password entry = Some w" "u \<noteq> []"
  shows "\<exists>p. authenticate_basic (build_static_auth_credentials entries) (points u) (points w) = Inr (Some p) \<and>
    ap_identity p = u"
  using assms
proof (induction entries)
  case (Cons e entries)
  let ?match = "cs_enabled e \<and> cs_scheme e = ''basic'' \<and> cs_username e = Some u \<and> cs_password e = Some w"
  have ascii: "ascii (points u)" "ascii (points w)" "ascii_entry e"
    using Cons.prems by (auto simp: ascii_entry_def)
  show ?case
  proof (cases ?match)
    case True
    with ascii Cons.prems(7) show ?thesis
      by (simp add: build_static_auth_credentials_def compare_digest_def principal_of_def)
        (simp add: static_credential_def setting_or_def)
  next
    case False
    then have "authenticate_basic (build_static_auth_credentials (e # entries)) (points u) (points w) =
        authenticate_basic (build_static_auth_credentials entries) (points u) (points w)"
      using ascii by (auto simp: build_static_auth_credentials_def compare_digest_def ascii_entry_def
          split: option.split)
    moreover have "entry \<in> set entries" using False Cons.prems(2-6) by auto
    ultimately show ?thesis using Cons by simp
  qed
qed simp

text \<open>
  A configured user gets in: where the configuration has only ASCII, the header that a client
  makes of the user name and password of an enabled Basic entry is accepted, under that user name.
\<close>

theorem configured_user_gets_in:
  assumes "\<forall>entry \<in> set entries. ascii_entry entry" "entry \<in> set entries" "cs_enabled entry"
    and "cs_scheme entry = ''basic''" "cs_username entry = Some u" "cs_password entry = Some w"
    and "u \<noteq> []" "w \<noteq> []" "CHR '':'' \<notin> set u" "lower auth_scheme = ''basic''"
  shows "\<exists>header p. encode_basic_auth (u @ '':'' @ w) = Inr header \<and>
    authenticate_static_credential (build_static_auth_credentials entries) auth_scheme header = Inr (Some p) \<and>
    ap_identity p = u"
proof -
  obtain header where "encode_basic_auth (u @ '':'' @ w) = Inr header"
      "decode_basic_credentials header = Inr (Some (points u, points w))"
    using header_round_trip [OF assms(7-9)] by blast
  moreover obtain p where "authenticate_basic (build_static_auth_credentials entries) (points u) (points w) =
      Inr (Some p)" "ap_identity p = u"
    using authenticate_basic_complete [OF assms(1-7)] by blast
  ultimately show ?thesis using assms(10) by (simp add: authenticate_static_credential_def)
qed

lemma configured_user_gets_in_witness:
  "\<exists>header p. encode_basic_auth ''ops:s:3cret'' = Inr header \<and>
    authenticate_static_credential (build_static_auth_credentials example_entries) ''BASIC'' header = Inr (Some p) \<and>
    ap_identity p = ''ops''"
proof -
  have "lower ''BASIC'' = ''basic''" by code_simp
  with configured_user_gets_in [of example_entries "example_entries ! 1" "''ops''" "''s:3cret''" "''BASIC''"]
  show ?thesis by (simp add: example_entries_def ascii_entry_def ascii_def points_def)
qed

text \<open>
  The check raises instead of refusing: a header with a character outside ASCII makes it fail with
  an exception as soon as there is a credential of that kind, and a Basic header that decodes to such
  a password does too.
\<close>

theorem non_ascii_header_raises:
  assumes "sc_auth_scheme c = ''bearer''" "sc_token c = Some token"
    and "sc_auth_scheme c' = ''basic''" "sc_username c' = Some u" "sc_password c' = Some w"
  shows "authenticate_static_credential [c, c'] ''Bearer'' [CHR 0xE9] = Inl TypeError_not_ascii \<and>
    authenticate_static_credential [c, c'] ''Basic'' [CHR 0xE9] = Inl ValueError_not_ascii \<and>
    authenticate_static_credential [c, c'] ''Basic'' ''b3BzOsOp'' = Inl TypeError_not_ascii"
proof -
  have l: "lower ''Bearer'' = ''bearer''" "lower ''Basic'' = ''basic''" by code_simp+
  have "decode_basic_credentials [CHR 0xE9] = Inl ValueError_not_ascii"
    "decode_basic_credentials ''b3BzOsOp'' = Inr (Some (points ''ops'', [233]))" by code_simp+
  moreover have "\<not> ascii (points [CHR 0xE9])" "\<not> ascii [233]" by code_simp+
  ultimately show ?thesis
    using assms by (simp add: authenticate_static_credential_def l compare_digest_def)
qed

lemma non_ascii_header_raises_witness:
  "authenticate_static_credential (build_static_auth_credentials example_entries) ''Bearer'' [CHR 0xE9] =
     Inl TypeError_not_ascii"
  using non_ascii_header_raises [of "static_credential (example_entries ! 0)" "''t0ken''"
      "static_credential (example_entries ! 1)" "''ops''" "''s:3cret''"]
  by (simp add: example_entries_def build_static_auth_credentials_def)

end
