(* ===== verification/Rpc_Errors.thy ===== *)
theory Rpc_Errors
  imports Redact Py_Json
begin

text \<open>
  The errors of the JSON-RPC and REST interfaces and their outward form (\<open>jsonrpc/error_responses.py\<close>,
  \<open>jsonrpc/models.py\<close>). The codes of the SDK's own error classes (\<open>JSON_RPC_ERROR_CODE_MAP\<close>) are the
  parameter \<open>codes\<close>; \<open>fr\<close> prints a float. \<open>None\<close> is the \<open>ValueError\<close> that a name of underscores raises.
\<close>

section \<open>Names\<close>

text \<open>
  \<open>str.upper\<close>, \<open>isupper\<close> and \<open>islower\<close> on the characters of the model. The capitals of the micro sign
  and of \<open>y\<close> with a diaeresis lie beyond them: these two stay.
\<close>

definition upper_char :: "char \<Rightarrow> string" where
  "upper_char c = (let n = (of_char c :: nat)
     in if (97 \<le> n \<and> n \<le> 122) \<or> (224 \<le> n \<and> n \<le> 254 \<and> n \<noteq> 247) then [char_of (n - 32)]
        else if n = 223 then ''SS'' else [c])"

definition is_upper :: "char \<Rightarrow> bool" where
  "is_upper c = (let n = (of_char c :: nat)
     in (65 \<le> n \<and> n \<le> 90) \<or> (192 \<le> n \<and> n \<le> 222 \<and> n \<noteq> 215))"

definition is_lower :: "char \<Rightarrow> bool" where
  "is_lower c = (let n = (of_char c :: nat)
     in (97 \<le> n \<and> n \<le> 122) \<or> n = 170 \<or> n = 181 \<or> n = 186 \<or> (223 \<le> n \<and> n \<noteq> 247))"

fun snake_from :: "bool \<Rightarrow> string \<Rightarrow> string" where
  "snake_from previous_was_lower [] = []"
| "snake_from previous_was_lower (c # s) =
     (if is_upper c \<and> previous_was_lower then ''_'' else []) @
     (if c = CHR '' '' \<or> c = CHR ''-'' then ''_'' @ snake_from False s
      else upper_char c @ snake_from (is_lower c) s)"

definition strip_char :: "char \<Rightarrow> string \<Rightarrow> string" where
  "strip_char c s = rstrip_char c (dropWhile (\<lambda>x. x = c) s)"

definition to_upper_snake_case :: "string \<Rightarrow> string" where
  "to_upper_snake_case name = strip_char CHR ''_'' (snake_from False name)"

definition capitalised :: "string \<Rightarrow> string" where
  "capitalised part = (case part of [] \<Rightarrow> [] | c # s \<Rightarrow> upper_char c @ s)"

definition to_lower_camel_case :: "string \<Rightarrow> string option" where
  "to_lower_camel_case name =
     (if CHR ''_'' \<notin> set name then Some name
      else case filter (\<lambda>part. part \<noteq> []) (split_char CHR ''_'' name) of
        [] \<Rightarrow> None
      | first # rest \<Rightarrow> Some (first @ concat (map capitalised rest)))"

text \<open>\<open>{f(k): g(v) for k, v in d.items()}\<close>: a name that comes again keeps its place and takes the new value.\<close>

definition rename_all :: "(string \<times> 'a option) list \<Rightarrow> (string \<times> 'a) list option" where
  "rename_all d = map_option (dmerge [])
     (those (map (\<lambda>(k, v). case to_lower_camel_case k of
        None \<Rightarrow> None | Some k' \<Rightarrow> map_option (\<lambda>v'. (k', v')) v) d))"

fun camelize :: "pyval \<Rightarrow> pyval option" where
  "camelize (PDict d) = map_option PDict (rename_all (map (\<lambda>(k, v). (k, camelize v)) d))"
| "camelize (PList vs) = map_option PList (those (map camelize vs))"
| "camelize v = Some v"

section \<open>Details\<close>

definition A2A_ERROR_DOMAIN :: string where
  "A2A_ERROR_DOMAIN = ''a2a-protocol.org''"

definition GOOGLE_RPC_ERROR_INFO_TYPE :: string where
  "GOOGLE_RPC_ERROR_INFO_TYPE = ''type.googleapis.com/google.rpc.ErrorInfo''"

definition context_type :: "string \<Rightarrow> string" where
  "context_type detail_type = ''type.googleapis.com/opencode_a2a.'' @ detail_type"

definition STANDARD_JSONRPC_ERROR_MESSAGES :: "(int \<times> string) list" where
  "STANDARD_JSONRPC_ERROR_MESSAGES =
     [(-32700, ''Invalid JSON payload''), (-32600, ''Request payload validation error''),
      (-32601, ''Method not found''), (-32602, ''Invalid parameters''), (-32603, ''Internal error'')]"

fun stringify_metadata_value :: "(rat \<Rightarrow> string) \<Rightarrow> pyval \<Rightarrow> string" where
  "stringify_metadata_value fr (PStr s) = redact_absolute_paths s"
| "stringify_metadata_value fr (PBool b) = py_str fr (PBool b)"
| "stringify_metadata_value fr (PInt i) = py_str fr (PInt i)"
| "stringify_metadata_value fr (PFloat q) = py_str fr (PFloat q)"
| "stringify_metadata_value fr v = redact_absolute_paths (json_dumps fr False True v)"

definition build_error_info_detail :: "(rat \<Rightarrow> string) \<Rightarrow> string \<Rightarrow> mapping \<Rightarrow> pyval option" where
  "build_error_info_detail fr reason metadata =
     (let payload = [(''@type'', PStr GOOGLE_RPC_ERROR_INFO_TYPE),
                     (''reason'', PStr (to_upper_snake_case reason)), (''domain'', PStr A2A_ERROR_DOMAIN)]
      in if metadata = [] then Some (PDict payload)
         else map_option (\<lambda>m. PDict (dset ''metadata'' (PDict m) payload))
           (rename_all (map (\<lambda>(k, v). (k, Some (PStr (stringify_metadata_value fr v))))
              (filter (\<lambda>(k, v). v \<noteq> PNone) metadata))))"

definition build_context_detail :: "string \<Rightarrow> mapping \<Rightarrow> pyval option" where
  "build_context_detail detail_type payload =
     map_option (\<lambda>m. PDict (dmerge [(''@type'', PStr (context_type detail_type))] m))
       (rename_all (map (\<lambda>(k, v). (k, camelize (redact_paths_in_value v))) payload))"

section \<open>Errors\<close>

record jsonrpc_error =
  je_code :: int
  je_message :: string
  je_data :: pyval

text \<open>An error of this service, or one of the SDK's classes with its name.\<close>

datatype rpc_error =
    JSONRPCError jsonrpc_error
  | A2AError string string pyval

fun error_class :: "rpc_error \<Rightarrow> string" where
  "error_class (JSONRPCError e) = ''JSONRPCError''"
| "error_class (A2AError name _ _) = name"

fun error_data :: "rpc_error \<Rightarrow> pyval" where
  "error_data (JSONRPCError e) = je_data e"
| "error_data (A2AError _ _ data) = data"

definition reason_from_error :: "rpc_error \<Rightarrow> string option" where
  "reason_from_error error =
     (let by_class = (let class_name = error_class error
            in if endswith class_name ''Error'' \<and> class_name \<noteq> ''JSONRPCError''
               then Some (take (length class_name - 5) class_name) else None)
      in case error_data error of
           PDict data \<Rightarrow>
             (case dget data ''type'' of
                PStr data_type \<Rightarrow> if strip data_type \<noteq> [] then Some data_type else by_class
              | _ \<Rightarrow> by_class)
         | _ \<Rightarrow> by_class)"

definition without_type :: "mapping \<Rightarrow> mapping" where
  "without_type data = filter (\<lambda>(k, v). k \<noteq> ''type'') data"

definition metadata_from_error :: "rpc_error \<Rightarrow> mapping" where
  "metadata_from_error error = (case error_data error of PDict data \<Rightarrow> without_type data | _ \<Rightarrow> [])"

definition root_error :: "(string \<Rightarrow> int option) \<Rightarrow> rpc_error \<Rightarrow> jsonrpc_error" where
  "root_error codes error =
     (case error of
        A2AError name message data \<Rightarrow>
          \<lparr>je_code = (case codes name of None \<Rightarrow> -32603 | Some c \<Rightarrow> c), je_message = message, je_data = data\<rparr>
      | JSONRPCError e \<Rightarrow> e)"

text \<open>The details of an error that is not one of the standard ones, or of an HTTP error.\<close>

definition error_details :: "(rat \<Rightarrow> string) \<Rightarrow> string \<Rightarrow> string option \<Rightarrow> mapping \<Rightarrow> pyval list option" where
  "error_details fr detail_type reason metadata =
     those ((case reason of None \<Rightarrow> [] | Some r \<Rightarrow> [build_error_info_detail fr r metadata]) @
            (if metadata = [] then [] else [build_context_detail detail_type metadata]))"

definition adapt_jsonrpc_error :: "(string \<Rightarrow> int option) \<Rightarrow> (rat \<Rightarrow> string) \<Rightarrow> rpc_error \<Rightarrow> jsonrpc_error option" where
  "adapt_jsonrpc_error codes fr error =
     (let e = root_error codes error
      in case map_of STANDARD_JSONRPC_ERROR_MESSAGES (je_code e) of
           Some message \<Rightarrow>
             map_option (\<lambda>data. \<lparr>je_code = je_code e, je_message = message, je_data = data\<rparr>)
               (case je_data e of
                  PDict data \<Rightarrow> map_option redact_paths_in_value (camelize (PDict (without_type data)))
                | v \<Rightarrow> Some (redact_paths_in_value v))
         | None \<Rightarrow>
             map_option (\<lambda>details. \<lparr>je_code = je_code e, je_message = redact_absolute_paths (je_message e),
                  je_data = (if details = [] then PNone else PList details)\<rparr>)
               (error_details fr ''ErrorContext'' (reason_from_error error) (metadata_from_error error)))"

definition build_http_error_body ::
    "(rat \<Rightarrow> string) \<Rightarrow> int \<Rightarrow> string \<Rightarrow> string \<Rightarrow> string option \<Rightarrow> mapping \<Rightarrow> pyval option" where
  "build_http_error_body fr status_code status message reason metadata =
     map_option (\<lambda>details. PDict [(''error'', PDict
         ([(''code'', PInt status_code), (''status'', PStr status), (''message'', PStr (redact_absolute_paths message))] @
          (if details = [] then [] else [(''details'', PList details)])))])
       (error_details fr ''HttpErrorContext'' reason metadata)"

section \<open>The errors of this service\<close>

definition invalid_params_error :: "string \<Rightarrow> pyval \<Rightarrow> rpc_error" where
  "invalid_params_error message data = A2AError ''InvalidParamsError'' message data"

definition rpc_failure :: "int \<Rightarrow> string \<Rightarrow> mapping \<Rightarrow> rpc_error" where
  "rpc_failure code message data = JSONRPCError \<lparr>je_code = code, je_message = message, je_data = PDict data\<rparr>"

definition A2A_PROTOCOL_VERSION :: string where
  "A2A_PROTOCOL_VERSION = ''1.0''"

definition method_not_supported_error :: "string \<Rightarrow> string list \<Rightarrow> rpc_error" where
  "method_not_supported_error method supported_methods =
     rpc_failure (-32601) (''Unsupported method: '' @ method)
       [(''type'', PStr ''METHOD_NOT_SUPPORTED''), (''method'', PStr method),
        (''supported_methods'', PList (map PStr supported_methods)),
        (''protocol_version'', PStr A2A_PROTOCOL_VERSION)]"

definition version_not_supported_error :: "string \<Rightarrow> string list \<Rightarrow> string \<Rightarrow> rpc_error" where
  "version_not_supported_error requested_version supported_protocol_versions default_protocol_version =
     rpc_failure (-32001) (''Unsupported A2A version: '' @ requested_version)
       [(''type'', PStr ''VERSION_NOT_SUPPORTED''), (''requested_version'', PStr requested_version),
        (''supported_protocol_versions'', PList (map PStr supported_protocol_versions)),
        (''default_protocol_version'', PStr default_protocol_version)]"

definition session_forbidden_error :: "int \<Rightarrow> string \<Rightarrow> rpc_error" where
  "session_forbidden_error code session_id =
     rpc_failure code ''Session forbidden''
       [(''type'', PStr ''SESSION_FORBIDDEN''), (''session_id'', PStr session_id)]"

definition authorization_forbidden_error :: "int \<Rightarrow> string \<Rightarrow> string \<Rightarrow> string option \<Rightarrow> rpc_error" where
  "authorization_forbidden_error code method capability credential_id =
     rpc_failure code ''Authorization forbidden''
       (dset_opt ''credential_id'' (map_option PStr credential_id)
          [(''type'', PStr ''AUTHORIZATION_FORBIDDEN''), (''method'', PStr method),
           (''capability'', PStr capability)])"

definition session_not_found_error :: "int \<Rightarrow> string \<Rightarrow> rpc_error" where
  "session_not_found_error code session_id =
     rpc_failure code ''Session not found''
       [(''type'', PStr ''SESSION_NOT_FOUND''), (''session_id'', PStr session_id)]"

definition interrupt_not_found_error :: "int \<Rightarrow> string \<Rightarrow> bool \<Rightarrow> rpc_error" where
  "interrupt_not_found_error code request_id expired =
     rpc_failure code (if expired then ''Interrupt request expired'' else ''Interrupt request not found'')
       [(''type'', PStr (if expired then ''INTERRUPT_REQUEST_EXPIRED'' else ''INTERRUPT_REQUEST_NOT_FOUND'')),
        (''request_id'', PStr request_id)]"

definition interrupt_type_mismatch_error :: "int \<Rightarrow> string \<Rightarrow> string \<Rightarrow> string \<Rightarrow> rpc_error" where
  "interrupt_type_mismatch_error code request_id expected_interrupt_type actual_interrupt_type =
     rpc_failure code ''Interrupt callback type mismatch''
       [(''type'', PStr ''INTERRUPT_TYPE_MISMATCH''), (''request_id'', PStr request_id),
        (''expected_interrupt_type'', PStr expected_interrupt_type),
        (''actual_interrupt_type'', PStr actual_interrupt_type)]"

text \<open>The method, the session, the request and the detail, where the caller gives them.\<close>

definition upstream_context :: "string option \<Rightarrow> string option \<Rightarrow> string option \<Rightarrow> mapping \<Rightarrow> mapping" where
  "upstream_context method session_id request_id data =
     dset_opt ''request_id'' (map_option PStr request_id)
       (dset_opt ''session_id'' (map_option PStr session_id)
         (dset_opt ''method'' (map_option PStr method) data))"

definition upstream_http_error ::
    "int \<Rightarrow> int \<Rightarrow> string option \<Rightarrow> string option \<Rightarrow> string option \<Rightarrow> string option \<Rightarrow> rpc_error" where
  "upstream_http_error code upstream_status method session_id request_id detail =
     rpc_failure code ''Upstream OpenCode error''
       (dset_opt ''detail'' (map_option PStr detail)
         (upstream_context method session_id request_id
            [(''type'', PStr ''UPSTREAM_HTTP_ERROR''), (''upstream_status'', PInt upstream_status)]))"

definition upstream_unreachable_error ::
    "int \<Rightarrow> string option \<Rightarrow> string option \<Rightarrow> string option \<Rightarrow> string option \<Rightarrow> rpc_error" where
  "upstream_unreachable_error code method session_id request_id detail =
     rpc_failure code ''Upstream OpenCode unreachable''
       (dset_opt ''detail'' (map_option PStr detail)
         (upstream_context method session_id request_id [(''type'', PStr ''UPSTREAM_UNREACHABLE'')]))"

definition upstream_payload_error ::
    "int \<Rightarrow> string \<Rightarrow> string option \<Rightarrow> string option \<Rightarrow> string option \<Rightarrow> rpc_error" where
  "upstream_payload_error code detail method session_id request_id =
     rpc_failure code ''Upstream OpenCode payload mismatch''
       (upstream_context method session_id request_id
          [(''type'', PStr ''UPSTREAM_PAYLOAD_ERROR''), (''detail'', PStr detail)])"

section \<open>No path leaves in an error\<close>

fun strings_of :: "pyval \<Rightarrow> string set" where
  "strings_of (PStr s) = {s}"
| "strings_of (PList vs) = (\<Union>v \<in> set vs. strings_of v)"
| "strings_of (PDict d) = (\<Union>p \<in> set d. strings_of (snd p))"
| "strings_of _ = {}"

text \<open>What the masking of paths can produce, and how a number or a truth value is printed.\<close>

abbreviation masked :: "string set" where
  "masked \<equiv> range redact_absolute_paths"

definition scalar_texts :: "(rat \<Rightarrow> string) \<Rightarrow> string set" where
  "scalar_texts fr = {py_str fr (PBool b) |b. True} \<union> {py_str fr (PInt i) |i. True} \<union> {py_str fr (PFloat q) |q. True}"

lemma redacted_strings: "strings_of (redact_paths_in_value v) \<subseteq> masked"
proof (induction v rule: redact_paths_in_value.induct)
  case (3 d)
  then show ?case by fastforce
qed auto

lemma stringified: "stringify_metadata_value fr v \<in> masked \<union> scalar_texts fr"
  by (cases v) (auto simp: scalar_texts_def)

lemma set_dmerge: "set (dmerge a b) \<subseteq> set a \<union> set b"
proof (induction b arbitrary: a)
  case (Cons p b)
  have "dmerge a (p # b) = dmerge (dset (fst p) (snd p) a) b" by (simp add: dmerge_def case_prod_unfold)
  moreover have "set (dmerge (dset (fst p) (snd p) a) b) \<subseteq> set (dset (fst p) (snd p) a) \<union> set b"
    by (rule Cons.IH)
  moreover have "set (dset (fst p) (snd p) a) \<subseteq> insert p (set a)"
    using set_dset [of "fst p" "snd p" a] by simp
  ultimately show ?case by (simp only: list.set Un_insert_right) blast
qed (simp add: dmerge_def)

lemma those_set: "those xs = Some ys \<Longrightarrow> y \<in> set ys \<Longrightarrow> Some y \<in> set xs"
  by (induction xs arbitrary: ys) (auto split: option.splits)

lemma rename_all_values:
  assumes "rename_all d = Some m" "p \<in> set m"
  shows "\<exists>k. (k, Some (snd p)) \<in> set d"
proof -
  from assms(1) obtain ps where ps: "those (map (\<lambda>(k, v). case to_lower_camel_case k of
      None \<Rightarrow> None | Some k' \<Rightarrow> map_option (\<lambda>v'. (k', v')) v) d) = Some ps" and m: "m = dmerge [] ps"
    by (auto simp: rename_all_def)
  from assms(2) m set_dmerge [of "[]" ps] have "p \<in> set ps" by auto
  from those_set [OF ps this] obtain k v where "(k, v) \<in> set d"
    "(case to_lower_camel_case k of None \<Rightarrow> None | Some k' \<Rightarrow> map_option (\<lambda>v'. (k', v')) v) = Some p"
    by auto
  then have "v = Some (snd p)" by (cases v) (auto split: option.splits)
  with \<open>(k, v) \<in> set d\<close> show ?thesis by blast
qed

lemma camelized_strings: "camelize v = Some w \<Longrightarrow> strings_of w \<subseteq> strings_of v"
proof (induction v arbitrary: w rule: camelize.induct)
  case (1 d)
  from "1.prems" obtain m where m: "rename_all (map (\<lambda>(k, v). (k, camelize v)) d) = Some m" "w = PDict m"
    by auto
  show ?case
  proof
    fix s assume "s \<in> strings_of w"
    then obtain p where p: "p \<in> set m" "s \<in> strings_of (snd p)" using m(2) by auto
    from rename_all_values [OF m(1) p(1)] obtain q where q: "q \<in> set d" "camelize (snd q) = Some (snd p)"
      by force
    obtain k v where kv: "q = (k, v)" by (cases q)
    have "strings_of (snd p) \<subseteq> strings_of v" using "1.IH" [OF q(1) kv [symmetric]] q(2) kv by simp
    with p(2) have "s \<in> strings_of (snd q)" using kv by auto
    with q(1) show "s \<in> strings_of (PDict d)" by auto
  qed
next
  case (2 vs)
  from "2.prems" obtain ws where ws: "those (map camelize vs) = Some ws" "w = PList ws" by auto
  show ?case
  proof
    fix s assume "s \<in> strings_of w"
    then obtain u where u: "u \<in> set ws" "s \<in> strings_of u" using ws(2) by auto
    from those_set [OF ws(1) u(1)] obtain v where v: "v \<in> set vs" "camelize v = Some u" by auto
    from "2.IH" [OF v(1,2)] u(2) v(1) show "s \<in> strings_of (PList vs)" by auto
  qed
qed auto

text \<open>The texts of a detail that are not taken from the error's data.\<close>

definition detail_texts :: "string \<Rightarrow> string option \<Rightarrow> string set" where
  "detail_texts detail_type reason =
     {GOOGLE_RPC_ERROR_INFO_TYPE, context_type detail_type, A2A_ERROR_DOMAIN} \<union>
     (case reason of None \<Rightarrow> {} | Some r \<Rightarrow> {to_upper_snake_case r})"

lemma info_detail_strings:
  assumes "build_error_info_detail fr r metadata = Some v"
  shows "strings_of v \<subseteq> masked \<union> scalar_texts fr \<union> detail_texts detail_type (Some r)"
proof (cases "metadata = []")
  case True
  with assms show ?thesis by (auto simp: build_error_info_detail_def detail_texts_def)
next
  case False
  with assms obtain m where m: "rename_all (map (\<lambda>(k, v). (k, Some (PStr (stringify_metadata_value fr v))))
      (filter (\<lambda>(k, v). v \<noteq> PNone) metadata)) = Some m"
    and v: "v = PDict (dset ''metadata'' (PDict m) [(''@type'', PStr GOOGLE_RPC_ERROR_INFO_TYPE),
       (''reason'', PStr (to_upper_snake_case r)), (''domain'', PStr A2A_ERROR_DOMAIN)])"
    by (auto simp: build_error_info_detail_def Let_def)
  have "strings_of (snd p) \<subseteq> masked \<union> scalar_texts fr" if "p \<in> set m" for p
  proof -
    from rename_all_values [OF m that] obtain u where "snd p = PStr (stringify_metadata_value fr u)"
      by auto
    then show ?thesis using stringified [of fr u] by simp
  qed
  then have "strings_of (PDict m) \<subseteq> masked \<union> scalar_texts fr" by auto
  then show ?thesis by (auto simp: v detail_texts_def)
qed

lemma context_detail_strings:
  assumes "build_context_detail detail_type payload = Some v"
  shows "strings_of v \<subseteq> masked \<union> detail_texts detail_type reason"
proof -
  from assms obtain m where m: "rename_all (map (\<lambda>(k, v). (k, camelize (redact_paths_in_value v))) payload) = Some m"
    and v: "v = PDict (dmerge [(''@type'', PStr (context_type detail_type))] m)"
    by (auto simp: build_context_detail_def)
  have "strings_of (snd p) \<subseteq> masked" if "p \<in> set m" for p
  proof -
    from rename_all_values [OF m that] obtain u where "camelize (redact_paths_in_value u) = Some (snd p)"
      by auto
    then show ?thesis using camelized_strings redacted_strings by (meson subset_trans)
  qed
  moreover have "set (dmerge [(''@type'', PStr (context_type detail_type))] m) \<subseteq>
      {(''@type'', PStr (context_type detail_type))} \<union> set m"
    using set_dmerge [of "[(''@type'', PStr (context_type detail_type))]" m] by simp
  ultimately show ?thesis unfolding v by (fastforce simp: detail_texts_def)
qed

lemma error_details_strings:
  assumes "error_details fr detail_type reason metadata = Some ds"
  shows "strings_of (PList ds) \<subseteq> masked \<union> scalar_texts fr \<union> detail_texts detail_type reason"
proof -
  have "strings_of d \<subseteq> masked \<union> scalar_texts fr \<union> detail_texts detail_type reason" if "d \<in> set ds" for d
  proof -
    from those_set [OF assms [unfolded error_details_def] that]
    consider r where "reason = Some r" "build_error_info_detail fr r metadata = Some d"
      | "build_context_detail detail_type metadata = Some d"
      by (auto split: option.splits if_splits)
    then show ?thesis
    proof cases
      case 1
      with info_detail_strings [OF 1(2), of detail_type] show ?thesis by simp
    next
      case 2
      with context_detail_strings [OF 2, of reason] show ?thesis by blast
    qed
  qed
  then show ?thesis by auto
qed

lemma standard_error_data:
  assumes "(case d of PDict data \<Rightarrow> map_option redact_paths_in_value (camelize (PDict (without_type data)))
      | v \<Rightarrow> Some (redact_paths_in_value v)) = Some w"
  shows "strings_of w \<subseteq> masked"
proof -
  from assms have "w \<in> range redact_paths_in_value"
    by (cases d) (auto simp del: redact_paths_in_value.simps)
  then obtain u where "w = redact_paths_in_value u" by blast
  then show ?thesis using redacted_strings by simp
qed

text \<open>C23. An error leaves the service without a file path of the host: its message and every text in its
  data is the result of masking the absolute paths of some text, or a printed number, or a name the code
  itself puts there.\<close>

theorem errors_show_no_paths:
  assumes "adapt_jsonrpc_error codes fr error = Some a"
  shows "je_message a \<in> masked \<union> snd ` set STANDARD_JSONRPC_ERROR_MESSAGES \<and>
    strings_of (je_data a) \<subseteq>
      masked \<union> scalar_texts fr \<union> detail_texts ''ErrorContext'' (reason_from_error error)"
proof (cases "map_of STANDARD_JSONRPC_ERROR_MESSAGES (je_code (root_error codes error))")
  case None
  with assms obtain ds where ds: "error_details fr ''ErrorContext'' (reason_from_error error)
      (metadata_from_error error) = Some ds"
    and a: "je_message a = redact_absolute_paths (je_message (root_error codes error))"
      "je_data a = (if ds = [] then PNone else PList ds)"
    by (auto simp: adapt_jsonrpc_error_def Let_def)
  from error_details_strings [OF ds] a show ?thesis by auto
next
  case (Some message)
  with assms obtain w where w: "(case je_data (root_error codes error) of
       PDict data \<Rightarrow> map_option redact_paths_in_value (camelize (PDict (without_type data)))
     | v \<Rightarrow> Some (redact_paths_in_value v)) = Some w"
    and a: "a = \<lparr>je_code = je_code (root_error codes error), je_message = message, je_data = w\<rparr>"
    by (auto simp: adapt_jsonrpc_error_def Let_def)
  have "message \<in> snd ` set STANDARD_JSONRPC_ERROR_MESSAGES" using map_of_SomeD [OF Some] by force
  with standard_error_data [OF w] a show ?thesis by auto
qed

section \<open>Every error of the service can be sent\<close>

lemma constructors_camelize:
  "to_lower_camel_case ''session_id'' = Some ''sessionId''" "to_lower_camel_case ''method'' = Some ''method''"
  "to_lower_camel_case ''request_id'' = Some ''requestId''" "to_lower_camel_case ''detail'' = Some ''detail''"
  "to_lower_camel_case ''capability'' = Some ''capability''"
  "to_lower_camel_case ''credential_id'' = Some ''credentialId''"
  "to_lower_camel_case ''upstream_status'' = Some ''upstreamStatus''"
  by code_simp+

lemma adapt_session_forbidden:
  assumes "code \<notin> fst ` set STANDARD_JSONRPC_ERROR_MESSAGES"
  shows "adapt_jsonrpc_error codes fr (session_forbidden_error code session_id) =
    Some \<lparr>je_code = code, je_message = redact_absolute_paths ''Session forbidden'',
      je_data = PList
        [PDict [(''@type'', PStr GOOGLE_RPC_ERROR_INFO_TYPE), (''reason'', PStr ''SESSION_FORBIDDEN''),
                (''domain'', PStr A2A_ERROR_DOMAIN),
                (''metadata'', PDict [(''sessionId'', PStr (redact_absolute_paths session_id))])],
         PDict [(''@type'', PStr (context_type ''ErrorContext'')),
                (''sessionId'', PStr (redact_absolute_paths session_id))]]\<rparr>"
proof -
  have "map_of STANDARD_JSONRPC_ERROR_MESSAGES code = None" using assms by (simp add: map_of_eq_None_iff)
  moreover have "to_upper_snake_case ''SESSION_FORBIDDEN'' = ''SESSION_FORBIDDEN''" by code_simp
  moreover have "strip ''SESSION_FORBIDDEN'' \<noteq> []" by code_simp
  ultimately show ?thesis
    by (simp add: adapt_jsonrpc_error_def session_forbidden_error_def rpc_failure_def root_error_def
        reason_from_error_def metadata_from_error_def without_type_def error_details_def dget_def
        build_error_info_detail_def build_context_detail_def rename_all_def constructors_camelize dmerge_def)
qed

lemma errors_show_no_paths_witness:
  "\<exists>a. adapt_jsonrpc_error (\<lambda>_. None) (\<lambda>_. []) (session_forbidden_error (-32006) ''s'') = Some a \<and>
     strings_of (je_data a) \<subseteq> masked \<union> scalar_texts (\<lambda>_. []) \<union> detail_texts ''ErrorContext'' (Some ''SESSION_FORBIDDEN'')"
proof -
  have code: "(-32006 :: int) \<notin> fst ` set STANDARD_JSONRPC_ERROR_MESSAGES"
    by (simp add: STANDARD_JSONRPC_ERROR_MESSAGES_def)
  have "reason_from_error (session_forbidden_error (-32006) ''s'') = Some ''SESSION_FORBIDDEN''" by code_simp
  with errors_show_no_paths [OF adapt_session_forbidden [OF code, of "\<lambda>_. None" "\<lambda>_. []" "''s''"]]
    adapt_session_forbidden [OF code, of "\<lambda>_. None" "\<lambda>_. []" "''s''"]
  show ?thesis by metis
qed

end
