(* ===== verification/Rpc_Methods.thy ===== *)
theory Rpc_Methods
  imports A2A_Events Sandbox_Policy Rpc_Errors Py_Json
begin

text \<open>
  The methods of the JSON-RPC interface: the tables of \<open>contracts/extensions/catalog.py\<close> and the URIs of
  \<open>identifiers.py\<close>, which of them a deployment offers (\<open>capabilities.py\<close>), and the registry that
  finds the handler of a method (\<open>jsonrpc/dispatch.py\<close>). The methods the SDK serves itself are the
  parameter \<open>core\<close>.
\<close>

section \<open>Extensions\<close>

definition SESSION_MANAGEMENT_EXTENSION_URI :: string where
  "SESSION_MANAGEMENT_EXTENSION_URI = EXTENSION_URI_NAMESPACE @ ''session-management:v1''"

definition PROVIDER_DISCOVERY_EXTENSION_URI :: string where
  "PROVIDER_DISCOVERY_EXTENSION_URI = EXTENSION_URI_NAMESPACE @ ''provider-discovery:v1''"

definition INTERRUPT_RECOVERY_EXTENSION_URI :: string where
  "INTERRUPT_RECOVERY_EXTENSION_URI = EXTENSION_URI_NAMESPACE @ ''interrupt-recovery:v1''"

definition WORKSPACE_CONTROL_EXTENSION_URI :: string where
  "WORKSPACE_CONTROL_EXTENSION_URI = EXTENSION_URI_NAMESPACE @ ''workspace-control:v1''"

definition COMPATIBILITY_PROFILE_EXTENSION_URI :: string where
  "COMPATIBILITY_PROFILE_EXTENSION_URI = EXTENSION_URI_NAMESPACE @ ''compatibility-profile:v1''"

definition WIRE_CONTRACT_EXTENSION_URI :: string where
  "WIRE_CONTRACT_EXTENSION_URI = EXTENSION_URI_NAMESPACE @ ''wire-contract:v1''"

definition PUBLIC_EXTENSION_URIS :: "string list" where
  "PUBLIC_EXTENSION_URIS = [SESSION_BINDING_EXTENSION_URI, MODEL_SELECTION_EXTENSION_URI,
     STREAMING_EXTENSION_URI, INTERRUPT_CALLBACK_EXTENSION_URI]"

definition AUTHENTICATED_ONLY_EXTENSION_URIS :: "string list" where
  "AUTHENTICATED_ONLY_EXTENSION_URIS = [SESSION_MANAGEMENT_EXTENSION_URI, PROVIDER_DISCOVERY_EXTENSION_URI,
     WORKSPACE_CONTROL_EXTENSION_URI, INTERRUPT_RECOVERY_EXTENSION_URI,
     COMPATIBILITY_PROFILE_EXTENSION_URI, WIRE_CONTRACT_EXTENSION_URI]"

definition ALL_EXTENSION_URIS :: "string list" where
  "ALL_EXTENSION_URIS = PUBLIC_EXTENSION_URIS @ AUTHENTICATED_ONLY_EXTENSION_URIS"

section \<open>The tables\<close>

type_synonym method_table = "(string \<times> string) list"

definition SESSION_METHODS :: method_table where
  "SESSION_METHODS =
     [(''status'', ''opencode.sessions.status''), (''list_sessions'', ''opencode.sessions.list''),
      (''get_session_messages'', ''opencode.sessions.messages.list''),
      (''get_session'', ''opencode.sessions.get''), (''get_session_children'', ''opencode.sessions.children''),
      (''get_session_todo'', ''opencode.sessions.todo''), (''get_session_diff'', ''opencode.sessions.diff''),
      (''get_session_message'', ''opencode.sessions.messages.get''),
      (''prompt_async'', ''opencode.sessions.prompt_async''), (''command'', ''opencode.sessions.command''),
      (''fork'', ''opencode.sessions.fork''), (''share'', ''opencode.sessions.share''),
      (''unshare'', ''opencode.sessions.unshare''), (''summarize'', ''opencode.sessions.summarize''),
      (''revert'', ''opencode.sessions.revert''), (''unrevert'', ''opencode.sessions.unrevert''),
      (''shell'', ''opencode.sessions.shell'')]"

definition INTERRUPT_CALLBACK_METHODS :: method_table where
  "INTERRUPT_CALLBACK_METHODS =
     [(''reply_permission'', ''a2a.interrupt.permission.reply''),
      (''reply_question'', ''a2a.interrupt.question.reply''),
      (''reject_question'', ''a2a.interrupt.question.reject'')]"

definition PROVIDER_DISCOVERY_METHODS :: method_table where
  "PROVIDER_DISCOVERY_METHODS =
     [(''list_providers'', ''opencode.providers.list''), (''list_models'', ''opencode.models.list'')]"

definition INTERRUPT_RECOVERY_METHODS :: method_table where
  "INTERRUPT_RECOVERY_METHODS =
     [(''list_permissions'', ''opencode.permissions.list''), (''list_questions'', ''opencode.questions.list'')]"

definition WORKSPACE_CONTROL_METHODS :: method_table where
  "WORKSPACE_CONTROL_METHODS =
     [(''list_projects'', ''opencode.projects.list''), (''get_current_project'', ''opencode.projects.current''),
      (''list_workspaces'', ''opencode.workspaces.list''), (''create_workspace'', ''opencode.workspaces.create''),
      (''remove_workspace'', ''opencode.workspaces.remove''), (''list_worktrees'', ''opencode.worktrees.list''),
      (''create_worktree'', ''opencode.worktrees.create''), (''remove_worktree'', ''opencode.worktrees.remove''),
      (''reset_worktree'', ''opencode.worktrees.reset'')]"

text \<open>\<open>{key: METHODS[key] for key in KEYS}\<close>\<close>

definition method_subset :: "method_table \<Rightarrow> string list \<Rightarrow> method_table" where
  "method_subset table keys = List.map_filter (\<lambda>key. map_option (Pair key) (map_of table key)) keys"

definition WORKSPACE_DISCOVERY_METHODS :: method_table where
  "WORKSPACE_DISCOVERY_METHODS = method_subset WORKSPACE_CONTROL_METHODS
     [''list_projects'', ''get_current_project'', ''list_workspaces'', ''list_worktrees'']"

definition WORKSPACE_MUTATION_METHODS :: method_table where
  "WORKSPACE_MUTATION_METHODS = method_subset WORKSPACE_CONTROL_METHODS
     [''create_workspace'', ''remove_workspace'', ''create_worktree'', ''remove_worktree'', ''reset_worktree'']"

text \<open>The codes of the errors of each group of methods.\<close>

definition SESSION_QUERY_ERROR_BUSINESS_CODES :: "(string \<times> int) list" where
  "SESSION_QUERY_ERROR_BUSINESS_CODES =
     [(''SESSION_NOT_FOUND'', -32001), (''SESSION_FORBIDDEN'', -32006), (''AUTHORIZATION_FORBIDDEN'', -32007),
      (''UPSTREAM_UNREACHABLE'', -32002), (''UPSTREAM_HTTP_ERROR'', -32003), (''UPSTREAM_PAYLOAD_ERROR'', -32005)]"

definition INTERRUPT_ERROR_BUSINESS_CODES :: "(string \<times> int) list" where
  "INTERRUPT_ERROR_BUSINESS_CODES =
     [(''INTERRUPT_REQUEST_NOT_FOUND'', -32004), (''INTERRUPT_REQUEST_EXPIRED'', -32007),
      (''INTERRUPT_TYPE_MISMATCH'', -32008), (''UPSTREAM_UNREACHABLE'', -32002), (''UPSTREAM_HTTP_ERROR'', -32003)]"

definition PROVIDER_DISCOVERY_ERROR_BUSINESS_CODES :: "(string \<times> int) list" where
  "PROVIDER_DISCOVERY_ERROR_BUSINESS_CODES =
     [(''UPSTREAM_UNREACHABLE'', -32002), (''UPSTREAM_HTTP_ERROR'', -32003), (''UPSTREAM_PAYLOAD_ERROR'', -32005)]"

definition WORKSPACE_CONTROL_ERROR_BUSINESS_CODES :: "(string \<times> int) list" where
  "WORKSPACE_CONTROL_ERROR_BUSINESS_CODES =
     [(''AUTHORIZATION_FORBIDDEN'', -32007), (''UPSTREAM_UNREACHABLE'', -32002),
      (''UPSTREAM_HTTP_ERROR'', -32003), (''UPSTREAM_PAYLOAD_ERROR'', -32005)]"

section \<open>What a deployment offers\<close>

record conditional_method =
  cd_method :: string
  cd_enabled :: bool
  cd_extension_uri :: string
  cd_toggle :: string

definition SESSION_SHELL_TOGGLE :: string where
  "SESSION_SHELL_TOGGLE = ''A2A_ENABLE_SESSION_SHELL''"

definition WORKSPACE_MUTATIONS_TOGGLE :: string where
  "WORKSPACE_MUTATIONS_TOGGLE = ''A2A_ENABLE_WORKSPACE_MUTATIONS''"

text \<open>The configuration decides through the sandbox policy (\<open>build_runtime_profile\<close>).\<close>

definition build_capability_snapshot :: "sandbox_policy \<Rightarrow> bool \<Rightarrow> bool \<Rightarrow> (string \<times> conditional_method) list" where
  "build_capability_snapshot P enable_session_shell enable_workspace_mutations =
     (let shell = the (map_of SESSION_METHODS ''shell'')
      in fold (\<lambda>(key, method). dset method
             \<lparr>cd_method = method, cd_enabled = is_workspace_mutations_enabled P enable_workspace_mutations,
              cd_extension_uri = WORKSPACE_CONTROL_EXTENSION_URI, cd_toggle = WORKSPACE_MUTATIONS_TOGGLE\<rparr>)
           WORKSPACE_MUTATION_METHODS
           [(shell, \<lparr>cd_method = shell, cd_enabled = is_session_shell_enabled P enable_session_shell,
                     cd_extension_uri = SESSION_MANAGEMENT_EXTENSION_URI, cd_toggle = SESSION_SHELL_TOGGLE\<rparr>)])"

type_synonym capability_snapshot = "(string \<times> conditional_method) list"

definition is_method_enabled :: "capability_snapshot \<Rightarrow> string \<Rightarrow> bool" where
  "is_method_enabled snapshot method =
     (case map_of snapshot method of None \<Rightarrow> True | Some c \<Rightarrow> cd_enabled c)"

definition session_management_methods :: "capability_snapshot \<Rightarrow> method_table" where
  "session_management_methods snapshot =
     (if is_method_enabled snapshot (the (map_of SESSION_METHODS ''shell'')) then SESSION_METHODS
      else ddel ''shell'' SESSION_METHODS)"

definition workspace_control_methods :: "capability_snapshot \<Rightarrow> method_table" where
  "workspace_control_methods snapshot =
     fold (\<lambda>(key, method) methods. if is_method_enabled snapshot method then dset key method methods else methods)
       WORKSPACE_MUTATION_METHODS WORKSPACE_DISCOVERY_METHODS"

definition extension_jsonrpc_methods :: "capability_snapshot \<Rightarrow> string list" where
  "extension_jsonrpc_methods snapshot =
     map snd (filter (\<lambda>(key, method). key \<noteq> ''shell'') SESSION_METHODS) @ map snd PROVIDER_DISCOVERY_METHODS @
     map snd (workspace_control_methods snapshot) @ map snd INTERRUPT_RECOVERY_METHODS @
     map snd INTERRUPT_CALLBACK_METHODS @
     (let shell = the (map_of SESSION_METHODS ''shell'')
      in if is_method_enabled snapshot shell then [shell] else [])"

definition supported_jsonrpc_methods :: "string list \<Rightarrow> capability_snapshot \<Rightarrow> string list" where
  "supported_jsonrpc_methods core snapshot = core @ extension_jsonrpc_methods snapshot"

text \<open>The methods the application hands to its JSON-RPC dispatcher (\<open>create_app\<close>).\<close>

definition jsonrpc_methods :: "capability_snapshot \<Rightarrow> method_table" where
  "jsonrpc_methods snapshot =
     dmerge (dmerge (dmerge (dmerge (session_management_methods snapshot) PROVIDER_DISCOVERY_METHODS)
       (workspace_control_methods snapshot)) INTERRUPT_RECOVERY_METHODS) INTERRUPT_CALLBACK_METHODS"

section \<open>The registry\<close>

datatype handler =
    SessionLifecycle | SessionListing | ProviderDiscovery | InterruptQuery | WorkspaceControl
  | SessionControl | InterruptCallback

record method_spec =
  ms_name :: string
  ms_methods :: "string list"
  ms_extension_uri :: string
  ms_handler :: handler

definition REQUIRED_METHOD_KEYS :: "string list" where
  "REQUIRED_METHOD_KEYS =
     [''status'', ''list_sessions'', ''get_session'', ''get_session_children'', ''get_session_todo'',
      ''get_session_diff'', ''get_session_message'', ''get_session_messages'', ''prompt_async'', ''command'',
      ''fork'', ''share'', ''unshare'', ''summarize'', ''revert'', ''unrevert'', ''list_providers'',
      ''list_models'', ''list_projects'', ''get_current_project'', ''list_workspaces'', ''list_worktrees'',
      ''list_permissions'', ''list_questions'', ''reply_permission'', ''reply_question'', ''reject_question'']"

text \<open>The methods of the given keys; an optional one may be missing.\<close>

definition methods_of :: "method_table \<Rightarrow> string list \<Rightarrow> string list" where
  "methods_of methods keys = remdups (List.map_filter (map_of methods) keys)"

definition SESSION_CONTROL_KEYS :: "string list" where
  "SESSION_CONTROL_KEYS = [''prompt_async'', ''command'', ''shell'']"

definition SESSION_ITEM_KEYS :: "string list" where
  "SESSION_ITEM_KEYS =
     [''status'', ''get_session'', ''get_session_children'', ''get_session_todo'', ''get_session_diff'',
      ''get_session_message'', ''fork'', ''share'', ''unshare'', ''summarize'', ''revert'', ''unrevert'']"

definition method_specs :: "method_table \<Rightarrow> method_spec list" where
  "method_specs methods =
     (let spec = (\<lambda>name keys uri h. \<lparr>ms_name = name, ms_methods = methods_of methods keys,
                                      ms_extension_uri = uri, ms_handler = h\<rparr>)
      in [spec ''session_lifecycle'' SESSION_ITEM_KEYS SESSION_MANAGEMENT_EXTENSION_URI SessionLifecycle,
          spec ''session_listing'' [''list_sessions'', ''get_session_messages''] SESSION_MANAGEMENT_EXTENSION_URI SessionListing,
          spec ''provider_discovery'' [''list_providers'', ''list_models''] PROVIDER_DISCOVERY_EXTENSION_URI ProviderDiscovery,
          spec ''interrupt_query'' [''list_permissions'', ''list_questions''] INTERRUPT_RECOVERY_EXTENSION_URI InterruptQuery,
          spec ''workspace_control'' [''list_projects'', ''get_current_project'', ''list_workspaces'', ''list_worktrees'',
            ''create_workspace'', ''remove_workspace'', ''create_worktree'', ''remove_worktree'', ''reset_worktree'']
            WORKSPACE_CONTROL_EXTENSION_URI WorkspaceControl,
          spec ''session_control'' SESSION_CONTROL_KEYS SESSION_MANAGEMENT_EXTENSION_URI SessionControl,
          spec ''interrupt_callback'' [''reply_permission'', ''reply_question'', ''reject_question'']
            INTERRUPT_CALLBACK_EXTENSION_URI InterruptCallback])"

type_synonym method_registry = "(string \<times> method_spec) list"

text \<open>\<open>ExtensionMethodRegistry\<close>: a method that two specifications claim is a \<open>ValueError\<close>.\<close>

fun register_methods :: "method_spec \<Rightarrow> string list \<Rightarrow> method_registry \<Rightarrow> string + method_registry" where
  "register_methods spec [] method_map = Inr method_map"
| "register_methods spec (method # methods) method_map =
     (case map_of method_map method of
        Some existing \<Rightarrow> Inl (''Extension method '' @ py_repr_str method @ '' registered by both '' @
                              py_repr_str (ms_name existing) @ '' and '' @ py_repr_str (ms_name spec))
      | None \<Rightarrow> register_methods spec methods (dset method spec method_map))"

fun method_registry :: "method_spec list \<Rightarrow> method_registry \<Rightarrow> string + method_registry" where
  "method_registry [] method_map = Inr method_map"
| "method_registry (spec # specs) method_map =
     (case register_methods spec (ms_methods spec) method_map of
        Inl e \<Rightarrow> Inl e | Inr method_map' \<Rightarrow> method_registry specs method_map')"

definition build_extension_method_registry :: "method_table \<Rightarrow> string + method_registry" where
  "build_extension_method_registry methods =
     (if list_all (\<lambda>key. map_of methods key \<noteq> None) REQUIRED_METHOD_KEYS
      then method_registry (method_specs methods) [] else Inl ''KeyError'')"

section \<open>The registry serves what the deployment offers\<close>

lemma registered_domain: "register_methods spec ms R = Inr R' \<Longrightarrow> dom (map_of R') = dom (map_of R) \<union> set ms"
  by (induction spec ms R rule: register_methods.induct) (auto split: option.splits)

lemma registry_domain:
  assumes "method_registry specs R = Inr R'"
  shows "dom (map_of R') = dom (map_of R) \<union> (\<Union>spec \<in> set specs. set (ms_methods spec))"
  using assms
proof (induction specs R rule: method_registry.induct)
  case (2 spec specs R)
  then obtain Q where Q: "register_methods spec (ms_methods spec) R = Inr Q" "method_registry specs Q = Inr R'"
    by (auto split: sum.splits)
  from "2.IH" [OF Q] registered_domain [OF Q(1)] show ?case by auto
qed simp

lemma registered_stays:
  "register_methods spec ms R = Inr R' \<Longrightarrow> map_of R m = Some t \<Longrightarrow> map_of R' m = Some t"
proof (induction spec ms R rule: register_methods.induct)
  case (2 spec m0 ms0 R)
  then have "map_of R m0 = None" "m \<noteq> m0" by (auto split: option.splits)
  with 2 show ?case by simp
qed simp

lemma registered_entry:
  "register_methods spec ms R = Inr R' \<Longrightarrow> map_of R' m = Some s \<Longrightarrow> map_of R m = Some s \<or> s = spec \<and> m \<in> set ms"
proof (induction spec ms R rule: register_methods.induct)
  case (2 spec m0 ms0 R)
  then have "map_of R m0 = None" by (auto split: option.splits)
  with 2 show ?case by (cases "m = m0") (auto dest: registered_stays)
qed simp

lemma registry_entry:
  "method_registry specs R = Inr R' \<Longrightarrow> map_of R' m = Some s \<Longrightarrow>
     map_of R m = Some s \<or> s \<in> set specs \<and> m \<in> set (ms_methods s)"
proof (induction specs R rule: method_registry.induct)
  case (2 spec specs R)
  then obtain Q where Q: "register_methods spec (ms_methods spec) R = Inr Q" "method_registry specs Q = Inr R'"
    by (auto split: sum.splits)
  from "2.IH" [OF Q "2.prems"(2)] registered_entry [OF Q(1)] show ?case by auto
qed simp

text \<open>The snapshot by its two truth values.\<close>

definition offered :: "bool \<Rightarrow> bool \<Rightarrow> capability_snapshot" where
  "offered shell mutations =
     (let entry = (\<lambda>m b uri t. (m, \<lparr>cd_method = m, cd_enabled = b, cd_extension_uri = uri, cd_toggle = t\<rparr>));
          workspace = (\<lambda>m. entry m mutations WORKSPACE_CONTROL_EXTENSION_URI WORKSPACE_MUTATIONS_TOGGLE)
      in [entry ''opencode.sessions.shell'' shell SESSION_MANAGEMENT_EXTENSION_URI SESSION_SHELL_TOGGLE,
          workspace ''opencode.workspaces.create'', workspace ''opencode.workspaces.remove'',
          workspace ''opencode.worktrees.create'', workspace ''opencode.worktrees.remove'',
          workspace ''opencode.worktrees.reset''])"

lemma workspace_mutations: "WORKSPACE_MUTATION_METHODS =
   [(''create_workspace'', ''opencode.workspaces.create''), (''remove_workspace'', ''opencode.workspaces.remove''),
    (''create_worktree'', ''opencode.worktrees.create''), (''remove_worktree'', ''opencode.worktrees.remove''),
    (''reset_worktree'', ''opencode.worktrees.reset'')]"
  by code_simp

lemma snapshot_offered: "build_capability_snapshot P s w =
    offered (is_session_shell_enabled P s) (is_workspace_mutations_enabled P w)"
  unfolding build_capability_snapshot_def workspace_mutations
  by (simp add: offered_def SESSION_METHODS_def Let_def)

lemma shell_method: "the (map_of SESSION_METHODS ''shell'') = ''opencode.sessions.shell''"
  by (simp add: SESSION_METHODS_def)

lemma offered_enabled:
  "is_method_enabled (offered s w) ''opencode.sessions.shell'' = s"
  "m \<in> set (map snd WORKSPACE_MUTATION_METHODS) \<Longrightarrow> is_method_enabled (offered s w) m = w"
  by (auto simp: is_method_enabled_def offered_def workspace_mutations)

lemma workspace_discovery: "WORKSPACE_DISCOVERY_METHODS =
   [(''list_projects'', ''opencode.projects.list''), (''get_current_project'', ''opencode.projects.current''),
    (''list_workspaces'', ''opencode.workspaces.list''), (''list_worktrees'', ''opencode.worktrees.list'')]"
  by code_simp

lemma workspace_offered: "workspace_control_methods (offered s w) =
    WORKSPACE_DISCOVERY_METHODS @ (if w then WORKSPACE_MUTATION_METHODS else [])"
  by (cases w; simp add: workspace_control_methods_def workspace_mutations workspace_discovery
      is_method_enabled_def offered_def)

lemma session_offered: "session_management_methods (offered s w) =
    (if s then SESSION_METHODS else ddel ''shell'' SESSION_METHODS)"
  by (simp add: session_management_methods_def shell_method offered_enabled)

lemmas table_defs = SESSION_METHODS_def PROVIDER_DISCOVERY_METHODS_def INTERRUPT_RECOVERY_METHODS_def
  INTERRUPT_CALLBACK_METHODS_def workspace_discovery workspace_mutations

text \<open>All the tables together name each key and each method once.\<close>

definition all_methods :: method_table where
  "all_methods = SESSION_METHODS @ PROVIDER_DISCOVERY_METHODS @ WORKSPACE_DISCOVERY_METHODS @
     WORKSPACE_MUTATION_METHODS @ INTERRUPT_RECOVERY_METHODS @ INTERRUPT_CALLBACK_METHODS"

lemma all_methods_once: "distinct (map fst all_methods)" "distinct (map snd all_methods)"
  by (simp_all add: all_methods_def table_defs)

definition chosen :: "bool \<Rightarrow> bool \<Rightarrow> method_table" where
  "chosen s w = (if s then SESSION_METHODS else ddel ''shell'' SESSION_METHODS) @ PROVIDER_DISCOVERY_METHODS @
     (WORKSPACE_DISCOVERY_METHODS @ (if w then WORKSPACE_MUTATION_METHODS else [])) @
     INTERRUPT_RECOVERY_METHODS @ INTERRUPT_CALLBACK_METHODS"

lemma distinct_part:
  "distinct (xs @ ys @ zs) \<Longrightarrow> distinct ys' \<Longrightarrow> set ys' \<subseteq> set ys \<Longrightarrow> distinct (xs @ ys' @ zs)"
  by auto

lemma chosen_once: "distinct (map fst (chosen s w))" "distinct (map snd (chosen s w))"
proof -
  have sub: "set (ddel ''shell'' SESSION_METHODS) \<subseteq> set SESSION_METHODS" by (rule ddel_keeps_set)
  have del: "distinct (map f SESSION_METHODS) \<Longrightarrow> distinct (map f (ddel ''shell'' SESSION_METHODS))" for f :: "_ \<Rightarrow> string"
    by (simp add: AList.delete_eq distinct_map_filter)
  have part: "distinct (map f (chosen s w))" if all: "distinct (map f all_methods)" for f :: "_ \<Rightarrow> string"
  proof -
    let ?S = "if s then SESSION_METHODS else ddel ''shell'' SESSION_METHODS"
      and ?M = "if w then WORKSPACE_MUTATION_METHODS else []"
      and ?R = "WORKSPACE_MUTATION_METHODS @ INTERRUPT_RECOVERY_METHODS @ INTERRUPT_CALLBACK_METHODS"
    from all have "distinct ([] @ map f SESSION_METHODS @ map f (PROVIDER_DISCOVERY_METHODS @ WORKSPACE_DISCOVERY_METHODS @ ?R))"
      by (simp only: all_methods_def map_append append_Nil)
    then have S: "distinct ([] @ map f ?S @ map f (PROVIDER_DISCOVERY_METHODS @ WORKSPACE_DISCOVERY_METHODS @ ?R))"
    proof (rule distinct_part)
      show "distinct (map f ?S)" using all del by (auto simp: all_methods_def)
      show "set (map f ?S) \<subseteq> set (map f SESSION_METHODS)" using sub by auto
    qed
    then have "distinct (map f (?S @ PROVIDER_DISCOVERY_METHODS @ WORKSPACE_DISCOVERY_METHODS) @
        map f WORKSPACE_MUTATION_METHODS @ map f (INTERRUPT_RECOVERY_METHODS @ INTERRUPT_CALLBACK_METHODS))"
      by (simp only: map_append append_Nil append_assoc)
    then have "distinct (map f (?S @ PROVIDER_DISCOVERY_METHODS @ WORKSPACE_DISCOVERY_METHODS) @
        map f ?M @ map f (INTERRUPT_RECOVERY_METHODS @ INTERRUPT_CALLBACK_METHODS))"
      by (rule distinct_part) (use all in \<open>auto simp: all_methods_def\<close>)
    then show ?thesis by (simp only: chosen_def map_append append_assoc)
  qed
  show "distinct (map fst (chosen s w))" by (rule part [OF all_methods_once(1)])
  show "distinct (map snd (chosen s w))" by (rule part [OF all_methods_once(2)])
qed

lemma jsonrpc_chosen: "jsonrpc_methods (offered s w) = chosen s w"
proof -
  let ?S = "if s then SESSION_METHODS else ddel ''shell'' SESSION_METHODS"
    and ?W = "WORKSPACE_DISCOVERY_METHODS @ (if w then WORKSPACE_MUTATION_METHODS else [])"
  have d: "wf_dict ((((?S @ PROVIDER_DISCOVERY_METHODS) @ ?W) @ INTERRUPT_RECOVERY_METHODS) @ INTERRUPT_CALLBACK_METHODS)"
    using chosen_once(1) [of s w] by (simp only: chosen_def append_assoc)
  then have d': "wf_dict (?S @ PROVIDER_DISCOVERY_METHODS)" "wf_dict ((?S @ PROVIDER_DISCOVERY_METHODS) @ ?W)"
    "wf_dict (((?S @ PROVIDER_DISCOVERY_METHODS) @ ?W) @ INTERRUPT_RECOVERY_METHODS)"
    by (simp_all only: map_append distinct_append)
  show ?thesis
    unfolding jsonrpc_methods_def session_offered workspace_offered
    unfolding dmerge_append [OF d'(1)] dmerge_append [OF d'(2)] dmerge_append [OF d'(3)] dmerge_append [OF d]
    by (simp only: chosen_def append_assoc)
qed

section \<open>Keys and methods\<close>

definition spec_keys :: "string list list" where
  "spec_keys = [SESSION_ITEM_KEYS, [''list_sessions'', ''get_session_messages''], [''list_providers'', ''list_models''],
     [''list_permissions'', ''list_questions''],
     [''list_projects'', ''get_current_project'', ''list_workspaces'', ''list_worktrees'',
      ''create_workspace'', ''remove_workspace'', ''create_worktree'', ''remove_worktree'', ''reset_worktree''],
     SESSION_CONTROL_KEYS, [''reply_permission'', ''reply_question'', ''reject_question'']]"

lemma spec_methods: "map ms_methods (method_specs methods) = map (methods_of methods) spec_keys"
  by (simp add: method_specs_def spec_keys_def Let_def)

lemma spec_keys_once: "distinct (concat spec_keys)"
  by (simp add: spec_keys_def SESSION_ITEM_KEYS_def SESSION_CONTROL_KEYS_def)

lemma spec_keys_cover: "fst ` set all_methods \<subseteq> set (concat spec_keys)"
  by (simp add: all_methods_def table_defs spec_keys_def SESSION_ITEM_KEYS_def SESSION_CONTROL_KEYS_def)

lemma set_methods_of: "set (methods_of methods keys) = {m. \<exists>key \<in> set keys. map_of methods key = Some m}"
  by (force simp: methods_of_def List.map_filter_def)

lemma methods_of_apart:
  assumes "distinct (map snd methods)" "distinct (concat kss)"
  shows "distinct (concat (map (methods_of methods) kss))"
  using assms(2)
proof (induction kss)
  case (Cons ks kss)
  have "set (methods_of methods ks) \<inter> set (concat (map (methods_of methods) kss)) = {}"
  proof (rule ccontr)
    assume "\<not> ?thesis"
    then obtain m key key' where m: "map_of methods key = Some m" "map_of methods key' = Some m"
      and keys: "key \<in> set ks" "key' \<in> set (concat kss)"
      by (auto simp: set_methods_of)
    have "inj_on snd (set methods)" using assms(1) by (simp add: distinct_map)
    from inj_onD [OF this _ map_of_SomeD [OF m(1)] map_of_SomeD [OF m(2)]] have "key = key'" by simp
    with keys Cons.prems show False by auto
  qed
  with Cons show ?case by (simp add: methods_of_def [of _ ks])
qed simp

lemma methods_of_all:
  assumes "wf_dict methods" "fst ` set methods \<subseteq> set (concat kss)"
  shows "set (concat (map (methods_of methods) kss)) = snd ` set methods"
proof
  show "set (concat (map (methods_of methods) kss)) \<subseteq> snd ` set methods"
    by (force simp: set_methods_of dest: map_of_SomeD)
  show "snd ` set methods \<subseteq> set (concat (map (methods_of methods) kss))"
  proof
    fix m assume "m \<in> snd ` set methods"
    then obtain key where "(key, m) \<in> set methods" by auto
    then have "key \<in> fst ` set methods" "map_of methods key = Some m" using assms(1) by force+
    with assms(2) have "key \<in> set (concat kss)" "map_of methods key = Some m" by auto
    then show "m \<in> set (concat (map (methods_of methods) kss))" by (auto simp: set_methods_of)
  qed
qed

lemma chosen_keys_cover: "fst ` set (chosen s w) \<subseteq> set (concat spec_keys)"
proof -
  have "set (chosen s w) \<subseteq> set all_methods"
    using ddel_keeps_set [of "''shell''" SESSION_METHODS] unfolding chosen_def all_methods_def by auto
  with spec_keys_cover show ?thesis by blast
qed

lemma required_keys: "list_all (\<lambda>key. map_of (chosen s w) key \<noteq> None) REQUIRED_METHOD_KEYS"
proof -
  have "set REQUIRED_METHOD_KEYS \<subseteq> fst ` set (chosen False False)"
    by (simp add: REQUIRED_METHOD_KEYS_def chosen_def table_defs AList.delete_eq)
  moreover have "set (chosen False False) \<subseteq> set (chosen s w)"
    using ddel_keeps_set [of "''shell''" SESSION_METHODS] unfolding chosen_def by auto
  ultimately show ?thesis by (force simp: list_all_iff map_of_eq_None_iff)
qed

lemma register_fresh:
  "distinct ms \<Longrightarrow> \<forall>m \<in> set ms. map_of R m = None \<Longrightarrow> \<exists>R'. register_methods spec ms R = Inr R'"
proof (induction spec ms R rule: register_methods.induct)
  case (2 spec m0 ms0 R)
  then have "\<forall>m \<in> set ms0. map_of (dset m0 spec R) m = None" by auto
  with 2 show ?case by simp
qed simp

lemma registry_fresh:
  "distinct (concat (map ms_methods specs)) \<Longrightarrow> \<forall>m \<in> set (concat (map ms_methods specs)). map_of R m = None \<Longrightarrow>
     \<exists>R'. method_registry specs R = Inr R'"
proof (induction specs R rule: method_registry.induct)
  case (2 spec specs R)
  then obtain Q where Q: "register_methods spec (ms_methods spec) R = Inr Q"
    using register_fresh [of "ms_methods spec" R spec] by auto
  have "map_of Q m = None" if "m \<in> set (concat (map ms_methods specs))" for m
  proof -
    have "m \<notin> set (ms_methods spec)" "map_of R m = None" using "2.prems" that by auto
    with registered_domain [OF Q] show ?thesis by (metis UnE domIff)
  qed
  with "2.IH" [OF Q] "2.prems" Q show ?case by simp
qed simp

lemma registry_builds: "\<exists>R. build_extension_method_registry (jsonrpc_methods (offered s w)) = Inr R"
proof -
  have "distinct (concat (map ms_methods (method_specs (chosen s w))))"
    unfolding spec_methods by (intro methods_of_apart chosen_once spec_keys_once)
  then show ?thesis
    unfolding build_extension_method_registry_def jsonrpc_chosen
    using required_keys registry_fresh [of _ "[]"] by simp
qed

lemma registry_methods:
  "set (concat (map ms_methods (method_specs (jsonrpc_methods (offered s w))))) = set (map snd (chosen s w))"
  unfolding spec_methods jsonrpc_chosen set_map by (intro methods_of_all chosen_once chosen_keys_cover)

lemma shell_last: "ddel ''shell'' SESSION_METHODS @ [(''shell'', ''opencode.sessions.shell'')] = SESSION_METHODS"
  "filter (\<lambda>(key, method). key \<noteq> ''shell'') SESSION_METHODS = ddel ''shell'' SESSION_METHODS"
  by (simp_all add: SESSION_METHODS_def AList.delete_eq)

definition rest :: "bool \<Rightarrow> string set" where
  "rest w = set (map snd PROVIDER_DISCOVERY_METHODS) \<union>
     (set (map snd (WORKSPACE_DISCOVERY_METHODS @ (if w then WORKSPACE_MUTATION_METHODS else []))) \<union>
     (set (map snd INTERRUPT_RECOVERY_METHODS) \<union> set (map snd INTERRUPT_CALLBACK_METHODS)))"

lemma extension_methods_offered: "set (extension_jsonrpc_methods (offered s w)) = set (map snd (chosen s w))"
proof -
  have "set SESSION_METHODS = insert (''shell'', ''opencode.sessions.shell'') (set (ddel ''shell'' SESSION_METHODS))"
    using arg_cong [OF shell_last(1), of set] by simp
  then have session: "snd ` set SESSION_METHODS = insert ''opencode.sessions.shell'' (snd ` set (ddel ''shell'' SESSION_METHODS))"
    by (simp only: image_insert snd_conv)
  have "extension_jsonrpc_methods (offered s w) = map snd (ddel ''shell'' SESSION_METHODS) @ map snd PROVIDER_DISCOVERY_METHODS @
      map snd (WORKSPACE_DISCOVERY_METHODS @ (if w then WORKSPACE_MUTATION_METHODS else [])) @
      map snd INTERRUPT_RECOVERY_METHODS @ map snd INTERRUPT_CALLBACK_METHODS @ (if s then [''opencode.sessions.shell''] else [])"
    unfolding extension_jsonrpc_methods_def workspace_offered shell_method offered_enabled(1) shell_last(2) Let_def by (rule refl)
  then have "set (extension_jsonrpc_methods (offered s w)) = snd ` set (ddel ''shell'' SESSION_METHODS) \<union> (rest w \<union>
      (if s then {''opencode.sessions.shell''} else {}))"
    unfolding rest_def by (cases s) (simp_all only: set_append set_map map_append if_True if_False list.set Un_assoc)
  moreover have "set (map snd (chosen s w)) = snd ` set (if s then SESSION_METHODS else ddel ''shell'' SESSION_METHODS) \<union> rest w"
    unfolding rest_def chosen_def by (simp only: set_append set_map map_append Un_assoc)
  ultimately show ?thesis using session by (cases s) (simp_all only: if_True if_False Un_insert_left Un_insert_right Un_empty_right)
qed

lemma shell_offered: "''opencode.sessions.shell'' \<in> set (map snd (chosen s w)) \<longleftrightarrow> s"
proof (cases s)
  case True
  then have "(''shell'', ''opencode.sessions.shell'') \<in> set (chosen s w)" by (simp add: chosen_def SESSION_METHODS_def)
  with True show ?thesis by force
next
  case False
  have "snd ` set (chosen False w) \<subseteq> snd ` set (chosen False True)" by (auto simp: chosen_def)
  moreover have "''opencode.sessions.shell'' \<notin> set (map snd (chosen False True))"
    by (simp add: chosen_def table_defs AList.delete_eq)
  ultimately show ?thesis using False by auto
qed

text \<open>The registry of a deployment builds, and it answers exactly the extension methods the deployment
  advertises; the shell is among them only when the configuration and the sandbox both allow it.\<close>

theorem registry_serves_what_is_offered:
  "\<exists>R. build_extension_method_registry (jsonrpc_methods (build_capability_snapshot P s w)) = Inr R \<and>
     dom (map_of R) = set (extension_jsonrpc_methods (build_capability_snapshot P s w)) \<and>
     (''opencode.sessions.shell'' \<in> dom (map_of R) \<longleftrightarrow> is_session_shell_enabled P s)"
proof -
  let ?s = "is_session_shell_enabled P s" and ?w = "is_workspace_mutations_enabled P w"
  obtain R where R: "build_extension_method_registry (jsonrpc_methods (offered ?s ?w)) = Inr R"
    using registry_builds by blast
  then have "method_registry (method_specs (jsonrpc_methods (offered ?s ?w))) [] = Inr R"
    by (auto simp: build_extension_method_registry_def split: if_splits)
  from registry_domain [OF this] registry_methods [of ?s ?w]
  have "dom (map_of R) = set (map snd (chosen ?s ?w))" by simp
  with R shell_offered [of ?s ?w] show ?thesis by (simp add: snapshot_offered extension_methods_offered)
qed

text \<open>What a method's entry says of it.\<close>

lemma registry_spec:
  assumes "build_extension_method_registry methods = Inr R" "map_of R m = Some s"
  shows "s \<in> set (method_specs methods) \<and> m \<in> set (ms_methods s)"
  using assms registry_entry [of "method_specs methods" "[]" R m s]
  by (auto simp: build_extension_method_registry_def split: if_splits)

lemma registry_handler:
  assumes "build_extension_method_registry methods = Inr R" "map_of R m = Some s" "ms_handler s = SessionControl"
  shows "m \<in> set (methods_of methods SESSION_CONTROL_KEYS) \<and> ms_extension_uri s = SESSION_MANAGEMENT_EXTENSION_URI"
  using registry_spec [OF assms(1,2)] assms(3) by (auto simp: method_specs_def Let_def)

end
