(* ===== verification/Http_Gateway.thy ===== *)
theory Http_Gateway
  imports Access_Control Network_Policy Runtime_Limits Rpc_Methods
begin

text \<open>
  What a request passes before it reaches the application (\<open>server/middleware.py\<close>,
  \<open>server/request_parsing.py\<close>, \<open>protocol_versions.py\<close>, \<open>trace_context.py\<close>). A layer is a function
  of the request, of what lies inside it and of the state; \<open>gateway\<close> nests the layers as
  \<open>install_runtime_middlewares\<close> does: the one added last is the outermost.
\<close>

section \<open>Requests and responses\<close>

text \<open>
  The names of headers are in lower case. \<open>rq_state\<close> fields are what the layers put on
  \<open>request.state\<close>; \<open>rq_cached_body\<close> is the context variable with the body that was read, \<open>rq_tokens\<close> what
  \<open>secrets.token_hex\<close> gives. The body comes in chunks.
\<close>

record trace_context =
  tx_traceparent :: string
  tx_trace_id :: string
  tx_tracestate :: "string option"

record gw_request =
  rq_method :: string
  rq_path :: string
  rq_headers :: "(string \<times> string) list"
  rq_query :: "(string \<times> string) list"
  rq_client :: "string option"
  rq_chunks :: "byte list list"
  rq_cached_body :: "byte list option"
  rq_principal :: "authenticated_principal option"
  rq_protocol_version :: "string option"
  rq_trace :: "trace_context option"
  rq_now :: seconds
  rq_now_retry :: seconds
  rq_tokens :: "string \<times> string"

datatype response_body = JsonBody pyval | RawBody "byte list" | StreamBody

text \<open>\<open>rp_activated\<close> is \<open>request.state.activated_extensions\<close> as the application left it.\<close>

record gw_response =
  rp_status :: int
  rp_headers :: "(string \<times> string) list"
  rp_body :: response_body
  rp_activated :: "string list option"

text \<open>
  What goes through every layer as an exception: of the authentication, of a name or a URL that cannot be
  read, of a method that cannot be looked up in a set, and the application's own.
\<close>

datatype server_exception =
  AuthFailure auth_exception | NameFailure | UrlFailure | UnhashableMethod | AppFailure string

record gateway_state =
  gs_limiter :: rate_limiter
  gs_log :: "string list"

type_synonym 'w endpoint =
  "gw_request \<Rightarrow> 'w gateway_state_scheme \<Rightarrow> (server_exception + gw_response) \<times> 'w gateway_state_scheme"

text \<open>
  The settings and what lies outside: the SDK's reading of the extension header, the codes of its
  errors, the printing of floats, the text of bytes that are not UTF-8 or leave the model's characters,
  and what a layer sees of the body of a response it is handed.
\<close>

record gateway_settings =
  ge_credentials :: "static_auth_credential list"
  ge_allowed_origins :: "string list"
  ge_public_url :: string
  ge_allowed_hosts :: "string list"
  ge_max_request_body_bytes :: int
  ge_log_payloads :: bool
  ge_log_body_limit :: int
  ge_rate_limit_enabled :: bool
  ge_public_card_etag :: string
  ge_extended_card_etag :: string
  ge_public_card_path :: string
  ge_extension_header :: string
  ge_requested_extensions :: "string list \<Rightarrow> string list"
  ge_codes :: "string \<Rightarrow> int option"
  ge_float :: "rat \<Rightarrow> string"
  ge_decode_other :: "byte list \<Rightarrow> string"
  ge_seen_body :: "gw_response \<Rightarrow> bool \<times> byte list"
  ge_network :: network

definition header_of :: "gw_request \<Rightarrow> string \<Rightarrow> string option" where
  "header_of rq name = map_of (rq_headers rq) name"

definition header_list :: "gw_request \<Rightarrow> string \<Rightarrow> string list" where
  "header_list rq name = map snd (filter (\<lambda>p. fst p = name) (rq_headers rq))"

text \<open>\<open>response.headers[name] = value\<close>: the first entry of that name is replaced, others go.\<close>

fun set_header :: "string \<Rightarrow> string \<Rightarrow> (string \<times> string) list \<Rightarrow> (string \<times> string) list" where
  "set_header name v [] = [(name, v)]"
| "set_header name v (h # hs) =
     (if fst h = name then (name, v) # filter (\<lambda>p. fst p \<noteq> name) hs else h # set_header name v hs)"

definition json_response :: "int \<Rightarrow> pyval \<Rightarrow> (string \<times> string) list \<Rightarrow> gw_response" where
  "json_response status content headers =
     \<lparr>rp_status = status, rp_headers = headers @ [(''content-type'', ''application/json'')],
      rp_body = JsonBody content, rp_activated = None\<rparr>"

text \<open>A body that cannot be built is an exception; the names the gateway uses never are such.\<close>

definition respond :: "int \<Rightarrow> pyval option \<Rightarrow> server_exception + gw_response" where
  "respond status content =
     (case content of None \<Rightarrow> Inl NameFailure | Some v \<Rightarrow> Inr (json_response status v []))"

section \<open>Reading a request\<close>

definition decode_replace :: "gateway_settings \<Rightarrow> byte list \<Rightarrow> string" where
  "decode_replace G bs =
     (case utf8_decode bs of
        Some ps \<Rightarrow> if \<forall>n \<in> set ps. n < 256 then map char_of ps else ge_decode_other G bs
      | None \<Rightarrow> ge_decode_other G bs)"

definition parse_json_body :: "gateway_settings \<Rightarrow> byte list \<Rightarrow> mapping option" where
  "parse_json_body G body_bytes = Option.bind (json_loads (decode_replace G body_bytes)) as_mapping"

definition SENSITIVE_METHODS :: "string list" where
  "SENSITIVE_METHODS = map snd SESSION_METHODS @ map snd INTERRUPT_CALLBACK_METHODS @
     map snd INTERRUPT_RECOVERY_METHODS @ map snd WORKSPACE_CONTROL_METHODS"

definition detect_sensitive_extension_method :: "mapping option \<Rightarrow> string option" where
  "detect_sensitive_extension_method payload =
     (case payload of
        None \<Rightarrow> None
      | Some p \<Rightarrow>
          (case dget p ''method'' of
             PStr method \<Rightarrow> if method \<in> set SENSITIVE_METHODS then Some method else None
           | _ \<Rightarrow> None))"

definition parse_content_length :: "string option \<Rightarrow> int option" where
  "parse_content_length v =
     (case Option.bind v py_int of None \<Rightarrow> None | Some n \<Rightarrow> if 0 \<le> n then Some n else None)"

definition normalize_content_type :: "string option \<Rightarrow> string" where
  "normalize_content_type v = (case v of None \<Rightarrow> [] | Some s \<Rightarrow> lower (strip (before CHR '';'' s)))"

definition is_json_content_type :: "string \<Rightarrow> bool" where
  "is_json_content_type content_type =
     (content_type \<noteq> [] \<and> (content_type = ''application/json'' \<or> endswith content_type ''+json''))"

definition decode_payload_preview :: "gateway_settings \<Rightarrow> byte list \<Rightarrow> string" where
  "decode_payload_preview G body =
     (let limit = ge_log_body_limit G
      in if 0 < limit \<and> limit < int (length body)
         then decode_replace G (take (nat limit) body) @ ''...[truncated]'' else decode_replace G body)"

definition looks_like_jsonrpc_envelope :: "mapping option \<Rightarrow> bool" where
  "looks_like_jsonrpc_envelope payload =
     (case payload of
        None \<Rightarrow> False
      | Some p \<Rightarrow> as_str (dget p ''method'') \<noteq> None \<and> as_str (dget p ''jsonrpc'') \<noteq> None)"

record body_too_large =
  bl_limit :: int
  bl_actual_size :: int

definition request_body_too_large_response :: "gateway_settings \<Rightarrow> body_too_large \<Rightarrow> server_exception + gw_response" where
  "request_body_too_large_response G e =
     respond 413 (build_http_error_body (ge_float G) 413 ''RESOURCE_EXHAUSTED'' ''Request body too large''
       (Some ''REQUEST_BODY_TOO_LARGE'') [(''max_bytes'', PInt (bl_limit e)), (''actual_size'', PInt (bl_actual_size e))])"

text \<open>The chunks up to the limit: the size at which it is passed, or all of them.\<close>

fun read_chunks :: "int \<Rightarrow> int \<Rightarrow> byte list list \<Rightarrow> int + byte list" where
  "read_chunks limit total_size [] = Inr []"
| "read_chunks limit total_size (chunk # chunks) =
     (let size = total_size + int (length chunk)
      in if limit < size then Inl size
         else case read_chunks limit size chunks of Inl n \<Rightarrow> Inl n | Inr rest_of \<Rightarrow> Inr (chunk @ rest_of))"

definition get_request_body :: "gateway_settings \<Rightarrow> gw_request \<Rightarrow> body_too_large + byte list" where
  "get_request_body G rq =
     (case rq_cached_body rq of
        Some body \<Rightarrow> Inr body
      | None \<Rightarrow>
          (let limit = ge_max_request_body_bytes G;
               too_large = (\<lambda>n. Inl \<lparr>bl_limit = limit, bl_actual_size = n\<rparr>);
               body = (if limit \<le> 0 then Inr (concat (rq_chunks rq))
                       else case read_chunks limit 0 (rq_chunks rq) of Inl n \<Rightarrow> too_large n | Inr b \<Rightarrow> Inr b)
           in case parse_content_length (header_of rq ''content-length'') of
                Some n \<Rightarrow> if 0 < limit \<and> limit < n then too_large n else body
              | None \<Rightarrow> body))"

fun extract_jsonrpc_request_id :: "mapping option \<Rightarrow> pyval" where
  "extract_jsonrpc_request_id None = PNone"
| "extract_jsonrpc_request_id (Some p) =
     (case dget p ''id'' of PStr s \<Rightarrow> PStr s | PInt i \<Rightarrow> PInt i | PBool b \<Rightarrow> PBool b | _ \<Rightarrow> PNone)"

text \<open>\<open>model_dump(mode="json", exclude_none=True)\<close> of an error, in a response of the protocol.\<close>

definition jsonrpc_error_response ::
    "gateway_settings \<Rightarrow> mapping option \<Rightarrow> rpc_error \<Rightarrow> server_exception + gw_response" where
  "jsonrpc_error_response G payload error =
     respond 200 (map_option (\<lambda>e. PDict
         [(''jsonrpc'', PStr ''2.0''), (''id'', extract_jsonrpc_request_id payload),
          (''error'', PDict ([(''code'', PInt (je_code e)), (''message'', PStr (je_message e))] @
             (if je_data e = PNone then [] else [(''data'', je_data e)])))])
       (adapt_jsonrpc_error (ge_codes G) (ge_float G) error))"

section \<open>Origin and host\<close>

text \<open>\<open>parsed.port\<close>: no port, a port, or a \<open>ValueError\<close>.\<close>

definition url_port :: "string \<Rightarrow> nat option option" where
  "url_port netloc =
     (let (_, _, hostinfo) = rpartition_char CHR ''@'' netloc;
          (_, open_br, bracketed) = partition_char CHR ''['' hostinfo;
          (_, _, port) = (if open_br
                          then (let (_, _, tail) = partition_char CHR '']'' bracketed in partition_char CHR '':'' tail)
                          else partition_char CHR '':'' hostinfo)
      in if port = [] then Some None
         else if list_all is_digit port \<and> length port \<le> 4300 \<and> digits_val port \<le> 65535 then Some (Some (digits_val port))
         else None)"

definition origin_of_url :: "network \<Rightarrow> string \<Rightarrow> server_exception + string option" where
  "origin_of_url nw v =
     (case urlsplit nw (strip v) of
        Inl _ \<Rightarrow> Inl UrlFailure
      | Inr parsed \<Rightarrow>
          (let scheme = lower (su_scheme parsed); hostname = lower (url_hostname (su_netloc parsed))
           in Inr (if scheme \<noteq> ''http'' \<and> scheme \<noteq> ''https'' \<or> hostname = [] then None
                   else case url_port (su_netloc parsed) of
                     None \<Rightarrow> None
                   | Some None \<Rightarrow> Some (scheme @ ''://'' @ hostname)
                   | Some (Some port) \<Rightarrow>
                       if scheme = ''http'' \<and> port = 80 \<or> scheme = ''https'' \<and> port = 443
                       then Some (scheme @ ''://'' @ hostname)
                       else Some (scheme @ ''://'' @ hostname @ '':'' @ nat_digits port))))"

definition normalize_origin :: "string \<Rightarrow> string" where
  "normalize_origin s = rstrip_char CHR ''/'' (lower (strip s))"

definition normalized_origins :: "string list \<Rightarrow> string list" where
  "normalized_origins values = filter (\<lambda>v. v \<noteq> []) (map normalize_origin values)"

text \<open>The origins that are let in, computed when the application is built.\<close>

definition boundary_origins :: "gateway_settings \<Rightarrow> server_exception + string list" where
  "boundary_origins G =
     (case origin_of_url (ge_network G) (ge_public_url G) of
        Inl e \<Rightarrow> Inl e
      | Inr public_origin \<Rightarrow>
          Inr (normalized_origins (ge_allowed_origins G) @ (case public_origin of None \<Rightarrow> [] | Some v \<Rightarrow> [v])))"

definition hostname_from_host_header :: "network \<Rightarrow> string \<Rightarrow> string" where
  "hostname_from_host_header nw host =
     (case urlsplit nw (''//'' @ strip host) of Inl _ \<Rightarrow> [] | Inr parsed \<Rightarrow> lower (url_hostname (su_netloc parsed)))"

definition allowed_host_headers :: "gateway_settings \<Rightarrow> string list" where
  "allowed_host_headers G = map (\<lambda>e. lower (strip e)) (filter (\<lambda>e. strip e \<noteq> []) (ge_allowed_hosts G))"

definition host_allowed :: "gateway_settings \<Rightarrow> gw_request \<Rightarrow> bool" where
  "host_allowed G rq =
     (let host = (case header_of rq ''host'' of None \<Rightarrow> [] | Some h \<Rightarrow> h);
          hostname = hostname_from_host_header (ge_network G) host
      in hostname \<noteq> [] \<and> (lower (strip host) \<in> set (allowed_host_headers G) \<or>
                         matches_allowed_host hostname (ge_allowed_hosts G)))"

definition origin_allowed :: "gateway_settings \<Rightarrow> string list \<Rightarrow> gw_request \<Rightarrow> server_exception + bool" where
  "origin_allowed G origins rq =
     (case header_of rq ''origin'' of
        None \<Rightarrow> Inr True
      | Some origin \<Rightarrow>
          if normalize_origin origin \<in> set origins then Inr True
          else case origin_of_url (ge_network G) origin of
            Inl e \<Rightarrow> Inl e
          | Inr None \<Rightarrow> Inr False
          | Inr (Some canonical) \<Rightarrow> Inr (canonical \<in> set origins))"

definition boundary_rejection_response :: "string \<Rightarrow> gw_response" where
  "boundary_rejection_response message =
     json_response 403 (PDict [(''error'', PDict
       [(''code'', PInt 403), (''status'', PStr ''FORBIDDEN''), (''message'', PStr message)])]) []"

definition enforce_http_boundary :: "gateway_settings \<Rightarrow> string list \<Rightarrow> 'w endpoint \<Rightarrow> 'w endpoint" where
  "enforce_http_boundary G origins call_next rq w =
     (case origin_allowed G origins rq of
        Inl e \<Rightarrow> (Inl e, w)
      | Inr False \<Rightarrow> (Inr (boundary_rejection_response ''Cross-origin request rejected''), w)
      | Inr True \<Rightarrow>
          if ge_allowed_hosts G \<noteq> [] \<and> \<not> host_allowed G rq
          then (Inr (boundary_rejection_response ''Host not allowed''), w)
          else call_next rq w)"

section \<open>Authentication\<close>

definition unauthorized_response :: "static_auth_credential list \<Rightarrow> gw_response" where
  "unauthorized_response credentials =
     (let schemes = map sc_auth_scheme credentials;
          challenges = (if ''bearer'' \<in> set schemes then [''Bearer''] else []) @
                       (if ''basic'' \<in> set schemes then [''Basic realm=\"opencode-a2a\"''] else [])
      in json_response 401 (PDict [(''error'', PStr ''Unauthorized'')])
           [(''www-authenticate'', join '', '' challenges)])"

definition bearer_auth :: "gateway_settings \<Rightarrow> 'w endpoint \<Rightarrow> 'w endpoint" where
  "bearer_auth G call_next rq w =
     (if rq_method rq = ''OPTIONS'' \<or> rq_path rq = ge_public_card_path G then call_next rq w
      else (let auth_header = (case header_of rq ''authorization'' of None \<Rightarrow> [] | Some h \<Rightarrow> h);
                (auth_scheme, found, auth_value) = partition_char CHR '' '' auth_header
            in if \<not> found then (Inr (unauthorized_response (ge_credentials G)), w)
               else case authenticate_static_credential (ge_credentials G) auth_scheme (strip auth_value) of
                 Inl e \<Rightarrow> (Inl (AuthFailure e), w)
               | Inr None \<Rightarrow> (Inr (unauthorized_response (ge_credentials G)), w)
               | Inr (Some who) \<Rightarrow> call_next (rq\<lparr>rq_principal := Some who\<rparr>) w))"

section \<open>The rate limit\<close>

text \<open>\<open>user_credential_id\<close> is set only when it is not empty.\<close>

definition resolve_rate_limit_key :: "gw_request \<Rightarrow> string" where
  "resolve_rate_limit_key rq =
     (let by_ip = ''ip:'' @ (case rq_client rq of None \<Rightarrow> ''unknown'' | Some h \<Rightarrow> h)
      in case rq_principal rq of
           None \<Rightarrow> by_ip
         | Some who \<Rightarrow>
             (let credential = (case ap_credential_id who of None \<Rightarrow> [] | Some c \<Rightarrow> c)
              in if credential \<noteq> [] then ''credential:'' @ credential
                 else if ap_identity who \<noteq> [] then ''principal:'' @ ap_identity who else by_ip))"

definition enforce_rate_limit :: "gateway_settings \<Rightarrow> 'w endpoint \<Rightarrow> 'w endpoint" where
  "enforce_rate_limit G call_next rq w =
     (if \<not> ge_rate_limit_enabled G \<or> rq_method rq = ''OPTIONS'' then call_next rq w
      else (let key = resolve_rate_limit_key rq;
                (admitted, limiter) = check_and_record (rq_now rq) key (gs_limiter w)
            in if admitted then call_next rq (w\<lparr>gs_limiter := limiter\<rparr>)
               else (let (wait, limiter') = retry_after (rq_now_retry rq) key limiter;
                         (status, headers, content) = build_rate_limit_response wait
                     in (Inr (json_response status (PDict content) (map (\<lambda>(k, v). (lower k, v)) headers)), w\<lparr>gs_limiter := limiter'\<rparr>))))"

section \<open>Payloads in the log\<close>

definition log_line :: "string \<Rightarrow> 'w gateway_state_scheme \<Rightarrow> 'w gateway_state_scheme" where
  "log_line line w = w\<lparr>gs_log := gs_log w @ [line]\<rparr>"

text \<open>Why the body of a request is left out of the log, where it is.\<close>

definition request_omit_reason :: "gateway_settings \<Rightarrow> gw_request \<Rightarrow> string option" where
  "request_omit_reason G rq =
     (let limit = ge_log_body_limit G;
          content_type = normalize_content_type (header_of rq ''content-type'');
          content_length = parse_content_length (header_of rq ''content-length'')
      in if \<not> is_json_content_type content_type
         then Some (''non-json content-type='' @ (if content_type = [] then ''unknown'' else content_type))
         else case content_length of
           None \<Rightarrow> if 0 < limit then Some (''missing content-length with limit='' @ str_int limit) else None
         | Some n \<Rightarrow> if 0 < limit \<and> limit < n
                     then Some (''content-length='' @ str_int n @ '' exceeds limit='' @ str_int limit) else None)"

definition log_response ::
    "gateway_settings \<Rightarrow> gw_request \<Rightarrow> string option \<Rightarrow> string option \<Rightarrow> gw_response \<Rightarrow> string" where
  "log_response G rq sensitive_method omit_reason response =
     (let (streaming, body) = ge_seen_body G response;
          path = rq_path rq;
          head = ''A2A response '' @ path @ '' status='' @ str_int (rp_status response);
          size = '' bytes='' @ str_int (int (length body));
          content_type = normalize_content_type (map_of (rp_headers response) ''content-type'')
      in if streaming then
           (case sensitive_method of
              Some m \<Rightarrow> ''A2A response '' @ path @ '' streaming method='' @ m
            | None \<Rightarrow> ''A2A response '' @ path @ '' streaming'')
         else case sensitive_method of
           Some m \<Rightarrow> head @ size @ '' method='' @ m
         | None \<Rightarrow>
             (case omit_reason of
                Some r \<Rightarrow> head @ size @ '' body=[omitted request_'' @ r @ '']''
              | None \<Rightarrow>
                  if \<not> is_json_content_type content_type
                  then head @ size @ '' body=[omitted non-json content-type='' @
                       (if content_type = [] then ''unknown'' else content_type) @ '']''
                  else head @ '' body='' @ decode_payload_preview G body))"

definition finish_logged ::
    "gateway_settings \<Rightarrow> gw_request \<Rightarrow> string option \<Rightarrow> string option
       \<Rightarrow> (server_exception + gw_response) \<times> 'w gateway_state_scheme
       \<Rightarrow> (server_exception + gw_response) \<times> 'w gateway_state_scheme" where
  "finish_logged G rq sensitive_method omit_reason result =
     (case result of
        (Inl e, w) \<Rightarrow> (Inl e, w)
      | (Inr response, w) \<Rightarrow> (Inr response, log_line (log_response G rq sensitive_method omit_reason response) w))"

definition log_payloads :: "gateway_settings \<Rightarrow> 'w endpoint \<Rightarrow> 'w endpoint" where
  "log_payloads G call_next rq w =
     (if \<not> ge_log_payloads G then call_next rq w
      else let head = ''A2A request '' @ rq_method rq @ '' '' @ rq_path rq
           in case request_omit_reason G rq of
             Some reason \<Rightarrow>
               finish_logged G rq None (Some reason)
                 (call_next rq (log_line (head @ '' body=[omitted '' @ reason @ '']'') w))
           | None \<Rightarrow>
               (case get_request_body G rq of
                  Inl e \<Rightarrow> (request_body_too_large_response G e, w)
                | Inr body \<Rightarrow>
                    (let sensitive_method = detect_sensitive_extension_method (parse_json_body G body);
                         line = (case sensitive_method of
                                   Some m \<Rightarrow> head @ '' method='' @ m
                                 | None \<Rightarrow> head @ '' body='' @ decode_payload_preview G body)
                     in finish_logged G rq sensitive_method None
                          (call_next (rq\<lparr>rq_cached_body := Some body\<rparr>) (log_line line w)))))"

section \<open>The shape of a message\<close>

fun part_violation :: "nat \<Rightarrow> pyval list \<Rightarrow> (string \<times> string) option" where
  "part_violation index [] = None"
| "part_violation index (part # parts) =
     (case part of
        PDict p \<Rightarrow>
          if map_of p ''kind'' \<noteq> None \<or> map_of p ''type'' \<noteq> None \<or> map_of p ''file'' \<noteq> None
          then let field = ''message.parts['' @ nat_digits index @ '']''
               in Some (field, field @ '' must use direct Part fields such as text, raw, url, or data'')
          else part_violation (Suc index) parts
      | _ \<Rightarrow> part_violation (Suc index) parts)"

definition message_shape_violation :: "pyval \<Rightarrow> (string \<times> string) option" where
  "message_shape_violation message =
     (case message of
        PDict m \<Rightarrow>
          if map_of m ''content'' \<noteq> None
          then Some (''message.content'', ''message.content is not supported; use message.parts'')
          else if dget m ''role'' = PStr ''user'' \<or> dget m ''role'' = PStr ''agent''
          then Some (''message.role'', ''message.role must use ROLE_* values'')
          else (case dget m ''parts'' of PList parts \<Rightarrow> part_violation 0 parts | _ \<Rightarrow> None)
      | _ \<Rightarrow> None)"

text \<open>
  The message of a call of the protocol. A method that is a list or an object cannot be hashed, which
  \<open>in {...}\<close> needs.
\<close>

definition jsonrpc_message_payload :: "mapping option \<Rightarrow> server_exception + pyval" where
  "jsonrpc_message_payload payload =
     (case payload of
        None \<Rightarrow> Inr PNone
      | Some p \<Rightarrow>
          (case dget p ''method'' of
             PList _ \<Rightarrow> Inl UnhashableMethod
           | PDict _ \<Rightarrow> Inl UnhashableMethod
           | method \<Rightarrow>
               if method \<noteq> PStr ''SendMessage'' \<and> method \<noteq> PStr ''SendStreamingMessage'' then Inr PNone
               else Inr (case dget p ''params'' of PDict params \<Rightarrow> dget params ''message'' | _ \<Rightarrow> PNone)))"

definition rest_message_payload :: "mapping option \<Rightarrow> pyval" where
  "rest_message_payload payload = (case payload of None \<Rightarrow> PNone | Some p \<Rightarrow> dget p ''message'')"

definition is_rest_message :: "gw_request \<Rightarrow> bool" where
  "is_rest_message rq \<longleftrightarrow> rq_path rq = ''/message:send'' \<or> rq_path rq = ''/message:stream''"

definition envelope_response :: "gateway_settings \<Rightarrow> gw_request \<Rightarrow> server_exception + gw_response" where
  "envelope_response G rq =
     respond 400 (build_http_error_body (ge_float G) 400 ''INVALID_ARGUMENT''
       ''Invalid JSON-RPC payload for REST endpoint. Call POST / for JSON-RPC methods such as SendMessage or SendStreamingMessage, or send ProtoJSON SendMessageRequest payloads to the REST endpoint.''
       (Some ''INVALID_HTTP_JSON_PAYLOAD'') [(''path'', PStr (rq_path rq))])"

definition violation_response ::
    "gateway_settings \<Rightarrow> gw_request \<Rightarrow> mapping option \<Rightarrow> string \<times> string \<Rightarrow> server_exception + gw_response" where
  "violation_response G rq payload violation =
     (let (field, message_text) = violation
      in if is_rest_message rq
         then respond 400 (build_http_error_body (ge_float G) 400 ''INVALID_ARGUMENT'' message_text
                (Some ''INVALID_PARAMS'') [(''field'', PStr field)])
         else jsonrpc_error_response G payload (invalid_params_error message_text
                (PDict [(''type'', PStr ''INVALID_FIELD''), (''field'', PStr (''params.'' @ field))])))"

definition guard_message_payload_shape :: "gateway_settings \<Rightarrow> 'w endpoint \<Rightarrow> 'w endpoint" where
  "guard_message_payload_shape G call_next rq w =
     (if rq_method rq \<noteq> ''POST'' \<or> \<not> is_rest_message rq \<and> rq_path rq \<noteq> ''/'' then call_next rq w
      else case get_request_body G rq of
        Inl e \<Rightarrow> (request_body_too_large_response G e, w)
      | Inr body \<Rightarrow>
          (let payload = parse_json_body G body
           in if is_rest_message rq \<and> looks_like_jsonrpc_envelope payload then (envelope_response G rq, w)
              else case (if is_rest_message rq then Inr (rest_message_payload payload)
                         else jsonrpc_message_payload payload) of
                Inl e \<Rightarrow> (Inl e, w)
              | Inr message \<Rightarrow>
                  (case message_shape_violation message of
                     Some violation \<Rightarrow> (violation_response G rq payload violation, w)
                   | None \<Rightarrow> call_next (rq\<lparr>rq_cached_body := Some body\<rparr>) w)))"

section \<open>The limit on bodies\<close>

definition enforce_request_body_limit :: "gateway_settings \<Rightarrow> 'w endpoint \<Rightarrow> 'w endpoint" where
  "enforce_request_body_limit G call_next rq w =
     (if ge_max_request_body_bytes G \<le> 0 \<or> rq_method rq \<notin> {''POST'', ''PUT'', ''PATCH''} then call_next rq w
      else case get_request_body G rq of
        Inl e \<Rightarrow> (request_body_too_large_response G e, w)
      | Inr body \<Rightarrow> call_next (rq\<lparr>rq_cached_body := Some body\<rparr>) w)"

section \<open>Agent cards\<close>

definition EXTENDED_AGENT_CARD_PATH :: string where
  "EXTENDED_AGENT_CARD_PATH = ''/extendedAgentCard''"

definition is_http_json_rest_path :: "string \<Rightarrow> bool" where
  "is_http_json_rest_path path \<longleftrightarrow> startswith path ''/message:'' \<or> startswith path ''/tasks''"

definition stripped_items :: "string \<Rightarrow> string list" where
  "stripped_items s = filter (\<lambda>item. item \<noteq> []) (map strip (split_char CHR '','' s))"

definition etag_matches :: "string option \<Rightarrow> string \<Rightarrow> bool" where
  "etag_matches if_none_match etag =
     (case if_none_match of
        None \<Rightarrow> False
      | Some s \<Rightarrow> ''*'' \<in> set (stripped_items s) \<or> etag \<in> set (stripped_items s))"

text \<open>The items in their order, each once whatever its case.\<close>

definition merge_vary :: "string list \<Rightarrow> string" where
  "merge_vary values =
     join '', '' (fold (\<lambda>item ordered. if lower item \<in> lower ` set ordered then ordered else ordered @ [item])
                  (concat (map stripped_items values)) [])"

definition resolve_activated_extensions :: "gateway_settings \<Rightarrow> gw_request \<Rightarrow> gw_response \<Rightarrow> string list" where
  "resolve_activated_extensions G rq response =
     (case rp_activated response of
        Some explicit \<Rightarrow> filter (\<lambda>v. v \<noteq> []) explicit
      | None \<Rightarrow>
          (let requested = ge_requested_extensions G (header_list rq (ge_extension_header G));
               path = rq_path rq;
               supported = (if path = ge_public_card_path G then PUBLIC_EXTENSION_URIS
                            else if path = EXTENDED_AGENT_CARD_PATH then ALL_EXTENSION_URIS
                            else if path = ''/'' \<or> is_http_json_rest_path path then PUBLIC_EXTENSION_URIS else [])
           in filter (\<lambda>v. v \<in> set requested) supported))"

definition set_activated_extensions_header :: "gateway_settings \<Rightarrow> gw_request \<Rightarrow> gw_response \<Rightarrow> gw_response" where
  "set_activated_extensions_header G rq response =
     (let activated = resolve_activated_extensions G rq response
      in if 200 \<le> rp_status response \<and> rp_status response < 400 \<and> activated \<noteq> []
         then response\<lparr>rp_headers := set_header (ge_extension_header G) (join '','' activated) (rp_headers response)\<rparr>
         else response)"

definition PUBLIC_AGENT_CARD_CACHE_CONTROL :: string where
  "PUBLIC_AGENT_CARD_CACHE_CONTROL = ''public, max-age=300''"

definition AUTHENTICATED_EXTENDED_CARD_CACHE_CONTROL :: string where
  "AUTHENTICATED_EXTENDED_CARD_CACHE_CONTROL = ''private, max-age=300''"

definition not_modified :: "(string \<times> string) list \<Rightarrow> string list option \<Rightarrow> gw_response" where
  "not_modified headers activated =
     \<lparr>rp_status = 304, rp_headers = headers, rp_body = RawBody [], rp_activated = activated\<rparr>"

definition with_card_headers :: "string \<Rightarrow> string \<Rightarrow> string list \<Rightarrow> gw_response \<Rightarrow> gw_response" where
  "with_card_headers etag cache_control vary response =
     (let headers = set_header ''cache-control'' cache_control (set_header ''etag'' etag (rp_headers response));
          previous = (case map_of headers ''vary'' of None \<Rightarrow> [] | Some v \<Rightarrow> v)
      in response\<lparr>rp_headers := set_header ''vary'' (merge_vary (previous # vary)) headers\<rparr>)"

definition card_response :: "gateway_settings \<Rightarrow> gw_request \<Rightarrow> gw_response \<Rightarrow> gw_response" where
  "card_response G rq response =
     (if rp_status response \<noteq> 200 then response
      else if rq_path rq = ge_public_card_path G
      then set_activated_extensions_header G rq
             (with_card_headers (ge_public_card_etag G) PUBLIC_AGENT_CARD_CACHE_CONTROL [''Accept-Encoding''] response)
      else (let marked = with_card_headers (ge_extended_card_etag G) AUTHENTICATED_EXTENDED_CARD_CACHE_CONTROL
                           [''Authorization'', ''Accept-Encoding''] response
            in set_activated_extensions_header G rq
                 (if etag_matches (header_of rq ''if-none-match'') (ge_extended_card_etag G)
                  then not_modified (rp_headers marked) (rp_activated response) else marked)))"

definition cache_agent_card_responses :: "gateway_settings \<Rightarrow> 'w endpoint \<Rightarrow> 'w endpoint" where
  "cache_agent_card_responses G call_next rq w =
     (let public = (rq_path rq = ge_public_card_path G)
      in if rq_method rq \<noteq> ''GET'' \<or> \<not> public \<and> rq_path rq \<noteq> EXTENDED_AGENT_CARD_PATH then call_next rq w
         else if public \<and> etag_matches (header_of rq ''if-none-match'') (ge_public_card_etag G)
         then (Inr (set_activated_extensions_header G rq (not_modified
                 [(''etag'', ge_public_card_etag G), (''cache-control'', PUBLIC_AGENT_CARD_CACHE_CONTROL),
                  (''vary'', ''Accept-Encoding'')] None)), w)
         else (case call_next rq w of
                 (Inl e, w') \<Rightarrow> (Inl e, w')
               | (Inr response, w') \<Rightarrow> (Inr (card_response G rq response), w')))"

section \<open>The protocol version\<close>

text \<open>\<open>Major.Minor\<close> with an optional patch number; the result is \<open>Major.Minor\<close>.\<close>

definition normalize_protocol_version :: "string \<Rightarrow> string option" where
  "normalize_protocol_version v =
     (let parts = split_char CHR ''.'' (strip v)
      in if list_all (\<lambda>p. p \<noteq> [] \<and> list_all is_digit p) parts \<and> (length parts = 2 \<or> length parts = 3)
         then Some (parts ! 0 @ ''.'' @ parts ! 1) else None)"

text \<open>The version asked for, in the header or in the query, or the one that is not supported.\<close>

definition negotiate_protocol_version :: "string option \<Rightarrow> string option \<Rightarrow> string + string" where
  "negotiate_protocol_version header_value query_value =
     (let raw_header = (case header_value of None \<Rightarrow> [] | Some h \<Rightarrow> strip h);
          raw_query = (case query_value of None \<Rightarrow> [] | Some q \<Rightarrow> strip q);
          raw_requested = (if raw_header \<noteq> [] then raw_header
                           else if raw_query \<noteq> [] then raw_query else A2A_PROTOCOL_VERSION)
      in case normalize_protocol_version raw_requested of
           None \<Rightarrow> Inl raw_requested
         | Some v \<Rightarrow> if v \<noteq> A2A_PROTOCOL_VERSION then Inl v else Inr v)"

definition requires_protocol_negotiation :: "gw_request \<Rightarrow> bool" where
  "requires_protocol_negotiation rq \<longleftrightarrow>
     rq_path rq = ''/'' \<and> rq_method rq = ''POST'' \<or> is_http_json_rest_path (rq_path rq)"

definition version_response :: "gateway_settings \<Rightarrow> gw_request \<Rightarrow> string \<Rightarrow> server_exception + gw_response" where
  "version_response G rq requested =
     (if rq_path rq = ''/'' \<and> rq_method rq = ''POST'' then
        (case get_request_body G rq of
           Inl e \<Rightarrow> request_body_too_large_response G e
         | Inr body \<Rightarrow> jsonrpc_error_response G (parse_json_body G body)
             (version_not_supported_error requested [A2A_PROTOCOL_VERSION] A2A_PROTOCOL_VERSION))
      else respond 400 (build_http_error_body (ge_float G) 400 ''INVALID_ARGUMENT'' ''Unsupported A2A version''
             (Some ''VERSION_NOT_SUPPORTED'')
             [(''requested_version'', PStr requested),
              (''supported_protocol_versions'', PList [PStr A2A_PROTOCOL_VERSION]),
              (''default_protocol_version'', PStr A2A_PROTOCOL_VERSION)]))"

definition negotiate_a2a_protocol_version :: "gateway_settings \<Rightarrow> 'w endpoint \<Rightarrow> 'w endpoint" where
  "negotiate_a2a_protocol_version G call_next rq w =
     (if \<not> requires_protocol_negotiation rq then call_next rq w
      else case negotiate_protocol_version (header_of rq ''a2a-version'') (map_of (rev (rq_query rq)) ''A2A-Version'') of
        Inl requested \<Rightarrow> (version_response G rq requested, w)
      | Inr version \<Rightarrow>
          (case call_next (rq\<lparr>rq_protocol_version := Some version\<rparr>) w of
             (Inl e, w') \<Rightarrow> (Inl e, w')
           | (Inr response, w') \<Rightarrow>
               (Inr (set_activated_extensions_header G rq
                  (response\<lparr>rp_headers := set_header ''a2a-version'' version (rp_headers response)\<rparr>)), w')))"

section \<open>Traces\<close>

definition is_hex_digit :: "char \<Rightarrow> bool" where
  "is_hex_digit c \<longleftrightarrow> c \<in> set ''0123456789abcdef''"

text \<open>Version, trace, parent and flags, of 2, 32, 16 and 2 hexadecimal digits.\<close>

definition parse_traceparent :: "string option \<Rightarrow> (string \<times> string) option" where
  "parse_traceparent v =
     (case Option.bind v nonempty_strip of
        None \<Rightarrow> None
      | Some normalized \<Rightarrow>
          (let lowered = lower normalized; fields = split_char CHR ''-'' lowered
           in if map length fields = [2, 32, 16, 2] \<and> list_all (list_all is_hex_digit) fields \<and>
                 fields ! 0 \<noteq> ''ff'' \<and> fields ! 1 \<noteq> replicate 32 CHR ''0'' \<and> fields ! 2 \<noteq> replicate 16 CHR ''0''
              then Some (lowered, fields ! 1) else None))"

definition generate_traceparent :: "string \<times> string \<Rightarrow> string \<times> string" where
  "generate_traceparent tokens =
     (let (trace_id, parent_id) = tokens in (''00-'' @ trace_id @ ''-'' @ parent_id @ ''-01'', trace_id))"

definition resolve_trace_context :: "string \<times> string \<Rightarrow> string option \<Rightarrow> string option \<Rightarrow> trace_context" where
  "resolve_trace_context tokens traceparent_header tracestate_header =
     (case parse_traceparent traceparent_header of
        None \<Rightarrow>
          (let (traceparent, trace_id) = generate_traceparent tokens
           in \<lparr>tx_traceparent = traceparent, tx_trace_id = trace_id, tx_tracestate = None\<rparr>)
      | Some (traceparent, trace_id) \<Rightarrow>
          \<lparr>tx_traceparent = traceparent, tx_trace_id = trace_id,
           tx_tracestate = Option.bind tracestate_header nonempty_strip\<rparr>)"

definition current_trace_headers :: "trace_context option \<Rightarrow> (string \<times> string) list" where
  "current_trace_headers ctx =
     (case ctx of
        None \<Rightarrow> []
      | Some tx \<Rightarrow> dset_opt ''tracestate'' (tx_tracestate tx) [(''traceparent'', tx_traceparent tx)])"

definition bind_trace_context :: "gateway_settings \<Rightarrow> 'w endpoint \<Rightarrow> 'w endpoint" where
  "bind_trace_context G call_next rq w =
     (let tx = resolve_trace_context (rq_tokens rq) (header_of rq ''traceparent'') (header_of rq ''tracestate'')
      in case call_next (rq\<lparr>rq_trace := Some tx\<rparr>) w of
           (Inl e, w') \<Rightarrow> (Inl e, w')
         | (Inr response, w') \<Rightarrow>
             (Inr (response\<lparr>rp_headers := set_header ''traceparent'' (tx_traceparent tx) (rp_headers response)\<rparr>), w'))"

section \<open>The layers together\<close>

definition gateway :: "gateway_settings \<Rightarrow> string list \<Rightarrow> 'w endpoint \<Rightarrow> 'w endpoint" where
  "gateway G origins app =
     enforce_http_boundary G origins
       (bearer_auth G
         (enforce_rate_limit G
           (log_payloads G
             (guard_message_payload_shape G
               (enforce_request_body_limit G
                 (cache_agent_card_responses G
                   (negotiate_a2a_protocol_version G
                     (bind_trace_context G app))))))))"

definition install_runtime_middlewares :: "gateway_settings \<Rightarrow> 'w endpoint \<Rightarrow> server_exception + 'w endpoint" where
  "install_runtime_middlewares G app =
     (case boundary_origins G of Inl e \<Rightarrow> Inl e | Inr origins \<Rightarrow> Inr (gateway G origins app))"

section \<open>What reaches the application\<close>

text \<open>A layer that calls what lies inside it only on requests of which \<open>P\<close> holds: nothing else of it matters.\<close>

definition reaches_only :: "(gw_request \<Rightarrow> bool) \<Rightarrow> ('w endpoint \<Rightarrow> 'w endpoint) \<Rightarrow> gw_request \<Rightarrow> bool" where
  "reaches_only P layer rq \<longleftrightarrow>
     (\<forall>next next' w. (\<forall>rq' w'. P rq' \<longrightarrow> next rq' w' = next' rq' w') \<longrightarrow> layer next rq w = layer next' rq w)"

lemma reaches_onlyI:
  assumes "\<And>next next' w. (\<And>rq' w'. P rq' \<Longrightarrow> next rq' w' = next' rq' w') \<Longrightarrow> layer next rq w = layer next' rq w"
  shows "reaches_only P layer rq"
  unfolding reaches_only_def using assms by blast

lemma reaches_only_nest:
  assumes "reaches_only Q outer rq" "\<And>rq'. Q rq' \<Longrightarrow> reaches_only P inner rq'"
  shows "reaches_only P (\<lambda>app. outer (inner app)) rq"
  using assms unfolding reaches_only_def by meson

lemma reaches_only_weaken: "reaches_only Q layer rq \<Longrightarrow> (\<And>rq'. Q rq' \<Longrightarrow> P rq') \<Longrightarrow> reaches_only P layer rq"
  unfolding reaches_only_def by blast

text \<open>The principal of a request, where its header names one.\<close>

definition header_principal :: "gateway_settings \<Rightarrow> gw_request \<Rightarrow> authenticated_principal option" where
  "header_principal G rq =
     (let auth_header = (case header_of rq ''authorization'' of None \<Rightarrow> [] | Some h \<Rightarrow> h);
          (auth_scheme, found, auth_value) = partition_char CHR '' '' auth_header
      in if found then (case authenticate_static_credential (ge_credentials G) auth_scheme (strip auth_value) of
                          Inl _ \<Rightarrow> None | Inr who \<Rightarrow> who) else None)"

definition public_request :: "gateway_settings \<Rightarrow> gw_request \<Rightarrow> bool" where
  "public_request G rq \<longleftrightarrow> rq_method rq = ''OPTIONS'' \<or> rq_path rq = ge_public_card_path G"

definition boundary_ok :: "gateway_settings \<Rightarrow> string list \<Rightarrow> gw_request \<Rightarrow> bool" where
  "boundary_ok G origins rq \<longleftrightarrow>
     origin_allowed G origins rq = Inr True \<and> (ge_allowed_hosts G = [] \<or> host_allowed G rq)"

text \<open>What the layers may set, and what they leave alone.\<close>

definition same_request :: "gw_request \<Rightarrow> gw_request \<Rightarrow> bool" where
  "same_request rq rq' \<longleftrightarrow> rq_method rq' = rq_method rq \<and> rq_path rq' = rq_path rq \<and>
     rq_headers rq' = rq_headers rq \<and> rq_query rq' = rq_query rq \<and> rq_client rq' = rq_client rq \<and>
     rq_chunks rq' = rq_chunks rq"

lemma boundary_reaches:
  "reaches_only (\<lambda>rq'. rq' = rq \<and> boundary_ok G origins rq) (enforce_http_boundary G origins) rq"
  by (rule reaches_onlyI) (auto simp: enforce_http_boundary_def boundary_ok_def split: sum.splits bool.splits)

lemma auth_reaches:
  "reaches_only (\<lambda>rq'. rq' = rq \<and> public_request G rq \<or>
     (\<exists>who. rq' = rq\<lparr>rq_principal := Some who\<rparr> \<and> header_principal G rq = Some who)) (bearer_auth G) rq"
  by (rule reaches_onlyI)
    (auto simp: bearer_auth_def public_request_def header_principal_def Let_def
      split: sum.splits option.splits prod.splits)

lemma rate_reaches: "reaches_only (\<lambda>rq'. rq' = rq) (enforce_rate_limit G) rq"
  by (rule reaches_onlyI) (auto simp: enforce_rate_limit_def Let_def split: prod.splits)

lemma log_reaches:
  "reaches_only (\<lambda>rq'. rq' = rq \<or> (\<exists>b. rq' = rq\<lparr>rq_cached_body := Some b\<rparr> \<and> get_request_body G rq = Inr b))
     (log_payloads G) rq"
  by (rule reaches_onlyI) (auto simp: log_payloads_def Let_def split: sum.splits option.splits)

text \<open>The bodies the application may get.\<close>

definition guarded :: "gw_request \<Rightarrow> bool" where
  "guarded rq \<longleftrightarrow> rq_method rq = ''POST'' \<and> (is_rest_message rq \<or> rq_path rq = ''/'')"

definition well_shaped :: "gateway_settings \<Rightarrow> gw_request \<Rightarrow> byte list \<Rightarrow> bool" where
  "well_shaped G rq body \<longleftrightarrow>
     (let payload = parse_json_body G body
      in (if is_rest_message rq
          then \<not> looks_like_jsonrpc_envelope payload \<and> message_shape_violation (rest_message_payload payload) = None
          else \<exists>message. jsonrpc_message_payload payload = Inr message \<and> message_shape_violation message = None))"

lemma guard_reaches:
  "reaches_only (\<lambda>rq'. rq' = rq \<and> \<not> guarded rq \<or>
     (\<exists>b. rq' = rq\<lparr>rq_cached_body := Some b\<rparr> \<and> get_request_body G rq = Inr b \<and> well_shaped G rq b))
     (guard_message_payload_shape G) rq"
proof (rule reaches_onlyI)
  fix "next" next' :: "'w endpoint" and w
  assume same: "next rq' w' = next' rq' w'"
    if "rq' = rq \<and> \<not> guarded rq \<or>
      (\<exists>b. rq' = rq\<lparr>rq_cached_body := Some b\<rparr> \<and> get_request_body G rq = Inr b \<and> well_shaped G rq b)" for rq' w'
  show "guard_message_payload_shape G next rq w = guard_message_payload_shape G next' rq w"
  proof (cases "guarded rq")
    case False
    then show ?thesis using same [of rq w] by (auto simp: guard_message_payload_shape_def guarded_def)
  next
    case True
    show ?thesis
    proof (cases "get_request_body G rq")
      case (Inl e)
      then have "guard_message_payload_shape G n rq w = (request_body_too_large_response G e, w)" for n :: "'w endpoint"
        using True by (auto simp: guard_message_payload_shape_def guarded_def)
      then show ?thesis by simp
    next
      case (Inr body)
      show ?thesis
        using True Inr same [of "rq\<lparr>rq_cached_body := Some body\<rparr>" w]
        by (auto simp: guard_message_payload_shape_def guarded_def well_shaped_def Let_def split: sum.splits option.splits)
    qed
  qed
qed

definition limited :: "gateway_settings \<Rightarrow> gw_request \<Rightarrow> bool" where
  "limited G rq \<longleftrightarrow> 0 < ge_max_request_body_bytes G \<and> rq_method rq \<in> {''POST'', ''PUT'', ''PATCH''}"

lemma limit_reaches:
  "reaches_only (\<lambda>rq'. rq' = rq \<and> \<not> limited G rq \<or>
     (\<exists>b. rq' = rq\<lparr>rq_cached_body := Some b\<rparr> \<and> get_request_body G rq = Inr b)) (enforce_request_body_limit G) rq"
  by (rule reaches_onlyI) (auto simp: enforce_request_body_limit_def limited_def split: sum.splits)

lemma cache_reaches: "reaches_only (\<lambda>rq'. rq' = rq) (cache_agent_card_responses G) rq"
  by (rule reaches_onlyI) (simp add: cache_agent_card_responses_def Let_def)

lemma negotiated_version: "negotiate_protocol_version h q = Inr v \<Longrightarrow> v = A2A_PROTOCOL_VERSION"
  by (auto simp: negotiate_protocol_version_def Let_def split: option.splits if_splits)

lemma version_reaches:
  "reaches_only (\<lambda>rq'. rq' = rq \<and> \<not> requires_protocol_negotiation rq \<or>
     rq' = rq\<lparr>rq_protocol_version := Some A2A_PROTOCOL_VERSION\<rparr>) (negotiate_a2a_protocol_version G) rq"
  by (rule reaches_onlyI)
    (auto simp: negotiate_a2a_protocol_version_def dest: negotiated_version split: sum.splits)

lemma trace_reaches: "reaches_only (\<lambda>rq'. \<exists>tx. rq' = rq\<lparr>rq_trace := Some tx\<rparr>) (bind_trace_context G) rq"
proof (rule reaches_onlyI)
  fix "next" next' :: "'w endpoint" and w
  assume "next rq' w' = next' rq' w'" if "\<exists>tx. rq' = rq\<lparr>rq_trace := Some tx\<rparr>" for rq' w'
  then have "next (rq\<lparr>rq_trace := Some tx\<rparr>) w = next' (rq\<lparr>rq_trace := Some tx\<rparr>) w" for tx by blast
  then show "bind_trace_context G next rq w = bind_trace_context G next' rq w"
    by (simp add: bind_trace_context_def Let_def)
qed

text \<open>A body that was read under the limit is within it.\<close>

lemma read_chunks_total: "read_chunks limit n chunks = Inr b \<Longrightarrow> n \<le> limit \<Longrightarrow> n + int (length b) \<le> limit"
proof (induction limit n chunks arbitrary: b rule: read_chunks.induct)
  case (2 limit n chunk chunks)
  then have size: "n + int (length chunk) \<le> limit" by (simp add: Let_def split: if_splits)
  with 2 obtain r where r: "read_chunks limit (n + int (length chunk)) chunks = Inr r" "b = chunk @ r"
    by (auto simp: Let_def split: sum.splits)
  from "2.IH" [OF refl _ r(1) size] size r(2) show ?case by simp
qed simp

definition body_small :: "gateway_settings \<Rightarrow> gw_request \<Rightarrow> bool" where
  "body_small G rq \<longleftrightarrow> (case rq_cached_body rq of
     None \<Rightarrow> True | Some b \<Rightarrow> 0 < ge_max_request_body_bytes G \<longrightarrow> int (length b) \<le> ge_max_request_body_bytes G)"

lemma got_body_small:
  assumes "body_small G rq" "get_request_body G rq = Inr b"
  shows "body_small G (rq\<lparr>rq_cached_body := Some b\<rparr>)"
proof (cases "rq_cached_body rq")
  case (Some b')
  with assms show ?thesis by (simp add: body_small_def get_request_body_def)
next
  case None
  show ?thesis
  proof (cases "0 < ge_max_request_body_bytes G")
    case True
    with None assms(2) have "read_chunks (ge_max_request_body_bytes G) 0 (rq_chunks rq) = Inr b"
      by (auto simp: get_request_body_def Let_def split: option.splits sum.splits if_splits)
    from read_chunks_total [OF this] True show ?thesis by (simp add: body_small_def)
  qed (simp add: body_small_def)
qed

definition identified :: "gateway_settings \<Rightarrow> gw_request \<Rightarrow> gw_request \<Rightarrow> bool" where
  "identified G rq rq' \<longleftrightarrow> public_request G rq \<and> rq_principal rq' = rq_principal rq \<or>
     (\<exists>who. header_principal G rq = Some who \<and> rq_principal rq' = Some who)"

definition stage1 :: "gateway_settings \<Rightarrow> gw_request \<Rightarrow> gw_request \<Rightarrow> bool" where
  "stage1 G rq rq' \<longleftrightarrow> same_request rq rq' \<and> identified G rq rq' \<and> body_small G rq'"

definition stage2 :: "gateway_settings \<Rightarrow> gw_request \<Rightarrow> gw_request \<Rightarrow> bool" where
  "stage2 G rq rq' \<longleftrightarrow> stage1 G rq rq' \<and>
     (guarded rq \<longrightarrow> (\<exists>b. rq_cached_body rq' = Some b \<and> well_shaped G rq b))"

definition stage3 :: "gateway_settings \<Rightarrow> gw_request \<Rightarrow> gw_request \<Rightarrow> bool" where
  "stage3 G rq rq' \<longleftrightarrow> stage2 G rq rq' \<and> (limited G rq \<longrightarrow> rq_cached_body rq' \<noteq> None)"

definition let_in :: "gateway_settings \<Rightarrow> gw_request \<Rightarrow> gw_request \<Rightarrow> bool" where
  "let_in G rq rq' \<longleftrightarrow> stage3 G rq rq' \<and>
     (requires_protocol_negotiation rq \<longrightarrow> rq_protocol_version rq' = Some A2A_PROTOCOL_VERSION)"

lemmas stage_defs = stage1_def stage2_def stage3_def let_in_def same_request_def identified_def

lemma same_guarded: "same_request rq rq' \<Longrightarrow> guarded rq' = guarded rq"
  by (simp add: same_request_def guarded_def is_rest_message_def)

lemma same_shaped: "same_request rq rq' \<Longrightarrow> well_shaped G rq' b = well_shaped G rq b"
  by (simp add: same_request_def well_shaped_def is_rest_message_def Let_def)

lemma inner_reaches:
  assumes "stage3 G rq rq'"
  shows "reaches_only (let_in G rq) (\<lambda>app. negotiate_a2a_protocol_version G (bind_trace_context G app)) rq'"
proof (rule reaches_only_nest [OF version_reaches], rule reaches_only_weaken [OF trace_reaches])
  fix rq1 rq2 assume v: "rq1 = rq' \<and> \<not> requires_protocol_negotiation rq' \<or>
      rq1 = rq'\<lparr>rq_protocol_version := Some A2A_PROTOCOL_VERSION\<rparr>"
    and t: "\<exists>tx. rq2 = rq1\<lparr>rq_trace := Some tx\<rparr>"
  have "requires_protocol_negotiation rq' = requires_protocol_negotiation rq"
    using assms by (simp add: stage_defs requires_protocol_negotiation_def)
  with assms v t show "let_in G rq rq2" by (auto simp: stage_defs body_small_def)
qed

lemma limit_stage:
  assumes "stage2 G rq rq'"
  shows "reaches_only (stage3 G rq) (enforce_request_body_limit G) rq'"
proof (rule reaches_only_weaken [OF limit_reaches])
  fix rq1 assume l: "rq1 = rq' \<and> \<not> limited G rq' \<or>
      (\<exists>b. rq1 = rq'\<lparr>rq_cached_body := Some b\<rparr> \<and> get_request_body G rq' = Inr b)"
  have lim: "limited G rq' = limited G rq" using assms by (simp add: stage_defs limited_def)
  from l show "stage3 G rq rq1"
  proof
    assume "rq1 = rq' \<and> \<not> limited G rq'"
    with assms lim show ?thesis by (simp add: stage3_def)
  next
    assume "\<exists>b. rq1 = rq'\<lparr>rq_cached_body := Some b\<rparr> \<and> get_request_body G rq' = Inr b"
    then obtain b where b: "rq1 = rq'\<lparr>rq_cached_body := Some b\<rparr>" "get_request_body G rq' = Inr b" by blast
    have "body_small G rq1" using assms got_body_small [OF _ b(2)] b(1) by (simp add: stage_defs)
    moreover have "rq_cached_body rq' = Some c \<Longrightarrow> b = c" for c using b(2) by (simp add: get_request_body_def)
    ultimately show ?thesis using assms b(1) by (auto simp: stage_defs)
  qed
qed

lemma guard_stage:
  assumes "stage1 G rq rq'"
  shows "reaches_only (stage2 G rq) (guard_message_payload_shape G) rq'"
proof (rule reaches_only_weaken [OF guard_reaches])
  fix rq1 assume g: "rq1 = rq' \<and> \<not> guarded rq' \<or>
      (\<exists>b. rq1 = rq'\<lparr>rq_cached_body := Some b\<rparr> \<and> get_request_body G rq' = Inr b \<and> well_shaped G rq' b)"
  have same: "same_request rq rq'" using assms by (simp add: stage1_def)
  from g show "stage2 G rq rq1"
  proof
    assume "rq1 = rq' \<and> \<not> guarded rq'"
    with assms same_guarded [OF same] show ?thesis by (simp add: stage2_def)
  next
    assume "\<exists>b. rq1 = rq'\<lparr>rq_cached_body := Some b\<rparr> \<and> get_request_body G rq' = Inr b \<and> well_shaped G rq' b"
    then obtain b where b: "rq1 = rq'\<lparr>rq_cached_body := Some b\<rparr>" "get_request_body G rq' = Inr b" "well_shaped G rq' b"
      by blast
    with assms got_body_small [OF _ b(2)] same_shaped [OF same] show ?thesis by (auto simp: stage_defs)
  qed
qed

lemma outer_stage:
  assumes "rq_cached_body rq = None"
  shows "reaches_only (stage1 G rq) (\<lambda>app. bearer_auth G (enforce_rate_limit G (log_payloads G app))) rq"
proof (rule reaches_only_nest [OF auth_reaches])
  fix rq1 assume a: "rq1 = rq \<and> public_request G rq \<or>
      (\<exists>who. rq1 = rq\<lparr>rq_principal := Some who\<rparr> \<and> header_principal G rq = Some who)"
  then have s: "stage1 G rq rq1" using assms by (auto simp: stage_defs body_small_def)
  show "reaches_only (stage1 G rq) (\<lambda>app. enforce_rate_limit G (log_payloads G app)) rq1"
  proof (rule reaches_only_nest [OF rate_reaches], rule reaches_only_weaken [OF log_reaches])
    fix rq2 rq3 assume "rq2 = rq1" "rq3 = rq2 \<or> (\<exists>b. rq3 = rq2\<lparr>rq_cached_body := Some b\<rparr> \<and> get_request_body G rq2 = Inr b)"
    with s got_body_small [of G rq1] show "stage1 G rq rq3" by (auto simp: stage_defs)
  qed
qed

lemma gateway_reaches:
  assumes "rq_cached_body rq = None"
  shows "reaches_only (\<lambda>rq'. boundary_ok G origins rq \<and> let_in G rq rq') (gateway G origins) rq"
  unfolding gateway_def
proof (rule reaches_only_nest [OF boundary_reaches])
  fix rq0 assume b: "rq0 = rq \<and> boundary_ok G origins rq"
  have "reaches_only (let_in G rq) (\<lambda>app. bearer_auth G (enforce_rate_limit G (log_payloads G
      (guard_message_payload_shape G (enforce_request_body_limit G (cache_agent_card_responses G
        (negotiate_a2a_protocol_version G (bind_trace_context G app)))))))) rq"
  proof (rule reaches_only_nest [OF outer_stage [OF assms]], rule reaches_only_nest [OF guard_stage],
      assumption, rule reaches_only_nest [OF limit_stage], assumption, rule reaches_only_nest [OF cache_reaches])
    fix rq1 rq2 assume "stage3 G rq rq1" "rq2 = rq1"
    then show "reaches_only (let_in G rq) (\<lambda>app. negotiate_a2a_protocol_version G (bind_trace_context G app)) rq2"
      using inner_reaches by simp
  qed
  from reaches_only_weaken [OF this] b
  show "reaches_only (\<lambda>rq'. boundary_ok G origins rq \<and> let_in G rq rq') (\<lambda>app. bearer_auth G (enforce_rate_limit G
      (log_payloads G (guard_message_payload_shape G (enforce_request_body_limit G (cache_agent_card_responses G
        (negotiate_a2a_protocol_version G (bind_trace_context G app)))))))) rq0"
    by simp
qed

text \<open>C6. Nothing unchecked reaches the application: it is called only with a request of an allowed origin
  and host; of the principal its header names, unless it is an OPTIONS request or the public card; with
  a body within the limit that was read before; with a message of the right shape; and with the
  protocol version 1.0 on every path of the protocol.\<close>

theorem only_checked_requests_get_in:
  assumes "rq_cached_body rq = None"
  shows "reaches_only (\<lambda>rq'. boundary_ok G origins rq \<and> let_in G rq rq') (gateway G origins) rq"
  by (rule gateway_reaches [OF assms])

definition example_network :: network where
  "example_network = \<lparr>nw_getaddrinfo = (\<lambda>_. None), nw_ip_address = (\<lambda>_. None)\<rparr>"

definition example_gateway :: gateway_settings where
  "example_gateway =
     \<lparr>ge_credentials = build_static_auth_credentials example_entries, ge_allowed_origins = [],
      ge_public_url = ''http://localhost:8000'', ge_allowed_hosts = [''localhost''],
      ge_max_request_body_bytes = 1048576, ge_log_payloads = True, ge_log_body_limit = 0,
      ge_rate_limit_enabled = False, ge_public_card_etag = ''p'', ge_extended_card_etag = ''e'',
      ge_public_card_path = ''/.well-known/agent-card.json'', ge_extension_header = ''a2a-extensions'',
      ge_requested_extensions = (\<lambda>_. []), ge_codes = (\<lambda>_. None), ge_float = (\<lambda>_. []),
      ge_decode_other = (\<lambda>_. []), ge_seen_body = (\<lambda>_. (False, [])), ge_network = example_network\<rparr>"

definition example_request :: "(string \<times> string) list \<Rightarrow> string \<Rightarrow> gw_request" where
  "example_request headers body =
     \<lparr>rq_method = ''POST'', rq_path = ''/'', rq_headers = (''host'', ''localhost'') # headers, rq_query = [],
      rq_client = None, rq_chunks = [map of_char body], rq_cached_body = None, rq_principal = None,
      rq_protocol_version = None, rq_trace = None, rq_now = 0, rq_now_retry = 0, rq_tokens = ([], [])\<rparr>"

lemma only_checked_requests_get_in_witness:
  "reaches_only (\<lambda>rq'. boundary_ok example_gateway [''http://localhost:8000''] (example_request [] ''{}'') \<and>
     let_in example_gateway (example_request [] ''{}'') rq')
     (gateway example_gateway [''http://localhost:8000'']) (example_request [] ''{}'')"
  by (rule only_checked_requests_get_in) (simp add: example_request_def)

text \<open>C26. Outsiders are kept out: a request that is neither an OPTIONS request nor for the public card, and
  whose header names no configured credential, is answered with 401 or 403, or fails; the application does
  not run, nothing is counted against the rate limit, and nothing of it is logged.\<close>

theorem outsiders_are_kept_out:
  assumes "\<not> public_request G rq" "header_principal G rq = None"
  shows "\<exists>answer. gateway G origins app rq w = (answer, w) \<and>
    (case answer of Inr response \<Rightarrow> rp_status response \<in> {401, 403} | Inl e \<Rightarrow> e = UrlFailure \<or> (\<exists>a. e = AuthFailure a))"
proof -
  have auth: "\<exists>answer. bearer_auth G next rq w = (answer, w) \<and>
      (case answer of Inr response \<Rightarrow> rp_status response = 401 | Inl e \<Rightarrow> \<exists>a. e = AuthFailure a)" for "next" :: "'a endpoint"
    using assms
    by (auto simp: bearer_auth_def public_request_def header_principal_def Let_def unauthorized_response_def
        json_response_def split: prod.splits sum.splits option.splits if_splits)
  have url: "origin_allowed G origins rq = Inl e \<Longrightarrow> e = UrlFailure" for e
    by (auto simp: origin_allowed_def origin_of_url_def Let_def split: option.splits if_splits sum.splits)
  show ?thesis
  proof (cases "boundary_ok G origins rq")
    case True
    then have "gateway G origins app rq w = bearer_auth G (enforce_rate_limit G (log_payloads G
        (guard_message_payload_shape G (enforce_request_body_limit G (cache_agent_card_responses G
          (negotiate_a2a_protocol_version G (bind_trace_context G app))))))) rq w"
      by (auto simp: gateway_def enforce_http_boundary_def boundary_ok_def)
    then show ?thesis
      using auth [of "enforce_rate_limit G (log_payloads G (guard_message_payload_shape G
        (enforce_request_body_limit G (cache_agent_card_responses G (negotiate_a2a_protocol_version G
          (bind_trace_context G app))))))"] by (auto split: sum.splits)
  next
    case False
    then show ?thesis
      using url by (auto simp: gateway_def enforce_http_boundary_def boundary_ok_def boundary_rejection_response_def
          json_response_def split: sum.splits bool.splits)
  qed
qed

lemma outsiders_are_kept_out_witness:
  "\<forall>(app :: unit endpoint) w. \<exists>answer.
    gateway example_gateway [] app (example_request [(''authorization'', ''Bearer guess'')] []) w = (answer, w) \<and>
    (case answer of Inr response \<Rightarrow> rp_status response \<in> {401, 403} | Inl e \<Rightarrow> e = UrlFailure \<or> (\<exists>a. e = AuthFailure a))"
proof (intro allI, rule outsiders_are_kept_out)
  show "\<not> public_request example_gateway (example_request [(''authorization'', ''Bearer guess'')] [])" by code_simp
  show "header_principal example_gateway (example_request [(''authorization'', ''Bearer guess'')] []) = None" by code_simp
qed

section \<open>What the log tells\<close>

lemma sensitive_line:
  assumes "ge_log_payloads G" "request_omit_reason G rq = None" "get_request_body G rq = Inr body"
    and "detect_sensitive_extension_method (parse_json_body G body) = Some m"
  shows "log_payloads G next rq w = finish_logged G rq (Some m) None (next (rq\<lparr>rq_cached_body := Some body\<rparr>)
     (log_line (''A2A request '' @ rq_method rq @ '' '' @ rq_path rq @ '' method='' @ m) w))"
  using assms by (simp add: log_payloads_def Let_def)

text \<open>C27. What a client sends to a method of the extensions stays out of the log: of two requests that differ
  only in their bodies, both calls of the same such method, and whose responses have the same status and
  length, the log of payloads shows the same.\<close>

theorem sensitive_bodies_stay_out_of_the_log:
  assumes "ge_log_payloads G" "rq2 = rq1\<lparr>rq_chunks := chunks\<rparr>" "request_omit_reason G rq1 = None"
    and "get_request_body G rq1 = Inr b1" "detect_sensitive_extension_method (parse_json_body G b1) = Some m"
    and "get_request_body G rq2 = Inr b2" "detect_sensitive_extension_method (parse_json_body G b2) = Some m"
    and "\<And>rq w. gs_log (snd (app rq w)) = gs_log w"
    and "\<And>rq w. \<exists>r. fst (app rq w) = Inr r \<and> rp_status r = status \<and>
           fst (ge_seen_body G r) = streaming \<and> length (snd (ge_seen_body G r)) = bytes"
  shows "gs_log (snd (log_payloads G app rq1 w)) = gs_log (snd (log_payloads G app rq2 w))"
proof -
  have headers: "rq_headers rq2 = rq_headers rq1" "rq_method rq2 = rq_method rq1" "rq_path rq2 = rq_path rq1"
    using assms(2) by simp_all
  then have omit: "request_omit_reason G rq2 = None"
    using assms(3) by (simp add: request_omit_reason_def header_of_def)
  have shown: "gs_log (snd (finish_logged G rq (Some m) None (app rq' w'))) = gs_log w' @
      [if streaming then ''A2A response '' @ rq_path rq @ '' streaming method='' @ m
       else ''A2A response '' @ rq_path rq @ '' status='' @ str_int status @ '' bytes='' @ str_int (int bytes) @
            '' method='' @ m]" for rq rq' w'
  proof -
    obtain r where r: "fst (app rq' w') = Inr r" "rp_status r = status" "fst (ge_seen_body G r) = streaming"
        "length (snd (ge_seen_body G r)) = bytes"
      using assms(9) by blast
    moreover have "gs_log (snd (app rq' w')) = gs_log w'" by (rule assms(8))
    ultimately show ?thesis
      by (cases "app rq' w'") (simp add: finish_logged_def log_line_def log_response_def Let_def case_prod_unfold)
  qed
  show ?thesis
    unfolding sensitive_line [OF assms(1,3,4,5)] sensitive_line [OF assms(1) omit assms(6,7)] shown
    using headers by (simp add: log_line_def)
qed

definition shell_call :: "string \<Rightarrow> byte list" where
  "shell_call command = map of_char (''{\"method\":\"opencode.sessions.shell\",\"params\":\"'' @ command @ ''\"}'')"

definition quiet_app :: "unit endpoint" where
  "quiet_app rq w = (Inr (json_response 200 PNone []), w)"

definition logged_request :: "string \<Rightarrow> gw_request" where
  "logged_request command = (example_request [(''content-type'', ''application/json'')] [])\<lparr>rq_chunks := [shell_call command]\<rparr>"

lemma sensitive_bodies_stay_out_of_the_log_witness:
  "\<forall>w. gs_log (snd (log_payloads example_gateway quiet_app (logged_request ''ls'') w)) =
   gs_log (snd (log_payloads example_gateway quiet_app (logged_request ''cat key'') w))"
proof (rule allI, rule sensitive_bodies_stay_out_of_the_log
    [where chunks = "[shell_call ''cat key'']" and ?b1.0 = "shell_call ''ls''" and ?b2.0 = "shell_call ''cat key''"
      and m = "''opencode.sessions.shell''" and status = 200 and streaming = False and bytes = 0])
  show "request_omit_reason example_gateway (logged_request ''ls'') = None" by code_simp
  show "get_request_body example_gateway (logged_request ''ls'') = Inr (shell_call ''ls'')" by code_simp
  show "get_request_body example_gateway (logged_request ''cat key'') = Inr (shell_call ''cat key'')" by code_simp
  show "detect_sensitive_extension_method (parse_json_body example_gateway (shell_call ''ls'')) = Some ''opencode.sessions.shell''"
    by code_simp
  show "detect_sensitive_extension_method (parse_json_body example_gateway (shell_call ''cat key'')) = Some ''opencode.sessions.shell''"
    by code_simp
qed (simp_all add: example_gateway_def logged_request_def quiet_app_def json_response_def)

section \<open>Requests that fail\<close>

lemma decode_ascii: "utf8_decode (map of_char s) = Some (map of_char s) \<Longrightarrow> decode_replace G (map of_char s) = s"
  by (simp add: decode_replace_def of_char_less o_def)

text \<open>Two requests fail where they should be refused: an Origin header with an open bracket, and a call
  whose method is a list, raise an exception instead of being answered.\<close>

theorem hostile_requests_raise:
  assumes "header_of rq ''origin'' = Some ''http://[''" "''http://['' \<notin> set origins"
    and "rq_method rq' = ''POST''" "rq_path rq' = ''/''" "rq_cached_body rq' = Some (map of_char ''{\"method\":[]}'')"
  shows "gateway G origins app rq w = (Inl UrlFailure, w) \<and>
    guard_message_payload_shape G call_next rq' w' = (Inl UnhashableMethod, w')"
proof -
  have "normalize_origin ''http://['' = ''http://[''" "strip ''http://['' = ''http://[''" by code_simp+
  moreover have "urlsplit nw ''http://['' = Inl (InvalidUrl ''Invalid IPv6 URL'')" for nw
    by (simp add: urlsplit_def partition_char_def before_def is_ascii_alpha_def is_scheme_char_def is_digit_def
        startswith_def lower_def lower_char_def Let_def)
  ultimately have "origin_allowed G origins rq = Inl UrlFailure"
    using assms(1,2) by (simp add: origin_allowed_def origin_of_url_def)
  then have "gateway G origins app rq w = (Inl UrlFailure, w)"
    by (simp add: gateway_def enforce_http_boundary_def)
  moreover have "utf8_decode (map of_char ''{\"method\":[]}'') = Some (map of_char ''{\"method\":[]}'')"
    "json_loads ''{\"method\":[]}'' = Some (PDict [(''method'', PList [])])" by code_simp+
  then have "parse_json_body G (map of_char ''{\"method\":[]}'') = Some [(''method'', PList [])]"
    by (simp only: parse_json_body_def decode_ascii Option.bind.simps as_mapping.simps)
  then have "guard_message_payload_shape G call_next rq' w' = (Inl UnhashableMethod, w')"
    using assms(3-5) by (simp add: guard_message_payload_shape_def get_request_body_def is_rest_message_def
        jsonrpc_message_payload_def looks_like_jsonrpc_envelope_def dget_def)
  ultimately show ?thesis by blast
qed

lemma hostile_requests_raise_witness:
  "gateway example_gateway [] (app :: unit endpoint) (example_request [(''origin'', ''http://['')] []) w = (Inl UrlFailure, w) \<and>
   guard_message_payload_shape example_gateway (app :: unit endpoint)
     ((example_request [] [])\<lparr>rq_cached_body := Some (map of_char ''{\"method\":[]}'')\<rparr>) w = (Inl UnhashableMethod, w)"
  by (rule hostile_requests_raise) (simp_all add: example_request_def header_of_def)

end
