(* ===== verification/Rpc_Params.thy ===== *)
theory Rpc_Params
  imports A2A_Parts
begin

text \<open>
  What the methods of the extensions accept and what they answer with: the checks of parameters
  (\<open>parsing.py\<close>, \<open>jsonrpc/params.py\<close>) and of request objects, and the reading of what the upstream
  returns (\<open>jsonrpc/methods.py\<close>). A check is \<open>Inl\<close> with the field and the message of its error.
\<close>

section \<open>Fields\<close>

datatype params_error = ParamsError (pe_message: string) (pe_data: mapping)

definition invalid_field :: "string \<Rightarrow> string \<Rightarrow> params_error" where
  "invalid_field field message =
     ParamsError message [(''type'', PStr ''INVALID_FIELD''), (''field'', PStr field)]"

definition parse_int_field :: "string \<Rightarrow> int \<Rightarrow> pyval \<Rightarrow> params_error + int option" where
  "parse_int_field field minimum v =
     (let wrong = invalid_field field (field @ '' must be an integer'');
          check = (\<lambda>n. if n < minimum then Inl (invalid_field field (field @ '' must be >= '' @ str_int minimum))
                       else Inr (Some n))
      in case v of
           PNone \<Rightarrow> Inr None
         | PInt n \<Rightarrow> check n
         | PStr s \<Rightarrow> (case py_int s of None \<Rightarrow> Inl wrong | Some n \<Rightarrow> check n)
         | _ \<Rightarrow> Inl wrong)"

definition parse_string_field :: "string \<Rightarrow> pyval \<Rightarrow> params_error + string option" where
  "parse_string_field field v =
     (case v of
        PNone \<Rightarrow> Inr None
      | PStr s \<Rightarrow> Inr (nonempty_strip s)
      | _ \<Rightarrow> Inl (invalid_field field (field @ '' must be a string'')))"

definition parse_bool_field :: "string \<Rightarrow> pyval \<Rightarrow> params_error + bool option" where
  "parse_bool_field field v =
     (let wrong = Inl (invalid_field field (field @ '' must be a boolean''))
      in case v of
           PNone \<Rightarrow> Inr None
         | PBool b \<Rightarrow> Inr (Some b)
         | PStr s \<Rightarrow>
             (let normalized = lower (strip s)
              in if normalized \<in> {''true'', ''1'', ''yes'', ''on''} then Inr (Some True)
                 else if normalized \<in> {''false'', ''0'', ''no'', ''off''} then Inr (Some False) else wrong)
         | _ \<Rightarrow> wrong)"

text \<open>One check after the other; the first that fails decides.\<close>

definition then_with :: "'e + 'a \<Rightarrow> ('a \<Rightarrow> 'e + 'b) \<Rightarrow> 'e + 'b" where
  "then_with r f = (case r of Inl e \<Rightarrow> Inl e | Inr x \<Rightarrow> f x)"

fun all_checks :: "('e + unit) list \<Rightarrow> 'e + unit" where
  "all_checks [] = Inr ()"
| "all_checks (c # cs) = then_with c (\<lambda>_. all_checks cs)"

section \<open>Queries\<close>

definition SESSION_QUERY_DEFAULT_LIMIT :: int where
  "SESSION_QUERY_DEFAULT_LIMIT = 20"

definition SESSION_QUERY_MAX_LIMIT :: int where
  "SESSION_QUERY_MAX_LIMIT = 100"

definition SESSION_QUERY_PAGINATION_UNSUPPORTED :: "string list" where
  "SESSION_QUERY_PAGINATION_UNSUPPORTED = [''cursor'', ''page'', ''size'']"

definition reject_nested_query_params :: "mapping \<Rightarrow> params_error + unit" where
  "reject_nested_query_params params =
     (if map_of params ''query'' = None then Inr ()
      else Inl (invalid_field ''query'' ''query is not supported; use top-level params''))"

definition validate_pagination_fields :: "mapping \<Rightarrow> params_error + unit" where
  "validate_pagination_fields params =
     (if \<exists>field \<in> set SESSION_QUERY_PAGINATION_UNSUPPORTED. map_of params field \<noteq> None
      then Inl (ParamsError ''Only limit pagination is supported''
             [(''type'', PStr ''INVALID_PAGINATION_MODE''), (''supported'', PList [PStr ''limit'']),
              (''unsupported'', PList (map PStr SESSION_QUERY_PAGINATION_UNSUPPORTED))])
      else Inr ())"

definition normalize_session_query_limit :: "pyval \<Rightarrow> params_error + int" where
  "normalize_session_query_limit limit =
     then_with (parse_int_field ''limit'' 1 limit) (\<lambda>r. case r of
         None \<Rightarrow> Inr SESSION_QUERY_DEFAULT_LIMIT
       | Some n \<Rightarrow>
           if SESSION_QUERY_MAX_LIMIT < n
           then Inl (ParamsError (''limit must be <= '' @ str_int SESSION_QUERY_MAX_LIMIT)
                  [(''type'', PStr ''INVALID_FIELD''), (''field'', PStr ''limit''), (''max'', PInt SESSION_QUERY_MAX_LIMIT)])
           else Inr n)"

definition parse_list_sessions_params :: "mapping \<Rightarrow> params_error + mapping" where
  "parse_list_sessions_params params =
     then_with (reject_nested_query_params params) (\<lambda>_.
     then_with (validate_pagination_fields params) (\<lambda>_.
     then_with (normalize_session_query_limit (dget params ''limit'')) (\<lambda>limit.
     then_with (parse_string_field ''directory'' (dget params ''directory'')) (\<lambda>directory.
     then_with (parse_bool_field ''roots'' (dget params ''roots'')) (\<lambda>roots.
     then_with (parse_int_field ''start'' 0 (dget params ''start'')) (\<lambda>start.
     then_with (parse_string_field ''search'' (dget params ''search'')) (\<lambda>search.
       Inr (dset_opt ''search'' (map_option PStr search) (dset_opt ''start'' (map_option PInt start)
         (dset_opt ''roots'' (map_option PBool roots) (dset_opt ''directory'' (map_option PStr directory)
           [(''limit'', PInt limit)])))))))))))"

definition parse_get_session_messages_params :: "mapping \<Rightarrow> params_error + string \<times> mapping" where
  "parse_get_session_messages_params params =
     (case Option.bind (as_str (dget params ''session_id'')) nonempty_strip of
        None \<Rightarrow> Inl (ParamsError ''Missing required params.session_id''
                       [(''type'', PStr ''MISSING_FIELD''), (''field'', PStr ''session_id'')])
      | Some session_id \<Rightarrow>
          then_with (reject_nested_query_params params) (\<lambda>_.
          then_with (validate_pagination_fields params) (\<lambda>_.
          then_with (normalize_session_query_limit (dget params ''limit'')) (\<lambda>limit.
          then_with (parse_string_field ''before'' (dget params ''before'')) (\<lambda>bef.
            Inr (session_id, dset_opt ''before'' (map_option PStr bef) [(''limit'', PInt limit)]))))))"

section \<open>Replies to interrupts\<close>

definition normalize_permission_reply :: "pyval \<Rightarrow> string + string" where
  "normalize_permission_reply v =
     (case v of
        PStr s \<Rightarrow> (let normalized = lower (strip s)
                   in if normalized \<in> {''once'', ''always'', ''reject''} then Inr normalized
                      else Inl ''reply must be one of: once, always, reject'')
      | _ \<Rightarrow> Inl ''reply must be a string'')"

fun answer_group :: "nat \<Rightarrow> pyval list \<Rightarrow> string + string list" where
  "answer_group index [] = Inr []"
| "answer_group index (option # options) =
     (case option of
        PStr s \<Rightarrow> then_with (answer_group index options) (\<lambda>rest.
          Inr (case nonempty_strip s of None \<Rightarrow> rest | Some t \<Rightarrow> t # rest))
      | _ \<Rightarrow> Inl (''answers['' @ nat_digits index @ ''] must contain only strings''))"

fun answer_groups :: "nat \<Rightarrow> pyval list \<Rightarrow> string + string list list" where
  "answer_groups index [] = Inr []"
| "answer_groups index (item # items) =
     (case item of
        PList options \<Rightarrow> then_with (answer_group index options) (\<lambda>group.
          then_with (answer_groups (Suc index) items) (\<lambda>groups. Inr (group # groups)))
      | _ \<Rightarrow> Inl (''answers['' @ nat_digits index @ ''] must be an array of strings''))"

definition parse_question_answers :: "pyval \<Rightarrow> string + string list list" where
  "parse_question_answers v =
     (case v of PList items \<Rightarrow> answer_groups 0 items | _ \<Rightarrow> Inl ''answers must be an array'')"

section \<open>Request objects\<close>

datatype validation_error = ValidationError (ve_field: string) (ve_message: string)

definition PROMPT_ASYNC_REQUEST_ALLOWED_FIELDS :: "string list" where
  "PROMPT_ASYNC_REQUEST_ALLOWED_FIELDS =
     [''parts'', ''messageID'', ''model'', ''agent'', ''noReply'', ''tools'', ''format'', ''system'', ''variant'']"

definition COMMAND_REQUEST_ALLOWED_FIELDS :: "string list" where
  "COMMAND_REQUEST_ALLOWED_FIELDS =
     [''command'', ''arguments'', ''messageID'', ''agent'', ''model'', ''variant'', ''parts'']"

definition SHELL_REQUEST_ALLOWED_FIELDS :: "string list" where
  "SHELL_REQUEST_ALLOWED_FIELDS = [''agent'', ''command'', ''model'']"

definition unknown_fields :: "mapping \<Rightarrow> string list \<Rightarrow> string list" where
  "unknown_fields v allowed_fields = sort (remdups (filter (\<lambda>k. k \<notin> set allowed_fields) (map fst v)))"

definition fail :: "string \<Rightarrow> string \<Rightarrow> validation_error + 'a" where
  "fail field message = Inl (ValidationError field (field @ '' '' @ message))"

definition require :: "bool \<Rightarrow> string \<Rightarrow> string \<Rightarrow> validation_error + unit" where
  "require ok field message = (if ok then Inr () else fail field message)"

definition validate_allowed_request_fields :: "mapping \<Rightarrow> string list \<Rightarrow> validation_error + unit" where
  "validate_allowed_request_fields v allowed_fields =
     (let unknown = unknown_fields v allowed_fields
      in if unknown = [] then Inr ()
         else Inl (ValidationError ''request''
                (''Unsupported fields: '' @ join '', '' (map (\<lambda>f. ''request.'' @ f) unknown))))"

definition is_str :: "pyval \<Rightarrow> bool" where
  "is_str v \<longleftrightarrow> as_str v \<noteq> None"

definition is_none_or_str :: "pyval \<Rightarrow> bool" where
  "is_none_or_str v \<longleftrightarrow> v = PNone \<or> is_str v"

definition is_full_str :: "pyval \<Rightarrow> bool" where
  "is_full_str v \<longleftrightarrow> (case v of PStr s \<Rightarrow> strip s \<noteq> [] | _ \<Rightarrow> False)"

definition validate_optional_message_id :: "string \<Rightarrow> pyval \<Rightarrow> validation_error + unit" where
  "validate_optional_message_id field v =
     require (case v of PNone \<Rightarrow> True | PStr s \<Rightarrow> startswith s ''msg'' | _ \<Rightarrow> False) field
       (''must be a string starting with 'msg'' @ [CHR 0x27])"

definition validate_optional_string_fields :: "mapping \<Rightarrow> string list \<Rightarrow> validation_error + unit" where
  "validate_optional_string_fields v field_names =
     all_checks (map (\<lambda>f. require (is_none_or_str (dget v f)) (''request.'' @ f) ''must be a string'') field_names)"

definition validate_required_non_empty_string_fields :: "mapping \<Rightarrow> string list \<Rightarrow> validation_error + unit" where
  "validate_required_non_empty_string_fields v field_names =
     all_checks (map (\<lambda>f. require (is_full_str (dget v f)) (''request.'' @ f) ''must be a non-empty string'') field_names)"

fun validate_parts_from :: "(string \<Rightarrow> pyval \<Rightarrow> validation_error + unit) \<Rightarrow> string \<Rightarrow> nat \<Rightarrow> pyval list \<Rightarrow> validation_error + unit" where
  "validate_parts_from part_validator field index [] = Inr ()"
| "validate_parts_from part_validator field index (part # parts) =
     then_with (part_validator (field @ ''['' @ nat_digits index @ '']'') part)
       (\<lambda>_. validate_parts_from part_validator field (Suc index) parts)"

definition validate_parts_array :: "(string \<Rightarrow> pyval \<Rightarrow> validation_error + unit) \<Rightarrow> string \<Rightarrow> pyval \<Rightarrow> validation_error + unit" where
  "validate_parts_array part_validator field v =
     (case v of PList parts \<Rightarrow> validate_parts_from part_validator field 0 parts
      | _ \<Rightarrow> fail field ''must be an array'')"

definition validate_model_ref :: "string \<Rightarrow> pyval \<Rightarrow> validation_error + unit" where
  "validate_model_ref field v =
     (case v of
        PDict m \<Rightarrow> all_checks
          [require (is_full_str (dget m ''providerID'')) (field @ ''.providerID'') ''must be a non-empty string'',
           require (is_full_str (dget m ''modelID'')) (field @ ''.modelID'') ''must be a non-empty string'']
      | _ \<Rightarrow> fail field ''must be an object'')"

text \<open>A truth value is an integer in Python.\<close>

definition validate_prompt_async_format :: "string \<Rightarrow> pyval \<Rightarrow> validation_error + unit" where
  "validate_prompt_async_format field v =
     (case v of
        PDict m \<Rightarrow>
          if dget m ''type'' = PStr ''text'' then Inr ()
          else if dget m ''type'' = PStr ''json_schema'' then all_checks
            [require (as_mapping (dget m ''schema'') \<noteq> None) (field @ ''.schema'') ''must be an object for type=json_schema'',
             require (case dget m ''retryCount'' of PNone \<Rightarrow> True | PInt n \<Rightarrow> 0 \<le> n | PBool _ \<Rightarrow> True | _ \<Rightarrow> False)
               (field @ ''.retryCount'') ''must be an integer >= 0'']
          else fail (field @ ''.type'') (''must be 'text' or 'json_schema'' @ [CHR 0x27])
      | _ \<Rightarrow> fail field ''must be an object'')"

definition validate_subtask :: "string \<Rightarrow> mapping \<Rightarrow> validation_error + unit" where
  "validate_subtask field m = all_checks
     (map (\<lambda>k. require (is_str (dget m k)) (field @ ''.'' @ k) ''must be a string'') [''prompt'', ''description'', ''agent''] @
      [if dget m ''model'' = PNone then Inr () else validate_model_ref (field @ ''.model'') (dget m ''model''),
       require (is_none_or_str (dget m ''command'')) (field @ ''.command'') ''must be a string''])"

definition validate_prompt_async_part :: "string \<Rightarrow> pyval \<Rightarrow> validation_error + unit" where
  "validate_prompt_async_part field v =
     (case v of
        PDict m \<Rightarrow>
          (case dget m ''type'' of
             PStr part_type \<Rightarrow>
               if part_type = ''text'' then require (is_str (dget m ''text'')) (field @ ''.text'') ''must be a string''
               else if part_type = ''file'' then all_checks
                 (map (\<lambda>k. require (is_str (dget m k)) (field @ ''.'' @ k) ''must be a string'') [''mime'', ''url''])
               else if part_type = ''agent'' then require (is_str (dget m ''name'')) (field @ ''.name'') ''must be a string''
               else if part_type = ''subtask'' then validate_subtask field m
               else fail (field @ ''.type'') ''must be one of: text, file, agent, subtask''
           | _ \<Rightarrow> fail (field @ ''.type'') ''must be a string'')
      | _ \<Rightarrow> fail field ''must be an object'')"

definition validate_tools :: "pyval \<Rightarrow> validation_error + unit" where
  "validate_tools v =
     (case v of
        PNone \<Rightarrow> Inr ()
      | PDict tools \<Rightarrow> all_checks (map (\<lambda>(k, x). require (case x of PBool _ \<Rightarrow> True | _ \<Rightarrow> False)
          (''request.tools.'' @ k) ''must be a boolean'') tools)
      | _ \<Rightarrow> fail ''request.tools'' ''must be an object'')"

definition unless_none :: "pyval \<Rightarrow> (pyval \<Rightarrow> validation_error + unit) \<Rightarrow> validation_error + unit" where
  "unless_none v check = (if v = PNone then Inr () else check v)"

definition validate_prompt_async_request_payload :: "mapping \<Rightarrow> validation_error + unit" where
  "validate_prompt_async_request_payload v = all_checks
     [validate_allowed_request_fields v PROMPT_ASYNC_REQUEST_ALLOWED_FIELDS,
      validate_optional_message_id ''request.messageID'' (dget v ''messageID''),
      unless_none (dget v ''model'') (validate_model_ref ''request.model''),
      validate_optional_string_fields v [''agent'', ''system'', ''variant''],
      require (case dget v ''noReply'' of PNone \<Rightarrow> True | PBool _ \<Rightarrow> True | _ \<Rightarrow> False) ''request.noReply'' ''must be a boolean'',
      validate_tools (dget v ''tools''),
      unless_none (dget v ''format'') (validate_prompt_async_format ''request.format''),
      validate_parts_array validate_prompt_async_part ''request.parts'' (dget v ''parts'')]"

definition validate_command_part :: "string \<Rightarrow> pyval \<Rightarrow> validation_error + unit" where
  "validate_command_part field v =
     (case v of
        PDict m \<Rightarrow> all_checks
          [require (dget m ''type'' = PStr ''file'') (field @ ''.type'') (''must be 'file'' @ [CHR 0x27]),
           require (is_full_str (dget m ''mime'')) (field @ ''.mime'') ''must be a non-empty string'',
           require (is_full_str (dget m ''url'')) (field @ ''.url'') ''must be a non-empty string'']
      | _ \<Rightarrow> fail field ''must be an object'')"

definition validate_command_request_payload :: "mapping \<Rightarrow> validation_error + unit" where
  "validate_command_request_payload v = all_checks
     [validate_allowed_request_fields v COMMAND_REQUEST_ALLOWED_FIELDS,
      validate_required_non_empty_string_fields v [''command'', ''arguments''],
      validate_optional_message_id ''request.messageID'' (dget v ''messageID''),
      unless_none (dget v ''model'') (validate_model_ref ''request.model''),
      validate_optional_string_fields v [''agent'', ''variant''],
      unless_none (dget v ''parts'') (validate_parts_array validate_command_part ''request.parts'')]"

definition validate_shell_request_payload :: "mapping \<Rightarrow> validation_error + unit" where
  "validate_shell_request_payload v = all_checks
     [validate_allowed_request_fields v SHELL_REQUEST_ALLOWED_FIELDS,
      validate_required_non_empty_string_fields v [''agent'', ''command''],
      unless_none (dget v ''model'') (validate_model_ref ''request.model'')]"

section \<open>What the upstream returns\<close>

text \<open>
  The SDK's tasks and messages the answers are made of; their JSON form (\<open>MessageToDict\<close>) is not part
  of this repository.
\<close>

datatype sdk_item =
    SdkTask (si_id: string) (si_context: string) (si_metadata: mapping)
  | SdkMessage (si_id: string) (si_from_user: bool) (si_text: string) (si_context: string) (si_metadata: mapping)

definition SESSION_CONTEXT_PREFIX :: string where
  "SESSION_CONTEXT_PREFIX = ''ctx:opencode-session:''"

definition extract_session_title :: "mapping \<Rightarrow> string" where
  "extract_session_title session = (case dget session ''title'' of PStr s \<Rightarrow> strip s | _ \<Rightarrow> [])"

definition extract_session_id :: "mapping \<Rightarrow> string option" where
  "extract_session_id session = Option.bind (as_str (dget session ''id'')) nonempty_strip"

definition as_a2a_session_context_id :: "string \<Rightarrow> string" where
  "as_a2a_session_context_id session_id = SESSION_CONTEXT_PREFIX @ session_id"

definition session_metadata :: "string \<Rightarrow> mapping" where
  "session_metadata session_id =
     [(''shared'', PDict [(''session'', PDict [(''id'', PStr session_id)])])]"

definition as_a2a_session_task :: "pyval \<Rightarrow> sdk_item option" where
  "as_a2a_session_task session =
     (case Option.bind (as_mapping session) extract_session_id of
        None \<Rightarrow> None
      | Some session_id \<Rightarrow>
          Some (SdkTask session_id (as_a2a_session_context_id session_id) (session_metadata session_id)))"

definition as_a2a_message :: "string \<Rightarrow> pyval \<Rightarrow> sdk_item option" where
  "as_a2a_message session_id item =
     (case item of
        PDict d \<Rightarrow>
          (let info = (case dget d ''info'' of PDict i \<Rightarrow> i | _ \<Rightarrow> d);
               from_user = (case dget info ''role'' of PStr r \<Rightarrow> lower (strip r) = ''user'' | _ \<Rightarrow> False);
               parts = (case dget d ''parts'' of PList ps \<Rightarrow> PList ps | _ \<Rightarrow> PList [])
           in case extract_session_id info of
                None \<Rightarrow> None
              | Some message_id \<Rightarrow>
                  Some (SdkMessage message_id from_user (extract_text_from_parts parts)
                    (as_a2a_session_context_id session_id) (session_metadata session_id)))
      | _ \<Rightarrow> None)"

definition extract_raw_items :: "string \<Rightarrow> pyval \<Rightarrow> string + pyval list" where
  "extract_raw_items kind raw_result =
     (case raw_result of
        PList vs \<Rightarrow> Inr vs
      | v \<Rightarrow> Inl (''OpenCode '' @ kind @ '' payload must be an array; got '' @ type_name v))"

definition extract_raw_object :: "string \<Rightarrow> pyval \<Rightarrow> string + mapping" where
  "extract_raw_object kind raw_result =
     (case raw_result of
        PDict d \<Rightarrow> Inr d
      | v \<Rightarrow> Inl (''OpenCode '' @ kind @ '' payload must be an object; got '' @ type_name v))"

definition apply_session_query_limit :: "int \<Rightarrow> 'a list \<Rightarrow> 'a list" where
  "apply_session_query_limit limit items = (if int (length items) \<le> limit then items else take (nat limit) items)"

definition int_value :: "pyval \<Rightarrow> pyval option" where
  "int_value v = (case v of PInt n \<Rightarrow> Some (PInt n) | PBool b \<Rightarrow> Some (PBool b) | _ \<Rightarrow> None)"

definition number_value :: "pyval \<Rightarrow> pyval option" where
  "number_value v = (case v of PFloat q \<Rightarrow> Some (PFloat q) | _ \<Rightarrow> int_value v)"

definition full_string :: "pyval \<Rightarrow> pyval option" where
  "full_string v = map_option PStr (Option.bind (as_str v) nonempty_strip)"

definition plain_string :: "pyval \<Rightarrow> pyval option" where
  "plain_string v = map_option PStr (as_str v)"

definition status_item :: "string \<Rightarrow> pyval \<Rightarrow> mapping option" where
  "status_item raw_session_id raw_status =
     (case (nonempty_strip raw_session_id, raw_status) of
        (Some session_id, PDict status) \<Rightarrow>
          map_option (\<lambda>status_type.
              dset_opt ''next'' (number_value (dget status ''next''))
                (dset_opt ''message'' (full_string (dget status ''message''))
                  (dset_opt ''attempt'' (int_value (dget status ''attempt''))
                    [(''session_id'', PStr session_id), (''type'', status_type)])))
            (full_string (dget status ''type''))
      | _ \<Rightarrow> None)"

definition normalize_session_status_items :: "pyval \<Rightarrow> string + pyval list" where
  "normalize_session_status_items raw_result =
     then_with (extract_raw_object ''session status'' raw_result) (\<lambda>status_map.
       Inr (map PDict (List.map_filter (\<lambda>(k, v). status_item k v) (sort_key fst status_map))))"

definition todo_item :: "pyval \<Rightarrow> pyval option" where
  "todo_item item =
     (case item of
        PDict d \<Rightarrow>
          map_option (\<lambda>vs. PDict (zip [''id'', ''content'', ''status'', ''priority''] vs))
            (those (map (\<lambda>k. full_string (dget d k)) [''id'', ''content'', ''status'', ''priority'']))
      | _ \<Rightarrow> None)"

definition normalize_todo_items :: "pyval \<Rightarrow> string + pyval list" where
  "normalize_todo_items raw_result =
     then_with (extract_raw_items ''session todo'' raw_result) (\<lambda>items. Inr (List.map_filter todo_item items))"

definition diff_item :: "pyval \<Rightarrow> pyval option" where
  "diff_item item =
     (case item of
        PDict d \<Rightarrow>
          map_option (\<lambda>file. PDict
              (dset_opt ''deletions'' (int_value (dget d ''deletions''))
                (dset_opt ''additions'' (int_value (dget d ''additions''))
                  (dset_opt ''after'' (plain_string (dget d ''after''))
                    (dset_opt ''before'' (plain_string (dget d ''before'')) [(''file'', file)])))))
            (full_string (dget d ''file''))
      | _ \<Rightarrow> None)"

definition normalize_diff_items :: "pyval \<Rightarrow> string + pyval list" where
  "normalize_diff_items raw_result =
     then_with (extract_raw_items ''session diff'' raw_result) (\<lambda>items. Inr (List.map_filter diff_item items))"

definition revert_item :: "mapping \<Rightarrow> mapping" where
  "revert_item revert =
     fold (\<lambda>(source_key, target_key). dset_opt target_key (full_string (dget revert source_key)))
       [(''messageID'', ''message_id''), (''partID'', ''part_id''), (''snapshot'', ''snapshot''), (''diff'', ''diff'')] []"

definition normalize_session_summary :: "pyval \<Rightarrow> string + mapping" where
  "normalize_session_summary raw_result =
     then_with (extract_raw_object ''session'' raw_result) (\<lambda>session.
       case extract_session_id session of
         None \<Rightarrow> Inl (''OpenCode session payload is missing string field 'id'' @ [CHR 0x27])
       | Some session_id \<Rightarrow>
           (let item = fold (\<lambda>(source_key, target_key). dset_opt target_key (full_string (dget session source_key)))
                  [(''projectID'', ''project_id''), (''directory'', ''directory''), (''parentID'', ''parent_id''), (''version'', ''version'')]
                  [(''id'', PStr session_id), (''title'', PStr (extract_session_title session))];
                item = (case dget session ''share'' of
                          PDict share \<Rightarrow> dset_opt ''share_url'' (full_string (dget share ''url'')) item
                        | _ \<Rightarrow> item)
            in Inr (case dget session ''revert'' of
                      PDict revert \<Rightarrow> dset_opt ''revert'' (map_option PDict (dict_or_none (revert_item revert))) item
                    | _ \<Rightarrow> item)))"

section \<open>The catalogue of providers\<close>

fun all_mappings :: "pyval list \<Rightarrow> mapping list option" where
  "all_mappings [] = Some []"
| "all_mappings (v # vs) = (case v of PDict d \<Rightarrow> map_option (\<lambda>ds. d # ds) (all_mappings vs) | _ \<Rightarrow> None)"

fun default_entries :: "mapping \<Rightarrow> (string \<times> string) list \<Rightarrow> (string \<times> string) list option" where
  "default_entries [] defaults = Some defaults"
| "default_entries ((key, v) # entries) defaults =
     (case v of
        PStr s \<Rightarrow> default_entries entries
          (if strip key \<noteq> [] \<and> strip s \<noteq> [] then dset (strip key) (strip s) defaults else defaults)
      | _ \<Rightarrow> None)"

fun connected_entries :: "pyval list \<Rightarrow> string list option" where
  "connected_entries [] = Some []"
| "connected_entries (v # vs) =
     (case v of
        PStr s \<Rightarrow> map_option (\<lambda>rest. case nonempty_strip s of None \<Rightarrow> rest | Some p \<Rightarrow> p # rest) (connected_entries vs)
      | _ \<Rightarrow> None)"

definition extract_provider_catalog ::
    "pyval \<Rightarrow> string + mapping list \<times> (string \<times> string) list \<times> string list" where
  "extract_provider_catalog raw_result =
     (case raw_result of
        PDict d \<Rightarrow>
          (case (dget d ''all'', dget d ''default'', dget d ''connected'') of
             (PList raw_providers, PDict raw_defaults, PList raw_connected) \<Rightarrow>
               (case all_mappings raw_providers of
                  None \<Rightarrow> Inl ''OpenCode provider catalog items must be objects''
                | Some providers \<Rightarrow>
                    (case default_entries raw_defaults [] of
                       None \<Rightarrow> Inl ''OpenCode provider catalog default entries must be string:string''
                     | Some defaults \<Rightarrow>
                         (case connected_entries raw_connected of
                            None \<Rightarrow> Inl ''OpenCode provider catalog connected entries must be strings''
                          | Some linked \<Rightarrow> Inr (providers, defaults, linked))))
           | (PList _, PDict _, _) \<Rightarrow> Inl ''OpenCode provider catalog payload field 'connected' must be an array''
           | (PList _, _, _) \<Rightarrow> Inl ''OpenCode provider catalog payload field 'default' must be an object''
           | _ \<Rightarrow> Inl ''OpenCode provider catalog payload field 'all' must be an array'')
      | v \<Rightarrow> Inl (''OpenCode provider catalog payload must be an object; got '' @ type_name v))"

definition name_or :: "mapping \<Rightarrow> string \<Rightarrow> pyval" where
  "name_or d fallback = PStr (case as_str (dget d ''name'') of None \<Rightarrow> fallback | Some s \<Rightarrow> s)"

definition provider_summary :: "(string \<times> string) list \<Rightarrow> string list \<Rightarrow> mapping \<Rightarrow> pyval option" where
  "provider_summary default_by_provider linked provider =
     map_option (\<lambda>provider_id. PDict
         (dset_opt ''default_model_id'' (map_option PStr (map_of default_by_provider provider_id))
           (dset_opt ''source'' (full_string (dget provider ''source''))
             [(''provider_id'', PStr provider_id), (''name'', name_or provider provider_id),
              (''connected'', PBool (provider_id \<in> set linked)),
              (''model_count'', PInt (case dget provider ''models'' of PDict ms \<Rightarrow> int (length ms) | _ \<Rightarrow> 0))])))
       (extract_session_id provider)"

definition normalize_provider_summaries :: "(string \<times> string) list \<Rightarrow> string list \<Rightarrow> mapping list \<Rightarrow> pyval list" where
  "normalize_provider_summaries default_by_provider linked raw_providers =
     List.map_filter (provider_summary default_by_provider linked) raw_providers"

definition bool_value :: "pyval \<Rightarrow> pyval option" where
  "bool_value v = (case v of PBool b \<Rightarrow> Some (PBool b) | _ \<Rightarrow> None)"

definition model_summary :: "(string \<times> string) list \<Rightarrow> string list \<Rightarrow> string \<Rightarrow> string \<Rightarrow> pyval \<Rightarrow> pyval option" where
  "model_summary default_by_provider linked provider_id raw_model_id raw_model =
     (case (nonempty_strip raw_model_id, raw_model) of
        (Some model_id, PDict m) \<Rightarrow>
          (let item = [(''provider_id'', PStr provider_id), (''model_id'', PStr model_id), (''name'', name_or m model_id),
                       (''default'', PBool (map_of default_by_provider provider_id = Some model_id)),
                       (''connected'', PBool (provider_id \<in> set linked))];
               item = dset_opt ''status'' (full_string (dget m ''status'')) item;
               item = (case dget m ''limit'' of
                         PDict limit \<Rightarrow> dset_opt ''max_output_tokens'' (int_value (dget limit ''output''))
                                          (dset_opt ''context_window'' (int_value (dget limit ''context'')) item)
                       | _ \<Rightarrow> item)
           in Some (PDict (case dget m ''capabilities'' of
                PDict c \<Rightarrow> fold (\<lambda>(source_key, target_key). dset_opt target_key (bool_value (dget c source_key)))
                  [(''reasoning'', ''supports_reasoning''), (''toolcall'', ''supports_tool_call''),
                   (''attachment'', ''supports_attachments'')] item
              | _ \<Rightarrow> item)))
      | _ \<Rightarrow> None)"

definition normalize_model_summaries ::
    "(string \<times> string) list \<Rightarrow> string list \<Rightarrow> string option \<Rightarrow> mapping list \<Rightarrow> pyval list" where
  "normalize_model_summaries default_by_provider linked provider_id raw_providers =
     concat (map (\<lambda>provider.
       case extract_session_id provider of
         None \<Rightarrow> []
       | Some current \<Rightarrow>
           if provider_id \<noteq> None \<and> provider_id \<noteq> Some current then []
           else (case dget provider ''models'' of
                   PDict models \<Rightarrow> List.map_filter (\<lambda>(k, v). model_summary default_by_provider linked current k v) models
                 | _ \<Rightarrow> [])) raw_providers)"

section \<open>Accepted requests\<close>

lemma then_with_Inr [simp]: "then_with r f = Inr y \<longleftrightarrow> (\<exists>x. r = Inr x \<and> f x = Inr y)"
  by (cases r) (auto simp: then_with_def)

lemma all_checks_ok: "all_checks cs = Inr () \<longleftrightarrow> (\<forall>c \<in> set cs. c = Inr ())"
  by (induction cs) auto

lemma require_ok [simp]: "require ok field message = Inr () \<longleftrightarrow> ok"
  by (simp add: require_def fail_def)

lemma allowed_fields_ok: "validate_allowed_request_fields v allowed = Inr () \<longleftrightarrow> fst ` set v \<subseteq> set allowed"
proof -
  have "unknown_fields v allowed = [] \<longleftrightarrow> fst ` set v \<subseteq> set allowed"
    by (auto simp: unknown_fields_def filter_empty_conv simp flip: set_empty)
  then show ?thesis by (simp add: validate_allowed_request_fields_def Let_def)
qed

text \<open>What a request for the shell must be, as a predicate.\<close>

definition model_ref :: "pyval \<Rightarrow> bool" where
  "model_ref v \<longleftrightarrow> (\<exists>m. v = PDict m \<and> is_full_str (dget m ''providerID'') \<and> is_full_str (dget m ''modelID''))"

lemma model_ref_ok: "validate_model_ref field v = Inr () \<longleftrightarrow> model_ref v"
  by (cases v) (auto simp: validate_model_ref_def model_ref_def fail_def all_checks_ok)

lemma unless_none_ok: "unless_none v check = Inr () \<longleftrightarrow> v = PNone \<or> check v = Inr ()"
  by (simp add: unless_none_def)

definition command_part :: "pyval \<Rightarrow> bool" where
  "command_part v \<longleftrightarrow> (\<exists>m. v = PDict m \<and> dget m ''type'' = PStr ''file'' \<and>
     is_full_str (dget m ''mime'') \<and> is_full_str (dget m ''url''))"

lemma command_part_ok: "validate_command_part field v = Inr () \<longleftrightarrow> command_part v"
  by (cases v) (auto simp: validate_command_part_def command_part_def fail_def all_checks_ok)

lemma parts_ok:
  "validate_parts_from f field n parts = Inr () \<longleftrightarrow> (\<forall>k < length parts. f (field @ ''['' @ nat_digits (n + k) @ '']'') (parts ! k) = Inr ())"
proof (induction parts arbitrary: n)
  case (Cons p parts)
  show ?case by (auto simp: Cons.IH less_Suc_eq_0_disj)
qed simp

lemma parts_array_ok:
  assumes "\<And>field v. f field v = Inr () \<longleftrightarrow> P v"
  shows "validate_parts_array f field v = Inr () \<longleftrightarrow> (\<exists>parts. v = PList parts \<and> (\<forall>p \<in> set parts. P p))"
  by (cases v) (auto simp: validate_parts_array_def fail_def parts_ok assms all_set_conv_all_nth)

definition subtask_part :: "mapping \<Rightarrow> bool" where
  "subtask_part m \<longleftrightarrow> is_str (dget m ''prompt'') \<and> is_str (dget m ''description'') \<and> is_str (dget m ''agent'') \<and>
     (dget m ''model'' = PNone \<or> model_ref (dget m ''model'')) \<and> is_none_or_str (dget m ''command'')"

definition prompt_part :: "pyval \<Rightarrow> bool" where
  "prompt_part v \<longleftrightarrow> (\<exists>m. v = PDict m \<and>
     (dget m ''type'' = PStr ''text'' \<and> is_str (dget m ''text'') \<or>
      dget m ''type'' = PStr ''file'' \<and> is_str (dget m ''mime'') \<and> is_str (dget m ''url'') \<or>
      dget m ''type'' = PStr ''agent'' \<and> is_str (dget m ''name'') \<or>
      dget m ''type'' = PStr ''subtask'' \<and> subtask_part m))"

lemma subtask_ok: "validate_subtask field m = Inr () \<longleftrightarrow> subtask_part m"
  by (auto simp: validate_subtask_def subtask_part_def all_checks_ok model_ref_ok)

lemma prompt_part_ok: "validate_prompt_async_part field v = Inr () \<longleftrightarrow> prompt_part v"
proof (cases v)
  case (PDict m)
  show ?thesis
  proof (cases "dget m ''type''")
    case (PStr t)
    with PDict show ?thesis
      by (auto simp: validate_prompt_async_part_def prompt_part_def fail_def all_checks_ok subtask_ok)
  qed (use PDict in \<open>auto simp: validate_prompt_async_part_def prompt_part_def fail_def\<close>)
qed (auto simp: validate_prompt_async_part_def prompt_part_def fail_def)

definition output_format :: "pyval \<Rightarrow> bool" where
  "output_format v \<longleftrightarrow> (\<exists>m. v = PDict m \<and> (dget m ''type'' = PStr ''text'' \<or>
     dget m ''type'' = PStr ''json_schema'' \<and> as_mapping (dget m ''schema'') \<noteq> None \<and>
     (case dget m ''retryCount'' of PNone \<Rightarrow> True | PInt n \<Rightarrow> 0 \<le> n | PBool _ \<Rightarrow> True | _ \<Rightarrow> False)))"

lemma output_format_ok: "validate_prompt_async_format field v = Inr () \<longleftrightarrow> output_format v"
  by (cases v) (auto simp: validate_prompt_async_format_def output_format_def fail_def all_checks_ok)

definition tool_switches :: "pyval \<Rightarrow> bool" where
  "tool_switches v \<longleftrightarrow> v = PNone \<or> (\<exists>tools. v = PDict tools \<and> (\<forall>p \<in> set tools. \<exists>b. snd p = PBool b))"

lemma tools_ok: "validate_tools v = Inr () \<longleftrightarrow> tool_switches v"
proof (cases v)
  case (PDict tools)
  have "(case x of PBool _ \<Rightarrow> True | _ \<Rightarrow> False) \<longleftrightarrow> (\<exists>b. x = PBool b)" for x by (cases x) auto
  with PDict show ?thesis by (force simp: validate_tools_def tool_switches_def all_checks_ok)
qed (auto simp: validate_tools_def tool_switches_def fail_def)

lemma message_id_ok: "validate_optional_message_id field v = Inr () \<longleftrightarrow> v = PNone \<or> (\<exists>s. v = PStr s \<and> startswith s ''msg'')"
  by (cases v) (auto simp: validate_optional_message_id_def)

lemma string_fields_ok:
  "validate_optional_string_fields v fs = Inr () \<longleftrightarrow> (\<forall>f \<in> set fs. is_none_or_str (dget v f))"
  "validate_required_non_empty_string_fields v fs = Inr () \<longleftrightarrow> (\<forall>f \<in> set fs. is_full_str (dget v f))"
  by (auto simp: validate_optional_string_fields_def validate_required_non_empty_string_fields_def all_checks_ok)

lemmas validated = allowed_fields_ok model_ref_ok unless_none_ok string_fields_ok message_id_ok tools_ok
  output_format_ok parts_array_ok [OF prompt_part_ok] parts_array_ok [OF command_part_ok]

definition message_id :: "pyval \<Rightarrow> bool" where
  "message_id v \<longleftrightarrow> v = PNone \<or> (\<exists>s. v = PStr s \<and> startswith s ''msg'')"

definition prompt_request :: "mapping \<Rightarrow> bool" where
  "prompt_request v \<longleftrightarrow> fst ` set v \<subseteq> set PROMPT_ASYNC_REQUEST_ALLOWED_FIELDS \<and> message_id (dget v ''messageID'') \<and>
     (dget v ''model'' = PNone \<or> model_ref (dget v ''model'')) \<and>
     (\<forall>f \<in> {''agent'', ''system'', ''variant''}. is_none_or_str (dget v f)) \<and>
     dget v ''noReply'' \<in> {PNone, PBool True, PBool False} \<and> tool_switches (dget v ''tools'') \<and>
     (dget v ''format'' = PNone \<or> output_format (dget v ''format'')) \<and>
     (\<exists>parts. dget v ''parts'' = PList parts \<and> (\<forall>p \<in> set parts. prompt_part p))"

definition command_request :: "mapping \<Rightarrow> bool" where
  "command_request v \<longleftrightarrow> fst ` set v \<subseteq> set COMMAND_REQUEST_ALLOWED_FIELDS \<and>
     is_full_str (dget v ''command'') \<and> is_full_str (dget v ''arguments'') \<and> message_id (dget v ''messageID'') \<and>
     (dget v ''model'' = PNone \<or> model_ref (dget v ''model'')) \<and>
     (\<forall>f \<in> {''agent'', ''variant''}. is_none_or_str (dget v f)) \<and>
     (dget v ''parts'' = PNone \<or> (\<exists>parts. dget v ''parts'' = PList parts \<and> (\<forall>p \<in> set parts. command_part p)))"

definition shell_request :: "mapping \<Rightarrow> bool" where
  "shell_request v \<longleftrightarrow> fst ` set v \<subseteq> set SHELL_REQUEST_ALLOWED_FIELDS \<and>
     is_full_str (dget v ''agent'') \<and> is_full_str (dget v ''command'') \<and>
     (dget v ''model'' = PNone \<or> model_ref (dget v ''model''))"

text \<open>C25. The checks of the request objects accept exactly what the contract describes: a prompt, a command
  and a call of the shell.\<close>

theorem accepted_requests:
  "(validate_prompt_async_request_payload v = Inr () \<longleftrightarrow> prompt_request v) \<and>
   (validate_command_request_payload v = Inr () \<longleftrightarrow> command_request v) \<and>
   (validate_shell_request_payload v = Inr () \<longleftrightarrow> shell_request v)"
proof -
  have "(case x of PNone \<Rightarrow> True | PBool _ \<Rightarrow> True | _ \<Rightarrow> False) \<longleftrightarrow> x \<in> {PNone, PBool True, PBool False}" for x
    by (cases x) auto
  then show ?thesis
    unfolding validate_prompt_async_request_payload_def validate_command_request_payload_def
      validate_shell_request_payload_def prompt_request_def command_request_def shell_request_def message_id_def
    by (simp add: all_checks_ok validated)
qed

section \<open>Accepted queries\<close>

lemma int_field_bound: "parse_int_field field minimum v = Inr (Some n) \<Longrightarrow> minimum \<le> n"
  by (auto simp: parse_int_field_def Let_def split: pyval.splits option.splits if_splits)

lemma limit_bounds:
  assumes "normalize_session_query_limit v = Inr n"
  shows "1 \<le> n \<and> n \<le> 100"
proof -
  from assms obtain r where "parse_int_field ''limit'' 1 v = Inr r"
      "(case r of None \<Rightarrow> Inr SESSION_QUERY_DEFAULT_LIMIT
        | Some m \<Rightarrow> if SESSION_QUERY_MAX_LIMIT < m then Inl (ParamsError (''limit must be <= '' @ str_int SESSION_QUERY_MAX_LIMIT)
              [(''type'', PStr ''INVALID_FIELD''), (''field'', PStr ''limit''), (''max'', PInt SESSION_QUERY_MAX_LIMIT)])
            else Inr m) = Inr n"
    by (auto simp: normalize_session_query_limit_def)
  then show ?thesis
    using int_field_bound [of "''limit''" 1 v]
    by (auto simp: SESSION_QUERY_DEFAULT_LIMIT_def SESSION_QUERY_MAX_LIMIT_def split: option.splits if_splits)
qed



end
