(* ===== verification/Rpc_Common.thy ===== *)
theory Rpc_Common
  imports Coordinator Interrupt_Client Access_Control Rpc_Methods Rpc_Params
begin

text \<open>
  What the handlers of the extension methods share (\<open>jsonrpc/handlers/common.py\<close>): the guard that claims
  a session while the upstream works on it, the reading of metadata, and the answers to failures. A
  handler is a function of its context, the call and the state. Its result is the value of a
  success, an error of the interface, or an exception nothing catches.
\<close>

section \<open>Context, calls and state\<close>

text \<open>
  \<open>rc_meanwhile\<close> and \<open>rc_interrupts_meanwhile\<close> are what other requests do to the tables of sessions and
  of interrupts while this one waits for the upstream; \<open>rc_now\<close> and \<open>rc_later\<close> are the times before and
  after that. The JSON form of the SDK's tasks and messages is \<open>rc_to_dict\<close>; \<open>rc_float\<close> prints a float.
\<close>

record ('s, 'i) rpc_context =
  rc_methods :: method_table
  rc_directory_resolver :: "string option \<Rightarrow> value_error + string"
  rc_sessions :: "'s session_repo"
  rc_interrupts :: "'i interrupt_repo"
  rc_transport :: transport
  rc_meanwhile :: "'s \<Rightarrow> 's"
  rc_interrupts_meanwhile :: "'i \<Rightarrow> 'i"
  rc_now :: seconds
  rc_later :: seconds
  rc_to_dict :: "sdk_item \<Rightarrow> pyval"
  rc_float :: "rat \<Rightarrow> string"

record rpc_call =
  cl_method :: string
  cl_params :: mapping
  cl_principal :: "authenticated_principal option"
  cl_task_id :: "string option"
  cl_context_id :: "string option"

record ('s, 'i) handler_state =
  hd_client :: upstream_client
  hd_sessions :: 's
  hd_interrupts :: 'i
  hd_audit :: "string list"

datatype rpc_reply = Result pyval | Refusal rpc_error | Uncaught upstream_error

text \<open>\<open>base_request.method == context.method_<key>\<close>; a method that is not offered is \<open>None\<close> there.\<close>

definition is_method :: "('s, 'i) rpc_context \<Rightarrow> rpc_call \<Rightarrow> string \<Rightarrow> bool" where
  "is_method X call key \<longleftrightarrow> map_of (rc_methods X) key = Some (cl_method call)"

definition user_identity :: "rpc_call \<Rightarrow> string option" where
  "user_identity call = map_option ap_identity (cl_principal call)"

definition user_credential_id :: "rpc_call \<Rightarrow> string option" where
  "user_credential_id call = nonempty (Option.bind (cl_principal call) ap_credential_id)"

definition error_code :: "(string \<times> int) list \<Rightarrow> string \<Rightarrow> int" where
  "error_code codes name = the (map_of codes name)"

definition invalid_field_error :: "string \<Rightarrow> string \<Rightarrow> rpc_error" where
  "invalid_field_error field message =
     invalid_params_error message (PDict [(''type'', PStr ''INVALID_FIELD''), (''field'', PStr field)])"

definition missing_field_error :: "string \<Rightarrow> rpc_error" where
  "missing_field_error field =
     invalid_params_error (''Missing required params.'' @ field)
       (PDict [(''type'', PStr ''MISSING_FIELD''), (''field'', PStr field)])"

section \<open>The guard of a session\<close>

text \<open>\<open>if identity and session_id\<close>\<close>

definition to_claim :: "string option \<Rightarrow> string option \<Rightarrow> (string \<times> string) option" where
  "to_claim identity session_id =
     (case (nonempty identity, nonempty session_id) of (Some i, Some sid) \<Rightarrow> Some (i, sid) | _ \<Rightarrow> None)"

definition claim_enter ::
    "('s, 'i) rpc_context \<Rightarrow> (string \<times> string) option \<Rightarrow> 's \<Rightarrow> (sm_error + bool) \<times> 's" where
  "claim_enter X who s =
     (case who of
        None \<Rightarrow> (Inr False, s)
      | Some (i, sid) \<Rightarrow> claim_preferred_session (rc_sessions X) (rc_now X) i sid s)"

definition claim_finalize ::
    "('s, 'i) rpc_context \<Rightarrow> (string \<times> string) option \<Rightarrow> bool \<Rightarrow> 's \<Rightarrow> (sm_error + unit) \<times> 's" where
  "claim_finalize X who pending s =
     (case who of
        Some (i, sid) \<Rightarrow> if pending then finalize_session_claim (rc_sessions X) (rc_later X) i sid s else (Inr (), s)
      | None \<Rightarrow> (Inr (), s))"

definition claim_exit ::
    "('s, 'i) rpc_context \<Rightarrow> (string \<times> string) option \<Rightarrow> bool \<Rightarrow> 's \<Rightarrow> 's" where
  "claim_exit X who pending s =
     (case who of
        Some (i, sid) \<Rightarrow> if pending then release_preferred_session_claim (rc_sessions X) i sid s else s
      | None \<Rightarrow> s)"

type_synonym ('s, 'i, 'a) handler_action = "('s, 'i) handler_state \<Rightarrow> (run_error + 'a) \<times> ('s, 'i) handler_state"

text \<open>A call of the upstream, during which other requests go on.\<close>

definition call_upstream ::
    "('s, 'i) rpc_context \<Rightarrow> 'a action \<Rightarrow> ('a \<Rightarrow> upstream_error + 'b) \<Rightarrow> ('s, 'i, 'b) handler_action" where
  "call_upstream X act read st =
     (let (r, c) = act (rc_transport X) (hd_client st);
          st = st\<lparr>hd_client := c, hd_sessions := rc_meanwhile X (hd_sessions st),
                  hd_interrupts := rc_interrupts_meanwhile X (hd_interrupts st)\<rparr>
      in case r of
           Inl e \<Rightarrow> (Inl (UpstreamFailure e), st)
         | Inr x \<Rightarrow> (case read x of Inl e \<Rightarrow> (Inl (UpstreamFailure e), st) | Inr y \<Rightarrow> (Inr y, st)))"

text \<open>
  \<open>async with SessionClaimGuard(...)\<close>: claim, run the body, finalize. On any failure before the claim
  is final it is released. \<open>then_finalize\<close> runs last, with the result.
\<close>

definition with_session_claim ::
    "('s, 'i) rpc_context \<Rightarrow> (string \<times> string) option \<Rightarrow> ('s, 'i, 'a) handler_action
       \<Rightarrow> ('a \<Rightarrow> 's \<Rightarrow> (sm_error + unit) \<times> 's) \<Rightarrow> ('s, 'i, 'a) handler_action" where
  "with_session_claim X who body then_finalize st =
     (case claim_enter X who (hd_sessions st) of
        (Inl e, s) \<Rightarrow> (Inl (AccessDenied e), st\<lparr>hd_sessions := s\<rparr>)
      | (Inr pending, s) \<Rightarrow>
          (case body (st\<lparr>hd_sessions := s\<rparr>) of
             (Inl e, st1) \<Rightarrow> (Inl e, st1\<lparr>hd_sessions := claim_exit X who pending (hd_sessions st1)\<rparr>)
           | (Inr r, st1) \<Rightarrow>
               (case claim_finalize X who pending (hd_sessions st1) of
                  (Inl e, s2) \<Rightarrow> (Inl (AccessDenied e), st1\<lparr>hd_sessions := claim_exit X who pending s2\<rparr>)
                | (Inr _, s2) \<Rightarrow>
                    (case then_finalize r s2 of
                       (Inl e, s3) \<Rightarrow> (Inl (AccessDenied e), st1\<lparr>hd_sessions := s3\<rparr>)
                     | (Inr _, s3) \<Rightarrow> (Inr r, st1\<lparr>hd_sessions := s3\<rparr>)))))"

section \<open>Reading the parameters\<close>

definition reject_unknown_fields ::
    "mapping \<Rightarrow> string list \<Rightarrow> string \<Rightarrow> string \<Rightarrow> rpc_error + unit" where
  "reject_unknown_fields payload allowed_fields field_prefix message_prefix =
     (let unknown = unknown_fields payload allowed_fields;
          reported = map (\<lambda>f. field_prefix @ f) unknown
      in if unknown = [] then Inr ()
         else Inl (invalid_params_error (message_prefix @ '': '' @ join '', '' reported)
                (PDict [(''type'', PStr ''INVALID_FIELD''), (''fields'', PList (map PStr reported))])))"

definition parse_metadata_objects :: "bool \<Rightarrow> bool \<Rightarrow> mapping \<Rightarrow> rpc_error + mapping option" where
  "parse_metadata_objects strict_top_level validate_shared_object params =
     (case dget params ''metadata'' of
        PNone \<Rightarrow> Inr None
      | PDict metadata \<Rightarrow>
          (let unknown = map (\<lambda>f. ''metadata.'' @ f) (unknown_fields metadata [''opencode'', ''shared''])
           in if strict_top_level \<and> unknown \<noteq> []
              then Inl (invalid_params_error (''Unsupported metadata fields: '' @ join '', '' unknown)
                     (PDict [(''type'', PStr ''INVALID_FIELD''), (''fields'', PList (map PStr unknown))]))
              else if dget metadata ''opencode'' \<noteq> PNone \<and> as_mapping (dget metadata ''opencode'') = None
              then Inl (invalid_field_error ''metadata.opencode'' ''metadata.opencode must be an object'')
              else if validate_shared_object \<and> dget metadata ''shared'' \<noteq> PNone \<and>
                      as_mapping (dget metadata ''shared'') = None
              then Inl (invalid_field_error ''metadata.shared'' ''metadata.shared must be an object'')
              else Inr (as_mapping (dget metadata ''opencode'')))
      | _ \<Rightarrow> Inl (invalid_field_error ''metadata'' ''metadata must be an object''))"

definition extract_directory_from_metadata :: "mapping \<Rightarrow> rpc_error + string option" where
  "extract_directory_from_metadata params =
     then_with (parse_metadata_objects True True params) (\<lambda>opencode.
       case (case opencode of
               None \<Rightarrow> PNone
             | Some m \<Rightarrow> extract_namespaced_value (Some [(''opencode'', PDict m)]) ''opencode'' [''directory'']) of
         PNone \<Rightarrow> Inr None
       | PStr s \<Rightarrow> Inr (Some s)
       | _ \<Rightarrow> Inl (invalid_field_error ''metadata.opencode.directory'' ''metadata.opencode.directory must be a string''))"

definition extract_workspace_id_from_metadata :: "mapping \<Rightarrow> rpc_error + string option" where
  "extract_workspace_id_from_metadata params =
     then_with (parse_metadata_objects False False params) (\<lambda>opencode.
       case (case opencode of
               None \<Rightarrow> PNone
             | Some m \<Rightarrow> extract_namespaced_value (Some [(''opencode'', PDict m)]) ''opencode'' [''workspace'']) of
         PNone \<Rightarrow> Inr None
       | PDict w \<Rightarrow>
           (case extract_namespaced_value (Some [(''workspace'', PDict w)]) ''workspace'' [''id''] of
              PNone \<Rightarrow> Inr None
            | PStr s \<Rightarrow> Inr (nonempty_strip s)
            | _ \<Rightarrow> Inl (invalid_field_error ''metadata.opencode.workspace.id''
                     ''metadata.opencode.workspace.id must be a string''))
       | _ \<Rightarrow> Inl (invalid_field_error ''metadata.opencode.workspace'' ''metadata.opencode.workspace must be an object''))"

definition directory_resolved ::
    "('s, 'i) rpc_context \<Rightarrow> string option \<Rightarrow> string \<Rightarrow> rpc_error + string" where
  "directory_resolved X directory field =
     (case rc_directory_resolver X directory of
        Inl (value_error.ValueError m) \<Rightarrow> Inl (invalid_field_error field m)
      | Inr d \<Rightarrow> Inr d)"

definition resolve_directory_of :: "('s, 'i) rpc_context \<Rightarrow> mapping \<Rightarrow> rpc_error + string" where
  "resolve_directory_of X params =
     then_with (extract_directory_from_metadata params)
       (\<lambda>directory. directory_resolved X directory ''metadata.opencode.directory'')"

text \<open>Where the upstream is to work: in a workspace, or in a directory.\<close>

definition resolve_routing_context ::
    "('s, 'i) rpc_context \<Rightarrow> mapping \<Rightarrow> string option \<Rightarrow> rpc_error + (string option \<times> string option)" where
  "resolve_routing_context X params asked_directory =
     then_with (extract_workspace_id_from_metadata params) (\<lambda>workspace_id.
       case workspace_id of
         Some w \<Rightarrow> Inr (None, Some w)
       | None \<Rightarrow>
           (case asked_directory of
              Some d \<Rightarrow> then_with (directory_resolved X (Some d) ''directory'') (\<lambda>d. Inr (Some d, None))
            | None \<Rightarrow> then_with (resolve_directory_of X params) (\<lambda>d. Inr (Some d, None))))"

section \<open>Failures of the upstream\<close>

record failure_context =
  fc_http_code :: int
  fc_unreachable_code :: int
  fc_payload_code :: "int option"
  fc_method :: "string option"
  fc_session_id :: "string option"
  fc_request_id :: "string option"
  fc_not_found :: "rpc_error option"
  fc_permission :: "rpc_error option"

definition internal_error :: "string \<Rightarrow> rpc_error" where
  "internal_error message = A2AError ''InternalError'' message PNone"

definition upstream_exception_error :: "failure_context \<Rightarrow> run_error \<Rightarrow> rpc_error" where
  "upstream_exception_error F exc =
     (let payload = (\<lambda>m. case fc_payload_code F of
            Some code \<Rightarrow> upstream_payload_error code m (fc_method F) (fc_session_id F) (fc_request_id F)
          | None \<Rightarrow> internal_error m)
      in case exc of
           UpstreamFailure (HTTPStatusError response) \<Rightarrow>
             (case fc_not_found F of
                Some e \<Rightarrow> if hs_status response = 404 then e
                          else upstream_http_error (fc_http_code F) (hs_status response) (fc_method F) (fc_session_id F) (fc_request_id F) None
              | None \<Rightarrow> upstream_http_error (fc_http_code F) (hs_status response) (fc_method F) (fc_session_id F) (fc_request_id F) None)
         | UpstreamFailure (HTTPError _) \<Rightarrow>
             upstream_unreachable_error (fc_unreachable_code F) (fc_method F) (fc_session_id F) (fc_request_id F) None
         | UpstreamFailure (UpstreamConcurrencyLimitError _ _ _) \<Rightarrow>
             upstream_unreachable_error (fc_unreachable_code F) (fc_method F) (fc_session_id F) (fc_request_id F)
               (Some (run_error_text exc))
         | UpstreamFailure (UpstreamContractError m) \<Rightarrow> payload m
         | UpstreamFailure (upstream_error.ValueError m) \<Rightarrow> payload m
         | AccessDenied _ \<Rightarrow> (case fc_permission F of Some e \<Rightarrow> e | None \<Rightarrow> internal_error (run_error_text exc))
         | _ \<Rightarrow> internal_error (run_error_text exc))"

text \<open>The failures of the methods that work on a session.\<close>

definition session_failure :: "rpc_call \<Rightarrow> string option \<Rightarrow> failure_context" where
  "session_failure call session_id =
     (let code = error_code SESSION_QUERY_ERROR_BUSINESS_CODES
      in \<lparr>fc_http_code = code ''UPSTREAM_HTTP_ERROR'', fc_unreachable_code = code ''UPSTREAM_UNREACHABLE'',
          fc_payload_code = Some (code ''UPSTREAM_PAYLOAD_ERROR''), fc_method = Some (cl_method call),
          fc_session_id = session_id, fc_request_id = None,
          fc_not_found = map_option (session_not_found_error (code ''SESSION_NOT_FOUND'')) session_id,
          fc_permission = map_option (session_forbidden_error (code ''SESSION_FORBIDDEN'')) session_id\<rparr>)"

text \<open>A step that may refuse the call, and the answer to the outcome of the upstream.\<close>

definition checked :: "rpc_error + 'a \<Rightarrow> ('a \<Rightarrow> 't \<Rightarrow> rpc_reply \<times> 't) \<Rightarrow> 't \<Rightarrow> rpc_reply \<times> 't" where
  "checked r f st = (case r of Inl e \<Rightarrow> (Refusal e, st) | Inr x \<Rightarrow> f x st)"

definition reply_of :: "failure_context \<Rightarrow> (run_error + pyval) \<times> 't \<Rightarrow> rpc_reply \<times> 't" where
  "reply_of F r = (case fst r of Inl e \<Rightarrow> Refusal (upstream_exception_error F e) | Inr v \<Rightarrow> Result v, snd r)"

text \<open>A reading that failed with a \<open>ValueError\<close>.\<close>

definition of_text :: "string + 'a \<Rightarrow> upstream_error + 'a" where
  "of_text r = (case r of Inl m \<Rightarrow> Inl (upstream_error.ValueError m) | Inr x \<Rightarrow> Inr x)"

end
