(* ===== verification/Rpc_Sessions.thy ===== *)
theory Rpc_Sessions
  imports Rpc_Common
begin

text \<open>
  The handlers of the methods on sessions: control (\<open>session_control.py\<close>), life cycle
  (\<open>session_lifecycle.py\<close>) and queries (\<open>session_queries.py\<close>).
\<close>

section \<open>Prompts, commands and the shell\<close>

definition shell_audit_outcome :: "run_error \<Rightarrow> string" where
  "shell_audit_outcome exc =
     (case exc of
        UpstreamFailure (HTTPStatusError response) \<Rightarrow>
          if hs_status response = 404 then ''upstream_404'' else ''upstream_http_error''
      | UpstreamFailure (HTTPError _) \<Rightarrow> ''upstream_unreachable''
      | UpstreamFailure (UpstreamConcurrencyLimitError _ _ _) \<Rightarrow> ''upstream_backpressure''
      | UpstreamFailure (UpstreamContractError _) \<Rightarrow> ''upstream_payload_error''
      | UpstreamFailure (upstream_error.ValueError _) \<Rightarrow> ''upstream_payload_error''
      | AccessDenied _ \<Rightarrow> ''forbidden''
      | _ \<Rightarrow> ''internal_error'')"

definition or_dash :: "string option \<Rightarrow> string" where
  "or_dash x = (case x of None \<Rightarrow> ''-'' | Some s \<Rightarrow> s)"

definition not_blank :: "string option \<Rightarrow> string option" where
  "not_blank x = (case x of None \<Rightarrow> None | Some s \<Rightarrow> if strip s = [] then None else Some s)"

definition shell_audit_line :: "rpc_call \<Rightarrow> string \<Rightarrow> string \<Rightarrow> string" where
  "shell_audit_line call session_id verdict =
     ''session_shell_audit method='' @ cl_method call @ '' identity='' @ or_dash (nonempty (user_identity call)) @
     '' task_id='' @ or_dash (not_blank (cl_task_id call)) @ '' context_id='' @ or_dash (not_blank (cl_context_id call)) @
     '' session_id='' @ session_id @ '' outcome='' @ verdict"

definition log_shell_audit ::
    "('s, 'i) rpc_context \<Rightarrow> rpc_call \<Rightarrow> string \<Rightarrow> string \<Rightarrow> ('s, 'i) handler_state \<Rightarrow> ('s, 'i) handler_state" where
  "log_shell_audit X call session_id verdict st =
     (if is_method X call ''shell''
      then st\<lparr>hd_audit := hd_audit st @ [shell_audit_line call session_id verdict]\<rparr> else st)"

definition required_string :: "mapping \<Rightarrow> string \<Rightarrow> rpc_error + string" where
  "required_string params field =
     (case Option.bind (as_str (dget params field)) nonempty_strip of
        None \<Rightarrow> Inl (missing_field_error field) | Some s \<Rightarrow> Inr s)"

definition control_request :: "mapping \<Rightarrow> rpc_error + mapping" where
  "control_request params =
     (case dget params ''request'' of
        PNone \<Rightarrow> Inl (missing_field_error ''request'')
      | PDict raw_request \<Rightarrow> Inr raw_request
      | _ \<Rightarrow> Inl (invalid_field_error ''request'' ''params.request must be an object''))"

definition control_payload :: "('s, 'i) rpc_context \<Rightarrow> rpc_call \<Rightarrow> mapping \<Rightarrow> rpc_error + unit" where
  "control_payload X call raw_request =
     (case (if is_method X call ''prompt_async'' then validate_prompt_async_request_payload raw_request
            else if is_method X call ''command'' then validate_command_request_payload raw_request
            else if is_method X call ''shell'' then validate_shell_request_payload raw_request
            else Inl (ValidationError ''method'' (''Unsupported method: '' @ cl_method call))) of
        Inl e \<Rightarrow> Inl (invalid_field_error (ve_field e) (ve_message e))
      | Inr _ \<Rightarrow> Inr ())"

text \<open>The item a call of the upstream answers with.\<close>

definition message_item :: "('s, 'i) rpc_context \<Rightarrow> string \<Rightarrow> string \<Rightarrow> pyval \<Rightarrow> upstream_error + pyval" where
  "message_item X session_id failure raw_result =
     (case as_a2a_message session_id raw_result of
        None \<Rightarrow> Inl (UpstreamContractError failure)
      | Some m \<Rightarrow> Inr (PDict [(''item'', rc_to_dict X m)]))"

definition control_action ::
    "('s, 'i) rpc_context \<Rightarrow> rpc_call \<Rightarrow> string \<Rightarrow> mapping \<Rightarrow> string option \<times> string option \<Rightarrow> ('s, 'i, pyval) handler_action" where
  "control_action X call sid request route =
     (case route of (d, w) \<Rightarrow>
        if is_method X call ''prompt_async''
        then call_upstream X (session_prompt_async sid request d w)
               (\<lambda>_. Inr (PDict [(''ok'', PBool True), (''session_id'', PStr sid)]))
        else if is_method X call ''command''
        then call_upstream X (session_command sid request d w)
               (message_item X sid ''OpenCode /session/{sessionID}/command response could not be mapped to A2A Message'')
        else call_upstream X (session_shell sid request d w)
               (message_item X sid ''OpenCode /session/{sessionID}/shell response could not be mapped to A2A Message''))"

text \<open>The part behind the checks: claim, act, finalize, write the audit line.\<close>

definition control_run ::
    "('s, 'i) rpc_context \<Rightarrow> rpc_call \<Rightarrow> string \<Rightarrow> mapping \<Rightarrow> string option \<times> string option
       \<Rightarrow> ('s, 'i) handler_state \<Rightarrow> rpc_reply \<times> ('s, 'i) handler_state" where
  "control_run X call sid request route st =
     (let (r, st1) = with_session_claim X (to_claim (user_identity call) (Some sid))
                       (control_action X call sid request route) (\<lambda>_ s. (Inr (), s)) st
      in reply_of (session_failure call (Some sid))
           (r, log_shell_audit X call sid (case r of Inl e \<Rightarrow> shell_audit_outcome e | Inr _ \<Rightarrow> ''success'') st1))"

definition handle_session_control_request ::
    "('s, 'i) rpc_context \<Rightarrow> rpc_call \<Rightarrow> ('s, 'i) handler_state \<Rightarrow> rpc_reply \<times> ('s, 'i) handler_state" where
  "handle_session_control_request X call =
     (let params = cl_params call
      in checked (reject_unknown_fields params [''session_id'', ''request'', ''metadata''] '''' ''Unsupported fields'') (\<lambda>_.
         checked (required_string params ''session_id'') (\<lambda>sid.
         checked (control_request params) (\<lambda>request.
           if is_method X call ''shell'' \<and> \<not> request_has_capability (cl_principal call) CAPABILITY_SESSION_SHELL
           then (\<lambda>st. (Refusal (authorization_forbidden_error
                          (error_code SESSION_QUERY_ERROR_BUSINESS_CODES ''AUTHORIZATION_FORBIDDEN'')
                          (cl_method call) CAPABILITY_SESSION_SHELL (user_credential_id call)),
                       log_shell_audit X call sid ''authorization_forbidden'' st))
           else checked (control_payload X call request) (\<lambda>_.
                checked (resolve_routing_context X params None) (control_run X call sid request))))))"

section \<open>The life cycle of a session\<close>

definition parse_directory_hint :: "mapping \<Rightarrow> rpc_error + string option" where
  "parse_directory_hint params =
     (case dget params ''directory'' of
        PNone \<Rightarrow> Inr None
      | PStr s \<Rightarrow> Inr (nonempty_strip s)
      | _ \<Rightarrow> Inl (invalid_field_error ''directory'' ''directory must be a string''))"

definition optional_string :: "mapping \<Rightarrow> string \<Rightarrow> rpc_error + string option" where
  "optional_string params field =
     (case dget params field of
        PNone \<Rightarrow> Inr None
      | PStr s \<Rightarrow> Inr (nonempty_strip s)
      | _ \<Rightarrow> Inl (invalid_field_error field (field @ '' must be a string'')))"

text \<open>A field of the request object that must be a string with text.\<close>

definition request_string :: "mapping \<Rightarrow> string \<Rightarrow> rpc_error + string" where
  "request_string request field =
     (case Option.bind (as_str (dget request field)) nonempty_strip of
        None \<Rightarrow> Inl (invalid_field_error (''request.'' @ field) (''request.'' @ field @ '' must be a string''))
      | Some s \<Rightarrow> Inr s)"

definition request_fields :: "mapping \<Rightarrow> string list \<Rightarrow> rpc_error + unit" where
  "request_fields request allowed = reject_unknown_fields request allowed ''request.'' ''Unsupported fields''"

definition not_an_object :: rpc_error where
  "not_an_object = invalid_field_error ''request'' ''params.request must be an object''"

definition parse_fork_request :: "mapping \<Rightarrow> rpc_error + mapping" where
  "parse_fork_request params =
     (case dget params ''request'' of
        PNone \<Rightarrow> Inr []
      | PDict request \<Rightarrow>
          then_with (request_fields request [''messageID'']) (\<lambda>_.
            if dget request ''messageID'' = PNone then Inr []
            else then_with (request_string request ''messageID'') (\<lambda>m. Inr [(''messageID'', PStr m)]))
      | _ \<Rightarrow> Inl not_an_object)"

definition parse_summarize_request :: "mapping \<Rightarrow> rpc_error + mapping option" where
  "parse_summarize_request params =
     (case dget params ''request'' of
        PNone \<Rightarrow> Inr None
      | PDict request \<Rightarrow>
          then_with (request_fields request [''providerID'', ''modelID'', ''auto'']) (\<lambda>_.
            if dget request ''providerID'' = PNone \<and> dget request ''modelID'' = PNone \<and> dget request ''auto'' = PNone
            then Inr None
            else then_with (request_string request ''providerID'') (\<lambda>provider_id.
                 then_with (request_string request ''modelID'') (\<lambda>model_id.
                   let payload = [(''providerID'', PStr provider_id), (''modelID'', PStr model_id)]
                   in case dget request ''auto'' of
                        PNone \<Rightarrow> Inr (Some payload)
                      | PBool b \<Rightarrow> Inr (Some (payload @ [(''auto'', PBool b)]))
                      | _ \<Rightarrow> Inl (invalid_field_error ''request.auto'' ''request.auto must be a boolean''))))
      | _ \<Rightarrow> Inl not_an_object)"

definition parse_revert_request :: "mapping \<Rightarrow> rpc_error + mapping" where
  "parse_revert_request params =
     (case dget params ''request'' of
        PDict request \<Rightarrow>
          then_with (request_fields request [''messageID'', ''partID'']) (\<lambda>_.
          then_with (request_string request ''messageID'') (\<lambda>m.
            if dget request ''partID'' = PNone then Inr [(''messageID'', PStr m)]
            else then_with (request_string request ''partID'') (\<lambda>p. Inr [(''messageID'', PStr m), (''partID'', PStr p)])))
      | _ \<Rightarrow> Inl not_an_object)"

definition is_one_of :: "('s, 'i) rpc_context \<Rightarrow> rpc_call \<Rightarrow> string list \<Rightarrow> bool" where
  "is_one_of X call keys \<longleftrightarrow> list_ex (is_method X call) keys"

definition MUTATING_KEYS :: "string list" where
  "MUTATING_KEYS = [''fork'', ''share'', ''unshare'', ''summarize'', ''revert'', ''unrevert'']"

definition ITEM_KEYS :: "string list" where
  "ITEM_KEYS = [''get_session'', ''get_session_children'', ''get_session_todo'', ''get_session_diff'', ''get_session_message''] @ MUTATING_KEYS"

definition lifecycle_fields :: "('s, 'i) rpc_context \<Rightarrow> rpc_call \<Rightarrow> string list" where
  "lifecycle_fields X call =
     [''metadata'', ''directory''] @
     (if is_one_of X call ITEM_KEYS then [''session_id''] else []) @
     (if is_one_of X call [''get_session_diff'', ''get_session_message''] then [''message_id''] else []) @
     (if is_one_of X call [''fork'', ''summarize'', ''revert''] then [''request''] else [])"

text \<open>What the parameters say: directory, session, message and the three request objects.\<close>

record lifecycle_params =
  lp_directory :: "string option"
  lp_session_id :: "string option"
  lp_message_id :: "string option"
  lp_fork :: mapping
  lp_summarize :: "mapping option"
  lp_revert :: mapping

definition parse_message_id :: "('s, 'i) rpc_context \<Rightarrow> rpc_call \<Rightarrow> rpc_error + string option" where
  "parse_message_id X call =
     (if is_one_of X call [''get_session_diff'', ''get_session_message'']
      then then_with (optional_string (cl_params call) ''message_id'') (\<lambda>m.
             if is_method X call ''get_session_message'' \<and> m = None
             then Inl (missing_field_error ''message_id'') else Inr m)
      else Inr None)"

definition parse_lifecycle :: "('s, 'i) rpc_context \<Rightarrow> rpc_call \<Rightarrow> rpc_error + lifecycle_params" where
  "parse_lifecycle X call =
     (let params = cl_params call
      in then_with (reject_unknown_fields params (lifecycle_fields X call) [] ''Unsupported fields'') (\<lambda>_.
         then_with (parse_directory_hint params) (\<lambda>d.
         then_with (if is_one_of X call ITEM_KEYS then map_sum id Some (required_string params ''session_id'') else Inr None) (\<lambda>sid.
         then_with (parse_message_id X call) (\<lambda>m.
         then_with (if is_method X call ''fork'' then parse_fork_request params else Inr []) (\<lambda>f.
         then_with (if is_method X call ''summarize'' then parse_summarize_request params else Inr None) (\<lambda>z.
         then_with (if is_method X call ''revert'' then parse_revert_request params else Inr []) (\<lambda>r.
           Inr \<lparr>lp_directory = d, lp_session_id = sid, lp_message_id = m, lp_fork = f, lp_summarize = z, lp_revert = r\<rparr>))))))))"

text \<open>The result and, for a fork, the new session.\<close>

definition items_of :: "string + pyval list \<Rightarrow> upstream_error + pyval \<times> string option" where
  "items_of r = map_sum id (\<lambda>items. (PDict [(''items'', PList items)], None)) (of_text r)"

definition summary_of :: "bool \<Rightarrow> pyval \<Rightarrow> upstream_error + pyval \<times> string option" where
  "summary_of forked raw_result =
     map_sum id (\<lambda>item. (PDict [(''item'', PDict item)], if forked then as_str (dget item ''id'') else None))
       (of_text (normalize_session_summary raw_result))"

definition task_of :: "('s, 'i) rpc_context \<Rightarrow> pyval \<Rightarrow> upstream_error + pyval \<times> string option" where
  "task_of X raw_result =
     (case as_a2a_session_task raw_result of
        None \<Rightarrow> Inl (UpstreamContractError ''OpenCode /session/{sessionID} response could not be mapped to A2A Task'')
      | Some t \<Rightarrow> Inr (PDict [(''item'', rc_to_dict X t)], None))"

definition children_of :: "('s, 'i) rpc_context \<Rightarrow> pyval \<Rightarrow> upstream_error + pyval \<times> string option" where
  "children_of X raw_result =
     items_of (then_with (extract_raw_items ''child sessions'' raw_result)
       (\<lambda>raw. Inr (map (rc_to_dict X) (List.map_filter as_a2a_session_task raw))))"

definition message_of :: "('s, 'i) rpc_context \<Rightarrow> string \<Rightarrow> pyval \<Rightarrow> upstream_error + pyval \<times> string option" where
  "message_of X sid raw_result =
     map_sum id (\<lambda>v. (v, None)) (message_item X sid
       ''OpenCode /session/{sessionID}/message/{messageID} response could not be mapped to A2A Message'' raw_result)"

definition lifecycle_action ::
    "('s, 'i) rpc_context \<Rightarrow> rpc_call \<Rightarrow> lifecycle_params \<Rightarrow> string option \<times> string option
       \<Rightarrow> ('s, 'i, pyval \<times> string option) handler_action" where
  "lifecycle_action X call P route =
     (let is = is_method X call; d = fst route; w = snd route; sid = the (lp_session_id P)
      in if is ''status'' then call_upstream X (session_status d w) (\<lambda>v. items_of (normalize_session_status_items v))
         else if is ''get_session'' then call_upstream X (uc_get_session sid d w) (task_of X)
         else if is ''get_session_children'' then call_upstream X (list_child_sessions sid d w) (children_of X)
         else if is ''get_session_todo''
         then call_upstream X (get_session_todo sid d w) (\<lambda>v. items_of (normalize_todo_items v))
         else if is ''get_session_diff''
         then call_upstream X (get_session_diff (rc_float X) sid
                (map_option (\<lambda>m. [(''messageID'', PStr m)]) (lp_message_id P)) d w) (\<lambda>v. items_of (normalize_diff_items v))
         else if is ''get_session_message''
         then call_upstream X (get_message sid (the (lp_message_id P)) d w) (message_of X sid)
         else if is ''fork'' then call_upstream X (fork_session sid (Some (lp_fork P)) d w) (summary_of True)
         else if is ''share'' then call_upstream X (share_session sid d w) (summary_of False)
         else if is ''summarize''
         then call_upstream X (summarize_session sid (lp_summarize P) d w)
                (\<lambda>b. Inr (PDict [(''ok'', PBool b), (''session_id'', PStr sid)], None))
         else if is ''revert'' then call_upstream X (revert_session sid (lp_revert P) d w) (summary_of False)
         else if is ''unrevert'' then call_upstream X (unrevert_session sid d w) (summary_of False)
         else if is ''unshare'' then call_upstream X (unshare_session sid d w) (summary_of False)
         else (\<lambda>st. (Inl (UpstreamFailure (UpstreamContractError
                (''Unsupported session lifecycle method: '' @ cl_method call))), st)))"

text \<open>A fork belongs to the one who asked for it.\<close>

definition own_fork ::
    "('s, 'i) rpc_context \<Rightarrow> rpc_call \<Rightarrow> pyval \<times> string option \<Rightarrow> 's \<Rightarrow> (sm_error + unit) \<times> 's" where
  "own_fork X call r s =
     (case (snd r, nonempty (user_identity call)) of
        (Some forked, Some i) \<Rightarrow> finalize_session_claim (rc_sessions X) (rc_later X) i forked s
      | _ \<Rightarrow> (Inr (), s))"

definition lifecycle_run ::
    "('s, 'i) rpc_context \<Rightarrow> rpc_call \<Rightarrow> lifecycle_params \<Rightarrow> string option \<times> string option
       \<Rightarrow> ('s, 'i) handler_state \<Rightarrow> rpc_reply \<times> ('s, 'i) handler_state" where
  "lifecycle_run X call P route st =
     (let who = (if is_one_of X call MUTATING_KEYS then to_claim (user_identity call) (lp_session_id P) else None);
          (r, st1) = with_session_claim X who (lifecycle_action X call P route) (own_fork X call) st
      in reply_of (session_failure call (lp_session_id P)) (map_sum id fst r, st1))"

definition handle_session_lifecycle_request ::
    "('s, 'i) rpc_context \<Rightarrow> rpc_call \<Rightarrow> ('s, 'i) handler_state \<Rightarrow> rpc_reply \<times> ('s, 'i) handler_state" where
  "handle_session_lifecycle_request X call =
     checked (parse_lifecycle X call) (\<lambda>P.
     checked (resolve_routing_context X (cl_params call) (lp_directory P)) (lifecycle_run X call P))"

section \<open>Lists of sessions and of messages\<close>

definition query_failure :: "string option \<Rightarrow> failure_context" where
  "query_failure session_id =
     (let code = error_code SESSION_QUERY_ERROR_BUSINESS_CODES
      in \<lparr>fc_http_code = code ''UPSTREAM_HTTP_ERROR'', fc_unreachable_code = code ''UPSTREAM_UNREACHABLE'',
          fc_payload_code = None, fc_method = None, fc_session_id = None, fc_request_id = None,
          fc_not_found = map_option (session_not_found_error (code ''SESSION_NOT_FOUND'')) session_id,
          fc_permission = None\<rparr>)"

definition payload_reply :: "(string \<times> int) list \<Rightarrow> string option \<Rightarrow> string + pyval \<Rightarrow> rpc_reply" where
  "payload_reply codes method r =
     (case r of
        Inl m \<Rightarrow> Refusal (upstream_payload_error (error_code codes ''UPSTREAM_PAYLOAD_ERROR'') m method None None)
      | Inr v \<Rightarrow> Result v)"

text \<open>
  The answer to what the upstream gave: a failure is an error of the interface, a JSON \<open>null\<close> raises
  outside every handler, and a payload of the wrong form is an error again.
\<close>

definition read_answer ::
    "(string \<times> int) list \<Rightarrow> failure_context \<Rightarrow> string option \<Rightarrow> string \<Rightarrow> (pyval \<Rightarrow> string + pyval)
       \<Rightarrow> (run_error + pyval) \<times> 't \<Rightarrow> rpc_reply \<times> 't" where
  "read_answer codes F method no_payload read r =
     (case fst r of
        Inl e \<Rightarrow> Refusal (upstream_exception_error F e)
      | Inr v \<Rightarrow> if v = PNone then Uncaught (UpstreamContractError no_payload)
                 else payload_reply codes method (read v), snd r)"

definition session_items :: "('s, 'i) rpc_context \<Rightarrow> int \<Rightarrow> pyval \<Rightarrow> string + pyval" where
  "session_items X limit raw_result =
     then_with (extract_raw_items ''sessions'' raw_result) (\<lambda>raw.
       Inr (PDict [(''items'', PList (apply_session_query_limit limit
             (map (rc_to_dict X) (List.map_filter as_a2a_session_task raw))))]))"

definition message_items :: "('s, 'i) rpc_context \<Rightarrow> string \<Rightarrow> message_page \<Rightarrow> string + pyval" where
  "message_items X sid page =
     then_with (extract_raw_items ''messages'' (mp_payload page)) (\<lambda>raw.
       Inr (PDict [(''items'', PList (map (rc_to_dict X) (List.map_filter (as_a2a_message sid) raw))),
                   (''next_cursor'', case mp_next_cursor page of None \<Rightarrow> PNone | Some s \<Rightarrow> PStr s)]))"

definition of_params :: "params_error + 'a \<Rightarrow> rpc_error + 'a" where
  "of_params r = (case r of Inl e \<Rightarrow> Inl (invalid_params_error (pe_message e) (PDict (pe_data e))) | Inr x \<Rightarrow> Inr x)"

definition list_sessions_run ::
    "('s, 'i) rpc_context \<Rightarrow> mapping \<Rightarrow> string option \<times> string option
       \<Rightarrow> ('s, 'i) handler_state \<Rightarrow> rpc_reply \<times> ('s, 'i) handler_state" where
  "list_sessions_run X query route st =
     read_answer SESSION_QUERY_ERROR_BUSINESS_CODES (query_failure None) None
       ''OpenCode session query returned no payload''
       (session_items X (case dget query ''limit'' of PInt n \<Rightarrow> n | _ \<Rightarrow> 0))
       (call_upstream X (list_sessions (rc_float X) (Some query) (fst route) (snd route)) Inr st)"

definition list_messages_run ::
    "('s, 'i) rpc_context \<Rightarrow> rpc_call \<Rightarrow> string \<Rightarrow> mapping \<Rightarrow> string option \<times> string option
       \<Rightarrow> ('s, 'i) handler_state \<Rightarrow> rpc_reply \<times> ('s, 'i) handler_state" where
  "list_messages_run X call sid query route st =
     (let F = query_failure (if is_method X call ''get_session_messages'' then Some sid else None)
      in case call_upstream X (list_messages (rc_float X) sid (Some query) (snd route)) Inr st of
           (Inl e, st1) \<Rightarrow> (Refusal (upstream_exception_error F e), st1)
         | (Inr page, st1) \<Rightarrow>
             (payload_reply SESSION_QUERY_ERROR_BUSINESS_CODES None (message_items X sid page), st1))"

definition handle_session_query_request ::
    "('s, 'i) rpc_context \<Rightarrow> rpc_call \<Rightarrow> ('s, 'i) handler_state \<Rightarrow> rpc_reply \<times> ('s, 'i) handler_state" where
  "handle_session_query_request X call =
     (let params = cl_params call
      in if is_method X call ''list_sessions''
         then checked (of_params (parse_list_sessions_params params)) (\<lambda>query.
              checked (resolve_routing_context X params (as_str (dget query ''directory'')))
                (list_sessions_run X (ddel ''directory'' query)))
         else checked (of_params (parse_get_session_messages_params params)) (\<lambda>(sid, query).
              checked (resolve_routing_context X params None) (list_messages_run X call sid query)))"

end
