(* ===== verification/Rpc_Services.thy ===== *)
theory Rpc_Services
  imports Rpc_Sessions
begin

text \<open>
  The other handlers: the catalogue of providers (\<open>provider_discovery.py\<close>), pending interrupts and the answers
  to them (\<open>interrupt_queries.py\<close>, \<open>interrupt_callbacks.py\<close>), projects, workspaces and worktrees
  (\<open>workspace_control.py\<close>).
\<close>

section \<open>Providers and models\<close>

definition provider_failure :: "rpc_call \<Rightarrow> failure_context" where
  "provider_failure call =
     (let code = error_code PROVIDER_DISCOVERY_ERROR_BUSINESS_CODES
      in \<lparr>fc_http_code = code ''UPSTREAM_HTTP_ERROR'', fc_unreachable_code = code ''UPSTREAM_UNREACHABLE'',
          fc_payload_code = None, fc_method = Some (cl_method call), fc_session_id = None, fc_request_id = None,
          fc_not_found = None, fc_permission = None\<rparr>)"

definition provider_filter :: "('s, 'i) rpc_context \<Rightarrow> rpc_call \<Rightarrow> rpc_error + string option" where
  "provider_filter X call =
     (case dget (cl_params call) ''provider_id'' of
        PNone \<Rightarrow> Inr None
      | v \<Rightarrow>
          if \<not> is_method X call ''list_models'' then Inr None
          else (case Option.bind (as_str v) nonempty_strip of
                  None \<Rightarrow> Inl (invalid_field_error ''provider_id'' ''provider_id must be a non-empty string'')
                | Some p \<Rightarrow> Inr (Some p)))"

definition provider_items :: "('s, 'i) rpc_context \<Rightarrow> rpc_call \<Rightarrow> string option \<Rightarrow> pyval \<Rightarrow> string + pyval" where
  "provider_items X call provider_id raw_result =
     then_with (extract_provider_catalog raw_result) (\<lambda>(raw_providers, default_by_provider, linked).
       Inr (PDict
         [(''items'', PList (if is_method X call ''list_providers''
             then normalize_provider_summaries default_by_provider linked raw_providers
             else normalize_model_summaries default_by_provider linked provider_id raw_providers)),
          (''default_by_provider'', PDict (map (\<lambda>(k, v). (k, PStr v)) default_by_provider)),
          (''connected'', PList (map PStr linked))]))"

definition handle_provider_discovery_request ::
    "('s, 'i) rpc_context \<Rightarrow> rpc_call \<Rightarrow> ('s, 'i) handler_state \<Rightarrow> rpc_reply \<times> ('s, 'i) handler_state" where
  "handle_provider_discovery_request X call =
     (let params = cl_params call;
          allowed = [''metadata''] @ (if is_method X call ''list_models'' then [''provider_id''] else [])
      in checked (reject_unknown_fields params allowed ''params.'' ''Unsupported params fields'') (\<lambda>_.
         checked (provider_filter X call) (\<lambda>provider_id.
         checked (resolve_routing_context X params None) (\<lambda>(d, w) st.
           read_answer PROVIDER_DISCOVERY_ERROR_BUSINESS_CODES (provider_failure call) (Some (cl_method call))
             ''OpenCode provider discovery returned no payload'' (provider_items X call provider_id)
             (call_upstream X (list_provider_catalog d w) Inr st)))))"

section \<open>Pending interrupts\<close>

definition str_or_null :: "string option \<Rightarrow> pyval" where
  "str_or_null x = (case x of None \<Rightarrow> PNone | Some s \<Rightarrow> PStr s)"

definition pending_item :: "interrupt_binding \<Rightarrow> pyval" where
  "pending_item b = PDict
     [(''request_id'', PStr (ir_request_id b)), (''session_id'', PStr (ir_session_id b)),
      (''interrupt_type'', PStr (ir_interrupt_type b)), (''task_id'', str_or_null (ir_task_id b)),
      (''context_id'', str_or_null (ir_context_id b)),
      (''details'', case ir_details b of None \<Rightarrow> PNone | Some d \<Rightarrow> PDict d),
      (''expires_at'', PFloat (ib_expires_at b))]"

definition handle_interrupt_query_request ::
    "('s, 'i) rpc_context \<Rightarrow> rpc_call \<Rightarrow> ('s, 'i) handler_state \<Rightarrow> rpc_reply \<times> ('s, 'i) handler_state" where
  "handle_interrupt_query_request X call =
     checked (reject_unknown_fields (cl_params call) [] [] ''Unsupported fields'') (\<lambda>_ st.
       case Option.bind (user_identity call) nonempty_strip of
         None \<Rightarrow> (Result (PDict [(''items'', PList [])]), st)
       | Some i \<Rightarrow>
           (let (found, s) = (if is_method X call ''list_permissions''
                  then list_permission_requests (rc_interrupts X) (rc_now X) i (hd_interrupts st)
                  else list_question_requests (rc_interrupts X) (rc_now X) i (hd_interrupts st))
            in (Result (PDict [(''items'', PList (map pending_item found))]), st\<lparr>hd_interrupts := s\<rparr>)))"

section \<open>Answers to interrupts\<close>

definition interrupt_missing :: "string \<Rightarrow> rpc_error" where
  "interrupt_missing rid =
     interrupt_not_found_error (error_code INTERRUPT_ERROR_BUSINESS_CODES ''INTERRUPT_REQUEST_NOT_FOUND'') rid False"

text \<open>\<open>isinstance(x, str) and x and b and b != x\<close>\<close>

definition someone_else :: "string option \<Rightarrow> string option \<Rightarrow> bool" where
  "someone_else mine bound \<longleftrightarrow> is_set mine \<and> is_set bound \<and> bound \<noteq> mine"

definition check_binding ::
    "('s, 'i) rpc_context \<Rightarrow> rpc_call \<Rightarrow> string \<Rightarrow> resolution \<Rightarrow> rpc_error + unit" where
  "check_binding X call rid found =
     (let expired = (rs_status found = ''expired'');
          expected = (if is_method X call ''reply_permission'' then ''permission'' else ''question'')
      in if rs_status found \<noteq> ''active''
         then Inl (interrupt_not_found_error (error_code INTERRUPT_ERROR_BUSINESS_CODES
                (if expired then ''INTERRUPT_REQUEST_EXPIRED'' else ''INTERRUPT_REQUEST_NOT_FOUND'')) rid expired)
         else case rs_binding found of
                None \<Rightarrow> Inr ()
              | Some b \<Rightarrow>
                  if ir_interrupt_type b \<noteq> expected
                  then Inl (interrupt_type_mismatch_error
                         (error_code INTERRUPT_ERROR_BUSINESS_CODES ''INTERRUPT_TYPE_MISMATCH'') rid expected (ir_interrupt_type b))
                  else if someone_else (user_identity call) (ir_identity b) \<or>
                          someone_else (user_credential_id call) (ir_credential_id b)
                  then Inl (interrupt_missing rid)
                  else Inr ())"

definition callback_fields :: "('s, 'i) rpc_context \<Rightarrow> rpc_call \<Rightarrow> string list" where
  "callback_fields X call =
     (if is_method X call ''reply_permission'' then [''request_id'', ''reply'', ''message'', ''metadata'']
      else if is_method X call ''reply_question'' then [''request_id'', ''answers'', ''metadata'']
      else [''request_id'', ''metadata''])"

text \<open>What the answer says; a wrong one is a \<open>ValueError\<close>. Then the call of the upstream.\<close>

definition callback_action ::
    "('s, 'i) rpc_context \<Rightarrow> rpc_call \<Rightarrow> string \<Rightarrow> string option \<Rightarrow> string option \<Rightarrow> string + bool action" where
  "callback_action X call rid d w =
     (let params = cl_params call
      in if is_method X call ''reply_permission''
         then then_with (normalize_permission_reply (dget params ''reply'')) (\<lambda>reply.
              case dget params ''message'' of
                PNone \<Rightarrow> Inr (permission_reply rid reply None d w)
              | PStr m \<Rightarrow> Inr (permission_reply rid reply (Some m) d w)
              | _ \<Rightarrow> Inl ''message must be a string'')
         else if is_method X call ''reply_question''
         then then_with (parse_question_answers (dget params ''answers'')) (\<lambda>answers. Inr (question_reply rid answers d w))
         else Inr (question_reject rid d w))"

text \<open>The \<open>except\<close> clauses: the error, and whether the interrupt is gone.\<close>

definition callback_failure :: "string \<Rightarrow> run_error \<Rightarrow> rpc_error \<times> bool" where
  "callback_failure rid exc =
     (let code = error_code INTERRUPT_ERROR_BUSINESS_CODES
      in case exc of
           UpstreamFailure (upstream_error.ValueError m) \<Rightarrow> (invalid_params_error m (PDict [(''type'', PStr ''INVALID_FIELD'')]), False)
         | UpstreamFailure (HTTPStatusError response) \<Rightarrow>
             if hs_status response = 404 then (interrupt_missing rid, True)
             else (upstream_http_error (code ''UPSTREAM_HTTP_ERROR'') (hs_status response) None None (Some rid) None, False)
         | UpstreamFailure (HTTPError _) \<Rightarrow>
             (upstream_unreachable_error (code ''UPSTREAM_UNREACHABLE'') None None (Some rid) None, False)
         | UpstreamFailure (UpstreamConcurrencyLimitError _ _ _) \<Rightarrow>
             (upstream_unreachable_error (code ''UPSTREAM_UNREACHABLE'') None None (Some rid) (Some (run_error_text exc)), False)
         | _ \<Rightarrow> (internal_error (run_error_text exc), False))"

definition discard_request :: "('s, 'i) rpc_context \<Rightarrow> string \<Rightarrow> ('s, 'i) handler_state \<Rightarrow> ('s, 'i) handler_state" where
  "discard_request X rid st =
     st\<lparr>hd_interrupts := tracker_discard (client_tracker (rc_interrupts X) (rc_later X)) rid (hd_interrupts st)\<rparr>"

definition callback_run ::
    "('s, 'i) rpc_context \<Rightarrow> rpc_call \<Rightarrow> string \<Rightarrow> string option \<Rightarrow> string option
       \<Rightarrow> ('s, 'i) handler_state \<Rightarrow> rpc_reply \<times> ('s, 'i) handler_state" where
  "callback_run X call rid d w st =
     (case (case callback_action X call rid d w of
              Inl m \<Rightarrow> (Inl (UpstreamFailure (upstream_error.ValueError m)), st)
            | Inr act \<Rightarrow> call_upstream X act Inr st) of
        (Inr _, st1) \<Rightarrow>
          (Result (PDict [(''ok'', PBool True), (''request_id'', PStr rid)]), discard_request X rid st1)
      | (Inl e, st1) \<Rightarrow>
          (case callback_failure rid e of
             (answer, gone) \<Rightarrow> (Refusal answer, if gone then discard_request X rid st1 else st1)))"

definition handle_interrupt_callback_request ::
    "('s, 'i) rpc_context \<Rightarrow> rpc_call \<Rightarrow> ('s, 'i) handler_state \<Rightarrow> rpc_reply \<times> ('s, 'i) handler_state" where
  "handle_interrupt_callback_request X call =
     (let params = cl_params call
      in checked (required_string params ''request_id'') (\<lambda>rid.
         checked (extract_directory_from_metadata params) (\<lambda>d.
         checked (extract_workspace_id_from_metadata params) (\<lambda>w st.
           case tracker_resolve (client_tracker (rc_interrupts X) (rc_now X)) rid (hd_interrupts st) of
             (found, s) \<Rightarrow>
               checked (check_binding X call rid found) (\<lambda>_.
               checked (reject_unknown_fields params (callback_fields X call) [] ''Unsupported fields'') (\<lambda>_.
                 callback_run X call rid d w)) (st\<lparr>hd_interrupts := s\<rparr>)))))"

section \<open>Projects, workspaces and worktrees\<close>

definition WORKSPACE_KEYS :: "string list" where
  "WORKSPACE_KEYS =
     [''list_projects'', ''get_current_project'', ''list_workspaces'', ''list_worktrees'',
      ''create_workspace'', ''remove_workspace'', ''create_worktree'', ''remove_worktree'', ''reset_worktree'']"

definition WORKSPACE_MUTATING_KEYS :: "string list" where
  "WORKSPACE_MUTATING_KEYS = [''create_workspace'', ''remove_workspace'', ''create_worktree'', ''remove_worktree'', ''reset_worktree'']"

definition WORKSPACE_REQUEST_KEYS :: "string list" where
  "WORKSPACE_REQUEST_KEYS = [''create_workspace'', ''create_worktree'', ''remove_worktree'', ''reset_worktree'']"

text \<open>\<open>method_map.get(base_request.method)\<close>: of two keys with one method the later one counts.\<close>

definition workspace_method :: "('s, 'i) rpc_context \<Rightarrow> rpc_call \<Rightarrow> string option" where
  "workspace_method X call = List.find (is_method X call) (rev WORKSPACE_KEYS)"

definition workspace_request :: "mapping \<Rightarrow> rpc_error + mapping" where
  "workspace_request params =
     (case dget params ''request'' of
        PNone \<Rightarrow> Inl (missing_field_error ''request'')
      | PDict v \<Rightarrow> Inr v
      | _ \<Rightarrow> Inl not_an_object)"

definition request_text :: "mapping \<Rightarrow> string \<Rightarrow> rpc_error + unit" where
  "request_text request field =
     (if is_full_str (dget request field) then Inr ()
      else Inl (invalid_field_error (''request.'' @ field) (''params.request.'' @ field @ '' must be a non-empty string'')))"

text \<open>The fields a method takes, after its own check.\<close>

definition workspace_fields :: "string \<Rightarrow> mapping \<Rightarrow> rpc_error + string list" where
  "workspace_fields key request =
     (if key = ''create_workspace''
      then if map_of request ''type'' = None
           then Inl (invalid_params_error ''Missing required params.request.type''
                  (PDict [(''type'', PStr ''MISSING_FIELD''), (''field'', PStr ''request'')]))
           else then_with (request_text request ''type'') (\<lambda>_. Inr [''id'', ''type'', ''branch'', ''extra''])
      else if key = ''create_worktree'' then Inr [''name'', ''startCommand'']
      else if key \<in> {''remove_worktree'', ''reset_worktree''}
      then then_with (request_text request ''directory'') (\<lambda>_. Inr [''directory''])
      else Inr [])"

definition validate_workspace_request :: "string \<Rightarrow> mapping \<Rightarrow> rpc_error + unit" where
  "validate_workspace_request key request =
     then_with (workspace_fields key request) (\<lambda>allowed.
     then_with (reject_unknown_fields request allowed ''request.'' ''Unsupported request fields'') (\<lambda>_.
       all_checks (map (\<lambda>f. if is_none_or_str (dget request f) then Inr ()
                            else Inl (invalid_field_error (''request.'' @ f) (''params.request.'' @ f @ '' must be a string'')))
         [''id'', ''type'', ''branch'', ''name'', ''startCommand'', ''directory''])))"

definition validate_allowed_fields :: "string \<Rightarrow> mapping \<Rightarrow> rpc_error + unit" where
  "validate_allowed_fields key params =
     reject_unknown_fields params
       ([''metadata''] @ (if key \<in> set WORKSPACE_REQUEST_KEYS then [''request''] else []) @
        (if key = ''remove_workspace'' then [''workspace_id''] else [])) [] ''Unsupported fields''"

text \<open>\<open>{key: item[key] for key in fields if key in item and item[key] is not None}\<close>\<close>

definition pick_summary_fields :: "mapping \<Rightarrow> string list \<Rightarrow> mapping" where
  "pick_summary_fields item allowed_fields =
     List.map_filter (\<lambda>k. if dget item k = PNone then None else Some (k, dget item k)) allowed_fields"

text \<open>A summary needs a text in the field \<open>needed\<close>.\<close>

definition control_summary :: "string \<Rightarrow> string \<Rightarrow> string list \<Rightarrow> pyval \<Rightarrow> string + pyval" where
  "control_summary kind needed shown item =
     (case item of
        PDict d \<Rightarrow>
          if is_full_str (dget d needed) then Inr (PDict (pick_summary_fields d shown))
          else Inl (''Upstream '' @ kind @ '' items must include string field '' @ py_repr_str needed)
      | _ \<Rightarrow> Inl (''Upstream '' @ kind @ '' items must be objects''))"

definition project_summary :: "pyval \<Rightarrow> string + pyval" where
  "project_summary = control_summary ''project'' ''id'' [''id'', ''name'', ''vcs'']"

definition workspace_summary :: "pyval \<Rightarrow> string + pyval" where
  "workspace_summary = control_summary ''workspace'' ''id'' [''id'', ''type'', ''name'', ''branch'']"

definition worktree_summary :: "pyval \<Rightarrow> string + pyval" where
  "worktree_summary = control_summary ''worktree'' ''name'' [''name'', ''branch'']"

fun sum_list_of :: "('a \<Rightarrow> 'e + 'b) \<Rightarrow> 'a list \<Rightarrow> 'e + 'b list" where
  "sum_list_of f [] = Inr []"
| "sum_list_of f (x # xs) = then_with (f x) (\<lambda>y. then_with (sum_list_of f xs) (\<lambda>ys. Inr (y # ys)))"

definition normalize_response_payload :: "string \<Rightarrow> pyval \<Rightarrow> string + pyval" where
  "normalize_response_payload key payload =
     (let item = (\<lambda>v. PDict [(''item'', v)])
      in if key \<in> {''list_projects'', ''list_workspaces'', ''list_worktrees''}
         then (case payload of
                 PList vs \<Rightarrow>
                   then_with (sum_list_of (if key = ''list_projects'' then project_summary
                       else if key = ''list_workspaces'' then workspace_summary else worktree_summary) vs)
                     (\<lambda>items. Inr (PDict [(''items'', PList items)]))
               | _ \<Rightarrow> Inl ''Upstream list response must be an array'')
         else if key \<in> {''get_current_project'', ''create_workspace'', ''remove_workspace'', ''create_worktree''}
         then (case payload of
                 PNone \<Rightarrow> Inr (item PNone)
               | PDict d \<Rightarrow>
                   then_with ((if key = ''get_current_project'' then project_summary
                       else if key = ''create_worktree'' then worktree_summary else workspace_summary) payload)
                     (\<lambda>v. Inr (item v))
               | _ \<Rightarrow> Inl ''Upstream item response must be an object or null'')
         else if key \<in> {''remove_worktree'', ''reset_worktree''}
         then (case payload of PBool b \<Rightarrow> Inr (PDict [(''ok'', PBool b)]) | _ \<Rightarrow> Inl ''Upstream boolean response must be a boolean'')
         else Inl (''Unsupported workspace control method: '' @ key))"

text \<open>What a call needs besides its method: the id of a workspace or a request object.\<close>

definition workspace_body :: "string \<Rightarrow> mapping \<Rightarrow> rpc_error + string \<times> mapping" where
  "workspace_body key params =
     (if key = ''remove_workspace''
      then then_with (required_string params ''workspace_id'') (\<lambda>w. Inr (w, []))
      else if key \<in> set WORKSPACE_REQUEST_KEYS
      then then_with (workspace_request params) (\<lambda>r.
           then_with (validate_workspace_request key r) (\<lambda>_. Inr ([], r)))
      else Inr ([], []))"

definition workspace_action ::
    "('s, 'i) rpc_context \<Rightarrow> string \<Rightarrow> string \<times> mapping \<Rightarrow> ('s, 'i, pyval) handler_action" where
  "workspace_action X key body =
     (let json = (\<lambda>act. call_upstream X act Inr); truth = (\<lambda>act. call_upstream X act (\<lambda>b. Inr (PBool b)))
      in if key = ''list_projects'' then json list_projects
         else if key = ''get_current_project'' then json get_current_project
         else if key = ''list_workspaces'' then json list_workspaces
         else if key = ''create_workspace'' then json (create_workspace (snd body))
         else if key = ''remove_workspace'' then json (remove_workspace (fst body))
         else if key = ''list_worktrees'' then json list_worktrees
         else if key = ''create_worktree'' then json (create_worktree (snd body))
         else if key = ''remove_worktree'' then truth (remove_worktree (snd body))
         else truth (reset_worktree (snd body)))"

definition workspace_failure :: "rpc_call \<Rightarrow> failure_context" where
  "workspace_failure call =
     (let code = error_code WORKSPACE_CONTROL_ERROR_BUSINESS_CODES
      in \<lparr>fc_http_code = code ''UPSTREAM_HTTP_ERROR'', fc_unreachable_code = code ''UPSTREAM_UNREACHABLE'',
          fc_payload_code = None, fc_method = Some (cl_method call), fc_session_id = None, fc_request_id = None,
          fc_not_found = None, fc_permission = None\<rparr>)"

definition workspace_run ::
    "('s, 'i) rpc_context \<Rightarrow> rpc_call \<Rightarrow> string \<Rightarrow> string \<times> mapping
       \<Rightarrow> ('s, 'i) handler_state \<Rightarrow> rpc_reply \<times> ('s, 'i) handler_state" where
  "workspace_run X call key body st =
     read_answer WORKSPACE_CONTROL_ERROR_BUSINESS_CODES (workspace_failure call) (Some (cl_method call))
       ''OpenCode workspace control returned no payload'' (normalize_response_payload key)
       (workspace_action X key body st)"

definition handle_workspace_control_request ::
    "('s, 'i) rpc_context \<Rightarrow> rpc_call \<Rightarrow> ('s, 'i) handler_state \<Rightarrow> rpc_reply \<times> ('s, 'i) handler_state" where
  "handle_workspace_control_request X call st =
     (case workspace_method X call of
        None \<Rightarrow> (Refusal (invalid_field_error ''method'' (''Unsupported method: '' @ cl_method call)), st)
      | Some key \<Rightarrow>
          if key \<in> set WORKSPACE_MUTATING_KEYS \<and>
             \<not> request_has_capability (cl_principal call) CAPABILITY_WORKSPACE_MUTATION
          then (Refusal (authorization_forbidden_error
                  (error_code WORKSPACE_CONTROL_ERROR_BUSINESS_CODES ''AUTHORIZATION_FORBIDDEN'')
                  (cl_method call) CAPABILITY_WORKSPACE_MUTATION (user_credential_id call)), st)
          else checked (validate_allowed_fields key (cl_params call)) (\<lambda>_.
               checked (workspace_body key (cl_params call)) (workspace_run X call key)) st)"

end
