(* ===== verification/Rpc_Application.thy ===== *)
theory Rpc_Application
  imports Rpc_Services
begin

text \<open>
  The JSON-RPC endpoint (\<open>jsonrpc/application.py\<close>) and the check of a message
  (\<open>validate_send_message_request\<close>). What the SDK does is a parameter: reading a request object, building
  the protobuf request of a core method, serving it, and its own answer to what is no request at all.
\<close>

section \<open>Requests\<close>

text \<open>A request as \<open>JSONRPCRequest\<close> has it; the id is \<open>PNone\<close> for a notification.\<close>

record base_request =
  br_method :: string
  br_params :: "mapping option"
  br_id :: pyval

text \<open>\<open>hq_body\<close> is the parsed body, \<open>hq_extensions\<close> what the SDK reads from the extension header.\<close>

record rpc_http_request =
  hq_body :: "pyval option"
  hq_extensions :: "string list"
  hq_principal :: "authenticated_principal option"
  hq_task_id :: "string option"
  hq_context_id :: "string option"

text \<open>The message of a core request: its id, its role as a number, and per part whether it has content.\<close>

record message_view =
  mv_message_id :: string
  mv_role :: int
  mv_parts :: "bool list"

datatype core_answer = Answer pyval | EventStream

record 'r rpc_sdk =
  sk_validate :: "pyval \<Rightarrow> base_request option"
  sk_fallback :: "pyval option \<Rightarrow> pyval"
  sk_has_model :: "string \<Rightarrow> bool"
  sk_parse :: "string \<Rightarrow> pyval \<Rightarrow> string + 'r"
  sk_message :: "'r \<Rightarrow> message_view option"
  sk_stream :: "string \<Rightarrow> 'r \<Rightarrow> rpc_error + unit"
  sk_call :: "string \<Rightarrow> 'r \<Rightarrow> rpc_error + pyval"
  sk_push_message :: string
  sk_codes :: "string \<Rightarrow> int option"

record 'r rpc_application =
  ra_sdk :: "'r rpc_sdk"
  ra_registry :: method_registry
  ra_supported_methods :: "string list"
  ra_extended_card :: "pyval option"

text \<open>What leaves the endpoint; an error that cannot be rendered and an uncaught one escape.\<close>

datatype rpc_response = NoContent | Json pyval | Stream | NotRendered | Escaped upstream_error

section \<open>Answers\<close>

definition build_error_payload :: "jsonrpc_error \<Rightarrow> mapping" where
  "build_error_payload e =
     [(''code'', PInt (je_code e)), (''message'', PStr (je_message e))] @
     (if je_data e = PNone then [] else [(''data'', je_data e)])"

definition json_answer :: "pyval \<Rightarrow> string \<Rightarrow> pyval \<Rightarrow> rpc_response" where
  "json_answer request_id field v = Json (PDict [(''jsonrpc'', PStr ''2.0''), (''id'', request_id), (field, v)])"

definition protocol_error :: "'r rpc_sdk \<Rightarrow> (rat \<Rightarrow> string) \<Rightarrow> pyval \<Rightarrow> rpc_error \<Rightarrow> rpc_response" where
  "protocol_error K fr request_id error =
     (case adapt_jsonrpc_error (sk_codes K) fr error of
        None \<Rightarrow> NotRendered
      | Some e \<Rightarrow> json_answer request_id ''error'' (PDict (build_error_payload e)))"

definition success_answer :: "pyval \<Rightarrow> pyval \<Rightarrow> rpc_response" where
  "success_answer request_id v = (if request_id = PNone then NoContent else json_answer request_id ''result'' v)"

definition render_reply :: "'r rpc_sdk \<Rightarrow> (rat \<Rightarrow> string) \<Rightarrow> pyval \<Rightarrow> rpc_reply \<Rightarrow> rpc_response" where
  "render_reply K fr request_id reply =
     (case reply of
        Result v \<Rightarrow> success_answer request_id v
      | Refusal e \<Rightarrow> protocol_error K fr request_id e
      | Uncaught e \<Rightarrow> Escaped e)"

section \<open>Core methods\<close>

definition PUSH_NOTIFICATION_METHODS :: "string list" where
  "PUSH_NOTIFICATION_METHODS =
     [''CreateTaskPushNotificationConfig'', ''DeleteTaskPushNotificationConfig'',
      ''GetTaskPushNotificationConfig'', ''ListTaskPushNotificationConfigs'']"

definition CALL_METHODS :: "string list" where
  "CALL_METHODS = [''SendMessage'', ''CancelTask'', ''GetTask'', ''ListTasks''] @
     PUSH_NOTIFICATION_METHODS @ [''GetExtendedAgentCard'']"

fun content_check :: "nat \<Rightarrow> bool list \<Rightarrow> string + unit" where
  "content_check index [] = Inr ()"
| "content_check index (has_content # parts) =
     (if has_content then content_check (Suc index) parts
      else Inl (''message.parts['' @ nat_digits index @ ''] must contain content''))"

definition validate_send_message_request :: "message_view option \<Rightarrow> string + unit" where
  "validate_send_message_request view =
     (case view of
        None \<Rightarrow> Inl ''message is required''
      | Some m \<Rightarrow>
          if strip (mv_message_id m) = [] then Inl ''message.messageId is required''
          else if mv_role m = 0 then Inl ''message.role is required''
          else if mv_parts m = [] then Inl ''message.parts must contain at least one part''
          else content_check 0 (mv_parts m))"

definition unsupported_operation :: "string \<Rightarrow> pyval \<Rightarrow> rpc_error" where
  "unsupported_operation message data = A2AError ''UnsupportedOperationError'' message data"

definition process_non_streaming_request :: "'r rpc_sdk \<Rightarrow> string \<Rightarrow> 'r \<Rightarrow> rpc_error + pyval" where
  "process_non_streaming_request K method request =
     (if method \<in> set CALL_METHODS then sk_call K method request
      else Inl (unsupported_operation (''Method '' @ method @ '' is not supported.'') PNone))"

definition STREAMING_METHODS :: "string list" where
  "STREAMING_METHODS = [''SendStreamingMessage'', ''SubscribeToTask'']"

definition parse_core_request :: "'r rpc_sdk \<Rightarrow> string \<Rightarrow> pyval \<Rightarrow> string + 'r" where
  "parse_core_request K method params =
     then_with (sk_parse K method params) (\<lambda>r.
       if method \<in> {''SendMessage'', ''SendStreamingMessage''}
       then then_with (validate_send_message_request (sk_message K r)) (\<lambda>_. Inr r) else Inr r)"

definition requested_extensions :: "rpc_http_request \<Rightarrow> string list" where
  "requested_extensions rq = remdups (List.map_filter nonempty_strip (hq_extensions rq))"

text \<open>The response and \<open>request.state.activated_extensions\<close>.\<close>

definition handle_core_request ::
    "'r rpc_application \<Rightarrow> (rat \<Rightarrow> string) \<Rightarrow> rpc_http_request \<Rightarrow> pyval \<Rightarrow> base_request
       \<Rightarrow> rpc_response \<times> string list option" where
  "handle_core_request A fr rq body base =
     (let K = ra_sdk A; method = br_method base; rid = br_id base; refuse = (\<lambda>e. (protocol_error K fr rid e, None))
      in if method \<in> set PUSH_NOTIFICATION_METHODS
         then refuse (A2AError ''PushNotificationNotSupportedError'' (sk_push_message K) PNone)
         else if method = ''GetExtendedAgentCard''
         then if rid = PNone then (NoContent, None)
              else (case ra_extended_card A of
                      None \<Rightarrow> refuse (unsupported_operation ''The agent does not support authenticated extended cards'' PNone)
                    | Some shown_card \<Rightarrow> (json_answer rid ''result'' shown_card,
                        Some (filter (\<lambda>u. u \<in> set ALL_EXTENSION_URIS) (requested_extensions rq))))
         else if \<not> sk_has_model K method
         then if rid = PNone then (NoContent, None)
              else refuse (method_not_supported_error method (ra_supported_methods A))
         else case parse_core_request K method
                (case body of PDict d \<Rightarrow> (case map_of d ''params'' of None \<Rightarrow> PDict [] | Some v \<Rightarrow> v) | _ \<Rightarrow> PDict []) of
                Inl m \<Rightarrow> refuse (invalid_params_error m PNone)
              | Inr request \<Rightarrow>
                  if method \<in> set STREAMING_METHODS
                  then (case sk_stream K method request of Inl e \<Rightarrow> refuse e | Inr _ \<Rightarrow> (Stream, None))
                  else (case process_non_streaming_request K method request of
                          Inl e \<Rightarrow> refuse e
                        | Inr v \<Rightarrow> (success_answer rid v, None)))"

section \<open>Every request\<close>

definition extension_handler ::
    "handler \<Rightarrow> ('s, 'i) rpc_context \<Rightarrow> rpc_call \<Rightarrow> ('s, 'i) handler_state \<Rightarrow> rpc_reply \<times> ('s, 'i) handler_state" where
  "extension_handler h =
     (case h of
        SessionLifecycle \<Rightarrow> handle_session_lifecycle_request
      | SessionListing \<Rightarrow> handle_session_query_request
      | ProviderDiscovery \<Rightarrow> handle_provider_discovery_request
      | InterruptQuery \<Rightarrow> handle_interrupt_query_request
      | WorkspaceControl \<Rightarrow> handle_workspace_control_request
      | SessionControl \<Rightarrow> handle_session_control_request
      | InterruptCallback \<Rightarrow> handle_interrupt_callback_request)"

definition negotiation_error :: "string \<Rightarrow> string \<Rightarrow> string list \<Rightarrow> rpc_error" where
  "negotiation_error method uri requested =
     unsupported_operation (''Method '' @ method @ '' requires explicit A2A extension negotiation via the A2A-Extensions header.'')
       (PDict [(''type'', PStr ''EXTENSION_NEGOTIATION_REQUIRED''), (''method'', PStr method),
               (''required_extensions'', PList [PStr uri]),
               (''requested_extensions'', PList (map PStr (sort requested))), (''header'', PStr ''A2A-Extensions'')])"

definition call_of :: "rpc_http_request \<Rightarrow> base_request \<Rightarrow> rpc_call" where
  "call_of rq base =
     \<lparr>cl_method = br_method base, cl_params = (case br_params base of None \<Rightarrow> [] | Some p \<Rightarrow> p),
      cl_principal = hq_principal rq, cl_task_id = hq_task_id rq, cl_context_id = hq_context_id rq\<rparr>"

definition base_request_of :: "'r rpc_application \<Rightarrow> rpc_http_request \<Rightarrow> (pyval \<times> base_request) option" where
  "base_request_of A rq =
     Option.bind (hq_body rq) (\<lambda>body. map_option (Pair body) (sk_validate (ra_sdk A) body))"

definition handle_requests ::
    "'r rpc_application \<Rightarrow> ('s, 'i) rpc_context \<Rightarrow> rpc_http_request \<Rightarrow> ('s, 'i) handler_state
       \<Rightarrow> rpc_response \<times> string list option \<times> ('s, 'i) handler_state" where
  "handle_requests A X rq st =
     (let K = ra_sdk A; fr = rc_float X
      in case base_request_of A rq of
           None \<Rightarrow> (Json (sk_fallback K (hq_body rq)), None, st)
         | Some (body, base) \<Rightarrow>
             (case map_of (ra_registry A) (br_method base) of
                None \<Rightarrow> (case handle_core_request A fr rq body base of (r, activated) \<Rightarrow> (r, activated, st))
              | Some spec \<Rightarrow>
                  let uri = ms_extension_uri spec; requested = requested_extensions rq
                  in if uri \<notin> set requested
                     then (protocol_error K fr (br_id base) (negotiation_error (br_method base) uri requested), None, st)
                     else (case extension_handler (ms_handler spec) X (call_of rq base) st of
                             (reply, st1) \<Rightarrow> (render_reply K fr (br_id base) reply, Some [uri], st1))))"

end
