(* ===== verification/Rpc_Safety.thy ===== *)
theory Rpc_Safety
  imports Rpc_Application
begin

text \<open>
  What the JSON-RPC interface guarantees. A call reaches the upstream exactly where its outcome depends on
  the transport, so what must not reach it is shown to give the same outcome with every transport.
\<close>

abbreviation via :: "transport \<Rightarrow> ('s, 'i) rpc_context \<Rightarrow> ('s, 'i) rpc_context" where
  "via tr X \<equiv> X\<lparr>rc_transport := tr\<rparr>"

section \<open>Who reaches the upstream\<close>

lemma is_method_via [simp]: "is_method (via tr X) call = is_method X call"
  by (rule ext) (simp add: is_method_def)

lemma same_method:
  assumes "distinct (map snd methods)" "map_of methods k = Some m" "map_of methods k' = Some m"
  shows "k = k'"
proof -
  have "inj_on snd (set methods)" using assms(1) by (simp add: distinct_map)
  from inj_onD [OF this _ map_of_SomeD [OF assms(2)] map_of_SomeD [OF assms(3)]] show ?thesis by simp
qed

text \<open>The handler of a method by its key.\<close>

lemma registered_key:
  assumes "build_extension_method_registry methods = Inr R" "map_of R m = Some spec"
    and "distinct (map snd methods)" "map_of methods key = Some m"
  shows "key \<in> set SESSION_CONTROL_KEYS \<and> ms_handler spec = SessionControl \<or>
    key \<in> set WORKSPACE_KEYS \<and> ms_handler spec = WorkspaceControl \<or>
    key \<notin> set SESSION_CONTROL_KEYS \<and> key \<notin> set WORKSPACE_KEYS"
proof -
  from registry_spec [OF assms(1,2)] have s: "spec \<in> set (method_specs methods)" "m \<in> set (ms_methods spec)" by auto
  have only: "map_of methods k = Some m \<longleftrightarrow> k = key" for k
    using same_method [OF assms(3) _ assms(4)] assms(4) by blast
  have mem: "m \<in> set (methods_of methods keys) \<longleftrightarrow> key \<in> set keys" for keys
    unfolding set_methods_of mem_Collect_eq only by blast
  note once = spec_keys_once [unfolded spec_keys_def WORKSPACE_KEYS_def [symmetric] concat.simps distinct_append
    set_append append_Nil2]
  show ?thesis
    using s(1) unfolding method_specs_def Let_def list.set WORKSPACE_KEYS_def [symmetric]
  proof (elim insertE emptyE)
  qed (use s(2) once in \<open>force simp only: mem method_spec.simps\<close>)+
qed

text \<open>A method of a deployment that needs a capability, by its key.\<close>

lemma chosen_shell: "map_of (chosen s w) ''shell'' = Some m \<longleftrightarrow> s \<and> m = ''opencode.sessions.shell''"
proof -
  have "(k, ''opencode.sessions.shell'') \<in> set (chosen s w) \<longleftrightarrow> s \<and> k = ''shell''" for k
  proof (cases s)
    case True
    then have mem: "(''shell'', ''opencode.sessions.shell'') \<in> set (chosen s w)" by (simp add: chosen_def SESSION_METHODS_def)
    have "inj_on snd (set (chosen s w))" using chosen_once(2) [of s w] by (simp add: distinct_map)
    from inj_onD [OF this _ _ mem] mem True show ?thesis by auto
  next
    case False
    with shell_offered [of s w] show ?thesis by force
  qed
  note entry = this
  show ?thesis
  proof
    assume "map_of (chosen s w) ''shell'' = Some m"
    then have "(''shell'', m) \<in> set (chosen s w)" by (rule map_of_SomeD)
    then have "(''shell'', m) \<in> set all_methods"
      using ddel_keeps_set [of "''shell''" SESSION_METHODS] unfolding chosen_def all_methods_def by (auto split: if_splits)
    moreover have "(''shell'', ''opencode.sessions.shell'') \<in> set all_methods"
      by (simp add: all_methods_def SESSION_METHODS_def)
    ultimately have "m = ''opencode.sessions.shell''" using all_methods_once(1) by (metis eq_key_imp_eq_value)
    with \<open>(''shell'', m) \<in> set (chosen s w)\<close> entry show "s \<and> m = ''opencode.sessions.shell''" by blast
  next
    assume "s \<and> m = ''opencode.sessions.shell''"
    with entry show "map_of (chosen s w) ''shell'' = Some m" by (intro map_of_is_SomeI [OF chosen_once(1)]) blast
  qed
qed

lemma apart_middle: "distinct (map f ((xs @ ys) @ zs)) \<Longrightarrow> m \<in> f ` set ys \<Longrightarrow> m \<notin> f ` set (xs @ zs)"
  by auto

lemma chosen_mutation:
  assumes "(key, m) \<in> set WORKSPACE_MUTATION_METHODS" "m \<in> snd ` set (chosen s w)"
  shows "w \<and> map_of (chosen s w) key = Some m"
proof -
  have "m \<notin> snd ` set (chosen s False)"
  proof
    assume "m \<in> snd ` set (chosen s False)"
    moreover have "snd ` set (chosen s False) \<subseteq> snd ` set (SESSION_METHODS @ PROVIDER_DISCOVERY_METHODS @
        WORKSPACE_DISCOVERY_METHODS @ INTERRUPT_RECOVERY_METHODS @ INTERRUPT_CALLBACK_METHODS)"
      using ddel_keeps_set [of "''shell''" SESSION_METHODS] unfolding chosen_def by (intro image_mono) (auto split: if_splits)
    moreover have "m \<in> snd ` set WORKSPACE_MUTATION_METHODS" using assms(1) by force
    ultimately show False
      using apart_middle [OF all_methods_once(2) [unfolded all_methods_def append_assoc [symmetric], unfolded append_assoc [of _ _ INTERRUPT_CALLBACK_METHODS]]]
      unfolding append_assoc by blast
  qed
  with assms(2) have w: w by (cases w) auto
  with assms(1) have "(key, m) \<in> set (chosen s w)" by (simp add: chosen_def)
  with w show ?thesis by (simp add: map_of_is_SomeI [OF chosen_once(1)])
qed

lemma workspace_found:
  assumes "distinct (map snd (rc_methods X))" "is_method X call key" "key \<in> set WORKSPACE_KEYS"
  shows "workspace_method X call = Some key"
proof -
  obtain k where k: "workspace_method X call = Some k"
    using assms(2,3) unfolding workspace_method_def by (metis find_None_iff not_None_eq set_rev)
  then have "is_method X call k" unfolding workspace_method_def by (metis find_Some_iff)
  with assms(1,2) have "key = k" unfolding is_method_def by (rule same_method)
  with k show ?thesis by simp
qed

lemma shell_stops:
  assumes "is_method X call ''shell''" "\<not> request_has_capability (cl_principal call) CAPABILITY_SESSION_SHELL"
  shows "handle_session_control_request (via tr X) call st = handle_session_control_request (via tr' X) call st"
  using assms by (simp add: handle_session_control_request_def checked_def log_shell_audit_def split: sum.splits)

lemma workspace_stops:
  assumes "workspace_method X call = Some key" "key \<in> set WORKSPACE_MUTATING_KEYS"
    and "\<not> request_has_capability (cl_principal call) CAPABILITY_WORKSPACE_MUTATION"
  shows "handle_workspace_control_request (via tr X) call st = handle_workspace_control_request (via tr' X) call st"
proof -
  have "workspace_method (via t X) call = Some key" for t using assms(1) by (simp add: workspace_method_def)
  with assms(2,3) show ?thesis by (simp add: handle_workspace_control_request_def)
qed


lemma handled_state:
  assumes "base_request_of A rq = Some (body, base)" "map_of (ra_registry A) (br_method base) = Some spec"
    and "ms_extension_uri spec \<in> set (requested_extensions rq)"
  shows "snd (snd (handle_requests A X rq st)) = snd (extension_handler (ms_handler spec) X (call_of rq base) st)"
  using assms by (simp add: handle_requests_def Let_def split: prod.splits)

section \<open>Claims of sessions\<close>

context session_repository
begin

text \<open>A session of somebody else: the guard refuses before the body runs.\<close>

lemma guard_refuses:
  assumes X: "rc_sessions X = R" and inv: "inv (rc_now X) (hd_sessions st)"
    and ref: "refused (rc_now X) (hd_sessions st) i sid"
  shows "\<exists>s'. with_session_claim X (Some (i, sid)) body fin st =
      (Inl (AccessDenied (PermissionError sid)), st\<lparr>hd_sessions := s'\<rparr>) \<and>
    claim_preferred_session R (rc_now X) i sid (hd_sessions st) = (Inl (PermissionError sid), s') \<and>
    owner (rc_now X) s' = owner (rc_now X) (hd_sessions st)"
proof -
  obtain r s' where c: "claim_preferred_session R (rc_now X) i sid (hd_sessions st) = (r, s')" by fastforce
  from claim_spec [OF inv c] ref
  have "r = Inl (PermissionError sid)" "owner (rc_now X) s' = owner (rc_now X) (hd_sessions st)" by auto
  with c X show ?thesis by (simp add: with_session_claim_def claim_enter_def)
qed

lemma guard_everywhere:
  assumes X: "rc_sessions X = R" and inv: "inv (rc_now X) (hd_sessions st)"
    and ref: "refused (rc_now X) (hd_sessions st) i sid"
  shows "with_session_claim (via tr X) (Some (i, sid)) body fin st =
      (Inl (AccessDenied (PermissionError sid)),
       st\<lparr>hd_sessions := snd (claim_preferred_session R (rc_now X) i sid (hd_sessions st))\<rparr>)"
    and "owner (rc_now X) (snd (claim_preferred_session R (rc_now X) i sid (hd_sessions st))) = owner (rc_now X) (hd_sessions st)"
  using guard_refuses [of "via tr X" st i sid body fin] X inv ref by auto

lemma finalize_leaves_no_claim:
  assumes "inv now s" "finalize_session_claim R now i sid s = (r, s')" "now \<le> t"
  shows "claim t s sid' \<noteq> Some i \<Longrightarrow> claim t s' sid' \<noteq> Some i"
    and "r = Inr () \<Longrightarrow> claim t s' sid \<noteq> Some i"
proof -
  note f = finalize_spec [OF assms(1,2)]
  show "claim t s' sid' \<noteq> Some i" if "claim t s sid' \<noteq> Some i"
    using f(6) [OF _ assms(3)] f(8) [OF _ assms(3)] that by (cases "r = Inr ()") (auto split: if_splits)
  show "claim t s' sid \<noteq> Some i" if "r = Inr ()"
    using f(6) [OF that assms(3)] claim_fades [OF assms(3), of s sid i] by auto
qed

text \<open>
  What a guarded call leaves behind. \<open>fin\<close> may claim for the caller what it finds; it leaves other claims.
\<close>

lemma guard_settles:
  assumes X: "rc_sessions X = R" "rc_now X \<le> rc_later X"
    and inv: "inv (rc_now X) (hd_sessions st)"
    and body: "\<And>q. inv (rc_now X) (hd_sessions q) \<Longrightarrow> inv (rc_later X) (hd_sessions (snd (body q)))"
    and fin: "\<And>v q. inv (rc_later X) q \<Longrightarrow> claim t q sid \<noteq> Some i \<Longrightarrow> claim t (snd (fin v q)) sid \<noteq> Some i"
      "\<And>v q. inv (rc_later X) q \<Longrightarrow> owner (rc_later X) q sid = Some i \<Longrightarrow>
         owner (rc_later X) (snd (fin v q)) sid = Some i \<or> forgets \<and> owner (rc_later X) (snd (fin v q)) sid = None"
    and free: "owner (rc_now X) (hd_sessions st) sid \<noteq> Some i" "claim (rc_now X) (hd_sessions st) sid \<noteq> Some i"
    and run: "with_session_claim X (Some (i, sid)) body fin st = (r, st')" and t: "rc_later X \<le> t"
  shows "claim t (hd_sessions st') sid \<noteq> Some i \<and>
    (\<forall>v. r = Inr v \<longrightarrow> owner (rc_later X) (hd_sessions st') sid = Some i \<or>
                   forgets \<and> owner (rc_later X) (hd_sessions st') sid = None)"
proof -
  have now: "rc_now X \<le> t" using X(2) t by simp
  obtain c s1 where c: "claim_preferred_session R (rc_now X) i sid (hd_sessions st) = (c, s1)" by fastforce
  note cs = claim_spec [OF inv c]
  show ?thesis
  proof (cases c)
    case (Inl e)
    with c X run have "r = Inl (AccessDenied e)" "hd_sessions st' = s1"
      by (auto simp: with_session_claim_def claim_enter_def)
    moreover have "claim t s1 sid \<noteq> Some i"
      using cs(5) [OF now] Inl free(2) claim_fades [OF now, of "hd_sessions st" sid i] by auto
    ultimately show ?thesis by simp
  next
    case (Inr pending)
    with cs(4) free(1) have c_eq: "c = Inr True" by (auto split: if_splits)
    obtain b st1 where b: "body (st\<lparr>hd_sessions := s1\<rparr>) = (b, st1)" by fastforce
    have inv1: "inv (rc_later X) (hd_sessions st1)"
      using body [of "st\<lparr>hd_sessions := s1\<rparr>"] cs(1) b by simp
    have release: "claim t (sr_clear_pending_claim R sid (Some i) q) sid \<noteq> Some i" if "inv (rc_later X) q" for q
      using clear_pending_claim [OF that refl, of sid "Some i" t] t claim_fades [OF t, of q sid i] by auto
    show ?thesis
    proof (cases b)
      case (Inl e)
      with run c c_eq X b have "r = Inl e" "hd_sessions st' = sr_clear_pending_claim R sid (Some i) (hd_sessions st1)"
        by (auto simp: with_session_claim_def claim_enter_def claim_exit_def release_preferred_session_claim_def)
      with release [OF inv1] show ?thesis by simp
    next
      case (Inr v)
      obtain f s2 where f: "finalize_session_claim R (rc_later X) i sid (hd_sessions st1) = (f, s2)" by fastforce
      note fs = finalize_spec [OF inv1 f]
      show ?thesis
      proof (cases f)
        case (Inl e)
        with run c c_eq X b Inr f have "r = Inl (AccessDenied e)" "hd_sessions st' = sr_clear_pending_claim R sid (Some i) s2"
          by (auto simp: with_session_claim_def claim_enter_def claim_finalize_def claim_exit_def
              release_preferred_session_claim_def)
        with release [OF fs(1)] show ?thesis by simp
      next
        case (Inr u)
        then have f_eq: "f = Inr ()" by simp
        from run c c_eq X b \<open>b = Inr v\<close> f f_eq
        have st': "hd_sessions st' = snd (fin v s2)"
          by (auto simp: with_session_claim_def claim_enter_def claim_finalize_def split: prod.splits sum.splits)
        from finalize_leaves_no_claim(2) [OF inv1 f t f_eq] fs(4) [OF f_eq] fin(1) [OF fs(1), of v] fin(2) [OF fs(1), of v]
        show ?thesis by (simp add: st')
      qed
    qed
  qed
qed

end

subsection \<open>The handlers that change a session\<close>

definition mutating :: "handler \<Rightarrow> ('s, 'i) rpc_context \<Rightarrow> rpc_call \<Rightarrow> bool" where
  "mutating h X call \<longleftrightarrow> h = SessionControl \<or> h = SessionLifecycle \<and> is_one_of X call MUTATING_KEYS"

lemma via_fields:
  "rc_directory_resolver (via tr X) = rc_directory_resolver X"
  "rc_sessions (via tr X) = rc_sessions X"
  "rc_later (via tr X) = rc_later X" "rc_now (via tr X) = rc_now X"
  "rc_to_dict (via tr X) = rc_to_dict X" "rc_float (via tr X) = rc_float X"
  by simp_all

lemma via_parts [simp]:
  "is_one_of (via tr X) call = is_one_of X call"
  "control_payload (via tr X) call = control_payload X call"
  "resolve_routing_context (via tr X) = resolve_routing_context X"
  "parse_lifecycle (via tr X) call = parse_lifecycle X call"
  "own_fork (via tr X) call = own_fork X call"
  "log_shell_audit (via tr X) call = log_shell_audit X call"
  unfolding is_one_of_def control_payload_def resolve_routing_context_def directory_resolved_def resolve_directory_of_def
    parse_lifecycle_def lifecycle_fields_def parse_message_id_def own_fork_def log_shell_audit_def is_one_of_def
    is_method_via via_fields
  by (rule refl)+

lemma nonempty_stripD: "nonempty_strip s = Some t \<Longrightarrow> t \<noteq> []"
  by (auto simp: nonempty_strip_def Let_def split: if_splits)

lemma required_string_full: "required_string params field = Inr s \<Longrightarrow> s \<noteq> []"
  by (auto simp: required_string_def bind_eq_Some_conv dest: nonempty_stripD split: option.splits)

lemma to_claim_full: "i \<noteq> [] \<Longrightarrow> sid \<noteq> [] \<Longrightarrow> to_claim (Some i) (Some sid) = Some (i, sid)"
  by (simp add: to_claim_def nonempty_def)

lemma control_cases:
  assumes sid: "required_string (cl_params call) ''session_id'' = Inr sid"
  obtains (refused) e a where "\<And>tr. handle_session_control_request (via tr X) call st = (Refusal e, st\<lparr>hd_audit := a\<rparr>)"
    | (run) request route where
      "\<And>tr. handle_session_control_request (via tr X) call st = control_run (via tr X) call sid request route st"
proof -
  have keep: "st\<lparr>hd_audit := hd_audit st\<rparr> = st" by simp
  have audit: "log_shell_audit X call sid v st = st\<lparr>hd_audit := hd_audit (log_shell_audit X call sid v st)\<rparr>" for v
    by (simp add: log_shell_audit_def)
  let ?u = "reject_unknown_fields (cl_params call) [''session_id'', ''request'', ''metadata''] [] ''Unsupported fields''"
  consider e where "?u = Inl e" | e where "?u = Inr ()" "control_request (cl_params call) = Inl e"
    | q where "?u = Inr ()" "control_request (cl_params call) = Inr q" by (cases ?u; cases "control_request (cl_params call)") auto
  then show ?thesis
  proof cases
    case 3
    let ?stop = "is_method X call ''shell'' \<and> \<not> request_has_capability (cl_principal call) CAPABILITY_SESSION_SHELL"
    consider ?stop | e where "\<not> ?stop" "control_payload X call q = Inl e"
      | e where "\<not> ?stop" "control_payload X call q = Inr ()" "resolve_routing_context X (cl_params call) None = Inl e"
      | route where "\<not> ?stop" "control_payload X call q = Inr ()" "resolve_routing_context X (cl_params call) None = Inr route"
      by (cases "control_payload X call q"; cases "resolve_routing_context X (cl_params call) None") auto
    then show ?thesis
    proof cases
      case 1
      with 3 sid show ?thesis
        by (intro refused [of "authorization_forbidden_error
              (error_code SESSION_QUERY_ERROR_BUSINESS_CODES ''AUTHORIZATION_FORBIDDEN'')
              (cl_method call) CAPABILITY_SESSION_SHELL (user_credential_id call)"
            "hd_audit (log_shell_audit X call sid ''authorization_forbidden'' st)"])
          (simp add: handle_session_control_request_def checked_def audit [symmetric])
    next
      case (2 e)
      with 3 sid show ?thesis
        by (intro refused [of e "hd_audit st"]) (auto simp: handle_session_control_request_def Let_def checked_def keep)
    next
      case (3 e)
      with \<open>?u = Inr ()\<close> \<open>control_request (cl_params call) = Inr q\<close> sid show ?thesis
        by (intro refused [of e "hd_audit st"]) (auto simp: handle_session_control_request_def Let_def checked_def keep)
    next
      case (4 route)
      with 3 sid show ?thesis
        by (intro run [of q route]) (auto simp: handle_session_control_request_def Let_def checked_def)
    qed
  next
    case (1 e)
    with sid show ?thesis
      by (intro refused [of e "hd_audit st"]) (simp add: handle_session_control_request_def Let_def checked_def keep)
  next
    case (2 e)
    with sid show ?thesis
      by (intro refused [of e "hd_audit st"]) (simp add: handle_session_control_request_def Let_def checked_def keep)
  qed
qed

lemma parsed_session:
  assumes "parse_lifecycle X call = Inr P" "is_one_of X call MUTATING_KEYS"
    and "required_string (cl_params call) ''session_id'' = Inr sid"
  shows "lp_session_id P = Some sid"
proof -
  have "is_one_of X call ITEM_KEYS" using assms(2) by (auto simp: is_one_of_def ITEM_KEYS_def)
  with assms(1,3) show ?thesis by (auto simp: parse_lifecycle_def Let_def)
qed

lemma lifecycle_cases:
  obtains (refused) e where "\<And>tr. handle_session_lifecycle_request (via tr X) call st = (Refusal e, st)"
    | (run) P route where "parse_lifecycle X call = Inr P"
      "\<And>tr. handle_session_lifecycle_request (via tr X) call st = lifecycle_run (via tr X) call P route st"
proof (cases "parse_lifecycle X call")
  case (Inl e)
  then show ?thesis by (intro refused) (simp add: handle_session_lifecycle_request_def checked_def)
next
  case (Inr P)
  show ?thesis
  proof (cases "resolve_routing_context X (cl_params call) (lp_directory P)")
    case (Inl e)
    with Inr show ?thesis by (intro refused) (simp add: handle_session_lifecycle_request_def checked_def)
  next
    case (Inr route)
    with \<open>parse_lifecycle X call = Inr P\<close> show ?thesis
      by (intro run) (simp_all add: handle_session_lifecycle_request_def checked_def)
  qed
qed

lemma call_upstream_sessions: "hd_sessions (snd (call_upstream X act read st)) = rc_meanwhile X (hd_sessions st)"
  by (simp add: call_upstream_def Let_def split: prod.splits sum.splits)

lemma control_action_sessions: "hd_sessions (snd (control_action X call sid request route st)) = rc_meanwhile X (hd_sessions st)"
  by (simp add: control_action_def call_upstream_sessions split: prod.splits)

lemma lifecycle_action_sessions:
  "hd_sessions (snd (lifecycle_action X call P route st)) \<in> {rc_meanwhile X (hd_sessions st), hd_sessions st}"
  by (simp add: lifecycle_action_def Let_def call_upstream_sessions)

lemma reply_of_Result: "fst (reply_of F r) = Result v \<Longrightarrow> fst r = Inr v"
  by (auto simp: reply_of_def split: sum.splits)

context session_repository
begin

lemma handlers_refuse:
  assumes X: "rc_sessions X = R" and inv: "inv (rc_now X) (hd_sessions st)"
    and who: "user_identity call = Some i" "i \<noteq> []" "required_string (cl_params call) ''session_id'' = Inr sid"
    and mut: "mutating h X call" and ref: "refused (rc_now X) (hd_sessions st) i sid"
  shows "\<exists>e st'. (\<forall>tr. extension_handler h (via tr X) call st = (Refusal e, st')) \<and>
    hd_client st' = hd_client st \<and> owner (rc_now X) (hd_sessions st') = owner (rc_now X) (hd_sessions st)"
proof -
  note claim = to_claim_full [OF who(2) required_string_full [OF who(3)]]
  let ?s' = "snd (claim_preferred_session R (rc_now X) i sid (hd_sessions st))"
  note guard = guard_everywhere [OF X inv ref]
  show ?thesis
  proof (cases "h = SessionControl")
    case True
    from who(3) show ?thesis
    proof (cases rule: control_cases [where X = X and st = st])
      case (refused e a)
      with True show ?thesis by (intro exI [of _ e] exI [of _ "st\<lparr>hd_audit := a\<rparr>"]) (simp add: extension_handler_def)
    next
      case (run request route)
      have "extension_handler h (via tr X) call st =
          (Refusal (upstream_exception_error (session_failure call (Some sid)) (AccessDenied (PermissionError sid))),
           log_shell_audit X call sid (shell_audit_outcome (AccessDenied (PermissionError sid))) (st\<lparr>hd_sessions := ?s'\<rparr>))" for tr
        using True run claim by (simp add: guard extension_handler_def control_run_def reply_of_def who(1))
      with guard(2) show ?thesis by (intro exI conjI allI) (assumption, simp_all add: log_shell_audit_def)
    qed
  next
    case False
    with mut have h: "h = SessionLifecycle" "is_one_of X call MUTATING_KEYS" by (auto simp: mutating_def)
    show ?thesis
    proof (cases rule: lifecycle_cases [of X call st])
      case (refused e)
      with h show ?thesis by (intro exI [of _ e] exI [of _ st]) (simp add: extension_handler_def)
    next
      case (run P route)
      note sid = parsed_session [OF run(1) h(2) who(3)]
      have "extension_handler h (via tr X) call st =
          (Refusal (upstream_exception_error (session_failure call (Some sid)) (AccessDenied (PermissionError sid))),
           st\<lparr>hd_sessions := ?s'\<rparr>)" for tr
        using h run(2) claim by (simp add: guard extension_handler_def lifecycle_run_def reply_of_def who(1) sid)
      with guard(2) show ?thesis by (intro exI conjI allI) (assumption, simp_all)
    qed
  qed
qed

lemma handlers_settle:
  assumes X: "rc_sessions X = R" "rc_now X \<le> rc_later X"
    and mw: "\<And>q. inv (rc_now X) q \<Longrightarrow> inv (rc_later X) (rc_meanwhile X q)"
    and inv: "inv (rc_now X) (hd_sessions st)"
    and who: "user_identity call = Some i" "i \<noteq> []" "required_string (cl_params call) ''session_id'' = Inr sid"
    and mut: "mutating h X call"
    and free: "owner (rc_now X) (hd_sessions st) sid \<noteq> Some i" "claim (rc_now X) (hd_sessions st) sid \<noteq> Some i"
    and run: "extension_handler h X call st = (reply, st')" and t: "rc_later X \<le> t"
  shows "claim t (hd_sessions st') sid \<noteq> Some i \<and>
    (\<forall>v. reply = Result v \<longrightarrow> owner (rc_later X) (hd_sessions st') sid = Some i \<or>
       forgets \<and> owner (rc_later X) (hd_sessions st') sid = None)"
proof -
  have self: "via (rc_transport X) X = X" by simp
  note claim = to_claim_full [OF who(2) required_string_full [OF who(3)]]
  have still: ?thesis if "hd_sessions st' = hd_sessions st" "\<nexists>v. reply = Result v"
    using that free(2) claim_fades [of "rc_now X" t "hd_sessions st" sid i] X(2) t by auto
  show ?thesis
  proof (cases "h = SessionControl")
    case True
    from who(3) show ?thesis
    proof (cases rule: control_cases [where X = X and st = st])
      case (refused e a)
      from refused [of "rc_transport X"] True run show ?thesis by (intro still) (auto simp: extension_handler_def self)
    next
      case (run request route)
      obtain r st1 where g: "with_session_claim X (Some (i, sid)) (control_action X call sid request route) (\<lambda>_ s. (Inr (), s)) st = (r, st1)"
        by fastforce
      from run [of "rc_transport X"] True assms(11) g claim
      have out: "reply_of (session_failure call (Some sid))
          (r, log_shell_audit X call sid (case r of Inl e \<Rightarrow> shell_audit_outcome e | Inr _ \<Rightarrow> ''success'') st1) = (reply, st')"
        by (simp add: extension_handler_def self control_run_def who(1))
      then have s: "hd_sessions st' = hd_sessions st1" by (auto simp: reply_of_def log_shell_audit_def)
      have "claim t (hd_sessions st1) sid \<noteq> Some i \<and>
          (\<forall>v. r = Inr v \<longrightarrow> owner (rc_later X) (hd_sessions st1) sid = Some i \<or>
             forgets \<and> owner (rc_later X) (hd_sessions st1) sid = None)"
        by (rule guard_settles [OF X inv _ _ _ free g t]) (simp_all add: control_action_sessions mw)
      with s reply_of_Result [of "session_failure call (Some sid)" "(r, _)"] out show ?thesis by (metis fst_conv)
    qed
  next
    case False
    with mut have h: "h = SessionLifecycle" "is_one_of X call MUTATING_KEYS" by (auto simp: mutating_def)
    show ?thesis
    proof (cases rule: lifecycle_cases [of X call st])
      case (refused e)
      from refused [of "rc_transport X"] h run show ?thesis by (intro still) (auto simp: extension_handler_def self)
    next
      case (run P route)
      note sid = parsed_session [OF run(1) h(2) who(3)]
      obtain r st1 where g: "with_session_claim X (Some (i, sid)) (lifecycle_action X call P route) (own_fork X call) st = (r, st1)"
        by fastforce
      from run(2) [of "rc_transport X"] h assms(11) g claim sid
      have out: "reply_of (session_failure call (Some sid)) (map_sum id fst r, st1) = (reply, st')"
        by (simp add: extension_handler_def self lifecycle_run_def who(1))
      then have s: "hd_sessions st' = hd_sessions st1" by (auto simp: reply_of_def)
      have fork: "own_fork X call v q = (Inr (), q) \<or>
          (\<exists>f x q'. finalize_session_claim R (rc_later X) i f q = (x, q') \<and> own_fork X call v q = (x, q'))" for v q
        using X(1) who
        by (cases "snd v"; cases "finalize_session_claim R (rc_later X) i (the (snd v)) q") (auto simp: own_fork_def nonempty_def)
      have "claim t (hd_sessions st1) sid \<noteq> Some i \<and>
          (\<forall>v. r = Inr v \<longrightarrow> owner (rc_later X) (hd_sessions st1) sid = Some i \<or>
             forgets \<and> owner (rc_later X) (hd_sessions st1) sid = None)"
      proof (rule guard_settles [OF X inv _ _ _ free g t])
        show "inv (rc_later X) (hd_sessions (snd (lifecycle_action X call P route q)))"
          if "inv (rc_now X) (hd_sessions q)" for q
          using lifecycle_action_sessions [of X call P route q] mw [OF that] inv_later [OF that X(2)] by auto
        show "claim t (snd (own_fork X call v q)) sid \<noteq> Some i"
          if "inv (rc_later X) q" "claim t q sid \<noteq> Some i" for v q
          using fork [of v q] finalize_leaves_no_claim(1) [OF that(1) _ t _] that(2) by auto
        show "owner (rc_later X) (snd (own_fork X call v q)) sid = Some i \<or>
            forgets \<and> owner (rc_later X) (snd (own_fork X call v q)) sid = None"
          if "inv (rc_later X) q" "owner (rc_later X) q sid = Some i" for v q
          using fork [of v q]
        proof (elim disjE exE conjE)
          fix f x q' assume f: "finalize_session_claim R (rc_later X) i f q = (x, q')" "own_fork X call v q = (x, q')"
          show ?thesis
            using finalize_spec(4,7) [OF that(1) f(1)] finalize_spec(5) [OF that(1) f(1), of sid] that(2) f(2)
            by (cases "x = Inr ()"; cases "f = sid") auto
        qed (use that in simp)
      qed
      moreover have "reply = Result v \<Longrightarrow> \<exists>u. r = Inr u" for v
        using reply_of_Result [of "session_failure call (Some sid)" "(map_sum id fst r, st1)" v] out
        by (cases r) auto
      ultimately show ?thesis using s by auto
    qed
  qed
qed

end

section \<open>The interface over the database\<close>

text \<open>C2. A session another identity owns, or has claimed, is out of reach: a call that would change it or work in
  it is refused whatever OpenCode would answer, OpenCode is not asked, and no owner changes.\<close>

theorem foreign_sessions_are_refused:
  assumes "rc_sessions X = db_session_repo_ops" "ds_inv (rc_now X) (hd_sessions st)"
    and "user_identity call = Some i" "i \<noteq> []" "required_string (cl_params call) ''session_id'' = Inr sid"
    and "mutating h X call"
    and "ds_owner (rc_now X) (hd_sessions st) sid = Some a \<or> ds_claim (rc_now X) (hd_sessions st) sid = Some a"
    and "a \<noteq> []" "a \<noteq> i"
  shows "\<exists>e st'. (\<forall>tr. extension_handler h (via tr X) call st = (Refusal e, st')) \<and>
    hd_client st' = hd_client st \<and> ds_owner (rc_now X) (hd_sessions st') = ds_owner (rc_now X) (hd_sessions st)"
  using assms(7-9) by (intro db.handlers_refuse [OF assms(1-6)]) (auto simp: db.refused_def is_set_def)

text \<open>C8. A call that works in a session settles its claim: when it ends the caller holds no claim on the session any
  more, and when it succeeds the caller owns the session. Other requests may change the table meanwhile.\<close>

theorem calls_settle_their_claim:
  assumes "rc_sessions X = db_session_repo_ops" "rc_now X \<le> rc_later X"
    and "\<And>q. ds_inv (rc_now X) q \<Longrightarrow> ds_inv (rc_later X) (rc_meanwhile X q)"
    and "ds_inv (rc_now X) (hd_sessions st)"
    and "user_identity call = Some i" "i \<noteq> []" "required_string (cl_params call) ''session_id'' = Inr sid"
    and "mutating h X call"
    and "ds_owner (rc_now X) (hd_sessions st) sid \<noteq> Some i" "ds_claim (rc_now X) (hd_sessions st) sid \<noteq> Some i"
    and "extension_handler h X call st = (reply, st')" "rc_later X \<le> t"
  shows "ds_claim t (hd_sessions st') sid \<noteq> Some i \<and>
    (\<forall>v. reply = Result v \<longrightarrow> ds_owner (rc_later X) (hd_sessions st') sid = Some i)"
  using db.handlers_settle [OF assms] by auto

text \<open>A deployment for the examples: everything allowed, a database without sessions, nothing else going on.\<close>

definition sample_context :: "(db_session_repo, mem_interrupt_repo) rpc_context" where
  "sample_context =
     \<lparr>rc_methods = chosen True True, rc_directory_resolver = (\<lambda>_. Inr ''/work''),
      rc_sessions = db_session_repo_ops, rc_interrupts = mem_interrupt_repo_ops,
      rc_transport = (\<lambda>_. Inr \<lparr>hs_status = 204, hs_headers = [], hs_text = []\<rparr>),
      rc_meanwhile = id, rc_interrupts_meanwhile = id, rc_now = 1, rc_later = 2, rc_to_dict = (\<lambda>m. PStr (si_id m)),
      rc_float = (\<lambda>_. ''0.5'')\<rparr>"

definition sample_client :: upstream_client where
  "sample_client =
     \<lparr>uc_directory = None, uc_agent = None, uc_system = None, uc_variant = None,
      uc_request_budget = budget_init ''request'' 0, uc_stream_budget = budget_init ''stream'' 0, uc_trace_headers = []\<rparr>"

definition sample_state :: "(string \<times> string) list \<Rightarrow> (db_session_repo, mem_interrupt_repo) handler_state" where
  "sample_state owners =
     \<lparr>hd_client = sample_client, hd_sessions = (db_session_init 30)\<lparr>ds_session_owners := owners\<rparr>,
      hd_interrupts = mem_interrupt_init 60 600, hd_audit = []\<rparr>"

definition sample_principal :: "string \<Rightarrow> authenticated_principal" where
  "sample_principal name =
     \<lparr>ap_identity = name, ap_auth_scheme = ''basic'', ap_capabilities = [CAPABILITY_SESSION_SHELL], ap_credential_id = None\<rparr>"

definition sample_call :: "string \<Rightarrow> string \<Rightarrow> mapping \<Rightarrow> rpc_call" where
  "sample_call name method params =
     \<lparr>cl_method = method, cl_params = params, cl_principal = Some (sample_principal name),
      cl_task_id = None, cl_context_id = None\<rparr>"

definition shell_params :: mapping where
  "shell_params =
     [(''session_id'', PStr ''ses1''),
      (''request'', PDict [(''agent'', PStr ''build''), (''command'', PStr ''ls'')])]"

lemma shell_session: "required_string shell_params ''session_id'' = Inr ''ses1''"
  by code_simp

lemma sample_fields:
  "user_identity (sample_call name method params) = Some name" "cl_params (sample_call name method params) = params"
  "rc_sessions sample_context = db_session_repo_ops" "rc_now sample_context = 1" "rc_later sample_context = 2"
  "rc_meanwhile sample_context = id"
  "ds_inv t (hd_sessions (sample_state owners)) \<longleftrightarrow> wf_dict owners" "ds_claim t (hd_sessions (sample_state owners)) sid = None"
  "ds_owner t (hd_sessions (sample_state owners)) sid = map_of owners sid"
  by (simp_all add: user_identity_def sample_call_def sample_principal_def sample_context_def sample_state_def
      ds_inv_def ds_owner_def ds_claim_def db_session_init_def)

theorem foreign_sessions_are_refused_witness:
  "\<exists>e st'. (\<forall>tr. extension_handler SessionControl (via tr sample_context)
       (sample_call ''bob'' ''opencode.sessions.shell'' shell_params) (sample_state [(''ses1'', ''alice'')]) = (Refusal e, st')) \<and>
     hd_client st' = sample_client \<and> ds_owner 1 (hd_sessions st') ''ses1'' = Some ''alice''"
  using foreign_sessions_are_refused [of sample_context "sample_state [(''ses1'', ''alice'')]"
      "sample_call ''bob'' ''opencode.sessions.shell'' shell_params" "''bob''" "''ses1''" SessionControl "''alice''"]
  by (auto simp: sample_fields shell_session mutating_def) (simp add: sample_state_def)

theorem calls_settle_their_claim_witness:
  "ds_claim 2 (hd_sessions (snd (extension_handler SessionControl sample_context
     (sample_call ''alice'' ''opencode.sessions.prompt_async'' shell_params) (sample_state [])))) ''ses1'' \<noteq> Some ''alice''"
  by (rule calls_settle_their_claim [of sample_context "sample_state []"
      "sample_call ''alice'' ''opencode.sessions.prompt_async'' shell_params" "''alice''" "''ses1''" SessionControl,
      OF _ _ _ _ _ _ _ _ _ _ prod.collapse [symmetric], THEN conjunct1])
    (simp_all add: sample_fields shell_session mutating_def, simp add: ds_inv_def)

definition sample_answer :: "int \<Rightarrow> string \<Rightarrow> transport" where
  "sample_answer status body = (\<lambda>_. Inr \<lparr>hs_status = status, hs_headers = [], hs_text = body\<rparr>)"

definition sample_application :: "method_registry \<Rightarrow> base_request rpc_application" where
  "sample_application R =
     \<lparr>ra_sdk =
        \<lparr>sk_validate = (\<lambda>v. case v of
            PDict d \<Rightarrow> (case dget d ''method'' of
              PStr m \<Rightarrow> Some \<lparr>br_method = m, br_params = as_mapping (dget d ''params''), br_id = dget d ''id''\<rparr> | _ \<Rightarrow> None)
          | _ \<Rightarrow> None),
         sk_fallback = (\<lambda>_. PNone), sk_has_model = (\<lambda>_. False), sk_parse = (\<lambda>_ _. Inl ''no model''), sk_message = (\<lambda>_. None),
         sk_stream = (\<lambda>_ _. Inr ()), sk_call = (\<lambda>_ _. Inr PNone), sk_push_message = ''no push'', sk_codes = (\<lambda>_. Some (-32004))\<rparr>,
      ra_registry = R, ra_supported_methods = [], ra_extended_card = None\<rparr>"

definition sample_http :: rpc_http_request where
  "sample_http =
     \<lparr>hq_body = Some (PDict [(''method'', PStr ''opencode.sessions.shell''), (''params'', PDict shell_params), (''id'', PInt 1)]),
      hq_extensions = [SESSION_MANAGEMENT_EXTENSION_URI], hq_principal = Some (sample_principal ''alice''),
      hq_task_id = None, hq_context_id = None\<rparr>"

definition open_policy :: sandbox_policy where
  "open_policy =
     \<lparr>sp_workspace_root = [''work''], sp_allow_directory_override = True, sp_sandbox_mode = ''workspace-write'',
      sp_filesystem_scope = ''workspace'', sp_writable_roots = [], sp_write_access_scope = ''workspace''\<rparr>"

lemma shell_outcomes_differ:
  "hd_audit (snd (handle_session_control_request (via (sample_answer 500 []) sample_context)
     (sample_call ''alice'' ''opencode.sessions.shell'' shell_params) (sample_state []))) \<noteq>
   hd_audit (snd (handle_session_control_request (via (sample_answer 404 []) sample_context)
     (sample_call ''alice'' ''opencode.sessions.shell'' shell_params) (sample_state [])))"
  by code_simp

lemma sample_base: "base_request_of (sample_application R) sample_http =
    Some (PDict [(''method'', PStr ''opencode.sessions.shell''), (''params'', PDict shell_params), (''id'', PInt 1)],
      \<lparr>br_method = ''opencode.sessions.shell'', br_params = Some shell_params, br_id = PInt 1\<rparr>)"
  by (simp add: base_request_of_def sample_http_def sample_application_def dget_def)

lemma sample_registry: "ra_registry (sample_application R) = R"
  by (simp add: sample_application_def)


end
