(* ===== verification/Rpc_Effects.thy ===== *)
theory Rpc_Effects
  imports Rpc_Safety
begin

text \<open>
  More on the JSON-RPC interface: which directories it sends to OpenCode, who can answer an interrupt, and how
  failures of OpenCode come out.
\<close>

section \<open>Directories\<close>

text \<open>
  A request stays within a set of directories; an action asks only such requests when its outcome does not
  depend on what a transport makes of others.
\<close>

definition param_within :: "string set \<Rightarrow> (string \<times> string) list \<Rightarrow> bool" where
  "param_within D params \<longleftrightarrow> (\<forall>d. map_of params ''directory'' = Some d \<longrightarrow> d \<in> D)"

definition same_within :: "string set \<Rightarrow> transport \<Rightarrow> transport \<Rightarrow> bool" where
  "same_within D tr tr' \<longleftrightarrow> (\<forall>rq. param_within D (hr_params rq) \<longrightarrow> tr rq = tr' rq)"

definition route_within :: "string set \<Rightarrow> string option \<times> string option \<Rightarrow> bool" where
  "route_within D route \<longleftrightarrow> (\<forall>c. param_within D (query_params (fst route) (snd route) c))"

lemma json_within:
  assumes "same_within D tr tr'" "param_within D params"
  shows "get_json path endpoint params tr c = get_json path endpoint params tr' c"
    and "post_json path endpoint params body tm tr c = post_json path endpoint params body tm tr' c"
    and "delete_json path endpoint params tr c = delete_json path endpoint params tr' c"
    and "post_boolean path endpoint params body tm tr c = post_boolean path endpoint params body tm tr' c"
    and "exchange endpoint (http verb path params body tm c) accept tr c = exchange endpoint (http verb path params body tm c) accept tr' c"
proof -
  have same: "tr (http v p params b m c) = tr' (http v p params b m c)" for v p b m
    using assms by (simp add: same_within_def http_def)
  show "get_json path endpoint params tr c = get_json path endpoint params tr' c"
    "post_json path endpoint params body tm tr c = post_json path endpoint params body tm tr' c"
    "delete_json path endpoint params tr c = delete_json path endpoint params tr' c"
    "post_boolean path endpoint params body tm tr c = post_boolean path endpoint params body tm tr' c"
    "exchange endpoint (http verb path params body tm c) accept tr c =
      exchange endpoint (http verb path params body tm c) accept tr' c"
    unfolding get_json_def post_json_def delete_json_def post_boolean_def exchange_def same by (rule refl)+
qed

lemma merge_params_within:
  assumes "route_within D (d, w)"
  shows "param_within D (merge_params fr extra d w c)"
proof -
  have "map_of (fold (\<lambda>(key, value) params. if value = PNone \<or> key \<in> {''directory'', ''workspace''} then params
      else dset key (py_str fr value) params) xs ps) ''directory'' = map_of ps ''directory''" for xs ps
    by (induction xs arbitrary: ps) (auto simp: case_prod_beta)
  then show ?thesis
    using assms by (simp add: merge_params_def param_within_def route_within_def)
qed

definition asks_within :: "string set \<Rightarrow> 'a action \<Rightarrow> bool" where
  "asks_within D act \<longleftrightarrow> (\<forall>tr tr' c. same_within D tr tr' \<longrightarrow> act tr c = act tr' c)"

text \<open>Every action of the handlers asks within the route it is given.\<close>

lemma asks_route:
  assumes "route_within D (d, w)"
  shows "asks_within D (session_status d w)" "asks_within D (uc_get_session sid d w)"
    "asks_within D (list_child_sessions sid d w)" "asks_within D (get_session_todo sid d w)"
    "asks_within D (get_session_diff fr sid extra d w)" "asks_within D (get_message sid mid d w)"
    "asks_within D (fork_session sid request d w)" "asks_within D (share_session sid d w)"
    "asks_within D (unshare_session sid d w)" "asks_within D (summarize_session sid request d w)"
    "asks_within D (revert_session sid q d w)" "asks_within D (unrevert_session sid d w)"
    "asks_within D (session_prompt_async sid q d w)" "asks_within D (session_command sid q d w)"
    "asks_within D (session_shell sid q d w)" "asks_within D (list_sessions fr extra d w)"
    "asks_within D (list_provider_catalog d w)"
proof -
  have q: "param_within D (query_params d w c)" for c using assms by (simp add: route_within_def)
  note m = merge_params_within [OF assms]
  show "asks_within D (session_status d w)" "asks_within D (uc_get_session sid d w)"
    "asks_within D (list_child_sessions sid d w)" "asks_within D (get_session_todo sid d w)"
    "asks_within D (get_session_diff fr sid extra d w)" "asks_within D (get_message sid mid d w)"
    by (simp_all add: asks_within_def session_status_def uc_get_session_def list_child_sessions_def get_session_todo_def
        get_session_diff_def get_message_def json_within(1) [OF _ q] json_within(1) [OF _ m])
  show "asks_within D (fork_session sid request d w)" "asks_within D (share_session sid d w)"
    "asks_within D (unshare_session sid d w)" "asks_within D (summarize_session sid request d w)"
    "asks_within D (revert_session sid q d w)" "asks_within D (unrevert_session sid d w)"
    by (simp_all add: asks_within_def fork_session_def share_session_def unshare_session_def summarize_session_def
        revert_session_def unrevert_session_def json_within(2-4) [OF _ q])
  show "asks_within D (session_prompt_async sid q d w)" "asks_within D (session_command sid q d w)"
    "asks_within D (session_shell sid q d w)" "asks_within D (list_sessions fr extra d w)"
    "asks_within D (list_provider_catalog d w)"
    by (simp_all add: asks_within_def session_prompt_async_def session_command_def session_shell_def list_sessions_def
        list_provider_catalog_def json_within(1,2,5) [OF _ q] json_within(1) [OF _ m] Let_def)
qed

lemma call_within:
  "asks_within D act \<Longrightarrow> same_within D tr tr' \<Longrightarrow> call_upstream (via tr X) act read st = call_upstream (via tr' X) act read st"
  by (simp add: call_upstream_def asks_within_def)

text \<open>A route the handlers work out is within what the resolver of directories allows.\<close>

lemma directory_resolvedD: "directory_resolved X a field = Inr d \<Longrightarrow> rc_directory_resolver X a = Inr d"
  by (auto simp: directory_resolved_def split: sum.splits value_error.splits)

lemma resolved_route:
  assumes D: "\<And>asked d. rc_directory_resolver X asked = Inr d \<Longrightarrow> d \<in> D \<and> d \<noteq> []"
    and run: "resolve_routing_context X params asked = Inr route"
  shows "route_within D route"
proof -
  have dir: "route_within D (Some d, None)" if "rc_directory_resolver X a = Inr d" for a d
    using D [OF that] by (simp add: route_within_def param_within_def query_params_def nonempty_def)
  have ws: "route_within D (None, Some w)" if "extract_workspace_id_from_metadata params = Inr (Some w)" for w
  proof -
    from that obtain v where v: "(case v of PNone \<Rightarrow> Inr None
       | PDict w \<Rightarrow>
           (case extract_namespaced_value (Some [(''workspace'', PDict w)]) ''workspace'' [''id''] of
              PNone \<Rightarrow> Inr None
            | PStr s \<Rightarrow> Inr (nonempty_strip s)
            | _ \<Rightarrow> Inl (invalid_field_error ''metadata.opencode.workspace.id''
                     ''metadata.opencode.workspace.id must be a string''))
       | _ \<Rightarrow> Inl (invalid_field_error ''metadata.opencode.workspace'' ''metadata.opencode.workspace must be an object''))
       = Inr (Some w)"
      unfolding extract_workspace_id_from_metadata_def then_with_Inr by blast
    have "\<exists>s. nonempty_strip s = Some w"
    proof (cases v)
      case (PDict d)
      with v show ?thesis
        by (cases "extract_namespaced_value (Some [(''workspace'', PDict d)]) ''workspace'' [''id'']") auto
    qed (use v in auto)
    then have "nonempty_strip w = Some w"
      using nonempty_strip_fixed by (metis nonempty_strip_def)
    then show ?thesis by (simp add: route_within_def param_within_def query_params_def)
  qed
  show ?thesis
    using run dir ws
    by (auto simp: resolve_routing_context_def resolve_directory_of_def split: option.splits dest!: directory_resolvedD)
qed

lemma via_outside:
  "with_session_claim (via tr X) = with_session_claim X"
  "message_item (via tr X) = message_item X" "task_of (via tr X) = task_of X" "children_of (via tr X) = children_of X"
  "message_of (via tr X) = message_of X" "provider_filter (via tr X) = provider_filter X"
  "provider_items (via tr X) = provider_items X" "session_items (via tr X) = session_items X"
  unfolding with_session_claim_def claim_enter_def claim_finalize_def claim_exit_def message_item_def
    task_of_def children_of_def message_of_def provider_filter_def provider_items_def session_items_def
    via_fields is_method_via
  by (rule refl)+

lemma control_within:
  assumes "route_within D route" "same_within D tr tr'"
  shows "control_run (via tr X) call sid request route = control_run (via tr' X) call sid request route"
proof -
  obtain d w where route: "route = (d, w)" by (cases route)
  note asks = asks_route [OF assms(1) [unfolded route]]
  have "control_action (via tr X) call sid request route st = control_action (via tr' X) call sid request route st" for st
    by (simp add: control_action_def route via_outside call_within [OF asks(13) assms(2)]
        call_within [OF asks(14) assms(2)] call_within [OF asks(15) assms(2)])
  then have "control_action (via tr X) call sid request route = control_action (via tr' X) call sid request route" by (rule ext)
  then show ?thesis by (intro ext) (simp add: control_run_def via_outside)
qed

lemma lifecycle_within:
  assumes "route_within D route" "same_within D tr tr'"
  shows "lifecycle_run (via tr X) call P route = lifecycle_run (via tr' X) call P route"
proof -
  obtain d w where route: "route = (d, w)" by (cases route)
  note asks = asks_route [OF assms(1) [unfolded route]]
  note calls = asks [THEN call_within, OF assms(2)]
  have "lifecycle_action (via tr X) call P route st = lifecycle_action (via tr' X) call P route st" for st
    unfolding lifecycle_action_def Let_def is_method_via via_outside via_fields route fst_conv snd_conv calls(1-12)
    by (simp add: calls)
  then have "lifecycle_action (via tr X) call P route = lifecycle_action (via tr' X) call P route" by (rule ext)
  then show ?thesis by (intro ext) (simp add: lifecycle_run_def via_outside)
qed

lemma checked_same: "(\<And>x. r = Inr x \<Longrightarrow> f x = g x) \<Longrightarrow> checked r f = checked r g"
  by (rule ext) (auto simp: checked_def split: sum.splits)

text \<open>The handlers that send a directory to OpenCode work it out; an answer to an interrupt passes it on as it came.\<close>

definition routed :: "handler \<Rightarrow> ('s, 'i) rpc_context \<Rightarrow> rpc_call \<Rightarrow> bool" where
  "routed h X call \<longleftrightarrow> h \<in> {SessionControl, SessionLifecycle, ProviderDiscovery} \<or>
     h = SessionListing \<and> is_method X call ''list_sessions''"

lemma handlers_within:
  assumes h: "routed h X call" and D: "\<And>asked d. rc_directory_resolver X asked = Inr d \<Longrightarrow> d \<in> D \<and> d \<noteq> []"
    and same: "same_within D tr tr'"
  shows "extension_handler h (via tr X) call = extension_handler h (via tr' X) call"
proof -
  have route: "route_within D r" if "resolve_routing_context X params asked = Inr r" for params asked r
    using resolved_route [of X D params asked r] D that by blast
  consider "h = SessionControl" | "h = SessionLifecycle" | "h = ProviderDiscovery"
    | "h = SessionListing" "is_method X call ''list_sessions''"
    using h by (auto simp: routed_def)
  then show ?thesis
  proof cases
    case 1
    have run: "checked (resolve_routing_context X (cl_params call) None) (control_run (via tr X) call sid request) =
        checked (resolve_routing_context X (cl_params call) None) (control_run (via tr' X) call sid request)" for sid request
      by (rule checked_same) (rule control_within [OF route same])
    show ?thesis
      unfolding 1 extension_handler_def handler.case handle_session_control_request_def is_method_via via_parts Let_def run
      by (rule refl)
  next
    case 2
    have run: "checked (resolve_routing_context X (cl_params call) (lp_directory P)) (lifecycle_run (via tr X) call P) =
        checked (resolve_routing_context X (cl_params call) (lp_directory P)) (lifecycle_run (via tr' X) call P)" for P
      by (rule checked_same) (rule lifecycle_within [OF route same])
    show ?thesis
      unfolding 2 extension_handler_def handler.case handle_session_lifecycle_request_def via_parts run by (rule refl)
  next
    case 3
    have run: "checked (resolve_routing_context X (cl_params call) None) (\<lambda>(d, w) st.
          read_answer PROVIDER_DISCOVERY_ERROR_BUSINESS_CODES (provider_failure call) (Some (cl_method call))
            ''OpenCode provider discovery returned no payload'' (provider_items X call provider_id)
            (call_upstream (via tr X) (list_provider_catalog d w) Inr st)) =
        checked (resolve_routing_context X (cl_params call) None) (\<lambda>(d, w) st.
          read_answer PROVIDER_DISCOVERY_ERROR_BUSINESS_CODES (provider_failure call) (Some (cl_method call))
            ''OpenCode provider discovery returned no payload'' (provider_items X call provider_id)
            (call_upstream (via tr' X) (list_provider_catalog d w) Inr st))" for provider_id
    proof (rule checked_same)
      fix r assume "resolve_routing_context X (cl_params call) None = Inr r"
      note calls = call_within [OF asks_route(17) [of D "fst r" "snd r", simplified, OF route [OF this]] same]
      show "(\<lambda>(d, w) st. read_answer PROVIDER_DISCOVERY_ERROR_BUSINESS_CODES (provider_failure call) (Some (cl_method call))
            ''OpenCode provider discovery returned no payload'' (provider_items X call provider_id)
            (call_upstream (via tr X) (list_provider_catalog d w) Inr st)) r =
          (\<lambda>(d, w) st. read_answer PROVIDER_DISCOVERY_ERROR_BUSINESS_CODES (provider_failure call) (Some (cl_method call))
            ''OpenCode provider discovery returned no payload'' (provider_items X call provider_id)
            (call_upstream (via tr' X) (list_provider_catalog d w) Inr st)) r"
        by (simp add: case_prod_beta calls)
    qed
    show ?thesis
      unfolding 3 extension_handler_def handler.case handle_provider_discovery_request_def is_method_via via_parts via_outside Let_def run
      by (rule refl)
  next
    case 4
    have run: "checked (resolve_routing_context X params asked) (list_sessions_run (via tr X) query) =
        checked (resolve_routing_context X params asked) (list_sessions_run (via tr' X) query)" for params asked query
    proof (rule checked_same)
      fix r assume "resolve_routing_context X params asked = Inr r"
      note calls = call_within [OF asks_route(16) [of D "fst r" "snd r", simplified, OF route [OF this]] same]
      show "list_sessions_run (via tr X) query r = list_sessions_run (via tr' X) query r"
        by (intro ext) (simp add: list_sessions_run_def via_outside calls via_fields)
    qed
    show ?thesis
      unfolding 4(1) extension_handler_def handler.case handle_session_query_request_def is_method_via via_parts Let_def run
      using 4(2) by simp
  qed
qed

text \<open>The directories of a sandbox policy.\<close>

definition workspace_directories ::
    "(path \<Rightarrow> path) \<Rightarrow> path \<Rightarrow> sandbox_policy \<Rightarrow> string option \<Rightarrow> string set" where
  "workspace_directories resolve cwd P default_directory =
     {path_str (base_directory resolve cwd P default_directory @ rest) |rest.
        \<not> sp_allow_directory_override P \<longrightarrow> rest = []}"

text \<open>C13. The methods on sessions and providers send OpenCode no directory outside the workspace: their outcome does
  not depend on what it would answer to a request with another directory. (Lists of messages and answers to
  interrupts are not among them.)\<close>

theorem calls_stay_in_the_workspace:
  assumes "rc_directory_resolver X = (\<lambda>asked. resolve_directory resolve cwd P (str_or_null asked) default_directory)"
    and "routed h X call"
    and "same_within (workspace_directories resolve cwd P default_directory) tr tr'"
  shows "extension_handler h (via tr X) call st = extension_handler h (via tr' X) call st"
proof -
  have "d \<in> workspace_directories resolve cwd P default_directory \<and> d \<noteq> []"
    if "rc_directory_resolver X asked = Inr d" for asked d
    using directory_is_confined [OF that [unfolded assms(1)]]
    by (auto simp: workspace_directories_def path_str_def)
  from handlers_within [OF assms(2) this assms(3)] show ?thesis by (rule fun_cong)
qed

theorem calls_stay_in_the_workspace_witness:
  "extension_handler SessionControl (via (\<lambda>_. Inl (TransportError ''down'')) (sample_context
       \<lparr>rc_directory_resolver := \<lambda>asked. resolve_directory id [''work''] open_policy (str_or_null asked) None\<rparr>))
     (sample_call ''alice'' ''opencode.sessions.shell'' shell_params) (sample_state []) =
   extension_handler SessionControl (via (\<lambda>rq. if map_of (hr_params rq) ''directory'' = Some ''/etc'' then Inr \<lparr>hs_status = 204, hs_headers = [], hs_text = []\<rparr>
        else Inl (TransportError ''down'')) (sample_context
       \<lparr>rc_directory_resolver := \<lambda>asked. resolve_directory id [''work''] open_policy (str_or_null asked) None\<rparr>))
     (sample_call ''alice'' ''opencode.sessions.shell'' shell_params) (sample_state [])"
proof (rule calls_stay_in_the_workspace)
  show "rc_directory_resolver (sample_context
       \<lparr>rc_directory_resolver := \<lambda>asked. resolve_directory id [''work''] open_policy (str_or_null asked) None\<rparr>) =
     (\<lambda>asked. resolve_directory id [''work''] open_policy (str_or_null asked) None)" by simp
  show "routed SessionControl (sample_context
       \<lparr>rc_directory_resolver := \<lambda>asked. resolve_directory id [''work''] open_policy (str_or_null asked) None\<rparr>)
     (sample_call ''alice'' ''opencode.sessions.shell'' shell_params)" by (simp add: routed_def)
  have base: "base_directory id [''work''] open_policy None = [''work'']" by code_simp
  have "join ''/'' (''work'' # rest) \<noteq> ''etc''" for rest by (cases rest) simp_all
  then have "''/etc'' \<notin> workspace_directories id [''work''] open_policy None"
    by (auto simp: workspace_directories_def path_str_def base dest: sym)
  then show "same_within (workspace_directories id [''work''] open_policy None) (\<lambda>_. Inl (TransportError ''down''))
     (\<lambda>rq. if map_of (hr_params rq) ''directory'' = Some ''/etc'' then Inr \<lparr>hs_status = 204, hs_headers = [], hs_text = []\<rparr>
        else Inl (TransportError ''down''))"
    by (auto simp: same_within_def param_within_def)
qed

section \<open>Answers to interrupts\<close>

lemma required_string_stripped: "required_string params field = Inr s \<Longrightarrow> strip s = s \<and> s \<noteq> []"
  using bind_strip_fixed [of "as_str (dget params field)" s] by (auto simp: required_string_def split: option.splits)

lemma callback_via [simp]:
  "check_binding (via tr X) call = check_binding X call" "callback_fields (via tr X) call = callback_fields X call"
  unfolding check_binding_def callback_fields_def is_method_via by (rule refl)+

lemma callback_refused:
  assumes "required_string (cl_params call) ''request_id'' = Inr rid"
    and "tracker_resolve (client_tracker (rc_interrupts X) (rc_now X)) rid (hd_interrupts st) = (found, s)"
    and "check_binding X call rid found = Inl e"
  shows "\<exists>e st'. (\<forall>tr. handle_interrupt_callback_request (via tr X) call st = (Refusal e, st')) \<and>
    hd_client st' = hd_client st \<and> hd_interrupts st' \<in> {hd_interrupts st, s}"
proof -
  consider e where "extract_directory_from_metadata (cl_params call) = Inl e"
    | d e where "extract_directory_from_metadata (cl_params call) = Inr d" "extract_workspace_id_from_metadata (cl_params call) = Inl e"
    | d w where "extract_directory_from_metadata (cl_params call) = Inr d" "extract_workspace_id_from_metadata (cl_params call) = Inr w"
    by (cases "extract_directory_from_metadata (cl_params call)"; cases "extract_workspace_id_from_metadata (cl_params call)") auto
  then show ?thesis
  proof cases
    case (1 e)
    with assms(1) show ?thesis
      by (intro exI [of _ e] exI [of _ st]) (simp add: handle_interrupt_callback_request_def Let_def checked_def)
  next
    case (2 d e)
    with assms(1) show ?thesis
      by (intro exI [of _ e] exI [of _ st]) (simp add: handle_interrupt_callback_request_def Let_def checked_def)
  next
    case (3 d w)
    with assms show ?thesis
      by (intro exI [of _ e] exI [of _ "st\<lparr>hd_interrupts := s\<rparr>"])
        (simp add: handle_interrupt_callback_request_def Let_def checked_def)
  qed
qed

context interrupt_repository
begin

lemma strangers_refused:
  assumes X: "rc_interrupts X = R" and inv: "inv (hd_interrupts st)"
    and rid: "required_string (cl_params call) ''request_id'' = Inr rid"
    and bound: "active (rc_now X) (hd_interrupts st) rid = Some b"
    and other: "someone_else (user_identity call) (ir_identity b) \<or> someone_else (user_credential_id call) (ir_credential_id b)"
  shows "\<exists>e st'. (\<forall>tr. handle_interrupt_callback_request (via tr X) call st = (Refusal e, st')) \<and>
    hd_client st' = hd_client st \<and> (\<forall>t \<ge> rc_now X. active t (hd_interrupts st') = active t (hd_interrupts st))"
proof -
  obtain x s where r: "resolve_interrupt_request R (rc_now X) rid (hd_interrupts st) = (x, s)" by fastforce
  note cr = client_resolve [OF inv r]
  have "x = Active b" using cr(4) [of b] bound required_string_stripped [OF rid] by simp
  then have found: "tracker_resolve (client_tracker (rc_interrupts X) (rc_now X)) rid (hd_interrupts st) = (Resolution ''active'' (Some b), s)"
    using r X by (simp add: tracker_resolve_def client_tracker_def)
  have "\<exists>e. check_binding X call rid (Resolution ''active'' (Some b)) = Inl e"
    using other by (simp add: check_binding_def Let_def)
  then obtain e where "check_binding X call rid (Resolution ''active'' (Some b)) = Inl e" by blast
  from callback_refused [OF rid found this] obtain e' st' where
    "\<forall>tr. handle_interrupt_callback_request (via tr X) call st = (Refusal e', st')"
    "hd_client st' = hd_client st" "hd_interrupts st' \<in> {hd_interrupts st, s}" by blast
  with cr(3) show ?thesis by auto
qed

lemma discarded: "rc_interrupts X = R \<Longrightarrow> inv (hd_interrupts q) \<Longrightarrow> strip rid = rid \<Longrightarrow> rid \<noteq> [] \<Longrightarrow>
    active t (hd_interrupts (discard_request X rid q)) rid = None"
  using client_discard(3) [of "hd_interrupts q" t rid] by (simp add: discard_request_def tracker_discard_def client_tracker_def)

lemma answered_gone:
  assumes X: "rc_interrupts X = R" and mw: "\<And>q. inv q \<Longrightarrow> inv (rc_interrupts_meanwhile X q)" and inv: "inv (hd_interrupts st)"
    and rid: "required_string (cl_params call) ''request_id'' = Inr rid"
    and run: "handle_interrupt_callback_request X call st = (Result v, st')"
  shows "active t (hd_interrupts st') rid = None"
proof -
  from run rid obtain d w found s where
      s: "tracker_resolve (client_tracker (rc_interrupts X) (rc_now X)) rid (hd_interrupts st) = (found, s)"
    and go: "callback_run X call rid d w (st\<lparr>hd_interrupts := s\<rparr>) = (Result v, st')"
    by (auto simp: handle_interrupt_callback_request_def Let_def checked_def split: sum.splits prod.splits)
  obtain x where "resolve_interrupt_request R (rc_now X) rid (hd_interrupts st) = (x, s)"
    using s X by (auto simp: tracker_resolve_def client_tracker_def split: prod.splits)
  then have inv_s: "inv s" by (rule client_resolve(1) [OF inv])
  from go obtain act :: "bool action" and y q where q: "call_upstream X act Inr (st\<lparr>hd_interrupts := s\<rparr>) = (Inr y, q)" "st' = discard_request X rid q"
    by (auto simp: callback_run_def split: sum.splits prod.splits if_splits)
  then have "inv (hd_interrupts q)"
    using mw [OF inv_s] by (auto simp: call_upstream_def Let_def split: prod.splits sum.splits)
  with discarded [OF X] required_string_stripped [OF rid] show ?thesis by (simp add: q(2))
qed

end


text \<open>An interrupt is answered once: after an answer that went through, the interrupt is no longer pending,
  whatever other requests did to the table meanwhile.\<close>

theorem answered_interrupts_are_gone:
  assumes "rc_interrupts X = mem_interrupt_repo_ops" "\<And>q. mi_inv q \<Longrightarrow> mi_inv (rc_interrupts_meanwhile X q)"
    and "mi_inv (hd_interrupts st)" "required_string (cl_params call) ''request_id'' = Inr rid"
    and "handle_interrupt_callback_request X call st = (Result v, st')"
  shows "mi_active t (hd_interrupts st') rid = None"
  by (rule mem_int.answered_gone [OF assms])

definition pending_state :: "(db_session_repo, mem_interrupt_repo) handler_state" where
  "pending_state = (sample_state [])\<lparr>hd_interrupts :=
     remember_interrupt_request mem_interrupt_repo_ops 1 sample_request (Some 60) (mem_interrupt_init 60 600)\<rparr>"

lemma pending_state_inv: "mi_inv (hd_interrupts pending_state)"
proof -
  have "mi_inv (mem_interrupt_init 60 600)" by (simp add: mem_interrupt_init_def mi_inv_def)
  from mem_int.client_remember(1) [OF this] show ?thesis by (simp add: pending_state_def)
qed

lemma pending_state_active: "map_option ir_identity (mi_active 1 (hd_interrupts pending_state) ''req-1'') = Some (Some ''alice'')"
  by code_simp


theorem answered_interrupts_are_gone_witness:
  "mi_active 5 (hd_interrupts (snd (handle_interrupt_callback_request (via (sample_answer 200 ''true'') sample_context)
     (sample_call ''alice'' ''a2a.interrupt.permission.reply'' [(''request_id'', PStr ''req-1''), (''reply'', PStr ''once'')])
     pending_state))) ''req-1'' = None"
proof -
  let ?p = "[(''request_id'', PStr ''req-1''), (''reply'', PStr ''once'')]"
  let ?c = "sample_call ''alice'' ''a2a.interrupt.permission.reply'' ?p"
  let ?r = "handle_interrupt_callback_request (via (sample_answer 200 ''true'') sample_context) ?c pending_state"
  have rid: "required_string (cl_params ?c) ''request_id'' = Inr ''req-1''" unfolding sample_fields by code_simp
  have "fst ?r = Result (PDict [(''ok'', PBool True), (''request_id'', PStr ''req-1'')])" by code_simp
  then have "?r = (Result (PDict [(''ok'', PBool True), (''request_id'', PStr ''req-1'')]), snd ?r)" by (metis prod.collapse)
  from answered_interrupts_are_gone [OF _ _ pending_state_inv rid this]
  show ?thesis by (simp add: sample_context_def)
qed

section \<open>Failures\<close>

text \<open>OpenCode never answers with the JSON value \<open>null\<close>.\<close>

definition never_null :: "transport \<Rightarrow> bool" where
  "never_null tr \<longleftrightarrow> (\<forall>rq response. tr rq = Inr response \<longrightarrow> json_loads (hs_text response) \<noteq> Some PNone)"

lemma decodedD: "decode_json_response endpoint response = Inr v \<Longrightarrow> json_loads (hs_text response) = Some v"
  by (auto simp: decode_json_response_def Let_def split: option.splits)

lemma json_not_null:
  assumes "never_null tr"
  shows "fst (get_json path endpoint params tr c) \<noteq> Inr PNone"
    "fst (post_json path endpoint params body tm tr c) \<noteq> Inr PNone"
    "fst (delete_json path endpoint params tr c) \<noteq> Inr PNone"
proof -
  have "fst (exchange op rq (decode_json_response ep) tr c) \<noteq> Inr PNone" for op rq ep
    using assms
    by (cases "tr rq") (auto simp: exchange_def never_null_def split: sum.splits dest: decodedD)
  then show "fst (get_json path endpoint params tr c) \<noteq> Inr PNone"
    "fst (post_json path endpoint params body tm tr c) \<noteq> Inr PNone"
    "fst (delete_json path endpoint params tr c) \<noteq> Inr PNone"
    by (simp_all add: get_json_def post_json_def delete_json_def)
qed

lemma call_not_null:
  "\<forall>c. fst (act (rc_transport X) c) \<noteq> Inr PNone \<Longrightarrow> fst (call_upstream X act Inr st) \<noteq> Inr PNone"
  by (auto simp: call_upstream_def Let_def split: prod.splits sum.splits) (metis fst_conv)

lemma read_answer_caught: "fst r \<noteq> Inr PNone \<Longrightarrow> fst (read_answer codes F m np read r) \<noteq> Uncaught e"
  by (auto simp: read_answer_def payload_reply_def split: sum.splits)

lemma checked_caught: "(\<And>x. r = Inr x \<Longrightarrow> fst (f x st) \<noteq> Uncaught e) \<Longrightarrow> fst (checked r f st) \<noteq> Uncaught e"
  by (auto simp: checked_def split: sum.splits)

lemma workspace_not_null:
  assumes "never_null (rc_transport X)"
  shows "fst (workspace_action X key body st) \<noteq> Inr PNone"
proof -
  have "fst (call_upstream X act (\<lambda>b. Inr (PBool b)) st) \<noteq> Inr PNone" for act
    by (auto simp: call_upstream_def Let_def split: prod.splits sum.splits)
  moreover have "fst (call_upstream X list_projects Inr st) \<noteq> Inr PNone" "fst (call_upstream X get_current_project Inr st) \<noteq> Inr PNone"
    "fst (call_upstream X list_workspaces Inr st) \<noteq> Inr PNone" "fst (call_upstream X list_worktrees Inr st) \<noteq> Inr PNone"
    "fst (call_upstream X (create_workspace q) Inr st) \<noteq> Inr PNone" "fst (call_upstream X (create_worktree q) Inr st) \<noteq> Inr PNone"
    "fst (call_upstream X (remove_workspace w) Inr st) \<noteq> Inr PNone" for q w
    by (rule call_not_null; simp add: list_projects_def get_current_project_def list_workspaces_def list_worktrees_def
        create_workspace_def create_worktree_def remove_workspace_def json_not_null [OF assms])+
  ultimately show ?thesis by (simp add: workspace_action_def Let_def)
qed



text \<open>A JSON null that OpenCode answers with is read as an item that is missing, but the handler raises before it
  reads it: the exception leaves the endpoint.\<close>

theorem null_items_escape:
  "normalize_response_payload ''get_current_project'' PNone = Inr (PDict [(''item'', PNone)]) \<and>
   fst (handle_workspace_control_request (via (sample_answer 200 ''null'') sample_context)
     (sample_call ''alice'' ''opencode.projects.current'' []) (sample_state [])) =
     Uncaught (UpstreamContractError ''OpenCode workspace control returned no payload'')"
  by (intro conjI) code_simp+

section \<open>What a session id can name\<close>

text \<open>
  The id of a session goes into the path of the upstream's URL as it is, and ownership is checked for the
  id as a text. A transport that reads a URL as HTTP does, up to the question mark, is asked to share
  Alice's session by a call in which Bob names another text.
\<close>

definition reads_urls :: transport where
  "reads_urls rq =
     (if hr_verb rq = ''POST'' \<and> before CHR ''?'' (hr_path rq) = ''/session/ses1/share''
      then Inr \<lparr>hs_status = 200, hs_headers = [], hs_text = ''{'' @ [CHR 0x22] @ ''id'' @ [CHR 0x22, CHR '':'', CHR 0x22] @ ''ses1'' @ [CHR 0x22] @ ''}''\<rparr>
      else Inl (TransportError ''no such session''))"

theorem session_ids_name_other_sessions:
  "fst (handle_session_lifecycle_request (via reads_urls sample_context)
     (sample_call ''bob'' ''opencode.sessions.share'' [(''session_id'', PStr ''ses1/share?x='')])
     (sample_state [(''ses1'', ''alice'')])) =
   Result (PDict [(''item'', PDict [(''id'', PStr ''ses1''), (''title'', PStr [])])])"
  by code_simp

end
