(* ===== verification/Task_Store.thy ===== *)
theory Task_Store
  imports A2A_Events Rpc_Errors
begin

text \<open>
  The wrappers around the SDK's task stores (\<open>server/task_store.py\<close>) and the context of a call
  (\<open>server/context_helpers.py\<close>). The stores themselves are the SDK's: parameters with a state of their own.
  The modes negotiated for a task are remembered in a registry and written into the metadata of the
  task; what is shown is that the stored task alone says as much as the registry did.
\<close>

section \<open>The context of a call\<close>

datatype call_user = NoUser | UnauthenticatedUser | AuthenticatedIdentityUser string | SdkUser string

fun is_authenticated :: "call_user \<Rightarrow> bool" where
  "is_authenticated (AuthenticatedIdentityUser identity) = True"
| "is_authenticated (SdkUser name) = True"
| "is_authenticated _ = False"

fun user_name :: "call_user \<Rightarrow> string" where
  "user_name (AuthenticatedIdentityUser identity) = identity"
| "user_name (SdkUser name) = name"
| "user_name _ = []"

text \<open>The attributes of a context as they are found, and after they are normal.\<close>

record raw_context =
  rx_state :: pyval
  rx_user :: call_user
  rx_tenant :: pyval
  rx_requested :: pyval

record call_context =
  cx_state :: mapping
  cx_user :: call_user
  cx_tenant :: string
  cx_requested :: "string list"

definition py_str_value :: "(rat \<Rightarrow> string) \<Rightarrow> pyval \<Rightarrow> string" where
  "py_str_value fr v = (case v of PStr s \<Rightarrow> s | _ \<Rightarrow> py_repr fr v)"

definition requested_set :: "(rat \<Rightarrow> string) \<Rightarrow> pyval \<Rightarrow> string list" where
  "requested_set fr v =
     (case v of
        PStr s \<Rightarrow> [s]
      | PList vs \<Rightarrow> remdups (map (py_str_value fr) vs)
      | PDict d \<Rightarrow> remdups (map fst d)
      | _ \<Rightarrow> [])"

definition normalize_server_call_context :: "(rat \<Rightarrow> string) \<Rightarrow> raw_context option \<Rightarrow> call_context" where
  "normalize_server_call_context fr raw =
     (case raw of
        None \<Rightarrow> \<lparr>cx_state = [], cx_user = UnauthenticatedUser, cx_tenant = [], cx_requested = []\<rparr>
      | Some c \<Rightarrow>
          (let state = mapping_or_empty (rx_state c);
               normalized_identity = Option.bind (as_str (dget state ''identity'')) (\<lambda>i. if i = [] then None else Some i)
           in \<lparr>cx_state = state,
               cx_user = (case normalized_identity of
                            Some i \<Rightarrow> if rx_user c \<in> {NoUser, UnauthenticatedUser} then AuthenticatedIdentityUser i else rx_user c
                          | None \<Rightarrow> if rx_user c = NoUser then UnauthenticatedUser else rx_user c),
               cx_tenant = (case rx_tenant c of PStr s \<Rightarrow> s | _ \<Rightarrow> []),
               cx_requested = requested_set fr (rx_requested c)\<rparr>))"

text \<open>A normal context as one that is found.\<close>

definition raw_of :: "call_context \<Rightarrow> raw_context" where
  "raw_of c = \<lparr>rx_state = PDict (cx_state c), rx_user = cx_user c, rx_tenant = PStr (cx_tenant c),
               rx_requested = PList (map PStr (cx_requested c))\<rparr>"

section \<open>Negotiated output modes\<close>

type_synonym mode_registry = "string \<Rightarrow> string list option"

definition modes_remember :: "string \<Rightarrow> pyval \<Rightarrow> mode_registry \<Rightarrow> mode_registry" where
  "modes_remember task_id accepted_output_modes modes = modes(task_id := normalize_accepted_output_modes accepted_output_modes)"

definition modes_resolve :: "string \<Rightarrow> task option \<Rightarrow> mode_registry \<Rightarrow> string list option" where
  "modes_resolve task_id t modes =
     (case modes task_id of
        Some ms \<Rightarrow> Some ms
      | None \<Rightarrow> Option.bind t (\<lambda>t. extract_accepted_output_modes_from_metadata (tk_metadata t)))"

definition modes_clear :: "string \<Rightarrow> mode_registry \<Rightarrow> mode_registry" where
  "modes_clear task_id modes = modes(task_id := None)"

definition modes_value :: "string list option \<Rightarrow> pyval" where
  "modes_value ms = (case ms of None \<Rightarrow> PNone | Some l \<Rightarrow> mode_list l)"

section \<open>The stores\<close>

text \<open>What a store raises: its own error, a conflict of versions, an error of the SDK, anything else.\<close>

datatype store_failure =
    TaskStoreOperationError string "string option"
  | ConcurrentTaskModificationError
  | SdkFailure rpc_error
  | OtherFailure string

record ('q, 'p, 'v, 's) versioned_store =
  vs_initialize :: "'s \<Rightarrow> (store_failure + unit) \<times> 's"
  vs_save :: "call_context \<Rightarrow> task \<Rightarrow> payload option \<Rightarrow> task option \<Rightarrow> 'v \<Rightarrow> 's \<Rightarrow> (store_failure + 'v) \<times> 's"
  vs_get :: "call_context \<Rightarrow> string \<Rightarrow> 's \<Rightarrow> (store_failure + (task \<times> 'v) option) \<times> 's"
  vs_list :: "call_context \<Rightarrow> 'q \<Rightarrow> 's \<Rightarrow> (store_failure + 'p) \<times> 's"
  vs_delete :: "call_context \<Rightarrow> string \<Rightarrow> 's \<Rightarrow> (store_failure + unit) \<times> 's"

record ('q, 'p, 's) plain_store =
  ps_save :: "call_context \<Rightarrow> task \<Rightarrow> 's \<Rightarrow> (store_failure + unit) \<times> 's"
  ps_get :: "call_context \<Rightarrow> string \<Rightarrow> 's \<Rightarrow> (store_failure + task option) \<times> 's"
  ps_list :: "call_context \<Rightarrow> 'q \<Rightarrow> 's \<Rightarrow> (store_failure + 'p) \<times> 's"
  ps_delete :: "call_context \<Rightarrow> string \<Rightarrow> 's \<Rightarrow> (store_failure + unit) \<times> 's"

record 's negotiating_store =
  ns_inner :: 's
  ns_modes :: mode_registry
  ns_initialized :: bool

text \<open>The \<open>except\<close> clauses; only saving a version lets a conflict through.\<close>

definition store_error :: "bool \<Rightarrow> string \<Rightarrow> string option \<Rightarrow> store_failure \<Rightarrow> store_failure" where
  "store_error conflicts operation task_id exc =
     (case exc of
        OtherFailure _ \<Rightarrow> TaskStoreOperationError operation task_id
      | ConcurrentTaskModificationError \<Rightarrow> if conflicts then exc else TaskStoreOperationError operation task_id
      | _ \<Rightarrow> exc)"

definition wrapped ::
    "bool \<Rightarrow> string \<Rightarrow> string option \<Rightarrow> ('s \<Rightarrow> (store_failure + 'a) \<times> 's)
       \<Rightarrow> 's negotiating_store \<Rightarrow> (store_failure + 'a) \<times> 's negotiating_store" where
  "wrapped conflicts operation task_id act st =
     (let (r, s) = act (ns_inner st)
      in (map_sum (store_error conflicts operation task_id) id r, st\<lparr>ns_inner := s\<rparr>))"

text \<open>\<open>_ensure_initialized\<close> before a call; its failure is not wrapped.\<close>

definition initialized ::
    "('q, 'p, 'v, 's) versioned_store
       \<Rightarrow> ('s negotiating_store \<Rightarrow> (store_failure + 'a) \<times> 's negotiating_store)
       \<Rightarrow> 's negotiating_store \<Rightarrow> (store_failure + 'a) \<times> 's negotiating_store" where
  "initialized B act st =
     (if ns_initialized st then act st
      else case vs_initialize B (ns_inner st) of
             (Inl e, s) \<Rightarrow> (Inl e, st\<lparr>ns_inner := s\<rparr>)
           | (Inr _, s) \<Rightarrow> act (st\<lparr>ns_inner := s, ns_initialized := True\<rparr>))"

text \<open>What is handed on for a task: its compacted form with the modes in force.\<close>

definition negotiated_task :: "mode_registry \<Rightarrow> task \<Rightarrow> task" where
  "negotiated_task modes t =
     (let canonical_task = canonicalize_stream_artifacts t
      in canonical_task\<lparr>tk_metadata := merge_output_negotiation_metadata (tk_metadata canonical_task)
           (modes_value (modes_resolve (tk_id t) (Some canonical_task) modes))\<rparr>)"

definition negotiated_event :: "mode_registry \<Rightarrow> task \<Rightarrow> payload option \<Rightarrow> payload option" where
  "negotiated_event modes t event =
     map_option (\<lambda>e. annotate_output_negotiation_metadata e
       (modes_value (modes_resolve (tk_id t) (Some (canonicalize_stream_artifacts t)) modes))) event"

text \<open>A terminal task needs its entry no longer.\<close>

definition after_save :: "task \<Rightarrow> (store_failure + 'a) \<times> 's negotiating_store \<Rightarrow> (store_failure + 'a) \<times> 's negotiating_store" where
  "after_save t r =
     (case r of
        (Inr x, st) \<Rightarrow>
          (Inr x, if tk_state t \<in> TERMINAL_TASK_STATES then st\<lparr>ns_modes := modes_clear (tk_id t) (ns_modes st)\<rparr> else st)
      | (Inl e, st) \<Rightarrow> (Inl e, st))"

definition after_delete :: "string \<Rightarrow> (store_failure + 'a) \<times> 's negotiating_store \<Rightarrow> (store_failure + 'a) \<times> 's negotiating_store" where
  "after_delete task_id r =
     (case r of
        (Inr x, st) \<Rightarrow> (Inr x, st\<lparr>ns_modes := modes_clear task_id (ns_modes st)\<rparr>)
      | (Inl e, st) \<Rightarrow> (Inl e, st))"

subsection \<open>Stores with versions\<close>

definition versioned_save ::
    "('q, 'p, 'v, 's) versioned_store \<Rightarrow> call_context \<Rightarrow> task \<Rightarrow> payload option \<Rightarrow> task option \<Rightarrow> 'v
       \<Rightarrow> 's negotiating_store \<Rightarrow> (store_failure + 'v) \<times> 's negotiating_store" where
  "versioned_save B cx t event prev prev_version =
     initialized B (\<lambda>st. after_save t (wrapped True ''save'' (Some (tk_id t))
       (vs_save B cx (negotiated_task (ns_modes st) t) (negotiated_event (ns_modes st) t event) prev prev_version) st))"

definition versioned_get ::
    "('q, 'p, 'v, 's) versioned_store \<Rightarrow> call_context \<Rightarrow> string
       \<Rightarrow> 's negotiating_store \<Rightarrow> (store_failure + (task \<times> 'v) option) \<times> 's negotiating_store" where
  "versioned_get B cx task_id = initialized B (wrapped False ''get'' (Some task_id) (vs_get B cx task_id))"

definition versioned_list ::
    "('q, 'p, 'v, 's) versioned_store \<Rightarrow> call_context \<Rightarrow> 'q
       \<Rightarrow> 's negotiating_store \<Rightarrow> (store_failure + 'p) \<times> 's negotiating_store" where
  "versioned_list B cx params = initialized B (wrapped False ''list'' None (vs_list B cx params))"

definition versioned_delete ::
    "('q, 'p, 'v, 's) versioned_store \<Rightarrow> call_context \<Rightarrow> string
       \<Rightarrow> 's negotiating_store \<Rightarrow> (store_failure + unit) \<times> 's negotiating_store" where
  "versioned_delete B cx task_id =
     initialized B (\<lambda>st. after_delete task_id (wrapped False ''delete'' (Some task_id) (vs_delete B cx task_id) st))"

subsection \<open>Stores of one process\<close>

definition plain_save ::
    "('q, 'p, 's) plain_store \<Rightarrow> call_context \<Rightarrow> task
       \<Rightarrow> 's negotiating_store \<Rightarrow> (store_failure + unit) \<times> 's negotiating_store" where
  "plain_save B cx t st =
     after_save t (wrapped False ''save'' (Some (tk_id t)) (ps_save B cx (negotiated_task (ns_modes st) t)) st)"

definition plain_get ::
    "('q, 'p, 's) plain_store \<Rightarrow> call_context \<Rightarrow> string
       \<Rightarrow> 's negotiating_store \<Rightarrow> (store_failure + task option) \<times> 's negotiating_store" where
  "plain_get B cx task_id = wrapped False ''get'' (Some task_id) (ps_get B cx task_id)"

definition plain_list ::
    "('q, 'p, 's) plain_store \<Rightarrow> call_context \<Rightarrow> 'q
       \<Rightarrow> 's negotiating_store \<Rightarrow> (store_failure + 'p) \<times> 's negotiating_store" where
  "plain_list B cx params = wrapped False ''list'' None (ps_list B cx params)"

definition plain_delete ::
    "('q, 'p, 's) plain_store \<Rightarrow> call_context \<Rightarrow> string
       \<Rightarrow> 's negotiating_store \<Rightarrow> (store_failure + unit) \<times> 's negotiating_store" where
  "plain_delete B cx task_id st =
     after_delete task_id (wrapped False ''delete'' (Some task_id) (ps_delete B cx task_id) st)"

section \<open>The context is normal\<close>

text \<open>Normal contexts are fixed points, but for a user that is missing or not authenticated beside an identity.\<close>

definition normal_context :: "call_context \<Rightarrow> bool" where
  "normal_context c \<longleftrightarrow> cx_user c \<noteq> NoUser \<and> distinct (cx_requested c) \<and>
     (\<forall>i. dget (cx_state c) ''identity'' = PStr i \<and> i \<noteq> [] \<longrightarrow> is_authenticated (cx_user c))"

lemma is_authenticated_iff: "is_authenticated u \<longleftrightarrow> u \<noteq> NoUser \<and> u \<noteq> UnauthenticatedUser"
  by (cases u) simp_all

lemma as_str_Some: "as_str v = Some s \<longleftrightarrow> v = PStr s"
  by (cases v) auto

lemma normalized_context: "normal_context (normalize_server_call_context fr raw)"
proof (cases raw)
  case (Some c)
  show ?thesis
    unfolding Some normal_context_def normalize_server_call_context_def
    by (cases "rx_requested c")
      (auto simp: Let_def requested_set_def is_authenticated_iff split: option.splits bind_splits)
qed (simp add: normal_context_def normalize_server_call_context_def dget_def)

lemma map_py_str_value [simp]: "map (py_str_value fr) (map PStr ss) = ss"
  by (induction ss) (simp_all add: py_str_value_def)

lemma normal_context_fixed:
  assumes "normal_context c"
  shows "normalize_server_call_context fr (Some (raw_of c)) = c"
proof -
  have "requested_set fr (PList (map PStr (cx_requested c))) = cx_requested c"
    using assms by (simp add: requested_set_def normal_context_def distinct_remdups_id del: map_map)
  moreover have "Option.bind (as_str (dget (cx_state c) ''identity'')) (\<lambda>i. if i = [] then None else Some i) = None"
    if "cx_user c = UnauthenticatedUser"
    using assms that by (auto simp: normal_context_def as_str_Some split: bind_splits)
  ultimately show ?thesis
    using assms by (cases "cx_user c = UnauthenticatedUser")
      (auto simp: normalize_server_call_context_def raw_of_def normal_context_def Let_def mapping_or_empty_def
        split: option.splits)
qed

section \<open>The registry holds normal modes\<close>

definition modes_ok :: "mode_registry \<Rightarrow> bool" where
  "modes_ok modes \<longleftrightarrow> (\<forall>task_id ms. modes task_id = Some ms \<longrightarrow> normalize_accepted_output_modes (mode_list ms) = Some ms)"

lemma normalize_idem:
  assumes "normalize_accepted_output_modes source = Some ms"
  shows "normalize_accepted_output_modes (mode_list ms) = Some ms"
  using normalized_modes [OF assms] by (intro normalize_mode_list)

lemma modes_ok_remember: "modes_ok modes \<Longrightarrow> modes_ok (modes_remember task_id source modes)"
  by (simp add: modes_ok_def modes_remember_def normalize_idem)

lemma modes_ok_clear: "modes_ok modes \<Longrightarrow> modes_ok (modes_clear task_id modes)"
  by (simp add: modes_ok_def modes_clear_def)

lemma modes_ok_empty: "modes_ok Map.empty"
  by (simp add: modes_ok_def)

lemma resolved_ok:
  assumes "modes_ok modes" "modes_resolve task_id t modes = Some ms"
  shows "normalize_accepted_output_modes (mode_list ms) = Some ms"
  using assms by (auto simp: modes_ok_def modes_resolve_def extract_accepted_output_modes_from_metadata_def
      intro: normalize_idem split: option.splits pyval.splits bind_splits)

section \<open>Stored tasks remember their modes\<close>

lemma resolve_canonical:
  "modes_resolve task_id (Some (canonicalize_stream_artifacts t)) modes = modes_resolve task_id (Some t) modes"
  by (cases "modes task_id") (simp_all add: modes_resolve_def canonicalize_stream_artifacts_def)

text \<open>A wrapper around the same store after a restart.\<close>

definition fresh_wrapper :: "'s negotiating_store \<Rightarrow> 's negotiating_store" where
  "fresh_wrapper st = st\<lparr>ns_modes := Map.empty, ns_initialized := False\<rparr>"

text \<open>
  The contract of a wrapper over a faithful store: what a save hands on is what a later read finds, in this
  process or the next, and the registry loses only the entry of a task that has ended.
\<close>

locale negotiating_task_store =
  fixes save :: "task \<Rightarrow> 's negotiating_store \<Rightarrow> (store_failure + 'v) \<times> 's negotiating_store"
    and get :: "string \<Rightarrow> 's negotiating_store \<Rightarrow> (store_failure + task option) \<times> 's negotiating_store"
    and faithful :: bool
  assumes read_back: "faithful \<Longrightarrow> save t st = (Inr v, st') \<Longrightarrow>
      fst (get (tk_id t) (fresh_wrapper st')) = Inr (Some (negotiated_task (ns_modes st) t))"
    and save_modes: "save t st = (r, st') \<Longrightarrow>
      ns_modes st' = ns_modes st \<or> ns_modes st' = modes_clear (tk_id t) (ns_modes st) \<and> tk_state t \<in> TERMINAL_TASK_STATES"
    and get_modes: "get task_id st = (g, st') \<Longrightarrow> ns_modes st' = ns_modes st"
begin

lemma modes_kept:
  assumes "modes_ok (ns_modes st)"
  shows "modes_ok (ns_modes (snd (save t st))) \<and> modes_ok (ns_modes (snd (get task_id st)))"
  using save_modes [of t st "fst (save t st)" "snd (save t st)"] get_modes [of task_id st "fst (get task_id st)" "snd (get task_id st)"]
    assms modes_ok_clear by auto

lemma modes_survive:
  assumes "faithful" "modes_ok (ns_modes st)" "save t st = (Inr v, st')"
  shows "\<exists>t'. fst (get (tk_id t) (fresh_wrapper st')) = Inr (Some t') \<and>
    modes_resolve (tk_id t) (Some t') Map.empty = map_option sort (modes_resolve (tk_id t) (Some t) (ns_modes st))"
proof (intro exI conjI)
  show "fst (get (tk_id t) (fresh_wrapper st')) = Inr (Some (negotiated_task (ns_modes st) t))"
    by (rule read_back [OF assms(1,3)])
  show "modes_resolve (tk_id t) (Some (negotiated_task (ns_modes st) t)) Map.empty =
      map_option sort (modes_resolve (tk_id t) (Some t) (ns_modes st))"
  proof (cases "modes_resolve (tk_id t) (Some t) (ns_modes st)")
    case None
    then show ?thesis
      by (simp add: modes_resolve_def negotiated_task_def canonicalize_stream_artifacts_def modes_value_def
          merge_output_negotiation_metadata_def build_output_negotiation_metadata_def
          normalize_accepted_output_modes_def Let_def split: option.splits)
  next
    case (Some ms)
    then show ?thesis
      using negotiated_modes_round_trip [OF resolved_ok [OF assms(2) Some]]
      by (simp add: negotiated_task_def Let_def modes_value_def resolve_canonical)
        (simp add: modes_resolve_def canonicalize_stream_artifacts_def)
  qed
qed

end

text \<open>What is asked of the store itself: a saved task is read back, and initializing it again changes nothing.\<close>

definition faithful_versions :: "('q, 'p, 'v, 's) versioned_store \<Rightarrow> call_context \<Rightarrow> bool" where
  "faithful_versions B cx \<longleftrightarrow>
     (\<forall>t event prev v s v' s'. vs_save B cx t event prev v s = (Inr v', s') \<longrightarrow>
        (\<exists>w. fst (vs_get B cx (tk_id t) s') = Inr (Some (t, w)))) \<and>
     (\<forall>s. \<exists>s'. vs_initialize B s = (Inr (), s') \<and> (\<forall>task_id. fst (vs_get B cx task_id s') = fst (vs_get B cx task_id s)))"

definition faithful_plain :: "('q, 'p, 's) plain_store \<Rightarrow> call_context \<Rightarrow> bool" where
  "faithful_plain B cx \<longleftrightarrow>
     (\<forall>t s s'. ps_save B cx t s = (Inr (), s') \<longrightarrow> fst (ps_get B cx (tk_id t) s') = Inr (Some t))"

definition get_task :: "('q, 'p, 'v, 's) versioned_store \<Rightarrow> call_context \<Rightarrow> string
       \<Rightarrow> 's negotiating_store \<Rightarrow> (store_failure + task option) \<times> 's negotiating_store" where
  "get_task B cx task_id st = map_prod (map_sum id (map_option fst)) id (versioned_get B cx task_id st)"

lemma wrapped_fields:
  "ns_modes (snd (wrapped c op k act st)) = ns_modes st"
  "ns_initialized (snd (wrapped c op k act st)) = ns_initialized st"
  by (simp_all add: wrapped_def split: prod.splits)

lemma map_sum_Inr: "map_sum f id r = Inr x \<longleftrightarrow> r = Inr x"
  by (cases r) auto

lemma wrapped_Inr: "wrapped c op k act st = (Inr x, st') \<longleftrightarrow> (\<exists>s. act (ns_inner st) = (Inr x, s) \<and> st' = st\<lparr>ns_inner := s\<rparr>)"
  by (auto simp: wrapped_def map_sum_Inr split: prod.splits)

lemma after_save_Inr:
  "after_save t r = (Inr x, st') \<longleftrightarrow> (\<exists>st. r = (Inr x, st) \<and>
     st' = (if tk_state t \<in> TERMINAL_TASK_STATES then st\<lparr>ns_modes := modes_clear (tk_id t) (ns_modes st)\<rparr> else st))"
  by (auto simp: after_save_def split: prod.splits sum.splits)

lemma initialized_cases:
  assumes "initialized B act st = (r, st')"
  shows "(\<exists>st1. act st1 = (r, st') \<and> ns_modes st1 = ns_modes st \<and> ns_initialized st1) \<or>
    (\<exists>e. r = Inl e \<and> ns_modes st' = ns_modes st)"
proof (cases "ns_initialized st")
  case False
  then show ?thesis
    using assms by (cases "vs_initialize B (ns_inner st)", cases "fst (vs_initialize B (ns_inner st))")
      (auto simp: initialized_def intro!: exI [of _ "st\<lparr>ns_inner := snd (vs_initialize B (ns_inner st)), ns_initialized := True\<rparr>"])
qed (use assms in \<open>auto simp: initialized_def\<close>)

lemma after_save_modes:
  "after_save t r = (x, st') \<Longrightarrow> ns_modes st' = ns_modes (snd r) \<or>
     ns_modes st' = modes_clear (tk_id t) (ns_modes (snd r)) \<and> tk_state t \<in> TERMINAL_TASK_STATES"
  by (auto simp: after_save_def split: prod.splits sum.splits if_splits)

lemma get_initialized:
  assumes "faithful_versions B cx"
  shows "fst (get_task B cx task_id (fresh_wrapper st)) =
     map_sum (store_error False ''get'' (Some task_id)) (map_option fst) (fst (vs_get B cx task_id (ns_inner st)))"
proof -
  obtain s' where "vs_initialize B (ns_inner st) = (Inr (), s')" "fst (vs_get B cx task_id s') = fst (vs_get B cx task_id (ns_inner st))"
    using assms unfolding faithful_versions_def by blast
  then show ?thesis
    by (simp add: get_task_def versioned_get_def initialized_def fresh_wrapper_def wrapped_def sum.map_comp case_prod_beta)
qed

lemma versioned_save_inner:
  assumes "versioned_save B cx t event prev prev_version st = (Inr v, st')"
  shows "\<exists>s0. vs_save B cx (negotiated_task (ns_modes st) t) (negotiated_event (ns_modes st) t event) prev prev_version s0
    = (Inr v, ns_inner st')"
proof -
  from initialized_cases [OF assms [unfolded versioned_save_def]] obtain st1 where
    "ns_modes st1 = ns_modes st"
    "after_save t (wrapped True ''save'' (Some (tk_id t)) (vs_save B cx (negotiated_task (ns_modes st) t)
       (negotiated_event (ns_modes st) t event) prev prev_version) st1) = (Inr v, st')"
    by auto
  then show ?thesis unfolding after_save_Inr wrapped_Inr by force
qed

interpretation versioned: negotiating_task_store
  "\<lambda>t. versioned_save B cx t event prev prev_version" "get_task B cx" "faithful_versions B cx"
  for B cx event prev prev_version
proof (unfold_locales, goal_cases)
  case (1 t st v st')
  from versioned_save_inner [OF 1(2)] obtain s0 where
    saved: "vs_save B cx (negotiated_task (ns_modes st) t) (negotiated_event (ns_modes st) t event) prev prev_version s0
      = (Inr v, ns_inner st')"
    by blast
  have "tk_id (negotiated_task (ns_modes st) t) = tk_id t"
    by (simp add: negotiated_task_def Let_def canonicalize_stream_artifacts_def)
  with 1(1) saved obtain w where "fst (vs_get B cx (tk_id t) (ns_inner st')) = Inr (Some (negotiated_task (ns_modes st) t, w))"
    unfolding faithful_versions_def by metis
  then show ?case using get_initialized [OF 1(1)] by simp
next
  case (2 t st r st')
  from initialized_cases [OF 2 [unfolded versioned_save_def]] show ?case
    by (auto dest!: after_save_modes simp: wrapped_fields)
next
  case (3 task_id st g st')
  then obtain g' where "versioned_get B cx task_id st = (g', st')"
    by (cases "versioned_get B cx task_id st") (auto simp: get_task_def)
  from initialized_cases [OF this [unfolded versioned_get_def]] show ?case
    using wrapped_fields(1) by (metis snd_conv)
qed

interpretation plain: negotiating_task_store "plain_save B cx" "plain_get B cx" "faithful_plain B cx" for B cx
proof (unfold_locales, goal_cases)
  case (1 t st v st')
  then obtain s where s: "ps_save B cx (negotiated_task (ns_modes st) t) (ns_inner st) = (Inr v, s)" "ns_inner st' = s"
    by (auto simp: plain_save_def after_save_Inr wrapped_Inr)
  have "tk_id (negotiated_task (ns_modes st) t) = tk_id t"
    by (simp add: negotiated_task_def Let_def canonicalize_stream_artifacts_def)
  with 1(1) s have "fst (ps_get B cx (tk_id t) s) = Inr (Some (negotiated_task (ns_modes st) t))"
    by (fastforce simp: faithful_plain_def)
  then show ?case using s(2) by (simp add: plain_get_def wrapped_def fresh_wrapper_def case_prod_beta)
qed (auto simp: plain_save_def plain_get_def wrapped_fields dest!: after_save_modes dest: arg_cong [where f = snd])

text \<open>C31. The modes negotiated for a task outlive the process: whatever the registry knew when a task was
  saved, a new process reads the same set of modes from the stored task.\<close>

theorem negotiated_modes_outlive_the_process:
  assumes "faithful_versions B cx" "modes_ok (ns_modes st)"
    and "versioned_save B cx t event prev prev_version st = (Inr v, st')"
  shows "\<exists>t'. fst (get_task B cx (tk_id t) (fresh_wrapper st')) = Inr (Some t') \<and>
    modes_resolve (tk_id t) (Some t') Map.empty = map_option sort (modes_resolve (tk_id t) (Some t) (ns_modes st))"
  by (rule versioned.modes_survive [OF assms])

text \<open>A store that keeps its tasks in a list, for the sample.\<close>

definition list_versions :: "(unit, task list, nat, (string \<times> task) list) versioned_store" where
  "list_versions =
     \<lparr>vs_initialize = (\<lambda>s. (Inr (), s)), vs_save = (\<lambda>cx t event prev v s. (Inr (Suc v), dset (tk_id t) t s)),
      vs_get = (\<lambda>cx task_id s. (Inr (map_option (\<lambda>t. (t, 0)) (map_of s task_id)), s)),
      vs_list = (\<lambda>cx q s. (Inr (map snd s), s)), vs_delete = (\<lambda>cx task_id s. (Inr (), ddel task_id s))\<rparr>"

definition sample_task :: task where
  "sample_task = \<lparr>tk_id = ''t1'', tk_context_id = ''c1'', tk_state = TASK_STATE_COMPLETED, tk_message = None,
     tk_history = [], tk_artifacts = [], tk_metadata = []\<rparr>"

definition sample_wrapper :: "(string \<times> task) list negotiating_store" where
  "sample_wrapper = \<lparr>ns_inner = [],
     ns_modes = modes_remember ''t1'' (mode_list [''text/plain'', ''Application/JSON'']) Map.empty, ns_initialized = False\<rparr>"

lemma list_versions_faithful: "faithful_versions list_versions cx"
  by (simp add: faithful_versions_def list_versions_def)

theorem negotiated_modes_outlive_the_process_witness:
  "\<exists>t'. fst (get_task list_versions (normalize_server_call_context (\<lambda>_. []) None) ''t1''
      (fresh_wrapper (snd (versioned_save list_versions (normalize_server_call_context (\<lambda>_. []) None) sample_task None None 0 sample_wrapper)))) = Inr (Some t') \<and>
    modes_resolve ''t1'' (Some t') Map.empty = Some [''application/json'', ''text/plain'']"
proof -
  have ok: "modes_ok (ns_modes sample_wrapper)"
    by (simp add: sample_wrapper_def modes_ok_remember modes_ok_empty)
  have saved: "versioned_save list_versions (normalize_server_call_context (\<lambda>_. []) None) sample_task None None 0 sample_wrapper =
      (Inr 1, snd (versioned_save list_versions (normalize_server_call_context (\<lambda>_. []) None) sample_task None None 0 sample_wrapper))"
    by (simp add: versioned_save_def initialized_def sample_wrapper_def list_versions_def after_save_def wrapped_def)
  have "modes_resolve (tk_id sample_task) (Some sample_task) (ns_modes sample_wrapper) = Some [''text/plain'', ''application/json'']"
    by code_simp
  moreover have "sort [''text/plain'', ''application/json''] = [''application/json'', ''text/plain'']" by code_simp
  moreover have "tk_id sample_task = ''t1''" by (simp add: sample_task_def)
  ultimately show ?thesis
    using negotiated_modes_outlive_the_process [OF list_versions_faithful ok saved] by simp
qed

end
