(* ===== verification/Task_Requests.thy ===== *)
theory Task_Requests
  imports Task_Store
begin

text \<open>
  The core methods on messages and tasks (\<open>server/request_handler.py\<close>). The SDK's request handler, which
  runs the executor and keeps the tasks, is a parameter with a state of its own; modelled is what this
  service adds: the checks before it, and what becomes of the answers and failures after it.
\<close>

section \<open>Requests and the SDK\<close>

text \<open>\<open>sr_modes\<close> is the list of accepted output modes of the configuration, \<open>PNone\<close> without one.\<close>

record send_request =
  sr_message :: message
  sr_metadata :: mapping
  sr_modes :: pyval

text \<open>A stream is what it delivers, each event with the registry at that moment, and how it ended.\<close>

type_synonym event_stream = "(payload \<times> mode_registry) list \<times> store_failure option"

record ('q, 't) sdk_requests =
  sh_modes :: "'t \<Rightarrow> mode_registry"
  sh_load :: "call_context \<Rightarrow> string \<Rightarrow> 't \<Rightarrow> (store_failure + task option) \<times> 't"
  sh_get_task :: "call_context \<Rightarrow> string \<Rightarrow> 't \<Rightarrow> (store_failure + task option) \<times> 't"
  sh_list_tasks :: "call_context \<Rightarrow> 'q \<Rightarrow> 't \<Rightarrow> (store_failure + task list) \<times> 't"
  sh_cancel_task :: "call_context \<Rightarrow> string \<Rightarrow> 't \<Rightarrow> (store_failure + task option) \<times> 't"
  sh_subscribe :: "call_context \<Rightarrow> string \<Rightarrow> 't \<Rightarrow> event_stream \<times> 't"
  sh_send :: "call_context \<Rightarrow> send_request \<Rightarrow> 't \<Rightarrow> (store_failure + payload) \<times> 't"
  sh_send_stream :: "call_context \<Rightarrow> send_request \<Rightarrow> 't \<Rightarrow> event_stream \<times> 't"
  sh_to_dict :: "pyval \<Rightarrow> pyval"
  sh_float :: "rat \<Rightarrow> string"
  sh_not_found :: string

text \<open>Before the SDK stores a new task its modes are remembered.\<close>

definition remember_modes :: "send_request option \<Rightarrow> string \<Rightarrow> mode_registry \<Rightarrow> mode_registry" where
  "remember_modes params task_id modes =
     (case params of
        None \<Rightarrow> modes
      | Some rq \<Rightarrow>
          if task_id = [] then modes
          else (case normalize_accepted_output_modes (sr_modes rq) of
                  None \<Rightarrow> modes | Some accepted \<Rightarrow> modes_remember task_id (mode_list accepted) modes))"

section \<open>Failures of the store\<close>

definition task_store_failure_message :: "string \<Rightarrow> string" where
  "task_store_failure_message operation =
     (if operation = ''get'' then ''Task store unavailable while loading task state.''
      else if operation = ''save'' then ''Task store unavailable while persisting task state.''
      else if operation = ''delete'' then ''Task store unavailable while deleting task state.''
      else ''Task store unavailable.'')"

definition task_store_server_error :: "store_failure \<Rightarrow> store_failure" where
  "task_store_server_error exc =
     (case exc of
        TaskStoreOperationError operation _ \<Rightarrow>
          SdkFailure (A2AError ''InternalError'' (task_store_failure_message operation) PNone)
      | _ \<Rightarrow> exc)"

section \<open>What leaves\<close>

definition modes_for_task :: "mode_registry \<Rightarrow> string \<Rightarrow> pyval \<Rightarrow> task option \<Rightarrow> string list option" where
  "modes_for_task modes task_id requested t =
     (case normalize_accepted_output_modes requested of
        Some ms \<Rightarrow> Some ms | None \<Rightarrow> modes_resolve task_id t modes)"

definition negotiate :: "('q, 't) sdk_requests \<Rightarrow> payload \<Rightarrow> string list option \<Rightarrow> payload option" where
  "negotiate H payload accepted =
     map_option (\<lambda>negotiated. annotate_output_negotiation_metadata negotiated (modes_value accepted))
       (apply_accepted_output_modes (sh_float H) (sh_to_dict H) payload (modes_value accepted))"

definition as_task :: "payload \<Rightarrow> task option" where
  "as_task p = (case p of PTask t \<Rightarrow> Some t | _ \<Rightarrow> None)"

definition event_task_id :: "payload \<Rightarrow> string" where
  "event_task_id p =
     (case p of PTask t \<Rightarrow> tk_id t | PMessage m \<Rightarrow> mg_task_id m | PStatus e \<Rightarrow> se_task_id e | PArtifact e \<Rightarrow> ae_task_id e)"

text \<open>\<open>a or b\<close> on strings\<close>

definition or_else :: "string \<Rightarrow> string \<Rightarrow> string" where
  "or_else a b = (if a = [] then b else a)"

definition with_extensions :: "call_context \<Rightarrow> payload \<Rightarrow> payload" where
  "with_extensions cx p =
     filter_negotiated_extensions_from_payload p (requested_extensions_from_call_context (Some (cx_requested cx)))"

text \<open>The task a client is shown, in the modes in force for it.\<close>

definition shown_task :: "('q, 't) sdk_requests \<Rightarrow> string \<Rightarrow> task \<Rightarrow> 't \<Rightarrow> payload option" where
  "shown_task H task_id t st = negotiate H (PTask t) (modes_for_task (sh_modes H st) task_id PNone (Some t))"

text \<open>The events of a stream, each in its modes; those without accepted content are left out.\<close>

definition shown_events ::
    "('q, 't) sdk_requests \<Rightarrow> (mode_registry \<Rightarrow> payload \<Rightarrow> string list option) \<Rightarrow> (payload \<times> mode_registry) list \<Rightarrow> payload list" where
  "shown_events H modes_of events = List.map_filter (\<lambda>(p, registry). negotiate H p (modes_of registry p)) events"

section \<open>Reading tasks\<close>

definition on_get_task ::
    "('q, 't) sdk_requests \<Rightarrow> call_context \<Rightarrow> string \<Rightarrow> 't \<Rightarrow> (store_failure + payload option) \<times> 't" where
  "on_get_task H cx task_id st =
     (case sh_get_task H cx task_id st of
        (Inl e, st1) \<Rightarrow> (Inl (task_store_server_error e), st1)
      | (Inr None, st1) \<Rightarrow> (Inr None, st1)
      | (Inr (Some t), st1) \<Rightarrow>
          (Inr (case Option.bind (shown_task H task_id t st1) as_task of
                  None \<Rightarrow> None | Some n \<Rightarrow> Some (with_extensions cx (PTask n))), st1))"

definition listed_task ::
    "('q, 't) sdk_requests \<Rightarrow> call_context \<Rightarrow> int option \<Rightarrow> 't \<Rightarrow> task \<Rightarrow> payload" where
  "listed_task H cx history_length st t =
     (let t = (case history_length of
                 None \<Rightarrow> t\<lparr>tk_history := []\<rparr> | Some n \<Rightarrow> if n \<le> 0 then t\<lparr>tk_history := []\<rparr> else t);
          t = (case Option.bind (shown_task H (tk_id t) t st) as_task of None \<Rightarrow> t | Some n \<Rightarrow> n)
      in with_extensions cx (PTask t))"

text \<open>The page and its size.\<close>

definition on_list_tasks ::
    "('q, 't) sdk_requests \<Rightarrow> call_context \<Rightarrow> 'q \<Rightarrow> int option \<Rightarrow> 't \<Rightarrow> (store_failure + payload list \<times> nat) \<times> 't" where
  "on_list_tasks H cx params history_length st =
     (case sh_list_tasks H cx params st of
        (Inl e, st1) \<Rightarrow> (Inl (task_store_server_error e), st1)
      | (Inr ts, st1) \<Rightarrow> (Inr (map (listed_task H cx history_length st1) ts, length ts), st1))"

section \<open>Cancelling and subscribing\<close>

fun task_state_name :: "task_state \<Rightarrow> string" where
  "task_state_name TASK_STATE_UNSPECIFIED = ''TASK_STATE_UNSPECIFIED''"
| "task_state_name TASK_STATE_SUBMITTED = ''TASK_STATE_SUBMITTED''"
| "task_state_name TASK_STATE_WORKING = ''TASK_STATE_WORKING''"
| "task_state_name TASK_STATE_COMPLETED = ''TASK_STATE_COMPLETED''"
| "task_state_name TASK_STATE_FAILED = ''TASK_STATE_FAILED''"
| "task_state_name TASK_STATE_CANCELED = ''TASK_STATE_CANCELED''"
| "task_state_name TASK_STATE_INPUT_REQUIRED = ''TASK_STATE_INPUT_REQUIRED''"
| "task_state_name TASK_STATE_REJECTED = ''TASK_STATE_REJECTED''"
| "task_state_name TASK_STATE_AUTH_REQUIRED = ''TASK_STATE_AUTH_REQUIRED''"

definition task_not_found :: "('q, 't) sdk_requests \<Rightarrow> store_failure" where
  "task_not_found H = SdkFailure (A2AError ''TaskNotFoundError'' (sh_not_found H) PNone)"

definition task_not_cancelable :: "task \<Rightarrow> store_failure" where
  "task_not_cancelable t = SdkFailure (A2AError ''TaskNotCancelableError''
     (''Task cannot be canceled - current state: '' @ task_state_name (tk_state t)) PNone)"

definition is_not_cancelable :: "store_failure \<Rightarrow> bool" where
  "is_not_cancelable e = (case e of SdkFailure x \<Rightarrow> error_class x = ''TaskNotCancelableError'' | _ \<Rightarrow> False)"

text \<open>The \<open>try\<close> block.\<close>

definition try_cancel ::
    "('q, 't) sdk_requests \<Rightarrow> call_context \<Rightarrow> string \<Rightarrow> 't \<Rightarrow> (store_failure + payload option) \<times> 't" where
  "try_cancel H cx task_id st =
     (case sh_load H cx task_id st of
        (Inl e, st1) \<Rightarrow> (Inl e, st1)
      | (Inr None, st1) \<Rightarrow> (Inl (task_not_found H), st1)
      | (Inr (Some t), st1) \<Rightarrow>
          if tk_state t = TASK_STATE_CANCELED then (Inr (shown_task H (tk_id t) t st1), st1)
          else if tk_state t \<in> TERMINAL_TASK_STATES then (Inl (task_not_cancelable t), st1)
          else (case sh_cancel_task H cx task_id st1 of
                  (Inl e, st2) \<Rightarrow> (Inl e, st2)
                | (Inr None, st2) \<Rightarrow> (Inr None, st2)
                | (Inr (Some r), st2) \<Rightarrow> (Inr (shown_task H (tk_id r) r st2), st2)))"

text \<open>A failure inside an \<open>except\<close> clause is not caught by the next one.\<close>

definition on_cancel_task ::
    "('q, 't) sdk_requests \<Rightarrow> call_context \<Rightarrow> string \<Rightarrow> 't \<Rightarrow> (store_failure + payload option) \<times> 't" where
  "on_cancel_task H cx task_id st =
     (case try_cancel H cx task_id st of
        (Inr p, st1) \<Rightarrow> (Inr p, st1)
      | (Inl e, st1) \<Rightarrow>
          if is_not_cancelable e
          then (case sh_load H cx task_id st1 of
                  (Inl e', st2) \<Rightarrow> (Inl e', st2)
                | (Inr None, st2) \<Rightarrow> (Inl e, st2)
                | (Inr (Some t), st2) \<Rightarrow>
                    if tk_state t = TASK_STATE_CANCELED then (Inr (shown_task H (tk_id t) t st2), st2) else (Inl e, st2))
          else (Inl (task_store_server_error e), st1))"

definition on_subscribe_to_task ::
    "('q, 't) sdk_requests \<Rightarrow> call_context \<Rightarrow> string \<Rightarrow> 't \<Rightarrow> (payload list \<times> store_failure option) \<times> 't" where
  "on_subscribe_to_task H cx task_id st =
     (case sh_load H cx task_id st of
        (Inl e, st1) \<Rightarrow> (([], Some (task_store_server_error e)), st1)
      | (Inr None, st1) \<Rightarrow> (([], Some (task_not_found H)), st1)
      | (Inr (Some t), st1) \<Rightarrow>
          if tk_state t \<in> TERMINAL_TASK_STATES
          then (([], Some (SdkFailure (A2AError ''UnsupportedOperationError''
                  ''Cannot subscribe to a task in a terminal state'' PNone))), st1)
          else (let modes = modes_for_task (sh_modes H st1) task_id PNone (Some t);
                    ((events, ended), st2) = sh_subscribe H cx task_id st1
                in ((shown_events H (\<lambda>_ _. modes) events, map_option task_store_server_error ended), st2)))"

section \<open>Checks of a message\<close>

definition CHAT_OUTPUT_MODES :: "string list" where
  "CHAT_OUTPUT_MODES = [''text/plain'', ''application/json'']"

definition modes_refused :: "string \<Rightarrow> mapping \<Rightarrow> rpc_error" where
  "modes_refused message data = A2AError ''UnsupportedOperationError'' message (PDict data)"

definition validate_chat_output_modes :: "send_request \<Rightarrow> rpc_error + unit" where
  "validate_chat_output_modes rq =
     (case normalize_accepted_output_modes (sr_modes rq) of
        None \<Rightarrow> Inr ()
      | Some accepted \<Rightarrow>
          if set CHAT_OUTPUT_MODES \<inter> set accepted = {}
          then Inl (modes_refused ''Requested acceptedOutputModes are not compatible with OpenCode chat responses.''
                 [(''accepted_output_modes'', mode_list accepted), (''supported_output_modes'', mode_list CHAT_OUTPUT_MODES)])
          else if ''text/plain'' \<notin> set accepted
          then Inl (modes_refused ''OpenCode chat responses require text/plain in acceptedOutputModes.''
                 [(''accepted_output_modes'', mode_list accepted), (''required_output_modes'', mode_list [''text/plain'']),
                  (''supported_output_modes'', mode_list CHAT_OUTPUT_MODES)])
          else Inr ())"

text \<open>A field in the metadata of the request or of its message.\<close>

definition carries :: "send_request \<Rightarrow> string \<Rightarrow> string list \<Rightarrow> bool" where
  "carries rq namespace path \<longleftrightarrow>
     list_ex (\<lambda>source. extract_namespaced_value (Some source) namespace path \<noteq> PNone)
       [sr_metadata rq, mg_metadata (sr_message rq)]"

text \<open>The extensions and fields a request needs.\<close>

definition extension_requirements :: "send_request \<Rightarrow> (string \<times> string) list" where
  "extension_requirements rq =
     (if carries rq ''shared'' [''session'', ''id''] then [(SESSION_BINDING_EXTENSION_URI, ''metadata.shared.session.id'')] else []) @
     (if carries rq ''opencode'' [''directory''] then [(SESSION_BINDING_EXTENSION_URI, ''metadata.opencode.directory'')] else []) @
     (if carries rq ''opencode'' [''workspace'', ''id'']
      then [(SESSION_BINDING_EXTENSION_URI, ''metadata.opencode.workspace.id'')] else []) @
     (if carries rq ''shared'' [''model'', ''providerID''] \<or> carries rq ''shared'' [''model'', ''modelID'']
      then [(MODEL_SELECTION_EXTENSION_URI, ''metadata.shared.model'')] else [])"

definition validate_shared_extension_negotiation :: "send_request \<Rightarrow> call_context \<Rightarrow> rpc_error + unit" where
  "validate_shared_extension_negotiation rq cx =
     (let requested = requested_extensions_from_call_context (Some (cx_requested cx));
          missing = filter (\<lambda>(uri, field). uri \<notin> set requested) (extension_requirements rq)
      in if missing = [] then Inr ()
         else Inl (A2AError ''UnsupportedOperationError''
                ''Request requires explicit A2A extension negotiation via A2A-Extensions.''
                (PDict [(''type'', PStr ''EXTENSION_NEGOTIATION_REQUIRED''),
                        (''fields'', PList (map (PStr \<circ> snd) missing)),
                        (''required_extensions'', mode_list (sort (remdups (map fst missing)))),
                        (''requested_extensions'', mode_list (sort (remdups requested))),
                        (''header'', PStr ''A2A-Extensions'')])))"

definition validate_message :: "send_request \<Rightarrow> call_context \<Rightarrow> rpc_error + unit" where
  "validate_message rq cx =
     (case validate_chat_output_modes rq of
        Inl e \<Rightarrow> Inl e | Inr _ \<Rightarrow> validate_shared_extension_negotiation rq cx)"

section \<open>Messages\<close>

definition canonical_answer :: "payload \<Rightarrow> payload" where
  "canonical_answer p = (case p of PTask t \<Rightarrow> PTask (canonicalize_stream_artifacts t) | _ \<Rightarrow> p)"

definition answer_id :: "send_request \<Rightarrow> payload \<Rightarrow> string" where
  "answer_id rq p = or_else (case p of PTask t \<Rightarrow> tk_id t | _ \<Rightarrow> []) (mg_task_id (sr_message rq))"

definition on_message_send ::
    "('q, 't) sdk_requests \<Rightarrow> call_context \<Rightarrow> send_request \<Rightarrow> 't \<Rightarrow> (store_failure + payload option) \<times> 't" where
  "on_message_send H cx rq st =
     (case validate_message rq cx of
        Inl e \<Rightarrow> (Inl (SdkFailure e), st)
      | Inr _ \<Rightarrow>
          (case sh_send H cx rq st of
             (Inl e, st1) \<Rightarrow> (Inl (task_store_server_error e), st1)
           | (Inr p, st1) \<Rightarrow>
               (let p = canonical_answer p
                in (Inr (negotiate H p (modes_for_task (sh_modes H st1) (answer_id rq p) (sr_modes rq) (as_task p))), st1))))"

definition on_message_send_stream ::
    "('q, 't) sdk_requests \<Rightarrow> call_context \<Rightarrow> send_request \<Rightarrow> 't \<Rightarrow> (payload list \<times> store_failure option) \<times> 't" where
  "on_message_send_stream H cx rq st =
     (case validate_message rq cx of
        Inl e \<Rightarrow> (([], Some (SdkFailure e)), st)
      | Inr _ \<Rightarrow>
          (let ((events, ended), st1) = sh_send_stream H cx rq st
           in ((shown_events H (\<lambda>registry p. modes_for_task registry
                   (or_else (event_task_id p) (mg_task_id (sr_message rq))) (sr_modes rq) (as_task p)) events,
                map_option task_store_server_error ended), st1)))"

section \<open>What is shown is negotiated\<close>

lemma annotated_parts [simp]: "payload_parts (annotate_output_negotiation_metadata p m) = payload_parts p"
  by (cases p) (simp_all add: message_parts_def)

lemma filtered_parts [simp]: "payload_parts (filter_negotiated_extensions_from_payload p requested) = payload_parts p"
  by (cases p) (auto simp: message_parts_def filter_message_metadata_def filter_artifact_metadata_def comp_def
      split: option.splits)

lemma modes_value_normal:
  "normalize_accepted_output_modes (mode_list ms) = Some ms \<Longrightarrow> normalize_accepted_output_modes (modes_value (Some ms)) = Some ms"
  by (simp add: modes_value_def)

lemma negotiated_parts:
  assumes "normalize_accepted_output_modes (mode_list ms) = Some ms"
    and "negotiate H p (Some ms) = Some p'" "q \<in> set (payload_parts p')"
  shows "part_accepted ms q"
  using assms(2,3) only_accepted_parts_leave [OF modes_value_normal [OF assms(1)]] by (auto simp: negotiate_def)

lemma negotiated_is_task:
  "negotiate H (PTask t) accepted = Some p \<Longrightarrow> \<exists>t'. p = PTask t' \<and> tk_id t' = tk_id t \<and> tk_state t' = tk_state t"
  by (auto simp: negotiate_def apply_accepted_output_modes_def filter_task_def split: option.splits)

lemma negotiated_task_some: "\<exists>t'. negotiate H (PTask t) accepted = Some (PTask t')"
  by (simp add: negotiate_def apply_accepted_output_modes_def split: option.splits)

lemma requested_modes_ok:
  "normalize_accepted_output_modes v = Some ms \<Longrightarrow> modes_for_task registry task_id v t = Some ms"
  by (simp add: modes_for_task_def)

lemma shown_events_parts:
  assumes "\<And>p r. modes_of r p = Some ms" "normalize_accepted_output_modes (mode_list ms) = Some ms"
    and "p \<in> set (shown_events H modes_of events)" "q \<in> set (payload_parts p)"
  shows "part_accepted ms q"
  using assms by (auto simp: shown_events_def map_filter_def intro: negotiated_parts)

text \<open>The metadata of a task, its messages and its artifacts.\<close>

definition task_metadata :: "task \<Rightarrow> mapping set" where
  "task_metadata t = insert (tk_metadata t)
     (mg_metadata ` (set_option (tk_message t) \<union> set (tk_history t)) \<union> ar_metadata ` set (tk_artifacts t))"

lemma filtered_task_metadata:
  assumes "filter_negotiated_extensions_from_payload (PTask t) requested = PTask t'"
    and "m \<in> task_metadata t'"
    and "map_of (shared_of m) k \<noteq> None"
  shows "negotiated_key requested k"
proof -
  obtain m0 where "m = filtered_metadata requested m0"
    using assms(1,2) by (auto simp: task_metadata_def filter_message_metadata_def filter_artifact_metadata_def)
  with assms(3) show ?thesis by (simp add: filtered_shared_lookup split: if_splits)
qed

text \<open>C30. A task that is read is shown in the modes negotiated for it and with the metadata negotiated for this
  call: no part of another media type, no shared metadata of an extension the caller did not ask for,
  neither of the task nor of its messages and artifacts.\<close>

theorem reads_show_what_was_negotiated:
  assumes "sh_get_task H cx task_id st = (Inr (Some t), st')"
    and "modes_resolve task_id (Some t) (sh_modes H st') = Some ms" "modes_ok (sh_modes H st')"
  shows "\<exists>t'. on_get_task H cx task_id st = (Inr (Some (PTask t')), st') \<and> tk_id t' = tk_id t \<and> tk_state t' = tk_state t \<and>
    (\<forall>q \<in> set (payload_parts (PTask t')). part_accepted ms q) \<and>
    (\<forall>m \<in> task_metadata t'. \<forall>k. map_of (shared_of m) k \<noteq> None \<longrightarrow>
         negotiated_key (requested_extensions_from_call_context (Some (cx_requested cx))) k)"
proof -
  have modes: "modes_for_task (sh_modes H st') task_id PNone (Some t) = Some ms"
    using assms(2) by (simp add: modes_for_task_def normalize_accepted_output_modes_def)
  obtain n where n: "negotiate H (PTask t) (Some ms) = Some (PTask n)" using negotiated_task_some by metis
  obtain t' where t': "with_extensions cx (PTask n) = PTask t'" by (simp add: with_extensions_def)
  have fields: "tk_id t' = tk_id n" "tk_state t' = tk_state n" "payload_parts (PTask t') = payload_parts (PTask n)"
    using t' filtered_parts [of "PTask n"] unfolding with_extensions_def by auto
  have "on_get_task H cx task_id st = (Inr (Some (PTask t')), st')"
    by (simp add: on_get_task_def assms(1) shown_task_def modes n as_task_def t')
  moreover have "part_accepted ms q" if "q \<in> set (payload_parts (PTask t'))" for q
    using that negotiated_parts [OF resolved_ok [OF assms(3,2)] n] unfolding fields(3) by blast
  moreover have "tk_id t' = tk_id t" "tk_state t' = tk_state t" using fields(1,2) negotiated_is_task [OF n] by auto
  ultimately show ?thesis
    using filtered_task_metadata [OF t' [unfolded with_extensions_def]] by blast
qed

text \<open>The answers to a message, at once or as a stream, hold nothing in a mode its sender does not accept.\<close>

theorem answers_keep_to_accepted_modes:
  assumes "normalize_accepted_output_modes (sr_modes rq) = Some ms"
    and "on_message_send H cx rq st = (Inr (Some p), st') \<or>
         on_message_send_stream H cx rq st = ((ps, ended), st') \<and> p \<in> set ps"
  shows "\<forall>q \<in> set (payload_parts p). part_accepted ms q"
proof
  fix q assume q: "q \<in> set (payload_parts p)"
  note ok = normalize_idem [OF assms(1)]
  from assms(2) show "part_accepted ms q"
  proof (elim disjE conjE)
    assume "on_message_send H cx rq st = (Inr (Some p), st')"
    then obtain p0 where "negotiate H p0 (Some ms) = Some p"
      by (auto simp: on_message_send_def Let_def requested_modes_ok [OF assms(1)] split: sum.splits prod.splits)
    from negotiated_parts [OF ok this q] show ?thesis .
  next
    assume "on_message_send_stream H cx rq st = ((ps, ended), st')" "p \<in> set ps"
    then show ?thesis
      using shown_events_parts [OF requested_modes_ok [OF assms(1)] ok _ q]
      by (auto simp: on_message_send_stream_def Let_def split: sum.splits prod.splits)
  qed
qed

section \<open>What reaches the executor\<close>

text \<open>What a message may ask for, as the contract has it: text among its modes, and every extension it uses.\<close>

definition message_allowed :: "send_request \<Rightarrow> call_context \<Rightarrow> bool" where
  "message_allowed rq cx \<longleftrightarrow>
     (\<forall>ms. normalize_accepted_output_modes (sr_modes rq) = Some ms \<longrightarrow> ''text/plain'' \<in> set ms) \<and>
     (carries rq ''shared'' [''session'', ''id''] \<or> carries rq ''opencode'' [''directory''] \<or> carries rq ''opencode'' [''workspace'', ''id'']
        \<longrightarrow> SESSION_BINDING_EXTENSION_URI \<in> set (requested_extensions_from_call_context (Some (cx_requested cx)))) \<and>
     (carries rq ''shared'' [''model'', ''providerID''] \<or> carries rq ''shared'' [''model'', ''modelID'']
        \<longrightarrow> MODEL_SELECTION_EXTENSION_URI \<in> set (requested_extensions_from_call_context (Some (cx_requested cx))))"

lemma chat_modes_ok:
  "validate_chat_output_modes rq = Inr u \<longleftrightarrow>
     (\<forall>ms. normalize_accepted_output_modes (sr_modes rq) = Some ms \<longrightarrow> ''text/plain'' \<in> set ms)"
  by (auto simp: validate_chat_output_modes_def CHAT_OUTPUT_MODES_def split: option.splits)

lemma extensions_ok:
  "validate_shared_extension_negotiation rq cx = Inr u \<longleftrightarrow>
     (\<forall>(uri, field) \<in> set (extension_requirements rq). uri \<in> set (requested_extensions_from_call_context (Some (cx_requested cx))))"
  by (auto simp: validate_shared_extension_negotiation_def Let_def filter_empty_conv)

lemma requirements_met:
  "(\<forall>(uri, field) \<in> set (extension_requirements rq). uri \<in> S) \<longleftrightarrow>
     (carries rq ''shared'' [''session'', ''id''] \<or> carries rq ''opencode'' [''directory''] \<or> carries rq ''opencode'' [''workspace'', ''id'']
        \<longrightarrow> SESSION_BINDING_EXTENSION_URI \<in> S) \<and>
     (carries rq ''shared'' [''model'', ''providerID''] \<or> carries rq ''shared'' [''model'', ''modelID'']
        \<longrightarrow> MODEL_SELECTION_EXTENSION_URI \<in> S)"
  unfolding extension_requirements_def set_append ball_Un by simp

lemma message_ok: "validate_message rq cx = Inr u \<longleftrightarrow> message_allowed rq cx"
proof -
  have "validate_message rq cx = Inr u \<longleftrightarrow>
      validate_chat_output_modes rq = Inr () \<and> validate_shared_extension_negotiation rq cx = Inr u"
    by (cases "validate_chat_output_modes rq") (simp_all add: validate_message_def)
  then show ?thesis unfolding message_allowed_def chat_modes_ok extensions_ok requirements_met .
qed

text \<open>C29. A message that asks for what was not negotiated, or cannot take text, reaches neither the SDK nor the
  executor: it is refused with an error of the protocol whatever they would do, and nothing changes. Every
  other message is handed on.\<close>

theorem messages_are_checked_first:
  "(\<not> message_allowed rq cx \<longrightarrow>
      (\<exists>e. \<forall>H :: ('q, 't) sdk_requests. on_message_send H cx rq st = (Inl (SdkFailure e), st) \<and>
        on_message_send_stream H cx rq st = (([], Some (SdkFailure e)), st))) \<and>
   (message_allowed rq cx \<longrightarrow>
      (\<forall>H :: ('q, 't) sdk_requests. snd (on_message_send H cx rq st) = snd (sh_send H cx rq st) \<and>
        snd (on_message_send_stream H cx rq st) = snd (sh_send_stream H cx rq st)))"
proof (cases "validate_message rq cx")
  case (Inl e)
  then have "\<not> message_allowed rq cx" using message_ok [of rq cx "()"] by simp
  with Inl show ?thesis by (auto simp: on_message_send_def on_message_send_stream_def)
next
  case (Inr u)
  then have "message_allowed rq cx" using message_ok by simp
  with Inr show ?thesis
    by (auto simp: on_message_send_def on_message_send_stream_def Let_def split: sum.splits prod.splits)
qed

section \<open>Failures of the store\<close>

definition is_store_failure :: "store_failure \<Rightarrow> bool" where
  "is_store_failure e = (case e of TaskStoreOperationError _ _ \<Rightarrow> True | _ \<Rightarrow> False)"

lemma server_error_hides: "\<not> is_store_failure (task_store_server_error e)"
  by (cases e) (simp_all add: task_store_server_error_def is_store_failure_def)

lemma other_failures: "\<not> is_store_failure (SdkFailure e)"
  by (simp add: is_store_failure_def)

text \<open>A failing task store is an error of the protocol without the id of the task: every core method but
  the cancelling of a task turns it into one.\<close>

theorem store_failures_are_hidden:
  assumes "on_get_task H cx task_id st = (Inl e, st') \<or> on_list_tasks H cx params n st = (Inl e, st') \<or>
    on_subscribe_to_task H cx task_id st = ((ps, Some e), st') \<or>
    on_message_send H cx rq st = (Inl e, st') \<or> on_message_send_stream H cx rq st = ((ps, Some e), st')"
  shows "\<not> is_store_failure e"
  using assms server_error_hides other_failures
  by (elim disjE) (fastforce simp: on_get_task_def on_list_tasks_def on_subscribe_to_task_def on_message_send_def
      on_message_send_stream_def task_not_found_def Let_def split: sum.splits prod.splits option.splits if_splits)+

section \<open>Where cancelling differs\<close>

text \<open>Cancelling a task that has ended reads it a second time to see whether another call cancelled it
  meanwhile. A failure of that read is not turned into an error of the protocol: it leaves as it is.\<close>

theorem cancelling_leaks_store_failures:
  assumes "sh_load H cx task_id st = (Inr (Some t), st1)"
    and "tk_state t \<in> TERMINAL_TASK_STATES" "tk_state t \<noteq> TASK_STATE_CANCELED"
    and "sh_load H cx task_id st1 = (Inl e, st2)"
  shows "on_cancel_task H cx task_id st = (Inl e, st2)"
  using assms by (simp add: on_cancel_task_def try_cancel_def is_not_cancelable_def task_not_cancelable_def)

lemma merged_shared: "dget (merge_output_negotiation_metadata m v) ''shared'' = dget m ''shared''"
  by (simp add: merge_output_negotiation_metadata_def dget_dset Let_def split: option.splits)

text \<open>What is negotiated is withheld from whoever reads the task, but not from whoever cancels it again.\<close>

theorem cancelling_shows_all_metadata:
  assumes "sh_load H cx task_id st = (Inr (Some t), st1)" "tk_state t = TASK_STATE_CANCELED"
  shows "\<exists>t'. on_cancel_task H cx task_id st = (Inr (Some (PTask t')), st1) \<and> shared_of (tk_metadata t') = shared_of (tk_metadata t)"
proof -
  obtain t' where t': "shown_task H (tk_id t) t st1 = Some (PTask t')"
    unfolding shown_task_def using negotiated_task_some by metis
  then have "shared_of (tk_metadata t') = shared_of (tk_metadata t)"
    by (auto simp: shown_task_def negotiate_def apply_accepted_output_modes_def filter_task_def shared_of_def merged_shared
        split: option.splits)
  with t' show ?thesis by (simp add: on_cancel_task_def try_cancel_def assms)
qed

section \<open>Samples\<close>

text \<open>An SDK that holds one task, whose store fails after the first read, and that answers a message with it.\<close>

definition one_task_sdk :: "task \<Rightarrow> (unit, nat) sdk_requests" where
  "one_task_sdk t =
     \<lparr>sh_modes = (\<lambda>_. Map.empty),
      sh_load = (\<lambda>cx task_id n. (if n = 0 then Inr (Some t) else Inl (TaskStoreOperationError ''get'' (Some task_id)), Suc n)),
      sh_get_task = (\<lambda>cx task_id n. (if n = 0 then Inr (Some t) else Inl (TaskStoreOperationError ''get'' (Some task_id)), Suc n)),
      sh_list_tasks = (\<lambda>cx q n. (Inr [t], n)), sh_cancel_task = (\<lambda>cx task_id n. (Inr (Some t), n)),
      sh_subscribe = (\<lambda>cx task_id n. (([(PTask t, Map.empty)], None), n)),
      sh_send = (\<lambda>cx rq n. (Inr (PTask t), Suc n)), sh_send_stream = (\<lambda>cx rq n. (([(PTask t, Map.empty)], None), Suc n)),
      sh_to_dict = (\<lambda>v. v), sh_float = (\<lambda>_. []), sh_not_found = ''Task not found''\<rparr>"

definition held_task :: task where
  "held_task = sample_task\<lparr>
     tk_artifacts := [\<lparr>ar_artifact_id = ''a'', ar_name = [], ar_parts = [text_part ''done'', make_data_part (PStr ''x'')], ar_metadata = []\<rparr>],
     tk_metadata := [(''shared'', PDict [(''session'', PDict [(''id'', PStr ''ses1'')])]),
       (''opencode'', PDict [(''output_negotiation'', PDict [(''accepted_output_modes'', mode_list [''text/plain''])])])]\<rparr>"

definition asked_message :: "mapping \<Rightarrow> send_request" where
  "asked_message metadata = \<lparr>sr_message = \<lparr>mg_message_id = ''m1'', mg_role = ROLE_USER, mg_parts = [text_part ''hi''],
     mg_task_id = [], mg_context_id = [], mg_metadata = metadata\<rparr>, sr_metadata = [], sr_modes = mode_list [''text/plain'']\<rparr>"

definition plain_context :: call_context where
  "plain_context = \<lparr>cx_state = [], cx_user = UnauthenticatedUser, cx_tenant = [], cx_requested = []\<rparr>"

theorem reads_show_what_was_negotiated_witness:
  "\<exists>t'. on_get_task (one_task_sdk held_task) plain_context ''t1'' 0 = (Inr (Some (PTask t')), 1) \<and>
    (\<forall>q \<in> set (payload_parts (PTask t')). part_accepted [''text/plain''] q) \<and>
    map_of (shared_of (tk_metadata t')) ''session'' = None"
proof -
  have got: "sh_get_task (one_task_sdk held_task) plain_context ''t1'' 0 = (Inr (Some held_task), 1)"
    by (simp add: one_task_sdk_def)
  have modes: "modes_resolve ''t1'' (Some held_task) (sh_modes (one_task_sdk held_task) 1) = Some [''text/plain'']"
    by code_simp
  have ok: "modes_ok (sh_modes (one_task_sdk held_task) 1)" by (simp add: one_task_sdk_def modes_ok_empty)
  have "\<not> negotiated_key (requested_extensions_from_call_context (Some (cx_requested plain_context))) ''session''"
    by code_simp
  with reads_show_what_was_negotiated [OF got modes ok] show ?thesis
    unfolding task_metadata_def by blast
qed

theorem answers_keep_to_accepted_modes_witness:
  "\<exists>p. on_message_send (one_task_sdk held_task) plain_context (asked_message []) 0 = (Inr (Some p), 1) \<and>
    (\<forall>q \<in> set (payload_parts p). part_accepted [''text/plain''] q)"
proof -
  have ms: "normalize_accepted_output_modes (sr_modes (asked_message [])) = Some [''text/plain'']" by code_simp
  have "case on_message_send (one_task_sdk held_task) plain_context (asked_message []) 0 of
      (Inr (Some p), n) \<Rightarrow> n = 1 | _ \<Rightarrow> False"
    by code_simp
  then have "\<exists>p. on_message_send (one_task_sdk held_task) plain_context (asked_message []) 0 = (Inr (Some p), 1)"
    by (auto split: prod.splits sum.splits option.splits)
  then show ?thesis using answers_keep_to_accepted_modes [OF ms] by metis
qed

theorem messages_are_checked_first_witness:
  "\<exists>e. on_message_send (one_task_sdk held_task) plain_context
    (asked_message [(''shared'', PDict [(''session'', PDict [(''id'', PStr ''ses1'')])])]) 0 = (Inl (SdkFailure e), 0)"
proof -
  let ?rq = "asked_message [(''shared'', PDict [(''session'', PDict [(''id'', PStr ''ses1'')])])]"
  have "carries ?rq ''shared'' [''session'', ''id'']" by code_simp
  moreover have "SESSION_BINDING_EXTENSION_URI \<notin> set (requested_extensions_from_call_context (Some (cx_requested plain_context)))"
    by code_simp
  ultimately have "\<not> message_allowed ?rq plain_context" by (simp add: message_allowed_def)
  then show ?thesis using messages_are_checked_first [of ?rq plain_context "0::nat"] by blast
qed

theorem store_failures_are_hidden_witness:
  "\<exists>e. on_get_task (one_task_sdk held_task) plain_context ''t1'' 1 = (Inl e, 2) \<and> \<not> is_store_failure e"
proof -
  have "on_get_task (one_task_sdk held_task) plain_context ''t1'' 1 =
      (Inl (SdkFailure (A2AError ''InternalError'' ''Task store unavailable while loading task state.'' PNone)), 2)"
    by code_simp
  with store_failures_are_hidden [OF disjI1 [OF this]] show ?thesis by blast
qed

theorem cancelling_leaks_store_failures_witness:
  "fst (on_cancel_task (one_task_sdk held_task) plain_context ''t1'' 0) = Inl (TaskStoreOperationError ''get'' (Some ''t1''))"
  by (subst cancelling_leaks_store_failures [where t = held_task and ?st1.0 = 1 and ?st2.0 = 2])
    (simp_all add: one_task_sdk_def held_task_def sample_task_def TERMINAL_TASK_STATES_def)

theorem cancelling_shows_all_metadata_witness:
  "\<exists>t'. fst (on_cancel_task (one_task_sdk (held_task\<lparr>tk_state := TASK_STATE_CANCELED\<rparr>)) plain_context ''t1'' 0) = Inr (Some (PTask t')) \<and>
    map_of (shared_of (tk_metadata t')) ''session'' \<noteq> None"
proof -
  let ?t = "held_task\<lparr>tk_state := TASK_STATE_CANCELED\<rparr>"
  have "sh_load (one_task_sdk ?t) plain_context ''t1'' 0 = (Inr (Some ?t), 1)" by (simp add: one_task_sdk_def)
  from cancelling_shows_all_metadata [OF this] obtain t' where
    "on_cancel_task (one_task_sdk ?t) plain_context ''t1'' 0 = (Inr (Some (PTask t')), 1)"
    "shared_of (tk_metadata t') = shared_of (tk_metadata ?t)" by auto
  moreover have "map_of (shared_of (tk_metadata ?t)) ''session'' \<noteq> None" by code_simp
  ultimately show ?thesis by auto
qed

end
