(* ===== verification/State_Schema.thy ===== *)
theory State_Schema
  imports Py_Prelude
begin

text \<open>
  The schema of the state database and its migrations (\<open>server/migrations.py\<close>, with the tables of
  \<open>server/state_store.py\<close>). A database is its tables, with their columns, indexes and rows, and the table
  of schema versions. Shown is that a database of any older version ends at the current one with its
  rows kept, and that a migration that broke off anywhere is completed by the next start.
\<close>

section \<open>Tables\<close>

record column =
  co_name :: string
  co_primary_key :: bool
  co_nullable :: bool

record table_index =
  ix_name :: string
  ix_columns :: "string list"

record table_def =
  td_name :: string
  td_columns :: "column list"
  td_indexes :: "table_index list"

definition key_column :: "string \<Rightarrow> column" where
  "key_column name = \<lparr>co_name = name, co_primary_key = True, co_nullable = False\<rparr>"

definition required_column :: "string \<Rightarrow> column" where
  "required_column name = \<lparr>co_name = name, co_primary_key = False, co_nullable = False\<rparr>"

definition nullable_column :: "string \<Rightarrow> column" where
  "nullable_column name = \<lparr>co_name = name, co_primary_key = False, co_nullable = True\<rparr>"

definition SESSION_BINDINGS :: table_def where
  "SESSION_BINDINGS = \<lparr>td_name = ''a2a_session_bindings'',
     td_columns = [key_column ''identity'', key_column ''context_id'', required_column ''session_id''], td_indexes = []\<rparr>"

definition SESSION_OWNERS :: table_def where
  "SESSION_OWNERS = \<lparr>td_name = ''a2a_session_owners'',
     td_columns = [key_column ''session_id'', required_column ''identity''], td_indexes = []\<rparr>"

definition PENDING_SESSION_CLAIMS :: table_def where
  "PENDING_SESSION_CLAIMS = \<lparr>td_name = ''a2a_pending_session_claims'',
     td_columns = [key_column ''session_id'', required_column ''identity'', nullable_column ''updated_at'', nullable_column ''expires_at''],
     td_indexes = [\<lparr>ix_name = ''ix_a2a_pending_session_claims_expires_at'', ix_columns = [''expires_at'']\<rparr>]\<rparr>"

definition INTERRUPT_REQUESTS :: table_def where
  "INTERRUPT_REQUESTS = \<lparr>td_name = ''a2a_interrupt_requests'',
     td_columns = [key_column ''request_id'', nullable_column ''session_id'', nullable_column ''interrupt_type'',
       nullable_column ''identity'', nullable_column ''credential_id'', nullable_column ''task_id'', nullable_column ''context_id'',
       nullable_column ''details_json'', nullable_column ''expires_at'', nullable_column ''tombstone_expires_at''],
     td_indexes =
       [\<lparr>ix_name = ''ix_a2a_interrupt_requests_identity_expires_at'', ix_columns = [''identity'', ''expires_at'']\<rparr>,
        \<lparr>ix_name = ''ix_a2a_interrupt_requests_identity_type_expires_at'', ix_columns = [''identity'', ''interrupt_type'', ''expires_at'']\<rparr>,
        \<lparr>ix_name = ''ix_a2a_interrupt_requests_tombstone_expires_at'', ix_columns = [''tombstone_expires_at'']\<rparr>]\<rparr>"

definition STATE_METADATA :: "table_def list" where
  "STATE_METADATA = [SESSION_BINDINGS, SESSION_OWNERS, PENDING_SESSION_CLAIMS, INTERRUPT_REQUESTS]"

definition column_names :: "table_def \<Rightarrow> string list" where
  "column_names t = map co_name (td_columns t)"

definition index_names :: "table_def \<Rightarrow> string list" where
  "index_names t = map ix_name (td_indexes t)"

section \<open>Databases\<close>

record stored_table =
  sc_columns :: "string list"
  sc_indexes :: "string list"
  sc_rows :: "mapping list"

text \<open>\<open>db_versions\<close> is the table \<open>a2a_schema_version\<close>; \<open>None\<close> if it does not exist.\<close>

record database =
  db_tables :: "string \<Rightarrow> stored_table option"
  db_versions :: "(string \<Rightarrow> int option) option"

datatype schema_error = SchemaRuntimeError string | SchemaValueError string | DatabaseError string

type_synonym migration = "database \<Rightarrow> schema_error option \<times> database"

definition with_table :: "string \<Rightarrow> stored_table \<Rightarrow> database \<Rightarrow> database" where
  "with_table name t db = db\<lparr>db_tables := (db_tables db)(name \<mapsto> t)\<rparr>"

text \<open>\<open>create_all\<close> makes the tables that are missing, with their indexes, and leaves the others alone.\<close>

definition create_table :: "table_def \<Rightarrow> database \<Rightarrow> database" where
  "create_table t db =
     (case db_tables db (td_name t) of
        Some _ \<Rightarrow> db
      | None \<Rightarrow> with_table (td_name t) \<lparr>sc_columns = column_names t, sc_indexes = index_names t, sc_rows = []\<rparr> db)"

definition create_all :: "table_def list \<Rightarrow> database \<Rightarrow> database" where
  "create_all ts db = fold create_table ts db"

definition create_version_table :: "database \<Rightarrow> database" where
  "create_version_table db = (case db_versions db of Some _ \<Rightarrow> db | None \<Rightarrow> db\<lparr>db_versions := Some Map.empty\<rparr>)"

section \<open>Migrations\<close>

definition add_missing_nullable_column :: "table_def \<Rightarrow> string \<Rightarrow> migration" where
  "add_missing_nullable_column t column_name db =
     (case db_tables db (td_name t) of
        None \<Rightarrow> (Some (DatabaseError (td_name t)), db)
      | Some s \<Rightarrow>
          if column_name \<in> set (sc_columns s) then (None, db)
          else (case List.find (\<lambda>c. co_name c = column_name) (td_columns t) of
                  None \<Rightarrow> (Some (DatabaseError column_name), db)
                | Some c \<Rightarrow>
                    if co_primary_key c \<or> \<not> co_nullable c
                    then (Some (SchemaRuntimeError (''Unsupported state-store migration for '' @ td_name t @ ''.'' @ column_name)), db)
                    else (None, with_table (td_name t) (s\<lparr>sc_columns := sc_columns s @ [column_name]\<rparr>) db)))"

text \<open>A database refuses an index on a column that does not exist.\<close>

definition create_missing_index :: "table_def \<times> table_index \<Rightarrow> migration" where
  "create_missing_index ti db =
     (case ti of (t, i) \<Rightarrow>
        case db_tables db (td_name t) of
          None \<Rightarrow> (Some (DatabaseError (td_name t)), db)
        | Some s \<Rightarrow>
            if ix_name i \<in> set (sc_indexes s) then (None, db)
            else if \<not> set (ix_columns i) \<subseteq> set (sc_columns s) then (Some (DatabaseError (ix_name i)), db)
            else (None, with_table (td_name t) (s\<lparr>sc_indexes := sc_indexes s @ [ix_name i]\<rparr>) db))"

fun run_all :: "migration list \<Rightarrow> migration" where
  "run_all [] db = (None, db)"
| "run_all (m # ms) db = (case m db of (Some e, db1) \<Rightarrow> (Some e, db1) | (None, db1) \<Rightarrow> run_all ms db1)"

definition migration_1 :: migration where
  "migration_1 = add_missing_nullable_column INTERRUPT_REQUESTS ''details_json''"

definition migration_2 :: migration where
  "migration_2 = add_missing_nullable_column PENDING_SESSION_CLAIMS ''expires_at''"

definition migration_3 :: migration where
  "migration_3 = run_all (map create_missing_index (sort_key (\<lambda>(t, i). ix_name i)
     (concat (map (\<lambda>t. map (Pair t) (td_indexes t)) [PENDING_SESSION_CLAIMS, INTERRUPT_REQUESTS]))))"

definition migration_4 :: migration where
  "migration_4 = add_missing_nullable_column INTERRUPT_REQUESTS ''credential_id''"

definition migration_5 :: migration where
  "migration_5 db =
     (case db_tables db (td_name PENDING_SESSION_CLAIMS) of
        None \<Rightarrow> (Some (DatabaseError (td_name PENDING_SESSION_CLAIMS)), db)
      | Some s \<Rightarrow> (None, with_table (td_name PENDING_SESSION_CLAIMS)
           (s\<lparr>sc_rows := filter (\<lambda>row. dget row ''expires_at'' \<noteq> PNone) (sc_rows s)\<rparr>) db))"

section \<open>Versions\<close>

definition read_schema_version :: "string \<Rightarrow> database \<Rightarrow> int option" where
  "read_schema_version scope db = Option.bind (db_versions db) (\<lambda>versions. versions scope)"

definition set_version :: "string \<Rightarrow> int \<Rightarrow> database \<Rightarrow> database" where
  "set_version scope version db = db\<lparr>db_versions := Some ((case db_versions db of None \<Rightarrow> Map.empty | Some v \<Rightarrow> v)(scope \<mapsto> version))\<rparr>"

text \<open>
  An update where there is a row, an insert where there is none; an insert that comes too late is an update
  again. What another process does between the reading and the insert is \<open>race\<close>.
\<close>

definition write_schema_version :: "(database \<Rightarrow> database) \<Rightarrow> string \<Rightarrow> int \<Rightarrow> database \<Rightarrow> database" where
  "write_schema_version race scope version db =
     (case read_schema_version scope db of
        Some _ \<Rightarrow> set_version scope version db
      | None \<Rightarrow>
          (let db1 = race db
           in case read_schema_version scope db1 of
                None \<Rightarrow> set_version scope version db1
              | Some _ \<Rightarrow> set_version scope version db1))"

text \<open>The steps for the given versions.\<close>

fun migrate_through :: "(database \<Rightarrow> database) \<Rightarrow> string \<Rightarrow> (int \<Rightarrow> migration option) \<Rightarrow> int list \<Rightarrow> migration" where
  "migrate_through race scope migrations [] db = (None, db)"
| "migrate_through race scope migrations (version # versions) db =
     (case migrations version of
        None \<Rightarrow> (Some (SchemaRuntimeError (''Missing migration for schema scope '' @ py_repr_str scope @ '' version '' @ str_int version)), db)
      | Some m \<Rightarrow>
          (case m db of
             (Some e, db1) \<Rightarrow> (Some e, db1)
           | (None, db1) \<Rightarrow> migrate_through race scope migrations versions (write_schema_version race scope version db1)))"

definition apply_schema_migrations ::
    "(database \<Rightarrow> database) \<Rightarrow> string \<Rightarrow> int \<Rightarrow> (int \<Rightarrow> migration option) \<Rightarrow> migration" where
  "apply_schema_migrations race scope current_version migrations db =
     (if current_version < 0 then (Some (SchemaValueError ''current_version must be non-negative''), db)
      else (let stored_version = read_schema_version scope db;
                starting_version = (case stored_version of None \<Rightarrow> 0 | Some v \<Rightarrow> v)
            in if stored_version \<noteq> None \<and> starting_version > current_version
               then (Some (SchemaRuntimeError (''Database schema scope '' @ py_repr_str scope @ '' is newer than this application supports'')), db)
               else migrate_through race scope migrations [starting_version + 1..current_version] db))"

definition STATE_STORE_SCHEMA_NAME :: string where
  "STATE_STORE_SCHEMA_NAME = ''state_store''"

definition CURRENT_STATE_STORE_SCHEMA_VERSION :: int where
  "CURRENT_STATE_STORE_SCHEMA_VERSION = 5"

definition state_migrations :: "int \<Rightarrow> migration option" where
  "state_migrations version = map_of [(1, migration_1), (2, migration_2), (3, migration_3), (4, migration_4), (5, migration_5)] version"

definition migrate_state_store_schema :: "(database \<Rightarrow> database) \<Rightarrow> int \<Rightarrow> migration" where
  "migrate_state_store_schema race current_version db =
     apply_schema_migrations race STATE_STORE_SCHEMA_NAME current_version state_migrations
       (create_all STATE_METADATA (create_version_table db))"

section \<open>Every older database becomes current\<close>

abbreviation CLAIMS :: string where
  "CLAIMS \<equiv> td_name PENDING_SESSION_CLAIMS"

abbreviation INTERRUPTS :: string where
  "INTERRUPTS \<equiv> td_name INTERRUPT_REQUESTS"

text \<open>The columns a database of a version may lack, and what a database of a version has.\<close>

definition missing_columns :: "int \<Rightarrow> string \<Rightarrow> string set" where
  "missing_columns version name =
     (if name = INTERRUPTS then (if version < 1 then {''details_json''} else {}) \<union> (if version < 4 then {''credential_id''} else {})
      else if name = CLAIMS \<and> version < 2 then {''expires_at''} else {})"

definition table_since :: "int \<Rightarrow> table_def \<Rightarrow> stored_table \<Rightarrow> bool" where
  "table_since version t s \<longleftrightarrow>
     set (column_names t) - missing_columns version (td_name t) \<subseteq> set (sc_columns s) \<and>
     (3 \<le> version \<longrightarrow> set (index_names t) \<subseteq> set (sc_indexes s))"

definition schema_since :: "int \<Rightarrow> database \<Rightarrow> bool" where
  "schema_since version db \<longleftrightarrow>
     (\<forall>t \<in> set STATE_METADATA. \<forall>s. db_tables db (td_name t) = Some s \<longrightarrow> table_since version t s)"

definition created :: "database \<Rightarrow> bool" where
  "created db \<longleftrightarrow> db_versions db \<noteq> None \<and> (\<forall>t \<in> set STATE_METADATA. db_tables db (td_name t) \<noteq> None)"

text \<open>Every table with all its columns and indexes.\<close>

definition current_schema :: "database \<Rightarrow> bool" where
  "current_schema db \<longleftrightarrow>
     (\<forall>t \<in> set STATE_METADATA. \<exists>s. db_tables db (td_name t) = Some s \<and>
        set (column_names t) \<subseteq> set (sc_columns s) \<and> set (index_names t) \<subseteq> set (sc_indexes s))"

definition rows_of :: "string \<Rightarrow> database \<Rightarrow> mapping list" where
  "rows_of name db = (case db_tables db name of None \<Rightarrow> [] | Some s \<Rightarrow> sc_rows s)"

definition live_claims :: "mapping list \<Rightarrow> mapping list" where
  "live_claims rows = filter (\<lambda>row. dget row ''expires_at'' \<noteq> PNone) rows"

lemmas table_defs = STATE_METADATA_def SESSION_BINDINGS_def SESSION_OWNERS_def PENDING_SESSION_CLAIMS_def INTERRUPT_REQUESTS_def

lemma table_names [simp]:
  "td_name SESSION_BINDINGS = ''a2a_session_bindings''" "td_name SESSION_OWNERS = ''a2a_session_owners''"
  "td_name PENDING_SESSION_CLAIMS = ''a2a_pending_session_claims''" "td_name INTERRUPT_REQUESTS = ''a2a_interrupt_requests''"
  by (simp_all add: table_defs)

text \<open>A step that only adds: the rows stay, nothing is lost.\<close>

definition table_grown :: "stored_table \<Rightarrow> stored_table \<Rightarrow> bool" where
  "table_grown s s' \<longleftrightarrow> sc_rows s' = sc_rows s \<and> set (sc_columns s) \<subseteq> set (sc_columns s') \<and> set (sc_indexes s) \<subseteq> set (sc_indexes s')"

definition grown :: "database \<Rightarrow> database \<Rightarrow> bool" where
  "grown db db' \<longleftrightarrow> db_versions db' = db_versions db \<and> (\<forall>name. rel_option table_grown (db_tables db name) (db_tables db' name))"

lemma table_grown_refl [simp]: "table_grown s s"
  by (simp add: table_grown_def)

lemma grown_refl [simp]: "grown db db"
  by (simp add: grown_def option.rel_refl)

lemma grown_trans:
  assumes "grown a b" "grown b c"
  shows "grown a c"
proof -
  have "transp table_grown" by (auto simp: transp_def table_grown_def)
  then have "transp (rel_option table_grown)" by (rule option.rel_transp)
  with assms show ?thesis unfolding grown_def by (metis transpD)
qed

lemma grown_with_table:
  "db_tables db name = Some s \<Longrightarrow> table_grown s s' \<Longrightarrow> grown db (with_table name s' db)"
  by (simp add: grown_def with_table_def option.rel_refl)

lemma grown_rows: "grown db db' \<Longrightarrow> rows_of name db' = rows_of name db"
  unfolding grown_def rows_of_def by (drule conjunct2, drule spec [of _ name])
    (auto simp: table_grown_def option_rel_Some1 split: option.splits)

lemma grownD:
  "grown db db' \<Longrightarrow> db_tables db name = Some s \<Longrightarrow> \<exists>s'. db_tables db' name = Some s' \<and> table_grown s s'"
  unfolding grown_def by (metis option_rel_Some1)

lemma add_column:
  assumes "db_tables db (td_name t) = Some s" "nullable_column name \<in> set (td_columns t)" "distinct (column_names t)"
  shows "\<exists>db' s'. add_missing_nullable_column t name db = (None, db') \<and> grown db db' \<and>
    db_tables db' (td_name t) = Some s' \<and> name \<in> set (sc_columns s') \<and> add_missing_nullable_column t name db' = (None, db')"
proof -
  have found: "List.find (\<lambda>c. co_name c = name) (td_columns t) = Some (nullable_column name)"
  proof -
    obtain c where c: "List.find (\<lambda>c. co_name c = name) (td_columns t) = Some c"
      using assms(2) by (cases "List.find (\<lambda>c. co_name c = name) (td_columns t)")
        (auto simp: find_None_iff nullable_column_def)
    then have "c \<in> set (td_columns t)" "co_name c = name" by (auto simp: find_Some_iff)
    moreover have "inj_on co_name (set (td_columns t))" using assms(3) by (simp add: column_names_def distinct_map)
    ultimately have "c = nullable_column name"
      using assms(2) by (metis inj_onD column.select_convs(1) nullable_column_def)
    with c show ?thesis by simp
  qed
  show ?thesis
  proof (cases "name \<in> set (sc_columns s)")
    case True
    then show ?thesis using assms(1) by (auto simp: add_missing_nullable_column_def)
  next
    case False
    let ?s' = "s\<lparr>sc_columns := sc_columns s @ [name]\<rparr>"
    have "add_missing_nullable_column t name db = (None, with_table (td_name t) ?s' db)"
      using assms(1) False found by (simp add: add_missing_nullable_column_def nullable_column_def)
    moreover have "grown db (with_table (td_name t) ?s' db)"
      using assms(1) by (intro grown_with_table) (auto simp: table_grown_def)
    moreover have "add_missing_nullable_column t name (with_table (td_name t) ?s' db) = (None, with_table (td_name t) ?s' db)"
      by (simp add: add_missing_nullable_column_def with_table_def)
    ultimately show ?thesis by (auto simp: with_table_def)
  qed
qed

lemma add_index:
  assumes "db_tables db (td_name t) = Some s" "set (ix_columns i) \<subseteq> set (sc_columns s)"
  shows "\<exists>db' s'. create_missing_index (t, i) db = (None, db') \<and> grown db db' \<and>
    db_tables db' (td_name t) = Some s' \<and> ix_name i \<in> set (sc_indexes s')"
proof (cases "ix_name i \<in> set (sc_indexes s)")
  case False
  let ?s' = "s\<lparr>sc_indexes := sc_indexes s @ [ix_name i]\<rparr>"
  have "grown db (with_table (td_name t) ?s' db)"
    using assms(1) by (intro grown_with_table) (auto simp: table_grown_def)
  then show ?thesis using assms False by (auto simp: create_missing_index_def with_table_def)
qed (use assms in \<open>auto simp: create_missing_index_def\<close>)

lemma grown_created: "grown db db' \<Longrightarrow> created db \<Longrightarrow> created db'"
  unfolding created_def grown_def by (metis option.rel_distinct(2) not_Some_eq)

lemma grown_since:
  assumes "grown db db'" "created db" "schema_since k db"
  shows "schema_since k db'"
  unfolding schema_since_def
proof (intro ballI allI impI)
  fix t s' assume t: "t \<in> set STATE_METADATA" "db_tables db' (td_name t) = Some s'"
  then obtain s where s: "db_tables db (td_name t) = Some s" using assms(2) by (auto simp: created_def)
  with t grownD [OF assms(1) s] have "table_grown s s'" by auto
  moreover have "table_since k t s" using assms(3) t(1) s by (simp add: schema_since_def)
  ultimately show "table_since k t s'" unfolding table_since_def table_grown_def by blast
qed

lemma since_next:
  assumes "schema_since k db"
    and "\<And>t s. t \<in> set STATE_METADATA \<Longrightarrow> db_tables db (td_name t) = Some s \<Longrightarrow>
      missing_columns k (td_name t) - missing_columns k' (td_name t) \<subseteq> set (sc_columns s) \<and>
      (3 \<le> k' \<and> \<not> 3 \<le> k \<longrightarrow> set (index_names t) \<subseteq> set (sc_indexes s))"
  shows "schema_since k' db"
  unfolding schema_since_def table_since_def
proof (intro ballI allI impI conjI)
  fix t s assume t: "t \<in> set STATE_METADATA" "db_tables db (td_name t) = Some s"
  have since: "table_since k t s" using assms(1) t by (simp add: schema_since_def)
  show "set (column_names t) - missing_columns k' (td_name t) \<subseteq> set (sc_columns s)"
    using since assms(2) [OF t] by (auto simp: table_since_def)
  assume "3 \<le> k'"
  then show "set (index_names t) \<subseteq> set (sc_indexes s)" using since assms(2) [OF t] by (auto simp: table_since_def)
qed

text \<open>What a migration does to a database of the version before: it succeeds, has its effect, and is
  without effect the second time.\<close>

definition migrates :: "int \<Rightarrow> migration \<Rightarrow> database \<Rightarrow> database \<Rightarrow> bool" where
  "migrates k m db db' \<longleftrightarrow> m db = (None, db') \<and> m db' = (None, db') \<and> db_versions db' = db_versions db \<and>
     created db' \<and> schema_since (k + 1) db' \<and> (\<forall>name. name \<noteq> CLAIMS \<longrightarrow> rows_of name db' = rows_of name db) \<and>
     rows_of CLAIMS db' = (if k = 4 then live_claims (rows_of CLAIMS db) else rows_of CLAIMS db)"

lemma migrates_grown:
  assumes "m db = (None, db')" "m db' = (None, db')" "grown db db'" "created db" "schema_since k db" "k \<noteq> 4"
    and "\<And>t s. t \<in> set STATE_METADATA \<Longrightarrow> db_tables db' (td_name t) = Some s \<Longrightarrow>
      missing_columns k (td_name t) - missing_columns (k + 1) (td_name t) \<subseteq> set (sc_columns s) \<and>
      (3 \<le> k + 1 \<and> \<not> 3 \<le> k \<longrightarrow> set (index_names t) \<subseteq> set (sc_indexes s))"
  shows "migrates k m db db'"
  using assms(1,2,6) grown_created [OF assms(3,4)] grown_rows [OF assms(3)] assms(3)
    since_next [OF grown_since [OF assms(3,4,5)] assms(7)]
  by (simp add: migrates_def grown_def)

lemma created_table: "created db \<Longrightarrow> t \<in> set STATE_METADATA \<Longrightarrow> \<exists>s. db_tables db (td_name t) = Some s"
  by (auto simp: created_def)

lemma migrates_column:
  assumes "created db" "schema_since k db" "k \<noteq> 4" "(3 \<le> k + 1) = (3 \<le> k)"
    and "t \<in> set STATE_METADATA" "nullable_column name \<in> set (td_columns t)" "distinct (column_names t)"
    and "\<And>n. missing_columns k n - missing_columns (k + 1) n \<subseteq> (if n = td_name t then {name} else {})"
  shows "\<exists>db'. migrates k (add_missing_nullable_column t name) db db'"
proof -
  obtain s where "db_tables db (td_name t) = Some s" using created_table [OF assms(1,5)] by blast
  from add_column [OF this assms(6,7)] obtain db' s' where
    db': "add_missing_nullable_column t name db = (None, db')" "add_missing_nullable_column t name db' = (None, db')"
      "grown db db'" "db_tables db' (td_name t) = Some s'" "name \<in> set (sc_columns s')" by blast
  have "migrates k (add_missing_nullable_column t name) db db'"
  proof (rule migrates_grown [OF db'(1,2,3) assms(1,2,3)])
    fix u :: table_def and r assume "db_tables db' (td_name u) = Some r"
    then show "missing_columns k (td_name u) - missing_columns (k + 1) (td_name u) \<subseteq> set (sc_columns r) \<and>
        (3 \<le> k + 1 \<and> \<not> 3 \<le> k \<longrightarrow> set (index_names u) \<subseteq> set (sc_indexes r))"
      using assms(4) assms(8) [of "td_name u"] db'(4,5) by (auto split: if_splits)
  qed
  then show ?thesis ..
qed

lemma has_column:
  "schema_since k db \<Longrightarrow> t \<in> set STATE_METADATA \<Longrightarrow> db_tables db (td_name t) = Some s \<Longrightarrow>
     c \<in> set (column_names t) - missing_columns k (td_name t) \<Longrightarrow> c \<in> set (sc_columns s)"
  unfolding schema_since_def table_since_def by blast

lemma index_columns:
  "\<forall>t \<in> {PENDING_SESSION_CLAIMS, INTERRUPT_REQUESTS}. \<forall>i \<in> set (td_indexes t).
     set (ix_columns i) \<subseteq> set (column_names t) - missing_columns 2 (td_name t)"
  by code_simp

lemma unindexed: "t \<in> set STATE_METADATA \<Longrightarrow> t \<notin> {PENDING_SESSION_CLAIMS, INTERRUPT_REQUESTS} \<Longrightarrow> index_names t = []"
  by (auto simp: STATE_METADATA_def index_names_def SESSION_BINDINGS_def SESSION_OWNERS_def)

definition index_there :: "database \<Rightarrow> table_def \<times> table_index \<Rightarrow> bool" where
  "index_there db ti \<longleftrightarrow> (\<exists>s. db_tables db (td_name (fst ti)) = Some s \<and> ix_name (snd ti) \<in> set (sc_indexes s))"

lemma index_stays: "grown db db' \<Longrightarrow> index_there db ti \<Longrightarrow> index_there db' ti"
  unfolding index_there_def using grownD by (fastforce simp: table_grown_def)

lemma indexes_again: "\<forall>ti \<in> set tis. index_there db ti \<Longrightarrow> run_all (map create_missing_index tis) db = (None, db)"
  by (induction tis) (auto simp: index_there_def create_missing_index_def)

lemma indexes_made:
  "created db \<Longrightarrow> schema_since 2 db \<Longrightarrow> \<forall>(t, i) \<in> set tis. t \<in> set STATE_METADATA \<and>
     set (ix_columns i) \<subseteq> set (column_names t) - missing_columns 2 (td_name t) \<Longrightarrow>
   \<exists>db'. run_all (map create_missing_index tis) db = (None, db') \<and> grown db db' \<and> (\<forall>ti \<in> set tis. index_there db' ti)"
proof (induction tis arbitrary: db)
  case (Cons ti tis)
  obtain t i where ti: "ti = (t, i)" by (cases ti)
  then have t: "t \<in> set STATE_METADATA" "set (ix_columns i) \<subseteq> set (column_names t) - missing_columns 2 (td_name t)"
    using Cons.prems(3) by auto
  obtain s where s: "db_tables db (td_name t) = Some s" using created_table [OF Cons.prems(1) t(1)] by blast
  have "set (ix_columns i) \<subseteq> set (sc_columns s)" using has_column [OF Cons.prems(2) t(1) s] t(2) by blast
  from add_index [OF s this] obtain db1 where
    db1: "create_missing_index (t, i) db = (None, db1)" "grown db db1" "index_there db1 (t, i)"
    by (auto simp: index_there_def)
  from Cons.IH [OF grown_created [OF db1(2) Cons.prems(1)] grown_since [OF db1(2) Cons.prems(1,2)]] Cons.prems(3)
  obtain db' where "run_all (map create_missing_index tis) db1 = (None, db')" "grown db1 db'" "\<forall>ti \<in> set tis. index_there db' ti"
    by auto
  then show ?case using db1 index_stays [OF _ db1(3)] grown_trans [OF db1(2)] by (auto simp: ti)
qed simp

lemma migrates_indexes:
  assumes "created db" "schema_since 2 db"
  shows "\<exists>db'. migrates 2 migration_3 db db'"
proof -
  define tis where "tis = sort_key (\<lambda>(t, i). ix_name i)
    (concat (map (\<lambda>t. map (Pair t) (td_indexes t)) [PENDING_SESSION_CLAIMS, INTERRUPT_REQUESTS]))"
  have m: "migration_3 = run_all (map create_missing_index tis)" by (simp add: migration_3_def tis_def)
  have tis: "(t, i) \<in> set tis \<longleftrightarrow> t \<in> {PENDING_SESSION_CLAIMS, INTERRUPT_REQUESTS} \<and> i \<in> set (td_indexes t)" for t i
    by (auto simp: tis_def)
  have "\<forall>(t, i) \<in> set tis. t \<in> set STATE_METADATA \<and> set (ix_columns i) \<subseteq> set (column_names t) - missing_columns 2 (td_name t)"
    using index_columns tis by (fastforce simp: STATE_METADATA_def)
  from indexes_made [OF assms this] obtain db' where
    db': "migration_3 db = (None, db')" "grown db db'" "\<forall>ti \<in> set tis. index_there db' ti"
    by (auto simp: m)
  have "migration_3 db' = (None, db')" using indexes_again [OF db'(3)] by (simp add: m)
  with db'(1) have "migrates 2 migration_3 db db'"
  proof (rule migrates_grown [OF _ _ db'(2) assms])
    fix t q assume t: "t \<in> set STATE_METADATA" "db_tables db' (td_name t) = Some q"
    have "set (index_names t) \<subseteq> set (sc_indexes q)"
    proof (cases "t \<in> {PENDING_SESSION_CLAIMS, INTERRUPT_REQUESTS}")
      case True
      then have "\<forall>i \<in> set (td_indexes t). index_there db' (t, i)" using db'(3) tis by blast
      then show ?thesis using t(2) by (auto simp: index_there_def index_names_def)
    qed (use unindexed [OF t(1)] in simp)
    then show "missing_columns 2 (td_name t) - missing_columns (2 + 1) (td_name t) \<subseteq> set (sc_columns q) \<and>
        (3 \<le> (2::int) + 1 \<and> \<not> 3 \<le> (2::int) \<longrightarrow> set (index_names t) \<subseteq> set (sc_indexes q))"
      by (auto simp: missing_columns_def)
  qed simp
  then show ?thesis ..
qed

lemma migrates_claims:
  assumes "created db" "schema_since 4 db"
  shows "\<exists>db'. migrates 4 migration_5 db db'"
proof -
  have t: "PENDING_SESSION_CLAIMS \<in> set STATE_METADATA" by (simp add: STATE_METADATA_def)
  obtain s where s: "db_tables db CLAIMS = Some s" using created_table [OF assms(1) t] by blast
  let ?s' = "s\<lparr>sc_rows := live_claims (sc_rows s)\<rparr>"
  let ?db' = "with_table CLAIMS ?s' db"
  have "migration_5 db = (None, ?db')" "migration_5 ?db' = (None, ?db')"
    by (simp_all add: migration_5_def s [simplified] live_claims_def with_table_def)
  moreover have "created ?db'" using assms(1) by (simp add: created_def with_table_def)
  moreover have "schema_since 4 ?db'"
    using assms(2) s by (fastforce simp: schema_since_def table_since_def with_table_def)
  then have "schema_since (4 + 1) ?db'"
    by (rule since_next) (simp add: missing_columns_def)
  ultimately have "migrates 4 migration_5 db ?db'"
    using s by (simp add: migrates_def rows_of_def) (simp add: with_table_def)
  then show ?thesis ..
qed

lemma nullable_columns:
  "nullable_column ''details_json'' \<in> set (td_columns INTERRUPT_REQUESTS)"
  "nullable_column ''credential_id'' \<in> set (td_columns INTERRUPT_REQUESTS)"
  "nullable_column ''expires_at'' \<in> set (td_columns PENDING_SESSION_CLAIMS)"
  "distinct (column_names INTERRUPT_REQUESTS)" "distinct (column_names PENDING_SESSION_CLAIMS)"
  "INTERRUPT_REQUESTS \<in> set STATE_METADATA" "PENDING_SESSION_CLAIMS \<in> set STATE_METADATA"
  by (simp_all add: table_defs column_names_def key_column_def required_column_def nullable_column_def)

lemma missing_less:
  "missing_columns 0 n - missing_columns (0 + 1) n \<subseteq> (if n = INTERRUPTS then {''details_json''} else {})"
  "missing_columns 1 n - missing_columns (1 + 1) n \<subseteq> (if n = CLAIMS then {''expires_at''} else {})"
  "missing_columns 3 n - missing_columns (3 + 1) n \<subseteq> (if n = INTERRUPTS then {''credential_id''} else {})"
  by (auto simp: missing_columns_def)

lemma migrates_columns:
  assumes "created db"
  shows "schema_since 0 db \<Longrightarrow> \<exists>db'. migrates 0 migration_1 db db'"
    and "schema_since 1 db \<Longrightarrow> \<exists>db'. migrates 1 migration_2 db db'"
    and "schema_since 3 db \<Longrightarrow> \<exists>db'. migrates 3 migration_4 db db'"
  unfolding migration_1_def migration_2_def migration_4_def
    apply (erule migrates_column [OF assms _ _ _ nullable_columns(6,1,4) missing_less(1)]; simp)
   apply (erule migrates_column [OF assms _ _ _ nullable_columns(7,3,5) missing_less(2)]; simp)
  apply (erule migrates_column [OF assms _ _ _ nullable_columns(6,2,4) missing_less(3)]; simp)
  done

lemma state_step:
  assumes "created db" "schema_since k db" "0 \<le> k" "k < 5"
  shows "\<exists>m db'. state_migrations (k + 1) = Some m \<and> migrates k m db db'"
proof -
  from assms(3,4) consider "k = 0" | "k = 1" | "k = 2" | "k = 3" | "k = 4" by linarith
  then show ?thesis
  proof cases
    case 3
    then show ?thesis using migrates_indexes assms(1,2) by (simp add: state_migrations_def)
  next
    case 5
    then show ?thesis using migrates_claims assms(1,2) by (simp add: state_migrations_def)
  qed (use migrates_columns [OF assms(1)] assms(2) in \<open>simp_all add: state_migrations_def\<close>)
qed

lemma write_fields:
  assumes "\<And>d. db_tables (race d) = db_tables d"
  shows "db_tables (write_schema_version race scope v db) = db_tables db"
    and "read_schema_version scope (write_schema_version race scope v db) = Some v"
    and "db_versions (write_schema_version race scope v db) \<noteq> None"
  using assms by (simp_all add: write_schema_version_def set_version_def read_schema_version_def Let_def split: option.splits)

lemma tables_same:
  assumes "db_tables a = db_tables b"
  shows "schema_since k a = schema_since k b" "rows_of name a = rows_of name b"
    "db_versions a \<noteq> None \<Longrightarrow> created b \<Longrightarrow> created a"
  using assms by (simp_all add: schema_since_def rows_of_def created_def)

lemma migrate_rest:
  assumes "\<And>d. db_tables (race d) = db_tables d"
  shows "created db \<Longrightarrow> schema_since (5 - int n) db \<Longrightarrow> n \<le> 5 \<Longrightarrow>
    \<exists>db'. migrate_through race STATE_STORE_SCHEMA_NAME state_migrations [6 - int n..5] db = (None, db') \<and>
      created db' \<and> schema_since 5 db' \<and> (\<forall>name. name \<noteq> CLAIMS \<longrightarrow> rows_of name db' = rows_of name db) \<and>
      rows_of CLAIMS db' = (if n = 0 then rows_of CLAIMS db else live_claims (rows_of CLAIMS db)) \<and>
      (if n = 0 then db' = db else read_schema_version STATE_STORE_SCHEMA_NAME db' = Some 5)"
proof (induction n arbitrary: db)
  case (Suc n)
  let ?k = "5 - int (Suc n)"
  obtain m db1 where m: "state_migrations (?k + 1) = Some m" "migrates ?k m db db1"
    using state_step [OF Suc.prems(1,2)] Suc.prems(3) by auto
  let ?db2 = "write_schema_version race STATE_STORE_SCHEMA_NAME (?k + 1) db1"
  note w = write_fields [OF assms, of STATE_STORE_SCHEMA_NAME "?k + 1" db1]
  note same = tables_same [OF w(1)]
  have "created ?db2" "schema_since (5 - int n) ?db2"
    using m(2) same(3) [OF w(3)] unfolding migrates_def same(1) by simp_all
  from Suc.IH [OF this] Suc.prems(3) obtain db' where
    rest: "migrate_through race STATE_STORE_SCHEMA_NAME state_migrations [6 - int n..5] ?db2 = (None, db')"
      "created db'" "schema_since 5 db'" "\<And>name. name \<noteq> CLAIMS \<Longrightarrow> rows_of name db' = rows_of name ?db2"
      "rows_of CLAIMS db' = (if n = 0 then rows_of CLAIMS ?db2 else live_claims (rows_of CLAIMS ?db2))"
      "if n = 0 then db' = ?db2 else read_schema_version STATE_STORE_SCHEMA_NAME db' = Some 5"
    by auto
  have "[6 - int (Suc n)..5] = (?k + 1) # [6 - int n..5]"
    using Suc.prems(3) by (subst upto_rec1) auto
  then have "migrate_through race STATE_STORE_SCHEMA_NAME state_migrations [6 - int (Suc n)..5] db = (None, db')"
    using m rest(1) by (simp add: migrates_def)
  moreover have "rows_of CLAIMS db' = live_claims (rows_of CLAIMS db)"
    using rest(5) [unfolded same(2)] m(2) by (auto simp: migrates_def live_claims_def)
  moreover have "read_schema_version STATE_STORE_SCHEMA_NAME db' = Some 5"
    using rest(6) w(2) by (cases n) auto
  ultimately show ?case using rest(2,3) rest(4) [unfolded same(2)] m(2) by (auto simp: migrates_def)
qed auto

lemma names_once: "t \<in> set STATE_METADATA \<Longrightarrow> u \<in> set STATE_METADATA \<Longrightarrow> td_name t = td_name u \<Longrightarrow> t = u"
  by (auto simp: STATE_METADATA_def)

lemma create_table_fields:
  assumes "t \<in> set STATE_METADATA"
  shows "db_versions (create_table t db) = db_versions db" "rows_of name (create_table t db) = rows_of name db"
    and "schema_since k db \<Longrightarrow> schema_since k (create_table t db)"
    and "db_tables (create_table t db) (td_name t) \<noteq> None"
    and "db_tables db name \<noteq> None \<Longrightarrow> db_tables (create_table t db) name \<noteq> None"
proof -
  show "schema_since k (create_table t db)" if "schema_since k db"
    using that names_once [OF assms] unfolding schema_since_def
    by (fastforce simp: create_table_def with_table_def table_since_def split: option.splits if_splits)
qed (auto simp: create_table_def with_table_def rows_of_def split: option.splits)

lemma create_all_Cons: "create_all (t # ts) db = create_all ts (create_table t db)"
  by (simp add: create_all_def)

lemma create_all_keeps:
  "set ts \<subseteq> set STATE_METADATA \<Longrightarrow> db_versions (create_all ts db) = db_versions db \<and> rows_of name (create_all ts db) = rows_of name db \<and>
     (schema_since k db \<longrightarrow> schema_since k (create_all ts db)) \<and> (db_tables db x \<noteq> None \<longrightarrow> db_tables (create_all ts db) x \<noteq> None)"
proof (induction ts arbitrary: db)
  case (Cons t ts)
  then show ?case using create_table_fields [of t] by (simp add: create_all_Cons)
qed (simp add: create_all_def)

lemma create_all_tables:
  "set ts \<subseteq> set STATE_METADATA \<Longrightarrow> t \<in> set ts \<Longrightarrow> db_tables (create_all ts db) (td_name t) \<noteq> None"
proof (induction ts arbitrary: db)
  case (Cons u ts)
  show ?case
  proof (cases "t \<in> set ts")
    case False
    then have "u = t" using Cons.prems(2) by simp
    then have "db_tables (create_table u db) (td_name t) \<noteq> None" using create_table_fields(4) [of t] Cons.prems(1) by simp
    then show ?thesis using create_all_keeps [of ts "create_table u db"] Cons.prems(1) by (simp add: create_all_Cons)
  qed (use Cons in \<open>simp add: create_all_Cons\<close>)
qed simp

lemma version_table_fields:
  "db_tables (create_version_table db) = db_tables db" "db_versions (create_version_table db) \<noteq> None"
  "read_schema_version scope (create_version_table db) = read_schema_version scope db"
  by (auto simp: create_version_table_def read_schema_version_def split: option.splits)

definition prepared :: "database \<Rightarrow> database" where
  "prepared db = create_all STATE_METADATA (create_version_table db)"

lemma prepared_database:
  "created (prepared db)" "rows_of name (prepared db) = rows_of name db"
  "schema_since k db \<Longrightarrow> schema_since k (prepared db)"
  "read_schema_version scope (prepared db) = read_schema_version scope db"
proof -
  note c = create_all_keeps [OF subset_refl, of "create_version_table db"]
  have v: "db_versions (prepared db) = db_versions (create_version_table db)" by (simp add: prepared_def c)
  then show "created (prepared db)"
    using create_all_tables [OF subset_refl] version_table_fields(2) by (simp add: created_def prepared_def)
  show "read_schema_version scope (prepared db) = read_schema_version scope db"
    using v version_table_fields(3) [of scope db] by (simp add: read_schema_version_def)
  show "rows_of name (prepared db) = rows_of name db"
    using c by (simp add: prepared_def rows_of_def version_table_fields)
  show "schema_since k (prepared db)" if "schema_since k db"
    using c that by (simp add: prepared_def schema_since_def version_table_fields)
qed

lemma missing_none: "missing_columns 5 name = {}"
  by (auto simp: missing_columns_def)

lemma current_created:
  assumes "created db" "schema_since 5 db"
  shows "current_schema db"
  unfolding current_schema_def
proof
  fix t assume t: "t \<in> set STATE_METADATA"
  obtain s where s: "db_tables db (td_name t) = Some s" using created_table [OF assms(1) t] by blast
  then have "table_since 5 t s" using assms(2) t by (simp add: schema_since_def)
  then show "\<exists>s. db_tables db (td_name t) = Some s \<and> set (column_names t) \<subseteq> set (sc_columns s) \<and> set (index_names t) \<subseteq> set (sc_indexes s)"
    using s by (simp add: table_since_def missing_none)
qed

text \<open>C28. A database of any older version, or an empty one, is brought to the current schema: the migration
  succeeds, every table has all its columns and indexes, the version says so, and every row is kept but the
  claims without an expiry. What another process does to the versions meanwhile changes nothing.\<close>

theorem older_databases_become_current:
  assumes "\<And>d. db_tables (race d) = db_tables d"
    and "read_schema_version STATE_STORE_SCHEMA_NAME db = (if v = 0 then None else Some (int v))" "v \<le> 5"
    and "schema_since (int v) db"
  shows "\<exists>db'. migrate_state_store_schema race CURRENT_STATE_STORE_SCHEMA_VERSION db = (None, db') \<and> current_schema db' \<and>
    read_schema_version STATE_STORE_SCHEMA_NAME db' = Some 5 \<and>
    (\<forall>name. name \<noteq> CLAIMS \<longrightarrow> rows_of name db' = rows_of name db) \<and>
    rows_of CLAIMS db' = (if v = 5 then rows_of CLAIMS db else live_claims (rows_of CLAIMS db))"
proof -
  note p = prepared_database [where db = db]
  have n: "5 - int (5 - v) = int v" "6 - int (5 - v) = int v + 1" "(5 - v = 0) = (v = 5)"
    using assms(3) by auto
  obtain db' where db': "migrate_through race STATE_STORE_SCHEMA_NAME state_migrations [int v + 1..5] (prepared db) = (None, db')"
    "created db'" "schema_since 5 db'" "\<And>name. name \<noteq> CLAIMS \<Longrightarrow> rows_of name db' = rows_of name db"
    "rows_of CLAIMS db' = (if v = 5 then rows_of CLAIMS db else live_claims (rows_of CLAIMS db))"
    and end_version: "if v = 5 then db' = prepared db else read_schema_version STATE_STORE_SCHEMA_NAME db' = Some 5"
    using migrate_rest [OF assms(1) p(1), of "5 - v", unfolded n p(2)] p(3) [OF assms(4)] by (metis diff_le_self)
  have "read_schema_version STATE_STORE_SCHEMA_NAME db' = Some 5"
    using end_version p(4) [of STATE_STORE_SCHEMA_NAME] assms(2) by (auto split: if_splits)
  have "migrate_state_store_schema race CURRENT_STATE_STORE_SCHEMA_VERSION db = (None, db')"
    using db'(1) assms(2,3) p(4) [of STATE_STORE_SCHEMA_NAME]
    by (auto simp: migrate_state_store_schema_def apply_schema_migrations_def CURRENT_STATE_STORE_SCHEMA_VERSION_def
        prepared_def [symmetric] Let_def)
  with \<open>read_schema_version STATE_STORE_SCHEMA_NAME db' = Some 5\<close> db' current_created show ?thesis by blast
qed

section \<open>A migration that broke off\<close>

definition stored_version :: "database \<Rightarrow> int" where
  "stored_version db = (case read_schema_version STATE_STORE_SCHEMA_NAME db of None \<Rightarrow> 0 | Some v \<Rightarrow> v)"

text \<open>
  The states a start can leave behind when it ends early: after the table of versions, after a table, after a
  migration whose version is not written yet, after a version.
\<close>

inductive started :: "(database \<Rightarrow> database) \<Rightarrow> database \<Rightarrow> database \<Rightarrow> bool" for race where
  versions_created: "started race db (create_version_table db)"
| table_created: "t \<in> set STATE_METADATA \<Longrightarrow> started race db (create_table t db)"
| migration_done: "created db \<Longrightarrow> state_migrations (stored_version db + 1) = Some m \<Longrightarrow> m db = (None, db') \<Longrightarrow> started race db db'"
| version_written: "created db \<Longrightarrow> state_migrations (stored_version db + 1) = Some m \<Longrightarrow> m db = (None, db) \<Longrightarrow>
    started race db (write_schema_version race STATE_STORE_SCHEMA_NAME (stored_version db + 1) db)"

definition supported :: "database \<Rightarrow> bool" where
  "supported db \<longleftrightarrow> 0 \<le> stored_version db \<and> stored_version db \<le> 5 \<and> schema_since (stored_version db) db"

abbreviation migrate_now :: "(database \<Rightarrow> database) \<Rightarrow> migration" where
  "migrate_now race \<equiv> migrate_state_store_schema race CURRENT_STATE_STORE_SCHEMA_VERSION"

lemma create_table_commute:
  "t \<in> set STATE_METADATA \<Longrightarrow> u \<in> set STATE_METADATA \<Longrightarrow> create_table t (create_table u db) = create_table u (create_table t db)"
  by (cases "t = u") (auto simp: create_table_def with_table_def fun_upd_twist dest: names_once split: option.splits)

lemma create_table_twice: "create_table t (create_table t db) = create_table t db"
  by (simp add: create_table_def with_table_def split: option.splits)

lemma create_all_absorbs:
  "set ts \<subseteq> set STATE_METADATA \<Longrightarrow> t \<in> set ts \<Longrightarrow> create_all ts (create_table t db) = create_all ts db"
proof (induction ts arbitrary: db)
  case (Cons u ts)
  show ?case
  proof (cases "t = u")
    case False
    with Cons show ?thesis using create_table_commute [of u t db] by (auto simp: create_all_Cons)
  qed (simp add: create_all_Cons create_table_twice)
qed simp

lemma prepared_again:
  "prepared (create_version_table db) = prepared db"
  "t \<in> set STATE_METADATA \<Longrightarrow> prepared (create_table t db) = prepared db"
proof -
  show "prepared (create_version_table db) = prepared db"
    by (simp add: prepared_def create_version_table_def split: option.splits)
  have "create_version_table (create_table t db) = create_table t (create_version_table db)"
    by (simp add: create_version_table_def create_table_def with_table_def split: option.splits)
  then show "prepared (create_table t db) = prepared db" if "t \<in> set STATE_METADATA"
    using create_all_absorbs [OF subset_refl that] by (simp add: prepared_def)
qed

lemma create_all_created: "\<forall>t \<in> set ts. db_tables db (td_name t) \<noteq> None \<Longrightarrow> create_all ts db = db"
  by (induction ts) (auto simp: create_all_def create_table_def split: option.splits)

lemma prepared_created: "created db \<Longrightarrow> prepared db = db"
  using create_all_created [of STATE_METADATA db] by (auto simp: prepared_def created_def create_version_table_def)

lemma migrate_now_through:
  assumes "0 \<le> stored_version db" "stored_version db \<le> 5"
  shows "migrate_now race db = migrate_through race STATE_STORE_SCHEMA_NAME state_migrations [stored_version db + 1..5] (prepared db)"
  using assms prepared_database(4) [of STATE_STORE_SCHEMA_NAME db]
  by (auto simp: migrate_state_store_schema_def apply_schema_migrations_def CURRENT_STATE_STORE_SCHEMA_VERSION_def
      stored_version_def prepared_def [symmetric] Let_def split: option.splits)

lemma migrate_now_step:
  assumes "created db" "supported db" "state_migrations (stored_version db + 1) = Some m" "m db = (None, db')"
  shows "migrate_now race db = migrate_through race STATE_STORE_SCHEMA_NAME state_migrations [stored_version db + 2..5]
    (write_schema_version race STATE_STORE_SCHEMA_NAME (stored_version db + 1) db')"
    and "stored_version db < 5"
proof -
  show less: "stored_version db < 5"
    using assms(2,3) by (auto simp: supported_def state_migrations_def split: if_splits)
  have "[stored_version db + 1..5] = (stored_version db + 1) # [stored_version db + 2..5]"
    using less upto_rec1 [of "stored_version db + 1" 5] by (simp add: add.commute)
  then show "migrate_now race db = migrate_through race STATE_STORE_SCHEMA_NAME state_migrations [stored_version db + 2..5]
    (write_schema_version race STATE_STORE_SCHEMA_NAME (stored_version db + 1) db')"
    using assms by (simp add: migrate_now_through supported_def prepared_created)
qed

lemma since_weaken: "schema_since (k + 1) db \<Longrightarrow> schema_since k db"
  unfolding schema_since_def table_since_def missing_columns_def by (fastforce split: if_splits)

lemma started_same:
  assumes "\<And>d. db_tables (race d) = db_tables d" "started race db db'" "supported db"
  shows "supported db' \<and> migrate_now race db' = migrate_now race db"
  using assms(2)
proof cases
  case versions_created
  then have "stored_version db' = stored_version db" by (simp add: stored_version_def version_table_fields)
  with versions_created assms(3) show ?thesis
    by (simp add: supported_def migrate_now_through prepared_again schema_since_def version_table_fields)
next
  case (table_created t)
  then have "stored_version db' = stored_version db"
    by (simp add: stored_version_def read_schema_version_def create_table_fields)
  with table_created assms(3) show ?thesis
    by (simp add: supported_def migrate_now_through prepared_again create_table_fields)
next
  case (migration_done m)
  let ?v = "stored_version db"
  note step = migrate_now_step [OF migration_done(1) assms(3) migration_done(2)]
  have "migrates ?v m db db'"
    using state_step [OF migration_done(1), of ?v] step(2) [OF migration_done(3)] assms(3) migration_done(2,3)
    by (auto simp: supported_def migrates_def)
  then have m: "m db' = (None, db')" "created db'" "schema_since (?v + 1) db'" "stored_version db' = ?v"
    by (auto simp: migrates_def stored_version_def read_schema_version_def)
  have "schema_since ?v db'"
    using m(3) by (rule since_weaken)
  then have "supported db'" using assms(3) m(4) by (simp add: supported_def)
  with step(1) [OF migration_done(3)] migrate_now_step(1) [OF m(2) this, of m] m migration_done(2) show ?thesis
    by simp
next
  case (version_written m)
  let ?v = "stored_version db"
  note step = migrate_now_step [OF version_written(2) assms(3) version_written(3,4)]
  note w = write_fields [OF assms(1), of STATE_STORE_SCHEMA_NAME "?v + 1" db]
  have v: "stored_version db' = ?v + 1" using w(2) version_written(1) by (simp add: stored_version_def)
  have "migrates ?v m db db"
    using state_step [OF version_written(2), of ?v] step(2) assms(3) version_written(3,4)
    by (auto simp: supported_def migrates_def)
  then have "schema_since (?v + 1) db'" "created db'"
    using tables_same [OF w(1)] w(3) version_written(1) by (auto simp: migrates_def)
  with v step(2) assms(3) have "supported db'" by (simp add: supported_def)
  with v \<open>created db'\<close> step(1) version_written(1) show ?thesis
    by (simp add: migrate_now_through supported_def prepared_created add.assoc)
qed

text \<open>C39. A start that broke off anywhere, even between a migration and the writing of its version, is completed
  by the next one: any number of broken starts leaves a database that migrates to the same end as the one before
  them.\<close>

theorem broken_migrations_are_completed:
  assumes "\<And>d. db_tables (race d) = db_tables d" "(started race)\<^sup>*\<^sup>* db db'" "supported db"
  shows "migrate_now race db' = migrate_now race db \<and> fst (migrate_now race db') = None"
proof -
  have "supported db' \<and> migrate_now race db' = migrate_now race db"
    using assms(2)
  proof induction
    case base
    then show ?case using assms(3) by simp
  next
    case (step y z)
    then show ?case using started_same [OF assms(1)] by metis
  qed
  moreover have "fst (migrate_now race db) = None"
  proof -
    let ?n = "nat (5 - stored_version db)"
    have n: "5 - int ?n = stored_version db" "6 - int ?n = stored_version db + 1" "?n \<le> 5"
      using assms(3) by (auto simp: supported_def)
    have "schema_since (stored_version db) (prepared db)" using assms(3) prepared_database(3) by (simp add: supported_def)
    from migrate_rest [OF assms(1) prepared_database(1), of ?n, unfolded n(1,2), OF this n(3)]
    show ?thesis using assms(3) by (auto simp: migrate_now_through supported_def)
  qed
  ultimately show ?thesis by simp
qed

text \<open>A database of a newer program is refused and left as it is, but for tables it lacks.\<close>

theorem newer_databases_are_refused:
  assumes "stored_version db > 5"
  shows "\<exists>m. migrate_now race db = (Some (SchemaRuntimeError m), prepared db)"
  using assms prepared_database(4) [of STATE_STORE_SCHEMA_NAME db]
  by (auto simp: migrate_state_store_schema_def apply_schema_migrations_def CURRENT_STATE_STORE_SCHEMA_VERSION_def
      stored_version_def prepared_def [symmetric] Let_def split: option.splits)

section \<open>Samples\<close>

text \<open>A database of version 1, with a claim that never expires and one that does.\<close>

definition old_database :: database where
  "old_database = \<lparr>
     db_tables = [CLAIMS \<mapsto> \<lparr>sc_columns = [''session_id'', ''identity'', ''updated_at'', ''expires_at''], sc_indexes = [],
         sc_rows = [[(''session_id'', PStr ''s1''), (''expires_at'', PNone)], [(''session_id'', PStr ''s2''), (''expires_at'', PInt 9)]]\<rparr>,
       INTERRUPTS \<mapsto> \<lparr>sc_columns = [''request_id'', ''session_id'', ''interrupt_type'', ''identity'', ''task_id'', ''context_id'',
           ''details_json'', ''expires_at'', ''tombstone_expires_at''], sc_indexes = [], sc_rows = []\<rparr>],
     db_versions = Some [STATE_STORE_SCHEMA_NAME \<mapsto> 1]\<rparr>"

lemma old_database_since: "schema_since 1 old_database"
  by (auto simp: schema_since_def table_since_def old_database_def table_defs column_names_def missing_columns_def
      key_column_def required_column_def nullable_column_def split: if_splits)

theorem older_databases_become_current_witness:
  "rows_of CLAIMS (snd (migrate_now id old_database)) = [[(''session_id'', PStr ''s2''), (''expires_at'', PInt 9)]]"
proof -
  have "read_schema_version STATE_STORE_SCHEMA_NAME old_database = (if (1::nat) = 0 then None else Some (int 1))"
    by (simp add: old_database_def read_schema_version_def)
  moreover have "live_claims (rows_of CLAIMS old_database) = [[(''session_id'', PStr ''s2''), (''expires_at'', PInt 9)]]"
    by code_simp
  ultimately show ?thesis
    using older_databases_become_current [of id old_database 1] old_database_since by auto
qed

lemma started_twice:
  assumes "started race a b" "started race b c"
  shows "(started race)\<^sup>*\<^sup>* a c"
proof -
  have "(started race)\<^sup>*\<^sup>* a b" using assms(1) by (rule r_into_rtranclp)
  then show ?thesis using assms(2) by (rule rtranclp.rtrancl_into_rtrancl)
qed

theorem broken_migrations_are_completed_witness:
  "migrate_now id (create_table SESSION_OWNERS (create_version_table old_database)) = migrate_now id old_database"
proof -
  have "supported old_database"
    using old_database_since by (simp add: supported_def stored_version_def old_database_def read_schema_version_def)
  moreover have "(started id)\<^sup>*\<^sup>* old_database (create_table SESSION_OWNERS (create_version_table old_database))"
    by (rule started_twice [OF started.versions_created started.table_created]) (simp add: STATE_METADATA_def)
  ultimately show ?thesis using broken_migrations_are_completed [where race = id, OF arg_cong [OF id_apply]] by blast
qed

end
