(* ===== verification/Sqlite_Files.thy ===== *)
theory Sqlite_Files
  imports Py_Prelude "HOL-Library.Word"
begin

unbundle bit_operations_syntax

text \<open>
  The file of an SQLite database and the connections to it (\<open>server/database.py\<close>, \<open>_sqlite_database_path\<close>
  to \<open>build_database_engine\<close>). Names point to files, and between any two calls of the operating system
  other processes may act. What SQLAlchemy makes of a URL and what the driver does are parameters. A name is
  the list of its components; directories are what the names of the parents resolve to.
\<close>

section \<open>Files\<close>

datatype file_kind = Regular_File | Directory | Special_File | Symlink "string list"

type_synonym file_mode = "9 word"

record file_node =
  fl_kind :: file_kind
  fl_uid :: nat
  fl_mode :: file_mode

type_synonym file_path = "string list"

record file_system =
  fs_names :: "file_path \<Rightarrow> nat option"
  fs_nodes :: "nat \<Rightarrow> file_node"
  fs_next :: nat

text \<open>\<open>lstat\<close> does not follow a link, and \<open>stat\<close> and \<open>chmod\<close> do, forty times at most.\<close>

definition entry :: "file_system \<Rightarrow> file_path \<Rightarrow> file_node option" where
  "entry fs p = map_option (fs_nodes fs) (fs_names fs p)"

fun follow :: "nat \<Rightarrow> file_system \<Rightarrow> file_path \<Rightarrow> nat option" where
  "follow 0 fs p = None"
| "follow (Suc links) fs p =
     (case fs_names fs p of
        None \<Rightarrow> None
      | Some i \<Rightarrow> (case fl_kind (fs_nodes fs i) of Symlink target \<Rightarrow> follow links fs target | _ \<Rightarrow> Some i))"

definition MAX_LINKS :: nat where
  "MAX_LINKS = 40"

definition add_node :: "file_path \<Rightarrow> file_node \<Rightarrow> file_system \<Rightarrow> file_system" where
  "add_node p n fs = fs\<lparr>fs_names := (fs_names fs)(p \<mapsto> fs_next fs),
     fs_nodes := (fs_nodes fs)(fs_next fs := n), fs_next := Suc (fs_next fs)\<rparr>"

definition set_mode :: "nat \<Rightarrow> file_mode \<Rightarrow> file_system \<Rightarrow> file_system" where
  "set_mode i mode fs = fs\<lparr>fs_nodes := (fs_nodes fs)(i := (fs_nodes fs i)\<lparr>fl_mode := mode\<rparr>)\<rparr>"

section \<open>Calls of the operating system\<close>

text \<open>
  \<open>pr_others k\<close> is what other processes do before the \<open>k\<close>th call, and \<open>pr_denied k\<close> whether the
  system refuses that call.
\<close>

record process =
  pr_posix :: bool
  pr_euid :: nat
  pr_umask :: file_mode
  pr_others :: "nat \<Rightarrow> file_system \<Rightarrow> file_system"
  pr_denied :: "nat \<Rightarrow> bool"

type_synonym machine = "file_system \<times> nat"

datatype sqlite_failure =
    FileExistsError file_path
  | FileNotFoundError file_path
  | NotADirectoryError file_path
  | PermissionError file_path
  | LinkRefused file_path
  | NotRegular file_path
  | OwnedByOther file_path nat nat
  | NotCreated file_path
  | SidecarNotRegular file_path
  | SidecarOwnedByOther file_path nat nat
  | DriverError string

definition system_call ::
    "process \<Rightarrow> file_path \<Rightarrow> (file_system \<Rightarrow> (sqlite_failure + 'a) \<times> file_system) \<Rightarrow> machine
     \<Rightarrow> (sqlite_failure + 'a) \<times> machine" where
  "system_call pr p act m =
     (let (fs, k) = m; fs = pr_others pr k fs
      in if pr_denied pr k then (Inl (PermissionError p), (fs, Suc k))
         else let (r, fs) = act fs in (r, (fs, Suc k)))"

definition os_lstat :: "process \<Rightarrow> file_path \<Rightarrow> machine \<Rightarrow> (sqlite_failure + file_node) \<times> machine" where
  "os_lstat pr p = system_call pr p (\<lambda>fs.
     (case entry fs p of None \<Rightarrow> Inl (FileNotFoundError p) | Some n \<Rightarrow> Inr n, fs))"

definition os_is_dir :: "process \<Rightarrow> file_path \<Rightarrow> machine \<Rightarrow> (sqlite_failure + bool) \<times> machine" where
  "os_is_dir pr p = system_call pr p (\<lambda>fs.
     (Inr (case follow MAX_LINKS fs p of None \<Rightarrow> False | Some i \<Rightarrow> fl_kind (fs_nodes fs i) = Directory), fs))"

definition parent_failure :: "file_system \<Rightarrow> file_path \<Rightarrow> sqlite_failure option" where
  "parent_failure fs p =
     (if p = [] then None
      else case follow MAX_LINKS fs (butlast p) of
        None \<Rightarrow> Some (FileNotFoundError p)
      | Some i \<Rightarrow> if fl_kind (fs_nodes fs i) = Directory then None else Some (NotADirectoryError p))"

definition os_mkdir :: "process \<Rightarrow> file_mode \<Rightarrow> file_path \<Rightarrow> machine \<Rightarrow> (sqlite_failure + unit) \<times> machine" where
  "os_mkdir pr mode p = system_call pr p (\<lambda>fs.
     (case parent_failure fs p of
        Some e \<Rightarrow> (Inl e, fs)
      | None \<Rightarrow>
          if fs_names fs p \<noteq> None then (Inl (FileExistsError p), fs)
          else (Inr (), add_node p
            \<lparr>fl_kind = Directory, fl_uid = pr_euid pr, fl_mode = mode AND NOT (pr_umask pr)\<rparr> fs)))"

text \<open>\<open>os.open\<close> with \<open>O_CREAT | O_EXCL\<close>: the descriptor is the file, whatever happens to its name.\<close>

definition os_create :: "process \<Rightarrow> file_mode \<Rightarrow> file_path \<Rightarrow> machine \<Rightarrow> (sqlite_failure + nat) \<times> machine" where
  "os_create pr mode p = system_call pr p (\<lambda>fs.
     (case parent_failure fs p of
        Some e \<Rightarrow> (Inl e, fs)
      | None \<Rightarrow>
          if fs_names fs p \<noteq> None then (Inl (FileExistsError p), fs)
          else (Inr (fs_next fs), add_node p
            \<lparr>fl_kind = Regular_File, fl_uid = pr_euid pr, fl_mode = mode AND NOT (pr_umask pr)\<rparr> fs)))"

definition os_fchmod :: "process \<Rightarrow> nat \<Rightarrow> file_mode \<Rightarrow> machine \<Rightarrow> (sqlite_failure + unit) \<times> machine" where
  "os_fchmod pr fd mode = system_call pr [] (\<lambda>fs. (Inr (), set_mode fd mode fs))"

definition os_chmod :: "process \<Rightarrow> file_path \<Rightarrow> file_mode \<Rightarrow> machine \<Rightarrow> (sqlite_failure + unit) \<times> machine" where
  "os_chmod pr p mode = system_call pr p (\<lambda>fs.
     (case follow MAX_LINKS fs p of
        None \<Rightarrow> (Inl (FileNotFoundError p), fs)
      | Some i \<Rightarrow> (Inr (), set_mode i mode fs)))"

text \<open>\<open>p.mkdir(parents=True, exist_ok=True, mode=mode)\<close>, the name given from its end.\<close>

definition or_existing :: "process \<Rightarrow> file_path \<Rightarrow> sqlite_failure \<Rightarrow> machine \<Rightarrow> (sqlite_failure + unit) \<times> machine" where
  "or_existing pr p e m =
     (case os_is_dir pr p m of (Inr True, m) \<Rightarrow> (Inr (), m) | (_, m) \<Rightarrow> (Inl e, m))"

fun is_missing :: "sqlite_failure \<Rightarrow> bool" where
  "is_missing (FileNotFoundError p) = True"
| "is_missing _ = False"

fun mkdir_parents :: "process \<Rightarrow> file_mode \<Rightarrow> file_path \<Rightarrow> machine \<Rightarrow> (sqlite_failure + unit) \<times> machine" where
  "mkdir_parents pr mode [] m =
     (case os_mkdir pr mode [] m of
        (Inr u, m) \<Rightarrow> (Inr u, m)
      | (Inl e, m) \<Rightarrow> if is_missing e then (Inl e, m) else or_existing pr [] e m)"
| "mkdir_parents pr mode (c # up) m =
     (case os_mkdir pr mode (rev (c # up)) m of
        (Inr u, m) \<Rightarrow> (Inr u, m)
      | (Inl e, m) \<Rightarrow>
          if is_missing e then
            (case mkdir_parents pr 0x1FF up m of
               (Inl e, m) \<Rightarrow> (Inl e, m)
             | (Inr _, m) \<Rightarrow>
                 (case os_mkdir pr mode (rev (c # up)) m of
                    (Inr u, m) \<Rightarrow> (Inr u, m)
                  | (Inl e, m) \<Rightarrow> if is_missing e then (Inl e, m) else or_existing pr (rev (c # up)) e m))
          else or_existing pr (rev (c # up)) e m)"

section \<open>Hardening\<close>

definition SQLITE_FILE_MODE :: file_mode where
  "SQLITE_FILE_MODE = 0x180"

definition SQLITE_DIR_MODE :: file_mode where
  "SQLITE_DIR_MODE = 0x1C0"

definition sidecar :: "file_path \<Rightarrow> string \<Rightarrow> file_path" where
  "sidecar p suffix = butlast p @ [last p @ suffix]"

definition create_private_sqlite_file :: "process \<Rightarrow> file_path \<Rightarrow> machine \<Rightarrow> (sqlite_failure + unit) \<times> machine" where
  "create_private_sqlite_file pr p m =
     (case os_create pr SQLITE_FILE_MODE p m of
        (Inl e, m) \<Rightarrow> (Inl e, m)
      | (Inr fd, m) \<Rightarrow> os_fchmod pr fd SQLITE_FILE_MODE m)"

definition hardened_sqlite_stat ::
    "process \<Rightarrow> file_path \<Rightarrow> machine \<Rightarrow> (sqlite_failure + file_node option) \<times> machine" where
  "hardened_sqlite_stat pr p m =
     (case os_lstat pr p m of
        (Inr n, m) \<Rightarrow> (Inr (Some n), m)
      | (Inl e, m) \<Rightarrow> if is_missing e then (Inr None, m) else (Inl e, m))"

definition verify_sqlite_file_stat :: "process \<Rightarrow> file_path \<Rightarrow> file_node \<Rightarrow> sqlite_failure + unit" where
  "verify_sqlite_file_stat pr p n =
     (case fl_kind n of
        Symlink _ \<Rightarrow> Inl (LinkRefused p)
      | Regular_File \<Rightarrow>
          if fl_uid n \<noteq> pr_euid pr then Inl (OwnedByOther p (fl_uid n) (pr_euid pr)) else Inr ()
      | _ \<Rightarrow> Inl (NotRegular p))"

fun harden_sidecars :: "process \<Rightarrow> file_path list \<Rightarrow> machine \<Rightarrow> (sqlite_failure + unit) \<times> machine" where
  "harden_sidecars pr [] m = (Inr (), m)"
| "harden_sidecars pr (s # ss) m =
     (case hardened_sqlite_stat pr s m of
        (Inl e, m) \<Rightarrow> (Inl e, m)
      | (Inr None, m) \<Rightarrow> harden_sidecars pr ss m
      | (Inr (Some n), m) \<Rightarrow>
          if fl_kind n \<noteq> Regular_File then (Inl (SidecarNotRegular s), m)
          else if fl_uid n \<noteq> pr_euid pr then (Inl (SidecarOwnedByOther s (fl_uid n) (pr_euid pr)), m)
          else (case os_chmod pr s SQLITE_FILE_MODE m of
                  (Inl e, m) \<Rightarrow> (Inl e, m)
                | (Inr _, m) \<Rightarrow> harden_sidecars pr ss m))"

definition SIDECARS :: "string list" where
  "SIDECARS = [''-wal'', ''-shm'', ''-journal'']"

definition apply_private_sqlite_modes :: "process \<Rightarrow> file_path \<Rightarrow> machine \<Rightarrow> (sqlite_failure + unit) \<times> machine" where
  "apply_private_sqlite_modes pr p m =
     (case os_chmod pr p SQLITE_FILE_MODE m of
        (Inl e, m) \<Rightarrow> (Inl e, m)
      | (Inr _, m) \<Rightarrow> harden_sidecars pr (map (sidecar p) SIDECARS) m)"

fun is_exists :: "sqlite_failure \<Rightarrow> bool" where
  "is_exists (FileExistsError p) = True"
| "is_exists _ = False"

definition stat_again :: "process \<Rightarrow> file_path \<Rightarrow> machine \<Rightarrow> (sqlite_failure + file_node) \<times> machine" where
  "stat_again pr p m =
     (case hardened_sqlite_stat pr p m of
        (Inl e, m) \<Rightarrow> (Inl e, m)
      | (Inr None, m) \<Rightarrow> (Inl (NotCreated p), m)
      | (Inr (Some n), m) \<Rightarrow> (Inr n, m))"

definition stat_or_create :: "process \<Rightarrow> file_path \<Rightarrow> machine \<Rightarrow> (sqlite_failure + file_node) \<times> machine" where
  "stat_or_create pr p m =
     (case hardened_sqlite_stat pr p m of
        (Inl e, m) \<Rightarrow> (Inl e, m)
      | (Inr (Some n), m) \<Rightarrow> (Inr n, m)
      | (Inr None, m) \<Rightarrow>
          (case create_private_sqlite_file pr p m of
             (Inl e, m) \<Rightarrow> if is_exists e then stat_again pr p m else (Inl e, m)
           | (Inr _, m) \<Rightarrow> stat_again pr p m))"

definition harden_sqlite_file :: "process \<Rightarrow> file_path \<Rightarrow> machine \<Rightarrow> (sqlite_failure + unit) \<times> machine" where
  "harden_sqlite_file pr p m =
     (case mkdir_parents pr SQLITE_DIR_MODE (rev (butlast p)) m of
        (Inl e, m) \<Rightarrow> (Inl e, m)
      | (Inr _, m) \<Rightarrow>
          if \<not> pr_posix pr then (Inr (), m)
          else
            (case stat_or_create pr p m of
               (Inl e, m) \<Rightarrow> (Inl e, m)
             | (Inr n, m) \<Rightarrow>
                 (case verify_sqlite_file_stat pr p n of
                    Inl e \<Rightarrow> (Inl e, m)
                  | Inr _ \<Rightarrow> apply_private_sqlite_modes pr p m)))"

section \<open>Engine and connections\<close>

text \<open>
  What the code reads of a URL that SQLAlchemy has parsed. \<open>os.path.abspath\<close> is relative to the
  working directory \<open>cwd\<close>.
\<close>

record database_url =
  ur_database :: "string option"
  ur_mode :: "string option"

fun normal_path :: "file_path \<Rightarrow> file_path \<Rightarrow> file_path" where
  "normal_path acc [] = acc"
| "normal_path acc (c # cs) =
     (if c = [] \<or> c = ''.'' then normal_path acc cs
      else if c = ''..'' then normal_path (butlast acc) cs
      else normal_path (acc @ [c]) cs)"

definition abspath :: "file_path \<Rightarrow> string \<Rightarrow> file_path" where
  "abspath cwd s = normal_path (if startswith s ''/'' then [] else cwd) (split_char CHR ''/'' s)"

definition sqlite_database_path :: "file_path \<Rightarrow> database_url \<Rightarrow> file_path option" where
  "sqlite_database_path cwd u =
     (case ur_database u of
        None \<Rightarrow> None
      | Some d \<Rightarrow> if d = [] \<or> d = '':memory:'' \<or> startswith d ''file:'' then None else Some (abspath cwd d))"

record database_engine =
  de_path :: "file_path option"
  de_single_connection :: bool

definition harden_if_file :: "process \<Rightarrow> file_path option \<Rightarrow> machine \<Rightarrow> (sqlite_failure + unit) \<times> machine" where
  "harden_if_file pr where_to m = (case where_to of None \<Rightarrow> (Inr (), m) | Some p \<Rightarrow> harden_sqlite_file pr p m)"

definition build_database_engine ::
    "process \<Rightarrow> file_path \<Rightarrow> database_url \<Rightarrow> machine \<Rightarrow> (sqlite_failure + database_engine) \<times> machine" where
  "build_database_engine pr cwd u m =
     (case harden_if_file pr (sqlite_database_path cwd u) m of
        (Inl e, m) \<Rightarrow> (Inl e, m)
      | (Inr _, m) \<Rightarrow>
          (Inr \<lparr>de_path = sqlite_database_path cwd u,
                de_single_connection =
                  (ur_database u \<in> {None, Some [], Some '':memory:''} \<or> ur_mode u = Some ''memory'')\<rparr>, m))"

text \<open>A connection of the driver, with the statements it has carried out.\<close>

record connection =
  cn_executed :: "string list"
  cn_cursor_open :: bool
  cn_closed :: bool

record driver =
  dr_connect :: "machine \<Rightarrow> (sqlite_failure + unit) \<times> machine"
  dr_execute :: "string \<Rightarrow> machine \<Rightarrow> (sqlite_failure + unit) \<times> machine"

definition PRAGMAS :: "string list" where
  "PRAGMAS = [''PRAGMA journal_mode=WAL'', ''PRAGMA busy_timeout=30000'', ''PRAGMA synchronous=NORMAL'']"

fun execute_all ::
    "driver \<Rightarrow> string list \<Rightarrow> connection \<Rightarrow> machine \<Rightarrow> (sqlite_failure + unit) \<times> connection \<times> machine" where
  "execute_all dr [] c m = (Inr (), c, m)"
| "execute_all dr (s # ss) c m =
     (case dr_execute dr s m of
        (Inl e, m) \<Rightarrow> (Inl e, c, m)
      | (Inr _, m) \<Rightarrow> execute_all dr ss (c\<lparr>cn_executed := cn_executed c @ [s]\<rparr>) m)"

definition configure_sqlite_connection ::
    "process \<Rightarrow> driver \<Rightarrow> file_path option \<Rightarrow> connection \<Rightarrow> machine
     \<Rightarrow> (sqlite_failure + unit) \<times> connection \<times> machine" where
  "configure_sqlite_connection pr dr where_to c m =
     (case harden_if_file pr where_to m of
        (Inl e, m) \<Rightarrow> (Inl e, c\<lparr>cn_closed := True\<rparr>, m)
      | (Inr _, m) \<Rightarrow>
          (case execute_all dr PRAGMAS (c\<lparr>cn_cursor_open := True\<rparr>) m of
             (Inl e, c, m) \<Rightarrow> (Inl e, c\<lparr>cn_cursor_open := False, cn_closed := True\<rparr>, m)
           | (Inr _, c, m) \<Rightarrow> (Inr (), c\<lparr>cn_cursor_open := False\<rparr>, m)))"

text \<open>Opening a connection of the engine: the listener before it, the driver, the listener after it.\<close>

definition engine_connect ::
    "process \<Rightarrow> driver \<Rightarrow> database_engine \<Rightarrow> machine \<Rightarrow> (sqlite_failure + unit) \<times> connection option \<times> machine" where
  "engine_connect pr dr en m =
     (case harden_if_file pr (de_path en) m of
        (Inl e, m) \<Rightarrow> (Inl e, None, m)
      | (Inr _, m) \<Rightarrow>
          (case dr_connect dr m of
             (Inl e, m) \<Rightarrow> (Inl e, None, m)
           | (Inr _, m) \<Rightarrow>
               (case configure_sqlite_connection pr dr (de_path en)
                       \<lparr>cn_executed = [], cn_cursor_open = False, cn_closed = False\<rparr> m of
                  (r, c, m) \<Rightarrow> (r, Some c, m))))"

section \<open>Files that stay private\<close>

definition own_file :: "process \<Rightarrow> file_system \<Rightarrow> file_path \<Rightarrow> bool" where
  "own_file pr fs p \<longleftrightarrow>
     (case entry fs p of None \<Rightarrow> False | Some n \<Rightarrow> fl_kind n = Regular_File \<and> fl_uid n = pr_euid pr)"

definition private_file :: "process \<Rightarrow> file_system \<Rightarrow> file_path \<Rightarrow> bool" where
  "private_file pr fs p \<longleftrightarrow>
     own_file pr fs p \<and> map_option fl_mode (entry fs p) = Some SQLITE_FILE_MODE"

text \<open>
  Others leave the files of this user under their names. They may make them private too, as other
  workers of the service do.
\<close>

definition keeps_own :: "process \<Rightarrow> bool" where
  "keeps_own pr \<longleftrightarrow> (\<forall>k fs p n. entry fs p = Some n \<longrightarrow> fl_uid n = pr_euid pr \<longrightarrow>
     entry (pr_others pr k fs) p \<in> {Some n, Some (n\<lparr>fl_mode := SQLITE_FILE_MODE\<rparr>)})"

lemma entry_set_mode:
  "entry (set_mode i mode fs) p =
     map_option (\<lambda>n. if fs_names fs p = Some i then n\<lparr>fl_mode := mode\<rparr> else n) (entry fs p)"
  by (cases "fs_names fs p") (auto simp: entry_def set_mode_def)

lemma names_set_mode [simp]: "fs_names (set_mode i mode fs) = fs_names fs"
  by (simp add: set_mode_def)

lemma own_file_entry:
  "own_file pr fs p \<longleftrightarrow> (\<exists>n. entry fs p = Some n \<and> fl_kind n = Regular_File \<and> fl_uid n = pr_euid pr)"
  by (auto simp: own_file_def split: option.splits)

lemma entry_others:
  assumes "keeps_own pr" "entry fs p = Some n" "fl_uid n = pr_euid pr"
  obtains "entry (pr_others pr k fs) p = Some n"
    | "entry (pr_others pr k fs) p = Some (n\<lparr>fl_mode := SQLITE_FILE_MODE\<rparr>)"
proof -
  have "entry (pr_others pr k fs) p \<in> {Some n, Some (n\<lparr>fl_mode := SQLITE_FILE_MODE\<rparr>)}"
    using assms by (simp only: keeps_own_def)
  then show ?thesis using that by blast
qed

lemma own_file_others: "keeps_own pr \<Longrightarrow> own_file pr fs p \<Longrightarrow> own_file pr (pr_others pr k fs) p"
  by (auto simp: own_file_entry elim!: entry_others [of pr fs p _ k])

lemma private_file_others: "keeps_own pr \<Longrightarrow> private_file pr fs p \<Longrightarrow> private_file pr (pr_others pr k fs) p"
  by (auto simp: own_file_entry private_file_def elim!: entry_others [of pr fs p _ k])

lemma private_file_set_mode [intro]:
  "private_file pr fs p \<Longrightarrow> private_file pr (set_mode i SQLITE_FILE_MODE fs) p"
  by (auto simp: private_file_def own_file_def entry_set_mode split: option.splits)

lemma follow_own: "own_file pr fs p \<Longrightarrow> follow MAX_LINKS fs p = fs_names fs p"
  by (auto simp: own_file_def entry_def MAX_LINKS_def eval_nat_numeral split: option.splits file_kind.splits)

lemma private_file_call:
  assumes "keeps_own pr" "private_file pr (fst m) p"
    and "\<And>fs. private_file pr fs p \<Longrightarrow> private_file pr (snd (act fs)) p"
  shows "private_file pr (fst (snd (system_call pr q act m))) p"
  using assms by (auto simp: system_call_def Let_def split: prod.splits intro: private_file_others)
    (metis private_file_others snd_conv)

lemma private_file_lstat:
  "keeps_own pr \<Longrightarrow> private_file pr (fst m) p \<Longrightarrow> private_file pr (fst (snd (hardened_sqlite_stat pr q m))) p"
  using private_file_call [of pr m p "\<lambda>fs. (case entry fs q of None \<Rightarrow> Inl (FileNotFoundError q) | Some n \<Rightarrow> Inr n, fs)" q]
  by (auto simp: hardened_sqlite_stat_def os_lstat_def split: prod.splits sum.splits)

lemma private_file_chmod:
  "keeps_own pr \<Longrightarrow> private_file pr (fst m) p \<Longrightarrow>
   private_file pr (fst (snd (os_chmod pr q SQLITE_FILE_MODE m))) p"
  unfolding os_chmod_def by (rule private_file_call) (auto split: option.splits)

lemma chmod_makes_private:
  assumes "keeps_own pr" "own_file pr (fst m) p" "os_chmod pr p SQLITE_FILE_MODE m = (Inr u, m')"
  shows "private_file pr (fst m') p"
proof -
  obtain fs k where m: "m = (fs, k)" by (cases m)
  let ?fs = "pr_others pr k fs"
  have own: "own_file pr ?fs p" using assms(1,2) m by (auto intro: own_file_others)
  then obtain i where i: "fs_names ?fs p = Some i" by (auto simp: own_file_entry entry_def)
  then have "fst m' = set_mode i SQLITE_FILE_MODE ?fs"
    using assms(3) m follow_own [OF own] by (auto simp: os_chmod_def system_call_def Let_def split: if_splits)
  then show ?thesis using own i by (auto simp: private_file_def own_file_entry entry_set_mode)
qed

lemma private_file_sidecars:
  "keeps_own pr \<Longrightarrow> private_file pr (fst m) p \<Longrightarrow> private_file pr (fst (snd (harden_sidecars pr ss m))) p"
proof (induction ss arbitrary: m)
  case (Cons s ss)
  obtain r m1 where r: "hardened_sqlite_stat pr s m = (r, m1)" by (cases "hardened_sqlite_stat pr s m")
  have m1: "private_file pr (fst m1) p" using private_file_lstat [OF Cons.prems, of s] by (simp add: r)
  obtain c m2 where c: "os_chmod pr s SQLITE_FILE_MODE m1 = (c, m2)"
    by (cases "os_chmod pr s SQLITE_FILE_MODE m1")
  have "private_file pr (fst m2) p" using private_file_chmod [OF Cons.prems(1) m1, of s] by (simp add: c)
  then show ?case using Cons.IH [OF Cons.prems(1)] m1 by (auto simp: r c split: sum.splits option.splits)
qed simp

lemma stat_shows_entry:
  "hardened_sqlite_stat pr p m = (Inr (Some n), m') \<Longrightarrow> entry (fst m') p = Some n"
  by (auto simp: hardened_sqlite_stat_def os_lstat_def system_call_def Let_def
      split: prod.splits sum.splits if_splits option.splits)

lemma stat_or_create_shows_entry:
  "stat_or_create pr p m = (Inr n, m') \<Longrightarrow> entry (fst m') p = Some n"
  by (auto simp: stat_or_create_def stat_again_def dest: stat_shows_entry
      split: prod.splits sum.splits option.splits if_splits)

lemma verified_is_own:
  "verify_sqlite_file_stat pr p n = Inr u \<Longrightarrow> entry fs p = Some n \<Longrightarrow> own_file pr fs p"
  by (auto simp: verify_sqlite_file_stat_def own_file_def split: file_kind.splits if_splits)

lemma hardened_is_private:
  assumes "keeps_own pr" "pr_posix pr" "harden_sqlite_file pr p m = (Inr (), m')"
  shows "private_file pr (fst m') p"
proof -
  obtain n m1 m2 u where n: "stat_or_create pr p m1 = (Inr n, m2)" "verify_sqlite_file_stat pr p n = Inr u"
    and a: "apply_private_sqlite_modes pr p m2 = (Inr (), m')"
    using assms(2,3) by (auto simp: harden_sqlite_file_def split: prod.splits sum.splits if_splits)
  have own: "own_file pr (fst m2) p" by (rule verified_is_own [OF n(2) stat_or_create_shows_entry [OF n(1)]])
  obtain v m3 where c: "os_chmod pr p SQLITE_FILE_MODE m2 = (Inr v, m3)"
    and s: "harden_sidecars pr (map (sidecar p) SIDECARS) m3 = (Inr (), m')"
    using a by (auto simp: apply_private_sqlite_modes_def split: prod.splits sum.splits)
  show ?thesis
    using private_file_sidecars [OF assms(1) chmod_makes_private [OF assms(1) own c], of "map (sidecar p) SIDECARS"]
    by (simp add: s)
qed

section \<open>What hardening leaves alone\<close>

definition quiet :: "process \<Rightarrow> bool" where
  "quiet pr \<longleftrightarrow> (\<forall>k fs. pr_others pr k fs = fs)"

definition names_known_files :: "file_system \<Rightarrow> bool" where
  "names_known_files fs \<longleftrightarrow> (\<forall>q i. fs_names fs q = Some i \<longrightarrow> i < fs_next fs)"

text \<open>
  Old names stay, new names are those of new files, and the only old files that change are regular
  files of this user with a name in \<open>ps\<close>, which become private.
\<close>

definition touches_only :: "process \<Rightarrow> file_path list \<Rightarrow> file_system \<Rightarrow> file_system \<Rightarrow> bool" where
  "touches_only pr ps fs fs' \<longleftrightarrow>
     fs_next fs \<le> fs_next fs' \<and>
     (\<forall>q i. fs_names fs q = Some i \<longrightarrow> fs_names fs' q = Some i) \<and>
     (\<forall>q i. fs_names fs' q = Some i \<longrightarrow> i < fs_next fs \<longrightarrow> fs_names fs q = Some i) \<and>
     (\<forall>i < fs_next fs. fs_nodes fs' i = fs_nodes fs i \<or>
        fl_kind (fs_nodes fs i) = Regular_File \<and> fl_uid (fs_nodes fs i) = pr_euid pr \<and>
        (\<exists>s \<in> set ps. fs_names fs s = Some i) \<and>
        fs_nodes fs' i = (fs_nodes fs i)\<lparr>fl_mode := SQLITE_FILE_MODE\<rparr>)"

lemma quiet_keeps_own: "quiet pr \<Longrightarrow> keeps_own pr"
  by (simp add: quiet_def keeps_own_def)

lemma touches_refl [simp]: "touches_only pr ps fs fs"
  by (simp add: touches_only_def)

lemma touches_trans:
  assumes a: "touches_only pr ps f g" and b: "touches_only pr ps g h"
  shows "touches_only pr ps f h"
proof -
  have "fs_nodes h i = fs_nodes f i \<or>
        fl_kind (fs_nodes f i) = Regular_File \<and> fl_uid (fs_nodes f i) = pr_euid pr \<and>
        (\<exists>s \<in> set ps. fs_names f s = Some i) \<and>
        fs_nodes h i = (fs_nodes f i)\<lparr>fl_mode := SQLITE_FILE_MODE\<rparr>" if i: "i < fs_next f" for i
  proof -
    have j: "i < fs_next g" using a i unfolding touches_only_def by linarith
    have f: "fs_nodes g i = fs_nodes f i \<or>
        fl_kind (fs_nodes f i) = Regular_File \<and> fl_uid (fs_nodes f i) = pr_euid pr \<and>
        (\<exists>s \<in> set ps. fs_names f s = Some i) \<and> fs_nodes g i = (fs_nodes f i)\<lparr>fl_mode := SQLITE_FILE_MODE\<rparr>"
      using a i unfolding touches_only_def by blast
    have g: "fs_nodes h i = fs_nodes g i \<or>
        fl_kind (fs_nodes g i) = Regular_File \<and> fl_uid (fs_nodes g i) = pr_euid pr \<and>
        (\<exists>s \<in> set ps. fs_names g s = Some i) \<and> fs_nodes h i = (fs_nodes g i)\<lparr>fl_mode := SQLITE_FILE_MODE\<rparr>"
      using b j unfolding touches_only_def by blast
    have names: "\<exists>s \<in> set ps. fs_names g s = Some i \<Longrightarrow> \<exists>s \<in> set ps. fs_names f s = Some i"
      using a i unfolding touches_only_def by blast
    show ?thesis
    proof (cases "fs_nodes h i = fs_nodes g i")
      case True
      then show ?thesis using f by simp
    next
      case False
      then have h: "fl_kind (fs_nodes g i) = Regular_File" "fl_uid (fs_nodes g i) = pr_euid pr"
        "\<exists>s \<in> set ps. fs_names f s = Some i" "fs_nodes h i = (fs_nodes g i)\<lparr>fl_mode := SQLITE_FILE_MODE\<rparr>"
        using g names by simp_all
      show ?thesis
      proof (cases "fs_nodes g i = fs_nodes f i")
        case True
        then show ?thesis using h by simp
      next
        case False
        then show ?thesis using h f by simp
      qed
    qed
  qed
  moreover have "fs_next f \<le> fs_next h" "\<forall>q i. fs_names f q = Some i \<longrightarrow> fs_names h q = Some i"
    "\<forall>q i. fs_names h q = Some i \<longrightarrow> i < fs_next f \<longrightarrow> fs_names f q = Some i"
    using a b unfolding touches_only_def by (meson order.trans order.strict_trans2)+
  ultimately show ?thesis unfolding touches_only_def by blast
qed

lemma touches_add_node: "fs_names fs p = None \<Longrightarrow> touches_only pr ps fs (add_node p n fs)"
  by (auto simp: touches_only_def add_node_def)

lemma touches_set_mode:
  assumes "own_file pr fs s" "fs_names fs s = Some i" "s \<in> set ps"
  shows "touches_only pr ps fs (set_mode i SQLITE_FILE_MODE fs)"
  using assms by (auto simp: touches_only_def set_mode_def own_file_def entry_def)

lemma touches_call:
  assumes "quiet pr" "touches_only pr ps (fst m) (snd (act (fst m)))"
  shows "touches_only pr ps (fst m) (fst (snd (system_call pr q act m)))"
  using assms by (auto simp: system_call_def quiet_def Let_def split: prod.splits)

lemma touches_mkdir: "quiet pr \<Longrightarrow> touches_only pr ps (fst m) (fst (snd (os_mkdir pr mode q m)))"
  unfolding os_mkdir_def by (rule touches_call) (auto split: option.splits intro: touches_add_node)

lemma touches_existing: "quiet pr \<Longrightarrow> touches_only pr ps (fst m) (fst (snd (or_existing pr q e m)))"
  using touches_call [of pr ps m "\<lambda>fs. (Inr (case follow MAX_LINKS fs q of None \<Rightarrow> False
    | Some i \<Rightarrow> fl_kind (fs_nodes fs i) = Directory), fs)" q]
  by (auto simp: or_existing_def os_is_dir_def split: prod.splits sum.splits bool.splits)

lemma touches_stat: "quiet pr \<Longrightarrow> touches_only pr ps (fst m) (fst (snd (hardened_sqlite_stat pr q m)))"
  using touches_call [of pr ps m "\<lambda>fs. (case entry fs q of None \<Rightarrow> Inl (FileNotFoundError q) | Some n \<Rightarrow> Inr n, fs)" q]
  by (auto simp: hardened_sqlite_stat_def os_lstat_def split: prod.splits sum.splits)

lemma touches_chmod:
  assumes "quiet pr" "own_file pr (fst m) s" "s \<in> set ps"
  shows "touches_only pr ps (fst m) (fst (snd (os_chmod pr s SQLITE_FILE_MODE m)))"
  unfolding os_chmod_def
  by (rule touches_call [OF assms(1)])
    (use assms follow_own [OF assms(2)] in \<open>auto split: option.splits intro: touches_set_mode\<close>)

lemma touches_mkdir_parents: "quiet pr \<Longrightarrow> touches_only pr ps (fst m) (fst (snd (mkdir_parents pr mode up m)))"
proof (induction pr mode up m rule: mkdir_parents.induct)
  case (1 pr mode m)
  obtain r m1 where r: "os_mkdir pr mode [] m = (r, m1)" by (cases "os_mkdir pr mode [] m")
  have "touches_only pr ps (fst m) (fst m1)" using touches_mkdir [OF 1, of ps m mode "[]"] by (simp add: r)
  then show ?case using touches_existing [OF 1, of ps m1 "[]"]
    by (auto simp: r split: sum.splits intro: touches_trans)
next
  case (2 pr mode c up m)
  let ?p = "rev (c # up)"
  obtain r m1 where r: "os_mkdir pr mode ?p m = (r, m1)" by (cases "os_mkdir pr mode ?p m")
  have m1: "touches_only pr ps (fst m) (fst m1)" using touches_mkdir [OF 2(2), of ps m mode ?p] by (simp add: r [simplified])
  have existing: "touches_only pr ps (fst m) (fst (snd (or_existing pr ?p e m')))"
    if "touches_only pr ps (fst m) (fst m')" for e m'
    using that touches_existing [OF 2(2)] by (rule touches_trans)
  show ?case
  proof (cases r)
    case (Inr u)
    then show ?thesis using m1 by (simp add: r [simplified])
  next
    case e: (Inl e)
    show ?thesis
    proof (cases "is_missing e")
      case False
      then show ?thesis using existing [OF m1, of e] by (simp add: r [simplified] e)
    next
      case True
      obtain q m2 where q: "mkdir_parents pr 0x1FF up m1 = (q, m2)" by (cases "mkdir_parents pr 0x1FF up m1")
      have "touches_only pr ps (fst m1) (fst m2)"
        using 2(1) [OF r [symmetric] e True 2(2)] by (simp add: q)
      then have m2: "touches_only pr ps (fst m) (fst m2)" by (rule touches_trans [OF m1])
      obtain t m3 where t: "os_mkdir pr mode ?p m2 = (t, m3)" by (cases "os_mkdir pr mode ?p m2")
      have m3: "touches_only pr ps (fst m) (fst m3)"
        using touches_trans [OF m2 touches_mkdir [OF 2(2), of ps m2 mode ?p]] by (simp add: t [simplified])
      show ?thesis using m2 m3 existing [OF m3]
        by (cases q; cases t) (simp_all add: r [simplified] e True q t [simplified])
    qed
  qed
qed

lemma created_file:
  assumes "quiet pr" "os_create pr mode p m = (Inr fd, m')"
  shows "own_file pr (fst m') p \<and> fs_names (fst m') p = Some fd"
  using assms by (auto simp: os_create_def system_call_def Let_def add_node_def own_file_def entry_def
      split: prod.splits if_splits option.splits)

lemma touches_create: "quiet pr \<Longrightarrow> touches_only pr ps (fst m) (fst (snd (os_create pr mode q m)))"
  unfolding os_create_def by (rule touches_call) (auto split: option.splits intro: touches_add_node)

lemma touches_create_private:
  assumes "quiet pr" "p \<in> set ps"
  shows "touches_only pr ps (fst m) (fst (snd (create_private_sqlite_file pr p m)))"
proof -
  obtain r m1 where r: "os_create pr SQLITE_FILE_MODE p m = (r, m1)" by (cases "os_create pr SQLITE_FILE_MODE p m")
  have m1: "touches_only pr ps (fst m) (fst m1)"
    using touches_create [OF assms(1), of ps m SQLITE_FILE_MODE p] by (simp add: r)
  show ?thesis
  proof (cases r)
    case (Inl e)
    then show ?thesis using m1 by (simp add: create_private_sqlite_file_def r)
  next
    case (Inr fd)
    then have own: "own_file pr (fst m1) p" "fs_names (fst m1) p = Some fd"
      using created_file [OF assms(1)] r by auto
    have "touches_only pr ps (fst m1) (fst (snd (os_fchmod pr fd SQLITE_FILE_MODE m1)))"
      unfolding os_fchmod_def
      by (rule touches_call [OF assms(1)]) (simp add: touches_set_mode [OF own assms(2)])
    then show ?thesis using m1 Inr by (auto simp: create_private_sqlite_file_def r intro: touches_trans)
  qed
qed

lemma touches_stat_again:
  "quiet pr \<Longrightarrow> touches_only pr ps (fst m) (fst m1) \<Longrightarrow>
   touches_only pr ps (fst m) (fst (snd (stat_again pr q m1)))"
  using touches_stat [of pr ps m1 q]
  by (auto simp: stat_again_def split: prod.splits sum.splits option.splits intro: touches_trans)

lemma touches_stat_or_create:
  assumes "quiet pr" "p \<in> set ps"
  shows "touches_only pr ps (fst m) (fst (snd (stat_or_create pr p m)))"
proof -
  obtain r m1 where r: "hardened_sqlite_stat pr p m = (r, m1)" by (cases "hardened_sqlite_stat pr p m")
  obtain c m2 where c: "create_private_sqlite_file pr p m1 = (c, m2)" by (cases "create_private_sqlite_file pr p m1")
  have m1: "touches_only pr ps (fst m) (fst m1)" using touches_stat [OF assms(1), of ps m p] by (simp add: r)
  have m2: "touches_only pr ps (fst m) (fst m2)"
    using touches_trans [OF m1 touches_create_private [OF assms]] by (simp add: c)
  show ?thesis using m1 m2 touches_stat_again [OF assms(1) m2, of p]
    by (auto simp: stat_or_create_def r c split: sum.splits option.splits)
qed

lemma touches_sidecars:
  "quiet pr \<Longrightarrow> set ss \<subseteq> set ps \<Longrightarrow> touches_only pr ps (fst m) (fst (snd (harden_sidecars pr ss m)))"
proof (induction ss arbitrary: m)
  case (Cons s ss)
  obtain r m1 where r: "hardened_sqlite_stat pr s m = (r, m1)" by (cases "hardened_sqlite_stat pr s m")
  obtain c m2 where c: "os_chmod pr s SQLITE_FILE_MODE m1 = (c, m2)"
    by (cases "os_chmod pr s SQLITE_FILE_MODE m1")
  have m1: "touches_only pr ps (fst m) (fst m1)" using touches_stat [OF Cons.prems(1), of ps m s] by (simp add: r)
  have rest: "touches_only pr ps (fst m) (fst (snd (harden_sidecars pr ss m')))"
    if "touches_only pr ps (fst m) (fst m')" for m'
    using that Cons.IH [of m'] Cons.prems by (auto intro: touches_trans)
  have m2: "touches_only pr ps (fst m) (fst m2)"
    if "r = Inr (Some n)" "fl_kind n = Regular_File" "fl_uid n = pr_euid pr" for n
  proof -
    have "own_file pr (fst m1) s" using stat_shows_entry [of pr s m n m1] r that by (simp add: own_file_def)
    then show ?thesis using touches_trans [OF m1 touches_chmod [OF Cons.prems(1), of m1 s]] Cons.prems(2)
      by (simp add: c)
  qed
  show ?case using m1 m2 rest [OF m1] rest [OF m2]
    by (auto simp: r c split: sum.splits option.splits)
qed simp

lemma touches_harden:
  assumes "quiet pr"
  shows "touches_only pr (p # map (sidecar p) SIDECARS) (fst m) (fst (snd (harden_sqlite_file pr p m)))"
proof -
  let ?ps = "p # map (sidecar p) SIDECARS"
  obtain d m1 where d: "mkdir_parents pr SQLITE_DIR_MODE (rev (butlast p)) m = (d, m1)"
    by (cases "mkdir_parents pr SQLITE_DIR_MODE (rev (butlast p)) m")
  obtain r m2 where r: "stat_or_create pr p m1 = (r, m2)" by (cases "stat_or_create pr p m1")
  obtain c m3 where c: "os_chmod pr p SQLITE_FILE_MODE m2 = (c, m3)" by (cases "os_chmod pr p SQLITE_FILE_MODE m2")
  have m1: "touches_only pr ?ps (fst m) (fst m1)"
    using touches_mkdir_parents [OF assms, of ?ps m SQLITE_DIR_MODE "rev (butlast p)"] by (simp add: d)
  have m2: "touches_only pr ?ps (fst m) (fst m2)"
    using touches_trans [OF m1 touches_stat_or_create [OF assms, of p ?ps m1]] by (simp add: r)
  have m3: "touches_only pr ?ps (fst m) (fst m3)" if "r = Inr n" "verify_sqlite_file_stat pr p n = Inr u" for n u
  proof -
    have "own_file pr (fst m2) p"
      by (rule verified_is_own [OF that(2) stat_or_create_shows_entry [of pr p m1]]) (simp add: r that(1))
    then show ?thesis using touches_trans [OF m2 touches_chmod [OF assms, of m2 p ?ps]] by (simp add: c)
  qed
  have m4: "touches_only pr ?ps (fst m) (fst (snd (harden_sidecars pr (map (sidecar p) SIDECARS) m3)))"
    if "r = Inr n" "verify_sqlite_file_stat pr p n = Inr u" for n u
    by (rule touches_trans [OF m3 [OF that] touches_sidecars [OF assms]]) auto
  show ?thesis using m1 m2 m3 m4
    by (auto simp: harden_sqlite_file_def apply_private_sqlite_modes_def d r c split: sum.splits)
qed

lemma names_call:
  assumes "quiet pr" "\<And>fs. fs_names (snd (act fs)) = fs_names fs"
  shows "fs_names (fst (snd (system_call pr q act m))) = fs_names (fst m)"
  using assms by (auto simp: system_call_def quiet_def Let_def split: prod.splits) (metis snd_conv)

lemma names_stat: "quiet pr \<Longrightarrow> fs_names (fst (snd (hardened_sqlite_stat pr q m))) = fs_names (fst m)"
  using names_call [of pr "\<lambda>fs. (case entry fs q of None \<Rightarrow> Inl (FileNotFoundError q) | Some n \<Rightarrow> Inr n, fs)" q m]
  by (auto simp: hardened_sqlite_stat_def os_lstat_def split: prod.splits sum.splits)

lemma names_chmod: "quiet pr \<Longrightarrow> fs_names (fst (snd (os_chmod pr q mode m))) = fs_names (fst m)"
  unfolding os_chmod_def by (rule names_call) (auto split: option.splits)

lemma names_sidecars: "quiet pr \<Longrightarrow> fs_names (fst (snd (harden_sidecars pr ss m))) = fs_names (fst m)"
proof (induction ss arbitrary: m)
  case (Cons s ss)
  obtain r m1 where r: "hardened_sqlite_stat pr s m = (r, m1)" by (cases "hardened_sqlite_stat pr s m")
  obtain c m2 where c: "os_chmod pr s SQLITE_FILE_MODE m1 = (c, m2)"
    by (cases "os_chmod pr s SQLITE_FILE_MODE m1")
  show ?case using Cons.IH [OF Cons.prems] names_stat [OF Cons.prems, of s m]
      names_chmod [OF Cons.prems, of s SQLITE_FILE_MODE m1]
    by (simp add: r c split: sum.splits option.splits)
qed simp

lemma stat_finds_nothing:
  "hardened_sqlite_stat pr p m = (Inr None, m') \<Longrightarrow> fs_names (fst m') p = None"
  by (auto simp: hardened_sqlite_stat_def os_lstat_def system_call_def Let_def entry_def
      split: prod.splits sum.splits if_splits option.splits)

lemma sidecars_are_private:
  "quiet pr \<Longrightarrow> harden_sidecars pr ss m = (Inr (), m') \<Longrightarrow> s \<in> set ss \<Longrightarrow>
   entry (fst m') s = None \<or> private_file pr (fst m') s"
proof (induction ss arbitrary: m)
  case (Cons t ss)
  obtain r m1 where r: "hardened_sqlite_stat pr t m = (r, m1)" by (cases "hardened_sqlite_stat pr t m")
  obtain c m2 where c: "os_chmod pr t SQLITE_FILE_MODE m1 = (c, m2)"
    by (cases "os_chmod pr t SQLITE_FILE_MODE m1")
  consider (none) "r = Inr None" "harden_sidecars pr ss m1 = (Inr (), m')"
    | (own) n u where "r = Inr (Some n)" "fl_kind n = Regular_File" "fl_uid n = pr_euid pr" "c = Inr u"
        "harden_sidecars pr ss m2 = (Inr (), m')"
    using Cons.prems(2) by (auto simp: r c split: sum.splits option.splits if_splits)
  then show ?case
  proof cases
    case none
    have "fs_names (fst m') t = None"
      using stat_finds_nothing [of pr t m m1] r none names_sidecars [OF Cons.prems(1), of ss m1] by simp
    then show ?thesis using Cons.IH [OF Cons.prems(1) none(2)] Cons.prems(3) by (auto simp: entry_def)
  next
    case own
    have "own_file pr (fst m1) t" using stat_shows_entry [of pr t m n m1] r own by (simp add: own_file_def)
    then have "private_file pr (fst m2) t"
      by (rule chmod_makes_private [OF quiet_keeps_own [OF Cons.prems(1)]]) (simp add: c own)
    then have "private_file pr (fst m') t"
      using private_file_sidecars [OF quiet_keeps_own [OF Cons.prems(1)], of m2 t ss] own by simp
    then show ?thesis using Cons.IH [OF Cons.prems(1) own(5)] Cons.prems(3) by auto
  qed
qed simp

section \<open>Properties\<close>

text \<open>
  C33. Where a database of SQLite has been hardened, its file is a regular file of this user that nobody
  else may read or write, whatever other processes did in between, as long as they leave this user's own
  files in their places. When nobody interferes, the same is true of the files beside it.
\<close>

theorem hardened_databases_are_private:
  assumes "keeps_own pr" "pr_posix pr" "harden_sqlite_file pr p m = (Inr (), (fs, k))"
  shows "private_file pr fs p \<and>
    (quiet pr \<longrightarrow> (\<forall>s \<in> set SIDECARS. entry fs (sidecar p s) = None \<or> private_file pr fs (sidecar p s)))"
proof -
  have "\<exists>m3. harden_sidecars pr (map (sidecar p) SIDECARS) m3 = (Inr (), (fs, k))"
    using assms(2,3)
    by (auto simp: harden_sqlite_file_def apply_private_sqlite_modes_def split: prod.splits sum.splits if_splits)
  then show ?thesis
    using hardened_is_private [OF assms] sidecars_are_private [of pr "map (sidecar p) SIDECARS" _ "(fs, k)"] by auto
qed

definition small_disk :: "file_node \<Rightarrow> file_system" where
  "small_disk n =
     \<lparr>fs_names = [[] \<mapsto> 0, [''srv''] \<mapsto> 1, [''srv'', ''tasks.db''] \<mapsto> 2, [''srv'', ''tasks.db-wal''] \<mapsto> 3,
                  [''srv'', ''key''] \<mapsto> 4],
      fs_nodes = (\<lambda>i. if i \<le> 1 then \<lparr>fl_kind = Directory, fl_uid = 0, fl_mode = 0x1ED\<rparr>
                     else if i = 2 then n else \<lparr>fl_kind = Regular_File, fl_uid = 7, fl_mode = 0x1A4\<rparr>),
      fs_next = 5\<rparr>"

definition worker :: process where
  "worker = \<lparr>pr_posix = True, pr_euid = 7, pr_umask = 0x12, pr_others = (\<lambda>k fs. fs), pr_denied = (\<lambda>k. False)\<rparr>"

lemma quiet_worker: "quiet worker" and posix_worker: "pr_posix worker"
  by (simp_all add: quiet_def worker_def)

theorem hardened_databases_are_private_witness:
  "case harden_sqlite_file worker [''srv'', ''tasks.db'']
      (small_disk \<lparr>fl_kind = Regular_File, fl_uid = 7, fl_mode = 0x1A4\<rparr>, 0) of
     (r, fs, k) \<Rightarrow> r = Inr () \<and> private_file worker fs [''srv'', ''tasks.db'']"
proof -
  let ?p = "[''srv'', ''tasks.db'']"
  let ?m = "(small_disk \<lparr>fl_kind = Regular_File, fl_uid = 7, fl_mode = 0x1A4\<rparr>, 0)"
  have ok: "fst (harden_sqlite_file worker ?p ?m) = Inr ()" by code_simp
  obtain fs k where h: "harden_sqlite_file worker ?p ?m = (Inr (), (fs, k))"
    using ok by (cases "harden_sqlite_file worker ?p ?m") auto
  show ?thesis
    using hardened_databases_are_private [OF quiet_keeps_own [OF quiet_worker] posix_worker h] by (simp add: h)
qed

text \<open>
  C34. Hardening a database changes nothing that was on the disk but the modes of its own file and of the
  files beside it, and of those only regular files of this user; whatever else it meets there stays as it
  was, whether hardening succeeds or refuses.
\<close>

theorem hardening_touches_only_its_files:
  assumes "quiet pr" "names_known_files fs" "entry fs q = Some n" "harden_sqlite_file pr p (fs, k) = (r, (fs', k'))"
  shows "entry fs' q = Some n \<or>
    fl_kind n = Regular_File \<and> fl_uid n = pr_euid pr \<and>
    (\<exists>s \<in> set (p # map (sidecar p) SIDECARS). fs_names fs s = fs_names fs q) \<and>
    entry fs' q = Some (n\<lparr>fl_mode := SQLITE_FILE_MODE\<rparr>)"
proof -
  obtain i where i: "fs_names fs q = Some i" "fs_nodes fs i = n" using assms(3) by (auto simp: entry_def)
  have "i < fs_next fs" using assms(2) i by (simp add: names_known_files_def)
  moreover have t: "touches_only pr (p # map (sidecar p) SIDECARS) fs fs'"
    using touches_harden [OF assms(1), of p "(fs, k)"] assms(4) by simp
  ultimately have "fs_nodes fs' i = n \<or>
      fl_kind n = Regular_File \<and> fl_uid n = pr_euid pr \<and>
      (\<exists>s \<in> set (p # map (sidecar p) SIDECARS). fs_names fs s = Some i) \<and>
      fs_nodes fs' i = n\<lparr>fl_mode := SQLITE_FILE_MODE\<rparr>"
    using i(2) unfolding touches_only_def by blast
  moreover have "fs_names fs' q = Some i" using t i(1) unfolding touches_only_def by blast
  ultimately show ?thesis using i(1) by (simp add: entry_def)
qed

theorem hardening_touches_only_its_files_witness:
  "case harden_sqlite_file worker [''srv'', ''tasks.db'']
      (small_disk \<lparr>fl_kind = Symlink [''srv'', ''key''], fl_uid = 7, fl_mode = 0x1FF\<rparr>, 0) of
     (r, fs, k) \<Rightarrow> r = Inl (LinkRefused [''srv'', ''tasks.db'']) \<and>
       entry fs [''srv'', ''key''] = Some \<lparr>fl_kind = Regular_File, fl_uid = 7, fl_mode = 0x1A4\<rparr>"
proof -
  let ?p = "[''srv'', ''tasks.db'']" and ?q = "[''srv'', ''key'']"
  let ?d = "small_disk \<lparr>fl_kind = Symlink [''srv'', ''key''], fl_uid = 7, fl_mode = 0x1FF\<rparr>"
  have r: "fst (harden_sqlite_file worker ?p (?d, 0)) = Inl (LinkRefused ?p)" by code_simp
  obtain fs k where h: "harden_sqlite_file worker ?p (?d, 0) = (Inl (LinkRefused ?p), (fs, k))"
    using r by (cases "harden_sqlite_file worker ?p (?d, 0)") auto
  have known: "names_known_files ?d" by (auto simp: names_known_files_def small_disk_def split: if_splits)
  have key: "entry ?d ?q = Some \<lparr>fl_kind = Regular_File, fl_uid = 7, fl_mode = 0x1A4\<rparr>" by code_simp
  have other: "\<not> (\<exists>s \<in> set (?p # map (sidecar ?p) SIDECARS). fs_names ?d s = fs_names ?d ?q)" by code_simp
  have "entry fs ?q = Some \<lparr>fl_kind = Regular_File, fl_uid = 7, fl_mode = 0x1A4\<rparr>"
    using hardening_touches_only_its_files [OF quiet_worker known key h] other by blast
  then show ?thesis unfolding h prod.case by blast
qed

section \<open>Connections\<close>

lemma executed_all:
  "execute_all dr ss c m = (r, c', m') \<Longrightarrow>
     cn_closed c' = cn_closed c \<and> cn_cursor_open c' = cn_cursor_open c \<and>
     (r = Inr () \<longrightarrow> cn_executed c' = cn_executed c @ ss)"
proof (induction ss arbitrary: c m)
  case (Cons s ss)
  then show ?case by (auto split: prod.splits sum.splits)
qed simp

text \<open>
  A connection that is handed out is open and has carried out all of the statements that set it up; where
  opening fails after the driver has connected, the connection is closed.
\<close>

theorem connections_are_set_up_or_closed:
  "case engine_connect pr dr en m of
     (Inr _, c, _) \<Rightarrow> c = Some \<lparr>cn_executed = PRAGMAS, cn_cursor_open = False, cn_closed = False\<rparr>
   | (Inl _, c, _) \<Rightarrow> c = None \<or> (\<exists>c'. c = Some c' \<and> cn_closed c' \<and> \<not> cn_cursor_open c')"
  by (auto simp: engine_connect_def configure_sqlite_connection_def connection.splits
      split: prod.splits sum.splits dest!: executed_all intro!: connection.equality)

definition driver_keeps_private :: "process \<Rightarrow> driver \<Rightarrow> file_path \<Rightarrow> bool" where
  "driver_keeps_private pr dr p \<longleftrightarrow>
     (\<forall>m. private_file pr (fst m) p \<longrightarrow> private_file pr (fst (snd (dr_connect dr m))) p \<and>
        (\<forall>s. private_file pr (fst (snd (dr_execute dr s m))) p))"

lemma executed_private:
  "execute_all dr ss c m = (r, c', m') \<Longrightarrow> driver_keeps_private pr dr p \<Longrightarrow> private_file pr (fst m) p \<Longrightarrow>
   private_file pr (fst m') p"
proof (induction ss arbitrary: c m)
  case (Cons s ss)
  have "private_file pr (fst (snd (dr_execute dr s m))) p"
    using Cons.prems(2,3) unfolding driver_keeps_private_def by blast
  then show ?case using Cons.prems(1,2) Cons.IH by (auto split: prod.splits sum.splits)
qed simp

text \<open>
  Whoever gets a connection to a database file gets it with the file private at that moment, also when
  the file was removed or replaced since the engine was built, and with every statement of its set-up done.
\<close>

theorem connections_open_private_files:
  assumes "keeps_own pr" "pr_posix pr" "de_path en = Some p" "driver_keeps_private pr dr p"
    and "engine_connect pr dr en m = (Inr u, c, (fs, k))"
  shows "private_file pr fs p \<and> c = Some \<lparr>cn_executed = PRAGMAS, cn_cursor_open = False, cn_closed = False\<rparr>"
proof -
  have set_up: "c = Some \<lparr>cn_executed = PRAGMAS, cn_cursor_open = False, cn_closed = False\<rparr>"
    using connections_are_set_up_or_closed [of pr dr en m] assms(5) by simp
  obtain m1 m2 m3 c3 where h: "harden_sqlite_file pr p m1 = (Inr (), m2)"
    and x: "execute_all dr PRAGMAS c3 m2 = (Inr (), m3)" "snd m3 = (fs, k)"
    using assms(3,5)
    by (auto simp: engine_connect_def configure_sqlite_connection_def harden_if_file_def split: prod.splits sum.splits)
  have "private_file pr (fst m2) p" by (rule hardened_is_private [OF assms(1,2) h])
  then have "private_file pr (fst (snd m3)) p"
    using executed_private [OF _ assms(4), of PRAGMAS c3 m2 "Inr ()" "fst m3" "snd m3"] x(1) by simp
  then show ?thesis using x(2) set_up by simp
qed

definition small_driver :: driver where
  "small_driver = \<lparr>dr_connect = (\<lambda>m. (Inr (), m)), dr_execute = (\<lambda>s m. (Inr (), m))\<rparr>"

theorem connections_open_private_files_witness:
  "case engine_connect worker small_driver \<lparr>de_path = Some [''srv'', ''tasks.db''], de_single_connection = False\<rparr>
      (small_disk \<lparr>fl_kind = Regular_File, fl_uid = 7, fl_mode = 0x1A4\<rparr>, 0) of
     (r, c, m) \<Rightarrow> r = Inr () \<and> private_file worker (fst m) [''srv'', ''tasks.db'']"
proof -
  let ?en = "\<lparr>de_path = Some [''srv'', ''tasks.db''], de_single_connection = False\<rparr>"
  let ?m = "(small_disk \<lparr>fl_kind = Regular_File, fl_uid = 7, fl_mode = 0x1A4\<rparr>, 0)"
  have ok: "fst (engine_connect worker small_driver ?en ?m) = Inr ()" by code_simp
  obtain c fs k where h: "engine_connect worker small_driver ?en ?m = (Inr (), c, (fs, k))"
    using ok by (cases "engine_connect worker small_driver ?en ?m") auto
  have "driver_keeps_private worker small_driver [''srv'', ''tasks.db'']"
    by (simp add: driver_keeps_private_def small_driver_def)
  then have "private_file worker fs [''srv'', ''tasks.db'']"
    using connections_open_private_files [OF quiet_keeps_own [OF quiet_worker] posix_worker _ _ h] by simp
  then show ?thesis by (simp add: h)
qed

end
