(* ===== verification/Peer_Settings.thy ===== *)
theory Peer_Settings
  imports Peer_Polling Access_Control Network_Policy
begin

text \<open>
  The settings of the client for other agents (\<open>client/config.py\<close>): what is read, from a mapping or the
  attributes of an object, and what it must be. A float that is given as such is a rational; read from a
  text it may be any float.
\<close>

section \<open>Reading floats\<close>

text \<open>
  \<open>float(s)\<close>: a decimal numeral with an exponent, an infinity, or not a number. A value beyond the largest
  float is infinite and one below the smallest is zero; rounding in between is left out.
\<close>

definition FLOAT_LIMIT :: rat where
  "FLOAT_LIMIT = 2 ^ 1024 - 2 ^ 970"

definition round_float :: "rat \<Rightarrow> pyfloat" where
  "round_float q =
     (if FLOAT_LIMIT \<le> q then PosInf else if q \<le> - FLOAT_LIMIT then NegInf
      else if \<bar>q\<bar> \<le> 1 / 2 ^ 1075 then Fin 0 else Fin q)"

definition float_of_text :: "string \<Rightarrow> pyfloat option" where
  "float_of_text s =
     (let normalized = strip s; (sgn, body) = split_sign normalized; body = lower body
      in if body \<in> {''inf'', ''infinity''} then Some (if sgn < 0 then NegInf else PosInf)
         else if body = ''nan'' then Some NaN
         else map_option round_float (py_float normalized))"

section \<open>Reading settings\<close>

datatype settings_error = SettingValueError string | SettingOverflowError

datatype settings_source = NoSource | SourceMapping mapping | SourceObject mapping

fun first_key :: "mapping \<Rightarrow> string list \<Rightarrow> pyval \<Rightarrow> pyval" where
  "first_key d [] v = v"
| "first_key d (k # ks) v = (case map_of d k of Some w \<Rightarrow> w | None \<Rightarrow> first_key d ks v)"

fun read_setting :: "settings_source \<Rightarrow> string list \<Rightarrow> pyval \<Rightarrow> pyval" where
  "read_setting NoSource ks v = v"
| "read_setting (SourceMapping d) ks v = first_key d ks v"
| "read_setting (SourceObject attributes) ks v = first_key attributes ks v"

definition coerce_float :: "(rat \<Rightarrow> string) \<Rightarrow> string \<Rightarrow> pyval \<Rightarrow> pyfloat \<Rightarrow> settings_error + pyfloat" where
  "coerce_float fr name v d =
     (let failure = Inl (SettingValueError (name @ '' must be a number, got '' @ py_repr fr v))
      in case v of
           PNone \<Rightarrow> Inr d
         | PBool b \<Rightarrow> Inr (Fin (if b then 1 else 0))
         | PInt i \<Rightarrow> if FLOAT_LIMIT \<le> \<bar>of_int i\<bar> then Inl SettingOverflowError else Inr (Fin (of_int i))
         | PFloat q \<Rightarrow> Inr (Fin q)
         | PStr s \<Rightarrow>
             if strip s = [] then Inr d
             else (case float_of_text s of Some x \<Rightarrow> Inr x | None \<Rightarrow> failure)
         | _ \<Rightarrow> failure)"

definition coerce_bool :: "(rat \<Rightarrow> string) \<Rightarrow> string \<Rightarrow> pyval \<Rightarrow> bool \<Rightarrow> settings_error + bool" where
  "coerce_bool fr name v d =
     (let failure = Inl (SettingValueError (name @ '' must be a boolean-like value, got '' @ py_repr fr v))
      in case v of
           PNone \<Rightarrow> Inr d
         | PBool b \<Rightarrow> Inr b
         | PStr s \<Rightarrow>
             (let lowered = lower (strip s)
              in if lowered \<in> {''1'', ''true'', ''yes'', ''on''} then Inr True
                 else if lowered \<in> {''0'', ''false'', ''no'', ''off''} then Inr False
                 else if lowered \<in> {''t'', ''f''} then Inr (lowered = ''t'')
                 else failure)
         | _ \<Rightarrow> failure)"

definition coerce_optional_str :: "(rat \<Rightarrow> string) \<Rightarrow> string \<Rightarrow> pyval \<Rightarrow> settings_error + string option" where
  "coerce_optional_str fr name v =
     (case v of
        PNone \<Rightarrow> Inr None
      | PStr s \<Rightarrow> Inr (nonempty_strip s)
      | _ \<Rightarrow> Inl (SettingValueError (name @ '' must be a string, got '' @ py_repr fr v)))"

definition normalize_transport :: "string \<Rightarrow> settings_error + string" where
  "normalize_transport v =
     (let normalized = lower (strip v)
      in if normalized \<in> {''jsonrpc'', ''json-rpc'', ''json_rpc''} then Inr ''JSONRPC''
         else if normalized \<in> {''http+json'', ''http-json'', ''http_json''} then Inr ''HTTP+JSON''
         else if normalized = ''grpc'' then Inr ''GRPC''
         else if normalized = [] then Inr ''JSONRPC''
         else Inl (SettingValueError (''supported_transports contains unsupported transport '' @ py_repr_str v)))"

fun all_ok :: "('e + 'a) list \<Rightarrow> 'e + 'a list" where
  "all_ok [] = Inr []"
| "all_ok (r # rs) =
     (case r of Inl e \<Rightarrow> Inl e | Inr a \<Rightarrow> (case all_ok rs of Inl e \<Rightarrow> Inl e | Inr as \<Rightarrow> Inr (a # as)))"

definition normalize_all :: "string list \<Rightarrow> string list \<Rightarrow> settings_error + string list" where
  "normalize_all d items =
     (case all_ok (map normalize_transport (filter (\<lambda>item. strip item \<noteq> []) items)) of
        Inl e \<Rightarrow> Inl e
      | Inr normalized \<Rightarrow> Inr (if normalized = [] then d else normalized))"

definition parse_transports :: "(rat \<Rightarrow> string) \<Rightarrow> pyval \<Rightarrow> string list \<Rightarrow> settings_error + string list" where
  "parse_transports fr raw d =
     (case raw of
        PNone \<Rightarrow> Inr d
      | PStr s \<Rightarrow> normalize_all d (filter (\<lambda>item. strip item \<noteq> []) (split_char CHR '','' s))
      | PList vs \<Rightarrow> normalize_all d (map (py_str fr) vs)
      | _ \<Rightarrow> Inl (SettingValueError ''supported_transports must be a comma-separated string or list''))"

section \<open>The settings\<close>

record client_settings =
  cs_default_timeout :: pyfloat
  cs_use_client_preference :: bool
  cs_card_fetch_timeout :: pyfloat
  cs_bearer_token :: "string option"
  cs_basic_auth :: "string option"
  cs_supported_transports :: "string list"
  cs_polling :: polling_fallback_policy

text \<open>Every setting has a name in capitals, which the errors show, and the same name in lower case.\<close>

definition setting :: "settings_source \<Rightarrow> string \<Rightarrow> pyval \<Rightarrow> pyval" where
  "setting src name d = read_setting src [name, lower name] d"

definition float_setting :: "(rat \<Rightarrow> string) \<Rightarrow> settings_source \<Rightarrow> string \<Rightarrow> rat \<Rightarrow> settings_error + pyfloat" where
  "float_setting fr src name d = coerce_float fr name (setting src name (PFloat d)) (Fin d)"

definition DEFAULT_TRANSPORTS :: "string list" where
  "DEFAULT_TRANSPORTS = [''JSONRPC'', ''HTTP+JSON'']"

definition sum_bind :: "'e + 'a \<Rightarrow> ('a \<Rightarrow> 'e + 'b) \<Rightarrow> 'e + 'b" where
  "sum_bind r f = (case r of Inl e \<Rightarrow> Inl e | Inr a \<Rightarrow> f a)"

definition as_value_error :: "string + unit \<Rightarrow> settings_error + unit" where
  "as_value_error r = (case r of Inl e \<Rightarrow> Inl (SettingValueError e) | Inr _ \<Rightarrow> Inr ())"

definition load_polling :: "(rat \<Rightarrow> string) \<Rightarrow> settings_source \<Rightarrow> settings_error + polling_fallback_policy" where
  "load_polling fr src =
     sum_bind (coerce_bool fr ''A2A_CLIENT_POLLING_FALLBACK_ENABLED''
                 (setting src ''A2A_CLIENT_POLLING_FALLBACK_ENABLED'' (PBool False)) False) (\<lambda>enabled.
     sum_bind (float_setting fr src ''A2A_CLIENT_POLLING_FALLBACK_INITIAL_INTERVAL_SECONDS'' (1/2)) (\<lambda>initial.
     sum_bind (float_setting fr src ''A2A_CLIENT_POLLING_FALLBACK_MAX_INTERVAL_SECONDS'' 2) (\<lambda>longest.
     sum_bind (float_setting fr src ''A2A_CLIENT_POLLING_FALLBACK_BACKOFF_MULTIPLIER'' 2) (\<lambda>multiplier.
     sum_bind (float_setting fr src ''A2A_CLIENT_POLLING_FALLBACK_TIMEOUT_SECONDS'' 10) (\<lambda>timeout.
     (let policy = \<lparr>pf_enabled = enabled, pf_initial_interval_seconds = initial,
          pf_max_interval_seconds = longest, pf_backoff_multiplier = multiplier, pf_timeout_seconds = timeout\<rparr>
      in sum_bind (as_value_error (validate_polling_fallback_policy policy)) (\<lambda>_. Inr policy)))))))"

definition check_basic_auth :: "string option \<Rightarrow> settings_error + unit" where
  "check_basic_auth basic =
     (case basic of
        None \<Rightarrow> Inr ()
      | Some v \<Rightarrow> as_value_error (validate_basic_auth v))"

definition load_settings :: "(rat \<Rightarrow> string) \<Rightarrow> settings_source \<Rightarrow> settings_error + client_settings" where
  "load_settings fr src =
     sum_bind (float_setting fr src ''A2A_CLIENT_TIMEOUT_SECONDS'' 30) (\<lambda>timeout.
     sum_bind (float_setting fr src ''A2A_CLIENT_CARD_FETCH_TIMEOUT_SECONDS'' 5) (\<lambda>card_timeout.
     sum_bind (coerce_bool fr ''A2A_CLIENT_USE_CLIENT_PREFERENCE''
                 (setting src ''A2A_CLIENT_USE_CLIENT_PREFERENCE'' (PBool False)) False) (\<lambda>preference.
     sum_bind (coerce_optional_str fr ''A2A_CLIENT_BEARER_TOKEN''
                 (setting src ''A2A_CLIENT_BEARER_TOKEN'' PNone)) (\<lambda>bearer.
     sum_bind (coerce_optional_str fr ''A2A_CLIENT_BASIC_AUTH''
                 (setting src ''A2A_CLIENT_BASIC_AUTH'' PNone)) (\<lambda>basic.
     sum_bind (check_basic_auth basic) (\<lambda>_.
     sum_bind (parse_transports fr
                 (setting src ''A2A_CLIENT_SUPPORTED_TRANSPORTS'' (PList (map PStr DEFAULT_TRANSPORTS)))
                 DEFAULT_TRANSPORTS) (\<lambda>transports.
     sum_bind (load_polling fr src) (\<lambda>polling.
       Inr \<lparr>cs_default_timeout = timeout, cs_use_client_preference = preference,
            cs_card_fetch_timeout = card_timeout, cs_bearer_token = bearer, cs_basic_auth = basic,
            cs_supported_transports = transports, cs_polling = polling\<rparr>))))))))"

section \<open>What is loaded\<close>

lemma sum_bind_Inr: "sum_bind r f = Inr b \<longleftrightarrow> (\<exists>a. r = Inr a \<and> f a = Inr b)"
  by (auto simp: sum_bind_def split: sum.splits)

lemma as_value_error_Inr: "as_value_error r = Inr u \<longleftrightarrow> r = Inr ()"
  by (auto simp: as_value_error_def split: sum.splits)

lemma loaded_polling: "load_polling fr src = Inr p \<Longrightarrow> validate_polling_fallback_policy p = Inr ()"
  by (auto simp: load_polling_def sum_bind_Inr as_value_error_Inr Let_def)

definition TRANSPORTS :: "string set" where
  "TRANSPORTS = {''JSONRPC'', ''HTTP+JSON'', ''GRPC''}"

lemma normal_transport: "normalize_transport v = Inr t \<Longrightarrow> t \<in> TRANSPORTS"
  by (auto simp: normalize_transport_def TRANSPORTS_def Let_def split: if_splits)

lemma all_ok_members: "all_ok rs = Inr as \<Longrightarrow> a \<in> set as \<Longrightarrow> Inr a \<in> set rs"
  by (induction rs arbitrary: as) (auto split: sum.splits)

lemma all_normal:
  assumes "normalize_all d items = Inr ts" "d \<noteq> []" "set d \<subseteq> TRANSPORTS"
  shows "ts \<noteq> [] \<and> set ts \<subseteq> TRANSPORTS"
  using assms
  by (auto simp: normalize_all_def dest!: all_ok_members normal_transport [OF sym] split: sum.splits if_splits)

lemma parsed_transports:
  assumes "parse_transports fr raw d = Inr ts" "d \<noteq> []" "set d \<subseteq> TRANSPORTS"
  shows "ts \<noteq> [] \<and> set ts \<subseteq> TRANSPORTS"
  using assms by (auto simp: parse_transports_def dest: all_normal split: pyval.splits)

lemma optional_str_normal: "coerce_optional_str fr name v = Inr (Some t) \<Longrightarrow> t \<noteq> [] \<and> strip t = t"
  by (auto simp: coerce_optional_str_def nonempty_strip_def Let_def split: pyval.splits if_splits)

lemma validated_basic_auth: "validate_basic_auth v = Inr u \<Longrightarrow> \<exists>h. encode_basic_auth v = Inr h"
  by (auto simp: validate_basic_auth_def encode_basic_auth_def split: if_splits sum.splits)

text \<open>
  C38. Settings that load are usable: the polling policy is a valid one, there are transports to choose
  from and all are known ones, a token is not blank, and the basic credentials can be put in a header.
\<close>

theorem loaded_settings_are_usable:
  assumes "load_settings fr src = Inr cs"
  shows "validate_polling_fallback_policy (cs_polling cs) = Inr () \<and>
    cs_supported_transports cs \<noteq> [] \<and> set (cs_supported_transports cs) \<subseteq> TRANSPORTS \<and>
    (case cs_bearer_token cs of None \<Rightarrow> True | Some t \<Rightarrow> t \<noteq> [] \<and> strip t = t) \<and>
    (case cs_basic_auth cs of None \<Rightarrow> True | Some v \<Rightarrow> v \<noteq> [] \<and> (\<exists>h. encode_basic_auth v = Inr h))"
proof -
  obtain bearer basic transports polling where
    bearer: "coerce_optional_str fr ''A2A_CLIENT_BEARER_TOKEN'' (setting src ''A2A_CLIENT_BEARER_TOKEN'' PNone) = Inr bearer"
    and basic: "coerce_optional_str fr ''A2A_CLIENT_BASIC_AUTH'' (setting src ''A2A_CLIENT_BASIC_AUTH'' PNone) = Inr basic"
      "check_basic_auth basic = Inr ()"
    and transports: "parse_transports fr
        (setting src ''A2A_CLIENT_SUPPORTED_TRANSPORTS'' (PList (map PStr DEFAULT_TRANSPORTS))) DEFAULT_TRANSPORTS
        = Inr transports"
    and polling: "load_polling fr src = Inr polling"
    and cs: "cs_bearer_token cs = bearer" "cs_basic_auth cs = basic" "cs_supported_transports cs = transports"
      "cs_polling cs = polling"
    using assms unfolding load_settings_def sum_bind_Inr by auto
  have "transports \<noteq> [] \<and> set transports \<subseteq> TRANSPORTS"
    by (rule parsed_transports [OF transports]) (auto simp: DEFAULT_TRANSPORTS_def TRANSPORTS_def)
  moreover have "case bearer of None \<Rightarrow> True | Some t \<Rightarrow> t \<noteq> [] \<and> strip t = t"
    using bearer by (auto dest: optional_str_normal split: option.splits)
  moreover have "case basic of None \<Rightarrow> True | Some v \<Rightarrow> v \<noteq> [] \<and> (\<exists>h. encode_basic_auth v = Inr h)"
    using basic
    by (auto simp: check_basic_auth_def as_value_error_Inr dest: optional_str_normal validated_basic_auth split: option.splits sum.splits)
  ultimately show ?thesis using loaded_polling [OF polling] by (simp add: cs)
qed

definition example_settings :: settings_source where
  "example_settings = SourceMapping [(''A2A_CLIENT_SUPPORTED_TRANSPORTS'', PStr ''grpc, JSON-RPC''),
      (''a2a_client_basic_auth'', PStr '' ops:s3cret ''), (''A2A_CLIENT_TIMEOUT_SECONDS'', PFloat 15)]"

lemma loaded: "load_settings fr example_settings =
    Inr \<lparr>cs_default_timeout = Fin 15, cs_use_client_preference = False, cs_card_fetch_timeout = Fin 5,
      cs_bearer_token = None, cs_basic_auth = Some ''ops:s3cret'',
      cs_supported_transports = [''GRPC'', ''JSONRPC''], cs_polling =
        \<lparr>pf_enabled = False, pf_initial_interval_seconds = Fin (1/2), pf_max_interval_seconds = Fin 2,
          pf_backoff_multiplier = Fin 2, pf_timeout_seconds = Fin 10\<rparr>\<rparr>"
  by code_simp

theorem loaded_settings_are_usable_witness:
  "\<forall>fr. case load_settings fr example_settings of
     Inl e \<Rightarrow> False
   | Inr cs \<Rightarrow> cs_supported_transports cs = [''GRPC'', ''JSONRPC''] \<and> cs_default_timeout cs = Fin 15 \<and>
       (case cs_basic_auth cs of None \<Rightarrow> False | Some v \<Rightarrow> \<exists>h. encode_basic_auth v = Inr h)"
proof
  fix fr :: "rat \<Rightarrow> string"
  obtain cs where cs: "load_settings fr example_settings = Inr cs" "cs_supported_transports cs = [''GRPC'', ''JSONRPC'']"
    "cs_default_timeout cs = Fin 15" "cs_basic_auth cs = Some ''ops:s3cret''"
    using loaded [of fr] by simp
  show "case load_settings fr example_settings of Inl e \<Rightarrow> False
    | Inr cs \<Rightarrow> cs_supported_transports cs = [''GRPC'', ''JSONRPC''] \<and> cs_default_timeout cs = Fin 15 \<and>
        (case cs_basic_auth cs of None \<Rightarrow> False | Some v \<Rightarrow> \<exists>h. encode_basic_auth v = Inr h)"
    using loaded_settings_are_usable [OF cs(1)] cs by simp
qed

end
