(* ===== verification/Peer_Requests.thy ===== *)
theory Peer_Requests
  imports Peer_Settings Http_Gateway
begin

text \<open>
  The client for one other agent (\<open>client/client.py\<close>, with \<open>client/request_context.py\<close> and
  \<open>client/agent_card.py\<close>): its life, its calls, and what goes into their headers. The SDK, which finds the
  agent and talks to it, is a parameter. Polling is the matter of \<open>Peer_Polling\<close>.
\<close>

section \<open>Where an agent's card is\<close>

text \<open>The path that \<open>urlsplit\<close> gives, and the URL that \<open>urlunsplit\<close> makes of scheme, authority and path.\<close>

definition url_path :: "string \<Rightarrow> string" where
  "url_path url =
     (let url = dropWhile (\<lambda>c. (of_char c :: nat) \<le> 32) url;
          url = filter (\<lambda>c. c \<noteq> CHR 0x09 \<and> c \<noteq> CHR 0x0D \<and> c \<noteq> CHR 0x0A) url;
          (name, colon, rest) = partition_char CHR '':'' url;
          rest = (if colon \<and> name \<noteq> [] \<and> is_ascii_alpha (hd name) \<and> (\<forall>c \<in> set name. is_scheme_char c)
                  then rest else url);
          rest = (if startswith rest ''//''
                  then dropWhile (\<lambda>c. c \<notin> {CHR ''/'', CHR ''?'', CHR ''#''}) (drop 2 rest) else rest)
      in takeWhile (\<lambda>c. c \<notin> {CHR ''?'', CHR ''#''}) rest)"

definition url_of :: "string \<Rightarrow> string \<Rightarrow> string \<Rightarrow> string" where
  "url_of scheme netloc path = scheme @ ''://'' @ netloc @ path"

definition strip_slashes :: "string \<Rightarrow> string" where
  "strip_slashes s = dropWhile (\<lambda>c. c = CHR ''/'') (rstrip_char CHR ''/'' s)"

text \<open>The well-known path of cards is a constant of the SDK.\<close>

fun cut_card_path :: "string list \<Rightarrow> string \<Rightarrow> (string \<times> string) option" where
  "cut_card_path [] s = None"
| "cut_card_path (p # ps) s =
     (let suffix = dropWhile (\<lambda>c. c = CHR ''/'') p
      in if endswith s suffix
         then Some (rstrip_char CHR ''/'' (take (length s - length suffix) s), p) else cut_card_path ps s)"

definition normalize_agent_card_endpoint ::
    "network \<Rightarrow> string \<Rightarrow> string \<Rightarrow> settings_error + string \<times> string" where
  "normalize_agent_card_endpoint nw well_known agent_url =
     (case urlsplit nw agent_url of
        Inl e \<Rightarrow> Inl (SettingValueError (case e of InvalidUrl t \<Rightarrow> t | A2ANetworkPolicyError t \<Rightarrow> t))
      | Inr parsed \<Rightarrow>
          if su_scheme parsed = [] \<or> su_netloc parsed = []
          then Inl (SettingValueError (''agent_url must be absolute URL: '' @ agent_url))
          else
            (let normalized = strip_slashes (url_path agent_url);
                 (base_path, card_path) =
                   (case cut_card_path [well_known, EXTENDED_AGENT_CARD_PATH] normalized of
                      Some found \<Rightarrow> found | None \<Rightarrow> (normalized, well_known))
             in Inr (rstrip_char CHR ''/''
                  (url_of (su_scheme parsed) (su_netloc parsed)
                    (if base_path = [] then [] else CHR ''/'' # base_path)), card_path)))"

section \<open>Headers\<close>

type_synonym headers = "(string \<times> string) list"

definition build_default_headers :: "string option \<Rightarrow> string option \<Rightarrow> settings_error + headers" where
  "build_default_headers bearer_token basic_auth =
     (let headers = [(''A2A-Version'', A2A_PROTOCOL_VERSION)]
      in case bearer_token of
           Some (c # token) \<Rightarrow> Inr (dset ''Authorization'' (''Bearer '' @ c # token) headers)
         | _ \<Rightarrow>
             (case basic_auth of
                Some (c # basic) \<Rightarrow>
                  (case encode_basic_auth (c # basic) of
                     Inl e \<Rightarrow> Inl (SettingValueError e)
                   | Inr encoded \<Rightarrow> Inr (dset ''Authorization'' (''Basic '' @ encoded) headers))
              | _ \<Rightarrow> Inr headers))"

text \<open>
  \<open>split_request_metadata\<close>: the loop keeps the metadata of the message, the headers and the extensions
  asked for. Three of the reserved names become headers of their own.
\<close>

definition METADATA_HEADERS :: "(string \<times> string) list" where
  "METADATA_HEADERS = [(''authorization'', ''Authorization''), (''traceparent'', ''traceparent''),
     (''tracestate'', ''tracestate'')]"

definition RESERVED_METADATA :: "string list" where
  "RESERVED_METADATA = [''authorization'', ''a2a-version'', ''traceparent'', ''tracestate'', ''a2a-extensions'']"

fun split_items :: "mapping \<Rightarrow> mapping \<times> headers \<times> string list \<Rightarrow> settings_error + mapping \<times> headers \<times> string list" where
  "split_items [] acc = Inr acc"
| "split_items ((key, v) # items) (request_metadata, extra_headers, requested) =
     (let normalized_key = lower key
      in case map_of METADATA_HEADERS normalized_key of
           Some header \<Rightarrow>
             (case v of
                PNone \<Rightarrow> split_items items (request_metadata, extra_headers, requested)
              | PStr s \<Rightarrow> split_items items (request_metadata, dset header s extra_headers, requested)
              | _ \<Rightarrow> Inl (SettingValueError (header @ '' metadata header must be a string.'')))
         | None \<Rightarrow>
             if normalized_key = ''a2a-version''
             then Inl (SettingValueError ''A2A-Version is fixed to 1.0 and must not be overridden.'')
             else if normalized_key = ''a2a-extensions'' then
               (case v of
                  PNone \<Rightarrow> split_items items (request_metadata, extra_headers, requested)
                | PStr s \<Rightarrow> split_items items (request_metadata, extra_headers,
                    requested @ filter (\<lambda>x. x \<noteq> []) (map strip (split_char CHR '','' s)))
                | _ \<Rightarrow> Inl (SettingValueError ''A2A-Extensions metadata header must be a string.''))
             else split_items items (dset key v request_metadata, extra_headers, requested))"

definition split_request_metadata ::
    "mapping option \<Rightarrow> settings_error + mapping \<times> headers \<times> string list" where
  "split_request_metadata metadata = split_items (case metadata of None \<Rightarrow> [] | Some m \<Rightarrow> m) ([], [], [])"

text \<open>The results that are \<open>None\<close> when empty are tested for truth only, so they are their empty lists here.\<close>

definition merge_requested_extensions :: "string list \<Rightarrow> string list \<Rightarrow> string list" where
  "merge_requested_extensions explicit from_metadata =
     fold (\<lambda>v merged. let normalized = strip v
        in if normalized \<noteq> [] \<and> normalized \<notin> set merged then merged @ [normalized] else merged)
       (explicit @ from_metadata) []"

text \<open>\<open>with_extensions\<close> is what the SDK's \<open>with_a2a_extensions\<close> does to the parameters of a call.\<close>

definition build_call_context ::
    "(string list \<Rightarrow> headers \<Rightarrow> headers) \<Rightarrow> trace_context option \<Rightarrow> string option \<Rightarrow> headers \<Rightarrow> string list
     \<Rightarrow> string option \<Rightarrow> settings_error + headers" where
  "build_call_context with_extensions trace bearer_token extra_headers extensions basic_auth =
     (case build_default_headers bearer_token basic_auth of
        Inl e \<Rightarrow> Inl e
      | Inr headers \<Rightarrow>
          (let merged = dmerge (dmerge headers (current_trace_headers trace)) extra_headers;
               normalized = filter (\<lambda>v. v \<noteq> []) extensions
           in Inr (if normalized = [] then merged else with_extensions normalized merged)))"

section \<open>The client\<close>

datatype http_client = NoHttp | OpenHttp pyfloat | ClosedHttp

record ('c, 'd) facade =
  fa_agent_url :: string
  fa_settings :: client_settings
  fa_owns_http :: bool
  fa_http :: http_client
  fa_client :: "'c option"
  fa_card :: "'d option"
  fa_active :: nat

text \<open>
  What the SDK is asked: to build a client for a URL, to fetch a card, and the calls on a client, each
  with its headers. A stream is what it delivers and how it ended. \<open>FacadeRaised\<close> is an exception that comes
  through as it is.
\<close>

record client_config =
  cf_polling :: bool
  cf_transports :: "string list"
  cf_use_client_preference :: bool
  cf_timeout :: pyfloat
  cf_headers :: headers

record send_call =
  sc_text :: string
  sc_message_id :: string
  sc_context_id :: "string option"
  sc_task_id :: "string option"
  sc_metadata :: mapping

datatype create_failure = CreateValueError | CreateFailed sdk_exception

datatype facade_failure = FacadeClientError client_error | FacadeRaised sdk_exception | FacadeSettings settings_error

record ('c, 'd, 'e, 't) sdk_client =
  sk_create_client :: "string \<Rightarrow> client_config \<Rightarrow> create_failure + 'c"
  sk_get_card :: "string \<Rightarrow> string \<Rightarrow> pyfloat \<Rightarrow> headers \<Rightarrow> sdk_exception + 'd"
  sk_with_extensions :: "string list \<Rightarrow> headers \<Rightarrow> headers"
  sk_send :: "'c \<Rightarrow> send_call \<Rightarrow> headers \<Rightarrow> 'e list \<times> sdk_exception option"
  sk_get_task :: "'c \<Rightarrow> string \<Rightarrow> int option \<Rightarrow> headers \<Rightarrow> sdk_exception + 't"
  sk_cancel_task :: "'c \<Rightarrow> string \<Rightarrow> mapping \<Rightarrow> headers \<Rightarrow> sdk_exception + 't"
  sk_subscribe :: "'c \<Rightarrow> string \<Rightarrow> headers \<Rightarrow> 'e list \<times> sdk_exception option"

definition a2a_client_init ::
    "(rat \<Rightarrow> string) \<Rightarrow> string \<Rightarrow> client_settings option \<Rightarrow> http_client \<Rightarrow> settings_error + ('c, 'd) facade" where
  "a2a_client_init fr agent_url given httpx_client =
     (if strip agent_url = [] then Inl (SettingValueError ''agent_url must be non-empty'')
      else sum_bind (case given of Some s \<Rightarrow> Inr s | None \<Rightarrow> load_settings fr (SourceMapping [])) (\<lambda>s.
        Inr \<lparr>fa_agent_url = rstrip_char CHR ''/'' agent_url, fa_settings = s, fa_owns_http = (httpx_client = NoHttp),
             fa_http = httpx_client, fa_client = None, fa_card = None, fa_active = 0\<rparr>))"

definition a2a_client_close :: "('c, 'd) facade \<Rightarrow> ('c, 'd) facade" where
  "a2a_client_close fa =
     fa\<lparr>fa_client := None,
        fa_http := (if fa_http fa \<noteq> NoHttp \<and> fa_owns_http fa then ClosedHttp else fa_http fa)\<rparr>"

definition is_busy :: "('c, 'd) facade \<Rightarrow> bool" where
  "is_busy fa \<longleftrightarrow> 0 < fa_active fa"

definition acquire_operation :: "('c, 'd) facade \<Rightarrow> ('c, 'd) facade" where
  "acquire_operation fa = fa\<lparr>fa_active := fa_active fa + 1\<rparr>"

definition release_operation :: "('c, 'd) facade \<Rightarrow> ('c, 'd) facade" where
  "release_operation fa = (if 0 < fa_active fa then fa\<lparr>fa_active := fa_active fa - 1\<rparr> else fa)"

definition get_httpx_client :: "('c, 'd) facade \<Rightarrow> ('c, 'd) facade" where
  "get_httpx_client fa =
     (if fa_http fa \<noteq> NoHttp then fa
      else fa\<lparr>fa_http := OpenHttp (cs_default_timeout (fa_settings fa))\<rparr>)"

definition resolver_headers :: "trace_context option \<Rightarrow> client_settings \<Rightarrow> settings_error + headers" where
  "resolver_headers trace s =
     (case build_default_headers (cs_bearer_token s) (cs_basic_auth s) of
        Inl e \<Rightarrow> Inl e | Inr headers \<Rightarrow> Inr (dmerge headers (current_trace_headers trace)))"

definition get_agent_card ::
    "network \<Rightarrow> string \<Rightarrow> ('c, 'd, 'e, 't) sdk_client \<Rightarrow> trace_context option \<Rightarrow> ('c, 'd) facade
     \<Rightarrow> (facade_failure + 'd) \<times> ('c, 'd) facade" where
  "get_agent_card nw well_known sk trace fa =
     (case fa_card fa of
        Some c \<Rightarrow> (Inr c, fa)
      | None \<Rightarrow>
          (case normalize_agent_card_endpoint nw well_known (fa_agent_url fa) of
             Inl e \<Rightarrow> (Inl (FacadeSettings e), fa)
           | Inr (base_url, card_path) \<Rightarrow>
               (let fa = get_httpx_client fa
                in case resolver_headers trace (fa_settings fa) of
                     Inl e \<Rightarrow> (Inl (FacadeSettings e), fa)
                   | Inr headers \<Rightarrow>
                       (case sk_get_card sk base_url card_path (cs_card_fetch_timeout (fa_settings fa)) headers of
                          Inl exc \<Rightarrow>
                            (Inl (if sdk_client_error (xc_class exc) \<or> xc_class exc \<in> {HttpxTimeout, HttpxTransport}
                                  then FacadeClientError (map_agent_card_error exc) else FacadeRaised exc), fa)
                        | Inr c \<Rightarrow> (Inr c, fa\<lparr>fa_card := Some c\<rparr>)))))"

definition ensure_client ::
    "('c, 'd, 'e, 't) sdk_client \<Rightarrow> trace_context option \<Rightarrow> ('c, 'd) facade
     \<Rightarrow> (facade_failure + 'c) \<times> ('c, 'd) facade" where
  "ensure_client sk trace fa =
     (case fa_client fa of
        Some c \<Rightarrow> (Inr c, fa)
      | None \<Rightarrow>
          (let fa = get_httpx_client fa; s = fa_settings fa
           in case resolver_headers trace s of
                Inl e \<Rightarrow> (Inl (FacadeSettings e), fa)
              | Inr headers \<Rightarrow>
                  (case sk_create_client sk (fa_agent_url fa)
                          \<lparr>cf_polling = pf_enabled (cs_polling s), cf_transports = cs_supported_transports s,
                           cf_use_client_preference = cs_use_client_preference s,
                           cf_timeout = cs_card_fetch_timeout s, cf_headers = headers\<rparr> of
                     Inl CreateValueError \<Rightarrow>
                       (Inl (FacadeClientError (client_error A2AUnsupportedBindingError
                          (''No supported transport found for '' @ fa_agent_url fa))), fa)
                   | Inl (CreateFailed exc) \<Rightarrow> (Inl (FacadeRaised exc), fa)
                   | Inr c \<Rightarrow> (Inr c, fa\<lparr>fa_client := Some c\<rparr>))))"

section \<open>The calls\<close>

text \<open>
  What every call does before it reaches the agent: the client, the parts of its metadata, its headers.
\<close>

definition prepare_call ::
    "('c, 'd, 'e, 't) sdk_client \<Rightarrow> trace_context option \<Rightarrow> mapping option \<Rightarrow> string list \<Rightarrow> ('c, 'd) facade
     \<Rightarrow> (facade_failure + 'c \<times> mapping \<times> headers) \<times> ('c, 'd) facade" where
  "prepare_call sk trace metadata extensions fa =
     (case ensure_client sk trace fa of
        (Inl e, fa) \<Rightarrow> (Inl e, fa)
      | (Inr c, fa) \<Rightarrow>
          (case split_request_metadata metadata of
             Inl e \<Rightarrow> (Inl (FacadeSettings e), fa)
           | Inr (request_metadata, extra_headers, from_metadata) \<Rightarrow>
               (case build_call_context (sk_with_extensions sk) trace (cs_bearer_token (fa_settings fa)) extra_headers
                       (merge_requested_extensions extensions from_metadata) (cs_basic_auth (fa_settings fa)) of
                  Inl e \<Rightarrow> (Inl (FacadeSettings e), fa)
                | Inr headers \<Rightarrow> (Inr (c, request_metadata, headers), fa))))"

definition caught :: "sdk_exception \<Rightarrow> bool" where
  "caught exc \<longleftrightarrow> a2a_error (xc_class exc) \<or> sdk_client_error (xc_class exc) \<or>
     xc_class exc \<in> {HttpxTimeout, HttpxTransport}"

definition operation_failure :: "string \<Rightarrow> sdk_exception \<Rightarrow> facade_failure" where
  "operation_failure operation exc =
     (if caught exc then FacadeClientError (map_operation_error operation exc) else FacadeRaised exc)"

text \<open>A consumer may stop a stream after some events; then it does not see how the stream ends.\<close>

definition consume_stream ::
    "string \<Rightarrow> nat option \<Rightarrow> 'e list \<times> sdk_exception option \<Rightarrow> 'e list \<times> facade_failure option" where
  "consume_stream operation stop stream =
     (let (events, outcome) = stream; whole = (events, map_option (operation_failure operation) outcome)
      in case stop of
           None \<Rightarrow> whole
         | Some n \<Rightarrow> if n \<le> length events then (take n events, None) else whole)"

definition facade_send_message ::
    "('c, 'd, 'e, 't) sdk_client \<Rightarrow> trace_context option \<Rightarrow> send_call \<Rightarrow> mapping option \<Rightarrow> string list \<Rightarrow> nat option
     \<Rightarrow> ('c, 'd) facade \<Rightarrow> ('e list \<times> facade_failure option) \<times> ('c, 'd) facade" where
  "facade_send_message sk trace msg metadata extensions stop fa =
     (case prepare_call sk trace metadata extensions (acquire_operation fa) of
        (Inl e, fa) \<Rightarrow> (([], Some e), release_operation fa)
      | (Inr (c, request_metadata, headers), fa) \<Rightarrow>
          (consume_stream ''SendMessage'' stop (sk_send sk c (msg\<lparr>sc_metadata := request_metadata\<rparr>) headers),
           release_operation fa))"

definition facade_get_task ::
    "('c, 'd, 'e, 't) sdk_client \<Rightarrow> trace_context option \<Rightarrow> string \<Rightarrow> int option \<Rightarrow> mapping option \<Rightarrow> string list
     \<Rightarrow> ('c, 'd) facade \<Rightarrow> (facade_failure + 't) \<times> ('c, 'd) facade" where
  "facade_get_task sk trace task_id history_length metadata extensions fa =
     (case prepare_call sk trace metadata extensions (acquire_operation fa) of
        (Inl e, fa) \<Rightarrow> (Inl e, release_operation fa)
      | (Inr (c, request_metadata, headers), fa) \<Rightarrow>
          (map_sum (operation_failure ''GetTask'') id (sk_get_task sk c task_id history_length headers),
           release_operation fa))"

definition cancel_task ::
    "('c, 'd, 'e, 't) sdk_client \<Rightarrow> trace_context option \<Rightarrow> string \<Rightarrow> mapping option \<Rightarrow> string list
     \<Rightarrow> ('c, 'd) facade \<Rightarrow> (facade_failure + 't) \<times> ('c, 'd) facade" where
  "cancel_task sk trace task_id metadata extensions fa =
     (case prepare_call sk trace metadata extensions (acquire_operation fa) of
        (Inl e, fa) \<Rightarrow> (Inl e, release_operation fa)
      | (Inr (c, request_metadata, headers), fa) \<Rightarrow>
          (map_sum (operation_failure ''CancelTask'') id (sk_cancel_task sk c task_id request_metadata headers),
           release_operation fa))"

definition subscribe_to_task ::
    "('c, 'd, 'e, 't) sdk_client \<Rightarrow> trace_context option \<Rightarrow> string \<Rightarrow> mapping option \<Rightarrow> string list \<Rightarrow> nat option
     \<Rightarrow> ('c, 'd) facade \<Rightarrow> ('e list \<times> facade_failure option) \<times> ('c, 'd) facade" where
  "subscribe_to_task sk trace task_id metadata extensions stop fa =
     (case prepare_call sk trace metadata extensions (acquire_operation fa) of
        (Inl e, fa) \<Rightarrow> (([], Some e), release_operation fa)
      | (Inr (c, request_metadata, headers), fa) \<Rightarrow>
          (consume_stream ''SubscribeToTask'' stop (sk_subscribe sk c task_id headers), release_operation fa))"

section \<open>What every call carries\<close>

definition reserved_free :: "mapping \<Rightarrow> bool" where
  "reserved_free d \<longleftrightarrow> (\<forall>(k, v) \<in> set d. lower k \<notin> set RESERVED_METADATA)"

definition header_names :: "headers \<Rightarrow> string set" where
  "header_names h = fst ` set h"

lemma header_names_dset: "header_names (dset k v h) = insert k (header_names h)"
  by (auto simp: header_names_def dom_update)

lemma metadata_header_names:
  "map_of METADATA_HEADERS k = Some header \<Longrightarrow> header \<in> {''Authorization'', ''traceparent'', ''tracestate''}"
  by (auto simp: METADATA_HEADERS_def split: if_splits)

lemma split_items_keep:
  assumes "split_items items (md, hs, xs) = Inr (md', hs', xs')" "reserved_free md"
    "header_names hs \<subseteq> {''Authorization'', ''traceparent'', ''tracestate''}" "wf_dict hs"
  shows "reserved_free md' \<and> header_names hs' \<subseteq> {''Authorization'', ''traceparent'', ''tracestate''} \<and> wf_dict hs'"
  using assms
proof (induction items arbitrary: md hs xs)
  case (Cons item items)
  obtain key v where item: "item = (key, v)" by (cases item)
  show ?case
  proof (cases "map_of METADATA_HEADERS (lower key)")
    case None
    then have key: "lower key \<notin> {''authorization'', ''traceparent'', ''tracestate''}"
      by (auto simp: METADATA_HEADERS_def split: if_splits)
    have "reserved_free (dset key v md)"
      if "lower key \<noteq> ''a2a-version''" "lower key \<noteq> ''a2a-extensions''"
      using that key Cons.prems(2) set_dset [of key v md] by (fastforce simp: reserved_free_def RESERVED_METADATA_def)
    then show ?thesis using Cons.prems Cons.IH None
      by (auto simp: item Let_def split: if_splits pyval.splits)
  next
    case (Some header)
    have "header_names (dset header s hs) \<subseteq> {''Authorization'', ''traceparent'', ''tracestate''}" for s
      using Cons.prems(3) metadata_header_names [OF Some] by (auto simp: header_names_dset)
    then show ?thesis using Cons.prems Cons.IH Some
      by (auto simp: item Let_def split: pyval.splits)
  qed
qed simp

definition brings_credentials :: "mapping option \<Rightarrow> bool" where
  "brings_credentials metadata \<longleftrightarrow>
     (\<exists>(k, v) \<in> set (case metadata of None \<Rightarrow> [] | Some m \<Rightarrow> m). lower k = ''authorization'')"

lemma split_items_without_credentials:
  assumes "split_items items (md, hs, xs) = Inr (md', hs', xs')" "\<forall>(k, v) \<in> set items. lower k \<noteq> ''authorization''"
    "''Authorization'' \<notin> header_names hs"
  shows "''Authorization'' \<notin> header_names hs'"
  using assms
proof (induction items arbitrary: md hs xs)
  case (Cons item items)
  obtain key v where item: "item = (key, v)" by (cases item)
  show ?case
  proof (cases "map_of METADATA_HEADERS (lower key)")
    case None
    then show ?thesis using Cons.prems Cons.IH
      by (auto simp: item Let_def split: if_splits pyval.splits)
  next
    case (Some header)
    then have "header \<noteq> ''Authorization''"
      using Cons.prems(2) by (auto simp: item METADATA_HEADERS_def split: if_splits)
    then show ?thesis using Cons.prems Cons.IH Some
      by (auto simp: item Let_def header_names_dset split: pyval.splits)
  qed
qed simp

lemma trace_headers: "wf_dict (current_trace_headers trace)"
    "header_names (current_trace_headers trace) \<subseteq> {''traceparent'', ''tracestate''}"
  by (auto simp: current_trace_headers_def dset_opt_def header_names_def split: option.splits)

lemma absent_header: "k \<notin> header_names h \<Longrightarrow> map_of h k = None"
  by (simp add: header_names_def map_of_eq_None_iff)

lemma merged_keeps: "wf_dict b \<Longrightarrow> k \<notin> header_names b \<Longrightarrow> map_of (dmerge a b) k = map_of a k"
  by (simp add: map_of_dmerge absent_header)

lemma default_version:
  "build_default_headers bearer basic = Inr h \<Longrightarrow> map_of h ''A2A-Version'' = Some A2A_PROTOCOL_VERSION"
  by (auto simp: build_default_headers_def Let_def split: option.splits list.splits sum.splits)

lemma prepared_call:
  assumes "prepare_call sk trace metadata extensions fa = (Inr (c, md, h), fa')"
  obtains d hs xs where "split_request_metadata metadata = Inr (md, hs, xs)"
    "build_default_headers (cs_bearer_token (fa_settings fa')) (cs_basic_auth (fa_settings fa')) = Inr d"
    "h = (let merged = dmerge (dmerge d (current_trace_headers trace)) hs;
              normalized = filter (\<lambda>v. v \<noteq> []) (merge_requested_extensions extensions xs)
          in if normalized = [] then merged else sk_with_extensions sk normalized merged)"
  using assms
  by (auto simp: prepare_call_def build_call_context_def Let_def split: prod.splits sum.splits if_splits)

text \<open>
  C32. Every call to another agent carries the protocol version of this service, whatever its metadata says,
  no header hides in the metadata of its message, and its credentials are the configured ones unless the
  metadata brings its own.
\<close>

theorem calls_carry_the_fixed_version:
  assumes sdk: "\<And>xs g k. k \<noteq> ''A2A-Extensions'' \<Longrightarrow> map_of (sk_with_extensions sk xs g) k = map_of g k"
    and call: "prepare_call sk trace metadata extensions fa = (Inr (c, md, h), fa')"
  shows "map_of h ''A2A-Version'' = Some A2A_PROTOCOL_VERSION \<and> reserved_free md \<and>
    (\<not> brings_credentials metadata \<longrightarrow>
     (\<exists>d. build_default_headers (cs_bearer_token (fa_settings fa')) (cs_basic_auth (fa_settings fa')) = Inr d \<and>
          map_of h ''Authorization'' = map_of d ''Authorization''))"
proof -
  obtain d hs xs where split: "split_request_metadata metadata = Inr (md, hs, xs)"
    and d: "build_default_headers (cs_bearer_token (fa_settings fa')) (cs_basic_auth (fa_settings fa')) = Inr d"
    and h: "h = (let merged = dmerge (dmerge d (current_trace_headers trace)) hs;
              normalized = filter (\<lambda>v. v \<noteq> []) (merge_requested_extensions extensions xs)
          in if normalized = [] then merged else sk_with_extensions sk normalized merged)"
    using prepared_call [OF call] .
  have hs: "reserved_free md" "header_names hs \<subseteq> {''Authorization'', ''traceparent'', ''tracestate''}" "wf_dict hs"
    using split_items_keep [OF split [unfolded split_request_metadata_def]]
    by (simp_all add: reserved_free_def header_names_def)
  have merged: "map_of h k = map_of (dmerge (dmerge d (current_trace_headers trace)) hs) k"
    if "k \<noteq> ''A2A-Extensions''" for k
    using that by (simp add: h Let_def sdk)
  have kept: "map_of h k = map_of d k"
    if "k \<notin> header_names hs" "k \<notin> {''traceparent'', ''tracestate'', ''A2A-Extensions''}" for k
  proof -
    have "map_of h k = map_of (dmerge d (current_trace_headers trace)) k"
      using that merged merged_keeps [OF hs(3) that(1)] by simp
    also have "\<dots> = map_of d k"
      by (rule merged_keeps [OF trace_headers(1)]) (use that(2) trace_headers(2) in blast)
    finally show ?thesis .
  qed
  have "''A2A-Version'' \<notin> header_names hs" using hs(2) by auto
  then have "map_of h ''A2A-Version'' = Some A2A_PROTOCOL_VERSION" using kept default_version [OF d] by simp
  moreover have "map_of h ''Authorization'' = map_of d ''Authorization''" if "\<not> brings_credentials metadata"
  proof -
    have "''Authorization'' \<notin> header_names hs"
      by (rule split_items_without_credentials [OF split [unfolded split_request_metadata_def]])
        (use that in \<open>auto simp: brings_credentials_def header_names_def\<close>)
    then show ?thesis using kept by simp
  qed
  ultimately show ?thesis using hs(1) d by auto
qed

definition small_sdk :: "(string, string, string, string) sdk_client" where
  "small_sdk = \<lparr>sk_create_client = (\<lambda>url cf. Inr ''client''), sk_get_card = (\<lambda>base p t h. Inr ''card''),
     sk_with_extensions = (\<lambda>xs h. dset ''A2A-Extensions'' (join '','' xs) h),
     sk_send = (\<lambda>c m h. ([''working'', ''done''], None)), sk_get_task = (\<lambda>c t n h. Inr t),
     sk_cancel_task = (\<lambda>c t md h. Inr t), sk_subscribe = (\<lambda>c t h. ([], None))\<rparr>"

definition small_facade :: "(string, string) facade" where
  "small_facade = \<lparr>fa_agent_url = ''https://agent.example'', fa_settings =
       \<lparr>cs_default_timeout = Fin 30, cs_use_client_preference = False, cs_card_fetch_timeout = Fin 5,
        cs_bearer_token = Some ''t0ken'', cs_basic_auth = None, cs_supported_transports = DEFAULT_TRANSPORTS,
        cs_polling = default_polling\<rparr>,
     fa_owns_http = True, fa_http = NoHttp, fa_client = None, fa_card = None, fa_active = 0\<rparr>"

definition small_metadata :: mapping where
  "small_metadata = [(''TraceState'', PStr ''a=b''), (''a2a-extensions'', PStr ''urn:x, urn:y''), (''tenant'', PInt 3)]"

theorem calls_carry_the_fixed_version_witness:
  "case fst (prepare_call small_sdk None (Some small_metadata) [''urn:x''] small_facade) of
     Inl e \<Rightarrow> False
   | Inr (c, md, h) \<Rightarrow> map_of h ''A2A-Version'' = Some A2A_PROTOCOL_VERSION \<and> reserved_free md \<and>
       md = [(''tenant'', PInt 3)] \<and> map_of h ''A2A-Extensions'' = Some ''urn:x,urn:y''"
proof -
  have law: "k \<noteq> ''A2A-Extensions'' \<Longrightarrow> map_of (sk_with_extensions small_sdk xs g) k = map_of g k" for xs g k
    by (simp add: small_sdk_def)
  let ?h = "[(''A2A-Version'', ''1.0''), (''Authorization'', ''Bearer t0ken''), (''tracestate'', ''a=b''),
    (''A2A-Extensions'', ''urn:x,urn:y'')]"
  have "fst (prepare_call small_sdk None (Some small_metadata) [''urn:x''] small_facade) =
      Inr (''client'', [(''tenant'', PInt 3)], ?h)" by code_simp
  then obtain fa where call: "prepare_call small_sdk None (Some small_metadata) [''urn:x''] small_facade =
      (Inr (''client'', [(''tenant'', PInt 3)], ?h), fa)"
    by (cases "prepare_call small_sdk None (Some small_metadata) [''urn:x''] small_facade") simp
  show ?thesis using calls_carry_the_fixed_version [OF law call] by (simp add: call)
qed

section \<open>What the client keeps\<close>

lemma prepare_call_keeps:
  "fa_active (snd (prepare_call sk trace metadata extensions fa)) = fa_active fa \<and>
   fa_settings (snd (prepare_call sk trace metadata extensions fa)) = fa_settings fa"
  by (auto simp: prepare_call_def ensure_client_def get_httpx_client_def Let_def
      split: prod.splits sum.splits option.splits create_failure.splits)

lemma released_again:
  "fa_active (release_operation (snd (prepare_call sk trace metadata extensions (acquire_operation fa)))) = fa_active fa"
  using prepare_call_keeps [of sk trace metadata extensions "acquire_operation fa"]
  by (simp add: release_operation_def acquire_operation_def)

text \<open>However a call ends, and wherever its consumer stops, it no longer counts as being under way.\<close>

theorem ended_calls_are_not_counted:
  "fa_active (snd (facade_send_message sk trace msg metadata extensions stop fa)) = fa_active fa \<and>
   fa_active (snd (facade_get_task sk trace task_id history_length metadata extensions fa)) = fa_active fa \<and>
   fa_active (snd (cancel_task sk trace task_id metadata extensions fa)) = fa_active fa \<and>
   fa_active (snd (subscribe_to_task sk trace task_id metadata extensions stop fa)) = fa_active fa"
  using released_again [of sk trace metadata extensions fa]
  by (auto simp: facade_send_message_def facade_get_task_def cancel_task_def subscribe_to_task_def split: prod.splits sum.splits)

text \<open>
  A failure to fetch the card becomes an error of this client in \<open>get_agent_card\<close>, but comes through as it
  is when a call has to build the SDK's client first.
\<close>

theorem card_failures_come_through:
  assumes "fa_client fa = None" "\<And>url cf. sk_create_client sk url cf = Inl (CreateFailed exc)"
    and "resolver_headers trace (fa_settings fa) = Inr headers"
  shows "fst (facade_get_task sk trace task_id history_length metadata extensions fa) = Inl (FacadeRaised exc)"
  using assms
  by (simp add: facade_get_task_def prepare_call_def ensure_client_def acquire_operation_def get_httpx_client_def Let_def)

text \<open>
  The path of a card is recognised at the end of a name too: here the agent's own path loses a part of
  its last name.
\<close>

definition no_network :: network where
  "no_network = \<lparr>nw_getaddrinfo = (\<lambda>h. None), nw_ip_address = (\<lambda>s. None)\<rparr>"

theorem names_that_end_like_a_card:
  "normalize_agent_card_endpoint no_network ''/.well-known/agent-card.json'' ''https://h.example/a/myextendedAgentCard'' =
     Inr (''https://h.example/a/my'', ''/extendedAgentCard'') \<and>
   normalize_agent_card_endpoint no_network ''/.well-known/agent-card.json'' ''https://h.example/a/extendedAgentCard/'' =
     Inr (''https://h.example/a'', ''/extendedAgentCard'')"
  by code_simp

end
