(* ===== verification/Service_Setup.thy ===== *)
theory Service_Setup
  imports Py_Json Sandbox_Policy Http_Gateway Task_Store
begin

text \<open>
  What the service starts with: the configuration it accepts (\<open>config.py\<close>), the order in which its parts
  start and stop (\<open>server/lifespan.py\<close>), and the context a request gets (\<open>IdentityAwareCallContextBuilder\<close>
  of \<open>server/application.py\<close>). Pydantic, which reads the environment and turns texts into the types of the
  fields, is outside; a setting has its type here, and the bounds declared for it are checked.
\<close>

section \<open>Lists and credentials in the environment\<close>

datatype config_error = ConfigTypeError string | ConfigValueError string | FieldErrors "string list"

definition stripped_texts :: "(rat \<Rightarrow> string) \<Rightarrow> pyval list \<Rightarrow> string list" where
  "stripped_texts fr vs = filter (\<lambda>s. s \<noteq> []) (map (strip \<circ> py_str fr) vs)"

definition comma_items :: "string \<Rightarrow> string list" where
  "comma_items s = filter (\<lambda>s. s \<noteq> []) (map strip (split_char CHR '','' s))"

definition parse_declared_list :: "(rat \<Rightarrow> string) \<Rightarrow> pyval \<Rightarrow> config_error + string list" where
  "parse_declared_list fr v =
     (case v of
        PNone \<Rightarrow> Inr []
      | PStr s \<Rightarrow>
          (let raw = strip s
           in if raw = [] then Inr []
              else if startswith raw ''['' then
                (case json_loads raw of
                   None \<Rightarrow> Inr (comma_items raw)
                 | Some (PList vs) \<Rightarrow> Inr (stripped_texts fr vs)
                 | Some _ \<Rightarrow> Inl (ConfigTypeError ''Expected a JSON array for declared list values.''))
              else Inr (comma_items raw))
      | PList vs \<Rightarrow> Inr (stripped_texts fr vs)
      | _ \<Rightarrow> Inl (ConfigTypeError ''Expected a comma-separated string, JSON array, or sequence.''))"

definition parse_auth_credentials :: "pyval \<Rightarrow> config_error + pyval list" where
  "parse_auth_credentials v =
     (case v of
        PNone \<Rightarrow> Inr []
      | PStr s \<Rightarrow>
          (let raw = strip s
           in if raw = [] then Inr []
              else (case json_loads raw of
                      Some (PList vs) \<Rightarrow> Inr vs
                    | _ \<Rightarrow> Inl (ConfigTypeError ''Expected a JSON array for static auth credentials.'')))
      | PList vs \<Rightarrow> Inr vs
      | _ \<Rightarrow> Inl (ConfigTypeError ''Expected a JSON array or sequence for static auth credentials.''))"

section \<open>The settings\<close>

text \<open>The settings with a bound, a fixed set of values or a rule between them.\<close>

record service_settings =
  ss_sandbox :: sandbox_settings
  ss_network_access :: string
  ss_approval_policy :: string
  ss_escalation_behavior :: string
  ss_outside_workspace :: string
  ss_max_concurrent_requests :: int
  ss_max_concurrent_streams :: int
  ss_gzip_minimum_size :: int
  ss_max_request_body_bytes :: int
  ss_rate_limit_window_seconds :: rat
  ss_rate_limit_max_requests :: int
  ss_stream_max_bytes :: int
  ss_stream_max_duration_seconds :: rat
  ss_stream_idle_timeout_seconds :: rat
  ss_pending_session_claim_ttl_seconds :: rat
  ss_interrupt_request_ttl_seconds :: rat
  ss_interrupt_request_tombstone_ttl_seconds :: rat
  ss_cancel_abort_timeout_seconds :: rat
  ss_client_cache_ttl_seconds :: rat
  ss_client_cache_maxsize :: int
  ss_static_auth_credentials :: "credential_settings list"
  ss_task_store_backend :: string
  ss_task_store_database_url :: "string option"

definition SCOPES :: "string list" where
  "SCOPES = [''unknown'', ''workspace_only'', ''workspace_and_declared_roots'', ''unrestricted'', ''custom'']"

definition field_checks :: "service_settings \<Rightarrow> (string \<times> bool) list" where
  "field_checks s =
     [(''OPENCODE_MAX_CONCURRENT_REQUESTS'', 0 \<le> ss_max_concurrent_requests s),
      (''OPENCODE_MAX_CONCURRENT_STREAMS'', 0 \<le> ss_max_concurrent_streams s),
      (''A2A_HTTP_GZIP_MINIMUM_SIZE'', 0 \<le> ss_gzip_minimum_size s),
      (''A2A_MAX_REQUEST_BODY_BYTES'', 0 \<le> ss_max_request_body_bytes s),
      (''A2A_RATE_LIMIT_WINDOW_SECONDS'', 0 < ss_rate_limit_window_seconds s),
      (''A2A_RATE_LIMIT_MAX_REQUESTS'', 0 < ss_rate_limit_max_requests s),
      (''A2A_STREAM_MAX_BYTES'', 0 \<le> ss_stream_max_bytes s),
      (''A2A_STREAM_MAX_DURATION_SECONDS'', 0 \<le> ss_stream_max_duration_seconds s),
      (''A2A_STREAM_IDLE_TIMEOUT_SECONDS'', 0 \<le> ss_stream_idle_timeout_seconds s),
      (''A2A_SANDBOX_MODE'', st_sandbox_mode (ss_sandbox s) \<in> set [''unknown'', ''read-only'', ''workspace-write'', ''danger-full-access'', ''custom'']),
      (''A2A_SANDBOX_FILESYSTEM_SCOPE'', st_filesystem_scope (ss_sandbox s) \<in> set SCOPES),
      (''A2A_NETWORK_ACCESS'', ss_network_access s \<in> set [''unknown'', ''disabled'', ''enabled'', ''restricted'', ''custom'']),
      (''A2A_APPROVAL_POLICY'', ss_approval_policy s \<in> set [''unknown'', ''never'', ''on-request'', ''on-failure'', ''untrusted'', ''custom'']),
      (''A2A_APPROVAL_ESCALATION_BEHAVIOR'', ss_escalation_behavior s \<in> set [''unknown'', ''manual'', ''automatic'', ''unsupported'', ''custom'']),
      (''A2A_WRITE_ACCESS_SCOPE'', st_write_access_scope (ss_sandbox s) \<in> set (''none'' # SCOPES)),
      (''A2A_WRITE_ACCESS_OUTSIDE_WORKSPACE'', ss_outside_workspace s \<in> set [''unknown'', ''allowed'', ''disallowed'', ''custom'']),
      (''A2A_PENDING_SESSION_CLAIM_TTL_SECONDS'', 0 < ss_pending_session_claim_ttl_seconds s),
      (''A2A_INTERRUPT_REQUEST_TTL_SECONDS'', 0 \<le> ss_interrupt_request_ttl_seconds s),
      (''A2A_INTERRUPT_REQUEST_TOMBSTONE_TTL_SECONDS'', 0 \<le> ss_interrupt_request_tombstone_ttl_seconds s),
      (''A2A_CANCEL_ABORT_TIMEOUT_SECONDS'', 0 \<le> ss_cancel_abort_timeout_seconds s),
      (''A2A_CLIENT_CACHE_TTL_SECONDS'', 0 \<le> ss_client_cache_ttl_seconds s),
      (''A2A_CLIENT_CACHE_MAXSIZE'', 0 \<le> ss_client_cache_maxsize s),
      (''A2A_TASK_STORE_BACKEND'', ss_task_store_backend s \<in> set [''memory'', ''database''])]"

fun validate_credentials :: "credential_settings list \<Rightarrow> config_error + credential_settings list" where
  "validate_credentials [] = Inr []"
| "validate_credentials (c # cs) =
     (if cs_scheme c \<notin> {''bearer'', ''basic''} then Inl (FieldErrors [''A2A_STATIC_AUTH_CREDENTIALS''])
      else case validate_shape c of
        Inl e \<Rightarrow> Inl (ConfigValueError e)
      | Inr c \<Rightarrow> (case validate_credentials cs of Inl e \<Rightarrow> Inl e | Inr cs \<Rightarrow> Inr (c # cs)))"

text \<open>\<open>_validate_sandbox_policy\<close>\<close>

definition validate_policy :: "(path \<Rightarrow> path) \<Rightarrow> path \<Rightarrow> service_settings \<Rightarrow> config_error + service_settings" where
  "validate_policy resolve cwd s =
     (case validate_configuration (from_settings resolve cwd (ss_sandbox s) None) of
        Inl e \<Rightarrow> Inl (ConfigValueError (case e of ValueError t \<Rightarrow> t))
      | Inr _ \<Rightarrow>
          (let url = setting_or (ss_task_store_database_url s) []
           in if ss_task_store_backend s = ''database'' \<and> url = []
              then Inl (ConfigValueError ''A2A_TASK_STORE_DATABASE_URL is required when A2A_TASK_STORE_BACKEND=database'')
              else if ss_task_store_backend s = ''database'' \<and> \<not> startswith url ''sqlite+aiosqlite:''
              then Inl (ConfigValueError ''A2A_TASK_STORE_DATABASE_URL must use the sqlite+aiosqlite scheme'')
              else if ss_static_auth_credentials s = []
              then Inl (ConfigValueError ''Configure runtime authentication via A2A_STATIC_AUTH_CREDENTIALS'')
              else if \<not> (\<exists>c \<in> set (ss_static_auth_credentials s). cs_enabled c)
              then Inl (ConfigValueError ''A2A_STATIC_AUTH_CREDENTIALS must contain at least one enabled credential'')
              else Inr s))"

definition load_service_settings ::
    "(path \<Rightarrow> path) \<Rightarrow> path \<Rightarrow> service_settings \<Rightarrow> config_error + service_settings" where
  "load_service_settings resolve cwd s =
     (case validate_credentials (ss_static_auth_credentials s) of
        Inl e \<Rightarrow> Inl e
      | Inr cs \<Rightarrow>
          (let failed = map fst (filter (\<lambda>(name, ok). \<not> ok) (field_checks s))
           in if failed \<noteq> [] then Inl (FieldErrors failed)
              else validate_policy resolve cwd (s\<lparr>ss_static_auth_credentials := cs\<rparr>)))"

section \<open>Life cycle\<close>

text \<open>The parts of the service, and what happens to them in the order it happens.\<close>

datatype service_part = Task_Store_Runtime | Runtime_State_Runtime | Upstream | Client_Manager | Request_Handler | Database_Engine

datatype life_event = Started service_part | Start_Failed service_part | Served | Stopped service_part

text \<open>
  An \<open>AsyncExitStack\<close> runs every callback, the last that was pushed first, and raises the exception of
  the last one that failed, if none the one it was left with.
\<close>

fun run_stack :: "(service_part \<Rightarrow> 'x option) \<Rightarrow> service_part list \<Rightarrow> 'x option \<Rightarrow> life_event list \<times> 'x option" where
  "run_stack stop [] failure = ([], failure)"
| "run_stack stop (c # cs) failure =
     (let (events, outcome) = run_stack stop cs (case stop c of None \<Rightarrow> failure | Some x \<Rightarrow> Some x)
      in (Stopped c # events, outcome))"

definition stop_parts :: "(service_part \<Rightarrow> 'x option) \<Rightarrow> bool \<Rightarrow> bool \<Rightarrow> bool \<Rightarrow> 'x option \<Rightarrow> life_event list \<times> 'x option" where
  "stop_parts stop has_engine task_store_started runtime_state_started failure =
     (let pushed = (if has_engine then [Database_Engine] else []) @
            (if task_store_started then [Task_Store_Runtime] else []) @
            (if runtime_state_started then [Runtime_State_Runtime] else []) @ [Upstream, Client_Manager, Request_Handler]
      in run_stack stop (rev pushed) failure)"

text \<open>\<open>served\<close> is the exception, if any, with which serving ends.\<close>

definition lifespan ::
    "(service_part \<Rightarrow> 'x option) \<Rightarrow> (service_part \<Rightarrow> 'x option) \<Rightarrow> bool \<Rightarrow> 'x option \<Rightarrow> life_event list \<times> 'x option" where
  "lifespan start stop has_engine served =
     (case start Task_Store_Runtime of
        Some x \<Rightarrow> apfst ((#) (Start_Failed Task_Store_Runtime)) (stop_parts stop has_engine False False (Some x))
      | None \<Rightarrow>
          (case start Runtime_State_Runtime of
             Some x \<Rightarrow> apfst ((@) [Started Task_Store_Runtime, Start_Failed Runtime_State_Runtime])
                         (stop_parts stop has_engine True False (Some x))
           | None \<Rightarrow> apfst ((@) [Started Task_Store_Runtime, Started Runtime_State_Runtime, Served])
                       (stop_parts stop has_engine True True served)))"

section \<open>The context of a request\<close>

text \<open>
  What the SDK's builder makes of a request is the argument \<open>base\<close>. The identity comes from what the
  authentication left on the request, which are its principal and, where one was bound, its trace.
\<close>

definition is_streaming_path :: "string \<Rightarrow> bool" where
  "is_streaming_path p \<longleftrightarrow> endswith p ''/message:stream'' \<or> endswith p ''/message%3Astream''"

definition set_text :: "string \<Rightarrow> string option \<Rightarrow> mapping \<Rightarrow> mapping" where
  "set_text k v d = (case v of None \<Rightarrow> d | Some s \<Rightarrow> if s = [] then d else dset k (PStr s) d)"

definition build_call_state :: "gw_request \<Rightarrow> string \<Rightarrow> mapping \<Rightarrow> mapping" where
  "build_call_state rq raw_path base =
     (let headers = dset ''A2A-Version''
            (case rq_protocol_version rq of None \<Rightarrow> ''1.0'' | Some v \<Rightarrow> v) (dmerge [] (rq_headers rq));
          who = rq_principal rq; trace = rq_trace rq;
          state = dset ''headers'' (PDict (map (apsnd PStr) headers)) base;
          state = (if is_streaming_path (rq_path rq) \<or> is_streaming_path raw_path
                   then dset ''a2a_streaming_request'' (PBool True) state else state);
          state = set_text ''identity'' (map_option ap_identity who) state;
          state = set_text ''auth_scheme'' (map_option ap_auth_scheme who) state;
          state = set_text ''credential_id'' (Option.bind who ap_credential_id) state;
          state = set_text ''traceparent'' (map_option tx_traceparent trace) state;
          state = set_text ''tracestate'' (Option.bind trace tx_tracestate) state
      in set_text ''trace_id'' (map_option tx_trace_id trace) state)"

definition build_call_context_of :: "gw_request \<Rightarrow> string \<Rightarrow> raw_context \<Rightarrow> mapping \<Rightarrow> raw_context" where
  "build_call_context_of rq raw_path base base_state =
     base\<lparr>rx_state := PDict (build_call_state rq raw_path base_state),
          rx_user := (case rq_principal rq of
                        None \<Rightarrow> rx_user base
                      | Some p \<Rightarrow> if ap_identity p = [] then rx_user base
                                 else AuthenticatedIdentityUser (ap_identity p))\<rparr>"

section \<open>Accepted settings\<close>

lemma validated_credentials:
  "validate_credentials cs = Inr ds \<Longrightarrow> d \<in> set ds \<Longrightarrow>
     \<exists>c \<in> set cs. cs_scheme c \<in> {''bearer'', ''basic''} \<and> validate_shape c = Inr d"
  by (induction cs arbitrary: ds) (auto split: if_splits sum.splits)

text \<open>What the service can check a caller against: a token, or a name with a password.\<close>

definition has_secret :: "static_auth_credential \<Rightarrow> bool" where
  "has_secret c \<longleftrightarrow>
     (if sc_auth_scheme c = ''bearer'' then setting_or (sc_token c) [] \<noteq> []
      else sc_auth_scheme c = ''basic'' \<and> setting_or (sc_username c) [] \<noteq> [] \<and> setting_or (sc_password c) [] \<noteq> [])"

lemma shaped_has_secret:
  assumes "validate_shape c = Inr d" "cs_scheme c \<in> {''bearer'', ''basic''}"
  shows "has_secret (static_credential d) \<and> sc_principal (static_credential d) \<noteq> []"
proof -
  have setting: "setting_or x [] \<noteq> []" if "\<not> empty_setting x" for x
    using that by (auto simp: setting_or_def empty_setting_def split: option.splits)
  have named: "setting_or x AUTOMATION_PRINCIPAL \<noteq> []" for x
    by (auto simp: setting_or_def AUTOMATION_PRINCIPAL_def split: option.splits)
  show ?thesis
    using assms
    by (auto simp: validate_shape_def Let_def has_secret_def static_credential_def setting named split: if_splits)
qed

lemma accepted_policy:
  assumes "validate_policy resolve cwd s = Inr t"
  shows "t = s \<and> validate_configuration (from_settings resolve cwd (ss_sandbox s) None) = Inr () \<and>
    (ss_task_store_backend s = ''database'' \<longrightarrow>
     (\<exists>url. ss_task_store_database_url s = Some url \<and> startswith url ''sqlite+aiosqlite:'')) \<and>
    (\<exists>c \<in> set (ss_static_auth_credentials s). cs_enabled c)"
  using assms
  by (auto simp: validate_policy_def Let_def setting_or_def split: sum.splits if_splits option.splits)

lemma loaded_service_settings:
  assumes "load_service_settings resolve cwd s = Inr t"
  obtains cs where "validate_credentials (ss_static_auth_credentials s) = Inr cs"
    "\<forall>(name, ok) \<in> set (field_checks s). ok" "t = s\<lparr>ss_static_auth_credentials := cs\<rparr>"
    "validate_policy resolve cwd (s\<lparr>ss_static_auth_credentials := cs\<rparr>) = Inr t"
proof -
  obtain cs where cs: "validate_credentials (ss_static_auth_credentials s) = Inr cs"
    and rest: "(let failed = map fst (filter (\<lambda>(name, ok). \<not> ok) (field_checks s))
           in if failed \<noteq> [] then Inl (FieldErrors failed)
              else validate_policy resolve cwd (s\<lparr>ss_static_auth_credentials := cs\<rparr>)) = Inr t"
    using assms by (auto simp: load_service_settings_def split: sum.splits)
  have fields: "\<forall>(name, ok) \<in> set (field_checks s). ok"
    using rest by (auto simp: Let_def filter_empty_conv split: if_splits)
  have policy: "validate_policy resolve cwd (s\<lparr>ss_static_auth_credentials := cs\<rparr>) = Inr t"
    using rest by (auto simp: Let_def split: if_splits)
  show ?thesis using that [OF cs fields _ policy] accepted_policy [OF policy] by blast
qed

text \<open>
  C35. A service that starts can tell its callers apart: there is a credential, every credential in use has
  a secret and a principal, declared writable roots stay in the workspace where the scope says so, and the
  tasks go to memory or to SQLite.
\<close>

theorem accepted_services_authenticate:
  assumes "load_service_settings resolve cwd s = Inr t"
  shows "build_static_auth_credentials (ss_static_auth_credentials t) \<noteq> [] \<and>
    (\<forall>c \<in> set (build_static_auth_credentials (ss_static_auth_credentials t)). has_secret c \<and> sc_principal c \<noteq> []) \<and>
    (let P = from_settings resolve cwd (ss_sandbox t) None
     in sp_write_access_scope P = ''workspace_only'' \<or> sp_filesystem_scope P = ''workspace_only'' \<longrightarrow>
        (\<forall>r \<in> set (sp_writable_roots P). is_within_workspace r (sp_workspace_root P))) \<and>
    (ss_task_store_backend t = ''memory'' \<or> ss_task_store_backend t = ''database'' \<and>
      (\<exists>url. ss_task_store_database_url t = Some url \<and> startswith url ''sqlite+aiosqlite:''))"
proof -
  obtain cs where cs: "validate_credentials (ss_static_auth_credentials s) = Inr cs"
    and fields: "\<forall>(name, ok) \<in> set (field_checks s). ok" and t: "t = s\<lparr>ss_static_auth_credentials := cs\<rparr>"
    and policy: "validate_policy resolve cwd (s\<lparr>ss_static_auth_credentials := cs\<rparr>) = Inr t"
    using loaded_service_settings [OF assms] .
  note accepted = accepted_policy [OF policy, folded t]
  have "has_secret (static_credential c) \<and> sc_principal (static_credential c) \<noteq> []" if "c \<in> set cs" for c
    using validated_credentials [OF cs that] shaped_has_secret by blast
  moreover have "\<exists>c \<in> set cs. cs_enabled c" using accepted by (simp add: t)
  ultimately have "build_static_auth_credentials cs \<noteq> [] \<and>
      (\<forall>c \<in> set (build_static_auth_credentials cs). has_secret c \<and> sc_principal c \<noteq> [])"
    by (auto simp: build_static_auth_credentials_def filter_empty_conv)
  moreover have "ss_task_store_backend t \<in> {''memory'', ''database''}"
    using fields by (simp add: field_checks_def t)
  moreover have "is_within_workspace r (sp_workspace_root P)"
    if "P = from_settings resolve cwd (ss_sandbox t) None" "r \<in> set (sp_writable_roots P)"
      "sp_write_access_scope P = ''workspace_only'' \<or> sp_filesystem_scope P = ''workspace_only''" for P r
    using valid_roots_within [of P r] accepted that by (auto simp: is_within_workspace_def relative_to_iff)
  ultimately show ?thesis using accepted by (auto simp: Let_def t)
qed

definition ops_credential :: credential_settings where
  "ops_credential = \<lparr>cs_credential_id = Some ''ops'', cs_scheme = ''basic'', cs_principal = None, cs_token = None,
     cs_username = Some '' ops '', cs_password = Some ''s3cret'', cs_capabilities = [], cs_enabled = True\<rparr>"

definition small_settings :: "credential_settings list \<Rightarrow> service_settings" where
  "small_settings cs = \<lparr>ss_sandbox = \<lparr>st_opencode_workspace_root = Some ''/srv/work'', st_allow_directory_override = True,
       st_sandbox_mode = ''workspace-write'', st_filesystem_scope = ''workspace_only'',
       st_writable_roots = [''/srv/work/out''], st_write_access_scope = ''workspace_only''\<rparr>,
     ss_network_access = ''disabled'', ss_approval_policy = ''never'', ss_escalation_behavior = ''manual'',
     ss_outside_workspace = ''disallowed'', ss_max_concurrent_requests = 32, ss_max_concurrent_streams = 8,
     ss_gzip_minimum_size = 8192, ss_max_request_body_bytes = 1048576, ss_rate_limit_window_seconds = 60,
     ss_rate_limit_max_requests = 120, ss_stream_max_bytes = 67108864, ss_stream_max_duration_seconds = 3600,
     ss_stream_idle_timeout_seconds = 120, ss_pending_session_claim_ttl_seconds = 30,
     ss_interrupt_request_ttl_seconds = 10800, ss_interrupt_request_tombstone_ttl_seconds = 600,
     ss_cancel_abort_timeout_seconds = 2, ss_client_cache_ttl_seconds = 900, ss_client_cache_maxsize = 256,
     ss_static_auth_credentials = cs, ss_task_store_backend = ''database'',
     ss_task_store_database_url = Some ''sqlite+aiosqlite:///./opencode-a2a.db''\<rparr>"

theorem accepted_services_authenticate_witness:
  "case load_service_settings id [''srv'', ''work''] (small_settings [ops_credential]) of
     Inl e \<Rightarrow> False
   | Inr t \<Rightarrow> build_static_auth_credentials (ss_static_auth_credentials t) \<noteq> [] \<and>
       map sc_principal (build_static_auth_credentials (ss_static_auth_credentials t)) = [''ops''] \<and>
       is_within_workspace [''srv'', ''work'', ''out''] [''srv'', ''work'']"
proof -
  let ?t = "small_settings [ops_credential\<lparr>cs_username := Some ''ops'', cs_principal := Some ''ops''\<rparr>]"
  have t: "load_service_settings id [''srv'', ''work''] (small_settings [ops_credential]) = Inr ?t" by code_simp
  have "map sc_principal (build_static_auth_credentials (ss_static_auth_credentials ?t)) = [''ops'']"
    "sp_write_access_scope (from_settings id [''srv'', ''work''] (ss_sandbox ?t) None) = ''workspace_only''"
    "sp_writable_roots (from_settings id [''srv'', ''work''] (ss_sandbox ?t) None) = [[''srv'', ''work'', ''out'']]"
    "sp_workspace_root (from_settings id [''srv'', ''work''] (ss_sandbox ?t) None) = [''srv'', ''work'']"
    by code_simp+
  then show ?thesis using accepted_services_authenticate [OF t] by (simp add: t Let_def)
qed

text \<open>
  The principal of a bearer credential may not be left out, so that it does not become the shared one of
  automation; a blank one is accepted, and becomes it.
\<close>

theorem blank_principals_become_automation:
  "validate_shape (ops_credential\<lparr>cs_scheme := ''bearer'', cs_token := Some ''t0ken'', cs_username := None,
      cs_password := None, cs_principal := Some '' ''\<rparr>) =
     Inr (ops_credential\<lparr>cs_scheme := ''bearer'', cs_token := Some ''t0ken'', cs_username := None,
      cs_password := None, cs_principal := Some []\<rparr>) \<and>
   sc_principal (static_credential (ops_credential\<lparr>cs_scheme := ''bearer'', cs_principal := Some []\<rparr>)) = AUTOMATION_PRINCIPAL"
  by code_simp

section \<open>Starting and stopping\<close>

definition PARTS :: "service_part list" where
  "PARTS = [Task_Store_Runtime, Runtime_State_Runtime, Upstream, Client_Manager, Request_Handler, Database_Engine]"

text \<open>Which part works on which other.\<close>

definition USES :: "(service_part \<times> service_part) list" where
  "USES = [(Request_Handler, Client_Manager), (Request_Handler, Upstream), (Request_Handler, Task_Store_Runtime),
     (Upstream, Runtime_State_Runtime), (Runtime_State_Runtime, Database_Engine), (Task_Store_Runtime, Database_Engine)]"

definition stops_before :: "life_event list \<Rightarrow> service_part \<Rightarrow> service_part \<Rightarrow> bool" where
  "stops_before events a b \<longleftrightarrow>
     Stopped a \<in> set events \<longrightarrow> Stopped b \<in> set events \<longrightarrow> Stopped b \<in> set (dropWhile (\<lambda>e. e \<noteq> Stopped a) events)"

definition is_stopped :: "life_event list \<Rightarrow> bool \<Rightarrow> service_part \<Rightarrow> bool" where
  "is_stopped events has_engine c \<longleftrightarrow>
     (Stopped c \<in> set events) =
       (c \<in> {Upstream, Client_Manager, Request_Handler} \<or> c = Database_Engine \<and> has_engine \<or> Started c \<in> set events)"

lemma run_stack_events: "fst (run_stack stop cs failure) = map Stopped cs"
  by (induction cs arbitrary: failure) (simp_all add: case_prod_unfold Let_def)

lemma run_stack_outcome:
  "snd (run_stack stop cs failure) = None \<longleftrightarrow> failure = None \<and> (\<forall>c \<in> set cs. stop c = None)"
  by (induction cs arbitrary: failure) (auto simp: case_prod_unfold Let_def split: option.splits)

declare run_stack.simps [simp del]

text \<open>
  C36. However starting, serving and stopping end, every part that was started is stopped, and so are those
  that need no start, none twice and none before a part that works on it; and the service ends without an
  exception exactly when nothing failed.
\<close>

theorem parts_stop_in_order:
  assumes "lifespan start stop has_engine served = (events, outcome)"
  shows "distinct events \<and> list_all (is_stopped events has_engine) PARTS \<and>
    list_all (\<lambda>(a, b). stops_before events a b) USES \<and>
    (outcome = None \<longleftrightarrow> start Task_Store_Runtime = None \<and> start Runtime_State_Runtime = None \<and> served = None \<and>
       list_all (\<lambda>c. Stopped c \<in> set events \<longrightarrow> stop c = None) PARTS)"
proof -
  have events: "events = fst (lifespan start stop has_engine served)" and
    outcome: "outcome = snd (lifespan start stop has_engine served)"
    using assms by simp_all
  note defs = events outcome lifespan_def stop_parts_def PARTS_def USES_def stops_before_def is_stopped_def
    run_stack_events run_stack_outcome Let_def
  show ?thesis
  proof (cases "start Task_Store_Runtime")
    case (Some x)
    then show ?thesis by (cases has_engine) (simp_all add: defs)
  next
    case store: None
    show ?thesis
    proof (cases "start Runtime_State_Runtime")
      case (Some x)
      then show ?thesis using store by (cases has_engine) (simp_all add: defs)
    next
      case None
      then show ?thesis using store by (cases has_engine) (auto simp: defs)
    qed
  qed
qed

theorem parts_stop_in_order_witness:
  "case lifespan (\<lambda>c. if c = Runtime_State_Runtime then Some ''locked'' else None)
      (\<lambda>c. if c = Upstream then Some ''closed'' else None) True None of
     (events, outcome) \<Rightarrow> distinct events \<and> stops_before events Task_Store_Runtime Database_Engine \<and> outcome = Some ''closed'' \<and>
       Stopped Runtime_State_Runtime \<notin> set events"
proof -
  let ?start = "\<lambda>c. if c = Runtime_State_Runtime then Some ''locked'' else None"
  let ?stop = "\<lambda>c. if c = Upstream then Some ''closed'' else None"
  let ?events = "[Started Task_Store_Runtime, Start_Failed Runtime_State_Runtime, Stopped Request_Handler, Stopped Client_Manager,
    Stopped Upstream, Stopped Task_Store_Runtime, Stopped Database_Engine]"
  have run: "lifespan ?start ?stop True None = (?events, Some ''closed'')" by code_simp
  have "distinct ?events \<and> list_all (\<lambda>(a, b). stops_before ?events a b) USES"
    using parts_stop_in_order [OF run] by blast
  then show ?thesis by (simp add: run USES_def)
qed

section \<open>Who a request is\<close>

lemma set_text_other: "k \<noteq> l \<Longrightarrow> dget (set_text l v d) k = dget d k"
  by (simp add: set_text_def split: option.splits)

text \<open>
  The identity a request acts under is that of the credential it was let in with, whatever its headers
  and its body say; without one it is nobody's.
\<close>

theorem requests_act_as_their_principal:
  assumes "rx_user base = NoUser \<or> rx_user base = UnauthenticatedUser" "dget base_state ''identity'' = PNone"
  shows "(let c = normalize_server_call_context fr (Some (build_call_context_of rq raw_path base base_state))
     in case rq_principal rq of
          Some p \<Rightarrow> if ap_identity p = [] then cx_user c = UnauthenticatedUser
                   else cx_user c = AuthenticatedIdentityUser (ap_identity p) \<and>
                        dget (cx_state c) ''identity'' = PStr (ap_identity p)
        | None \<Rightarrow> cx_user c = UnauthenticatedUser)"
proof -
  let ?state = "build_call_state rq raw_path base_state"
  have other: "''identity'' \<noteq> ''headers''" "''identity'' \<noteq> ''a2a_streaming_request''" "''identity'' \<noteq> ''auth_scheme''"
    "''identity'' \<noteq> ''credential_id''" "''identity'' \<noteq> ''traceparent''" "''identity'' \<noteq> ''tracestate''"
    "''identity'' \<noteq> ''trace_id''" by simp_all
  have state: "dget ?state ''identity'' =
      (case rq_principal rq of None \<Rightarrow> PNone | Some p \<Rightarrow> if ap_identity p = [] then PNone else PStr (ap_identity p))"
    unfolding build_call_state_def Let_def
    by (simp add: set_text_other assms(2)) (simp add: set_text_def assms(2) split: option.splits)
  show ?thesis
    using assms(1)
    by (auto simp: normalize_server_call_context_def build_call_context_of_def mapping_or_empty_def state Let_def
        split: option.splits)
qed

end
