(* ===== verification/Stream_Delivery.thy ===== *)
theory Stream_Delivery
  imports Runtime_Limits
begin

text \<open>
  Streams over the JSON-RPC endpoint (\<open>_process_streaming_request\<close> of \<open>jsonrpc/application.py\<close>): the first
  event is awaited before the budgets of \<open>Runtime_Limits\<close> apply to what follows.
\<close>

section \<open>Streaming answers\<close>

text \<open>
  What the SDK's stream does: an event after a pause, the end, or an error of the protocol; the list being
  used up is silence for ever. \<open>map_event\<close> and \<open>error_response\<close> make the JSON of an event and of an error.
\<close>

datatype ('e, 'x) sdk_item = Emits seconds 'e | Finishes seconds | Fails seconds 'x

fun wrap_stream :: "('e \<Rightarrow> 'o) \<Rightarrow> ('x \<Rightarrow> 'o) \<Rightarrow> ('e, 'x) sdk_item list \<Rightarrow> 'o upstream_item list" where
  "wrap_stream map_event error_response [] = []"
| "wrap_stream map_event error_response (Emits gap e # items) =
     After gap (map_event e) # wrap_stream map_event error_response items"
| "wrap_stream map_event error_response (Finishes gap # items) = [EndAfter gap]"
| "wrap_stream map_event error_response (Fails gap x # items) = [After gap (error_response x), EndAfter 0]"

datatype ('o, 'x) streaming_answer =
    Unanswered
  | ErrorAnswer 'x
  | EventStream "(seconds \<times> 'o) list \<times> budget_verdict"

definition process_streaming_request ::
    "stream_budget \<Rightarrow> ('o \<Rightarrow> nat) \<Rightarrow> ('e \<Rightarrow> 'o) \<Rightarrow> ('x \<Rightarrow> 'o) \<Rightarrow> 'x \<Rightarrow> string \<Rightarrow> seconds \<Rightarrow> ('e, 'x) sdk_item list
     \<Rightarrow> ('o, 'x) streaming_answer" where
  "process_streaming_request B size_of map_event error_response unsupported request_method now items =
     (if request_method \<notin> {''SendStreamingMessage'', ''SubscribeToTask''} then ErrorAnswer unsupported
      else case items of
        [] \<Rightarrow> Unanswered
      | Fails gap x # _ \<Rightarrow> ErrorAnswer x
      | Finishes gap # _ \<Rightarrow> EventStream (apply_stream_budget B size_of (now + gap) None 0 [EndAfter 0])
      | Emits gap e # rest \<Rightarrow>
          EventStream (apply_stream_budget B size_of (now + gap) None 0
            (After 0 (map_event e) # wrap_stream map_event error_response rest)))"

section \<open>Budgets\<close>

text \<open>
  An event that comes within the idle budget is followed by what the budgets allow for the whole stream,
  as documented.
\<close>

theorem prompt_streams_keep_their_budget:
  assumes "request_method \<in> {''SendStreamingMessage'', ''SubscribeToTask''}"
    and "0 < sb_idle_timeout_seconds B \<longrightarrow> gap \<le> sb_idle_timeout_seconds B"
  shows "process_streaming_request B size_of map_event error_response unsupported request_method now (Emits gap e # rest) =
    EventStream (apply_stream_budget B size_of now None 0
      (wrap_stream map_event error_response (Emits gap e # rest)))"
  using assms by (auto simp: process_streaming_request_def Let_def)

text \<open>
  The wait for the first event has no budget: an event that comes after any pause is delivered, where the
  documented budget ends the stream, and a stream that never delivers leaves the request unanswered.
\<close>

theorem first_wait_has_no_budget:
  assumes "request_method \<in> {''SendStreamingMessage'', ''SubscribeToTask''}" "0 < sb_idle_timeout_seconds B"
    and "sb_idle_timeout_seconds B < gap" "sb_max_bytes B = 0"
  shows "(\<exists>ys v. process_streaming_request B size_of map_event error_response unsupported request_method now
            (Emits gap e # rest) = EventStream ((now + gap, map_event e) # ys, v)) \<and>
    apply_stream_budget B size_of now None 0 (wrap_stream map_event error_response (Emits gap e # rest)) =
      ([], StreamBudgetExceeded ''idle timeout'') \<and>
    process_streaming_request B size_of map_event error_response unsupported request_method now [] = Unanswered \<and>
    apply_stream_budget B size_of now None 0 (wrap_stream map_event error_response ([] :: ('e, 'x) sdk_item list)) =
      ([], StreamBudgetExceeded ''idle timeout'')"
  using assms by (auto simp: process_streaming_request_def Let_def split: prod.splits)

theorem first_wait_has_no_budget_witness:
  "apply_stream_budget \<lparr>sb_max_bytes = 0, sb_max_duration_seconds = 3600, sb_idle_timeout_seconds = 120\<rparr> length 0 None 0
      (wrap_stream id id [Emits 500 ''working'', Finishes 1]) = ([], StreamBudgetExceeded ''idle timeout'')"
  using first_wait_has_no_budget
    [of "''SubscribeToTask''" "\<lparr>sb_max_bytes = 0, sb_max_duration_seconds = 3600, sb_idle_timeout_seconds = 120\<rparr>" 500
      length id "id :: string \<Rightarrow> string" "[]" 0 "''working''" "[Finishes 1]"] by simp

end
