(* ===== verification/Metrics.thy ===== *)
theory Metrics
  imports Py_Prelude
begin

text \<open>
  The metrics of the service (\<open>execution/metrics.py\<close>): a registry of counters and gauges and its text for
  Prometheus. Shown is that counters add up and that the text reads back as what was recorded, whatever
  the values of the labels hold. How a number is printed is a parameter.
\<close>

section \<open>Names and labels\<close>

definition is_ascii_letter :: "char \<Rightarrow> bool" where
  "is_ascii_letter c = (let n = (of_char c :: nat) in (65 \<le> n \<and> n \<le> 90) \<or> (97 \<le> n \<and> n \<le> 122))"

definition metric_char :: "char \<Rightarrow> bool" where
  "metric_char c \<longleftrightarrow> is_ascii_letter c \<or> is_digit c \<or> c = CHR ''_'' \<or> c = CHR '':''"

definition metric_name_ok :: "string \<Rightarrow> bool" where
  "metric_name_ok s \<longleftrightarrow> s \<noteq> [] \<and> \<not> is_digit (hd s) \<and> list_all metric_char s"

definition label_char :: "char \<Rightarrow> bool" where
  "label_char c \<longleftrightarrow> is_ascii_letter c \<or> is_digit c \<or> c = CHR ''_''"

definition label_name_ok :: "string \<Rightarrow> bool" where
  "label_name_ok s \<longleftrightarrow> s \<noteq> [] \<and> \<not> is_digit (hd s) \<and> list_all label_char s"

type_synonym labels = "(string \<times> string) list"

definition label_value :: "(rat \<Rightarrow> string) \<Rightarrow> pyval \<Rightarrow> string" where
  "label_value fr v = (case v of PBool b \<Rightarrow> (if b then ''true'' else ''false'') | _ \<Rightarrow> py_str fr v)"

definition normalized_labels :: "(rat \<Rightarrow> string) \<Rightarrow> mapping \<Rightarrow> string + labels" where
  "normalized_labels fr ls =
     (case filter (\<lambda>(k, v). \<not> label_name_ok k) (sort_key fst ls) of
        (k, _) # _ \<Rightarrow> Inl (''Invalid metric label name: '' @ py_repr_str k)
      | [] \<Rightarrow> Inr (map (\<lambda>(k, v). (k, label_value fr v)) (sort_key fst ls)))"

section \<open>The registry\<close>

type_synonym metric_key = "string \<times> labels"

type_synonym metric_registry = "(metric_key \<times> rat) list"

definition accumulates :: "string \<Rightarrow> bool" where
  "accumulates name \<longleftrightarrow> endswith name ''_total'' \<or> endswith name ''_active''"

definition record_metric :: "string \<Rightarrow> rat \<Rightarrow> labels \<Rightarrow> metric_registry \<Rightarrow> (string + unit) \<times> metric_registry" where
  "record_metric name x ls reg =
     (if \<not> metric_name_ok name then (Inl (''Invalid metric name: '' @ py_repr_str name), reg)
      else (Inr (), dset (name, ls)
        (if accumulates name then (case map_of reg (name, ls) of None \<Rightarrow> 0 | Some y \<Rightarrow> y) + x else x) reg))"

definition emit_metric ::
    "(rat \<Rightarrow> string) \<Rightarrow> string \<Rightarrow> rat \<Rightarrow> mapping \<Rightarrow> metric_registry \<Rightarrow> (string + unit) \<times> metric_registry" where
  "emit_metric fr name x ls reg =
     (case normalized_labels fr ls of
        Inl e \<Rightarrow> (Inl e, reg)
      | Inr normalized \<Rightarrow> record_metric name x normalized reg)"

section \<open>The text\<close>

fun escape_label_value :: "string \<Rightarrow> string" where
  "escape_label_value [] = []"
| "escape_label_value (c # s) =
     (if c = CHR 0x5C then [CHR 0x5C, CHR 0x5C]
      else if c = CHR 0x22 then [CHR 0x5C, CHR 0x22]
      else if c = CHR 0x0A then [CHR 0x5C, CHR ''n''] else [c]) @ escape_label_value s"

definition label_text :: "string \<times> string \<Rightarrow> string" where
  "label_text l = fst l @ ''='' @ [CHR 0x22] @ escape_label_value (snd l) @ [CHR 0x22]"

definition sample_line :: "(rat \<Rightarrow> string) \<Rightarrow> metric_key \<times> rat \<Rightarrow> string" where
  "sample_line number sample =
     (let ((name, ls), x) = sample
      in name @ (if ls = [] then [] else ''{'' @ join '','' (map label_text ls) @ ''}'') @ '' '' @ number x)"

fun metric_lines :: "(rat \<Rightarrow> string) \<Rightarrow> string set \<Rightarrow> (metric_key \<times> rat) list \<Rightarrow> string list" where
  "metric_lines number declared [] = []"
| "metric_lines number declared (((name, ls), x) # samples) =
     (if name \<in> declared then []
      else [''# HELP '' @ name @ '' opencode-a2a runtime metric.'',
            ''# TYPE '' @ name @ '' '' @ (if endswith name ''_total'' then ''counter'' else ''gauge'')]) @
     sample_line number ((name, ls), x) # metric_lines number (insert name declared) samples"

definition render_prometheus_metrics :: "(rat \<Rightarrow> string) \<Rightarrow> metric_registry \<Rightarrow> string" where
  "render_prometheus_metrics number reg =
     (let ls = metric_lines number {} (sort_key fst reg)
      in join [CHR 0x0A] ls @ (if ls = [] then [] else [CHR 0x0A]))"

section \<open>Reading the text\<close>

fun read_text :: "string \<Rightarrow> (string \<times> string) option" where
  "read_text [] = None"
| "read_text [c] = (if c = CHR 0x22 then Some ([], []) else None)"
| "read_text (c # d # s) =
     (if c = CHR 0x22 then Some ([], d # s)
      else if c = CHR 0x5C then map_option (apfst ((#) (if d = CHR ''n'' then CHR 0x0A else d))) (read_text s)
      else map_option (apfst ((#) c)) (read_text (d # s)))"

fun read_labels :: "nat \<Rightarrow> string \<Rightarrow> (labels \<times> string) option" where
  "read_labels 0 s = None"
| "read_labels (Suc n) s =
     (let name = takeWhile label_char s
      in case read_text (drop (length name + 2) s) of
           None \<Rightarrow> None
         | Some (v, rest) \<Rightarrow>
             if startswith rest '','' then map_option (apfst ((#) (name, v))) (read_labels n (drop 1 rest))
             else Some ([(name, v)], drop 1 rest))"

definition read_sample :: "string \<Rightarrow> (metric_key \<times> string) option" where
  "read_sample s =
     (let name = takeWhile metric_char s; rest = drop (length name) s
      in if startswith rest ''{''
         then map_option (\<lambda>(ls, r). ((name, ls), drop 1 r)) (read_labels (length rest) (drop 1 rest))
         else Some ((name, []), drop 1 rest))"

lemma read_escaped: "read_text (escape_label_value v @ CHR 0x22 # rest) = Some (v, rest)"
proof (induction v)
  case Nil
  then show ?case by (cases rest) auto
next
  case (Cons c v)
  obtain d t where "escape_label_value v @ CHR 0x22 # rest = d # t" by (cases "escape_label_value v") auto
  then show ?case using Cons by auto
qed

lemma takeWhile_all_then:
  "list_all P s \<Longrightarrow> \<not> P c \<Longrightarrow> takeWhile P (s @ c # t) = s"
  by (induction s) auto

lemma not_label_char: "\<not> label_char CHR ''=''"
  by code_simp

lemma read_label_text:
  assumes "label_name_ok (fst l)"
  shows "takeWhile label_char (label_text l @ rest) = fst l"
    "read_text (drop (length (fst l) + 2) (label_text l @ rest)) = Some (snd l, rest)"
  using assms takeWhile_all_then [of label_char "fst l" "CHR ''=''"] not_label_char read_escaped
  by (simp_all add: label_name_ok_def label_text_def)

lemma read_label_list:
  assumes "ls \<noteq> []" "list_all (label_name_ok \<circ> fst) ls" "length ls \<le> n"
  shows "read_labels n (join '','' (map label_text ls) @ ''}'' @ rest) = Some (ls, rest)"
  using assms
proof (induction ls arbitrary: n)
  case (Cons l ls)
  obtain m where n: "n = Suc m" using Cons.prems(3) by (cases n) auto
  have ok: "label_name_ok (fst l)" using Cons.prems(2) by simp
  show ?case
  proof (cases ls)
    case Nil
    then show ?thesis using read_label_text [OF ok, of "''}'' @ rest"] by (simp add: n Let_def startswith_def)
  next
    case (Cons l' ls')
    then have IH: "read_labels m (join '','' (map label_text ls) @ ''}'' @ rest) = Some (ls, rest)"
      using Cons.IH Cons.prems n by simp
    have "join '','' (map label_text (l # ls)) @ ''}'' @ rest =
        label_text l @ '','' @ (join '','' (map label_text ls) @ ''}'' @ rest)" using Cons by simp
    then show ?thesis
      using read_label_text [OF ok, of "'','' @ (join '','' (map label_text ls) @ ''}'' @ rest)"] IH
      by (simp add: n Let_def startswith_def)
  qed
qed simp

definition sample_ok :: "metric_key \<times> rat \<Rightarrow> bool" where
  "sample_ok sample \<longleftrightarrow>
     (let ((name, ls), x) = sample in metric_name_ok name \<and> list_all (label_name_ok \<circ> fst) ls)"

lemma length_labels: "length ls \<le> length (join '','' (map label_text ls))"
proof (induction ls)
  case (Cons l ls)
  then show ?case by (cases ls) (auto simp: label_text_def)
qed simp

lemma not_metric_chars: "\<not> metric_char CHR ''{''" "\<not> metric_char CHR '' ''" "\<not> metric_char CHR ''#''" "\<not> metric_char CHR 0x0A"
    "\<not> label_char CHR 0x0A"
  by code_simp+

lemma read_sample_line:
  assumes "sample_ok ((name, ls), x)"
  shows "read_sample (sample_line number ((name, ls), x)) = Some ((name, ls), number x)"
proof (cases "ls = []")
  case True
  then show ?thesis
    using assms takeWhile_all_then [of metric_char name "CHR '' ''" "number x"] not_metric_chars(2)
    by (simp add: read_sample_def sample_line_def sample_ok_def metric_name_ok_def startswith_def)
next
  case False
  let ?tail = "join '','' (map label_text ls) @ ''}'' @ '' '' @ number x"
  have take: "takeWhile metric_char (name @ CHR ''{'' # ?tail) = name"
    using assms takeWhile_all_then [of metric_char name "CHR ''{''" ?tail] not_metric_chars(1)
    by (simp add: sample_ok_def metric_name_ok_def)
  have "read_labels (length (CHR ''{'' # ?tail)) ?tail = Some (ls, '' '' @ number x)"
    by (rule read_label_list [OF False, where rest = "'' '' @ number x"])
      (use assms length_labels [of ls] in \<open>simp_all add: sample_ok_def\<close>)
  then show ?thesis using False take by (simp add: read_sample_def sample_line_def startswith_def Let_def)
qed

lemma escaped_one_line: "CHR 0x0A \<notin> set (escape_label_value v)"
  by (induction v) auto

lemma joined_one_line:
  "list_all (label_name_ok \<circ> fst) ls \<Longrightarrow> CHR 0x0A \<notin> set (join '','' (map label_text ls))"
proof (induction ls)
  case (Cons l ls)
  have "CHR 0x0A \<notin> set (fst l)" using Cons.prems not_metric_chars(5) by (auto simp: label_name_ok_def list_all_iff)
  then have "CHR 0x0A \<notin> set (label_text l)" using escaped_one_line by (auto simp: label_text_def)
  then show ?case using Cons by (cases ls) auto
qed simp

lemma name_one_line: "metric_name_ok name \<Longrightarrow> CHR 0x0A \<notin> set name"
  using not_metric_chars(4) by (auto simp: metric_name_ok_def list_all_iff)

lemma sample_one_line:
  assumes "sample_ok ((name, ls), x)" "CHR 0x0A \<notin> set (number x)"
  shows "CHR 0x0A \<notin> set (sample_line number ((name, ls), x))"
  using assms name_one_line joined_one_line [of ls] by (auto simp: sample_line_def sample_ok_def)

lemma lines_one_line:
  assumes "\<forall>sample \<in> set samples. sample_ok sample" "\<forall>x. CHR 0x0A \<notin> set (number x)"
  shows "\<forall>l \<in> set (metric_lines number declared samples). CHR 0x0A \<notin> set l"
  using assms
proof (induction samples arbitrary: declared)
  case (Cons sample samples)
  obtain name ls x where [simp]: "sample = ((name, ls), x)" by (metis surj_pair)
  have "CHR 0x0A \<notin> set name" using Cons.prems(1) name_one_line by (auto simp: sample_ok_def)
  then show ?case using Cons sample_one_line [of name ls x number] by auto
qed simp

lemma split_at: "c \<notin> set x \<Longrightarrow> split_char c (x @ c # s) = x # split_char c s"
  by (induction x) auto

lemma split_joined:
  "\<forall>x \<in> set xs. c \<notin> set x \<Longrightarrow> xs \<noteq> [] \<Longrightarrow> split_char c (join [c] xs @ [c]) = xs @ [[]]"
proof (induction xs)
  case (Cons x xs)
  then show ?case by (cases xs) (auto simp: split_at)
qed simp

definition is_sample :: "string \<Rightarrow> bool" where
  "is_sample l \<longleftrightarrow> l \<noteq> [] \<and> \<not> startswith l ''#''"

lemma sample_lines:
  "\<forall>sample \<in> set samples. sample_ok sample \<Longrightarrow>
     filter is_sample (metric_lines number declared samples) = map (sample_line number) samples"
proof (induction samples arbitrary: declared)
  case (Cons sample samples)
  obtain name ls x where [simp]: "sample = ((name, ls), x)" by (metis surj_pair)
  have "name \<noteq> []" "hd name \<noteq> CHR ''#''"
    using Cons.prems not_metric_chars(3) by (cases name, auto simp: sample_ok_def metric_name_ok_def)+
  then have "is_sample (sample_line number ((name, ls), x))"
    by (cases name) (auto simp: is_sample_def sample_line_def startswith_def)
  then show ?case using Cons by (auto simp: is_sample_def startswith_def)
qed simp

lemma normalized_labels_ok: "normalized_labels fr ls = Inr ns \<Longrightarrow> list_all (label_name_ok \<circ> fst) ns"
  by (auto simp: normalized_labels_def list_all_iff filter_empty_conv split: list.splits)

lemma emitted_ok:
  assumes "\<forall>sample \<in> set reg. sample_ok sample"
  shows "\<forall>sample \<in> set (snd (emit_metric fr name x ls reg)). sample_ok sample"
proof (cases "normalized_labels fr ls")
  case (Inl e)
  then show ?thesis using assms by (simp add: emit_metric_def)
next
  case (Inr ns)
  have "sample_ok ((name, ns), y)" if "metric_name_ok name" for y
    using that normalized_labels_ok [OF Inr] by (simp add: sample_ok_def)
  then have "metric_name_ok name \<Longrightarrow> \<forall>sample \<in> set (dset (name, ns) y reg). sample_ok sample" for y
    using assms set_dset [of "(name, ns)" y reg] by blast
  then show ?thesis using assms by (simp add: emit_metric_def record_metric_def Inr)
qed

definition emit_all :: "(rat \<Rightarrow> string) \<Rightarrow> (string \<times> rat \<times> mapping) list \<Rightarrow> metric_registry" where
  "emit_all fr calls = foldl (\<lambda>reg (name, x, ls). snd (emit_metric fr name x ls reg)) [] calls"

lemma emit_all_snoc:
  "emit_all fr (calls @ [(name, x, ls)]) = snd (emit_metric fr name x ls (emit_all fr calls))"
  by (simp add: emit_all_def)

lemma all_emitted_ok: "\<forall>sample \<in> set (emit_all fr calls). sample_ok sample"
proof (induction calls rule: rev_induct)
  case (snoc c calls)
  obtain name x ls where "c = (name, x, ls)" by (cases c)
  then show ?case using emitted_ok [OF snoc] by (simp only: emit_all_snoc)
qed (simp add: emit_all_def)

definition read_metrics :: "string \<Rightarrow> (metric_key \<times> string) option list" where
  "read_metrics s = map read_sample (filter is_sample (split_char CHR 0x0A s))"

text \<open>
  The text of the metrics reads back as the registry: a value of a label, which may come from outside,
  cannot end its line or pass for another sample.
\<close>

theorem metrics_read_back:
  assumes "\<forall>x. CHR 0x0A \<notin> set (number x)"
  shows "read_metrics (render_prometheus_metrics number (emit_all fr calls)) =
    map (\<lambda>(k, x). Some (k, number x)) (sort_key fst (emit_all fr calls))"
proof -
  let ?samples = "sort_key fst (emit_all fr calls)"
  let ?lines = "metric_lines number {} ?samples"
  have ok: "\<forall>sample \<in> set ?samples. sample_ok sample" using all_emitted_ok by simp
  have "filter is_sample (split_char CHR 0x0A (render_prometheus_metrics number (emit_all fr calls))) =
      map (sample_line number) ?samples"
  proof (cases "?lines = []")
    case True
    then have "?samples = []" by (cases ?samples) auto
    then show ?thesis by (simp add: render_prometheus_metrics_def is_sample_def)
  next
    case False
    then have "split_char CHR 0x0A (render_prometheus_metrics number (emit_all fr calls)) = ?lines @ [[]]"
      using split_joined [OF lines_one_line [OF ok assms]] by (simp add: render_prometheus_metrics_def Let_def)
    then show ?thesis using sample_lines [OF ok] by (simp add: is_sample_def)
  qed
  moreover have "map (read_sample \<circ> sample_line number) ?samples = map (\<lambda>(k, x). Some (k, number x)) ?samples"
    by (rule map_cong) (use ok read_sample_line in auto)
  ultimately show ?thesis by (simp add: read_metrics_def)
qed

text \<open>What was recorded for a name and labels, in its order.\<close>

definition recorded :: "(rat \<Rightarrow> string) \<Rightarrow> string \<Rightarrow> labels \<Rightarrow> (string \<times> rat \<times> mapping) list \<Rightarrow> rat list" where
  "recorded fr name ls calls =
     map (\<lambda>(n, x, raw). x) (filter (\<lambda>(n, x, raw). n = name \<and> normalized_labels fr raw = Inr ls) calls)"

text \<open>A counter is the sum of what was recorded for it, a gauge the last.\<close>

theorem counters_add_up:
  assumes "metric_name_ok name"
  shows "map_of (emit_all fr calls) (name, ls) =
    (let xs = recorded fr name ls calls
     in if xs = [] then None else Some (if accumulates name then sum_list xs else List.last xs))"
proof (induction calls rule: rev_induct)
  case Nil
  then show ?case by (simp add: emit_all_def recorded_def)
next
  case (snoc c calls)
  obtain n x raw where c: "c = (n, x, raw)" by (cases c)
  show ?case
  proof (cases "n = name \<and> normalized_labels fr raw = Inr ls")
    case True
    then show ?thesis using snoc assms
      by (auto simp: c emit_all_snoc emit_metric_def record_metric_def recorded_def Let_def)
  next
    case False
    then have "map_of (snd (emit_metric fr n x raw (emit_all fr calls))) (name, ls) = map_of (emit_all fr calls) (name, ls)"
      by (auto simp: emit_metric_def record_metric_def split: sum.splits)
    moreover have "recorded fr name ls (calls @ [c]) = recorded fr name ls calls" using False by (auto simp: c recorded_def)
    ultimately show ?thesis using snoc by (simp add: c emit_all_snoc)
  qed
qed

end
