(* ===== verification/Spec2Isabelle.thy ===== *)
theory Spec2Isabelle
  imports Execution_Verdicts Execution_Locks Runtime_Limits Peer_Agents Peer_Polling Access_Control Http_Gateway Rpc_Effects Task_Requests State_Schema Sqlite_Files Peer_Requests Service_Setup Stream_Delivery Metrics
begin

text \<open>
  A model of \<open>opencode-a2a\<close> (\<open>src/opencode_a2a\<close>), the adapter between the Agent2Agent protocol and
  an OpenCode server.

  A request of the protocol reaches the executor, which reads its parts and its metadata, checks
  the directory it asks for and refuses it or prepares an execution. The coordinator binds the
  execution to an upstream session, takes the lock of that session, sends the parts, answers the
  tool calls the upstream makes to other agents, follows the upstream's event stream meanwhile,
  and reports the outcome: updates while it runs, one verdict at the end. The session manager and
  its repositories decide who may use which session; interrupts, the questions and permission
  requests of the upstream, are remembered and answered through their own store.

  Parts of the program and their theories, each with its source under \<open>src/opencode_a2a\<close>:

  \<^item> \<open>Py_Prelude\<close>, \<open>Py_Json\<close>: the strings, dictionaries and JSON values of Python, as far as the
    code uses them, with the lemma collections of the development. \<open>json.dumps\<close> and \<open>json.loads\<close>
    are modelled and shown to be inverse.
  \<^item> \<open>TTL_Cache\<close>: \<open>_TTLCache\<close> of \<open>execution/stream_state.py\<close>. The cache never overflows and never
    evicts an entry that expires later than one it keeps.
  \<^item> \<open>Session_Repository\<close>, \<open>Session_Manager\<close>: the session tables of \<open>server/state_store.py\<close> in
    memory and in the database, behind one contract (the locale \<open>session_repository\<close>), and
    \<open>execution/session_manager.py\<close> as a client of the contract. Claims exclude other identities,
    owners in the database are permanent, one creation serves all who wait for it.
  \<^item> \<open>Interrupt_Store\<close>, \<open>Interrupt_Client\<close>: the interrupt repositories of \<open>server/state_store.py\<close>
    and the interrupt methods of \<open>opencode_upstream_client.py\<close> and \<open>execution/interrupts.py\<close>. The
    two repositories cannot be told apart by any history of calls.
  \<^item> \<open>A2A_Parts\<close>, \<open>A2A_Events\<close>: parts (\<open>parts/mapping.py\<close>), messages, tasks and events, output
    modes (\<open>output_modes.py\<close>), negotiated extensions (\<open>extension_negotiation.py\<close>) and request
    metadata (\<open>metadata_access.py\<close>). Only what was negotiated leaves the service.
  \<^item> \<open>Upstream_Client\<close>, \<open>Upstream_Errors\<close>: every call of \<open>opencode_upstream_client.py\<close> over a
    transport that is a parameter, its concurrency budgets, and the classification of failures
    (\<open>upstream_taxonomy.py\<close>, \<open>execution/upstream_error_translator.py\<close>).
  \<^item> \<open>Stream_Events\<close>, \<open>Stream_State\<close>, \<open>Stream_Runtime\<close>, \<open>Stream_Updates\<close>: reading upstream events
    (\<open>execution/stream_events.py\<close>), the state of an answer (\<open>execution/stream_state.py\<close>), the
    handler of an event and the reconnection loop (\<open>execution/stream_runtime.py\<close>). Everything the
    handlers do to the queue is a sequence of five kinds of steps (\<open>rt_step\<close>), and what is shown of
    the queue, numbering, append flags, the text a client holds, the pairing of interrupt reports,
    is an invariant of the steps.
  \<^item> \<open>Tool_Calls\<close>: calls to other agents (\<open>execution/tool_orchestration.py\<close>, its error mapping and
    \<open>client/error_mapping.py\<close>).
  \<^item> \<open>Sandbox_Policy\<close>, \<open>Redact\<close>, \<open>Runtime_Limits\<close>: \<open>sandbox_policy.py\<close>, \<open>redact.py\<close> and
    \<open>server/runtime_limits.py\<close>. The rate limiter refines one that keeps the whole log.
  \<^item> \<open>Executor\<close>, \<open>Coordinator\<close>, \<open>Execution_Verdicts\<close>: \<open>execution/executor.py\<close> and
    \<open>execution/coordinator.py\<close>. Here the parts meet: every execution has one verdict, after a
    completed stream a client holds the upstream's answer, and no claim is left behind.
  \<^item> \<open>Execution_Locks\<close>: the session locks as a transition system over any number of executions,
    the registry of running executions, and \<open>cancel\<close>.

  \<^item> \<open>Network_Policy\<close>, \<open>Peer_Manager\<close>, \<open>Peer_Agents\<close>, \<open>Peer_Polling\<close>: which agents may be called
    (\<open>client/network_policy.py\<close>), the table of clients for them (\<open>server/client_manager.py\<close>), and
    waiting for a task of theirs (\<open>client/polling.py\<close>, \<open>client/client.py\<close>). A client that is held is
    never closed, credentials stay on the allow list, and polling ends.

  \<^item> \<open>Access_Control\<close>: the configured credentials and their check (\<open>auth.py\<close>), the Basic header a client
    makes (\<open>client/auth.py\<close>), and the entries of the configuration (\<open>config.py\<close>). Nobody is let in
    without a configured token or password.
  \<^item> \<open>Rpc_Errors\<close>, \<open>Rpc_Methods\<close>: the errors of the interfaces (\<open>jsonrpc/error_responses.py\<close>), the methods
    of a deployment (\<open>contracts/extensions\<close>) and the registry of their handlers (\<open>jsonrpc/dispatch.py\<close>).
    What is advertised is what is served, and no error shows a path.
  \<^item> \<open>Http_Gateway\<close>: the middleware (\<open>server/middleware.py\<close>, \<open>server/request_parsing.py\<close>,
    \<open>protocol_versions.py\<close>, \<open>trace_context.py\<close>). A request goes through its layers in the order of the
    code; what comes behind them is a parameter.
  \<^item> \<open>Rpc_Params\<close>, \<open>Rpc_Common\<close>, \<open>Rpc_Sessions\<close>, \<open>Rpc_Services\<close>, \<open>Rpc_Application\<close>: the extension methods of
    \<open>jsonrpc\<close>. The checks of parameters and the conversion of upstream payloads (\<open>parsing.py\<close>,
    \<open>jsonrpc/params.py\<close>, \<open>jsonrpc/methods.py\<close>), what the handlers share (\<open>handlers/common.py\<close>), the seven
    handlers, and the endpoint in front of them (\<open>jsonrpc/application.py\<close>). A handler works on the
    upstream client, the tables of sessions and interrupts, and the audit lines of the shell.
  \<^item> \<open>Rpc_Safety\<close>, \<open>Rpc_Effects\<close>: what the extension methods can do. That a call does not reach the
    upstream is said as: its outcome is the same for every transport. The shell and changes to
    workspaces need their capability, sessions and interrupts of others are refused, every claim is
    settled, directories stay in the workspace, and every failure is an answer.
  \<^item> \<open>Task_Store\<close>: \<open>server/context_helpers.py\<close> and \<open>server/task_store.py\<close>, the wrappers around the SDK's task
    stores. What was negotiated for a task outlives the process that negotiated it: the stored task says as much
    as the registry did.
  \<^item> \<open>Task_Requests\<close>: \<open>server/request_handler.py\<close>, the core methods on messages and tasks. Messages are checked
    before the SDK sees them, answers keep to the negotiated modes and extensions, and failures of the
    store are hidden, but for cancelling.
  \<^item> \<open>State_Schema\<close>: \<open>server/migrations.py\<close>. A database of any older version becomes current with its rows kept, one of a
    newer version is refused, and a migration that broke off is completed by the next start.
  \<^item> \<open>Sqlite_Files\<close>: \<open>server/database.py\<close>, the file of an SQLite database on a file system that other processes
    change too, and the connections to it. The file is private when a connection is handed out, and hardening
    touches no other file.
  \<^item> \<open>Peer_Settings\<close>, \<open>Peer_Requests\<close>: \<open>client/config.py\<close>, \<open>client/client.py\<close>, \<open>client/request_context.py\<close> and
    \<open>client/agent_card.py\<close>, the client for another agent and its settings. Settings that load are usable, calls
    carry the protocol version and their credentials, and no header hides in the metadata of a message.
  \<^item> \<open>Service_Setup\<close>: \<open>config.py\<close>, \<open>server/lifespan.py\<close> and the context of a request (\<open>server/application.py\<close>). A
    configuration that is accepted lets the service tell its callers apart, its parts stop in an order that
    fits what they work on, and a request acts as the principal it was let in with.
  \<^item> \<open>Stream_Delivery\<close>: streams over the JSON-RPC endpoint, whose budgets begin with the first event.
  \<^item> \<open>Metrics\<close>: \<open>execution/metrics.py\<close>. Counters add up, and the text of the metrics reads back as the registry.

  Conventions. State is passed explicitly; an operation that awaits is split where other
  operations can run, and what they do there is a parameter or a step of a transition relation.
  Exceptions are values. Each critical section reads the clock once, and times are rationals.
  Floating-point numbers are exact rationals with a parameter that prints them. Characters are
  those of HOL, U+00 to U+FF. A \<open>Struct\<close> of the protocol is the mapping it holds. No definition
  needs fuel: the loops of the program run over the events, connections, turns or items the
  outside world delivers, which are lists, and an execution that still waits when its list is
  used up has no result. The polling loop is a partial function, \<open>None\<close> being that it runs forever.

  Not modelled: the command line and the wiring of the server; settings without a rule; the documents
  the service publishes (agent card, \<open>OpenAPI\<close>, profile, catalogue of contracts); the form of a database
  URL for the log; logging. These are input and output, tables of constants, or calls of
  libraries that the sources only use. Of the core methods of the JSON-RPC endpoint, what the SDK does is
  a parameter.
\<close>

end
